(* ===== verification/Prelude.thy ===== *)
theory Prelude
  imports Complex_Main "HOL-Library.Multiset" "HOL-Library.Word" "HOL-Library.Signed_Division"
begin

text \<open>
  Shared vocabulary of the development: the C integer types as machine words, the
  parts of the C standard library the sources use on strings and numbers
  (isspace, toupper, strtol, strtok), and the generic lemmas and lemma
  collections the component theories rely on.
\<close>

unbundle bit_operations_syntax

section \<open>Machine types\<close>

type_synonym u8 = "8 word"
type_synonym u16 = "16 word"
type_synonym u32 = "32 word"
type_synonym u64 = "64 word"

text \<open>UINT64_MAX and the limits of int and long on the LP64 targets of the program.\<close>

abbreviation UINT64_MAX :: u64 where "UINT64_MAX \<equiv> 18446744073709551615"
abbreviation INT_MAX :: int where "INT_MAX \<equiv> 2147483647"
abbreviation INT_MIN :: int where "INT_MIN \<equiv> - 2147483648"
abbreviation LONG_MAX :: int where "LONG_MAX \<equiv> 9223372036854775807"
abbreviation LONG_MIN :: int where "LONG_MIN \<equiv> - 9223372036854775808"

text \<open>Lemma collections: unfolding rules of a component's operations, and preservation
  of the component invariants.\<close>

named_theorems op_defs \<open>definitions of component operations\<close>
named_theorems inv_intros \<open>preservation of component invariants\<close>

section \<open>Characters and strings\<close>

text \<open>A C string is a list of characters with no terminating NUL; NULL is \<open>None\<close>.\<close>

definition char_code :: "char \<Rightarrow> int" where
  "char_code c = int (of_char c :: nat)"

lemma char_code_bounds: "0 \<le> char_code c" "char_code c < 256"
proof -
  have "(of_char c :: nat) < 256" by simp
  then show "char_code c < 256" by (simp only: char_code_def)
qed (simp add: char_code_def)

text \<open>C's plain char is signed on the targets of the program.\<close>

definition schar_code :: "char \<Rightarrow> int" where
  "schar_code c = (if char_code c < 128 then char_code c else char_code c - 256)"

definition isspace :: "char \<Rightarrow> bool" where
  "isspace c \<longleftrightarrow> c \<in> {CHR 0x20, CHR 0x09, CHR 0x0A, CHR 0x0B, CHR 0x0C, CHR 0x0D}"

definition is_digit :: "char \<Rightarrow> bool" where
  "is_digit c \<longleftrightarrow> 48 \<le> char_code c \<and> char_code c \<le> 57"

definition digit_value :: "char \<Rightarrow> int" where
  "digit_value c = char_code c - 48"

definition toupper :: "char \<Rightarrow> char" where
  "toupper c = (if 97 \<le> char_code c \<and> char_code c \<le> 122
                then char_of (nat (char_code c - 32)) else c)"

text \<open>The number written by a run of decimal digits, and \<open>strtol(s, &endptr, 10)\<close>: leading
  white space, an optional sign, digits, saturation at the limits of long.  The second
  component is the string at \<open>endptr\<close>; with no digits it is the whole argument.\<close>

fun digits_value :: "int \<Rightarrow> string \<Rightarrow> int" where
  "digits_value acc [] = acc"
| "digits_value acc (c # cs) = digits_value (10 * acc + digit_value c) cs"

definition saturate_long :: "int \<Rightarrow> int" where
  "saturate_long v = max LONG_MIN (min LONG_MAX v)"

definition strtol10 :: "string \<Rightarrow> int \<times> string" where
  "strtol10 s =
     (let t = dropWhile isspace s;
          neg = (t \<noteq> [] \<and> hd t = CHR ''-'');
          u = (if t \<noteq> [] \<and> (hd t = CHR ''-'' \<or> hd t = CHR ''+'') then tl t else t);
          ds = takeWhile is_digit u
      in if ds = [] then (0, s)
         else (saturate_long ((if neg then - 1 else 1) * digits_value 0 ds),
               dropWhile is_digit u))"

text \<open>\<open>strtok\<close> over a one-character delimiter: maximal runs of other characters, empty
  tokens skipped.\<close>

fun split_tokens :: "char \<Rightarrow> string \<Rightarrow> string \<Rightarrow> string list" where
  "split_tokens d acc [] = (if acc = [] then [] else [rev acc])"
| "split_tokens d acc (c # cs) =
     (if c = d then (if acc = [] then split_tokens d [] cs
                     else rev acc # split_tokens d [] cs)
      else split_tokens d (c # acc) cs)"

definition strtok_list :: "char \<Rightarrow> string \<Rightarrow> string list" where
  "strtok_list d s = split_tokens d [] s"

lemma split_tokens_nonempty: "[] \<notin> set (split_tokens d acc cs)"
  by (induction d acc cs rule: split_tokens.induct) auto

lemma split_tokens_no_delim:
  "d \<notin> set acc \<Longrightarrow> t \<in> set (split_tokens d acc cs) \<Longrightarrow> d \<notin> set t"
  by (induction d acc cs rule: split_tokens.induct) (auto split: if_splits)

text \<open>The tokens keep every character that is not the delimiter, in order.\<close>

lemma concat_split_tokens:
  "d \<notin> set acc \<Longrightarrow> concat (split_tokens d acc cs) = rev acc @ filter (\<lambda>c. c \<noteq> d) cs"
  by (induction d acc cs rule: split_tokens.induct) auto

lemma strtok_list_spec:
  "t \<in> set (strtok_list d s) \<Longrightarrow> t \<noteq> [] \<and> d \<notin> set t"
  unfolding strtok_list_def
  using split_tokens_no_delim [of d "[]" t s] split_tokens_nonempty [of d "[]" s] by auto

lemma concat_strtok_list: "concat (strtok_list d s) = filter (\<lambda>c. c \<noteq> d) s"
  unfolding strtok_list_def by (simp add: concat_split_tokens)

section \<open>Words\<close>

lemma unat_of_nat_small: "n < 2 ^ LENGTH('a) \<Longrightarrow> unat (of_nat n :: 'a::len word) = n"
  by (simp add: unat_of_nat take_bit_nat_eq_self)

lemma u64_max_top: "x \<le> (UINT64_MAX :: u64)"
proof -
  have "(UINT64_MAX :: u64) = - 1" by simp
  then show ?thesis by (metis word_n1_ge)
qed

section \<open>Lists\<close>

lemma find_append: "find P (xs @ ys) = (case find P xs of None \<Rightarrow> find P ys | Some x \<Rightarrow> Some x)"
  by (induction xs) auto

lemma find_None_filter: "find P xs = None \<longleftrightarrow> (\<forall>x \<in> set xs. \<not> P x)"
  by (auto simp: find_None_iff)

lemma sum_list_update_add:
  "i < length xs \<Longrightarrow> sum_list (xs[i := xs ! i + d]) = sum_list xs + (d :: 'a::comm_monoid_add)"
  by (induction xs arbitrary: i) (auto split: nat.splits simp: add_ac)

lemma sum_list_zero: "(\<And>x. x \<in> set xs \<Longrightarrow> f x = 0) \<Longrightarrow> (\<Sum>x\<leftarrow>xs. f x) = (0 :: 'a::comm_monoid_add)"
  by (induction xs) auto

lemma unat_sum_list:
  "sum_list (map unat ws) < 2 ^ LENGTH('a) \<Longrightarrow> unat (sum_list (ws :: 'a::len word list)) = sum_list (map unat ws)"
  by (induction ws) (simp_all add: unat_word_ariths)

section \<open>Merging in any order\<close>

text \<open>
  The interface of the aggregations the reports make over per-thread data: timers, counters
  and histogram slots are folded with a merge operation, thread by thread.  Whatever the
  order in which the workers are visited, the aggregate is the same, and it does not depend
  on how the workers are grouped.
\<close>

locale comm_merge =
  fixes merge :: "'a \<Rightarrow> 'a \<Rightarrow> 'a" and unit :: "'a"
  assumes merge_assoc: "merge (merge x y) z = merge x (merge y z)"
    and merge_comm: "merge x y = merge y x"
    and merge_unit: "merge unit x = x"
begin

definition merge_all :: "'a list \<Rightarrow> 'a" where
  "merge_all xs = foldl merge unit xs"

lemma merge_unit_right: "merge x unit = x"
  by (simp add: merge_comm merge_unit)

lemma foldl_merge: "foldl merge a xs = merge a (foldl merge unit xs)"
proof (induction xs arbitrary: a)
  case Nil
  then show ?case by (simp add: merge_unit_right)
next
  case (Cons x xs)
  show ?case using Cons [of "merge a x"] Cons [of x]
    by (simp add: merge_unit merge_assoc)
qed

lemma merge_all_Cons: "merge_all (x # xs) = merge x (merge_all xs)"
  unfolding merge_all_def using foldl_merge [of x xs] by (simp add: merge_unit)

lemma merge_all_append: "merge_all (xs @ ys) = merge (merge_all xs) (merge_all ys)"
  unfolding merge_all_def by (simp add: foldl_merge [of "foldl merge unit xs" ys])

lemma merge_all_rotate: "merge_all (xs @ y # ys) = merge y (merge_all (xs @ ys))"
  by (simp add: merge_all_append merge_all_Cons)
    (metis merge_assoc merge_comm)

lemma merge_all_perm: "mset xs = mset ys \<Longrightarrow> merge_all xs = merge_all ys"
proof (induction xs arbitrary: ys)
  case Nil
  then show ?case by simp
next
  case (Cons x xs)
  from Cons.prems have "x \<in> set ys"
    by (metis list.set_intros(1) set_mset_mset)
  then obtain us vs where ys: "ys = us @ x # vs"
    by (meson split_list)
  with Cons.prems have "mset xs = mset (us @ vs)" by simp
  then have "merge_all xs = merge_all (us @ vs)" by (rule Cons.IH)
  then show ?case by (simp add: ys merge_all_Cons merge_all_rotate)
qed

end

end
