(* ===== verification/IntrusiveList.thy ===== *)
theory IntrusiveList
  imports Prelude
begin

text \<open>
  The intrusive, circular, doubly linked lists of \<open>sb_list.h\<close>.  Every list of the program
  (options, option values, tests, drivers, log handlers) is one of them.  A store gives the
  two link fields of every item; the macros are sequences of single field assignments, read
  and written in the order of the source.  \<open>list_rep s h xs\<close> says that the items reached
  from the head \<open>h\<close> are \<open>xs\<close>, in order; each macro is shown to refine the list operation
  it stands for, so that the other components may work with HOL lists.
\<close>

section \<open>The store and the macros\<close>

record 'p link_store =
  next_p :: "'p \<Rightarrow> 'p"
  prev_p :: "'p \<Rightarrow> 'p"

definition set_next :: "'p \<Rightarrow> 'p \<Rightarrow> 'p link_store \<Rightarrow> 'p link_store" where
  "set_next p q s = s\<lparr>next_p := (next_p s)(p := q)\<rparr>"

definition set_prev :: "'p \<Rightarrow> 'p \<Rightarrow> 'p link_store \<Rightarrow> 'p link_store" where
  "set_prev p q s = s\<lparr>prev_p := (prev_p s)(p := q)\<rparr>"

lemma set_next_simps [simp]:
  "next_p (set_next p q s) = (next_p s)(p := q)"
  "prev_p (set_next p q s) = prev_p s"
  "prev_p (set_prev p q s) = (prev_p s)(p := q)"
  "next_p (set_prev p q s) = next_p s"
  by (simp_all add: set_next_def set_prev_def)

definition SB_LIST_INIT :: "'p \<Rightarrow> 'p link_store \<Rightarrow> 'p link_store" where
  "SB_LIST_INIT head s = set_prev head head (set_next head head s)"

definition SB_LIST_ADD :: "'p \<Rightarrow> 'p \<Rightarrow> 'p link_store \<Rightarrow> 'p link_store" where
  "SB_LIST_ADD item head s =
     (let s = set_next item (next_p s head) s;
          s = set_prev item head s;
          s = set_next head item s
      in set_prev (next_p s item) item s)"

definition SB_LIST_ADD_TAIL :: "'p \<Rightarrow> 'p \<Rightarrow> 'p link_store \<Rightarrow> 'p link_store" where
  "SB_LIST_ADD_TAIL item head s =
     (let s = set_prev item (prev_p s head) s;
          s = set_next item head s;
          s = set_prev head item s
      in set_next (prev_p s item) item s)"

definition SB_LIST_DELETE :: "'p \<Rightarrow> 'p link_store \<Rightarrow> 'p link_store" where
  "SB_LIST_DELETE old s =
     (let s = set_prev (next_p s old) (prev_p s old) s
      in set_next (prev_p s old) (next_p s old) s)"

definition SB_LIST_REPLACE :: "'p \<Rightarrow> 'p \<Rightarrow> 'p link_store \<Rightarrow> 'p link_store" where
  "SB_LIST_REPLACE item old s =
     (let s = set_next item (next_p s old) s;
          s = set_prev item (prev_p s old) s;
          s = set_prev (next_p s item) item s
      in set_next (prev_p s item) item s)"

definition SB_LIST_IS_EMPTY :: "'p \<Rightarrow> 'p link_store \<Rightarrow> bool" where
  "SB_LIST_IS_EMPTY head s \<longleftrightarrow> next_p s head = head"

definition SB_LIST_ITEM_IN_LIST :: "'p \<Rightarrow> 'p link_store \<Rightarrow> bool" where
  "SB_LIST_ITEM_IN_LIST item s \<longleftrightarrow> next_p s item \<noteq> item"

text \<open>As written in the source: the test is \<open>!=\<close>, so it holds of every item but the first.\<close>

definition SB_LIST_ITEM_FIRST :: "'p \<Rightarrow> 'p \<Rightarrow> 'p link_store \<Rightarrow> bool" where
  "SB_LIST_ITEM_FIRST item head s \<longleftrightarrow> prev_p s item \<noteq> head"

definition SB_LIST_ITEM_LAST :: "'p \<Rightarrow> 'p \<Rightarrow> 'p link_store \<Rightarrow> bool" where
  "SB_LIST_ITEM_LAST item head s \<longleftrightarrow> next_p s item = head"

text \<open>\<open>SB_LIST_FOR_EACH\<close>, as the sequence of positions its body sees; \<open>None\<close> when the walk
  never comes back to the head.\<close>

partial_function (option) for_each_from ::
    "'p link_store \<Rightarrow> 'p \<Rightarrow> 'p \<Rightarrow> 'p list option" where
  "for_each_from s head pos =
     (if pos = head then Some []
      else Option.bind (for_each_from s head (next_p s pos)) (\<lambda>ps. Some (pos # ps)))"

definition SB_LIST_FOR_EACH :: "'p link_store \<Rightarrow> 'p \<Rightarrow> 'p list option" where
  "SB_LIST_FOR_EACH s head = for_each_from s head (next_p s head)"

text \<open>\<open>SB_LIST_ENUM_NEXT\<close>: the next position, NULL at the end.\<close>

definition SB_LIST_ENUM_NEXT :: "'p link_store \<Rightarrow> 'p \<Rightarrow> 'p \<Rightarrow> 'p option" where
  "SB_LIST_ENUM_NEXT s pos head = (if next_p s pos \<noteq> head then Some (next_p s pos) else None)"

text \<open>\<open>SB_LIST_FOR_EACH_SAFE\<close> with a body that changes the store: the successor is read
  before the body runs.\<close>

partial_function (option) for_each_safe_from ::
    "('p \<Rightarrow> 'p link_store \<Rightarrow> 'p link_store) \<Rightarrow> 'p \<Rightarrow> 'p link_store \<Rightarrow> 'p \<Rightarrow> 'p \<Rightarrow>
     'p link_store option" where
  "for_each_safe_from body head s pos temp =
     (if pos = head then Some s
      else for_each_safe_from body head (body pos s) temp (next_p (body pos s) temp))"

definition SB_LIST_FOR_EACH_SAFE ::
    "('p \<Rightarrow> 'p link_store \<Rightarrow> 'p link_store) \<Rightarrow> 'p \<Rightarrow> 'p link_store \<Rightarrow> 'p link_store option" where
  "SB_LIST_FOR_EACH_SAFE body head s =
     for_each_safe_from body head s (next_p s head) (next_p s (next_p s head))"

section \<open>Representation\<close>

fun links :: "'p link_store \<Rightarrow> 'p list \<Rightarrow> bool" where
  "links s [] = True"
| "links s [x] = True"
| "links s (x # y # zs) = (next_p s x = y \<and> prev_p s y = x \<and> links s (y # zs))"

definition list_rep :: "'p link_store \<Rightarrow> 'p \<Rightarrow> 'p list \<Rightarrow> bool" where
  "list_rep s h xs \<longleftrightarrow> distinct (h # xs) \<and> links s (h # xs @ [h])"

text \<open>A chain splits into two chains and the pair of links between them.\<close>

lemma links_join:
  "us \<noteq> [] \<Longrightarrow> vs \<noteq> [] \<Longrightarrow>
   links s (us @ vs) \<longleftrightarrow>
     links s us \<and> links s vs \<and> next_p s (last us) = hd vs \<and> prev_p s (hd vs) = last us"
proof (induction s us rule: links.induct)
  case (2 s x)
  then show ?case by (cases vs) auto
qed auto

text \<open>Assignments to an item that does not occur leave a chain alone; the last item's
  successor and the first item's predecessor are not part of it.\<close>

lemma links_set_next: "p \<notin> set (butlast xs) \<Longrightarrow> links (set_next p q s) xs = links s xs"
  by (induction s xs rule: links.induct) (auto split: if_splits)

lemma links_set_prev: "p \<notin> set (tl xs) \<Longrightarrow> links (set_prev p q s) xs = links s xs"
  by (induction s xs rule: links.induct) auto

lemmas links_upd = links_set_next links_set_prev

lemma list_rep_next: "list_rep s h xs \<Longrightarrow> next_p s h = hd (xs @ [h])"
  by (cases xs) (auto simp: list_rep_def)

lemma list_rep_prev: "list_rep s h xs \<Longrightarrow> prev_p s h = last (h # xs)"
  using links_join [of "h # xs" "[h]" s] by (simp add: list_rep_def)

text \<open>The neighbours of an item in the middle of a list, and the chains on both sides.\<close>

lemma list_rep_mid:
  assumes "list_rep s h (xs @ [x] @ ys)"
  shows "next_p s x = hd (ys @ [h])" "prev_p s x = last (h # xs)"
    "links s (h # xs)" "links s (ys @ [h])"
    "distinct (h # xs @ ys)" "x \<notin> set (h # xs @ ys)"
  using assms links_join [of "h # xs" "[x] @ ys @ [h]" s] links_join [of "[x]" "ys @ [h]" s]
  by (auto simp: list_rep_def)

lemma last_hd_mem:
  "last (h # xs) \<in> set (h # xs)" "hd (ys @ [h]) \<in> set (ys @ [h])"
  by (rule last_in_set, simp) (rule hd_in_set, simp)

lemma last_notin_butlast: "distinct xs \<Longrightarrow> xs \<noteq> [] \<Longrightarrow> last xs \<notin> set (butlast xs)"
  by (cases xs rule: rev_cases) auto

lemma hd_notin_tl: "distinct xs \<Longrightarrow> xs \<noteq> [] \<Longrightarrow> hd xs \<notin> set (tl xs)"
  by (cases xs) auto

text \<open>Rewriting the two outer links around a gap leaves the chains on both sides intact.\<close>

lemma links_around_gap:
  assumes d: "distinct (h # xs @ ys)"
    and l: "links s (h # xs)" "links s (ys @ [h])"
  shows "links (set_next (last (h # xs)) p (set_prev (hd (ys @ [h])) q s)) (h # xs)"
    "links (set_next (last (h # xs)) p (set_prev (hd (ys @ [h])) q s)) (ys @ [h])"
proof -
  have "last (h # xs) \<notin> set (butlast (h # xs))"
    using d by (intro last_notin_butlast) auto
  moreover have "hd (ys @ [h]) \<notin> set (tl (h # xs))"
    using d by (cases ys) auto
  ultimately show "links (set_next (last (h # xs)) p (set_prev (hd (ys @ [h])) q s)) (h # xs)"
    using l by (simp add: links_upd)
  have "last (h # xs) \<notin> set ys"
    using d last_hd_mem(1) [of h xs] by auto
  moreover have "hd (ys @ [h]) \<notin> set (tl (ys @ [h]))"
    using d by (intro hd_notin_tl) auto
  ultimately show "links (set_next (last (h # xs)) p (set_prev (hd (ys @ [h])) q s)) (ys @ [h])"
    using l by (simp add: links_upd)
qed

section \<open>The macros refine the list operations\<close>

lemma rep_INIT: "list_rep (SB_LIST_INIT h s) h []"
  by (simp add: list_rep_def SB_LIST_INIT_def)

lemma rep_IS_EMPTY: "list_rep s h xs \<Longrightarrow> SB_LIST_IS_EMPTY h s \<longleftrightarrow> xs = []"
  by (cases xs) (auto simp: SB_LIST_IS_EMPTY_def list_rep_def)

lemma rep_DELETE:
  assumes rep: "list_rep s h (xs @ [x] @ ys)"
  shows "list_rep (SB_LIST_DELETE x s) h (xs @ ys)"
proof -
  note m = list_rep_mid [OF rep]
  let ?a = "last (h # xs)" and ?b = "hd (ys @ [h])"
  have "x \<noteq> ?a" "x \<noteq> ?b"
    using m(6) last_hd_mem(1) [of h xs] last_hd_mem(2) [of ys h] by auto
  then have t: "SB_LIST_DELETE x s = set_next ?a ?b (set_prev ?b ?a s)"
    using m by (simp add: SB_LIST_DELETE_def Let_def)
  have "links (SB_LIST_DELETE x s) ((h # xs) @ ys @ [h])"
    unfolding t using links_around_gap [OF m(5,3,4)]
    by (subst links_join) simp_all
  with m(5) show ?thesis by (simp add: list_rep_def)
qed

text \<open>The two insertions and the replacement link an item \<open>z\<close>, not in the list, into a gap.\<close>

lemma links_fill_gap:
  assumes d: "distinct (h # xs @ ys)" and z: "z \<notin> set (h # xs @ ys)"
    and l: "links s (h # xs)" "links s (ys @ [h])"
    and t: "next_p t = (next_p s)(z := hd (ys @ [h]), last (h # xs) := z)"
      "prev_p t = (prev_p s)(z := last (h # xs), hd (ys @ [h]) := z)"
  shows "list_rep t h (xs @ [z] @ ys)"
proof -
  let ?a = "last (h # xs)" and ?b = "hd (ys @ [h])"
  have nz: "z \<noteq> ?a" "z \<noteq> ?b"
    using z last_hd_mem(1) [of h xs] last_hd_mem(2) [of ys h] by auto
  have t': "t = set_next ?a z (set_prev ?b z (set_next z ?b (set_prev z ?a s)))"
    by (rule link_store.equality) (use t nz in \<open>auto simp: fun_eq_iff\<close>)
  let ?s = "set_next z ?b (set_prev z ?a s)"
  have "z \<notin> set (butlast (h # xs))" "z \<notin> set (tl (ys @ [h]))"
    using z by (auto dest: in_set_butlastD) (cases ys; auto)
  then have "links ?s (h # xs)" "links ?s (ys @ [h])"
    using l z by (auto simp: links_upd)
  note g = links_around_gap [OF d this, of z z, folded t']
  have "links t ([z] @ ys @ [h])"
    using g(2) nz t by (subst links_join) auto
  then have "links t ((h # xs) @ [z] @ ys @ [h])"
    using g(1) nz t by (subst links_join) auto
  with d z show ?thesis by (auto simp: list_rep_def)
qed

lemma rep_ADD:
  assumes rep: "list_rep s h xs" and fresh: "item \<notin> set (h # xs)"
  shows "list_rep (SB_LIST_ADD item h s) h (item # xs)"
proof -
  have "links s [h]" "links s (xs @ [h])"
    using rep links_join [of "[h]" "xs @ [h]" s] by (auto simp: list_rep_def)
  then have "list_rep (SB_LIST_ADD item h s) h ([] @ [item] @ xs)"
    using rep fresh list_rep_next [OF rep] last_hd_mem(2) [of xs h]
    by (intro links_fill_gap) (auto simp: list_rep_def SB_LIST_ADD_def Let_def fun_eq_iff)
  then show ?thesis by simp
qed

lemma rep_ADD_TAIL:
  assumes rep: "list_rep s h xs" and fresh: "item \<notin> set (h # xs)"
  shows "list_rep (SB_LIST_ADD_TAIL item h s) h (xs @ [item])"
proof -
  have "links s (h # xs)" "links s [h]"
    using rep links_join [of "h # xs" "[h]" s] by (auto simp: list_rep_def)
  then have "list_rep (SB_LIST_ADD_TAIL item h s) h (xs @ [item] @ [])"
    using rep fresh list_rep_prev [OF rep] last_hd_mem(1) [of h xs]
    by (intro links_fill_gap) (auto simp: list_rep_def SB_LIST_ADD_TAIL_def Let_def fun_eq_iff)
  then show ?thesis by simp
qed

lemma rep_REPLACE:
  assumes rep: "list_rep s h (xs @ [old] @ ys)" and fresh: "item \<notin> set (h # xs @ [old] @ ys)"
  shows "list_rep (SB_LIST_REPLACE item old s) h (xs @ [item] @ ys)"
proof -
  note m = list_rep_mid [OF rep]
  have ne: "item \<noteq> last (h # xs)" "item \<noteq> hd (ys @ [h])" "item \<noteq> old"
    "old \<noteq> last (h # xs)" "old \<noteq> hd (ys @ [h])"
    using fresh m(6) last_hd_mem(1) [of h xs] last_hd_mem(2) [of ys h] by auto
  show ?thesis
    by (rule links_fill_gap [OF m(5) _ m(3,4)])
      (use fresh ne m in \<open>auto simp: SB_LIST_REPLACE_def Let_def fun_eq_iff\<close>)
qed

section \<open>Traversals\<close>

lemma for_each_links:
  assumes "links s (xs @ [h])" "h \<notin> set xs"
  shows "for_each_from s h (hd (xs @ [h])) = Some xs"
  using assms
proof (induction xs)
  case Nil
  show ?case by (simp add: for_each_from.simps)
next
  case (Cons x xs)
  have "next_p s x = hd (xs @ [h])" "links s (xs @ [h])"
    using Cons.prems(1) links_join [of "[x]" "xs @ [h]" s] by auto
  with Cons show ?case by (auto simp: for_each_from.simps [of s h x])
qed

text \<open>\<open>SB_LIST_FOR_EACH\<close> returns, and visits exactly the items of the list, in order.\<close>

lemma rep_FOR_EACH:
  assumes "list_rep s h xs"
  shows "SB_LIST_FOR_EACH s h = Some xs"
proof -
  have "links s (xs @ [h])" "h \<notin> set xs"
    using assms links_join [of "[h]" "xs @ [h]" s] by (auto simp: list_rep_def)
  then show ?thesis
    by (simp add: SB_LIST_FOR_EACH_def list_rep_next [OF assms] for_each_links)
qed

lemma rep_ENUM_NEXT:
  assumes "list_rep s h (xs @ [x] @ ys)"
  shows "SB_LIST_ENUM_NEXT s x h = (case ys of [] \<Rightarrow> None | y # _ \<Rightarrow> Some y)"
  using list_rep_mid [OF assms] by (cases ys) (auto simp: SB_LIST_ENUM_NEXT_def)

lemma rep_ITEM_LAST:
  assumes "list_rep s h (xs @ [x] @ ys)"
  shows "SB_LIST_ITEM_LAST x h s \<longleftrightarrow> ys = []"
  using list_rep_mid [OF assms] by (cases ys) (auto simp: SB_LIST_ITEM_LAST_def)

lemma rep_ITEM_FIRST:
  assumes "list_rep s h (xs @ [x] @ ys)"
  shows "SB_LIST_ITEM_FIRST x h s \<longleftrightarrow> xs \<noteq> []"
  using list_rep_mid [OF assms] last_hd_mem(1) [of h xs]
  by (cases xs) (auto simp: SB_LIST_ITEM_FIRST_def split: if_splits)

text \<open>A \<open>SB_LIST_FOR_EACH_SAFE\<close> loop that deletes every item it visits, as \<open>free_values\<close>
  does, returns and leaves an empty list.\<close>

lemma for_each_safe_delete:
  "list_rep s h xs \<Longrightarrow>
   \<exists>t. for_each_safe_from SB_LIST_DELETE h s (next_p s h) (next_p s (next_p s h)) = Some t
       \<and> list_rep t h []"
proof (induction xs arbitrary: s)
  case Nil
  then have "next_p s h = h" by (simp add: list_rep_def)
  with Nil show ?case by (simp add: for_each_safe_from.simps)
next
  case (Cons x xs)
  let ?t = "SB_LIST_DELETE x s"
  have r: "list_rep s h ([] @ [x] @ xs)" using Cons.prems by simp
  have t: "list_rep ?t h xs" using rep_DELETE [OF r] by simp
  have nx: "next_p s h = x" "next_p s x = hd (xs @ [h])" "x \<noteq> h"
    using list_rep_next [OF Cons.prems] list_rep_mid [OF r] Cons.prems
    by (auto simp: list_rep_def)
  have "next_p ?t h = next_p s x" using list_rep_next [OF t] nx by simp
  with Cons.IH [OF t] nx show ?case
    by (subst for_each_safe_from.simps) simp
qed

lemma rep_FOR_EACH_SAFE_DELETE:
  assumes "list_rep s h xs"
  obtains t where "SB_LIST_FOR_EACH_SAFE SB_LIST_DELETE h s = Some t" "list_rep t h []"
  using for_each_safe_delete [OF assms] by (auto simp: SB_LIST_FOR_EACH_SAFE_def)

section \<open>The interface of an item list\<close>

text \<open>
  What the components that keep their items in such a list rely on: a representation
  relation, insertion at the tail, removal, and an enumeration that agree with the list
  operations.  A linear search (\<open>find_option\<close>, \<open>find_value\<close>, \<open>find_test\<close>, the driver and
  handler lookups) over the enumeration is then a search over the represented list.
\<close>

locale item_list =
  fixes rep :: "'s \<Rightarrow> 'p \<Rightarrow> 'p list \<Rightarrow> bool"
    and init :: "'p \<Rightarrow> 's \<Rightarrow> 's"
    and add_tail :: "'p \<Rightarrow> 'p \<Rightarrow> 's \<Rightarrow> 's"
    and delete :: "'p \<Rightarrow> 's \<Rightarrow> 's"
    and enum :: "'s \<Rightarrow> 'p \<Rightarrow> 'p list option"
  assumes rep_init: "rep (init h s) h []"
    and rep_add_tail: "rep s h xs \<Longrightarrow> x \<notin> set (h # xs) \<Longrightarrow> rep (add_tail x h s) h (xs @ [x])"
    and rep_delete: "rep s h (xs @ [x] @ ys) \<Longrightarrow> rep (delete x s) h (xs @ ys)"
    and rep_enum: "rep s h xs \<Longrightarrow> enum s h = Some xs"
begin

definition search :: "('p \<Rightarrow> bool) \<Rightarrow> 's \<Rightarrow> 'p \<Rightarrow> 'p option" where
  "search P s h = Option.bind (enum s h) (find P)"

lemma search_rep: "rep s h xs \<Longrightarrow> search P s h = find P xs"
  by (simp add: search_def rep_enum)

text \<open>An item added at the tail is found, unless an earlier one matches.\<close>

lemma search_add_tail:
  assumes "rep s h xs" "x \<notin> set (h # xs)" "P x"
  shows "search P (add_tail x h s) h = (case search P s h of None \<Rightarrow> Some x | Some y \<Rightarrow> Some y)"
  using assms by (simp add: search_rep [OF rep_add_tail] search_rep find_append split: option.split)

text \<open>After the only match is removed there is none left.\<close>

lemma search_delete:
  assumes "rep s h (xs @ [x] @ ys)" "\<forall>y \<in> set (xs @ ys). \<not> P y"
  shows "search P (delete x s) h = None"
  using assms by (auto simp: search_rep [OF rep_delete] find_None_iff)

end

interpretation sb_list: item_list list_rep SB_LIST_INIT SB_LIST_ADD_TAIL SB_LIST_DELETE SB_LIST_FOR_EACH
  by unfold_locales (auto intro: rep_INIT rep_ADD_TAIL rep_DELETE rep_FOR_EACH)

section \<open>Sequences of list operations\<close>

datatype 'p list_action = Op_add 'p | Op_add_tail 'p | Op_delete 'p | Op_replace 'p 'p

fun macro_op :: "'p \<Rightarrow> 'p list_action \<Rightarrow> 'p link_store \<Rightarrow> 'p link_store" where
  "macro_op h (Op_add x) s = SB_LIST_ADD x h s"
| "macro_op h (Op_add_tail x) s = SB_LIST_ADD_TAIL x h s"
| "macro_op h (Op_delete x) s = SB_LIST_DELETE x s"
| "macro_op h (Op_replace x y) s = SB_LIST_REPLACE x y s"

text \<open>The list operation, \<open>None\<close> when the macro is used outside its contract: adding an item
  that is linked already, deleting or replacing one that is not.\<close>

fun list_edit :: "'p \<Rightarrow> 'p list_action \<Rightarrow> 'p list \<Rightarrow> 'p list option" where
  "list_edit h (Op_add x) xs = (if x \<in> set (h # xs) then None else Some (x # xs))"
| "list_edit h (Op_add_tail x) xs = (if x \<in> set (h # xs) then None else Some (xs @ [x]))"
| "list_edit h (Op_delete x) xs = (if x \<in> set xs then Some (remove1 x xs) else None)"
| "list_edit h (Op_replace x y) xs =
     (if x \<in> set (h # xs) \<or> y \<notin> set xs then None else Some (map (\<lambda>z. if z = y then x else z) xs))"

fun list_edits :: "'p \<Rightarrow> 'p list_action list \<Rightarrow> 'p list \<Rightarrow> 'p list option" where
  "list_edits h [] xs = Some xs"
| "list_edits h (e # es) xs = Option.bind (list_edit h e xs) (list_edits h es)"

lemma split_distinct:
  assumes "x \<in> set xs" "distinct xs"
  obtains ys zs where "xs = ys @ [x] @ zs" "remove1 x xs = ys @ zs" "x \<notin> set (ys @ zs)"
proof -
  obtain ys zs where "xs = ys @ x # zs" using assms(1) by (meson split_list)
  with assms(2) show thesis by (intro that [of ys zs]) (simp_all add: remove1_append)
qed

lemma macro_op_refines:
  assumes rep: "list_rep s h xs" and run: "list_edit h e xs = Some ys"
  shows "list_rep (macro_op h e s) h ys"
proof (cases e)
  case (Op_delete x)
  with run rep have "x \<in> set xs" "distinct xs" by (auto simp: list_rep_def split: if_splits)
  then obtain us vs where u: "xs = us @ [x] @ vs" "remove1 x xs = us @ vs" by (rule split_distinct)
  show ?thesis using rep_DELETE [of s h us x vs] rep run Op_delete u by (auto split: if_splits)
next
  case (Op_replace x y)
  with run rep have y: "y \<in> set xs" "distinct xs" "x \<notin> set (h # xs)"
    by (auto simp: list_rep_def split: if_splits)
  then obtain us vs where u: "xs = us @ [y] @ vs" "y \<notin> set (us @ vs)" by (metis split_distinct)
  have "map (\<lambda>z. if z = y then x else z) xs = us @ [x] @ vs"
    using u by (auto intro: map_idI)
  then show ?thesis using rep_REPLACE [of s h us y vs x] rep run Op_replace u y
    by (auto split: if_splits)
qed (use rep run rep_ADD [of s h xs] rep_ADD_TAIL [of s h xs] in \<open>auto split: if_splits\<close>)

lemma macro_ops_refine:
  "list_rep s h xs \<Longrightarrow> list_edits h es xs = Some ys \<Longrightarrow> list_rep (fold (macro_op h) es s) h ys"
  by (induction es arbitrary: s xs) (auto simp: bind_eq_Some_conv dest: macro_op_refines)

section \<open>Properties\<close>

text \<open>C13: The link-swapping macros implement lists: after \<open>SB_LIST_INIT\<close> on a store with
  arbitrary links and any sequence of insertions, deletions and replacements that respects
  the contract of the macros, the walk of \<open>SB_LIST_FOR_EACH\<close> returns and visits exactly the
  items of the abstract list in order, and \<open>SB_LIST_IS_EMPTY\<close> holds exactly for the empty
  list.\<close>

theorem list_macros_refine:
  assumes "list_edits h es [] = Some ys"
  shows "SB_LIST_FOR_EACH (fold (macro_op h) es (SB_LIST_INIT h s)) h = Some ys \<and>
    (SB_LIST_IS_EMPTY h (fold (macro_op h) es (SB_LIST_INIT h s)) \<longleftrightarrow> ys = [])"
  using macro_ops_refine [OF rep_INIT assms] by (simp add: rep_FOR_EACH rep_IS_EMPTY)

theorem list_macros_refine_witness:
  "SB_LIST_FOR_EACH (fold (macro_op (0::nat)) [Op_add_tail 1, Op_add 2, Op_add_tail 3, Op_replace 4 1, Op_delete 2]
     (SB_LIST_INIT 0 \<lparr>next_p = \<lambda>_. 7, prev_p = \<lambda>_. 9\<rparr>)) 0 = Some [4, 3]"
proof -
  have "list_edits (0::nat) [Op_add_tail 1, Op_add 2, Op_add_tail 3, Op_replace 4 1, Op_delete 2] [] = Some [4, 3]"
    by simp
  from list_macros_refine [OF this] show ?thesis by blast
qed

text \<open>\<open>SB_LIST_ITEM_FIRST\<close> is inverted: of the items of a list it holds for every one but
  the first, while \<open>SB_LIST_ITEM_LAST\<close> holds for the last one only.\<close>

theorem item_first_inverted:
  assumes "list_rep s h (xs @ [x] @ ys)"
  shows "(SB_LIST_ITEM_FIRST x h s \<longleftrightarrow> xs \<noteq> []) \<and> (SB_LIST_ITEM_LAST x h s \<longleftrightarrow> ys = [])"
  using rep_ITEM_FIRST [OF assms] rep_ITEM_LAST [OF assms] by simp

theorem item_first_inverted_witness:
  "\<not> SB_LIST_ITEM_FIRST (1::nat) 0 (SB_LIST_ADD 1 0 (SB_LIST_INIT 0 \<lparr>next_p = \<lambda>_. 7, prev_p = \<lambda>_. 9\<rparr>))"
proof -
  have "list_rep (SB_LIST_ADD (1::nat) 0 (SB_LIST_INIT 0 \<lparr>next_p = \<lambda>_. 7, prev_p = \<lambda>_. 9\<rparr>)) 0 ([] @ [1] @ [])"
    using rep_ADD [OF rep_INIT, of "1::nat" 0] by (simp del: One_nat_def)
  from item_first_inverted [OF this] show ?thesis by simp
qed

end
