(* ===== verification/Options.thy ===== *)
theory Options
  imports IntrusiveList
begin

text \<open>
  The options library (\<open>sb_options.c\<close>, \<open>sb_options.h\<close>): the registry of command line and
  configuration file options with their values, the typed getters, and the reader and the
  writer of configuration files.

  The registry is the list of options in registration order; the pointers the C functions
  hand out are positions in it (an option is only ever added at the tail, so a position
  stays valid).  That a list stands for the circular list of \<open>sb_list.h\<close> is what
  \<open>IntrusiveList\<close> proves of the macros.  Allocation is taken to succeed.  A file system
  maps a file name to the file's contents, and \<open>None\<close> to a file that cannot be opened.
\<close>

section \<open>Data\<close>

datatype sb_arg_type =
    SB_ARG_TYPE_NULL | SB_ARG_TYPE_BOOL | SB_ARG_TYPE_INT | SB_ARG_TYPE_SIZE
  | SB_ARG_TYPE_DOUBLE | SB_ARG_TYPE_STRING | SB_ARG_TYPE_LIST | SB_ARG_TYPE_FILE
  | SB_ARG_TYPE_MAX

type_synonym sb_opt_validate = "string \<Rightarrow> string option \<Rightarrow> bool"

record sb_arg =
  arg_name :: string
  arg_desc :: string
  arg_value :: "string option"
  arg_type :: sb_arg_type
  arg_validate :: "sb_opt_validate option"

record value_t =
  data :: string
  val_ignore :: bool

record option_t =
  opt_name :: string
  opt_type :: sb_arg_type
  opt_values :: "value_t list"
  opt_ignore :: bool
  opt_validate :: "sb_opt_validate option"

type_synonym options = "option_t list"
type_synonym file_system = "string \<Rightarrow> string option"

section \<open>Names\<close>

definition is_dash :: "char \<Rightarrow> bool" where
  "is_dash c \<longleftrightarrow> c = CHR ''-'' \<or> c = CHR ''_''"

definition convert_dashes :: "string \<Rightarrow> string" where
  "convert_dashes s = map (\<lambda>c. if c = CHR ''-'' then CHR ''_'' else c) s"

fun opt_name_cmp :: "string \<Rightarrow> string \<Rightarrow> int" where
  "opt_name_cmp [] [] = 0"
| "opt_name_cmp [] (b # s2) = 0 - schar_code b"
| "opt_name_cmp (a # s1) [] = schar_code a"
| "opt_name_cmp (a # s1) (b # s2) =
     (if a = b then opt_name_cmp s1 s2
      else if \<not> is_dash a \<or> \<not> is_dash b then schar_code a - schar_code b
      else opt_name_cmp s1 s2)"

section \<open>Registry operations\<close>

definition sb_options_init :: options where
  "sb_options_init = []"

definition new_value :: value_t where
  "new_value = \<lparr>data = [], val_ignore = False\<rparr>"

definition new_option :: option_t where
  "new_option = \<lparr>opt_name = [], opt_type = SB_ARG_TYPE_NULL, opt_values = [],
                 opt_ignore = False, opt_validate = None\<rparr>"

definition free_values :: "option_t \<Rightarrow> option_t" where
  "free_values opt = opt\<lparr>opt_values := []\<rparr>"

definition free_options :: "options \<Rightarrow> options" where
  "free_options opts = []"

definition add_value :: "string \<Rightarrow> option_t \<Rightarrow> option_t" where
  "add_value d opt = opt\<lparr>opt_values := opt_values opt @ [new_value\<lparr>data := d\<rparr>]\<rparr>"

fun index_of :: "('a \<Rightarrow> bool) \<Rightarrow> 'a list \<Rightarrow> nat option" where
  "index_of P [] = None"
| "index_of P (x # xs) = (if P x then Some 0 else map_option Suc (index_of P xs))"

definition find_value :: "option_t \<Rightarrow> string \<Rightarrow> nat option" where
  "find_value opt d = index_of (\<lambda>v. data v = d) (opt_values opt)"

definition find_option :: "options \<Rightarrow> string \<Rightarrow> nat option" where
  "find_option opts name = index_of (\<lambda>opt. opt_name_cmp (opt_name opt) name = 0) opts"

text \<open>\<open>add_option\<close>: the new registry and the position of the option.\<close>

definition add_option :: "options \<Rightarrow> string \<Rightarrow> options \<times> nat" where
  "add_option opts name =
     (case find_option opts name of
        Some i \<Rightarrow> (opts, i)
      | None \<Rightarrow> (opts @ [new_option\<lparr>opt_name := convert_dashes name\<rparr>], length opts))"

definition upd_option :: "nat \<Rightarrow> (option_t \<Rightarrow> option_t) \<Rightarrow> options \<Rightarrow> options" where
  "upd_option i f opts = opts[i := f (opts ! i)]"

definition drop_nth :: "nat \<Rightarrow> 'a list \<Rightarrow> 'a list" where
  "drop_nth i xs = take i xs @ drop (Suc i) xs"

text \<open>\<open>remove_value\<close> and \<open>remove_option\<close>: 0 on success, 1 when nothing matches.\<close>

definition remove_value :: "option_t \<Rightarrow> string \<Rightarrow> option_t \<times> nat" where
  "remove_value opt d =
     (case find_value opt d of
        None \<Rightarrow> (opt, 1)
      | Some i \<Rightarrow> (opt\<lparr>opt_values := drop_nth i (opt_values opt)\<rparr>, 0))"

definition remove_option :: "options \<Rightarrow> string \<Rightarrow> options \<times> nat" where
  "remove_option opts name =
     (case find_option opts name of
        None \<Rightarrow> (opts, 1)
      | Some i \<Rightarrow> (drop_nth i opts, 0))"

section \<open>Configuration files\<close>

text \<open>\<open>fgets(buf, 256, fp)\<close> until end of file: pieces of at most 255 characters, each
  ending at a newline or at the size limit.  The rest of a piece after a NUL byte is not
  seen by the string functions.\<close>

fun fgets_from :: "nat \<Rightarrow> string \<Rightarrow> string \<Rightarrow> string list" where
  "fgets_from room acc [] = (if acc = [] then [] else [rev acc])"
| "fgets_from room acc (c # cs) =
     (if c = CHR 0x0A \<or> room \<le> 1 then rev (c # acc) # fgets_from 255 [] cs
      else fgets_from (room - 1) (c # acc) cs)"

definition fgets_lines :: "string \<Rightarrow> string list" where
  "fgets_lines contents = map (takeWhile (\<lambda>c. c \<noteq> CHR 0x00)) (fgets_from 255 [] contents)"

text \<open>The value list after the \<open>=\<close> of a line.  The second component is false at the
  ``unexpected EOL'' error of an unterminated quoted value.\<close>

function read_values :: "string \<Rightarrow> string list \<times> bool" where
  "read_values [] = ([], True)"
| "read_values (c # cs) =
     (if isspace c then read_values cs
      else if c = CHR ''#'' then ([], True)
      else if c = CHR 0x27 \<or> c = CHR 0x22 then
        (let v = takeWhile (\<lambda>d. d \<noteq> c) cs; rest = dropWhile (\<lambda>d. d \<noteq> c) cs
         in if rest = [] then ([], False)
            else let (vs, ok) = read_values (drop 1 (dropWhile (\<lambda>d. d \<noteq> CHR '','') (tl rest)))
                 in (v # vs, ok))
      else
        (let sep = (\<lambda>d. d = CHR '','' \<or> isspace d);
             v = takeWhile (\<lambda>d. \<not> sep d) (c # cs);
             rest = dropWhile (\<lambda>d. \<not> sep d) (c # cs);
             (vs, ok) = read_values (drop 1 rest)
         in (v # vs, ok)))"
  by pat_completeness auto
termination
proof (relation "measure length", goal_cases)
  case (3 c cs v rest)
  have "length (drop 1 (dropWhile (\<lambda>d. d \<noteq> CHR '','') (tl rest))) \<le> length rest"
    by (metis diff_le_self le_trans length_drop length_dropWhile_le length_tl)
  also have "\<dots> \<le> length cs" using 3 by (simp add: length_dropWhile_le)
  finally show ?case by simp
next
  case (4 c cs sep v rest)
  have "length rest \<le> length (c # cs)" using 4 by (simp only: length_dropWhile_le)
  moreover have "length (drop 1 rest) < length (c # cs)" if "rest \<noteq> []"
    using that \<open>length rest \<le> length (c # cs)\<close> by (cases rest) auto
  ultimately show ?case by (cases rest) auto
qed auto

declare read_values.simps [simp del]

text \<open>One line: split at the first \<open>=\<close>; a line without one is skipped.  The values read
  before an error stay in the registry.\<close>

definition read_config_line :: "options \<Rightarrow> string \<Rightarrow> options \<times> bool" where
  "read_config_line opts buf =
     (if CHR ''='' \<notin> set buf then (opts, True)
      else
        (let name = takeWhile (\<lambda>c. c \<noteq> CHR ''='') buf;
             rest = drop 1 (dropWhile (\<lambda>c. c \<noteq> CHR ''='') buf);
             (opts, i) = add_option opts name;
             opts = upd_option i free_values opts;
             (vs, ok) = read_values rest
         in (upd_option i (\<lambda>opt. fold add_value vs opt) opts, ok)))"

fun read_config_lines :: "options \<Rightarrow> string list \<Rightarrow> options \<times> bool" where
  "read_config_lines opts [] = (opts, True)"
| "read_config_lines opts (l # ls) =
     (let (opts, ok) = read_config_line opts l
      in if ok then read_config_lines opts ls else (opts, False))"

definition read_config :: "options \<Rightarrow> string \<Rightarrow> options \<times> bool" where
  "read_config opts contents = read_config_lines opts (fgets_lines contents)"

definition read_config_file :: "file_system \<Rightarrow> options \<Rightarrow> string \<Rightarrow> options" where
  "read_config_file fs opts filename =
     (case fs filename of
        None \<Rightarrow> opts
      | Some contents \<Rightarrow> fst (read_config opts contents))"

text \<open>\<open>write_config\<close>: the text written, and the registry with every written option marked.\<close>

fun write_values :: "value_t list \<Rightarrow> string" where
  "write_values [] = []"
| "write_values (v # vs) =
     (if val_ignore v then [] else data v) @ (if vs = [] then [] else '', '') @ write_values vs"

fun write_config :: "options \<Rightarrow> string \<times> options" where
  "write_config [] = ([], [])"
| "write_config (opt # opts) =
     (let (out, opts') = write_config opts
      in if opt_ignore opt then (out, opt # opts')
         else (opt_name opt @ '' = '' @ write_values (opt_values opt) @ [CHR 0x0A] @ out,
               opt\<lparr>opt_ignore := True\<rparr> # opts'))"

section \<open>Setting options\<close>

definition is_on :: "string option \<Rightarrow> bool" where
  "is_on v \<longleftrightarrow> v = None \<or> v \<in> {Some ''on'', Some ''true'', Some ''1''}"

definition is_off :: "string option \<Rightarrow> bool" where
  "is_off v \<longleftrightarrow> v \<in> {Some ''off'', Some ''false'', Some ''0''}"

text \<open>\<open>set_option\<close>: the registry and the option's position, \<open>None\<close> for NULL.  The old
  values are released, and the type is stored, before anything is checked.\<close>

definition set_option ::
    "file_system \<Rightarrow> options \<Rightarrow> string \<Rightarrow> string option \<Rightarrow> sb_arg_type \<Rightarrow> options \<times> nat option" where
  "set_option fs opts name value type =
     (let (opts, i) = add_option opts name;
          opts = upd_option i (\<lambda>opt. (free_values opt)\<lparr>opt_type := type\<rparr>) opts
      in if (case opt_validate (opts ! i) of None \<Rightarrow> False | Some f \<Rightarrow> \<not> f name value)
         then (opts, None)
         else if type \<noteq> SB_ARG_TYPE_BOOL \<and> (value = None \<or> value = Some [])
         then (opts, Some i)
         else case type of
           SB_ARG_TYPE_BOOL \<Rightarrow>
             if is_on value then (upd_option i (add_value ''on'') opts, Some i)
             else if is_off value then (opts, Some i) else (opts, None)
         | SB_ARG_TYPE_INT \<Rightarrow> (upd_option i (add_value (the value)) opts, Some i)
         | SB_ARG_TYPE_SIZE \<Rightarrow> (upd_option i (add_value (the value)) opts, Some i)
         | SB_ARG_TYPE_DOUBLE \<Rightarrow> (upd_option i (add_value (the value)) opts, Some i)
         | SB_ARG_TYPE_STRING \<Rightarrow> (upd_option i (add_value (the value)) opts, Some i)
         | SB_ARG_TYPE_LIST \<Rightarrow>
             (upd_option i (fold add_value (strtok_list (CHR '','') (the value))) opts, Some i)
         | SB_ARG_TYPE_FILE \<Rightarrow> (read_config_file fs opts (the value), Some i)
         | _ \<Rightarrow> (opts, None))"

text \<open>\<open>sb_register_arg_set\<close>: 0, or 1 at the first option that cannot be set.  The source
  stores \<open>set->validate\<close>, the validator of the first entry, in every option.\<close>

fun register_args ::
    "file_system \<Rightarrow> sb_opt_validate option \<Rightarrow> options \<Rightarrow> sb_arg list \<Rightarrow> options \<times> nat" where
  "register_args fs v opts [] = (opts, 0)"
| "register_args fs v opts (a # as) =
     (case set_option fs opts (arg_name a) (arg_value a) (arg_type a) of
        (opts, None) \<Rightarrow> (opts, 1)
      | (opts, Some i) \<Rightarrow>
          register_args fs v (upd_option i (\<lambda>opt. opt\<lparr>opt_validate := v\<rparr>) opts) as)"

definition sb_register_arg_set :: "file_system \<Rightarrow> options \<Rightarrow> sb_arg list \<Rightarrow> options \<times> nat" where
  "sb_register_arg_set fs opts as =
     register_args fs (case as of [] \<Rightarrow> None | a # _ \<Rightarrow> arg_validate a) opts as"

section \<open>Typed access\<close>

text \<open>The getters that may call \<open>exit(EXIT_FAILURE)\<close> return \<open>None\<close> for that.\<close>

definition sb_opt_to_flag :: "option_t \<Rightarrow> bool" where
  "sb_opt_to_flag opt \<longleftrightarrow> opt_values opt \<noteq> []"

definition sb_opt_to_int :: "option_t \<Rightarrow> int option" where
  "sb_opt_to_int opt =
     (case opt_values opt of
        [] \<Rightarrow> Some 0
      | v # _ \<Rightarrow>
          (let (res, endptr) = strtol10 (data v)
           in if endptr \<noteq> [] \<or> res > INT_MAX \<or> res < INT_MIN then None else Some res))"

definition sizemods :: string where
  "sizemods = ''KMGT'' @ [CHR 0x00]"

text \<open>The digit loop of \<open>sb_opt_to_size\<close>: the flag is \<open>rc == 1\<close>; the second component is
  the size modifier, if there is one (\<open>rc == 2\<close>).  The arithmetic is that of unsigned
  long long.\<close>

fun size_scan :: "bool \<Rightarrow> u64 \<Rightarrow> string \<Rightarrow> u64 \<times> char option" where
  "size_scan rc res [] = (res, None)"
| "size_scan rc res (c # cs) =
     (if schar_code c < 48 \<or> schar_code c > 57
      then (res, if rc then Some c else None)
      else size_scan True (res * 10 + word_of_int (schar_code c) - 48) cs)"

fun mult_1024 :: "nat \<Rightarrow> u64 \<Rightarrow> u64" where
  "mult_1024 0 res = res"
| "mult_1024 (Suc n) res = mult_1024 n (res * 1024)"

definition sb_opt_to_size :: "option_t \<Rightarrow> u64" where
  "sb_opt_to_size opt =
     (case opt_values opt of
        [] \<Rightarrow> 0
      | v # _ \<Rightarrow>
          (let (res, mult) = size_scan False 0 (data v)
           in case mult of
                None \<Rightarrow> res
              | Some m \<Rightarrow>
                  (case index_of (\<lambda>c. toupper m = c) (takeWhile (\<lambda>c. c \<noteq> CHR 0x00) sizemods) of
                     None \<Rightarrow> 0
                   | Some n \<Rightarrow> mult_1024 (Suc n) res)))"

text \<open>\<open>strtod\<close> is the C library's; the loop keeps the last value.\<close>

definition sb_opt_to_double :: "(string \<Rightarrow> real) \<Rightarrow> option_t \<Rightarrow> real" where
  "sb_opt_to_double strtod opt = foldl (\<lambda>res v. strtod (data v)) 0 (opt_values opt)"

definition sb_opt_to_string :: "option_t \<Rightarrow> string option" where
  "sb_opt_to_string opt = (case opt_values opt of [] \<Rightarrow> None | v # _ \<Rightarrow> Some (data v))"

definition sb_opt_to_list :: "option_t \<Rightarrow> string list" where
  "sb_opt_to_list opt = map data (opt_values opt)"

definition sb_get_value_flag :: "options \<Rightarrow> string \<Rightarrow> bool" where
  "sb_get_value_flag opts name =
     (case find_option opts name of None \<Rightarrow> False | Some i \<Rightarrow> sb_opt_to_flag (opts ! i))"

definition sb_get_value_int :: "options \<Rightarrow> string \<Rightarrow> int option" where
  "sb_get_value_int opts name =
     (case find_option opts name of None \<Rightarrow> Some 0 | Some i \<Rightarrow> sb_opt_to_int (opts ! i))"

definition sb_get_value_size :: "options \<Rightarrow> string \<Rightarrow> u64" where
  "sb_get_value_size opts name =
     (case find_option opts name of None \<Rightarrow> 0 | Some i \<Rightarrow> sb_opt_to_size (opts ! i))"

definition sb_get_value_double :: "(string \<Rightarrow> real) \<Rightarrow> options \<Rightarrow> string \<Rightarrow> real" where
  "sb_get_value_double strtod opts name =
     (case find_option opts name of None \<Rightarrow> 0 | Some i \<Rightarrow> sb_opt_to_double strtod (opts ! i))"

definition sb_get_value_string :: "options \<Rightarrow> string \<Rightarrow> string option" where
  "sb_get_value_string opts name =
     (case find_option opts name of None \<Rightarrow> None | Some i \<Rightarrow> sb_opt_to_string (opts ! i))"

text \<open>\<open>sb_get_value_list\<close> returns NULL for an unknown option.\<close>

definition sb_get_value_list :: "options \<Rightarrow> string \<Rightarrow> string list option" where
  "sb_get_value_list opts name =
     (case find_option opts name of None \<Rightarrow> None | Some i \<Rightarrow> Some (sb_opt_to_list (opts ! i)))"

definition sb_opt_copy :: "file_system \<Rightarrow> options \<Rightarrow> string \<Rightarrow> string \<Rightarrow> options \<times> bool" where
  "sb_opt_copy fs opts to from =
     (case find_option opts from of
        None \<Rightarrow> (opts, False)
      | Some i \<Rightarrow>
          (fst (set_option fs opts to (sb_opt_to_string (opts ! i)) (opt_type (opts ! i))), True))"

definition sb_options_enum_next :: "options \<Rightarrow> nat option \<Rightarrow> nat option" where
  "sb_options_enum_next opts pos =
     (let next = (case pos of None \<Rightarrow> 0 | Some i \<Rightarrow> Suc i)
      in if next < length opts then Some next else None)"

section \<open>Printing\<close>

text \<open>\<open>sb_print_value_size\<close>: the scaled value and the unit character that follows it, if
  one is printed.  The loop bound is \<open>sizeof(sizemods)\<close>, the NUL included.\<close>

fun scale_size :: "nat \<Rightarrow> nat \<Rightarrow> real \<Rightarrow> nat \<times> real" where
  "scale_size 0 i value = (i, value)"
| "scale_size (Suc n) i value =
     (if value \<ge> 1024 then scale_size n (Suc i) (value / 1024) else (i, value))"

definition sb_print_value_size :: "real \<Rightarrow> real \<times> char option" where
  "sb_print_value_size value =
     (let (i, value) = scale_size (length sizemods) 0 value
      in (value, if i > 0 then Some (sizemods ! (i - 1)) else None))"

text \<open>The format column of \<open>sb_print_options\<close>; the entry of SB_ARG_TYPE_NULL is a null
  pointer, on which \<open>strlen\<close> must not be called.\<close>

fun opt_format :: "sb_arg_type \<Rightarrow> string option" where
  "opt_format SB_ARG_TYPE_NULL = None"
| "opt_format SB_ARG_TYPE_BOOL = Some ''[=on|off]''"
| "opt_format SB_ARG_TYPE_INT = Some ''=N''"
| "opt_format SB_ARG_TYPE_SIZE = Some ''=SIZE''"
| "opt_format SB_ARG_TYPE_DOUBLE = Some ''=N''"
| "opt_format SB_ARG_TYPE_STRING = Some ''=STRING''"
| "opt_format SB_ARG_TYPE_LIST = Some ''=[LIST,...]''"
| "opt_format SB_ARG_TYPE_FILE = Some ''=FILENAME''"
| "opt_format SB_ARG_TYPE_MAX = Some ''=UNKNOWN''"

definition pad_right :: "nat \<Rightarrow> string \<Rightarrow> string" where
  "pad_right n s = s @ replicate (n - length s) (CHR '' '')"

fun max_opt_len :: "nat \<Rightarrow> sb_arg list \<Rightarrow> nat option" where
  "max_opt_len m [] = Some m"
| "max_opt_len m (a # as) =
     (case opt_format (arg_type a) of
        None \<Rightarrow> None
      | Some fmt \<Rightarrow> max_opt_len (max m (length (arg_name a) + length fmt)) as)"

definition opt_line :: "nat \<Rightarrow> sb_arg \<Rightarrow> string" where
  "opt_line maxlen a =
     ''  --'' @ arg_name a
     @ pad_right (maxlen - length (arg_name a) + 1) (the (opt_format (arg_type a)))
     @ arg_desc a
     @ (case arg_value a of None \<Rightarrow> [] | Some v \<Rightarrow> '' ['' @ v @ '']'')"

text \<open>\<open>sb_print_options\<close>: the lines printed; \<open>None\<close> where \<open>strlen(NULL)\<close> is called.\<close>

definition sb_print_options :: "sb_arg list \<Rightarrow> string list option" where
  "sb_print_options as = map_option (\<lambda>m. map (opt_line m) as @ [[]]) (max_opt_len 0 as)"

section \<open>Names as a key\<close>

lemma schar_code_eq [simp]: "schar_code a = schar_code b \<longleftrightarrow> a = b"
proof
  assume eq: "schar_code a = schar_code b"
  have "char_code a = char_code b"
    using eq char_code_bounds [of a] char_code_bounds [of b]
    by (auto simp: schar_code_def split: if_splits)
  then show "a = b" by (simp add: char_code_def)
qed simp

lemma schar_code_zero: "schar_code a = 0 \<longleftrightarrow> a = CHR 0x00"
  using schar_code_eq [of a "CHR 0x00"] by (simp add: schar_code_def char_code_def)

text \<open>On C strings, \<open>opt_name_cmp\<close> says 0 exactly for names equal up to the choice between
  dash and underscore.\<close>

lemma opt_name_cmp_0:
  "CHR 0x00 \<notin> set s1 \<Longrightarrow> CHR 0x00 \<notin> set s2 \<Longrightarrow>
   opt_name_cmp s1 s2 = 0 \<longleftrightarrow> convert_dashes s1 = convert_dashes s2"
  by (induction s1 s2 rule: opt_name_cmp.induct)
    (auto simp: convert_dashes_def is_dash_def schar_code_zero)

lemma convert_dashes_idem: "convert_dashes (convert_dashes s) = convert_dashes s"
  by (simp add: convert_dashes_def)

lemma convert_dashes_NUL [simp]: "CHR 0x00 \<in> set (convert_dashes s) \<longleftrightarrow> CHR 0x00 \<in> set s"
  by (auto simp: convert_dashes_def)

lemma index_of_Some:
  "index_of P xs = Some i \<Longrightarrow> i < length xs \<and> P (xs ! i) \<and> (\<forall>j < i. \<not> P (xs ! j))"
proof (induction xs arbitrary: i)
  case (Cons x xs)
  then show ?case by (cases i) (auto simp: less_Suc_eq_0_disj split: if_splits)
qed simp

lemma index_of_None: "index_of P xs = None \<longleftrightarrow> (\<forall>x \<in> set xs. \<not> P x)"
  by (induction xs) auto

lemma index_of_append:
  "index_of P (xs @ ys) =
     (case index_of P xs of Some i \<Rightarrow> Some i | None \<Rightarrow> map_option ((+) (length xs)) (index_of P ys))"
  by (induction xs; cases "index_of P ys") (auto split: option.splits)

lemma index_of_cong: "map P xs = map Q ys \<Longrightarrow> index_of P xs = index_of Q ys"
proof (induction xs arbitrary: ys)
  case (Cons x xs)
  then show ?case by (cases ys) auto
qed simp

section \<open>Well-formed registries\<close>

text \<open>Option names are stored with underscores only, contain no NUL, and are distinct, so
  that a name reaches at most one option.\<close>

definition wf_name :: "string \<Rightarrow> bool" where
  "wf_name n \<longleftrightarrow> convert_dashes n = n \<and> CHR 0x00 \<notin> set n"

definition wf_options :: "options \<Rightarrow> bool" where
  "wf_options opts \<longleftrightarrow> distinct (map opt_name opts) \<and> (\<forall>opt \<in> set opts. wf_name (opt_name opt))"

lemma wf_options_init [inv_intros]: "wf_options sb_options_init"
  by (simp add: wf_options_def sb_options_init_def)

lemma find_option_wf:
  assumes "wf_options opts" "CHR 0x00 \<notin> set name"
  shows "find_option opts name = index_of (\<lambda>opt. opt_name opt = convert_dashes name) opts"
  unfolding find_option_def
  using assms by (intro index_of_cong) (auto simp: wf_options_def wf_name_def opt_name_cmp_0)

lemma find_option_Some:
  assumes "wf_options opts" "CHR 0x00 \<notin> set name" "find_option opts name = Some i"
  shows "i < length opts" "opt_name (opts ! i) = convert_dashes name"
  using index_of_Some [of "\<lambda>opt. opt_name opt = convert_dashes name" opts i] assms
  by (auto simp: find_option_wf)

text \<open>What does not change the names does not change lookups.\<close>

lemma index_of_map: "index_of P (map f xs) = index_of (\<lambda>x. P (f x)) xs"
  by (induction xs) auto

lemma find_option_map:
  "find_option opts name = index_of (\<lambda>n. opt_name_cmp n name = 0) (map opt_name opts)"
  by (simp add: find_option_def index_of_map)

lemma find_option_names:
  "map opt_name opts = map opt_name opts' \<Longrightarrow> find_option opts name = find_option opts' name"
  by (simp add: find_option_map)

lemma wf_options_names:
  "map opt_name opts = map opt_name opts' \<Longrightarrow> wf_options opts = wf_options opts'"
  unfolding wf_options_def by (metis (mono_tags, lifting) image_iff list.set_map)

lemma length_upd_option [simp]: "length (upd_option i f opts) = length opts"
  by (simp add: upd_option_def)

lemma nth_upd_option:
  "j < length opts \<Longrightarrow> upd_option i f opts ! j = (if i = j then f (opts ! j) else opts ! j)"
  by (auto simp: upd_option_def nth_list_update)

lemma names_upd_option:
  "(\<And>opt. opt_name (f opt) = opt_name opt) \<Longrightarrow> map opt_name (upd_option i f opts) = map opt_name opts"
  by (rule nth_equalityI) (auto simp: nth_upd_option)

lemma opt_name_add_value [simp]: "opt_name (add_value d opt) = opt_name opt"
  "opt_values (add_value d opt) = opt_values opt @ [new_value\<lparr>data := d\<rparr>]"
  "opt_validate (add_value d opt) = opt_validate opt" "opt_type (add_value d opt) = opt_type opt"
  by (simp_all add: add_value_def)

lemma fold_add_value [simp]:
  "opt_name (fold add_value vs opt) = opt_name opt"
  "opt_validate (fold add_value vs opt) = opt_validate opt"
  "opt_type (fold add_value vs opt) = opt_type opt"
  "opt_ignore (fold add_value vs opt) = opt_ignore opt"
  "map data (opt_values (fold add_value vs opt)) = map data (opt_values opt) @ vs"
  by (induction vs arbitrary: opt) (simp_all add: add_value_def new_value_def)

lemma names_fold_add_value:
  "map opt_name (upd_option i (fold add_value vs) opts) = map opt_name opts"
  by (rule names_upd_option) simp

lemma opt_name_free_values [simp]: "opt_name (free_values opt) = opt_name opt"
  "opt_values (free_values opt) = []" "opt_validate (free_values opt) = opt_validate opt"
  by (simp_all add: free_values_def)

lemma add_option_props:
  assumes "wf_options opts" "CHR 0x00 \<notin> set name" "add_option opts name = (opts', i)"
  shows "wf_options opts'" "i < length opts'" "opt_name (opts' ! i) = convert_dashes name"
    "length opts \<le> length opts'" "\<forall>j < length opts. opts' ! j = opts ! j"
proof -
  have "wf_options opts' \<and> i < length opts' \<and> opt_name (opts' ! i) = convert_dashes name
    \<and> length opts \<le> length opts' \<and> (\<forall>j < length opts. opts' ! j = opts ! j)"
  proof (cases "find_option opts name")
    case None
    then have "convert_dashes name \<notin> opt_name ` set opts"
      using assms by (auto simp: find_option_wf index_of_None)
    with None assms show ?thesis
      by (auto simp: add_option_def wf_options_def wf_name_def new_option_def convert_dashes_idem
          nth_append)
  next
    case (Some j)
    with assms find_option_Some [OF assms(1,2) Some] show ?thesis
      by (auto simp: add_option_def)
  qed
  then show "wf_options opts'" "i < length opts'" "opt_name (opts' ! i) = convert_dashes name"
    "length opts \<le> length opts'" "\<forall>j < length opts. opts' ! j = opts ! j" by auto
qed

lemma find_add_option:
  assumes "wf_options opts" "CHR 0x00 \<notin> set name" "add_option opts name = (opts', i)"
  shows "find_option opts' name = Some i"
proof (cases "find_option opts name")
  case None
  then have "index_of (\<lambda>opt. opt_name_cmp (opt_name opt) name = 0) opts = None"
    by (simp add: find_option_def)
  moreover have "opt_name_cmp (convert_dashes name) name = 0"
    using assms(2) by (simp add: opt_name_cmp_0 convert_dashes_idem)
  ultimately show ?thesis using None assms(3)
    by (auto simp: add_option_def find_option_def index_of_append new_option_def)
next
  case (Some j)
  with assms(3) show ?thesis by (simp add: add_option_def)
qed

subsection \<open>Every operation keeps the registry well-formed\<close>

lemma takeWhile_notin: "(\<And>x. P x \<Longrightarrow> x \<noteq> a) \<Longrightarrow> a \<notin> set (takeWhile P xs)"
  by (auto dest: set_takeWhileD)

lemma read_config_line_wf:
  assumes "wf_options opts" "CHR 0x00 \<notin> set buf"
  shows "wf_options (fst (read_config_line opts buf))"
proof -
  have "CHR 0x00 \<notin> set (takeWhile (\<lambda>c. c \<noteq> CHR ''='') buf)"
    using assms(2) by (auto dest: set_takeWhileD)
  note a = add_option_props(1) [OF assms(1) this surjective_pairing]
  then show ?thesis
    using assms(1) a
    by (auto simp: read_config_line_def Let_def split: prod.splits
        simp: wf_options_names [OF names_fold_add_value] wf_options_names [OF names_upd_option])
qed

lemma read_config_lines_wf:
  "wf_options opts \<Longrightarrow> \<forall>l \<in> set ls. CHR 0x00 \<notin> set l \<Longrightarrow> wf_options (fst (read_config_lines opts ls))"
proof (induction ls arbitrary: opts)
  case (Cons l ls)
  then have "wf_options (fst (read_config_line opts l))" by (simp add: read_config_line_wf)
  with Cons show ?case by (auto split: prod.splits)
qed simp

lemma read_config_wf: "wf_options opts \<Longrightarrow> wf_options (fst (read_config opts contents))"
  unfolding read_config_def fgets_lines_def
  by (intro read_config_lines_wf) (auto simp: takeWhile_notin)

lemma read_config_file_wf: "wf_options opts \<Longrightarrow> wf_options (read_config_file fs opts f)"
  by (simp add: read_config_file_def read_config_wf split: option.split)

lemma set_option_wf [inv_intros]:
  assumes "wf_options opts" "CHR 0x00 \<notin> set name"
  shows "wf_options (fst (set_option fs opts name value type))"
proof -
  obtain opts1 i where a: "add_option opts name = (opts1, i)" by fastforce
  let ?o = "upd_option i (\<lambda>opt. (free_values opt)\<lparr>opt_type := type\<rparr>) opts1"
  have "map opt_name ?o = map opt_name opts1" by (rule names_upd_option) simp
  then have w: "wf_options ?o"
    using add_option_props(1) [OF assms a] wf_options_names by blast
  have n: "wf_options (upd_option i (add_value d) ?o)"
    "wf_options (upd_option i (fold add_value vs) ?o)" for d vs
    using w wf_options_names [OF names_upd_option] wf_options_names [OF names_fold_add_value]
    by auto
  show ?thesis
    unfolding set_option_def Let_def a prod.case
    using w n read_config_file_wf [OF w] by (cases type) simp_all
qed

lemma register_args_wf:
  "wf_options opts \<Longrightarrow> \<forall>a \<in> set args. CHR 0x00 \<notin> set (arg_name a) \<Longrightarrow>
   wf_options (fst (register_args fs v opts args))"
proof (induction args arbitrary: opts)
  case (Cons a args)
  obtain opts1 r where s: "set_option fs opts (arg_name a) (arg_value a) (arg_type a) = (opts1, r)"
    by fastforce
  have w: "wf_options opts1"
    using set_option_wf [of opts "arg_name a" fs "arg_value a" "arg_type a"] Cons.prems s by simp
  show ?case
  proof (cases r)
    case (Some i)
    have "wf_options (upd_option i (\<lambda>opt. opt\<lparr>opt_validate := v\<rparr>) opts1)"
      using w wf_options_names [OF names_upd_option] by simp
    with Some s Cons show ?thesis by simp
  qed (use s w in simp)
qed simp

lemma sb_register_arg_set_wf [inv_intros]:
  "wf_options opts \<Longrightarrow> \<forall>a \<in> set args. CHR 0x00 \<notin> set (arg_name a) \<Longrightarrow>
   wf_options (fst (sb_register_arg_set fs opts args))"
  by (simp add: sb_register_arg_set_def register_args_wf)

lemma set_drop_nth: "set (drop_nth i xs) \<subseteq> set xs"
  using set_take_subset [of i xs] set_drop_subset [of "Suc i" xs] by (auto simp: drop_nth_def)

lemma distinct_drop_nth: "distinct (map f xs) \<Longrightarrow> distinct (map f (drop_nth i xs))"
  using set_take_disj_set_drop_if_distinct [of "map f xs" i "Suc i"]
  by (simp add: drop_nth_def take_map [symmetric] drop_map [symmetric])

lemma remove_option_wf [inv_intros]:
  "wf_options opts \<Longrightarrow> wf_options (fst (remove_option opts name))"
  using set_drop_nth [of _ opts]
  by (auto simp: remove_option_def wf_options_def distinct_drop_nth split: option.splits)

section \<open>What setting an option changes\<close>

lemma add_option_frame:
  assumes "wf_options opts" "CHR 0x00 \<notin> set name" "CHR 0x00 \<notin> set other"
    "add_option opts name = (opts', i)" "convert_dashes other \<noteq> convert_dashes name"
  shows "find_option opts' other = find_option opts other"
proof -
  have "opt_name_cmp (convert_dashes name) other \<noteq> 0"
    using assms by (simp add: opt_name_cmp_0 convert_dashes_idem)
  with assms(4) show ?thesis
    by (auto simp: add_option_def find_option_def index_of_append new_option_def
        split: option.splits)
qed

text \<open>An option other than the one at position \<open>i\<close> keeps its values under an update at \<open>i\<close>.\<close>

lemma get_list_upd_other:
  assumes "\<And>opt. opt_name (f opt) = opt_name opt" "find_option opts other \<noteq> Some i"
    "wf_options opts" "CHR 0x00 \<notin> set other"
  shows "sb_get_value_list (upd_option i f opts) other = sb_get_value_list opts other"
proof -
  have f: "find_option (upd_option i f opts) other = find_option opts other"
    by (rule find_option_names) (rule names_upd_option, rule assms(1))
  show ?thesis
    using assms find_option_Some(1) [OF assms(3,4)]
    by (auto simp: sb_get_value_list_def f nth_upd_option split: option.split)
qed

lemma get_list_upd_same:
  assumes "\<And>opt. opt_name (f opt) = opt_name opt" "find_option opts name = Some i"
    "wf_options opts" "CHR 0x00 \<notin> set name"
  shows "sb_get_value_list (upd_option i f opts) name = Some (map data (opt_values (f (opts ! i))))"
proof -
  have f: "find_option (upd_option i f opts) name = find_option opts name"
    by (rule find_option_names) (rule names_upd_option, rule assms(1))
  show ?thesis
    using assms find_option_Some(1) [OF assms(3,4)]
    by (simp add: sb_get_value_list_def sb_opt_to_list_def f nth_upd_option)
qed

lemma get_list_add_option:
  assumes "wf_options opts" "CHR 0x00 \<notin> set name" "CHR 0x00 \<notin> set other"
    "add_option opts name = (opts', i)" "convert_dashes other \<noteq> convert_dashes name"
  shows "sb_get_value_list opts' other = sb_get_value_list opts other"
  using add_option_frame [OF assms] add_option_props(5) [OF assms(1,2,4)]
    find_option_Some(1) [OF assms(1,3)]
  by (auto simp: sb_get_value_list_def split: option.split)

lemma get_string_list:
  "sb_get_value_string opts name =
     (case sb_get_value_list opts name of None \<Rightarrow> None
      | Some [] \<Rightarrow> None | Some (v # _) \<Rightarrow> Some v)"
  by (auto simp: sb_get_value_string_def sb_get_value_list_def sb_opt_to_string_def
      sb_opt_to_list_def split: option.split list.split)

lemma get_flag_list:
  "sb_get_value_flag opts name \<longleftrightarrow> (\<exists>v vs. sb_get_value_list opts name = Some (v # vs))"
  by (auto simp: sb_get_value_flag_def sb_get_value_list_def sb_opt_to_flag_def
      sb_opt_to_list_def neq_Nil_conv split: option.split)

text \<open>The values \<open>set_option\<close> stores for an accepted argument, by type.\<close>

fun parsed_values :: "sb_arg_type \<Rightarrow> string option \<Rightarrow> string list option" where
  "parsed_values SB_ARG_TYPE_BOOL v =
     (if is_on v then Some [''on''] else if is_off v then Some [] else None)"
| "parsed_values SB_ARG_TYPE_LIST (Some v) = Some (strtok_list (CHR '','') v)"
| "parsed_values type (Some v) =
     (if type \<in> {SB_ARG_TYPE_INT, SB_ARG_TYPE_SIZE, SB_ARG_TYPE_DOUBLE, SB_ARG_TYPE_STRING}
      then Some (if v = [] then [] else [v]) else if v = [] then Some [] else None)"
| "parsed_values type None = Some []"

text \<open>Whether the stored validator of the option reached by a name accepts a value.\<close>

definition accepts :: "options \<Rightarrow> string \<Rightarrow> string option \<Rightarrow> bool" where
  "accepts opts name value \<longleftrightarrow>
     (case find_option opts name of None \<Rightarrow> True
      | Some i \<Rightarrow> (case opt_validate (opts ! i) of None \<Rightarrow> True | Some f \<Rightarrow> f name value))"

lemma strtok_list_Nil [simp]: "strtok_list d [] = []"
  by (simp add: strtok_list_def)

lemma add_option_accepts:
  assumes "add_option opts name = (opts', i)"
  shows "accepts opts name value \<longleftrightarrow>
     (case opt_validate (opts' ! i) of None \<Rightarrow> True | Some f \<Rightarrow> f name value)"
  using assms by (auto simp: add_option_def accepts_def new_option_def split: option.splits)

lemma upd_option_idle [simp]: "upd_option i id opts = opts"
  by (simp add: upd_option_def)

lemma fold_add_Nil: "fold add_value [] = id" "fold add_value [v] = add_value v"
  by (simp_all add: fun_eq_iff)

text \<open>\<open>set_option\<close> in one equation: reach or add the option, empty it and set its type, then
  append the parsed values if the argument is accepted.\<close>

lemma set_option_eq:
  assumes a: "add_option opts name = (opts1, i)" and ty: "type \<noteq> SB_ARG_TYPE_FILE"
    and i: "i < length opts1"
    and o: "o2 = upd_option i (\<lambda>opt. (free_values opt)\<lparr>opt_type := type\<rparr>) opts1"
    and ok: "ok = (accepts opts name v \<and> parsed_values type v \<noteq> None)"
  shows "set_option fs opts name v type =
    (upd_option i (fold add_value (if ok then the (parsed_values type v) else [])) o2,
     if ok then Some i else None)"
proof -
  have acc: "(case opt_validate (o2 ! i) of None \<Rightarrow> False | Some f \<Rightarrow> \<not> f name v) \<longleftrightarrow>
      \<not> accepts opts name v"
    using add_option_accepts [OF a, of v] i by (simp add: o nth_upd_option split: option.split)
  have s: "set_option fs opts name v type =
      (if \<not> accepts opts name v then (o2, None)
       else if type \<noteq> SB_ARG_TYPE_BOOL \<and> (v = None \<or> v = Some [])
       then (o2, Some i)
       else case type of
           SB_ARG_TYPE_BOOL \<Rightarrow>
             if is_on v then (upd_option i (add_value ''on'') o2, Some i)
             else if is_off v then (o2, Some i) else (o2, None)
         | SB_ARG_TYPE_INT \<Rightarrow> (upd_option i (add_value (the v)) o2, Some i)
         | SB_ARG_TYPE_SIZE \<Rightarrow> (upd_option i (add_value (the v)) o2, Some i)
         | SB_ARG_TYPE_DOUBLE \<Rightarrow> (upd_option i (add_value (the v)) o2, Some i)
         | SB_ARG_TYPE_STRING \<Rightarrow> (upd_option i (add_value (the v)) o2, Some i)
         | SB_ARG_TYPE_LIST \<Rightarrow>
             (upd_option i (fold add_value (strtok_list (CHR '','') (the v))) o2, Some i)
         | SB_ARG_TYPE_FILE \<Rightarrow> (read_config_file fs o2 (the v), Some i)
         | _ \<Rightarrow> (o2, None))"
    unfolding set_option_def Let_def a prod.case o [symmetric] acc ..
  show ?thesis
  proof (cases "accepts opts name v")
    case False
    then show ?thesis by (simp add: s ok fold_add_Nil)
  next
    case True
    then show ?thesis
      unfolding s ok using ty
      by (cases type; cases v; simp add: fold_add_Nil is_on_def is_off_def)
  qed
qed

text \<open>Setting an option, for every type but a configuration file: on acceptance the option's
  values are exactly the parsed ones; in every case no other option changes.\<close>

lemma set_option_values:
  assumes wf: "wf_options opts" and n: "CHR 0x00 \<notin> set name" and ty: "type \<noteq> SB_ARG_TYPE_FILE"
    and set: "set_option fs opts name v type = (opts', r)"
  shows "r \<noteq> None \<longleftrightarrow> accepts opts name v \<and> parsed_values type v \<noteq> None"
    "sb_get_value_list opts' name = Some (if r = None then [] else the (parsed_values type v))"
    "\<And>other. CHR 0x00 \<notin> set other \<Longrightarrow> convert_dashes other \<noteq> convert_dashes name \<Longrightarrow>
       sb_get_value_list opts' other = sb_get_value_list opts other"
proof -
  obtain opts1 i where a: "add_option opts name = (opts1, i)" by fastforce
  note p = add_option_props [OF wf n a] and fnd = find_add_option [OF wf n a]
  define f where "f = (\<lambda>opt. (free_values opt)\<lparr>opt_type := type\<rparr>)"
  define o2 where "o2 = upd_option i f opts1"
  define ok where "ok = (accepts opts name v \<and> parsed_values type v \<noteq> None)"
  define vs where "vs = (if ok then the (parsed_values type v) else [])"
  have fn: "opt_name (f opt) = opt_name opt" for opt by (simp add: f_def)
  have names: "map opt_name o2 = map opt_name opts1"
    unfolding o2_def by (rule names_upd_option) (rule fn)
  have wo: "wf_options o2" using p(1) wf_options_names [OF names] by simp
  have fo: "find_option o2 other = find_option opts1 other" for other
    by (rule find_option_names [OF names])
  have "set_option fs opts name v type = (upd_option i (fold add_value vs) o2, if ok then Some i else None)"
    unfolding vs_def by (rule set_option_eq [OF a ty p(2) _ ok_def]) (simp add: o2_def f_def)
  with set have opts': "opts' = upd_option i (fold add_value vs) o2"
    and r: "r = (if ok then Some i else None)" by simp_all
  show "r \<noteq> None \<longleftrightarrow> accepts opts name v \<and> parsed_values type v \<noteq> None"
    by (simp add: r ok_def)
  have "sb_get_value_list opts' name = Some (map data (opt_values (fold add_value vs (o2 ! i))))"
    unfolding opts' by (rule get_list_upd_same) (use fo fnd wo n in simp_all)
  moreover have "opt_values (o2 ! i) = []"
    using p(2) by (simp add: o2_def nth_upd_option f_def)
  ultimately show "sb_get_value_list opts' name =
      Some (if r = None then [] else the (parsed_values type v))"
    by (simp add: vs_def r)
  show "sb_get_value_list opts' other = sb_get_value_list opts other"
    if o: "CHR 0x00 \<notin> set other" "convert_dashes other \<noteq> convert_dashes name" for other
  proof -
    have ni: "find_option opts1 other \<noteq> Some i"
      using find_option_Some(2) [OF p(1) o(1)] p(3) o(2) by auto
    have "sb_get_value_list opts' other = sb_get_value_list o2 other"
      unfolding opts' by (rule get_list_upd_other) (use fo ni wo o in simp_all)
    also have "\<dots> = sb_get_value_list opts1 other"
      unfolding o2_def by (rule get_list_upd_other) (use fn ni p(1) o in simp_all)
    also have "\<dots> = sb_get_value_list opts other"
      by (rule get_list_add_option [OF wf n o(1) a o(2)])
    finally show ?thesis .
  qed
qed

section \<open>Sizes\<close>

lemma digits_value_acc: "digits_value acc ds = acc * 10 ^ length ds + digits_value 0 ds"
proof (induction ds arbitrary: acc)
  case (Cons d ds)
  show ?case
    using Cons [of "10 * acc + digit_value d"] Cons [of "digit_value d"]
    by (simp add: algebra_simps)
qed simp

lemma size_scan_digits:
  "list_all is_digit ds \<Longrightarrow>
   size_scan rc res (ds @ rest) =
     size_scan (rc \<or> ds \<noteq> []) (res * 10 ^ length ds + word_of_int (digits_value 0 ds)) rest"
proof (induction ds arbitrary: rc res)
  case (Cons d ds)
  have d: "schar_code d = char_code d" "\<not> schar_code d < 48" "\<not> schar_code d > 57"
    using Cons.prems by (auto simp: is_digit_def schar_code_def)
  have "size_scan rc res ((d # ds) @ rest)
      = size_scan True ((res * 10 + word_of_int (char_code d) - 48) * 10 ^ length ds
          + word_of_int (digits_value 0 ds)) rest"
    using d Cons by simp
  also have "(res * 10 + word_of_int (char_code d) - 48) * 10 ^ length ds
        + word_of_int (digits_value 0 ds)
      = res * 10 ^ length (d # ds) + word_of_int (digits_value 0 (d # ds))"
    by (simp add: digits_value_acc [of "char_code d - 48" ds] digit_value_def algebra_simps)
  finally show ?case by simp
qed simp

lemma mult_1024_pow: "mult_1024 n res = res * 1024 ^ n"
  by (induction n arbitrary: res) simp_all

section \<open>Reading what was written\<close>

text \<open>A value the writer and the reader agree on: not empty, no white space or comma in it,
  and not starting like a comment or a quoted value.\<close>

definition plain_value :: "string \<Rightarrow> bool" where
  "plain_value v \<longleftrightarrow> v \<noteq> [] \<and> (\<forall>c \<in> set v. \<not> isspace c \<and> c \<noteq> CHR '','')
     \<and> hd v \<notin> {CHR ''#'', CHR 0x27, CHR 0x22}"

lemma isspace_chars [simp]: "isspace (CHR '' '')" "isspace (CHR 0x0A)" "\<not> isspace (CHR '','')"
  by (simp_all add: isspace_def)

lemma read_values_space: "isspace c \<Longrightarrow> read_values (c # cs) = read_values cs"
  by (simp add: read_values.simps)

lemma read_values_plain:
  assumes v: "plain_value v" and sep: "d = CHR '','' \<or> isspace d"
    and rest: "read_values rest = (vs, ok)"
  shows "read_values (v @ d # rest) = (v # vs, ok)"
proof -
  obtain c cs where vc: "v = c # cs" using v by (cases v) (auto simp: plain_value_def)
  have tw: "takeWhile (\<lambda>d. \<not> (d = CHR '','' \<or> isspace d)) (v @ d # rest) = v"
    using v sep by (subst takeWhile_append2) (auto simp: plain_value_def)
  have dw: "dropWhile (\<lambda>d. \<not> (d = CHR '','' \<or> isspace d)) (v @ d # rest) = d # rest"
    using v sep by (subst dropWhile_append2) (auto simp: plain_value_def)
  have "\<not> isspace c" "c \<noteq> CHR ''#''" "c \<noteq> CHR 0x27" "c \<noteq> CHR 0x22" "c \<noteq> CHR '',''"
    using v vc by (auto simp: plain_value_def)
  then show ?thesis
    using read_values.simps(2) [of c "cs @ d # rest"] tw dw rest unfolding vc
    by (simp add: Let_def)
qed

lemma read_write_values:
  assumes "\<forall>v \<in> set vs. plain_value (data v) \<and> \<not> val_ignore v"
  shows "read_values (write_values vs @ [CHR 0x0A]) = (map data vs, True)"
  using assms
proof (induction vs)
  case Nil
  show ?case by (simp add: read_values_space) (simp add: read_values.simps)
next
  case (Cons v vs)
  show ?case
  proof (cases "vs = []")
    case True
    have "read_values [] = ([], True)" by (simp add: read_values.simps)
    with True Cons.prems read_values_plain [of "data v" "CHR 0x0A" "[]" "[]" True]
    show ?thesis by simp
  next
    case False
    have "read_values (CHR '' '' # write_values vs @ [CHR 0x0A]) = (map data vs, True)"
      using Cons by (simp add: read_values_space)
    with False Cons.prems
      read_values_plain [of "data v" "CHR '',''" "CHR '' '' # write_values vs @ [CHR 0x0A]"]
    show ?thesis by simp
  qed
qed

lemma fgets_from_line:
  assumes "CHR 0x0A \<notin> set l" "length l < room" "0 < room"
  shows "fgets_from room acc (l @ CHR 0x0A # rest) = (rev acc @ l @ [CHR 0x0A]) # fgets_from 255 [] rest"
  using assms by (induction l arbitrary: room acc) auto

section \<open>Properties\<close>

text \<open>C12: Every operation that changes the option registry keeps it well-formed: names are
  stored in their underscore form and no two options share one.  This covers setting an
  option (accepted or rejected, and through a configuration file), registering a table of
  arguments, reading a configuration file and removing an option.\<close>

theorem options_wf_preserved:
  assumes "wf_options opts" "CHR 0x00 \<notin> set name" "\<forall>a \<in> set args. CHR 0x00 \<notin> set (arg_name a)"
  shows "wf_options (fst (set_option fs opts name v type)) \<and>
    wf_options (fst (sb_register_arg_set fs opts args)) \<and>
    wf_options (fst (read_config opts contents)) \<and>
    wf_options (fst (remove_option opts name))"
  using assms by (auto intro: inv_intros read_config_wf)

theorem options_wf_preserved_witness:
  "wf_options (fst (set_option (\<lambda>_. None) [] ''file-num'' (Some ''4'') SB_ARG_TYPE_INT))"
  using options_wf_preserved [of "[]" "''file-num''" "[]"] by (simp add: wf_options_def)

text \<open>For every option type except a configuration file, \<open>set_option\<close> succeeds exactly
  when the option's validator and the type accept the argument; then the option, read under
  any spelling of its name (dashes or underscores), has exactly the parsed values (the argument,
  the comma-separated tokens of a list, \<open>on\<close> or nothing for a flag); on failure it is left
  registered with no value; and in both cases no option of another name changes.\<close>

theorem set_option_correct:
  assumes "wf_options opts" "CHR 0x00 \<notin> set name" "type \<noteq> SB_ARG_TYPE_FILE"
    and "set_option fs opts name v type = (opts', r)"
    and "CHR 0x00 \<notin> set other"
  shows "(r \<noteq> None \<longleftrightarrow> accepts opts name v \<and> parsed_values type v \<noteq> None) \<and>
    sb_get_value_list opts' other =
      (if convert_dashes other = convert_dashes name
       then Some (if r = None then [] else the (parsed_values type v))
       else sb_get_value_list opts other)"
proof (cases "convert_dashes other = convert_dashes name")
  case True
  have "wf_options opts'"
    using set_option_wf [OF assms(1,2), of fs v type] assms(4) by simp
  with True have "find_option opts' other = find_option opts' name"
    using assms(2,5) by (simp add: find_option_wf)
  with True set_option_values [OF assms(1-4)] show ?thesis
    by (simp add: sb_get_value_list_def)
qed (use set_option_values [OF assms(1-4)] assms(5) in simp)

theorem set_option_correct_witness:
  "sb_get_value_list (fst (set_option (\<lambda>_. None) [] ''report-checkpoints'' (Some ''10,20'')
     SB_ARG_TYPE_LIST)) ''report_checkpoints'' = Some [''10'', ''20'']"
proof -
  have "wf_options []" "accepts [] ''report-checkpoints'' (Some ''10,20'')"
    by (simp_all add: wf_options_def accepts_def find_option_def)
  then show ?thesis
    using set_option_correct [of "[]" "''report-checkpoints''" SB_ARG_TYPE_LIST "\<lambda>_. None"
        "Some ''10,20''" _ _ "''report_checkpoints''", OF _ _ _ surjective_pairing]
    by (simp add: convert_dashes_def strtok_list_def)
qed

text \<open>\<open>sb_opt_to_size\<close> reads a decimal number with an optional unit letter, in either
  case: the number times 1024, 1024^2, 1024^3 or 1024^4 for K, M, G and T, 0 for any other
  letter, whatever follows the letter; all arithmetic is modulo 2^64 with no overflow check.\<close>

theorem sb_opt_to_size_correct:
  assumes "opt_values opt = v # vs" "data v = ds @ unit" "list_all is_digit ds" "ds \<noteq> []"
    and "unit = [] \<or> \<not> is_digit (hd unit)"
  shows "sb_opt_to_size opt = (if unit = [] then word_of_int (digits_value 0 ds)
     else case index_of ((=) (toupper (hd unit))) ''KMGT'' of
       None \<Rightarrow> 0
     | Some k \<Rightarrow> word_of_int (digits_value 0 ds) * 1024 ^ (k + 1))"
proof (cases unit)
  case Nil
  then show ?thesis
    using assms size_scan_digits [of ds False 0 "[]"] by (simp add: sb_opt_to_size_def)
next
  case (Cons u us)
  have "schar_code u < 48 \<or> schar_code u > 57"
    using assms(5) Cons char_code_bounds [of u] by (auto simp: is_digit_def schar_code_def)
  then have "size_scan False 0 (ds @ unit) = (word_of_int (digits_value 0 ds), Some u)"
    using assms Cons size_scan_digits [of ds False 0 "u # us"] by simp
  then show ?thesis
    using assms Cons
    by (simp add: sb_opt_to_size_def sizemods_def mult_1024_pow split: option.split)
qed

theorem sb_opt_to_size_correct_witness:
  "sb_opt_to_size (new_option\<lparr>opt_values := [new_value\<lparr>data := ''64k''\<rparr>]\<rparr>) = 65536"
proof -
  have "list_all is_digit ''64''" "\<not> is_digit (CHR ''k'')" "toupper (CHR ''k'') = CHR ''K''"
    "digits_value 0 ''64'' = 64"
    by code_simp+
  then show ?thesis
    using sb_opt_to_size_correct [of "new_option\<lparr>opt_values := [new_value\<lparr>data := ''64k''\<rparr>]\<rparr>"
        "new_value\<lparr>data := ''64k''\<rparr>" "[]" "''64''" "''k''"]
    by simp
qed

lemma read_written_option:
  assumes "opt_ignore opt = False" "\<forall>v \<in> set (opt_values opt). plain_value (data v) \<and> \<not> val_ignore v"
    and "length (fst (write_config [opt])) \<le> 255"
    and "set (fst (write_config [opt])) \<inter> {CHR 0x00} = {}"
    and "CHR 0x0A \<notin> set (opt_name opt @ write_values (opt_values opt))"
    and "CHR ''='' \<notin> set (opt_name opt)"
  shows "read_config [] (fst (write_config [opt])) =
    ([fold add_value (map data (opt_values opt))
        (new_option\<lparr>opt_name := convert_dashes (opt_name opt @ '' '')\<rparr>)], True)"
proof -
  let ?vals = "write_values (opt_values opt)"
  let ?rest = "CHR '' '' # ?vals @ [CHR 0x0A]"
  let ?line = "(opt_name opt @ '' '') @ CHR ''='' # ?rest"
  have w: "fst (write_config [opt]) = ?line" using assms(1) by simp
  have "fgets_from 255 [] ((opt_name opt @ '' = '' @ ?vals) @ CHR 0x0A # []) =
      (rev [] @ (opt_name opt @ '' = '' @ ?vals) @ [CHR 0x0A]) # fgets_from 255 [] []"
    by (rule fgets_from_line) (use assms(1,3,5) in auto)
  then have "fgets_lines ?line = [?line]"
    using assms(4) unfolding w fgets_lines_def
    by (auto intro!: takeWhile_eq_all_conv [THEN iffD2])
  moreover have "takeWhile (\<lambda>c. c \<noteq> CHR ''='') ?line = opt_name opt @ '' ''"
    "dropWhile (\<lambda>c. c \<noteq> CHR ''='') ?line = CHR ''='' # ?rest"
    using assms(6) by (subst takeWhile_append2 dropWhile_append2; auto)+
  moreover have "read_values ?rest = (map data (opt_values opt), True)"
    using read_write_values [OF assms(2)] by (simp add: read_values_space)
  ultimately show ?thesis
    unfolding read_config_def w
    by (simp add: read_config_line_def Let_def add_option_def find_option_def
        upd_option_def free_values_def new_option_def)
qed


definition sample_option :: option_t where
  "sample_option = new_option\<lparr>opt_name := ''threads'', opt_values := [new_value\<lparr>data := ''4''\<rparr>]\<rparr>"


text \<open>How a registry grows: positions, names and validators of the options already there stay.\<close>

definition extends :: "options \<Rightarrow> options \<Rightarrow> bool" where
  "extends opts opts' \<longleftrightarrow> length opts \<le> length opts' \<and>
     (\<forall>j < length opts. opt_name (opts' ! j) = opt_name (opts ! j)
        \<and> opt_validate (opts' ! j) = opt_validate (opts ! j))"

lemma extends_refl [simp]: "extends opts opts"
  by (simp add: extends_def)

lemma extends_trans: "extends a b \<Longrightarrow> extends b c \<Longrightarrow> extends a c"
  by (auto simp: extends_def)

lemma extends_upd:
  "(\<And>opt. opt_name (f opt) = opt_name opt \<and> opt_validate (f opt) = opt_validate opt) \<Longrightarrow>
   extends opts (upd_option i f opts)"
  by (simp add: extends_def nth_upd_option)

lemma extends_add_option: "extends opts (fst (add_option opts name))"
  by (auto simp: extends_def add_option_def nth_append split: option.split)

lemma extends_read_config_line: "extends opts (fst (read_config_line opts buf))"
proof -
  let ?name = "takeWhile (\<lambda>c. c \<noteq> CHR ''='') buf"
  obtain opts1 i where a: "add_option opts ?name = (opts1, i)" by fastforce
  have "extends opts opts1" using extends_add_option [of opts ?name] a by simp
  moreover have "extends opts1 (upd_option i (fold add_value vs) (upd_option i free_values opts1))" for vs
    by (rule extends_trans [OF extends_upd [of free_values] extends_upd]) simp_all
  ultimately show ?thesis
    by (auto simp: read_config_line_def Let_def a intro: extends_trans split: prod.split)
qed

lemma extends_read_config_lines: "extends opts (fst (read_config_lines opts ls))"
proof (induction ls arbitrary: opts)
  case (Cons l ls)
  then show ?case
    using extends_read_config_line [of opts l] by (auto intro: extends_trans split: prod.split)
qed simp

lemma set_option_extends:
  assumes "wf_options opts" "CHR 0x00 \<notin> set name" "set_option fs opts name v type = (opts', r)"
  shows "extends opts opts'"
    "r = Some i \<Longrightarrow> i < length opts' \<and> opt_name (opts' ! i) = convert_dashes name"
proof -
  obtain opts1 k where a: "add_option opts name = (opts1, k)" by fastforce
  note p = add_option_props [OF assms(1,2) a]
  let ?o = "upd_option k (\<lambda>opt. (free_values opt)\<lparr>opt_type := type\<rparr>) opts1"
  have e1: "extends opts opts1" using extends_add_option [of opts name] a by simp
  have e2: "extends opts1 ?o" by (rule extends_upd) simp
  have e: "extends ?o opts' \<and> (r = None \<or> r = Some k)"
    using assms(3) extends_read_config_lines
    unfolding set_option_def Let_def a prod.case read_config_file_def read_config_def
    by (cases type) (auto split: if_splits option.splits intro: extends_upd)
  then show "extends opts opts'" using e1 e2 extends_trans by blast
  have "extends opts1 opts'" using e e2 extends_trans by blast
  then show "i < length opts' \<and> opt_name (opts' ! i) = convert_dashes name" if "r = Some i"
    using that e p(2,3) by (auto simp: extends_def)
qed

lemma register_args_validate:
  "wf_options opts \<Longrightarrow> \<forall>a \<in> set args. CHR 0x00 \<notin> set (arg_name a) \<Longrightarrow>
   register_args fs v opts args = (opts', 0) \<Longrightarrow>
   (\<forall>j < length opts. j < length opts' \<and> opt_name (opts' ! j) = opt_name (opts ! j)
      \<and> (opt_validate (opts ! j) = v \<longrightarrow> opt_validate (opts' ! j) = v)) \<and>
   (\<forall>a \<in> set args. \<exists>j < length opts'. opt_name (opts' ! j) = convert_dashes (arg_name a)
      \<and> opt_validate (opts' ! j) = v)"
proof (induction args arbitrary: opts)
  case (Cons a args)
  obtain opts1 i where s: "set_option fs opts (arg_name a) (arg_value a) (arg_type a) = (opts1, Some i)"
    using Cons.prems(3) by (auto split: prod.splits option.splits)
  have nul: "CHR 0x00 \<notin> set (arg_name a)" using Cons.prems(2) by simp
  note ext = set_option_extends [OF Cons.prems(1) nul s]
  let ?o = "upd_option i (\<lambda>opt. opt\<lparr>opt_validate := v\<rparr>) opts1"
  have w: "wf_options ?o"
    using set_option_wf [OF Cons.prems(1) nul, of fs "arg_value a" "arg_type a"] s
      wf_options_names [OF names_upd_option] by simp
  have r: "register_args fs v ?o args = (opts', 0)" using Cons.prems(3) s by simp
  note IH = Cons.IH [OF w _ r]
  have i: "i < length ?o" "opt_name (?o ! i) = convert_dashes (arg_name a)"
    "opt_validate (?o ! i) = v"
    using ext(2) [of i] by (simp_all add: nth_upd_option)
  have old: "j < length ?o" "opt_name (?o ! j) = opt_name (opts ! j)"
    "opt_validate (opts ! j) = v \<longrightarrow> opt_validate (?o ! j) = v" if "j < length opts" for j
    using ext(1) that by (auto simp: extends_def nth_upd_option)
  show ?case
    using IH Cons.prems(2) i old by (metis list.set_intros(2) set_ConsD)
qed simp

text \<open>A successful \<open>sb_register_arg_set\<close> gives every option of the table the validator of
  the table's first entry (the source reads \<open>set->validate\<close>, not \<open>set[i].validate\<close>): the
  validators of the other entries are never installed.\<close>

theorem register_arg_set_validate:
  assumes "wf_options opts" "\<forall>b \<in> set (a # args). CHR 0x00 \<notin> set (arg_name b)"
    and "sb_register_arg_set fs opts (a # args) = (opts', 0)"
    and "b \<in> set (a # args)"
  shows "\<exists>i. find_option opts' (arg_name b) = Some i \<and> opt_validate (opts' ! i) = arg_validate a"
proof -
  have r: "register_args fs (arg_validate a) opts (a # args) = (opts', 0)"
    using assms(3) by (simp add: sb_register_arg_set_def)
  have w: "wf_options opts'"
    using register_args_wf [OF assms(1,2), of fs "arg_validate a"] r by simp
  obtain j where j: "j < length opts'" "opt_name (opts' ! j) = convert_dashes (arg_name b)"
      "opt_validate (opts' ! j) = arg_validate a"
    using register_args_validate [OF assms(1,2) r] assms(4) by blast
  have nul: "CHR 0x00 \<notin> set (arg_name b)" using assms(2,4) by blast
  then have "find_option opts' (arg_name b) \<noteq> None"
    using j w by (auto simp: find_option_wf index_of_None)
  then obtain i where i: "find_option opts' (arg_name b) = Some i" by blast
  from find_option_Some [OF w nul i] j w have "i = j"
    using nth_eq_iff_index_eq [of "map opt_name opts'" i j] by (simp add: wf_options_def)
  with i j show ?thesis by simp
qed

definition sample_args :: "sb_arg list" where
  "sample_args =
     [\<lparr>arg_name = ''rate'', arg_desc = [], arg_value = Some ''0'', arg_type = SB_ARG_TYPE_INT,
       arg_validate = None\<rparr>,
      \<lparr>arg_name = ''time'', arg_desc = [], arg_value = Some ''10'', arg_type = SB_ARG_TYPE_INT,
       arg_validate = Some (\<lambda>_ v. v = Some ''10'')\<rparr>]"

theorem register_arg_set_validate_witness:
  "\<exists>i. find_option (fst (sb_register_arg_set (\<lambda>_. None) [] sample_args)) ''time'' = Some i \<and>
     opt_validate (fst (sb_register_arg_set (\<lambda>_. None) [] sample_args) ! i) = None"
proof -
  have "snd (sb_register_arg_set (\<lambda>_. None) [] sample_args) = 0"
    by (simp add: sample_args_def sb_register_arg_set_def set_option_def Let_def add_option_def
        find_option_def new_option_def free_values_def upd_option_def schar_code_def char_code_def
        is_dash_def convert_dashes_def)
  then show ?thesis
    using register_arg_set_validate [of "[]" "hd sample_args" "tl sample_args" "\<lambda>_. None" _
        "sample_args ! 1"]
    by (cases "sb_register_arg_set (\<lambda>_. None) [] sample_args")
      (simp add: sample_args_def wf_options_def)
qed

text \<open>\<open>sb_print_value_size\<close> scales by 1024 at most five times and prints one of the units
  K, M, G, T exactly for values from 1024 up to 1024^5; from 1024^5 on the unit is the
  terminating NUL of the table, which the loop bound \<open>sizeof(sizemods)\<close> lets it reach.\<close>

theorem print_value_size_unit:
  "snd (sb_print_value_size x) =
     (if x < 1024 then None
      else if x < 1024 ^ 2 then Some (CHR ''K'')
      else if x < 1024 ^ 3 then Some (CHR ''M'')
      else if x < 1024 ^ 4 then Some (CHR ''G'')
      else if x < 1024 ^ 5 then Some (CHR ''T'')
      else Some (CHR 0x00))"
proof -
  have "length sizemods = Suc (Suc (Suc (Suc (Suc 0))))" by (simp add: sizemods_def)
  then show ?thesis
    by (simp add: sb_print_value_size_def Let_def) (simp add: sizemods_def)
qed

end
