(* ===== verification/Timer.thy ===== *)
theory Timer
  imports Prelude
begin

text \<open>
  Timers (\<open>sb_timer.h\<close>, \<open>sb_timer.c\<close>).  A timer collects the number of events, the sum, the
  minimum and the maximum of their durations in nanoseconds, all in uint64_t arithmetic.
  The reading of the monotonic clock is an argument of the operations that take one.  The
  spin lock is a flag of the timer, set and cleared where the source locks and unlocks.
\<close>

section \<open>Time values\<close>

record timespec =
  tv_sec :: int
  tv_nsec :: int

definition NS_PER_SEC :: int where "NS_PER_SEC = 1000000000"

definition SEC2NS :: "int \<Rightarrow> u64" where
  "SEC2NS sec = word_of_int sec * word_of_int NS_PER_SEC"

definition NS2SEC :: "u64 \<Rightarrow> real" where
  "NS2SEC nsec = real (unat nsec) / 1000000000"

definition NS2MS :: "int \<Rightarrow> real" where
  "NS2MS nsec = real_of_int nsec / 1000000"

definition TIMESPEC_DIFF :: "timespec \<Rightarrow> timespec \<Rightarrow> u64" where
  "TIMESPEC_DIFF a b = SEC2NS (tv_sec a - tv_sec b) + word_of_int (tv_nsec a - tv_nsec b)"

text \<open>The argument \<open>sb_nanosleep\<close> hands to \<open>nanosleep\<close>.\<close>

definition sb_nanosleep_arg :: "u64 \<Rightarrow> timespec" where
  "sb_nanosleep_arg ns =
     \<lparr>tv_sec = uint (ns div word_of_int NS_PER_SEC), tv_nsec = uint (ns mod word_of_int NS_PER_SEC)\<rparr>"

definition timespec_ns :: "timespec \<Rightarrow> int" where
  "timespec_ns t = tv_sec t * NS_PER_SEC + tv_nsec t"

lemma TIMESPEC_DIFF_ns: "TIMESPEC_DIFF a b = word_of_int (timespec_ns a - timespec_ns b)"
  by (simp add: TIMESPEC_DIFF_def SEC2NS_def timespec_ns_def NS_PER_SEC_def algebra_simps)

section \<open>Timers\<close>

record sb_timer =
  time_start :: timespec
  time_end :: timespec
  events :: u64
  queue_time :: u64
  min_time :: u64
  max_time :: u64
  sum_time :: u64
  lock :: bool

definition zero_timespec :: timespec where
  "zero_timespec = \<lparr>tv_sec = 0, tv_nsec = 0\<rparr>"

definition sb_timer_reset :: "sb_timer \<Rightarrow> sb_timer" where
  "sb_timer_reset t =
     t\<lparr>min_time := UINT64_MAX, max_time := 0, sum_time := 0, events := 0, queue_time := 0\<rparr>"

definition sb_timer_init :: "sb_timer \<Rightarrow> sb_timer" where
  "sb_timer_init t =
     sb_timer_reset (t\<lparr>time_start := zero_timespec, time_end := zero_timespec, lock := False\<rparr>)"

definition sb_timer_start :: "timespec \<Rightarrow> sb_timer \<Rightarrow> sb_timer" where
  "sb_timer_start now t =
     (let t = t\<lparr>lock := True\<rparr>;
          t = t\<lparr>time_start := now\<rparr>
      in t\<lparr>lock := False\<rparr>)"

definition sb_timer_stop :: "timespec \<Rightarrow> sb_timer \<Rightarrow> sb_timer \<times> u64" where
  "sb_timer_stop now t =
     (let t = t\<lparr>lock := True\<rparr>;
          t = t\<lparr>time_end := now\<rparr>;
          elapsed = TIMESPEC_DIFF (time_end t) (time_start t) + queue_time t;
          t = t\<lparr>events := events t + 1\<rparr>;
          t = t\<lparr>sum_time := sum_time t + elapsed\<rparr>;
          t = (if elapsed < min_time t then t\<lparr>min_time := elapsed\<rparr> else t);
          t = (if elapsed > max_time t then t\<lparr>max_time := elapsed\<rparr> else t)
      in (t\<lparr>lock := False\<rparr>, elapsed))"

definition sb_timer_value :: "timespec \<Rightarrow> sb_timer \<Rightarrow> u64" where
  "sb_timer_value now t = TIMESPEC_DIFF now (time_start t) + queue_time t"

definition sb_timer_copy :: "sb_timer \<Rightarrow> sb_timer" where
  "sb_timer_copy src = src\<lparr>lock := False\<rparr>"

definition sb_timer_running :: "sb_timer \<Rightarrow> bool" where
  "sb_timer_running t \<longleftrightarrow> TIMESPEC_DIFF (time_start t) (time_end t) > 0"

definition sb_timer_current :: "timespec \<Rightarrow> sb_timer \<Rightarrow> sb_timer \<times> u64" where
  "sb_timer_current now t = (t\<lparr>time_start := now\<rparr>, TIMESPEC_DIFF now (time_start t))"

text \<open>\<open>sb_timer_checkpoint\<close>: the timer and the copy.\<close>

definition sb_timer_checkpoint :: "sb_timer \<Rightarrow> sb_timer \<times> sb_timer" where
  "sb_timer_checkpoint t =
     (let t = t\<lparr>lock := True\<rparr>;
          old = t\<lparr>lock := False\<rparr>;
          t = sb_timer_reset t
      in (t\<lparr>lock := False\<rparr>, old))"

definition sb_timer_avg :: "sb_timer \<Rightarrow> u64" where
  "sb_timer_avg t = (if events t = 0 then 0 else sum_time t div events t)"

definition sb_timer_sum :: "sb_timer \<Rightarrow> u64" where
  "sb_timer_sum t = sum_time t"

definition sb_timer_min :: "sb_timer \<Rightarrow> u64" where
  "sb_timer_min t = (if events t = 0 then 0 else min_time t)"

definition sb_timer_max :: "sb_timer \<Rightarrow> u64" where
  "sb_timer_max t = max_time t"

definition zero_timer :: sb_timer where
  "zero_timer = \<lparr>time_start = zero_timespec, time_end = zero_timespec, events = 0,
     queue_time = 0, min_time = 0, max_time = 0, sum_time = 0, lock = False\<rparr>"

definition sb_timer_merge :: "sb_timer \<Rightarrow> sb_timer \<Rightarrow> sb_timer" where
  "sb_timer_merge t1 t2 =
     (let t = zero_timer;
          t = t\<lparr>sum_time := sum_time t1 + sum_time t2\<rparr>;
          t = t\<lparr>events := events t1 + events t2\<rparr>;
          t = (if max_time t1 > max_time t2 then t\<lparr>max_time := max_time t1\<rparr>
               else t\<lparr>max_time := max_time t2\<rparr>)
      in (if min_time t1 < min_time t2 then t\<lparr>min_time := min_time t1\<rparr>
          else t\<lparr>min_time := min_time t2\<rparr>))"

section \<open>The statistics of a timer\<close>

record stats =
  s_events :: u64
  s_sum :: u64
  s_min :: u64
  s_max :: u64

definition timer_stats :: "sb_timer \<Rightarrow> stats" where
  "timer_stats t = \<lparr>s_events = events t, s_sum = sum_time t, s_min = min_time t, s_max = max_time t\<rparr>"

definition timer_of_stats :: "stats \<Rightarrow> sb_timer" where
  "timer_of_stats s = zero_timer\<lparr>events := s_events s, sum_time := s_sum s,
     min_time := s_min s, max_time := s_max s\<rparr>"

definition merge_stats :: "stats \<Rightarrow> stats \<Rightarrow> stats" where
  "merge_stats x y = timer_stats (sb_timer_merge (timer_of_stats x) (timer_of_stats y))"

definition no_stats :: stats where
  "no_stats = timer_stats (sb_timer_init zero_timer)"

lemma merge_stats_eq:
  "merge_stats x y = \<lparr>s_events = s_events x + s_events y, s_sum = s_sum x + s_sum y,
     s_min = min (s_min x) (s_min y), s_max = max (s_max x) (s_max y)\<rparr>"
  by (auto simp: merge_stats_def timer_stats_def timer_of_stats_def sb_timer_merge_def Let_def)

lemma timer_stats_merge:
  "timer_stats (sb_timer_merge t1 t2) = merge_stats (timer_stats t1) (timer_stats t2)"
  by (auto simp: merge_stats_eq timer_stats_def sb_timer_merge_def Let_def)

lemma no_stats_eq: "no_stats = \<lparr>s_events = 0, s_sum = 0, s_min = UINT64_MAX, s_max = 0\<rparr>"
  by (simp add: no_stats_def timer_stats_def sb_timer_init_def sb_timer_reset_def)

lemma timer_stats_init [simp]: "timer_stats (sb_timer_init t) = no_stats"
  "timer_stats (sb_timer_reset t) = no_stats"
  by (simp_all add: no_stats_eq timer_stats_def sb_timer_init_def sb_timer_reset_def)

interpretation timer_merge: comm_merge merge_stats no_stats
proof unfold_locales
  fix x y z :: stats
  show "merge_stats (merge_stats x y) z = merge_stats x (merge_stats y z)"
    by (simp add: merge_stats_eq min.assoc max.assoc add.assoc)
  show "merge_stats x y = merge_stats y x"
    by (simp add: merge_stats_eq min.commute max.commute add.commute)
  have "min UINT64_MAX (s_min x) = s_min x" by (rule min.absorb2) (rule u64_max_top)
  then show "merge_stats no_stats x = x"
    by (simp add: merge_stats_eq no_stats_eq)
qed

lemma foldl_timer_merge:
  "timer_stats (foldl sb_timer_merge t ts) = foldl merge_stats (timer_stats t) (map timer_stats ts)"
  by (induction ts arbitrary: t) (simp_all add: timer_stats_merge)

text \<open>The statistics of a list of durations, and of one of them.\<close>

definition one_event :: "u64 \<Rightarrow> stats" where
  "one_event e = \<lparr>s_events = 1, s_sum = e, s_min = e, s_max = e\<rparr>"

lemma timer_stats_stop:
  "timer_stats (fst (sb_timer_stop now t)) =
     merge_stats (timer_stats t) (one_event (snd (sb_timer_stop now t)))"
  by (auto simp: merge_stats_eq timer_stats_def sb_timer_stop_def Let_def one_event_def
      min_def max_def)

text \<open>Running a list of timed events, each a pair of clock readings, on a timer.\<close>

fun run_events :: "sb_timer \<Rightarrow> (timespec \<times> timespec) list \<Rightarrow> sb_timer" where
  "run_events t [] = t"
| "run_events t ((b, e) # es) = run_events (fst (sb_timer_stop e (sb_timer_start b t))) es"

lemma run_events_stats:
  "timer_stats (run_events t es) =
     foldl merge_stats (timer_stats t)
       (map (\<lambda>(b, e). one_event (TIMESPEC_DIFF e b + queue_time t)) es)"
proof (induction t es rule: run_events.induct)
  case (2 t b e es)
  let ?t = "sb_timer_start b t"
  have "timer_stats ?t = timer_stats t" by (simp add: timer_stats_def sb_timer_start_def Let_def)
  moreover have "snd (sb_timer_stop e ?t) = TIMESPEC_DIFF e b + queue_time t"
    by (simp add: sb_timer_stop_def sb_timer_start_def Let_def)
  moreover have "queue_time (fst (sb_timer_stop e ?t)) = queue_time t"
    by (simp add: sb_timer_stop_def sb_timer_start_def Let_def)
  ultimately show ?case
    using 2 timer_stats_stop [of e ?t] by simp
qed simp

lemma run_events_init:
  "timer_stats (run_events (sb_timer_init t) es) =
     timer_merge.merge_all (map (\<lambda>(b, e). one_event (TIMESPEC_DIFF e b)) es)"
proof -
  have "queue_time (sb_timer_init t) = 0" by (simp add: sb_timer_init_def sb_timer_reset_def)
  then show ?thesis by (simp add: run_events_stats timer_merge.merge_all_def)
qed

lemma merge_all_Nil: "timer_merge.merge_all [] = no_stats"
  by (simp add: timer_merge.merge_all_def)

lemma merge_stats_fields:
  "s_events (merge_stats x y) = s_events x + s_events y"
  "s_sum (merge_stats x y) = s_sum x + s_sum y"
  "s_min (merge_stats x y) = min (s_min x) (s_min y)"
  "s_max (merge_stats x y) = max (s_max x) (s_max y)"
  "s_events no_stats = 0" "s_sum no_stats = 0"
  by (simp_all add: merge_stats_eq no_stats_eq)

lemma one_event_fields [simp]:
  "s_events (one_event e) = 1" "s_sum (one_event e) = e"
  "s_min (one_event e) = e" "s_max (one_event e) = e"
  by (simp_all add: one_event_def)

lemmas merge_all_simps = merge_all_Nil timer_merge.merge_all_Cons merge_stats_fields

lemma merge_all_events: "s_events (timer_merge.merge_all (map one_event ws)) = of_nat (length ws)"
  by (induction ws) (simp_all add: merge_all_simps)

lemma merge_all_sum: "s_sum (timer_merge.merge_all (map one_event ws)) = sum_list ws"
  by (induction ws) (simp_all add: merge_all_simps)

lemma merge_all_min_max:
  "w \<in> set ws \<Longrightarrow> s_min (timer_merge.merge_all (map one_event ws)) \<le> w \<and>
     w \<le> s_max (timer_merge.merge_all (map one_event ws))"
  by (induction ws) (auto simp: merge_all_simps intro: min.coboundedI2 max.coboundedI2)

lemma sum_list_uint_nonneg: "0 \<le> sum_list (map uint ws)"
  by (induction ws) simp_all

lemma uint_sum_list:
  "sum_list (map uint ws) < 2 ^ 64 \<Longrightarrow> uint (sum_list (ws :: u64 list)) = sum_list (map uint ws)"
proof (induction ws)
  case (Cons w ws)
  have "0 \<le> uint w" by simp
  with Cons.prems have "sum_list (map uint ws) < 2 ^ 64"
    unfolding list.map sum_list.Cons by linarith
  then show ?case
    using Cons by (simp add: uint_word_arith_bintrs take_bit_int_eq_self sum_list_uint_nonneg)
qed simp

lemma uint_TIMESPEC_DIFF:
  assumes "timespec_ns b \<le> timespec_ns a" "timespec_ns a - timespec_ns b < 2 ^ 64"
  shows "uint (TIMESPEC_DIFF a b) = timespec_ns a - timespec_ns b"
  unfolding TIMESPEC_DIFF_ns uint_word_of_int_eq using assms by (simp add: take_bit_int_eq_self)

lemma uint_durations:
  assumes "\<forall>(b, e) \<in> set es. timespec_ns b \<le> timespec_ns e"
    and "(\<Sum>(b, e) \<leftarrow> es. timespec_ns e - timespec_ns b) < 2 ^ 64"
  shows "map (\<lambda>(b, e). uint (TIMESPEC_DIFF e b)) es =
    map (\<lambda>(b, e). timespec_ns e - timespec_ns b) es"
  using assms
proof (induction es)
  case (Cons be es)
  obtain b e where be: "be = (b, e)" by (cases be)
  have "0 \<le> (\<Sum>(b, e) \<leftarrow> es. timespec_ns e - timespec_ns b)"
    using Cons.prems(1) by (intro sum_list_nonneg) auto
  with Cons show ?case by (auto simp: be intro!: uint_TIMESPEC_DIFF)
qed simp

lemma sum_list_between:
  assumes "\<forall>w \<in> set ws. a \<le> (w :: int) \<and> w \<le> b"
  shows "int (length ws) * a \<le> sum_list ws \<and> sum_list ws \<le> int (length ws) * b"
  using assms by (induction ws) (auto simp: algebra_simps)

lemma avg_between:
  fixes ws :: "u64 list"
  assumes "ws \<noteq> []" "unat n = length ws" "uint s = sum_list (map uint ws)"
    and "\<And>w. w \<in> set ws \<Longrightarrow> lo \<le> w \<and> w \<le> hi"
  shows "lo \<le> s div n \<and> s div n \<le> hi"
proof -
  have n: "uint n = int (length ws)" unfolding assms(2) [symmetric] by simp
  have pos: "0 < int (length ws)" using assms(1) by simp
  from sum_list_between [of "map uint ws" "uint lo" "uint hi"] assms(4)
  have "int (length ws) * uint lo \<le> uint s" "uint s \<le> int (length ws) * uint hi"
    by (auto simp: assms(3) word_le_def)
  then have "uint lo \<le> uint s div int (length ws)" "uint s div int (length ws) \<le> uint hi"
    using pos zdiv_mono1 [of "int (length ws) * uint lo" "uint s" "int (length ws)"]
      zdiv_mono1 [of "uint s" "int (length ws) * uint hi" "int (length ws)"] by simp_all
  then show ?thesis by (simp add: word_le_def uint_div n)
qed

lemma aggregate_runs:
  assumes "mset perm = mset ess"
  shows "timer_stats (foldl sb_timer_merge (sb_timer_init t0)
           (map (run_events (sb_timer_init t)) perm)) =
         timer_stats (run_events (sb_timer_init t) (concat ess))"
proof -
  let ?ev = "\<lambda>(b, e). one_event (TIMESPEC_DIFF e b)"
  note run = run_events_init [of t]
  have "timer_stats (foldl sb_timer_merge (sb_timer_init t0) (map (run_events (sb_timer_init t)) perm))
      = timer_merge.merge_all (map (\<lambda>es. timer_merge.merge_all (map ?ev es)) perm)"
    by (simp add: foldl_timer_merge timer_merge.merge_all_def [of "map _ perm"] comp_def run)
  also have "\<dots> = timer_merge.merge_all (map (\<lambda>es. timer_merge.merge_all (map ?ev es)) ess)"
    using assms by (intro timer_merge.merge_all_perm) simp
  also have "\<dots> = timer_merge.merge_all (map ?ev (concat ess))"
    by (induction ess)
      (simp_all add: timer_merge.merge_all_Cons timer_merge.merge_all_append merge_all_Nil)
  finally show ?thesis by (simp add: run)
qed

section \<open>Properties\<close>

text \<open>For two clock readings less than 2^64 nanoseconds apart, in order, the mixed signed
  and unsigned arithmetic of TIMESPEC_DIFF gives the exact difference in nanoseconds, also
  when the nanosecond fields have to borrow.\<close>

theorem TIMESPEC_DIFF_exact:
  assumes "timespec_ns b \<le> timespec_ns a" "timespec_ns a - timespec_ns b < 2 ^ 64"
  shows "uint (TIMESPEC_DIFF a b) = timespec_ns a - timespec_ns b"
  using assms by (rule uint_TIMESPEC_DIFF)

theorem TIMESPEC_DIFF_exact_witness:
  "uint (TIMESPEC_DIFF \<lparr>tv_sec = 11, tv_nsec = 5\<rparr> \<lparr>tv_sec = 10, tv_nsec = 999999999\<rparr>) = 6"
  using TIMESPEC_DIFF_exact [of "\<lparr>tv_sec = 10, tv_nsec = 999999999\<rparr>" "\<lparr>tv_sec = 11, tv_nsec = 5\<rparr>"]
  by (simp add: timespec_ns_def NS_PER_SEC_def)

text \<open>C14: Aggregating the timers of the worker threads by repeated \<open>sb_timer_merge\<close> from an
  initialised timer gives statistics that do not depend on the order of the threads, and that
  are those of one timer that had timed every thread's events itself.\<close>

theorem timer_aggregate:
  assumes "mset perm = mset ess"
  shows "timer_stats (foldl sb_timer_merge (sb_timer_init t0)
           (map (run_events (sb_timer_init t)) perm)) =
         timer_stats (run_events (sb_timer_init t) (concat ess))"
  using assms by (rule aggregate_runs)

theorem timer_aggregate_witness:
  "timer_stats (foldl sb_timer_merge (sb_timer_init zero_timer)
     (map (run_events (sb_timer_init zero_timer))
        [[(\<lparr>tv_sec = 1, tv_nsec = 0\<rparr>, \<lparr>tv_sec = 1, tv_nsec = 7\<rparr>)], []])) =
   \<lparr>s_events = 1, s_sum = 7, s_min = 7, s_max = 7\<rparr>"
proof -
  have r: "timer_stats (run_events (sb_timer_init zero_timer)
      [(\<lparr>tv_sec = 1, tv_nsec = 0\<rparr>, \<lparr>tv_sec = 1, tv_nsec = 7\<rparr>)]) =
    \<lparr>s_events = 1, s_sum = 7, s_min = 7, s_max = 7\<rparr>"
    by (simp add: run_events_init merge_all_Nil timer_merge.merge_all_Cons
        timer_merge.merge_unit_right one_event_def TIMESPEC_DIFF_def SEC2NS_def
        del: run_events.simps)
  show ?thesis
    using r timer_aggregate
      [of "[[(\<lparr>tv_sec = 1, tv_nsec = 0\<rparr>, \<lparr>tv_sec = 1, tv_nsec = 7\<rparr>)], []]"
        "[[], [(\<lparr>tv_sec = 1, tv_nsec = 0\<rparr>, \<lparr>tv_sec = 1, tv_nsec = 7\<rparr>)]]" zero_timer zero_timer]
    by (simp add: add_mset_commute)
qed

text \<open>Over the events of one timer, as long as their number and their total duration fit in
  64 bits, the reported count is the number of events, the sum is the exact total, and the
  average the timer reports lies between its minimum and its maximum.\<close>

theorem timer_report_consistent:
  assumes "es \<noteq> []" "\<forall>(b, e) \<in> set es. timespec_ns b \<le> timespec_ns e"
    and "length es < 2 ^ 64" "(\<Sum>(b, e) \<leftarrow> es. timespec_ns e - timespec_ns b) < 2 ^ 64"
    and "t = run_events (sb_timer_init t0) es"
  shows "unat (events t) = length es \<and>
    uint (sb_timer_sum t) = (\<Sum>(b, e) \<leftarrow> es. timespec_ns e - timespec_ns b) \<and>
    sb_timer_min t \<le> sb_timer_avg t \<and> sb_timer_avg t \<le> sb_timer_max t"
proof -
  let ?ws = "map (\<lambda>(b, e). TIMESPEC_DIFF e b) es"
  let ?S = "timer_merge.merge_all (map one_event ?ws)"
  have t: "timer_stats t = ?S"
    by (simp add: assms(5) run_events_init comp_def case_prod_unfold)
  have exact: "map uint ?ws = map (\<lambda>(b, e). timespec_ns e - timespec_ns b) es"
    using uint_durations [OF assms(2,4)] by (simp add: case_prod_unfold)
  have sum: "sum_list (map uint ?ws) < 2 ^ 64" unfolding exact by (rule assms(4))
  have f: "events t = s_events ?S" "sum_time t = s_sum ?S" "min_time t = s_min ?S"
    "max_time t = s_max ?S"
    using t by (auto simp: timer_stats_def dest: sym)
  have n: "unat (events t) = length ?ws"
    unfolding f merge_all_events by (rule unat_of_nat_small) (use assms(3) in simp)
  have s: "uint (sum_time t) = sum_list (map uint ?ws)"
    by (simp only: f merge_all_sum uint_sum_list [OF sum])
  have "?ws \<noteq> []" using assms(1) by simp
  have
    "min_time t \<le> sum_time t div events t \<and> sum_time t div events t \<le> max_time t"
    unfolding f(3,4) by (rule avg_between [OF \<open>?ws \<noteq> []\<close> n s]) (rule merge_all_min_max)
  moreover have "events t \<noteq> 0" using n assms(1) by auto
  ultimately show ?thesis
    using n s [unfolded exact] by (simp add: sb_timer_min_def sb_timer_avg_def sb_timer_max_def sb_timer_sum_def)
qed

theorem timer_report_consistent_witness:
  "sb_timer_min (run_events (sb_timer_init zero_timer)
      [(\<lparr>tv_sec = 1, tv_nsec = 0\<rparr>, \<lparr>tv_sec = 1, tv_nsec = 7\<rparr>),
       (\<lparr>tv_sec = 2, tv_nsec = 0\<rparr>, \<lparr>tv_sec = 2, tv_nsec = 4\<rparr>)]) \<le>
   sb_timer_avg (run_events (sb_timer_init zero_timer)
      [(\<lparr>tv_sec = 1, tv_nsec = 0\<rparr>, \<lparr>tv_sec = 1, tv_nsec = 7\<rparr>),
       (\<lparr>tv_sec = 2, tv_nsec = 0\<rparr>, \<lparr>tv_sec = 2, tv_nsec = 4\<rparr>)])"
  using timer_report_consistent
    [of "[(\<lparr>tv_sec = 1, tv_nsec = 0\<rparr>, \<lparr>tv_sec = 1, tv_nsec = 7\<rparr>),
       (\<lparr>tv_sec = 2, tv_nsec = 0\<rparr>, \<lparr>tv_sec = 2, tv_nsec = 4\<rparr>)]" _ zero_timer]
  by (simp add: timespec_ns_def NS_PER_SEC_def)

text \<open>The test \<open>sb_timer_running\<close> does not tell a running timer from a stopped one: the
  difference is unsigned, so it is positive whenever the two clock readings differ modulo
  2^64 nanoseconds, in particular right after a stop that took any time at all.\<close>

theorem sb_timer_running_after_stop:
  assumes "timespec_ns b < timespec_ns e" "timespec_ns e - timespec_ns b < 2 ^ 64"
  shows "sb_timer_running (fst (sb_timer_stop e (sb_timer_start b t)))"
proof -
  let ?d = "timespec_ns b - timespec_ns e"
  have "(word_of_int ?d :: u64) \<noteq> 0"
  proof
    assume "(word_of_int ?d :: u64) = 0"
    then have "2 ^ 64 dvd ?d" by (simp only: word_of_int_eq_0_iff) simp
    then have "2 ^ 64 dvd - ?d" by (simp only: dvd_minus_iff)
    with assms zdvd_not_zless [of "- ?d" "2 ^ 64"] show False by simp
  qed
  then show ?thesis
    by (simp add: sb_timer_running_def sb_timer_stop_def sb_timer_start_def Let_def
        TIMESPEC_DIFF_ns word_gt_0)
qed

theorem sb_timer_running_after_stop_witness:
  "sb_timer_running (fst (sb_timer_stop \<lparr>tv_sec = 5, tv_nsec = 1\<rparr>
     (sb_timer_start \<lparr>tv_sec = 5, tv_nsec = 0\<rparr> zero_timer)))"
  using sb_timer_running_after_stop [of "\<lparr>tv_sec = 5, tv_nsec = 0\<rparr>" "\<lparr>tv_sec = 5, tv_nsec = 1\<rparr>"]
  by (simp add: timespec_ns_def)

end
