(* ===== verification/Counter.thy ===== *)
theory Counter
  imports Prelude
begin

text \<open>
  Statistic counters (\<open>sb_counter.h\<close>, \<open>sb_counter.c\<close>).  Every worker thread owns a row of
  64-bit counters, one per counter type; only its owner writes a row.  The reports read all
  the rows and subtract what the previous report of the same kind has seen, which they keep
  in a global row of their own.  The array \<open>sb_counters\<close> is a list of rows, \<open>None\<close> when it is
  not allocated.
\<close>

section \<open>Counters\<close>

datatype sb_counter_type_t =
  SB_CNT_OTHER | SB_CNT_READ | SB_CNT_WRITE | SB_CNT_EVENT | SB_CNT_ERROR | SB_CNT_RECONNECT
| SB_CNT_BYTES_READ | SB_CNT_BYTES_WRITTEN

fun cnt_index :: "sb_counter_type_t \<Rightarrow> nat" where
  "cnt_index SB_CNT_OTHER = 0"
| "cnt_index SB_CNT_READ = 1"
| "cnt_index SB_CNT_WRITE = 2"
| "cnt_index SB_CNT_EVENT = 3"
| "cnt_index SB_CNT_ERROR = 4"
| "cnt_index SB_CNT_RECONNECT = 5"
| "cnt_index SB_CNT_BYTES_READ = 6"
| "cnt_index SB_CNT_BYTES_WRITTEN = 7"

definition SB_CNT_MAX :: nat where "SB_CNT_MAX = 8"

text \<open>\<open>sb_counters_t\<close>: with 8 counters of 8 bytes the row is one cache line, with no padding.\<close>

type_synonym sb_counters_t = "u64 list"

record counters =
  sb_counters :: "sb_counters_t list option"
  last_intermediate_counters :: sb_counters_t
  last_cumulative_counters :: sb_counters_t

definition zero_row :: sb_counters_t where
  "zero_row = replicate SB_CNT_MAX 0"

text \<open>The program's data segment before \<open>sb_counters_init\<close>, and the initialisation:
  \<open>sb_alloc_per_thread_array\<close> gives a zeroed array, with one row more than there are worker
  threads for the background threads, or NULL, which \<open>alloc_ok\<close> tells.\<close>

definition counters_static :: counters where
  "counters_static = \<lparr>sb_counters = None, last_intermediate_counters = zero_row,
     last_cumulative_counters = zero_row\<rparr>"

definition sb_counters_init :: "bool \<Rightarrow> nat \<Rightarrow> counters \<Rightarrow> counters \<times> bool" where
  "sb_counters_init alloc_ok threads c =
     (let c = c\<lparr>sb_counters := (if alloc_ok then Some (replicate (threads + 1) zero_row) else None)\<rparr>
      in (c, sb_counters c = None))"

definition sb_counters_done :: "counters \<Rightarrow> counters" where
  "sb_counters_done c =
     (if sb_counters c \<noteq> None then c\<lparr>sb_counters := None\<rparr> else c)"

definition sb_counter_val :: "sb_counters_t list \<Rightarrow> nat \<Rightarrow> nat \<Rightarrow> u64" where
  "sb_counter_val rows thread_id type = (rows ! thread_id) ! type"

definition sb_counter_add ::
  "nat \<Rightarrow> sb_counter_type_t \<Rightarrow> u64 \<Rightarrow> sb_counters_t list \<Rightarrow> sb_counters_t list" where
  "sb_counter_add thread_id type val rows =
     rows[thread_id := (rows ! thread_id)[cnt_index type :=
       sb_counter_val rows thread_id (cnt_index type) + val]]"

definition sb_counter_inc ::
  "nat \<Rightarrow> sb_counter_type_t \<Rightarrow> sb_counters_t list \<Rightarrow> sb_counters_t list" where
  "sb_counter_inc thread_id type rows = sb_counter_add thread_id type 1 rows"

text \<open>\<open>sb_counters_merge\<close>: the two nested loops, the inner one over the threads.\<close>

fun merge_threads :: "sb_counters_t list \<Rightarrow> nat \<Rightarrow> nat list \<Rightarrow> u64 \<Rightarrow> u64" where
  "merge_threads rows t [] acc = acc"
| "merge_threads rows t (i # is) acc = merge_threads rows t is (acc + sb_counter_val rows i t)"

fun merge_types :: "sb_counters_t list \<Rightarrow> nat \<Rightarrow> nat list \<Rightarrow> sb_counters_t \<Rightarrow> sb_counters_t" where
  "merge_types rows threads [] dst = dst"
| "merge_types rows threads (t # ts) dst =
     merge_types rows threads ts (dst[t := merge_threads rows t [0..<threads] (dst ! t)])"

definition sb_counters_merge :: "sb_counters_t list \<Rightarrow> nat \<Rightarrow> sb_counters_t \<Rightarrow> sb_counters_t" where
  "sb_counters_merge rows threads dst = merge_types rows threads [0..<SB_CNT_MAX] dst"

text \<open>\<open>sb_counters_checkpoint\<close>: element by element, the old checkpoint is read, replaced by the
  current value and subtracted from it.\<close>

fun checkpoint_from ::
  "nat list \<Rightarrow> sb_counters_t \<Rightarrow> sb_counters_t \<Rightarrow> sb_counters_t \<times> sb_counters_t" where
  "checkpoint_from [] dst cp = (dst, cp)"
| "checkpoint_from (i # is) dst cp =
     (let tmp = cp ! i;
          cp = cp[i := dst ! i];
          dst = dst[i := dst ! i - tmp]
      in checkpoint_from is dst cp)"

definition sb_counters_checkpoint ::
  "sb_counters_t \<Rightarrow> sb_counters_t \<Rightarrow> sb_counters_t \<times> sb_counters_t" where
  "sb_counters_checkpoint dst cp = checkpoint_from [0..<SB_CNT_MAX] dst cp"

definition sb_counters_agg_intermediate ::
  "sb_counters_t list \<Rightarrow> nat \<Rightarrow> counters \<Rightarrow> counters \<times> sb_counters_t" where
  "sb_counters_agg_intermediate rows threads c =
     (let val = zero_row;
          val = sb_counters_merge rows threads val;
          (val, cp) = sb_counters_checkpoint val (last_intermediate_counters c)
      in (c\<lparr>last_intermediate_counters := cp\<rparr>, val))"

definition sb_counters_agg_cumulative ::
  "sb_counters_t list \<Rightarrow> nat \<Rightarrow> counters \<Rightarrow> counters \<times> sb_counters_t" where
  "sb_counters_agg_cumulative rows threads c =
     (let val = zero_row;
          val = sb_counters_merge rows threads val;
          (val, cp) = sb_counters_checkpoint val (last_cumulative_counters c)
      in (c\<lparr>last_cumulative_counters := cp\<rparr>, val))"

section \<open>Rows and merging\<close>

definition add_rows :: "sb_counters_t \<Rightarrow> sb_counters_t \<Rightarrow> sb_counters_t" where
  "add_rows x y = map (\<lambda>t. x ! t + y ! t) [0..<SB_CNT_MAX]"

definition rows_ok :: "nat \<Rightarrow> sb_counters_t list \<Rightarrow> bool" where
  "rows_ok n rows \<longleftrightarrow> length rows = n \<and> (\<forall>r \<in> set rows. length r = SB_CNT_MAX)"

lemma cnt_index_less [simp]: "cnt_index ty < SB_CNT_MAX"
  by (cases ty) (simp_all add: SB_CNT_MAX_def)

lemma cnt_index_inj [simp]: "cnt_index a = cnt_index b \<longleftrightarrow> a = b"
  by (cases a; cases b) simp_all

lemma zero_row_nth [simp]: "t < SB_CNT_MAX \<Longrightarrow> zero_row ! t = 0"
  by (simp add: zero_row_def)

lemma length_zero_row [simp]: "length zero_row = SB_CNT_MAX"
  by (simp add: zero_row_def)

lemma merge_threads_eq:
  "merge_threads rows t is acc = acc + (\<Sum>i\<leftarrow>is. sb_counter_val rows i t)"
  by (induction "is" arbitrary: acc) (simp_all add: add.assoc)

lemma merge_types_nth:
  "distinct ts \<Longrightarrow> \<forall>t \<in> set ts. t < length dst \<Longrightarrow> length (merge_types rows n ts dst) = length dst \<and>
     (\<forall>j < length dst. merge_types rows n ts dst ! j =
        (if j \<in> set ts then dst ! j + (\<Sum>i\<leftarrow>[0..<n]. sb_counter_val rows i j) else dst ! j))"
  by (induction ts arbitrary: dst) (auto simp: merge_threads_eq nth_list_update)

definition total :: "sb_counters_t list \<Rightarrow> nat \<Rightarrow> u64" where
  "total rows t = (\<Sum>r\<leftarrow>rows. r ! t)"

definition totals :: "sb_counters_t list \<Rightarrow> sb_counters_t" where
  "totals rows = map (total rows) [0..<SB_CNT_MAX]"

lemma sum_rows: "n \<le> length rows \<Longrightarrow> (\<Sum>i\<leftarrow>[0..<n]. sb_counter_val rows i j) = total (take n rows) j"
  unfolding total_def sb_counter_val_def
  by (rule arg_cong [where f = sum_list]) (auto intro: nth_equalityI)

lemma sb_counters_merge_eq:
  "n \<le> length rows \<Longrightarrow> sb_counters_merge rows n zero_row = totals (take n rows)"
  unfolding sb_counters_merge_def totals_def
  using merge_types_nth [of "[0..<SB_CNT_MAX]" zero_row rows n]
  by (intro nth_equalityI) (auto simp: sum_rows)

lemma checkpoint_from_nth:
  assumes "distinct is" "\<forall>i \<in> set is. i < length dst \<and> i < length cp"
    and "checkpoint_from is dst cp = (dst', cp')"
  shows "length dst' = length dst \<and> length cp' = length cp \<and>
    (\<forall>j. dst' ! j = (if j \<in> set is then dst ! j - cp ! j else dst ! j) \<and>
         cp' ! j = (if j \<in> set is then dst ! j else cp ! j))"
  using assms
proof (induction "is" arbitrary: dst cp)
  case (Cons i "is")
  let ?d = "dst[i := dst ! i - cp ! i]" and ?c = "cp[i := dst ! i]"
  have "checkpoint_from is ?d ?c = (dst', cp')" using Cons.prems(3) by (simp add: Let_def)
  from Cons.IH [OF _ _ this] Cons.prems(1,2) show ?case
    by (auto simp: nth_list_update)
qed simp

definition sub_rows :: "sb_counters_t \<Rightarrow> sb_counters_t \<Rightarrow> sb_counters_t" where
  "sub_rows x y = map (\<lambda>t. x ! t - y ! t) [0..<SB_CNT_MAX]"

lemma sb_counters_checkpoint_eq:
  assumes "length dst = SB_CNT_MAX" "length cp = SB_CNT_MAX"
  shows "sb_counters_checkpoint dst cp = (sub_rows dst cp, dst)"
proof -
  obtain d c where dc: "sb_counters_checkpoint dst cp = (d, c)"
    by (cases "sb_counters_checkpoint dst cp")
  then have e: "checkpoint_from [0..<SB_CNT_MAX] dst cp = (d, c)"
    by (simp add: sb_counters_checkpoint_def)
  from checkpoint_from_nth [OF _ _ e] assms
  have "d = sub_rows dst cp" "c = dst"
    by (auto simp: sub_rows_def intro!: nth_equalityI)
  with dc show ?thesis by simp
qed

lemma length_totals [simp]: "length (totals rows) = SB_CNT_MAX"
  by (simp add: totals_def)

lemma totals_nth [simp]: "t < SB_CNT_MAX \<Longrightarrow> totals rows ! t = total rows t"
  by (simp add: totals_def)

lemma agg_intermediate_eq:
  assumes "n \<le> length rows" "length (last_intermediate_counters c) = SB_CNT_MAX"
  shows "sb_counters_agg_intermediate rows n c =
    (c\<lparr>last_intermediate_counters := totals (take n rows)\<rparr>,
     sub_rows (totals (take n rows)) (last_intermediate_counters c))"
  using assms by (simp add: sb_counters_agg_intermediate_def sb_counters_merge_eq
      sb_counters_checkpoint_eq)

lemma agg_cumulative_eq:
  assumes "n \<le> length rows" "length (last_cumulative_counters c) = SB_CNT_MAX"
  shows "sb_counters_agg_cumulative rows n c =
    (c\<lparr>last_cumulative_counters := totals (take n rows)\<rparr>,
     sub_rows (totals (take n rows)) (last_cumulative_counters c))"
  using assms by (simp add: sb_counters_agg_cumulative_def sb_counters_merge_eq
      sb_counters_checkpoint_eq)

section \<open>Reports along a run\<close>

text \<open>A worker adds to a counter of its row, which only it writes, while a report of each of the two kinds
  may be under way in a thread of its own: the loops of \<open>sb_counters_merge\<close> and
  \<open>sb_counters_checkpoint\<close>, one access at a time.\<close>

datatype report_kind = Intermediate | Cumulative

datatype report_at = Merging nat nat sb_counters_t | Checkpointing nat sb_counters_t

datatype cnt_op = Add nat sb_counter_type_t u64 | Report report_kind

text \<open>The run collects the finished reports of each kind.  Two components are history: the number of steps,
  and the step at which a report began, for the one under way and for the last one finished.\<close>

record cnt_run =
  rows :: "sb_counters_t list"
  globals :: counters
  progress :: "report_kind \<Rightarrow> (nat \<times> report_at) option"
  reports :: "report_kind \<Rightarrow> sb_counters_t list"
  clock :: nat
  since :: "report_kind \<Rightarrow> nat"

fun last_counters :: "report_kind \<Rightarrow> counters \<Rightarrow> sb_counters_t" where
  "last_counters Intermediate c = last_intermediate_counters c"
| "last_counters Cumulative c = last_cumulative_counters c"

fun set_last :: "report_kind \<Rightarrow> sb_counters_t \<Rightarrow> counters \<Rightarrow> counters" where
  "set_last Intermediate cp c = c\<lparr>last_intermediate_counters := cp\<rparr>"
| "set_last Cumulative cp c = c\<lparr>last_cumulative_counters := cp\<rparr>"

definition report_becomes :: "report_kind \<Rightarrow> (nat \<times> report_at) option \<Rightarrow> cnt_run \<Rightarrow> cnt_run" where
  "report_becomes k r s = s\<lparr>progress := (progress s)(k := r)\<rparr>"

text \<open>A step of a report, which may be its beginning with \<open>memset\<close> or its end.\<close>

definition report_step :: "nat \<Rightarrow> report_kind \<Rightarrow> cnt_run \<Rightarrow> cnt_run" where
  "report_step threads k s =
     (case progress s k of
        None \<Rightarrow> report_becomes k (Some (clock s, Merging 0 0 zero_row)) s
      | Some (from, Merging t i dst) \<Rightarrow>
          if t = SB_CNT_MAX then report_becomes k (Some (from, Checkpointing 0 dst)) s
          else if i = threads then report_becomes k (Some (from, Merging (t + 1) 0 dst)) s
          else report_becomes k (Some (from, Merging t (i + 1) (dst[t := merge_threads (rows s) t [i] (dst ! t)]))) s
      | Some (from, Checkpointing i dst) \<Rightarrow>
          if i = SB_CNT_MAX
          then report_becomes k None (s\<lparr>reports := (reports s)(k := reports s k @ [dst]), since := (since s)(k := from)\<rparr>)
          else (let (dst, cp) = checkpoint_from [i] dst (last_counters k (globals s))
                in report_becomes k (Some (from, Checkpointing (i + 1) dst)) (s\<lparr>globals := set_last k cp (globals s)\<rparr>)))"

definition cnt_step :: "nat \<Rightarrow> cnt_op \<Rightarrow> cnt_run \<Rightarrow> cnt_run" where
  "cnt_step threads op s =
     (let s = (case op of Add i ty v \<Rightarrow> s\<lparr>rows := sb_counter_add i ty v (rows s)\<rparr> | Report k \<Rightarrow> report_step threads k s)
      in s\<lparr>clock := clock s + 1\<rparr>)"

definition cnt_start :: "nat \<Rightarrow> cnt_run" where
  "cnt_start threads = \<lparr>rows = the (sb_counters (fst (sb_counters_init True threads counters_static))),
     globals = counters_static, progress = \<lambda>_. None, reports = \<lambda>_. [], clock = 0, since = \<lambda>_. 0\<rparr>"

text \<open>What a thread, and what the threads with a number below \<open>n\<close>, add to a counter.\<close>

definition added_by :: "nat \<Rightarrow> nat \<Rightarrow> cnt_op list \<Rightarrow> u64" where
  "added_by i t ops = (\<Sum>op\<leftarrow>ops. case op of Add j ty v \<Rightarrow> if j = i \<and> cnt_index ty = t then v else 0 | _ \<Rightarrow> 0)"

definition added :: "nat \<Rightarrow> sb_counter_type_t \<Rightarrow> cnt_op list \<Rightarrow> u64" where
  "added n ty ops = (\<Sum>op\<leftarrow>ops. case op of Add i ty' v \<Rightarrow> if ty' = ty \<and> i < n then v else 0 | _ \<Rightarrow> 0)"

definition op_ok :: "nat \<Rightarrow> cnt_op \<Rightarrow> bool" where
  "op_ok n op \<longleftrightarrow> (case op of Add i ty v \<Rightarrow> i \<le> n | _ \<Rightarrow> True)"

section \<open>A report that is not interrupted\<close>

text \<open>The steps of a report without others in between compute \<open>sb_counters_agg_intermediate\<close> and
  \<open>sb_counters_agg_cumulative\<close>.\<close>

definition alone :: "nat \<Rightarrow> report_kind \<Rightarrow> cnt_run \<Rightarrow> cnt_run \<Rightarrow> bool" where
  "alone n k s s' \<longleftrightarrow> (\<exists>m. s' = (report_step n k ^^ m) s)"

lemma alone_refl: "alone n k s s"
  by (auto simp: alone_def intro: exI [of _ 0])

lemma alone_step: "alone n k (report_step n k s) s' \<Longrightarrow> alone n k s s'"
  unfolding alone_def by (metis comp_apply funpow_Suc_right)

lemma alone_trans [trans]: "alone n k s s' \<Longrightarrow> alone n k s' s'' \<Longrightarrow> alone n k s s''"
  unfolding alone_def by (metis comp_apply funpow_add)

lemma alone_one: "report_step n k s = s' \<Longrightarrow> alone n k s s'"
  using alone_step [OF alone_refl] by blast

lemma report_becomes_simps [simp]:
  "rows (report_becomes k r s) = rows s" "globals (report_becomes k r s) = globals s"
  "reports (report_becomes k r s) = reports s" "clock (report_becomes k r s) = clock s" "since (report_becomes k r s) = since s"
  "progress (report_becomes k r s) = (progress s)(k := r)"
  "report_becomes k r (report_becomes k r' s) = report_becomes k r s"
  by (simp_all add: report_becomes_def)

lemma alone_inner:
  assumes "t < SB_CNT_MAX" "i \<le> n" "t < length dst"
  shows "alone n k (report_becomes k (Some (from, Merging t i dst)) s)
    (report_becomes k (Some (from, Merging t n (dst[t := merge_threads (rows s) t [i..<n] (dst ! t)]))) s)"
  using assms(2,3)
proof (induction "n - i" arbitrary: i dst)
  case 0
  then show ?case by (simp add: alone_refl)
next
  case (Suc m)
  let ?d = "dst[t := merge_threads (rows s) t [i] (dst ! t)]"
  have lt: "i < n" "m = n - Suc i" using Suc.hyps(2) by auto
  have "merge_threads (rows s) t [i..<n] (dst ! t) = merge_threads (rows s) t [Suc i..<n] (?d ! t)"
    using lt(1) Suc.prems(2) by (simp add: upt_conv_Cons)
  moreover have "alone n k (report_becomes k (Some (from, Merging t (Suc i) ?d)) s)
    (report_becomes k (Some (from, Merging t n (?d[t := merge_threads (rows s) t [Suc i..<n] (?d ! t)]))) s)"
    by (rule Suc.hyps(1) [OF lt(2)]) (use lt(1) Suc.prems(2) in auto)
  moreover have "report_step n k (report_becomes k (Some (from, Merging t i dst)) s) =
      report_becomes k (Some (from, Merging t (Suc i) ?d)) s"
    using lt(1) assms(1) by (simp add: report_step_def)
  ultimately show ?case by - (rule alone_step, simp)
qed

lemma alone_merge:
  assumes "t \<le> SB_CNT_MAX" "length dst = SB_CNT_MAX"
  shows "alone n k (report_becomes k (Some (from, Merging t 0 dst)) s)
    (report_becomes k (Some (from, Checkpointing 0 (merge_types (rows s) n [t..<SB_CNT_MAX] dst))) s)"
  using assms
proof (induction "SB_CNT_MAX - t" arbitrary: t dst)
  case 0
  then show ?case by - (rule alone_step, simp add: report_step_def alone_refl)
next
  case (Suc m)
  let ?d = "dst[t := merge_threads (rows s) t [0..<n] (dst ! t)]"
  have lt: "t < SB_CNT_MAX" "m = SB_CNT_MAX - Suc t" using Suc.hyps(2) by auto
  have "alone n k (report_becomes k (Some (from, Merging t 0 dst)) s) (report_becomes k (Some (from, Merging t n ?d)) s)"
    by (rule alone_inner) (use lt Suc.prems(2) in simp_all)
  also have "alone n k (report_becomes k (Some (from, Merging t n ?d)) s) (report_becomes k (Some (from, Merging (Suc t) 0 ?d)) s)"
    using lt(1) by (intro alone_one) (simp add: report_step_def)
  also have "alone n k (report_becomes k (Some (from, Merging (Suc t) 0 ?d)) s)
      (report_becomes k (Some (from, Checkpointing 0 (merge_types (rows s) n [Suc t..<SB_CNT_MAX] ?d))) s)"
    by (rule Suc.hyps(1) [OF lt(2)]) (use lt(1) Suc.prems(2) in simp_all)
  finally have "alone n k (report_becomes k (Some (from, Merging t 0 dst)) s)
      (report_becomes k (Some (from, Checkpointing 0 (merge_types (rows s) n [Suc t..<SB_CNT_MAX] ?d))) s)" .
  then show ?case using lt(1) by (simp add: upt_conv_Cons)
qed

lemma last_set [simp]: "last_counters k (set_last k cp c) = cp" "set_last k cp (set_last k cp' c) = set_last k cp c"
  by (cases k; simp)+

lemma last_set_other [simp]: "k' \<noteq> k \<Longrightarrow> last_counters k' (set_last k cp c) = last_counters k' c"
  by (cases k; cases k'; simp)

lemma last_set_id [simp]: "set_last k (last_counters k c) c = c"
  by (cases k) simp_all

lemma alone_checkpoint:
  assumes "i \<le> SB_CNT_MAX" "checkpoint_from [i..<SB_CNT_MAX] dst (last_counters k (globals s)) = (val, cp)"
  shows "alone n k (report_becomes k (Some (from, Checkpointing i dst)) s)
    (report_becomes k None (s\<lparr>globals := set_last k cp (globals s), reports := (reports s)(k := reports s k @ [val]),
       since := (since s)(k := from)\<rparr>))"
  using assms
proof (induction "SB_CNT_MAX - i" arbitrary: i dst s)
  case 0
  then have "val = dst" "cp = last_counters k (globals s)" "i = SB_CNT_MAX" by auto
  then show ?case by - (rule alone_one, simp add: report_step_def report_becomes_def fun_upd_def cong: if_cong)
next
  case (Suc m)
  let ?cp = "last_counters k (globals s)"
  let ?s = "s\<lparr>globals := set_last k (?cp[i := dst ! i]) (globals s)\<rparr>"
  have lt: "i < SB_CNT_MAX" "m = SB_CNT_MAX - Suc i" using Suc.hyps(2) by auto
  have "checkpoint_from [Suc i..<SB_CNT_MAX] (dst[i := dst ! i - ?cp ! i]) (last_counters k (globals ?s)) = (val, cp)"
    using Suc.prems(2) lt(1) by (simp add: upt_conv_Cons Let_def)
  then have "alone n k (report_becomes k (Some (from, Checkpointing (Suc i) (dst[i := dst ! i - ?cp ! i]))) ?s)
    (report_becomes k None (?s\<lparr>globals := set_last k cp (globals ?s), reports := (reports ?s)(k := reports ?s k @ [val]),
       since := (since ?s)(k := from)\<rparr>))"
    by (rule Suc.hyps(1) [OF lt(2), rotated]) (use lt(1) in simp)
  moreover have "report_step n k (report_becomes k (Some (from, Checkpointing i dst)) s) =
      report_becomes k (Some (from, Checkpointing (Suc i) (dst[i := dst ! i - ?cp ! i]))) ?s"
    using lt(1) by (simp add: report_step_def Let_def report_becomes_def)
  ultimately show ?case by - (rule alone_step, simp)
qed

lemma report_alone:
  assumes "progress s k = None"
    and "(c, val) = (case k of Intermediate \<Rightarrow> sb_counters_agg_intermediate (rows s) n (globals s)
                             | Cumulative \<Rightarrow> sb_counters_agg_cumulative (rows s) n (globals s))"
  shows "alone n k s (s\<lparr>globals := c, reports := (reports s)(k := reports s k @ [val]), since := (since s)(k := clock s)\<rparr>)"
proof -
  obtain v cp where v: "sb_counters_checkpoint (sb_counters_merge (rows s) n zero_row) (last_counters k (globals s)) = (v, cp)"
    by fastforce
  then have cv: "c = set_last k cp (globals s)" "val = v"
    using assms(2) by (cases k; simp add: sb_counters_agg_intermediate_def sb_counters_agg_cumulative_def Let_def)+
  have "alone n k s (report_becomes k (Some (clock s, Merging 0 0 zero_row)) s)"
    using assms(1) by (intro alone_one) (simp add: report_step_def)
  also have "alone n k (report_becomes k (Some (clock s, Merging 0 0 zero_row)) s)
      (report_becomes k (Some (clock s, Checkpointing 0 (sb_counters_merge (rows s) n zero_row))) s)"
    unfolding sb_counters_merge_def by (rule alone_merge) simp_all
  also have "alone n k (report_becomes k (Some (clock s, Checkpointing 0 (sb_counters_merge (rows s) n zero_row))) s)
      (report_becomes k None (s\<lparr>globals := c, reports := (reports s)(k := reports s k @ [val]), since := (since s)(k := clock s)\<rparr>))"
    unfolding cv by (rule alone_checkpoint) (use v in \<open>simp_all add: sb_counters_checkpoint_def\<close>)
  also have "report_becomes k None (s\<lparr>globals := c, reports := (reports s)(k := reports s k @ [val]),
      since := (since s)(k := clock s)\<rparr>) =
      s\<lparr>globals := c, reports := (reports s)(k := reports s k @ [val]), since := (since s)(k := clock s)\<rparr>"
    using assms(1) by (simp add: report_becomes_def fun_upd_idem)
  finally show ?thesis .
qed

section \<open>What the reports have seen\<close>

text \<open>\<open>x\<close> is what the threads below \<open>j\<close> have added to the counter up to some step each, between \<open>from\<close> and
  now.\<close>

definition glimpsed :: "cnt_op list \<Rightarrow> nat \<Rightarrow> nat \<Rightarrow> nat \<Rightarrow> u64 \<Rightarrow> bool" where
  "glimpsed ops from t j x \<longleftrightarrow> (\<exists>cut. x = (\<Sum>i\<leftarrow>[0..<j]. added_by i t (take (cut i) ops)) \<and> (\<forall>i<j. from \<le> cut i \<and> cut i \<le> length ops))"

lemma glimpsed_0: "glimpsed ops from t 0 0"
  by (simp add: glimpsed_def)

lemma glimpsed_later:
  assumes "glimpsed ops from t j x"
  shows "glimpsed (ops @ [op]) from t j x"
proof -
  obtain cut where cut: "x = (\<Sum>i\<leftarrow>[0..<j]. added_by i t (take (cut i) ops))" "\<forall>i<j. from \<le> cut i \<and> cut i \<le> length ops"
    using assms by (auto simp: glimpsed_def)
  have "(\<Sum>i\<leftarrow>[0..<j]. added_by i t (take (cut i) ops)) = (\<Sum>i\<leftarrow>[0..<j]. added_by i t (take (cut i) (ops @ [op])))"
    by (rule arg_cong [where f = sum_list], rule map_cong) (use cut(2) in auto)
  then show ?thesis using cut unfolding glimpsed_def by (intro exI [of _ cut]) (auto intro: le_SucI)
qed

lemma glimpsed_next:
  assumes "glimpsed ops from t j x" "from \<le> length ops"
  shows "glimpsed ops from t (Suc j) (x + added_by j t ops)"
proof -
  obtain cut where cut: "x = (\<Sum>i\<leftarrow>[0..<j]. added_by i t (take (cut i) ops))" "\<forall>i<j. from \<le> cut i \<and> cut i \<le> length ops"
    using assms by (auto simp: glimpsed_def)
  have "(\<Sum>i\<leftarrow>[0..<j]. added_by i t (take ((cut(j := length ops)) i) ops)) = x"
    unfolding cut(1) by (rule arg_cong [where f = sum_list], rule map_cong) auto
  then show ?thesis using cut(2) assms(2) unfolding glimpsed_def by (intro exI [of _ "cut(j := length ops)"]) auto
qed

lemma added_by_append: "added_by i t (ops @ ops') = added_by i t ops + added_by i t ops'"
  by (simp add: added_by_def)

text \<open>The rows hold what was added, and the reports of a kind what they have seen: the finished ones up to the
  last counters, the one under way in its own array.\<close>

definition report_inv :: "nat \<Rightarrow> cnt_op list \<Rightarrow> report_kind \<Rightarrow> cnt_run \<Rightarrow> bool" where
  "report_inv n ops k s \<longleftrightarrow> since s k \<le> length ops \<and>
     (let cp = last_counters k (globals s); whole = (\<lambda>t. glimpsed ops (since s k) t n (total (reports s k) t))
      in length cp = SB_CNT_MAX \<and>
         (case progress s k of
            None \<Rightarrow> \<forall>t<SB_CNT_MAX. cp ! t = total (reports s k) t \<and> whole t
          | Some (from, Merging t i dst) \<Rightarrow>
              from \<le> length ops \<and> length dst = SB_CNT_MAX \<and> t \<le> SB_CNT_MAX \<and> i \<le> n \<and>
              (\<forall>t<SB_CNT_MAX. cp ! t = total (reports s k) t \<and> whole t) \<and>
              (\<forall>u<SB_CNT_MAX. (u < t \<longrightarrow> glimpsed ops from u n (dst ! u)) \<and> (u = t \<longrightarrow> glimpsed ops from u i (dst ! u)) \<and>
                 (t < u \<longrightarrow> dst ! u = 0))
          | Some (from, Checkpointing i dst) \<Rightarrow>
              from \<le> length ops \<and> length dst = SB_CNT_MAX \<and> i \<le> SB_CNT_MAX \<and>
              (\<forall>u<SB_CNT_MAX. whole u \<and>
                 (if u < i then cp ! u = total (reports s k) u + dst ! u \<and> glimpsed ops from u n (total (reports s k) u + dst ! u)
                  else cp ! u = total (reports s k) u \<and> glimpsed ops from u n (dst ! u)))))"

definition rows_inv :: "nat \<Rightarrow> cnt_op list \<Rightarrow> cnt_run \<Rightarrow> bool" where
  "rows_inv n ops s \<longleftrightarrow> rows_ok (n + 1) (rows s) \<and> clock s = length ops \<and>
     (\<forall>i\<le>n. \<forall>t<SB_CNT_MAX. sb_counter_val (rows s) i t = added_by i t ops)"

lemma total_snoc: "total (xs @ [r]) t = total xs t + r ! t"
  by (simp add: total_def)

lemma rows_ok_add:
  assumes "rows_ok m rs" "i < m"
  shows "rows_ok m (sb_counter_add i ty v rs)"
  using assms set_update_subset_insert [of rs i]
  by (fastforce simp: rows_ok_def sb_counter_add_def)

lemma rows_inv_start: "rows_inv n [] (cnt_start n)"
  by (auto simp: rows_inv_def cnt_start_def sb_counters_init_def counters_static_def rows_ok_def sb_counter_val_def
      added_by_def less_Suc_eq_le simp del: replicate_Suc)

lemma report_inv_start: "report_inv n [] k (cnt_start n)"
proof -
  have "glimpsed [] 0 t n 0" for t unfolding glimpsed_def by (intro exI [of _ "\<lambda>_. 0"]) (simp add: added_by_def sum_list_triv)
  then show ?thesis by (cases k) (auto simp: report_inv_def cnt_start_def counters_static_def total_def)
qed

lemma rows_inv_step:
  assumes "rows_inv n ops s" "op_ok n op"
  shows "rows_inv n (ops @ [op]) (cnt_step n op s)"
proof (cases op)
  case (Add i ty v)
  then have i: "i < length (rows s)" "cnt_index ty < length (rows s ! i)"
    using assms nth_mem [of i "rows s"] by (auto simp: rows_inv_def rows_ok_def op_ok_def)
  have "sb_counter_val (sb_counter_add i ty v (rows s)) j t =
      sb_counter_val (rows s) j t + (if j = i \<and> t = cnt_index ty then v else 0)" for j t
    using i by (auto simp: sb_counter_val_def sb_counter_add_def nth_list_update)
  then show ?thesis using assms Add
    by (auto simp: rows_inv_def cnt_step_def op_ok_def rows_ok_add added_by_append added_by_def)
next
  case (Report k)
  then have "rows (report_step n k s) = rows s" "clock (report_step n k s) = clock s"
    by (auto simp: report_step_def Let_def split: option.splits prod.splits report_at.splits)
  then show ?thesis using assms Report by (auto simp: rows_inv_def cnt_step_def added_by_append added_by_def)
qed

lemma report_inv_other:
  assumes "report_inv n ops k s" "since s' k = since s k" "last_counters k (globals s') = last_counters k (globals s)"
    "progress s' k = progress s k" "reports s' k = reports s k"
  shows "report_inv n (ops @ [op]) k s'"
  using assms unfolding report_inv_def Let_def
  by (auto split: option.splits prod.splits report_at.splits if_splits intro: glimpsed_later le_SucI)

lemma report_step_others:
  "k' \<noteq> k \<Longrightarrow> since (report_step n k s) k' = since s k' \<and> last_counters k' (globals (report_step n k s)) = last_counters k' (globals s) \<and>
     progress (report_step n k s) k' = progress s k' \<and> reports (report_step n k s) k' = reports s k'"
  by (auto simp: report_step_def Let_def split: option.splits prod.splits report_at.splits)

text \<open>A step of a report keeps its invariant, at first with the same history.\<close>

lemma report_inv_step:
  assumes "rows_inv n ops s" "report_inv n ops k s"
  shows "report_inv n ops k (report_step n k s)"
proof -
  have clock: "clock s = length ops" using assms(1) by (simp add: rows_inv_def)
  show ?thesis
  proof (cases "progress s k")
    case None
    then show ?thesis using assms(2) clock
      by (auto simp: report_inv_def report_step_def Let_def glimpsed_0)
  next
    case (Some fa)
    then obtain st pc where p: "progress s k = Some (st, pc)" by (cases fa) simp
    show ?thesis
    proof (cases pc)
      case (Merging t i dst)
      note inv = assms(2) [unfolded report_inv_def Let_def p Merging option.case prod.case report_at.case]
      consider "t = SB_CNT_MAX" | "t < SB_CNT_MAX" "i = n" | "t < SB_CNT_MAX" "i < n" using inv by force
      then show ?thesis
      proof cases
        case 1
        then show ?thesis using inv p Merging by (simp add: report_inv_def report_step_def Let_def)
      next
        case 2
        then have "glimpsed ops st u n (dst ! u)" if "u < Suc t" for u
          using that inv by (cases "u = t") auto
        then show ?thesis using 2 inv p Merging by (simp add: report_inv_def report_step_def Let_def glimpsed_0)
      next
        case 3
        have "merge_threads (rows s) t [i] (dst ! t) = dst ! t + added_by i t ops"
          using assms(1) 3 by (simp add: rows_inv_def)
        moreover have "glimpsed ops st t (Suc i) (dst ! t + added_by i t ops)" using inv 3 by (intro glimpsed_next) auto
        ultimately show ?thesis using 3 inv p Merging
          by (simp add: report_inv_def report_step_def Let_def nth_list_update del: merge_threads.simps)
      qed
    next
      case (Checkpointing i dst)
      note inv = assms(2) [unfolded report_inv_def Let_def p Checkpointing option.case prod.case report_at.case]
      show ?thesis
      proof (cases "i = SB_CNT_MAX")
        case True
        then show ?thesis using inv p Checkpointing
          by (simp add: report_inv_def report_step_def Let_def total_snoc)
      next
        case False
        then show ?thesis using inv p Checkpointing
          by (simp add: report_inv_def report_step_def Let_def nth_list_update less_Suc_eq)
      qed
    qed
  qed
qed

lemma cnt_step_inv:
  assumes "rows_inv n ops s" "\<forall>k. report_inv n ops k s" "op_ok n op"
  shows "rows_inv n (ops @ [op]) (cnt_step n op s) \<and> (\<forall>k. report_inv n (ops @ [op]) k (cnt_step n op s))"
proof (intro conjI allI)
  show "rows_inv n (ops @ [op]) (cnt_step n op s)" using rows_inv_step [OF assms(1,3)] .
  fix k
  show "report_inv n (ops @ [op]) k (cnt_step n op s)"
  proof (cases op)
    case (Add i ty v)
    then show ?thesis by (intro report_inv_other [of n ops k s]) (simp_all add: assms(2) cnt_step_def Let_def)
  next
    case (Report k')
    show ?thesis
    proof (cases "k = k'")
      case True
      then show ?thesis using report_inv_step [OF assms(1), of k] assms(2) Report
        by (intro report_inv_other [of n ops k "report_step n k s"]) (simp_all add: cnt_step_def Let_def)
    next
      case False
      then show ?thesis using report_step_others [OF False, of n s] Report
        by (intro report_inv_other [of n ops k s]) (simp_all add: assms(2) cnt_step_def Let_def)
    qed
  qed
qed

lemma cnt_run_inv:
  "\<forall>op\<in>set ops. op_ok n op \<Longrightarrow>
     rows_inv n ops (fold (cnt_step n) ops (cnt_start n)) \<and> (\<forall>k. report_inv n ops k (fold (cnt_step n) ops (cnt_start n)))"
proof (induction ops rule: rev_induct)
  case Nil
  then show ?case by (simp add: rows_inv_start report_inv_start)
next
  case (snoc op ops)
  then show ?case using cnt_step_inv [of n ops _ op] by simp
qed

lemma added_sum: "added n ty ops = (\<Sum>i\<leftarrow>[0..<n]. added_by i (cnt_index ty) ops)"
proof (induction ops)
  case (Cons op ops)
  have single: "(\<Sum>i\<leftarrow>[0..<n]. if j = i then v else 0) = (if j < n then v else (0 :: u64))" for j v
    by (induction n) auto
  have "added n ty [op] = (\<Sum>i\<leftarrow>[0..<n]. added_by i (cnt_index ty) [op])"
  proof (cases op)
    case (Add j ty' v)
    then show ?thesis by (cases "ty' = ty") (simp_all add: added_def added_by_def single)
  qed (simp add: added_def added_by_def)
  then show ?case using Cons added_by_append [of _ "cnt_index ty" "[op]" ops]
    by (simp add: added_def sum_list_addf)
qed (simp add: added_def added_by_def)

lemma added_by_none: "\<forall>op\<in>set ops. \<forall>j ty v. op \<noteq> Add j ty v \<Longrightarrow> added_by i t ops = 0"
  by (induction ops) (auto simp: added_by_def split: cnt_op.splits)

lemma no_more_added:
  assumes "\<forall>op\<in>set (drop m ops). \<forall>j ty v. op \<noteq> Add j ty v" "m \<le> c"
  shows "added_by i t (take c ops) = added_by i t ops"
proof -
  have "op \<in> set (drop c ops) \<Longrightarrow> op \<in> set (drop m ops)" for op using set_drop_subset_set_drop [OF assms(2), of ops] by blast
  then have "added_by i t (drop c ops) = 0" using assms(1) by (intro added_by_none) blast
  then show ?thesis using added_by_append [of i t "take c ops" "drop c ops"] by simp
qed

section \<open>Properties\<close>

text \<open>C10: Whatever the interleaving of the threads' additions with the single reads and writes of reports of
  both kinds, of which one each may be under way, the finished reports of a kind add up, for every
  counter, to the sum over the workers of all that the worker added to it up to some step, which is
  not before the last of these reports began.  So no addition is lost or reported twice, reports
  that began after the last addition add up to exactly what the workers added, the two
  kinds do not disturb each other, and what the background threads add to their extra row is
  left out.\<close>

theorem reports_account:
  assumes "\<forall>op \<in> set ops. op_ok n op"
  defines "s \<equiv> fold (cnt_step n) ops (cnt_start n)"
  shows "(\<exists>cut. total (reports s k) (cnt_index ty) = (\<Sum>i\<leftarrow>[0..<n]. added_by i (cnt_index ty) (take (cut i) ops)) \<and>
      (\<forall>i<n. since s k \<le> cut i \<and> cut i \<le> length ops)) \<and>
    ((\<forall>op\<in>set (drop (since s k) ops). \<forall>i ty v. op \<noteq> Add i ty v) \<longrightarrow> total (reports s k) (cnt_index ty) = added n ty ops)"
proof -
  have "report_inv n ops k s" using cnt_run_inv [OF assms(1)] unfolding s_def by blast
  then have "glimpsed ops (since s k) (cnt_index ty) n (total (reports s k) (cnt_index ty))"
    using cnt_index_less [of ty]
    by (auto simp: report_inv_def Let_def split: option.splits prod.splits report_at.splits)
  then obtain cut where cut: "total (reports s k) (cnt_index ty) = (\<Sum>i\<leftarrow>[0..<n]. added_by i (cnt_index ty) (take (cut i) ops))"
    "\<forall>i<n. since s k \<le> cut i \<and> cut i \<le> length ops" by (auto simp: glimpsed_def)
  moreover have "total (reports s k) (cnt_index ty) = added n ty ops"
    if "\<forall>op\<in>set (drop (since s k) ops). \<forall>i ty v. op \<noteq> Add i ty v"
    unfolding cut(1) added_sum
    by (rule arg_cong [where f = sum_list], rule map_cong) (use no_more_added [OF that] cut(2) in auto)
  ultimately show ?thesis by blast
qed

definition sample_cnt_ops :: "cnt_op list" where
  "sample_cnt_ops = [Add 0 SB_CNT_READ 5, Add 2 SB_CNT_READ 9, Add 1 SB_CNT_READ 2] @ replicate 40 (Report Intermediate)"

theorem reports_account_witness:
  "total (reports (fold (cnt_step 2) sample_cnt_ops (cnt_start 2)) Intermediate) (cnt_index SB_CNT_READ) = 7"
proof -
  have "since (fold (cnt_step 2) sample_cnt_ops (cnt_start 2)) Intermediate = 3" by code_simp
  then show ?thesis using reports_account [of sample_cnt_ops 2 Intermediate SB_CNT_READ]
    by (auto simp: sample_cnt_ops_def op_ok_def added_def sum_list_triv sum_list_replicate)
qed

end
