(* ===== verification/Rand.thy ===== *)
theory Rand
  imports Options
begin

text \<open>
  Pseudo-random numbers (\<open>xoroshiro128plus.h\<close>, \<open>sb_rand.h\<close>, \<open>sb_rand.c\<close>).  The thread-local
  generator state is passed and returned explicitly.  \<open>sb_rand_uniform\<close>, from which the
  benchmarks take their keys, offsets and characters, is modelled with IEEE double rounding:
  the doubles it computes with are multiples of 2^-52 and are held as numbers of that unit,
  rounded to 53 significant bits after every operation that can be inexact.  The gaussian,
  Pareto and Zipfian generators, which call libm, compute with real numbers.
\<close>

section \<open>The generator\<close>

type_synonym sb_rng_state_t = "u64 \<times> u64"

definition xoroshiro_rotl :: "u64 \<Rightarrow> nat \<Rightarrow> u64" where
  "xoroshiro_rotl x k = (push_bit k x) OR (drop_bit (64 - k) x)"

definition xoroshiro_next :: "sb_rng_state_t \<Rightarrow> sb_rng_state_t \<times> u64" where
  "xoroshiro_next s =
     (let s0 = fst s;
          s1 = snd s;
          result = s0 + s1;
          s1 = s1 XOR s0;
          n0 = (xoroshiro_rotl s0 55 XOR s1) XOR push_bit 14 s1;
          n1 = xoroshiro_rotl s1 36
      in ((n0, n1), result))"

definition JUMP :: "u64 list" where
  "JUMP = [0xbeac0467eba5facb, 0xd86b048b86aa9922]"

text \<open>One bit of the jump polynomial: the accumulators and the state.\<close>

definition jump_bit ::
  "u64 \<Rightarrow> nat \<Rightarrow> u64 \<times> u64 \<times> sb_rng_state_t \<Rightarrow> u64 \<times> u64 \<times> sb_rng_state_t" where
  "jump_bit j b acc = (case acc of (a0, a1, s) \<Rightarrow>
     (let (a0, a1) = (if j AND push_bit b 1 \<noteq> 0 then (a0 XOR fst s, a1 XOR snd s) else (a0, a1))
      in (a0, a1, fst (xoroshiro_next s))))"

definition xoroshiro_jump :: "sb_rng_state_t \<Rightarrow> sb_rng_state_t" where
  "xoroshiro_jump s =
     (case fold (\<lambda>j. fold (jump_bit j) [0..<64]) JUMP (0, 0, s) of (s0, s1, _) \<Rightarrow> (s0, s1))"

definition sb_rand_uniform_uint64 :: "sb_rng_state_t \<Rightarrow> sb_rng_state_t \<times> u64" where
  "sb_rand_uniform_uint64 s = xoroshiro_next s"

text \<open>The seed of a thread from four results of \<open>random()\<close>.\<close>

definition sb_rand_thread_init :: "u64 list \<Rightarrow> sb_rng_state_t" where
  "sb_rand_thread_init r =
     (push_bit 32 (r ! 0) OR (r ! 1 AND 0xffffffff), push_bit 32 (r ! 2) OR (r ! 3 AND 0xffffffff))"

section \<open>Doubles\<close>

text \<open>\<open>sb_rand_uniform_double\<close>: the union puts the top 52 bits of the random word under the
  exponent of 1.0, so the double is \<open>1 + m / 2^52\<close>, and the subtraction of 1.0 is exact.
  The result is \<open>m\<close>, the number of units of 2^-52.\<close>

definition sb_rand_uniform_double :: "sb_rng_state_t \<Rightarrow> sb_rng_state_t \<times> nat" where
  "sb_rand_uniform_double s =
     (let (s, x) = sb_rand_uniform_uint64 s;
          i = push_bit 52 0x3FF OR drop_bit 12 x;
          mantissa = unat (i AND mask 52)
      in (s, (2 ^ 52 + mantissa) - 2 ^ 52))"

text \<open>Rounding to 53 significant bits, ties to even.\<close>

fun bitlen :: "nat \<Rightarrow> nat" where
  "bitlen n = (if n = 0 then 0 else Suc (bitlen (n div 2)))"

declare bitlen.simps [simp del]

definition round53 :: "nat \<Rightarrow> nat" where
  "round53 x =
     (let s = bitlen x - 53; q = x div 2 ^ s; r = x mod 2 ^ s
      in if 2 * r < 2 ^ s \<or> 2 * r = 2 ^ s \<and> even q then q * 2 ^ s else (q + 1) * 2 ^ s)"

section \<open>Uniform numbers and strings\<close>

text \<open>The conversion of the double to uint32_t drops the fraction; beyond the range of
  uint32_t it is undefined in C and taken modulo 2^32 here.\<close>

definition sb_rand_uniform :: "u32 \<Rightarrow> u32 \<Rightarrow> sb_rng_state_t \<Rightarrow> sb_rng_state_t \<times> u32" where
  "sb_rand_uniform a b s =
     (let (s, u) = sb_rand_uniform_double s;
          product = round53 (u * unat (b - a + 1));
          total = round53 (unat a * 2 ^ 52 + product)
      in (s, of_nat (total div 2 ^ 52)))"

definition code32 :: "char \<Rightarrow> u32" where
  "code32 c = word_of_int (char_code c)"

text \<open>The store of a uint32_t into a char.\<close>

definition char_of_u32 :: "u32 \<Rightarrow> char" where
  "char_of_u32 w = char_of (unat w)"

fun sb_rand_str :: "string \<Rightarrow> sb_rng_state_t \<Rightarrow> sb_rng_state_t \<times> string" where
  "sb_rand_str [] s = (s, [])"
| "sb_rand_str (c # fmt) s =
     (let (s, d) =
            (if c = CHR ''#'' then
               (let (s, w) = sb_rand_uniform (code32 CHR ''0'') (code32 CHR ''9'') s in (s, char_of_u32 w))
             else if c = CHR ''@'' then
               (let (s, w) = sb_rand_uniform (code32 CHR ''a'') (code32 CHR ''z'') s in (s, char_of_u32 w))
             else (s, c));
          (s, ds) = sb_rand_str fmt s
      in (s, d # ds))"

fun varstr_loop :: "nat \<Rightarrow> sb_rng_state_t \<Rightarrow> sb_rng_state_t \<times> string" where
  "varstr_loop 0 s = (s, [])"
| "varstr_loop (Suc n) s =
     (let (s, w) = sb_rand_uniform (code32 CHR ''0'') (code32 CHR ''z'') s;
          (s, cs) = varstr_loop n s
      in (s, char_of_u32 w # cs))"

text \<open>\<open>sb_rand_varstr\<close>: the number of characters written and the characters.\<close>

definition sb_rand_varstr ::
  "u32 \<Rightarrow> u32 \<Rightarrow> sb_rng_state_t \<Rightarrow> sb_rng_state_t \<times> u32 \<times> string" where
  "sb_rand_varstr min_len max_len s =
     (if max_len = 0 then (s, 0, [])
      else
        let min_len = (if min_len > max_len then 1 else min_len);
            (s, num_chars) = sb_rand_uniform min_len max_len s;
            (s, buf) = varstr_loop (unat num_chars) s
        in (s, num_chars, buf))"

section \<open>Unique sequence\<close>

definition unique_prime :: nat where "unique_prime = 4294967291"

definition rand_unique_permute :: "u32 \<Rightarrow> u32" where
  "rand_unique_permute x =
     (let prime = (4294967291 :: u32)
      in if x \<ge> prime then x
         else
           let residue = (ucast ((ucast x * ucast x :: u64) mod ucast prime) :: u32)
           in if x \<le> prime div 2 then residue else prime - residue)"

record unique_state =
  rand_unique_index :: u32
  rand_unique_offset :: u32

definition rand_unique_seed :: "u32 \<Rightarrow> u32 \<Rightarrow> unique_state" where
  "rand_unique_seed index offset =
     \<lparr>rand_unique_index = rand_unique_permute (rand_unique_permute index + 0x682f0161),
      rand_unique_offset = rand_unique_permute (rand_unique_permute offset + 0x46790905)\<rparr>"

definition sb_rand_unique :: "unique_state \<Rightarrow> unique_state \<times> u32" where
  "sb_rand_unique u =
     (let index = rand_unique_index u;
          u = u\<lparr>rand_unique_index := rand_unique_index u + 1\<rparr>
      in (u, rand_unique_permute ((rand_unique_permute index + rand_unique_offset u) XOR 0x5bf03635)))"

section \<open>Distributions computed with libm\<close>

definition helper1 :: "real \<Rightarrow> real" where
  "helper1 x = (if \<bar>x\<bar> > 1 / 10 ^ 8 then ln (1 + x) / x
     else 1 - x * (0.5 - x * (0.33333333333333333 - 0.25 * x)))"

definition helper2 :: "real \<Rightarrow> real" where
  "helper2 x = (if \<bar>x\<bar> > 1 / 10 ^ 8 then (exp x - 1) / x
     else 1 + x * 0.5 * (1 + x * 0.33333333333333333 * (1 + 0.25 * x)))"

definition hIntegral :: "real \<Rightarrow> real \<Rightarrow> real" where
  "hIntegral x e = (let logX = ln x in helper2 ((1 - e) * logX) * logX)"

text \<open>The function \<open>h\<close> of the source.\<close>

definition zipf_h :: "real \<Rightarrow> real \<Rightarrow> real" where
  "zipf_h x e = exp (- e * ln x)"

definition hIntegralInverse :: "real \<Rightarrow> real \<Rightarrow> real" where
  "hIntegralInverse x e =
     (let t = x * (1 - e); t = (if t < - 1 then - 1 else t) in exp (helper1 t * x))"

text \<open>The conversion of a double to uint32_t: the fraction is dropped, and beyond the range,
  where C leaves it undefined, the value is taken modulo 2^32.\<close>

definition double_to_u32 :: "real \<Rightarrow> u32" where
  "double_to_u32 x = word_of_int \<lfloor>x\<rfloor>"

definition uniform_real :: "sb_rng_state_t \<Rightarrow> sb_rng_state_t \<times> real" where
  "uniform_real s = (let (s, m) = sb_rand_uniform_double s in (s, real m / 2 ^ 52))"

datatype rand_dist_t =
  DIST_TYPE_UNIFORM | DIST_TYPE_GAUSSIAN | DIST_TYPE_PARETO | DIST_TYPE_ZIPFIAN

record rand_params =
  rand_type :: rand_dist_t
  rand_iter :: u32
  rand_pct :: u32
  rand_res :: u32
  pareto_h :: real
  pareto_power :: real
  zipf_exp :: real
  zipf_s :: real
  zipf_hIntegralX1 :: real

text \<open>\<open>sb_rand_gaussian\<close>.  With \<open>rand_iter = 0\<close> the source multiplies the empty sum by
  \<open>1.0 / 0\<close>, and the NaN has no conversion to uint32_t: \<open>None\<close>.\<close>

fun gaussian_sum :: "nat \<Rightarrow> real \<Rightarrow> real \<Rightarrow> sb_rng_state_t \<Rightarrow> sb_rng_state_t \<times> real" where
  "gaussian_sum 0 t acc s = (s, acc)"
| "gaussian_sum (Suc n) t acc s =
     (let (s, u) = uniform_real s in gaussian_sum n t (acc + u * t) s)"

definition sb_rand_gaussian ::
  "rand_params \<Rightarrow> u32 \<Rightarrow> u32 \<Rightarrow> sb_rng_state_t \<Rightarrow> (sb_rng_state_t \<times> u32) option" where
  "sb_rand_gaussian p a b s =
     (let t = real (unat (b - a + 1));
          (s, total) = gaussian_sum (unat (rand_iter p)) t 0 s
      in if rand_iter p = 0 then None
         else Some (s, a + double_to_u32 (total * (1 / real (unat (rand_iter p))))))"

definition sb_rand_pareto ::
  "rand_params \<Rightarrow> u32 \<Rightarrow> u32 \<Rightarrow> sb_rng_state_t \<Rightarrow> sb_rng_state_t \<times> u32" where
  "sb_rand_pareto p a b s =
     (let (s, u) = uniform_real s
      in (s, a + double_to_u32 (real (unat (b - a + 1)) * u powr pareto_power p)))"

text \<open>One round of the rejection loop of \<open>sb_rand_zipfian_int\<close>: the candidate and whether the
  loop returns it.\<close>

definition zipf_round :: "u32 \<Rightarrow> real \<Rightarrow> real \<Rightarrow> real \<Rightarrow> real \<Rightarrow> u32 \<times> bool" where
  "zipf_round n e s hIntegralX1 d =
     (let hN = hIntegral (real (unat n) + 0.5) e;
          u = hN + d * (hIntegralX1 - hN);
          x = hIntegralInverse u e;
          k = double_to_u32 (x + 0.5);
          k = (if k < 1 then 1 else if k > n then n else k)
      in (k, real (unat k) - x \<le> s \<or>
             u \<ge> hIntegral (real (unat k) + 0.5) e - zipf_h (real (unat k)) e))"

partial_function (option) sb_rand_zipfian_int ::
  "u32 \<Rightarrow> real \<Rightarrow> real \<Rightarrow> real \<Rightarrow> sb_rng_state_t \<Rightarrow> (sb_rng_state_t \<times> u32) option" where
  "sb_rand_zipfian_int n e s hIntegralX1 rng =
     (let (rng, d) = uniform_real rng;
          (k, accepted) = zipf_round n e s hIntegralX1 d
      in if accepted then Some (rng, k) else sb_rand_zipfian_int n e s hIntegralX1 rng)"

definition sb_rand_zipfian ::
  "rand_params \<Rightarrow> u32 \<Rightarrow> u32 \<Rightarrow> sb_rng_state_t \<Rightarrow> (sb_rng_state_t \<times> u32) option" where
  "sb_rand_zipfian p a b s =
     map_option (\<lambda>(s, k). (s, a + k - 1))
       (sb_rand_zipfian_int (b - a + 1) (zipf_exp p) (zipf_s p) (zipf_hIntegralX1 p) s)"

text \<open>\<open>sb_rand_default\<close>: the call through \<open>rand_func\<close>.\<close>

definition sb_rand_default ::
  "rand_params \<Rightarrow> u32 \<Rightarrow> u32 \<Rightarrow> sb_rng_state_t \<Rightarrow> (sb_rng_state_t \<times> u32) option" where
  "sb_rand_default p a b s = (case rand_type p of
     DIST_TYPE_UNIFORM \<Rightarrow> Some (sb_rand_uniform a b s)
   | DIST_TYPE_GAUSSIAN \<Rightarrow> sb_rand_gaussian p a b s
   | DIST_TYPE_PARETO \<Rightarrow> Some (sb_rand_pareto p a b s)
   | DIST_TYPE_ZIPFIAN \<Rightarrow> sb_rand_zipfian p a b s)"

section \<open>Options and initialisation\<close>

definition rand_args :: "sb_arg list" where
  "rand_args =
    [\<lparr>arg_name = ''rand-type'', arg_desc = ''random numbers distribution {uniform, gaussian, pareto, zipfian} to use by default'',
      arg_value = Some ''uniform'', arg_type = SB_ARG_TYPE_STRING, arg_validate = None\<rparr>,
     \<lparr>arg_name = ''rand-seed'', arg_desc = ''seed for random number generator. When 0, the current time is used as an RNG seed.'',
      arg_value = Some ''0'', arg_type = SB_ARG_TYPE_INT, arg_validate = None\<rparr>,
     \<lparr>arg_name = ''rand-pareto-h'', arg_desc = ''shape parameter for the Pareto distribution'',
      arg_value = Some ''0.2'', arg_type = SB_ARG_TYPE_DOUBLE, arg_validate = None\<rparr>,
     \<lparr>arg_name = ''rand-zipfian-exp'', arg_desc = ''shape parameter (exponent, theta) for the Zipfian distribution'',
      arg_value = Some ''0.8'', arg_type = SB_ARG_TYPE_DOUBLE, arg_validate = None\<rparr>]"

definition sb_rand_register :: "file_system \<Rightarrow> options \<Rightarrow> options \<times> nat" where
  "sb_rand_register fs opts = (fst (sb_register_arg_set fs opts rand_args), 0)"

datatype rand_init_result =
  Rand_exit
| Rand_failed
| Rand_ok int rand_params sb_rng_state_t unique_state

definition rand_dist_of :: "string \<Rightarrow> rand_dist_t option" where
  "rand_dist_of s =
     (if s = ''uniform'' then Some DIST_TYPE_UNIFORM
      else if s = ''gaussian'' then Some DIST_TYPE_GAUSSIAN
      else if s = ''pareto'' then Some DIST_TYPE_PARETO
      else if s = ''zipfian'' then Some DIST_TYPE_ZIPFIAN
      else None)"

text \<open>\<open>sb_rand_init\<close> with the six results of \<open>random()\<close> it consumes.  \<open>Rand_exit\<close> is the
  \<open>exit(EXIT_FAILURE)\<close> of a malformed integer option (and the crash of a missing string).\<close>

definition sb_rand_init ::
  "(string \<Rightarrow> real) \<Rightarrow> u64 list \<Rightarrow> options \<Rightarrow> rand_init_result" where
  "sb_rand_init strtod r opts =
     (case (sb_get_value_int opts ''rand-seed'', sb_get_value_string opts ''rand-type'') of
        (Some seed, Some s) \<Rightarrow>
          (case rand_dist_of s of
             None \<Rightarrow> Rand_failed
           | Some dt \<Rightarrow>
             (case (sb_get_value_int opts ''rand-spec-iter'', sb_get_value_int opts ''rand-spec-pct'',
                    sb_get_value_int opts ''rand-spec-res'') of
                (Some iter, Some pct, Some res) \<Rightarrow>
                  (let ph = sb_get_value_double strtod opts ''rand-pareto-h'';
                       ze = sb_get_value_double strtod opts ''rand-zipfian-exp''
                   in if ze < 0 then Rand_failed
                      else Rand_ok seed
                        \<lparr>rand_type = dt, rand_iter = word_of_int iter, rand_pct = word_of_int pct,
                         rand_res = word_of_int res, pareto_h = ph, pareto_power = ln ph / ln (1 - ph),
                         zipf_exp = ze,
                         zipf_s = 2 - hIntegralInverse (hIntegral 2.5 ze - zipf_h 2 ze) ze,
                         zipf_hIntegralX1 = hIntegral 1.5 ze - 1\<rparr>
                        (sb_rand_thread_init r)
                        (rand_unique_seed (ucast (r ! 4)) (ucast (r ! 5))))
              | _ \<Rightarrow> Rand_exit))
      | _ \<Rightarrow> Rand_exit)"

end
