(* ===== verification/PrimeField.thy ===== *)
theory PrimeField
  imports Prelude
begin

text \<open>
  Elementary number theory for the unique-sequence generator of \<open>sb_rand.c\<close>: Fermat's little
  theorem, Pocklington's primality criterion, the primality of the generator's modulus
  4294967291, and that -1 is no square modulo a prime that is 3 modulo 4.
\<close>

definition is_prime :: "nat \<Rightarrow> bool" where
  "is_prime p \<longleftrightarrow> 1 < p \<and> (\<forall>d. d dvd p \<longrightarrow> d = 1 \<or> d = p)"

lemma is_prime_coprime:
  assumes "is_prime p" "\<not> p dvd a"
  shows "coprime p a"
proof -
  have "gcd p a dvd p" by simp
  with assms(1) have "gcd p a = 1 \<or> gcd p a = p" by (simp add: is_prime_def)
  with assms(2) show ?thesis by (metis coprime_iff_gcd_eq_1 gcd_dvd2)
qed

lemma is_prime_dvd_mult:
  assumes "is_prime p" "p dvd a * b"
  shows "p dvd a \<or> p dvd b"
  using assms is_prime_coprime [of p a] coprime_dvd_mult_right_iff [of p a b] by blast

section \<open>Fermat's little theorem\<close>

lemma prime_dvd_choose:
  assumes "is_prime p" "0 < k" "k < p"
  shows "p dvd (p choose k)"
proof -
  obtain j q where jq: "k = Suc j" "p = Suc q" using assms by (metis Suc_pred less_trans)
  have "k * (p choose k) = p * (q choose j)"
    using Suc_times_binomial_eq [of q j] by (simp add: jq mult.commute)
  then have "p dvd k * (p choose k)" by simp
  moreover have "\<not> p dvd k" using assms by (auto dest: dvd_imp_le)
  ultimately show ?thesis using is_prime_dvd_mult [OF assms(1)] by blast
qed

lemma fermat_step:
  assumes "is_prime p"
  shows "(a + 1) ^ p mod p = (a ^ p + 1) mod p"
proof -
  have p: "1 < p" using assms by (simp add: is_prime_def)
  have "(a + 1) ^ p = (\<Sum>k\<le>p. (p choose k) * a ^ k)"
    using binomial [of a 1 p] by simp
  also have "\<dots> = 1 + (\<Sum>k \<in> {1..<p}. (p choose k) * a ^ k) + a ^ p"
  proof -
    have "{..p} = insert 0 (insert p {1..<p})" using p by auto
    then show ?thesis using p by simp
  qed
  finally have "(a + 1) ^ p = (a ^ p + 1) + (\<Sum>k \<in> {1..<p}. (p choose k) * a ^ k)" by simp
  moreover have "p dvd (\<Sum>k \<in> {1..<p}. (p choose k) * a ^ k)"
    by (intro dvd_sum) (auto intro!: dvd_mult2 prime_dvd_choose [OF assms])
  ultimately show ?thesis by (metis mod_add_right_eq add_0_right dvd_eq_mod_eq_0)
qed

lemma fermat_power:
  assumes "is_prime p"
  shows "a ^ p mod p = a mod p"
proof (induction a)
  case 0
  then show ?case using assms by (simp add: is_prime_def zero_power)
next
  case (Suc a)
  then show ?case using fermat_step [OF assms, of a] by (metis Suc_eq_plus1 mod_add_left_eq)
qed

lemma fermat:
  assumes "is_prime p" "\<not> p dvd a"
  shows "a ^ (p - 1) mod p = 1"
proof -
  have p: "1 < p" using assms by (simp add: is_prime_def)
  have "1 \<le> a" using assms(2) by (cases a) auto
  then have "a \<le> a ^ p" using p self_le_power [of a p] by linarith
  have "p dvd a ^ p - a"
    using fermat_power [OF assms(1), of a] \<open>a \<le> a ^ p\<close> by (simp add: mod_eq_dvd_iff_nat)
  moreover have "a ^ p - a = a * (a ^ (p - 1) - 1)"
  proof -
    obtain q where "p = Suc q" using p by (cases p) auto
    then show ?thesis by (simp add: diff_mult_distrib2)
  qed
  ultimately have "p dvd a ^ (p - 1) - 1"
    using is_prime_dvd_mult [OF assms(1)] assms(2) by metis
  moreover have "1 \<le> a ^ (p - 1)" using assms(2) by (cases a) auto
  ultimately have "a ^ (p - 1) mod p = 1 mod p"
    using mod_eq_dvd_iff_nat [of 1 "a ^ (p - 1)" p] by metis
  with p show ?thesis by simp
qed

section \<open>Pocklington's criterion\<close>

fun powmod :: "nat \<Rightarrow> nat \<Rightarrow> nat \<Rightarrow> nat" where
  "powmod m a e =
     (if e = 0 then 1 mod m
      else let h = powmod m (a * a mod m) (e div 2) in if even e then h else a * h mod m)"

declare powmod.simps [simp del]

lemma powmod_eq: "powmod m a e = a ^ e mod m"
proof (induction m a e rule: powmod.induct)
  case (1 m a e)
  show ?case
  proof (cases "e = 0")
    case False
    have "(a * a mod m) ^ (e div 2) mod m = a ^ (2 * (e div 2)) mod m"
      by (simp add: power_mod power_mult power2_eq_square)
    moreover have "even e \<Longrightarrow> 2 * (e div 2) = e" by simp
    moreover have "odd e \<Longrightarrow> a * a ^ (2 * (e div 2)) = a ^ e"
      by (metis odd_two_times_div_two_succ power_Suc Suc_eq_plus1)
    ultimately show ?thesis using 1 False
      by (subst powmod.simps) (auto simp: Let_def mod_mult_right_eq)
  qed (simp add: powmod.simps)
qed

lemma prime_divisor: "1 < n \<Longrightarrow> \<exists>p. is_prime p \<and> p dvd n"
proof (induction n rule: less_induct)
  case (less n)
  show ?case
  proof (cases "is_prime n")
    case False
    then obtain d where d: "d dvd n" "d \<noteq> 1" "d \<noteq> n" using less.prems by (auto simp: is_prime_def)
    then have "d \<noteq> 0" "d \<le> n" using less.prems by (auto simp: dvd_imp_le)
    with d have "1 < d" "d < n" by simp_all
    with less.IH d show ?thesis by (meson dvd_trans)
  qed auto
qed

lemma small_prime_divisor:
  assumes "1 < n" "\<not> is_prime n"
  shows "\<exists>r. is_prime r \<and> r dvd n \<and> r * r \<le> n"
proof -
  from assms obtain d where d: "d dvd n" "d \<noteq> 1" "d \<noteq> n" by (auto simp: is_prime_def)
  then obtain c where c: "n = d * c" by auto
  define m where "m = min d c"
  have "d * c \<noteq> 0" using assms(1) c by linarith
  then have "d \<noteq> 0" "c \<noteq> 0" by (metis mult_0, metis mult_0_right)
  moreover have "c \<noteq> 1" using d c by auto
  ultimately have "d \<noteq> 0" "c \<noteq> 0" "c \<noteq> 1" by simp_all
  with d have "1 < d" "1 < c" by simp_all
  then have "1 < m" "m dvd n" by (auto simp: m_def min_def c)
  have "m * m \<le> n" by (auto simp: m_def c min_def mult_le_mono)
  from prime_divisor [OF \<open>1 < m\<close>] obtain r where r: "is_prime r" "r dvd m" by auto
  then have "r \<le> m" using \<open>1 < m\<close> by (simp add: dvd_imp_le)
  with r \<open>m dvd n\<close> \<open>m * m \<le> n\<close> show ?thesis by (meson dvd_trans le_trans mult_le_mono)
qed

text \<open>Under the conditions of the criterion every prime divisor of \<open>n\<close> is 1 modulo \<open>q\<close>.\<close>

lemma pocklington_divisor:
  assumes "1 < n" "is_prime q" "q dvd n - 1"
    and "powmod n a (n - 1) = 1" "c = powmod n a ((n - 1) div q)" "coprime (c - 1) n" "1 < c"
    and r: "is_prime r" "r dvd n"
  shows "q dvd r - 1"
proof (rule ccontr)
  define b where "b = a ^ ((n - 1) div q)"
  have r1: "1 < r" using r by (simp add: is_prime_def)
  have "b ^ q = a ^ (n - 1)" using assms(3) by (simp add: b_def flip: power_mult)
  then have bq: "b ^ q mod r = 1"
    using assms(4) r r1 by (metis mod_mod_cancel mod_less powmod_eq)
  have "c mod r = b mod r" using r(2) by (simp add: assms(5) b_def powmod_eq mod_mod_cancel)
  have nb: "b mod r \<noteq> 1"
  proof
    assume "b mod r = 1"
    then have "c mod r = 1 mod r" using \<open>c mod r = b mod r\<close> r1 by simp
    then have "r dvd c - 1" using mod_eq_dvd_iff_nat [of 1 c r] assms(7) by (metis less_imp_le)
    with r(2) assms(6) have "r dvd 1" by (metis coprime_common_divisor)
    with r1 show False by simp
  qed
  have "\<not> r dvd b"
  proof
    assume "r dvd b"
    then have "r dvd b ^ q" using assms(2) by (simp add: is_prime_def dvd_power dvd_trans)
    with bq show False by (simp add: dvd_eq_mod_eq_0)
  qed
  then have fr: "b ^ (r - 1) mod r = 1" by (rule fermat [OF r(1)])
  have "q \<noteq> 0" using assms(2) by (simp add: is_prime_def)
  assume "\<not> q dvd r - 1"
  then have "gcd q (r - 1) = 1" using is_prime_coprime [OF assms(2)] by (simp add: coprime_iff_gcd_eq_1)
  then obtain x y where xy: "q * x = (r - 1) * y + 1"
    using bezout_nat [OF \<open>q \<noteq> 0\<close>, of "r - 1"] by auto
  have "b ^ (q * x) mod r = 1"
    using bq r1 by (metis power_mod power_mult power_one mod_less)
  moreover have "b ^ ((r - 1) * y + 1) mod r = b mod r"
    using fr by (metis mod_mult_left_eq mult_1 power_add power_mod power_mult power_one power_one_right)
  ultimately show False using nb xy by simp
qed

section \<open>The modulus of the unique sequence\<close>

lemma powmod_numeral:
  "powmod m a (numeral e) =
     (let h = powmod m (a * a mod m) (numeral e div 2) in if even (numeral e :: nat) then h else a * h mod m)"
  by (subst powmod.simps) simp

lemma powmod_0: "powmod m a 0 = 1 mod m"
  by (subst powmod.simps) simp

lemma powmod_1: "powmod m a (Suc 0) = a mod m"
  by (simp add: powmod_eq)

lemmas powmod_simps = powmod_numeral powmod_0 powmod_1

lemma is_prime_181: "is_prime 181"
proof (rule ccontr)
  assume "\<not> is_prime 181"
  with small_prime_divisor [of 181] obtain r where r: "1 < r" "r dvd (181 :: nat)" "r * r \<le> 181"
    by (auto simp: is_prime_def)
  have "r < 14"
  proof (rule ccontr)
    assume "\<not> r < 14"
    then have "14 * 14 \<le> r * r" by (intro mult_le_mono) simp_all
    with r(3) show False by simp
  qed
  then have "r \<in> {2..<14}" using r(1) by simp
  then have "r \<in> set [2..<14]" by (simp only: set_upt)
  then show False using r(2) by (simp add: upt_rec) (elim disjE; simp)
qed

text \<open>A prime divisor of 22605091 is 1 modulo 181, and none of the few such numbers below the
  square root divides it.\<close>

lemma is_prime_22605091: "is_prime 22605091"
proof (rule ccontr)
  assume "\<not> is_prime 22605091"
  with small_prime_divisor [of 22605091] obtain r
    where r: "is_prime r" "r dvd 22605091" "r * r \<le> 22605091" by auto
  have c: "13954217 = powmod 22605091 2 ((22605091 - 1) div 181)" by (simp add: powmod_simps)
  have "181 dvd r - 1"
  proof (rule pocklington_divisor [OF _ is_prime_181 _ _ c _ _ r(1,2)])
    show "powmod 22605091 2 (22605091 - 1) = 1" by (simp add: powmod_simps)
    show "coprime (13954217 - 1) (22605091 :: nat)" by (simp add: coprime_iff_gcd_eq_1 gcd_non_0_nat)
  qed simp_all
  then obtain i where "r - 1 = 181 * i" by auto
  moreover have "1 < r" using r(1) by (simp add: is_prime_def)
  ultimately have i: "r = 181 * i + 1" "i \<noteq> 0" by auto
  have "i < 27"
  proof (rule ccontr)
    assume "\<not> i < 27"
    then have "4888 * 4888 \<le> r * r" by (intro mult_le_mono) (simp_all add: i)
    with r(3) show False by simp
  qed
  with i(2) have "i \<in> set [1..<27]" by simp
  then show False using r(2) unfolding i(1) by (simp add: upt_rec) (elim disjE; simp)
qed

lemma unique_modulus_prime: "is_prime 4294967291"
proof (rule ccontr)
  assume "\<not> is_prime 4294967291"
  with small_prime_divisor [of 4294967291] obtain r
    where r: "is_prime r" "r dvd 4294967291" "r * r \<le> 4294967291" by auto
  have c: "1073745729 = powmod 4294967291 2 ((4294967291 - 1) div 22605091)" by (simp add: powmod_simps)
  have "22605091 dvd r - 1"
  proof (rule pocklington_divisor [OF _ is_prime_22605091 _ _ c _ _ r(1,2)])
    show "powmod 4294967291 2 (4294967291 - 1) = 1" by (simp add: powmod_simps)
    show "coprime (1073745729 - 1) (4294967291 :: nat)" by (simp add: coprime_iff_gcd_eq_1 gcd_non_0_nat)
  qed simp_all
  moreover have "1 < r" using r(1) by (simp add: is_prime_def)
  ultimately have "22605091 \<le> r - 1" by (simp only: dvd_imp_le zero_less_diff)
  then have "22605091 \<le> r" using diff_le_self [of r 1] by (rule le_trans)
  then have "22605091 * 22605091 \<le> r * r" by (simp only: mult_le_mono)
  with r(3) show False by simp
qed

section \<open>Squares modulo a prime that is 3 modulo 4\<close>

lemma square_eq:
  assumes "is_prime p" "x * x mod p = y * y mod p" "2 * x < p" "2 * y < p" "x \<le> y"
  shows "x = y"
proof -
  have "p dvd y * y - x * x"
    using assms(2,5) mod_eq_dvd_iff_nat [of "x * x" "y * y" p] by (metis mult_le_mono)
  moreover have "y * y - x * x = (y - x) * (y + x)"
    using assms(5) by (simp add: algebra_simps diff_mult_distrib)
  ultimately have "p dvd y - x \<or> p dvd y + x" using is_prime_dvd_mult [OF assms(1)] by metis
  with assms show ?thesis by (auto dest: dvd_imp_le)
qed

lemma neg_square:
  assumes "is_prime p" "p mod 4 = 3" "p dvd x * x + y * y"
  shows "p dvd x"
proof (rule ccontr)
  assume x: "\<not> p dvd x"
  have y: "\<not> p dvd y"
  proof
    assume "p dvd y"
    then have "p dvd x * x" using assms(3) by (simp add: dvd_add_left_iff)
    with x is_prime_dvd_mult [OF assms(1)] show False by blast
  qed
  define m where "m = (p - 1) div 2"
  have p: "1 < p" using assms(1) by (simp add: is_prime_def)
  have m: "p - 1 = 2 * m" "odd m" using assms(2) unfolding m_def by presburger+
  have "(x * x) ^ m mod p = 1" "(y * y) ^ m mod p = 1"
    using fermat [OF assms(1) x] fermat [OF assms(1) y]
    unfolding m(1) power_mult power2_eq_square by auto
  moreover have "p dvd (x * x) ^ m + (y * y) ^ m"
  proof -
    have "int (x * x) + int (y * y) dvd int (x * x) ^ m + int (y * y) ^ m"
    proof -
      have "int (x * x) - (- int (y * y)) dvd int (x * x) ^ m - (- int (y * y)) ^ m"
        by (simp add: power_diff_sumr2)
      then show ?thesis using m(2) by simp
    qed
    then have "x * x + y * y dvd (x * x) ^ m + (y * y) ^ m"
      by (metis of_nat_add of_nat_dvd_iff of_nat_power)
    with assms(3) show ?thesis by (rule dvd_trans)
  qed
  ultimately have "(1 + 1) mod p = 0" by (metis dvd_eq_mod_eq_0 mod_add_eq)
  then have "p dvd 1 + 1" by (simp only: dvd_eq_mod_eq_0)
  then have "p \<le> 1 + 1" by (rule dvd_imp_le) simp
  with assms(2) p show False by auto
qed

end
