(* ===== verification/RandProps.thy ===== *)
theory RandProps
  imports Rand PrimeField
begin

text \<open>
  What the generators of \<open>sb_rand.c\<close> promise: the state transition of xoroshiro128+ is a
  permutation, uniform numbers stay in range (and when rounding lets one escape), the
  unique sequence repeats nothing before it has visited all 2^32 values, and the Zipfian
  sampler returns numbers of the requested range only.
\<close>

section \<open>xoroshiro128+\<close>

lemma bit_rotl:
  assumes "0 < k" "k < 64"
  shows "bit (xoroshiro_rotl x k) n \<longleftrightarrow> n < 64 \<and> bit x (if k \<le> n then n - k else n + 64 - k)"
proof (cases "k \<le> n")
  case True
  then have "\<not> bit x (64 - k + n)" using assms bit_imp_le_length [of x "64 - k + n"] by auto
  with True show ?thesis by (simp add: xoroshiro_rotl_def bit_simps)
next
  case False
  then have "64 - k + n = n + 64 - k" "n < 64" using assms by simp_all
  with False show ?thesis by (simp add: xoroshiro_rotl_def bit_simps add.commute)
qed

lemma rotl_inverse:
  assumes "0 < k" "k < 64"
  shows "xoroshiro_rotl (xoroshiro_rotl x k) (64 - k) = x"
proof (rule bit_word_eqI)
  fix n :: nat
  assume "n < LENGTH(64)"
  then have n: "n < 64" by simp
  show "bit (xoroshiro_rotl (xoroshiro_rotl x k) (64 - k)) n \<longleftrightarrow> bit x n"
  proof (cases "64 - k \<le> n")
    case True
    with n assms show ?thesis
      by (simp add: bit_rotl) (intro impI conjI arg_cong2 [where f = bit]; simp)
  next
    case False
    then have "n + k < 64" using assms by linarith
    with False n assms show ?thesis by (simp add: bit_rotl)
  qed
qed

text \<open>The inverse transition.\<close>

definition xoroshiro_prev :: "sb_rng_state_t \<Rightarrow> sb_rng_state_t" where
  "xoroshiro_prev s =
     (let s1 = xoroshiro_rotl (snd s) 28;
          s0 = xoroshiro_rotl (fst s XOR s1 XOR push_bit 14 s1) 9
      in (s0, s1 XOR s0))"

lemma xor_cancel:
  fixes a b c :: u64
  shows "((a XOR b) XOR c) XOR (b XOR c) = a" "(b XOR a) XOR a = b"
  by (rule bit_word_eqI, auto simp: bit_xor_iff)+

lemma xoroshiro_prev_next: "xoroshiro_prev (fst (xoroshiro_next s)) = s"
proof -
  have "xoroshiro_rotl (xoroshiro_rotl x 36) 28 = x" for x using rotl_inverse [of 36 x] by simp
  moreover have "xoroshiro_rotl (xoroshiro_rotl x 55) 9 = x" for x using rotl_inverse [of 55 x] by simp
  ultimately show ?thesis
    by (cases s) (simp only: xoroshiro_prev_def xoroshiro_next_def Let_def fst_conv snd_conv
        xor_cancel)
qed

lemma xoroshiro_next_inj: "inj (\<lambda>s. fst (xoroshiro_next s))"
  by (rule inj_on_inverseI [where g = xoroshiro_prev]) (rule xoroshiro_prev_next)

lemma xoroshiro_next_zero: "fst (xoroshiro_next (0, 0)) = (0, 0)"
  by (simp add: xoroshiro_next_def xoroshiro_rotl_def)

section \<open>Rounding\<close>

lemma bitlen_0 [simp]: "bitlen 0 = 0"
  by (simp add: bitlen.simps)

lemma bitlen_rec: "0 < n \<Longrightarrow> bitlen n = Suc (bitlen (n div 2))"
  by (subst bitlen.simps) simp

lemma bitlen_upper: "n < 2 ^ bitlen n"
proof (induction n rule: bitlen.induct)
  case (1 n)
  show ?case
  proof (cases "n = 0")
    case False
    then have "n div 2 < 2 ^ bitlen (n div 2)" using 1 by blast
    then have "n < 2 * 2 ^ bitlen (n div 2)" by linarith
    then show ?thesis using False by (simp add: bitlen_rec)
  qed simp
qed

lemma bitlen_lower: "0 < n \<Longrightarrow> 2 ^ (bitlen n - 1) \<le> n"
proof (induction n rule: less_induct)
  case (less n)
  show ?case
  proof (cases "n div 2 = 0")
    case True
    then have "n = 1" using less.prems by linarith
    then show ?thesis by (simp add: bitlen_rec)
  next
    case False
    then have "2 ^ (bitlen (n div 2) - 1) \<le> n div 2" using less by simp
    then have "2 * 2 ^ (bitlen (n div 2) - 1) \<le> n" by linarith
    moreover have "bitlen n - 1 = Suc (bitlen (n div 2) - 1)"
      using False less.prems by (simp add: bitlen_rec)
    ultimately show ?thesis by simp
  qed
qed

lemma bitlen_le:
  assumes "n < 2 ^ k"
  shows "bitlen n \<le> k"
proof (cases "n = 0")
  case False
  with assms bitlen_lower [of n] have "(2 :: nat) ^ (bitlen n - 1) < 2 ^ k" by linarith
  then have "bitlen n - 1 < k" by simp
  then show ?thesis by simp
qed simp

lemma round53_small: "x < 2 ^ 53 \<Longrightarrow> round53 x = x"
  using bitlen_le [of x 53] by (simp add: round53_def Let_def)

lemma split_power: "s \<le> k \<Longrightarrow> t * 2 ^ k = (t * 2 ^ (k - s)) * (2 :: nat) ^ s"
  by (metis le_add_diff_inverse2 mult.assoc power_add)

text \<open>A number with at most 53 significant bits bounds the rounded values as it bounds the
  exact ones.\<close>

lemma round53_le:
  assumes "x \<le> t * 2 ^ k" "t < 2 ^ 53"
  shows "round53 x \<le> t * 2 ^ k"
proof (cases "bitlen x \<le> 53")
  case True
  then show ?thesis using assms by (simp add: round53_def Let_def)
next
  case False
  define s where "s = bitlen x - 53"
  define q where "q = x div 2 ^ s"
  define r where "r = x mod 2 ^ s"
  have x: "x = q * 2 ^ s + r" by (simp only: q_def r_def div_mult_mod_eq)
  have "x > 0" using False by (cases x) auto
  then have "2 ^ (s + 52) \<le> x" using bitlen_lower [of x] False by (simp add: s_def)
  also have "\<dots> \<le> t * 2 ^ k" by (rule assms)
  also have "\<dots> < 2 ^ 53 * 2 ^ k" using assms by simp
  finally have "(2 :: nat) ^ (s + 52) < 2 ^ (53 + k)" by (simp add: power_add)
  then have "s \<le> k" by simp
  then have t: "t * 2 ^ k = (t * 2 ^ (k - s)) * 2 ^ s" by (rule split_power)
  define c where "c = t * 2 ^ (k - s)"
  have le: "q * 2 ^ s + r \<le> c * 2 ^ s" using assms(1) by (simp only: x t c_def)
  then have "q * 2 ^ s \<le> c * 2 ^ s" by linarith
  moreover have "(q + 1) * 2 ^ s \<le> c * 2 ^ s" if "r > 0"
  proof -
    from le that have "q * 2 ^ s < c * 2 ^ s" by linarith
    then have "q < c" by simp
    then show ?thesis by (intro mult_le_mono1) simp
  qed
  moreover have "r > 0" if "\<not> 2 * r < 2 ^ s" using that by (cases r) auto
  ultimately show ?thesis
    unfolding round53_def Let_def s_def [symmetric] q_def [symmetric] r_def [symmetric] t c_def [symmetric]
    by auto
qed

lemma round53_ge:
  assumes "t * 2 ^ k \<le> x" "t < 2 ^ 53"
  shows "t * 2 ^ k \<le> round53 x"
proof (cases "bitlen x \<le> 53")
  case True
  then show ?thesis using assms by (simp add: round53_def Let_def)
next
  case False
  define s where "s = bitlen x - 53"
  define q where "q = x div 2 ^ s"
  have le: "q * 2 ^ s \<le> round53 x" by (simp add: round53_def Let_def s_def q_def)
  have "x > 0" using False by (cases x) auto
  then have b: "2 ^ (s + 52) \<le> x" using bitlen_lower [of x] False by (simp add: s_def)
  have "t * 2 ^ k \<le> q * 2 ^ s"
  proof (cases "s \<le> k")
    case True
    then have t: "t * 2 ^ k = (t * 2 ^ (k - s)) * 2 ^ s" by (rule split_power)
    have "t * 2 ^ (k - s) = (t * 2 ^ k) div 2 ^ s" unfolding t by simp
    also have "\<dots> \<le> q" unfolding q_def by (rule div_le_mono [OF assms(1)])
    finally have "t * 2 ^ (k - s) \<le> q" .
    then show ?thesis unfolding t by (rule mult_le_mono1)
  next
    case F: False
    have "t * 2 ^ k < 2 ^ 53 * 2 ^ k" using assms(2) by simp
    also have "\<dots> = 2 ^ (53 + k)" by (simp add: power_add)
    also have "\<dots> \<le> (2 :: nat) ^ (s + 52)" using F by (intro power_increasing) auto
    also have "\<dots> = (2 ^ (s + 52) div 2 ^ s) * 2 ^ s" by (simp add: power_add)
    also have "\<dots> \<le> q * 2 ^ s" unfolding q_def by (intro mult_le_mono1 div_le_mono b)
    finally show ?thesis by simp
  qed
  with le show ?thesis by (rule le_trans [rotated])
qed

section \<open>Uniform numbers\<close>

lemma uniform_double_mantissa:
  "snd (sb_rand_uniform_double s) = unat (drop_bit 12 (snd (xoroshiro_next s)))"
  "fst (sb_rand_uniform_double s) = fst (xoroshiro_next s)"
proof -
  have m: "(push_bit 52 y OR drop_bit 12 x) AND mask 52 = drop_bit 12 x" for x y :: u64
    by (rule bit_word_eqI) (auto simp: bit_simps dest: bit_imp_le_length)
  show "snd (sb_rand_uniform_double s) = unat (drop_bit 12 (snd (xoroshiro_next s)))"
    by (simp only: sb_rand_uniform_double_def sb_rand_uniform_uint64_def Let_def m
        case_prod_beta snd_conv add_diff_cancel_left')
  show "fst (sb_rand_uniform_double s) = fst (xoroshiro_next s)"
    by (simp only: sb_rand_uniform_double_def sb_rand_uniform_uint64_def Let_def
        case_prod_beta fst_conv)
qed

lemma uniform_double_bound: "snd (sb_rand_uniform_double s) < 2 ^ 52"
proof -
  have x: "unat x < 2 ^ LENGTH(64)" for x :: u64 by (rule unsigned_less)
  have "unat (drop_bit 12 x) < 2 ^ 52" for x :: u64
    using x [of x] by (simp add: drop_bit_eq_div unat_div less_mult_imp_div_less)
  then show ?thesis by (simp only: uniform_double_mantissa)
qed

text \<open>The exact product of a double below 1 and \<open>n\<close> stays below the largest double under
  \<open>n\<close>, and so does the rounded one.\<close>

lemma largest_below:
  assumes "0 < n" "bitlen n = l" "l \<le> 52"
  shows "n * 2 ^ 52 - 2 ^ (l - 1) = (n * 2 ^ (53 - l) - 1) * 2 ^ (l - 1)"
    and "n * 2 ^ (53 - l) - 1 < 2 ^ 53"
proof -
  have l: "0 < l" using assms by (auto simp: bitlen_rec)
  have "(2 :: nat) ^ 52 = 2 ^ (53 - l) * 2 ^ (l - 1)" using l assms(3) by (simp flip: power_add)
  then show "n * 2 ^ 52 - 2 ^ (l - 1) = (n * 2 ^ (53 - l) - 1) * 2 ^ (l - 1)"
    by (simp only: diff_mult_distrib mult.assoc mult_1)
  have "n * 2 ^ (53 - l) < 2 ^ l * 2 ^ (53 - l)" using bitlen_upper [of n] assms(2) by simp
  then show "n * 2 ^ (53 - l) - 1 < 2 ^ 53" using assms(3) by (simp flip: power_add)
qed

lemma product_below:
  assumes "0 < n" "n < 2 ^ 32" "m < 2 ^ 52"
  shows "round53 (m * n) \<le> n * 2 ^ 52 - 2 ^ (bitlen n - 1)"
proof -
  have l: "bitlen n \<le> 52" using bitlen_le [OF assms(2)] by simp
  note lb = largest_below [OF assms(1) refl l]
  have "m * n \<le> (2 ^ 52 - 1) * n" using assms(3) by (intro mult_le_mono1) simp
  also have "\<dots> = n * 2 ^ 52 - n" by (simp add: diff_mult_distrib mult.commute)
  also have "\<dots> \<le> n * 2 ^ 52 - 2 ^ (bitlen n - 1)"
    using bitlen_lower [OF assms(1)] by simp
  finally show ?thesis unfolding lb(1) by (rule round53_le) (rule lb(2))
qed

lemma sum_in_range:
  assumes "0 < n" "a + n < 2 ^ 32" "m < 2 ^ 52"
  shows "a \<le> round53 (a * 2 ^ 52 + round53 (m * n)) div 2 ^ 52"
    and "round53 (a * 2 ^ 52 + round53 (m * n)) div 2 ^ 52 \<le> a + n"
    and "bitlen (a + n) \<le> bitlen n \<Longrightarrow>
      round53 (a * 2 ^ 52 + round53 (m * n)) div 2 ^ 52 < a + n"
proof -
  let ?sum = "a * 2 ^ 52 + round53 (m * n)"
  have p: "round53 (m * n) \<le> n * 2 ^ 52 - 2 ^ (bitlen n - 1)"
    using assms by (intro product_below) simp_all
  have "a * 2 ^ 52 \<le> round53 ?sum" using assms by (intro round53_ge) simp_all
  then show "a \<le> round53 ?sum div 2 ^ 52"
    using div_le_mono [of "a * 2 ^ 52" "round53 ?sum" "2 ^ 52"] by simp
  have "?sum \<le> (a + n) * 2 ^ 52" using p by (simp add: algebra_simps)
  then have "round53 ?sum \<le> (a + n) * 2 ^ 52" using assms by (intro round53_le) simp_all
  then show "round53 ?sum div 2 ^ 52 \<le> a + n"
    using div_le_mono [of "round53 ?sum" "(a + n) * 2 ^ 52" "2 ^ 52"] by simp
  assume big: "bitlen (a + n) \<le> bitlen n"
  have le: "bitlen (a + n) \<le> 52" using bitlen_le [OF assms(2)] by simp
  have "0 < a + n" using assms(1) by simp
  note lb = largest_below [OF this refl le]
  have n1: "2 ^ (bitlen n - 1) \<le> n" using assms by (intro bitlen_lower)
  have "(2 :: nat) ^ (bitlen (a + n) - 1) \<le> 2 ^ (bitlen n - 1)"
    using big by (intro power_increasing) auto
  moreover have "n \<le> n * 2 ^ 52" by simp
  ultimately have "?sum \<le> (a + n) * 2 ^ 52 - 2 ^ (bitlen (a + n) - 1)"
    using p n1 unfolding distrib_right by linarith
  then have "round53 ?sum \<le> (a + n) * 2 ^ 52 - 2 ^ (bitlen (a + n) - 1)"
    unfolding lb(1) by (rule round53_le) (rule lb(2))
  moreover have "0 < (2 :: nat) ^ (bitlen (a + n) - 1)" "0 < (a + n) * (2 :: nat) ^ 52"
    using assms(1) by simp_all
  ultimately have "round53 ?sum < (a + n) * 2 ^ 52" by linarith
  then show "round53 ?sum div 2 ^ 52 < a + n" by (simp add: less_mult_imp_div_less)
qed

lemma uniform_count:
  fixes a b :: u32
  assumes "a \<le> b" "b < 0xffffffff"
  shows "unat a + unat (b - a + 1) = unat b + 1"
proof -
  have "unat (b - a) = unat b - unat a" "unat a \<le> unat b"
    using assms(1) by (simp_all add: unat_sub_if' word_le_nat_alt)
  moreover have "unat b < 4294967295" using assms(2) by (simp add: word_less_nat_alt)
  ultimately show ?thesis by (simp add: unat_word_ariths)
qed

lemma uniform_value:
  assumes "a \<le> b" "b < 0xffffffff"
  shows "unat (snd (sb_rand_uniform a b s)) =
    round53 (unat a * 2 ^ 52 + round53 (snd (sb_rand_uniform_double s) * unat (b - a + 1))) div 2 ^ 52"
    (is "_ = ?v")
proof -
  have n: "0 < unat (b - a + 1)" "unat a + unat (b - a + 1) < 2 ^ 32"
    using uniform_count [OF assms] assms by (simp_all add: word_less_nat_alt word_le_nat_alt)
  have "?v \<le> unat b + 1"
    using sum_in_range(2) [OF n uniform_double_bound] by (simp add: uniform_count [OF assms])
  also have "\<dots> < 2 ^ 32" using assms(2) by (simp add: word_less_nat_alt)
  finally show ?thesis
    by (simp add: sb_rand_uniform_def case_prod_beta Let_def unat_of_nat_small)
qed

lemma sb_rand_uniform_ge:
  assumes "a \<le> b" "b < 0xffffffff"
  shows "unat a \<le> unat (snd (sb_rand_uniform a b s)) \<and> unat (snd (sb_rand_uniform a b s)) \<le> unat b + 1"
proof -
  have n: "0 < unat (b - a + 1)" "unat a + unat (b - a + 1) < 2 ^ 32"
    using uniform_count [OF assms] assms by (simp_all add: word_less_nat_alt word_le_nat_alt)
  show ?thesis
    using sum_in_range(1,2) [OF n uniform_double_bound] uniform_count [OF assms]
    by (simp add: uniform_value [OF assms])
qed

lemma sb_rand_uniform_in:
  assumes "a \<le> b" "b < 0xffffffff" "bitlen (unat b + 1) \<le> bitlen (unat (b - a + 1))"
  shows "a \<le> snd (sb_rand_uniform a b s) \<and> snd (sb_rand_uniform a b s) \<le> b"
proof -
  have n: "0 < unat (b - a + 1)" "unat a + unat (b - a + 1) < 2 ^ 32"
    using uniform_count [OF assms(1,2)] assms by (simp_all add: word_less_nat_alt word_le_nat_alt)
  show ?thesis
    using sum_in_range(1,3) [OF n uniform_double_bound [of s]] uniform_count [OF assms(1,2)] assms(3)
    by (simp add: word_le_nat_alt uniform_value [OF assms(1,2)] less_Suc_eq_le)
qed

section \<open>The unique sequence\<close>

lemma permute_unat:
  "unat (rand_unique_permute x) =
     (let n = unat x; p = unique_prime; r = n * n mod p
      in if n \<ge> p then n else if n \<le> p div 2 then r else p - r)"
proof -
  have sq: "unat (ucast x * ucast x :: u64) = unat x * unat x"
  proof -
    have x: "unat x < 2 ^ LENGTH(32)" by (rule unsigned_less)
    then have "unat x * unat x < 2 ^ 32 * 2 ^ 32" by (intro mult_strict_mono) auto
    moreover have "unat (ucast x :: u64) = unat x"
      using x by (simp add: unsigned_ucast_eq take_bit_nat_eq_self)
    ultimately show ?thesis by (simp add: unat_word_ariths)
  qed
  have res: "unat (ucast ((ucast x * ucast x :: u64) mod 4294967291) :: u32) =
      unat x * unat x mod unique_prime"
  proof -
    have "unat x * unat x mod 4294967291 < 4294967291" by simp
    then have "unat x * unat x mod 4294967291 < 2 ^ 32" by simp
    then show ?thesis
      by (simp add: unsigned_ucast_eq take_bit_nat_eq_self unat_mod sq unique_prime_def)
  qed
  have "unat x * unat x mod unique_prime < unique_prime" by (simp add: unique_prime_def)
  then show ?thesis
    unfolding rand_unique_permute_def Let_def
    by (simp add: res word_le_nat_alt unique_prime_def unat_sub_if')
qed

definition permute_nat :: "nat \<Rightarrow> nat" where
  "permute_nat n = (let r = n * n mod unique_prime
     in if n \<ge> unique_prime then n else if n \<le> unique_prime div 2 then r else unique_prime - r)"

lemma unique_prime_facts: "is_prime unique_prime" "unique_prime mod 4 = 3" "1 < unique_prime"
  "odd unique_prime"
  by (simp_all add: unique_prime_def unique_modulus_prime)

text \<open>The two halves of the range below the prime, reflected onto each other.\<close>

lemma reflect_square:
  "n < unique_prime \<Longrightarrow> (unique_prime - n) * (unique_prime - n) mod unique_prime = n * n mod unique_prime"
proof -
  assume n: "n < unique_prime"
  have "k * k + 2 * n * (n + k) = n * n + (n + k) * (n + k)" for k :: nat
    by (simp add: algebra_simps)
  from this [of "unique_prime - n"] n
  have "(unique_prime - n) * (unique_prime - n) + 2 * n * unique_prime =
      n * n + unique_prime * unique_prime" by simp
  then show ?thesis by (metis mod_mult_self1 mod_mult_self2 mult.commute)
qed

lemma square_mod_pos:
  assumes "0 < n" "n < unique_prime"
  shows "0 < n * n mod unique_prime"
proof (rule ccontr)
  assume "\<not> 0 < n * n mod unique_prime"
  then have "unique_prime dvd n * n" by (simp add: dvd_eq_mod_eq_0)
  then have "unique_prime dvd n" using is_prime_dvd_mult unique_prime_facts(1) by blast
  with assms show False by (auto dest: dvd_imp_le)
qed

lemma halves_disjoint:
  assumes "n < unique_prime" "m < unique_prime" "0 < m"
    and "n * n mod unique_prime = unique_prime - m * m mod unique_prime"
  shows False
proof -
  have "m * m mod unique_prime < unique_prime" by (simp add: unique_prime_def)
  with assms(4) have s: "n * n mod unique_prime + m * m mod unique_prime = unique_prime" by simp
  have "(n * n + m * m) mod unique_prime = 0" unfolding mod_add_eq [symmetric, of "n * n"] s by simp
  then have "unique_prime dvd m * m + n * n" by (simp only: dvd_eq_mod_eq_0 add.commute)
  then have "unique_prime dvd m" by (rule neg_square [OF unique_prime_facts(1,2)])
  then have "unique_prime \<le> m" using assms(3) by (rule dvd_imp_le)
  with assms(2) show False by linarith
qed

lemma half_square_inj:
  assumes "2 * n < unique_prime" "2 * m < unique_prime" "n * n mod unique_prime = m * m mod unique_prime"
  shows "n = m"
  using square_eq [OF unique_prime_facts(1), of n m] square_eq [OF unique_prime_facts(1), of m n]
    assms by (cases "n \<le> m") auto

lemma upper_half: "\<not> n \<le> unique_prime div 2 \<Longrightarrow> 2 * (unique_prime - n) < unique_prime \<and> 0 < n"
  by (auto simp: unique_prime_def)

lemma lower_half: "n \<le> unique_prime div 2 \<Longrightarrow> 2 * n < unique_prime"
  by (auto simp: unique_prime_def)

lemma permute_nat_below: "n < unique_prime \<Longrightarrow> permute_nat n < unique_prime"
  using square_mod_pos [of n] upper_half [of n]
  by (auto simp: permute_nat_def Let_def unique_prime_facts(3) [THEN less_trans [OF zero_less_one]])

lemma permute_nat_inj: "permute_nat n = permute_nat m \<Longrightarrow> n = m"
proof -
  assume eq: "permute_nat n = permute_nat m"
  let ?p = unique_prime
  have above: "k \<ge> ?p \<Longrightarrow> permute_nat k = k" for k by (simp add: permute_nat_def)
  consider "n \<ge> ?p \<or> m \<ge> ?p" | "n < ?p" "m < ?p" by linarith
  then show ?thesis
  proof cases
    case 1
    then show ?thesis using eq above permute_nat_below by (metis not_le)
  next
    case 2
    have lt: "k * k mod ?p < ?p" for k by (simp add: unique_prime_def)
    show ?thesis
    proof (cases "n \<le> ?p div 2 \<longleftrightarrow> m \<le> ?p div 2")
      case same: True
      show ?thesis
      proof (cases "n \<le> ?p div 2")
        case True
        then show ?thesis using same eq 2 half_square_inj [of n m]
          by (simp add: permute_nat_def Let_def lower_half)
      next
        case False
        then have "?p - n * n mod ?p = ?p - m * m mod ?p"
          using same eq 2 by (simp add: permute_nat_def Let_def)
        with lt [of n] lt [of m] have "n * n mod ?p = m * m mod ?p" by linarith
        then have "(?p - n) * (?p - n) mod ?p = (?p - m) * (?p - m) mod ?p"
          using 2 by (simp only: reflect_square)
        moreover have "2 * (?p - n) < ?p" "2 * (?p - m) < ?p"
          using False same upper_half by blast+
        ultimately have "?p - n = ?p - m" by (rule half_square_inj [rotated 2])
        with 2 show ?thesis by linarith
      qed
    next
      case False
      then have False
        using eq 2 halves_disjoint [of n m] halves_disjoint [of m n] upper_half [of n] upper_half [of m]
        by (cases "n \<le> ?p div 2") (auto simp: permute_nat_def Let_def)
      then show ?thesis ..
    qed
  qed
qed

lemma rand_unique_permute_inj: "inj rand_unique_permute"
proof (rule injI)
  fix x y
  assume "rand_unique_permute x = rand_unique_permute y"
  then have "permute_nat (unat x) = permute_nat (unat y)"
    using permute_unat [of x] permute_unat [of y] by (simp add: permute_nat_def Let_def)
  then have "unat x = unat y" by (rule permute_nat_inj)
  then show "x = y" by (rule unsigned_word_eqI)
qed

lemma xor_right_cancel: "a XOR c = b XOR (c :: u32) \<Longrightarrow> a = b"
proof -
  have "(d XOR c) XOR c = d" for d by (rule bit_word_eqI) (auto simp: bit_xor_iff)
  then show "a XOR c = b XOR c \<Longrightarrow> a = b" by metis
qed

fun unique_values :: "nat \<Rightarrow> unique_state \<Rightarrow> u32 list" where
  "unique_values 0 u = []"
| "unique_values (Suc n) u = (let (u, x) = sb_rand_unique u in x # unique_values n u)"

definition unique_at :: "unique_state \<Rightarrow> nat \<Rightarrow> u32" where
  "unique_at u i = rand_unique_permute
     ((rand_unique_permute (rand_unique_index u + of_nat i) + rand_unique_offset u) XOR 0x5bf03635)"

lemma unique_values_eq: "unique_values n u = map (unique_at u) [0..<n]"
proof (induction n arbitrary: u)
  case (Suc n)
  have "unique_at (fst (sb_rand_unique u)) i = unique_at u (Suc i)" for i
    by (simp add: unique_at_def sb_rand_unique_def Let_def add.assoc)
  moreover have "snd (sb_rand_unique u) = unique_at u 0"
    by (simp add: unique_at_def sb_rand_unique_def Let_def)
  moreover have "map (unique_at u) [0..<Suc n] = unique_at u 0 # map (\<lambda>i. unique_at u (Suc i)) [0..<n]"
    by (simp only: upt_conv_Cons zero_less_Suc list.map map_Suc_upt [symmetric] map_map comp_def)
  ultimately show ?case using Suc by (simp add: case_prod_beta Let_def)
qed simp

lemma unique_at_inj: "inj_on (unique_at u) {..<2 ^ 32}"
proof (rule inj_onI)
  fix i j :: nat
  assume ij: "i \<in> {..<2 ^ 32}" "j \<in> {..<2 ^ 32}" and "unique_at u i = unique_at u j"
  from this(3) have "(rand_unique_permute (rand_unique_index u + of_nat i) + rand_unique_offset u) XOR 0x5bf03635 =
      (rand_unique_permute (rand_unique_index u + of_nat j) + rand_unique_offset u) XOR 0x5bf03635"
    unfolding unique_at_def by (rule injD [OF rand_unique_permute_inj])
  then have "rand_unique_permute (rand_unique_index u + of_nat i) =
      rand_unique_permute (rand_unique_index u + of_nat j)"
    by (auto dest: xor_right_cancel)
  then have "rand_unique_index u + of_nat i = rand_unique_index u + (of_nat j :: u32)"
    by (rule injD [OF rand_unique_permute_inj])
  then have "(of_nat i :: u32) = of_nat j" by simp
  then have "unat (of_nat i :: u32) = unat (of_nat j :: u32)" by simp
  with ij show "i = j" by (simp add: unat_of_nat_small)
qed

section \<open>The Zipfian sampler\<close>

definition zipf_draw :: "nat \<Rightarrow> sb_rng_state_t \<Rightarrow> real" where
  "zipf_draw j s = snd (uniform_real (((fst \<circ> uniform_real) ^^ j) s))"

lemma zipf_round_range: "0 < n \<Longrightarrow> 1 \<le> fst (zipf_round n e s hx d) \<and> fst (zipf_round n e s hx d) \<le> n"
  by (auto simp: zipf_round_def Let_def word_less_nat_alt word_le_nat_alt)

lemma zipfian_int_returns:
  "snd (zipf_round n e s hx (zipf_draw j rng)) \<Longrightarrow> 0 < n \<Longrightarrow>
    \<exists>rng' k. sb_rand_zipfian_int n e s hx rng = Some (rng', k) \<and> 1 \<le> k \<and> k \<le> n"
proof (induction j arbitrary: rng)
  case 0
  obtain r d where rd: "uniform_real rng = (r, d)" by (cases "uniform_real rng")
  obtain k a where ka: "zipf_round n e s hx d = (k, a)" by (cases "zipf_round n e s hx d")
  show ?case
    using 0 zipf_round_range [OF 0(2), of e s hx d]
    by (subst sb_rand_zipfian_int.simps) (simp add: zipf_draw_def rd ka)
next
  case (Suc j)
  obtain r d where rd: "uniform_real rng = (r, d)" by (cases "uniform_real rng")
  obtain k a where ka: "zipf_round n e s hx d = (k, a)" by (cases "zipf_round n e s hx d")
  have "zipf_draw (Suc j) rng = zipf_draw j r"
    by (simp add: zipf_draw_def rd funpow_swap1)
  then have ih: "\<exists>rng' k. sb_rand_zipfian_int n e s hx r = Some (rng', k) \<and> 1 \<le> k \<and> k \<le> n"
    using Suc by simp
  show ?case
    using ih zipf_round_range [OF Suc.prems(2), of e s hx d]
    by (subst sb_rand_zipfian_int.simps) (cases a; simp add: rd ka)
qed

lemma uniform_real_bounds: "0 \<le> snd (uniform_real s) \<and> snd (uniform_real s) < 1"
proof -
  have "real (snd (sb_rand_uniform_double s)) < real (2 ^ 52)"
    using uniform_double_bound of_nat_less_iff by blast
  then show ?thesis by (simp add: uniform_real_def case_prod_beta Let_def)
qed

lemma hIntegral_closed:
  assumes "1 / 10 ^ 8 < \<bar>(1 - e) * ln x\<bar>" "0 < x"
  shows "hIntegral x e = (x powr (1 - e) - 1) / (1 - e)"
  using assms by (simp add: hIntegral_def Let_def helper2_def powr_def)

section \<open>Properties\<close>

text \<open>One step of xoroshiro128+ is a permutation of the 128-bit states that fixes the zero
  state, so a generator that is not seeded with zero never reaches it, and no two states
  ever merge.\<close>

theorem xoroshiro_next_permutes:
  "inj (\<lambda>s. fst (xoroshiro_next s)) \<and> surj (\<lambda>s. fst (xoroshiro_next s)) \<and>
   (fst (xoroshiro_next s) = (0, 0) \<longleftrightarrow> s = (0, 0))"
proof -
  have "surj (\<lambda>s. fst (xoroshiro_next s))"
    using finite_UNIV_inj_surj [OF _ xoroshiro_next_inj] by simp
  moreover have "s = (0, 0)" if "fst (xoroshiro_next s) = (0, 0)"
    using that injD [OF xoroshiro_next_inj, of s "(0, 0)"] by (simp add: xoroshiro_next_zero)
  ultimately show ?thesis using xoroshiro_next_inj xoroshiro_next_zero by auto
qed

text \<open>\<open>sb_rand_uniform(a, b)\<close> returns a number of the closed interval, rounding included,
  whenever the interval spans the binary magnitude of its upper end, as every interval
  starting at 0 or 1 does; \<open>b\<close> must not be UINT32_MAX.\<close>

theorem sb_rand_uniform_range:
  assumes "a \<le> b" "b < 0xffffffff" "bitlen (unat b + 1) \<le> bitlen (unat (b - a + 1))"
  shows "a \<le> snd (sb_rand_uniform a b s) \<and> snd (sb_rand_uniform a b s) \<le> b"
  using assms by (rule sb_rand_uniform_in)

theorem sb_rand_uniform_range_witness:
  "1 \<le> snd (sb_rand_uniform 1 10000 (5, 7)) \<and> snd (sb_rand_uniform 1 10000 (5, 7)) \<le> 10000"
proof -
  have "bitlen 10001 = bitlen 10000" by (simp add: bitlen_rec)
  then show ?thesis using sb_rand_uniform_range [of 1 10000 "(5, 7)"] by simp
qed

text \<open>Outside that case the rounding of the double sum can carry the result past the upper
  end: from a generator state whose next word is all ones, the call
  \<open>sb_rand_uniform('0', '9')\<close> returns 58, and \<open>sb_rand_str\<close> writes a colon for a digit.\<close>

theorem sb_rand_str_non_digit:
  "snd (sb_rand_uniform 48 57 (0xffffffffffffffff, 0)) = 58 \<and>
   snd (sb_rand_str ''#'' (0xffffffffffffffff, 0)) = '':''"
proof -
  have m: "snd (sb_rand_uniform_double (0xffffffffffffffff, 0)) = 4503599627370495"
    by (simp add: uniform_double_mantissa xoroshiro_next_def Let_def drop_bit_eq_div)
  have r: "round53 (4503599627370495 * 10) = 45035996273704952"
    "round53 (48 * 4503599627370496 + 45035996273704952) = 261208778387488768"
    by (simp_all add: round53_def bitlen_rec Let_def)
  have u: "snd (sb_rand_uniform 48 57 (0xffffffffffffffff, 0)) = 58"
    using m r by (simp add: sb_rand_uniform_def case_prod_beta Let_def)
  moreover have "code32 CHR ''0'' = 48" "code32 CHR ''9'' = 57" "char_of (58 :: nat) = CHR '':''"
    by (simp_all add: code32_def char_code_def char_of_def bit_0)
  ultimately show ?thesis
    by (simp add: case_prod_beta Let_def char_of_u32_def)
qed

text \<open>C23: The squaring permutation modulo the prime 4294967291 makes \<open>sb_rand_unique\<close> return
  2^32 pairwise different values, that is every uint32_t exactly once, before it repeats.\<close>

theorem sb_rand_unique_distinct:
  "n \<le> 2 ^ 32 \<Longrightarrow> distinct (unique_values n u)"
  using unique_at_inj [of u] by (auto simp: unique_values_eq distinct_map intro: inj_on_subset)

theorem sb_rand_unique_distinct_witness:
  "distinct (unique_values 1000 (rand_unique_seed 17 42))"
  using sb_rand_unique_distinct [of 1000 "rand_unique_seed 17 42"] by simp

text \<open>Once a draw passes the acceptance test of the rejection loop, \<open>sb_rand_zipfian(a, b)\<close>
  returns, and what it returns lies between \<open>a\<close> and \<open>b\<close> whatever the numerical accuracy
  of the integral and its inverse.\<close>

theorem sb_rand_zipfian_range:
  assumes "a \<le> b" "b - a + 1 \<noteq> 0"
    and "snd (zipf_round (b - a + 1) (zipf_exp p) (zipf_s p) (zipf_hIntegralX1 p) (zipf_draw j s))"
  shows "\<exists>s' k. sb_rand_zipfian p a b s = Some (s', k) \<and> a \<le> k \<and> k \<le> b"
proof -
  have "0 < b - a + 1" using assms(2) by (simp add: word_gt_0)
  from zipfian_int_returns [OF assms(3) this] obtain s' k where
    k: "sb_rand_zipfian_int (b - a + 1) (zipf_exp p) (zipf_s p) (zipf_hIntegralX1 p) s = Some (s', k)"
    "1 \<le> k" "k \<le> b - a + 1" by blast
  have "a \<le> a + k - 1 \<and> a + k - 1 \<le> b"
  proof -
    have "unat (b - a + 1) \<le> unat (b - a) + 1" by (simp add: unat_word_ariths)
    then have le: "unat k - 1 \<le> unat b - unat a" "1 \<le> unat k" "unat a \<le> unat b"
      using k(2,3) assms(1,2) unat_sub_if' [of b a]
      by (auto simp: word_le_nat_alt unatSuc)
    have "unat b < 2 ^ LENGTH(32)" by (rule unsigned_less)
    then have "unat (a + (k - 1)) = unat a + (unat k - 1)"
      using le by (simp add: unat_word_ariths unat_sub_if')
    moreover have "a + k - 1 = a + (k - 1)" by simp
    ultimately show ?thesis using le by (simp only: word_le_nat_alt) linarith
  qed
  then show ?thesis using k(1) by (simp add: sb_rand_zipfian_def)
qed

lemma below_two: "\<not> 1 < k \<Longrightarrow> k \<noteq> 0 \<Longrightarrow> k = (1 :: u32)"
proof -
  assume "\<not> 1 < k" "k \<noteq> 0"
  then have "unat k \<le> 1" "unat k \<noteq> 0" by (simp_all add: word_less_nat_alt unsigned_eq_0_iff)
  then have "unat k = unat (1 :: u32)" by simp
  then show ?thesis by (rule unsigned_word_eqI)
qed

definition flat_zipf :: rand_params where
  "flat_zipf = \<lparr>rand_type = DIST_TYPE_ZIPFIAN, rand_iter = 0, rand_pct = 0, rand_res = 0,
     pareto_h = 0.2, pareto_power = 1, zipf_exp = 0, zipf_s = 0.5,
     zipf_hIntegralX1 = hIntegral 1.5 0 - 1\<rparr>"

theorem sb_rand_zipfian_range_witness:
  "\<exists>s' k. sb_rand_zipfian flat_zipf 5 5 (0, 0) = Some (s', k) \<and> 5 \<le> k \<and> k \<le> 5"
proof -
  have "zipf_draw 0 (0, 0) = 0"
    by (simp add: zipf_draw_def uniform_real_def uniform_double_mantissa case_prod_beta Let_def
        xoroshiro_next_def)
  then have "snd (zipf_round 1 0 0.5 (hIntegral 1.5 0 - 1) (zipf_draw 0 (0, 0)))"
    by (auto simp: zipf_round_def Let_def zipf_h_def dest: below_two)
  then show ?thesis using sb_rand_zipfian_range [of 5 5 flat_zipf 0 "(0, 0)"] by (simp add: flat_zipf_def)
qed

text \<open>The integral of the hat function and its inverse, as the code computes them, are
  inverse to each other outside the narrow bands around 1 where the code switches to the
  Taylor polynomials.\<close>

theorem hIntegral_inverse:
  assumes "0 < x" "e \<noteq> 1" "1 / 10 ^ 8 < \<bar>(1 - e) * ln x\<bar>" "1 / 10 ^ 8 < \<bar>x powr (1 - e) - 1\<bar>"
  shows "hIntegralInverse (hIntegral x e) e = x"
proof -
  let ?t = "x powr (1 - e) - 1"
  have H: "hIntegral x e = ?t / (1 - e)" by (rule hIntegral_closed [OF assms(3,1)])
  have t: "- 1 < ?t" using assms(1) by simp
  have "hIntegralInverse (hIntegral x e) e = exp (helper1 ?t * (?t / (1 - e)))"
    using assms(2) t unfolding hIntegralInverse_def H by (simp add: Let_def)
  also have "helper1 ?t = ln (x powr (1 - e)) / ?t"
    using assms(4) by (simp add: helper1_def)
  also have "\<dots> * (?t / (1 - e)) = ln x"
  proof -
    have "c * l / T * (T / c) = l" if "T \<noteq> 0" "c \<noteq> 0" for c l T :: real using that by simp
    moreover have "?t \<noteq> 0" "1 - e \<noteq> 0" using assms(2,4) by auto
    ultimately show ?thesis unfolding ln_powr by blast
  qed
  finally show ?thesis using assms(1) by simp
qed

theorem hIntegral_inverse_witness:
  "hIntegralInverse (hIntegral 4 (1 / 2)) (1 / 2) = 4"
proof -
  have "(4 :: real) powr (1 - 1 / 2) = 2" using powr_half_sqrt [of 4] by simp
  moreover have "1 \<le> ln (4 :: real)" using exp_le by (simp add: ln_ge_iff)
  ultimately show ?thesis using hIntegral_inverse [of 4 "1 / 2"] by (simp add: power_divide)
qed

text \<open>The options registered by \<open>sb_rand_register\<close> do not contain \<open>rand-spec-iter\<close>, which
  \<open>sb_rand_init\<close> reads: with such a registry the number of iterations is 0 and the gaussian
  generator has no defined result for any arguments.\<close>

theorem gaussian_undefined:
  assumes "find_option opts ''rand-spec-iter'' = None"
    and "sb_rand_init strtod r opts = Rand_ok seed p s u"
  shows "sb_rand_gaussian p a b s' = None"
proof -
  have "sb_get_value_int opts ''rand-spec-iter'' = Some 0"
    using assms(1) by (simp add: sb_get_value_int_def)
  with assms(2) have "rand_iter p = 0"
    by (auto simp: sb_rand_init_def Let_def split: option.splits if_splits)
  then show ?thesis by (simp add: sb_rand_gaussian_def case_prod_beta Let_def)
qed

theorem gaussian_undefined_witness:
  "\<exists>seed p s u. sb_rand_init (\<lambda>_. 1 / 2) [1, 2, 3, 4, 5, 6]
      (fst (sb_rand_register (\<lambda>_. None) [])) = Rand_ok seed p s u \<and>
    sb_rand_gaussian p 1 100 s = None"
proof -
  let ?opts = "fst (sb_rand_register (\<lambda>_. None) [])"
  have f: "find_option ?opts ''rand-spec-iter'' = None"
    "find_option ?opts ''rand-spec-pct'' = None" "find_option ?opts ''rand-spec-res'' = None"
    "sb_get_value_int ?opts ''rand-seed'' = Some 0"
    "sb_get_value_string ?opts ''rand-type'' = Some ''uniform''"
    "sb_get_value_double (\<lambda>_. 1 / 2) ?opts ''rand-zipfian-exp'' = 1 / 2"
    by (simp_all add: rand_args_def sb_rand_register_def sb_register_arg_set_def set_option_def Let_def
        add_option_def find_option_def new_option_def free_values_def upd_option_def schar_code_def
        char_code_def is_dash_def convert_dashes_def sb_get_value_int_def sb_opt_to_int_def
        add_value_def new_value_def strtol10_def isspace_def is_digit_def digit_value_def
        saturate_long_def sb_get_value_string_def sb_opt_to_string_def sb_get_value_double_def
        sb_opt_to_double_def)
  then obtain seed p s u where i: "sb_rand_init (\<lambda>_. 1 / 2) [1, 2, 3, 4, 5, 6] ?opts = Rand_ok seed p s u"
    by (simp add: sb_rand_init_def sb_get_value_int_def rand_dist_of_def Let_def)
  with gaussian_undefined [OF f(1) i] show ?thesis by blast
qed

end
