(* ===== verification/Histogram.thy ===== *)
theory Histogram
  imports Rand
begin

text \<open>
  Latency histograms (\<open>sb_histogram.c\<close>, \<open>sb_histogram.h\<close>).  Workers count events in one of
  128 slot arrays with an atomic increment; the reports move the slots into the cumulative
  array by fetching every element and replacing it by 0 in one atomic operation, and read a
  percentile off the sums.  Doubles are real numbers; the write lock is a flag.  The loops
  are folds over the index ranges of the source, one array element per step, so that the
  increments of the workers can be interleaved between any two of them.
\<close>

section \<open>Data\<close>

definition SB_HISTOGRAM_NSLOTS :: nat where "SB_HISTOGRAM_NSLOTS = 128"

record sb_histogram =
  cumulative_array :: "u64 list"
  cumulative_nevents :: u64
  temp_array :: "u64 list"
  interm_slots :: "u64 list list"
  array_size :: nat
  range_min :: real
  range_max :: real
  range_deduct :: real
  range_mult :: real
  hlock :: bool

text \<open>\<open>sb_histogram_init\<close> on a given object: everything is set except \<open>cumulative_nevents\<close>, which
  keeps the value it has.  The two flags tell whether \<open>calloc\<close> and \<open>malloc\<close> succeed.\<close>

definition sb_histogram_init ::
  "bool \<Rightarrow> bool \<Rightarrow> sb_histogram \<Rightarrow> nat \<Rightarrow> real \<Rightarrow> real \<Rightarrow> sb_histogram \<times> nat" where
  "sb_histogram_init calloc_ok malloc_ok h sz rmin rmax =
     (if \<not> calloc_ok \<or> \<not> malloc_ok then (h, 1)
      else
        let h = h\<lparr>cumulative_array := replicate sz 0, temp_array := replicate sz 0,
                  interm_slots := replicate SB_HISTOGRAM_NSLOTS (replicate sz 0)\<rparr>;
            h = h\<lparr>range_deduct := ln rmin\<rparr>;
            h = h\<lparr>range_mult := real (sz - 1) / (ln rmax - range_deduct h)\<rparr>;
            h = h\<lparr>range_min := rmin, range_max := rmax, array_size := sz, hlock := False\<rparr>
        in (h, 0))"

text \<open>\<open>sb_histogram_new\<close>: the object comes from \<open>malloc\<close>, with arbitrary contents.\<close>

definition sb_histogram_new ::
  "sb_histogram option \<Rightarrow> bool \<Rightarrow> bool \<Rightarrow> nat \<Rightarrow> real \<Rightarrow> real \<Rightarrow> sb_histogram option" where
  "sb_histogram_new heap calloc_ok malloc_ok sz rmin rmax =
     (case heap of
        None \<Rightarrow> None
      | Some h \<Rightarrow>
          (let (h, rc) = sb_histogram_init calloc_ok malloc_ok h sz rmin rmax
           in if rc \<noteq> 0 then None else Some h))"

definition sb_histogram_done :: "sb_histogram \<Rightarrow> sb_histogram" where
  "sb_histogram_done h = h\<lparr>cumulative_array := [], temp_array := [], interm_slots := []\<rparr>"

text \<open>\<open>sb_histogram_delete\<close> ends the life of the object.\<close>

definition sb_histogram_delete :: "sb_histogram \<Rightarrow> sb_histogram option" where
  "sb_histogram_delete h = (let h = sb_histogram_done h in None)"

section \<open>Updates\<close>

text \<open>The element a value is counted in.  For a value that is not positive \<open>log\<close> gives minus
  infinity or NaN, which the conversion to ssize_t turns into its least value.\<close>

definition hist_index :: "sb_histogram \<Rightarrow> real \<Rightarrow> nat" where
  "hist_index h v =
     (let i = (if v \<le> 0 then - (2 ^ 63) else \<lfloor>(ln v - range_deduct h) * range_mult h + 0.5\<rfloor>)
      in if i < 0 then 0 else if i \<ge> int (array_size h) then array_size h - 1 else nat i)"

definition inc_slot :: "nat \<Rightarrow> nat \<Rightarrow> u64 list list \<Rightarrow> u64 list list" where
  "inc_slot s i slots = slots[s := (slots ! s)[i := slots ! s ! i + 1]]"

definition sb_histogram_update ::
  "sb_histogram \<Rightarrow> real \<Rightarrow> sb_rng_state_t \<Rightarrow> sb_histogram \<times> sb_rng_state_t" where
  "sb_histogram_update h v rng =
     (let (rng, r) = sb_rand_uniform_uint64 rng;
          slot = unat (r mod of_nat SB_HISTOGRAM_NSLOTS)
      in (h\<lparr>interm_slots := inc_slot slot (hist_index h v) (interm_slots h)\<rparr>, rng))"

section \<open>Merging the slots\<close>

type_synonym merge_state = "u64 list list \<times> u64 list \<times> u64"

definition clear_slot :: "nat \<Rightarrow> nat \<Rightarrow> u64 list list \<Rightarrow> u64 list list" where
  "clear_slot s i slots = slots[s := (slots ! s)[i := 0]]"

text \<open>One iteration: fetch and zero a slot element, add it to the array and to the count.\<close>

definition fas_add :: "nat \<Rightarrow> nat \<Rightarrow> merge_state \<Rightarrow> merge_state" where
  "fas_add s i st = (case st of (slots, array, nevents) \<Rightarrow>
     (let t = slots ! s ! i
      in (clear_slot s i slots, array[i := array ! i + t], nevents + t)))"

text \<open>The first slot overwrites the temporary array instead.\<close>

definition fas_set :: "nat \<Rightarrow> merge_state \<Rightarrow> merge_state" where
  "fas_set i st = (case st of (slots, array, nevents) \<Rightarrow>
     (let array = array[i := slots ! 0 ! i]
      in (clear_slot 0 i slots, array, nevents + array ! i)))"

definition merge_slots :: "nat \<Rightarrow> nat list \<Rightarrow> merge_state \<Rightarrow> merge_state" where
  "merge_slots sz ss st = fold (\<lambda>s. fold (fas_add s) [0..<sz]) ss st"

definition merge_intermediate_into_cumulative :: "sb_histogram \<Rightarrow> sb_histogram" where
  "merge_intermediate_into_cumulative h =
     (let (slots, array, nevents) = merge_slots (array_size h) [0..<SB_HISTOGRAM_NSLOTS]
            (interm_slots h, cumulative_array h, cumulative_nevents h)
      in h\<lparr>interm_slots := slots, cumulative_array := array, cumulative_nevents := nevents\<rparr>)"

section \<open>Percentiles\<close>

text \<open>The scan for the percentile: the index at which the running count reaches \<open>nmax\<close>, the
  array sz if it never does.\<close>

fun pct_scan :: "u64 list \<Rightarrow> u64 \<Rightarrow> u64 \<Rightarrow> nat \<Rightarrow> nat" where
  "pct_scan [] ncur nmax i = i"
| "pct_scan (a # as) ncur nmax i =
     (let ncur = ncur + a in if ncur \<ge> nmax then i else pct_scan as ncur nmax (i + 1))"

definition pct_count :: "u64 \<Rightarrow> real \<Rightarrow> u64" where
  "pct_count nevents percentile = word_of_int \<lfloor>real (unat nevents) * percentile / 100 + 0.5\<rfloor>"

definition slot_value :: "sb_histogram \<Rightarrow> nat \<Rightarrow> real" where
  "slot_value h i = exp (real i / range_mult h + range_deduct h)"

definition get_pct_cumulative :: "sb_histogram \<Rightarrow> real \<Rightarrow> real" where
  "get_pct_cumulative h percentile =
     slot_value h (pct_scan (cumulative_array h) 0 (pct_count (cumulative_nevents h) percentile) 0)"

text \<open>\<open>for (i = 0; i < sz; i++) cumulative_array[i] += array[i]\<close>.\<close>

definition add_arrays :: "nat \<Rightarrow> u64 list \<Rightarrow> u64 list \<Rightarrow> u64 list" where
  "add_arrays sz cum array = fold (\<lambda>i cum. cum[i := cum ! i + array ! i]) [0..<sz] cum"

definition sb_histogram_get_pct_intermediate :: "sb_histogram \<Rightarrow> real \<Rightarrow> sb_histogram \<times> real" where
  "sb_histogram_get_pct_intermediate h percentile =
     (let h = h\<lparr>hlock := True\<rparr>;
          sz = array_size h;
          st = fold fas_set [0..<sz] (interm_slots h, temp_array h, 0);
          (slots, array, nevents) = merge_slots sz [1..<SB_HISTOGRAM_NSLOTS] st;
          nmax = pct_count nevents percentile;
          res = slot_value h (pct_scan array 0 nmax 0);
          h = h\<lparr>interm_slots := slots, temp_array := array,
                cumulative_array := add_arrays sz (cumulative_array h) array,
                cumulative_nevents := cumulative_nevents h + nevents\<rparr>
      in (h\<lparr>hlock := False\<rparr>, res))"

definition sb_histogram_get_pct_cumulative :: "sb_histogram \<Rightarrow> real \<Rightarrow> sb_histogram \<times> real" where
  "sb_histogram_get_pct_cumulative h percentile =
     (let h = h\<lparr>hlock := True\<rparr>;
          h = merge_intermediate_into_cumulative h;
          res = get_pct_cumulative h percentile
      in (h\<lparr>hlock := False\<rparr>, res))"

definition sb_histogram_get_pct_checkpoint :: "sb_histogram \<Rightarrow> real \<Rightarrow> sb_histogram \<times> real" where
  "sb_histogram_get_pct_checkpoint h percentile =
     (let h = h\<lparr>hlock := True\<rparr>;
          h = merge_intermediate_into_cumulative h;
          res = get_pct_cumulative h percentile;
          h = h\<lparr>cumulative_array := replicate (array_size h) 0, cumulative_nevents := 0\<rparr>
      in (h\<lparr>hlock := False\<rparr>, res))"

section \<open>Printing\<close>

text \<open>\<open>sb_histogram_print\<close>: the rows printed, each a value, the width of its bar and its count.
  With an empty histogram the function returns between locking and unlocking.\<close>

definition max_count :: "u64 list \<Rightarrow> u64" where
  "max_count array = foldl (\<lambda>m a. if a > m then a else m) 0 array"

definition bar_width :: "u64 \<Rightarrow> u64 \<Rightarrow> int" where
  "bar_width a maxcnt = \<lfloor>real (unat a) * 40 / real (unat maxcnt) + 0.5\<rfloor>"

definition sb_histogram_print :: "sb_histogram \<Rightarrow> sb_histogram \<times> (real \<times> int \<times> u64) list" where
  "sb_histogram_print h =
     (let h = h\<lparr>hlock := True\<rparr>;
          h = merge_intermediate_into_cumulative h;
          array = cumulative_array h;
          maxcnt = max_count array
      in if maxcnt = 0 then (h, [])
         else (h\<lparr>hlock := False\<rparr>,
               [(slot_value h i, bar_width (array ! i) maxcnt, array ! i).
                  i \<leftarrow> [0..<array_size h], array ! i \<noteq> 0]))"

section \<open>Well-formed histograms and what the slots hold\<close>

definition wf_slots :: "nat \<Rightarrow> u64 list list \<Rightarrow> bool" where
  "wf_slots sz slots \<longleftrightarrow> length slots = SB_HISTOGRAM_NSLOTS \<and> (\<forall>r \<in> set slots. length r = sz)"

definition wf_histogram :: "sb_histogram \<Rightarrow> bool" where
  "wf_histogram h \<longleftrightarrow> 0 < array_size h \<and> wf_slots (array_size h) (interm_slots h) \<and>
     length (cumulative_array h) = array_size h \<and> length (temp_array h) = array_size h"

text \<open>The sum of a column of the slots.\<close>

definition col :: "nat \<Rightarrow> u64 list list \<Rightarrow> u64" where
  "col i slots = (\<Sum>r\<leftarrow>slots. r ! i)"

lemma col_update:
  "s < length slots \<Longrightarrow> col j (slots[s := r]) = col j slots - slots ! s ! j + r ! j"
  unfolding col_def by (induction slots arbitrary: s) (auto split: nat.splits)

lemma wf_slots_update [intro]:
  "wf_slots n slots \<Longrightarrow> length r = n \<Longrightarrow> wf_slots n (slots[s := r])"
  by (auto simp: wf_slots_def dest!: subsetD [OF set_update_subset_insert])

lemma wf_slots_nth: "wf_slots n slots \<Longrightarrow> s < SB_HISTOGRAM_NSLOTS \<Longrightarrow> length (slots ! s) = n"
  by (auto simp: wf_slots_def)

lemma wf_slots_inc [intro]:
  "wf_slots n slots \<Longrightarrow> s < SB_HISTOGRAM_NSLOTS \<Longrightarrow> wf_slots n (inc_slot s i slots)"
  by (auto simp: inc_slot_def wf_slots_nth)

lemma wf_slots_clear [intro]:
  "wf_slots n slots \<Longrightarrow> s < SB_HISTOGRAM_NSLOTS \<Longrightarrow> wf_slots n (clear_slot s i slots)"
  by (auto simp: clear_slot_def wf_slots_nth)

lemma col_inc:
  "wf_slots n slots \<Longrightarrow> s < SB_HISTOGRAM_NSLOTS \<Longrightarrow> i < n \<Longrightarrow>
    col j (inc_slot s i slots) = col j slots + (if i = j then 1 else 0)"
  by (auto simp: inc_slot_def col_update wf_slots_def nth_list_update)

lemma col_clear:
  "wf_slots n slots \<Longrightarrow> s < SB_HISTOGRAM_NSLOTS \<Longrightarrow> i < n \<Longrightarrow>
    col j (clear_slot s i slots) = col j slots - (if i = j then slots ! s ! i else 0)"
  by (auto simp: clear_slot_def col_update wf_slots_def nth_list_update)

section \<open>Merging as atomic actions\<close>

text \<open>The atomic actions on a histogram: a worker's increment and one step of a merge.  The
  program of a merge is the sequence of its steps.\<close>

datatype hist_action = Inc nat nat | Take nat nat

definition hist_step :: "hist_action \<Rightarrow> merge_state \<Rightarrow> merge_state" where
  "hist_step a st = (case a of
     Inc s i \<Rightarrow> (case st of (slots, rest) \<Rightarrow> (inc_slot s i slots, rest))
   | Take s i \<Rightarrow> fas_add s i st)"

definition action_ok :: "nat \<Rightarrow> hist_action \<Rightarrow> bool" where
  "action_ok n a \<longleftrightarrow> (case a of Inc s i \<Rightarrow> s < SB_HISTOGRAM_NSLOTS \<and> i < n
                             | Take s i \<Rightarrow> s < SB_HISTOGRAM_NSLOTS \<and> i < n)"

definition merge_program :: "nat \<Rightarrow> nat list \<Rightarrow> hist_action list" where
  "merge_program n ss = concat (map (\<lambda>s. map (Take s) [0..<n]) ss)"

fun is_inc :: "hist_action \<Rightarrow> bool" where
  "is_inc (Inc s i) = True"
| "is_inc (Take s i) = False"

fun inc_at :: "nat \<Rightarrow> hist_action \<Rightarrow> bool" where
  "inc_at j (Inc s i) = (i = j)"
| "inc_at j (Take s i) = False"

lemma merge_slots_program: "merge_slots n ss st = fold hist_step (merge_program n ss) st"
proof -
  have "fold (fas_add s) is st = fold hist_step (map (Take s) is) st" for s "is" st
    by (induction "is" arbitrary: st) (simp_all add: hist_step_def)
  then show ?thesis
    by (induction ss arbitrary: st) (simp_all add: merge_slots_def merge_program_def)
qed

text \<open>The invariant of a state: its shape.\<close>

definition wf_state :: "nat \<Rightarrow> merge_state \<Rightarrow> bool" where
  "wf_state n st \<longleftrightarrow> wf_slots n (fst st) \<and> length (fst (snd st)) = n"

definition held :: "nat \<Rightarrow> merge_state \<Rightarrow> u64" where
  "held j st = fst (snd st) ! j + col j (fst st)"

definition held_total :: "nat \<Rightarrow> merge_state \<Rightarrow> u64" where
  "held_total n st = snd (snd st) + (\<Sum>j\<leftarrow>[0..<n]. col j (fst st))"

lemma wf_state_step [inv_intros]: "wf_state n st \<Longrightarrow> action_ok n a \<Longrightarrow> wf_state n (hist_step a st)"
  by (cases a; cases st)
    (auto simp: wf_state_def hist_step_def action_ok_def fas_add_def Let_def)

lemma held_step:
  assumes "wf_state n st" "action_ok n a" "j < n"
  shows "held j (hist_step a st) = held j st + (if inc_at j a then 1 else 0)"
  using assms
  by (cases a; cases st)
    (auto simp: wf_state_def hist_step_def action_ok_def fas_add_def held_def col_inc col_clear
      nth_list_update Let_def)

lemma sum_list_single:
  "distinct xs \<Longrightarrow> (\<Sum>j\<leftarrow>xs. if i = j then d else 0) = (if i \<in> set xs then d else (0 :: u64))"
  by (induction xs) auto

lemma sum_list_add_single:
  "i < n \<Longrightarrow> (\<Sum>j\<leftarrow>[0..<n]. f j + (if i = j then d else 0)) = (\<Sum>j\<leftarrow>[0..<n]. f j) + (d :: u64)"
  by (simp add: sum_list_addf sum_list_single)

lemma sum_list_sub_single:
  "i < n \<Longrightarrow> (\<Sum>j\<leftarrow>[0..<n]. f j - (if i = j then d else 0)) = (\<Sum>j\<leftarrow>[0..<n]. f j) - (d :: u64)"
  by (simp add: sum_list_subtractf sum_list_single)

lemma held_total_step:
  assumes "wf_state n st" "action_ok n a"
  shows "held_total n (hist_step a st) = held_total n st + (if is_inc a then 1 else 0)"
  using assms
  by (cases a; cases st)
    (auto simp: wf_state_def hist_step_def action_ok_def fas_add_def held_total_def col_inc col_clear
      Let_def sum_list_add_single sum_list_sub_single)

lemma actions_conserve:
  assumes "wf_state n st" "\<forall>a \<in> set as. action_ok n a"
  shows "wf_state n (fold hist_step as st) \<and>
    (\<forall>j < n. held j (fold hist_step as st) = held j st + of_nat (length (filter (inc_at j) as))) \<and>
    held_total n (fold hist_step as st) = held_total n st + of_nat (length (filter is_inc as))"
  using assms
proof (induction as arbitrary: st)
  case (Cons a as)
  then have "wf_state n (hist_step a st)" by (simp add: wf_state_step)
  with Cons show ?case by (auto simp: held_step held_total_step)
qed simp

lemma merge_program_ok: "\<forall>s \<in> set ss. s < SB_HISTOGRAM_NSLOTS \<Longrightarrow> \<forall>a \<in> set (merge_program n ss). action_ok n a"
  by (auto simp: merge_program_def action_ok_def)

lemma no_incs: "filter is_inc (merge_program n ss) = []" "filter (inc_at j) (merge_program n ss) = []"
  by (auto simp: merge_program_def filter_concat filter_empty_conv)

text \<open>After the merge the slots are empty.\<close>

definition cleared :: "nat \<Rightarrow> (nat \<times> nat) set \<Rightarrow> merge_state \<Rightarrow> bool" where
  "cleared n S st \<longleftrightarrow> (\<forall>(s, i) \<in> S. fst st ! s ! i = 0)"

fun target :: "hist_action \<Rightarrow> nat \<times> nat" where
  "target (Inc s i) = (s, i)"
| "target (Take s i) = (s, i)"

lemma cleared_step:
  assumes "wf_state n st" "action_ok n a" "\<not> is_inc a" "cleared n S st"
  shows "cleared n (insert (target a) S) (hist_step a st)"
  using assms
  by (cases a; cases st)
    (auto simp: cleared_def hist_step_def fas_add_def clear_slot_def Let_def nth_list_update
      wf_state_def action_ok_def wf_slots_def)

lemma cleared_fold:
  "wf_state n st \<Longrightarrow> \<forall>a \<in> set as. action_ok n a \<and> \<not> is_inc a \<Longrightarrow> cleared n S st \<Longrightarrow>
    cleared n (target ` set as \<union> S) (fold hist_step as st)"
proof (induction as arbitrary: st S)
  case (Cons a as)
  then show ?case
    using cleared_step [of n st a S] wf_state_step [of n st a]
      Cons.IH [of "hist_step a st" "insert (target a) S"] by simp
qed simp

lemma merge_clears:
  assumes "wf_state n st"
  shows "\<forall>s < SB_HISTOGRAM_NSLOTS. \<forall>i < n.
    fst (fold hist_step (merge_program n [0..<SB_HISTOGRAM_NSLOTS]) st) ! s ! i = 0"
proof -
  let ?p = "merge_program n [0..<SB_HISTOGRAM_NSLOTS]"
  have "\<forall>a \<in> set ?p. action_ok n a \<and> \<not> is_inc a" by (auto simp: merge_program_def action_ok_def)
  from cleared_fold [OF assms this, of "{}"]
  have c: "cleared n (target ` set ?p) (fold hist_step ?p st)" by (simp add: cleared_def)
  have "(s, i) \<in> target ` set ?p" if "s < SB_HISTOGRAM_NSLOTS" "i < n" for s i
  proof -
    have "Take s i \<in> set ?p"
      using that by (simp add: merge_program_def) (auto intro!: bexI [of _ s])
    then show ?thesis by (metis image_eqI target.simps(2))
  qed
  with c show ?thesis unfolding cleared_def by fast
qed

lemma col_zero:
  assumes "\<forall>s < length slots. slots ! s ! j = 0"
  shows "col j slots = 0"
  unfolding col_def using assms by (intro sum_list_zero) (auto simp: in_set_conv_nth)

lemma merged_columns:
  assumes "wf_histogram h"
  defines "h' \<equiv> merge_intermediate_into_cumulative h"
  shows "wf_histogram h' \<and> array_size h' = array_size h \<and>
    (\<forall>j < array_size h. cumulative_array h' ! j = cumulative_array h ! j + col j (interm_slots h) \<and>
       col j (interm_slots h') = 0) \<and>
    cumulative_nevents h' = cumulative_nevents h + (\<Sum>j\<leftarrow>[0..<array_size h]. col j (interm_slots h)) \<and>
    range_mult h' = range_mult h \<and> range_deduct h' = range_deduct h \<and> hlock h' = hlock h"
proof -
  let ?n = "array_size h" and ?st = "(interm_slots h, cumulative_array h, cumulative_nevents h)"
  let ?p = "merge_program (array_size h) [0..<SB_HISTOGRAM_NSLOTS]"
  obtain slots array nevents where st: "fold hist_step ?p ?st = (slots, array, nevents)"
    by (cases "fold hist_step ?p ?st")
  have h': "h' = h\<lparr>interm_slots := slots, cumulative_array := array, cumulative_nevents := nevents\<rparr>"
    by (simp add: h'_def merge_intermediate_into_cumulative_def merge_slots_program st)
  have wf: "wf_state ?n ?st" using assms(1) by (simp add: wf_histogram_def wf_state_def)
  have "\<forall>a \<in> set ?p. action_ok ?n a" by (intro merge_program_ok) simp
  note c = actions_conserve [OF wf this, unfolded st no_incs]
  from c have wfs: "wf_slots ?n slots" "length array = ?n" by (simp_all add: wf_state_def)
  have z: "col j slots = 0" if "j < ?n" for j
    using merge_clears [OF wf] that wfs by (intro col_zero) (simp add: st wf_slots_def)
  have "(\<Sum>j\<leftarrow>[0..<?n]. col j slots) = 0"
    using z by (intro sum_list_zero) simp
  with c wfs z assms(1) show ?thesis
    by (auto simp: h' wf_histogram_def held_def held_total_def)
qed

section \<open>Percentiles of the merged counts\<close>

text \<open>The events a histogram has counted in element \<open>j\<close>, in all its arrays.\<close>

definition events_in :: "sb_histogram \<Rightarrow> nat \<Rightarrow> nat" where
  "events_in h j = unat (cumulative_array h ! j) + (\<Sum>r\<leftarrow>interm_slots h. unat (r ! j))"

definition events_below :: "sb_histogram \<Rightarrow> nat \<Rightarrow> nat" where
  "events_below h k = (\<Sum>j\<leftarrow>[0..<k]. events_in h j)"

definition pct_rank :: "nat \<Rightarrow> real \<Rightarrow> nat" where
  "pct_rank n percentile = nat \<lfloor>real n * percentile / 100 + 0.5\<rfloor>"

lemma events_below_mono: "i \<le> k \<Longrightarrow> events_below h i \<le> events_below h k"
proof -
  assume "i \<le> k"
  then have "[0..<k] = [0..<i] @ [i..<k]" by (metis upt_add_eq_append le0 le_add_diff_inverse)
  then show ?thesis by (simp add: events_below_def)
qed

lemma events_in_le: "j < k \<Longrightarrow> events_in h j \<le> events_below h k"
  using events_below_mono [of "Suc j" k h] by (simp add: events_below_def)

lemma pct_scan_spec:
  assumes "unat ncur + sum_list (map unat as) < 2 ^ 64"
  shows "\<exists>k \<le> length as. pct_scan as ncur nmax i = i + k \<and>
    (\<forall>m. 0 < m \<and> m \<le> k \<longrightarrow> unat ncur + sum_list (map unat (take m as)) < unat nmax) \<and>
    (k < length as \<longrightarrow> unat nmax \<le> unat ncur + sum_list (map unat (take (Suc k) as)))"
  using assms
proof (induction as arbitrary: ncur i)
  case (Cons a as)
  have s: "unat (ncur + a) = unat ncur + unat a" using Cons.prems by (simp add: unat_word_ariths)
  show ?case
  proof (cases "nmax \<le> ncur + a")
    case True
    then show ?thesis using s by (intro exI [of _ 0]) (simp add: word_le_nat_alt)
  next
    case False
    then have lt: "unat ncur + unat a < unat nmax" using s by (simp add: word_le_nat_alt)
    from Cons.IH [of "ncur + a" "i + 1"] Cons.prems s obtain k where k: "k \<le> length as"
      "pct_scan as (ncur + a) nmax (i + 1) = i + 1 + k"
      "\<forall>m. 0 < m \<and> m \<le> k \<longrightarrow> unat ncur + unat a + sum_list (map unat (take m as)) < unat nmax"
      "k < length as \<longrightarrow> unat nmax \<le> unat ncur + unat a + sum_list (map unat (take (Suc k) as))"
      by auto
    have "unat ncur + sum_list (map unat (take m (a # as))) < unat nmax" if "0 < m" "m \<le> Suc k" for m
      using that lt k(3) by (cases m) (auto simp: add.assoc, metis add_0_right list.simps(8) neq0_conv
        sum_list.Nil take_0)
    then show ?thesis using False k by (intro exI [of _ "Suc k"]) (simp add: add.assoc)
  qed
qed simp

lemma scan_is_rank:
  assumes len: "length cum = n" and cnt: "\<forall>j < n. unat (cum ! j) = e j"
    and small: "(\<Sum>j\<leftarrow>[0..<n]. e j) < 2 ^ 64" and pos: "0 < n"
    and nmax: "unat nmax \<le> (\<Sum>j\<leftarrow>[0..<n]. e j)"
  shows "\<exists>k < n. pct_scan cum 0 nmax 0 = k \<and>
    (0 < k \<longrightarrow> (\<Sum>j\<leftarrow>[0..<k]. e j) < unat nmax) \<and> unat nmax \<le> (\<Sum>j\<leftarrow>[0..<Suc k]. e j)"
proof -
  have t: "map unat (take m cum) = map e [0..<m]" if "m \<le> n" for m
    using that len cnt by (intro nth_equalityI) simp_all
  have "sum_list (map unat cum) = (\<Sum>j\<leftarrow>[0..<n]. e j)" using t [of n] len by simp
  with small have "unat (0 :: u64) + sum_list (map unat cum) < 2 ^ 64" by simp
  from pct_scan_spec [OF this, of nmax 0] obtain k where k: "k \<le> n" "pct_scan cum 0 nmax 0 = k"
    "\<forall>m. 0 < m \<and> m \<le> k \<longrightarrow> sum_list (map unat (take m cum)) < unat nmax"
    "k < n \<longrightarrow> unat nmax \<le> sum_list (map unat (take (Suc k) cum))"
    by (auto simp: len)
  have "k < n"
  proof (rule ccontr)
    assume "\<not> k < n"
    with k have "sum_list (map unat (take n cum)) < unat nmax" using pos by simp
    with t [of n] nmax show False by simp
  qed
  with k t [of k] t [of "Suc k"] show ?thesis by (metis less_imp_le order_refl Suc_leI)
qed

lemma pct_rank_le:
  assumes "0 \<le> p" "p \<le> 100"
  shows "pct_rank n p \<le> n"
proof -
  have "real n * p / 100 \<le> real n" using assms by (simp add: mult_left_mono)
  then have "\<lfloor>real n * p / 100 + 0.5\<rfloor> \<le> int n" by linarith
  then show ?thesis by (simp add: pct_rank_def)
qed

lemma unat_pct_count:
  assumes "0 \<le> p" "p \<le> 100"
  shows "unat (pct_count n p) = pct_rank (unat n) p"
proof -
  have "0 \<le> real (unat n) * p" using assms(1) by (rule mult_nonneg_nonneg [OF of_nat_0_le_iff])
  then have "0 \<le> real (unat n) * p / 100 + 0.5" by simp
  then have f: "\<lfloor>real (unat n) * p / 100 + 0.5\<rfloor> = int (pct_rank (unat n) p)"
    by (simp add: pct_rank_def)
  have "unat n < 2 ^ LENGTH(64)" by (rule unsigned_less)
  with pct_rank_le [OF assms, of "unat n"] have "pct_rank (unat n) p < 2 ^ 64" by simp
  then show ?thesis unfolding pct_count_def f by (simp add: unat_of_nat_small)
qed

lemma merged_counts:
  assumes "wf_histogram h" "cumulative_nevents h = sum_list (cumulative_array h)"
    and "events_below h (array_size h) < 2 ^ 64"
  defines "h' \<equiv> merge_intermediate_into_cumulative h"
  shows "\<forall>j < array_size h. unat (cumulative_array h' ! j) = events_in h j"
    and "unat (cumulative_nevents h') = events_below h (array_size h)"
proof -
  let ?n = "array_size h"
  note m = merged_columns [OF assms(1), folded h'_def]
  have cell: "unat (cumulative_array h ! j + col j (interm_slots h)) = events_in h j" if "j < ?n" for j
  proof -
    let ?ws = "cumulative_array h ! j # map (\<lambda>r. r ! j) (interm_slots h)"
    have "sum_list (map unat ?ws) = events_in h j" by (simp add: events_in_def comp_def)
    moreover have "events_in h j < 2 ^ 64" using events_in_le [OF that] assms(3) by (rule le_less_trans)
    ultimately show ?thesis using unat_sum_list [of ?ws] by (simp add: col_def)
  qed
  then show c: "\<forall>j < ?n. unat (cumulative_array h' ! j) = events_in h j" using m by simp
  have len: "length (cumulative_array h) = ?n" using assms(1) by (simp add: wf_histogram_def)
  have "cumulative_nevents h' = (\<Sum>j\<leftarrow>[0..<?n]. cumulative_array h ! j + col j (interm_slots h))"
  proof -
    have "map ((!) (cumulative_array h)) [0..<?n] = cumulative_array h" using len map_nth by metis
    then show ?thesis using m assms(2) by (simp add: sum_list_addf)
  qed
  moreover have "sum_list (map unat (map (\<lambda>j. cumulative_array h ! j + col j (interm_slots h)) [0..<?n])) =
      events_below h ?n"
    using cell by (auto simp: events_below_def comp_def intro!: arg_cong [where f = sum_list])
  ultimately show "unat (cumulative_nevents h') = events_below h ?n"
    using unat_sum_list [of "map (\<lambda>j. cumulative_array h ! j + col j (interm_slots h)) [0..<?n]"] assms(3)
    by simp
qed

section \<open>The count of the cumulative array\<close>

text \<open>\<open>cumulative_nevents\<close> is the sum of the array: true after \<open>sb_histogram_init\<close> on an object whose
  count is 0, which the static histogram of the program is (\<open>sb_histogram_init\<close> itself does not set
  it), and kept by every operation.\<close>

definition tallied :: "sb_histogram \<Rightarrow> bool" where
  "tallied h \<longleftrightarrow> wf_histogram h \<and> cumulative_nevents h = sum_list (cumulative_array h)"

datatype hist_call =
  Call_update real sb_rng_state_t | Call_pct_intermediate real | Call_pct_cumulative real
| Call_pct_checkpoint real | Call_print

fun hist_do :: "hist_call \<Rightarrow> sb_histogram \<Rightarrow> sb_histogram" where
  "hist_do (Call_update v rng) h = fst (sb_histogram_update h v rng)"
| "hist_do (Call_pct_intermediate p) h = fst (sb_histogram_get_pct_intermediate h p)"
| "hist_do (Call_pct_cumulative p) h = fst (sb_histogram_get_pct_cumulative h p)"
| "hist_do (Call_pct_checkpoint p) h = fst (sb_histogram_get_pct_checkpoint h p)"
| "hist_do Call_print h = fst (sb_histogram_print h)"

lemma sum_list_set: "i < length xs \<Longrightarrow> sum_list (xs[i := y]) = sum_list xs - xs ! i + (y :: u64)"
  by (induction xs arbitrary: i) (auto split: nat.splits)

text \<open>The steps of a merge keep the count equal to the sum; the first slot of an intermediate report
  builds both up together.\<close>

definition balanced :: "nat \<Rightarrow> merge_state \<Rightarrow> bool" where
  "balanced n st \<longleftrightarrow> wf_state n st \<and> snd (snd st) = sum_list (fst (snd st))"

lemma balanced_merge:
  assumes "balanced n st" "\<forall>s \<in> set ss. s < SB_HISTOGRAM_NSLOTS"
  shows "balanced n (merge_slots n ss st)"
proof -
  have step: "balanced n (hist_step a st)" if "balanced n st" "action_ok n a" "\<not> is_inc a" for a st
    using that wf_state_step [of n st a]
    by (cases a; cases st)
      (auto simp: balanced_def hist_step_def fas_add_def Let_def sum_list_set wf_state_def action_ok_def)
  have "balanced n (fold hist_step as st)" if "balanced n st" "\<forall>a \<in> set as. action_ok n a \<and> \<not> is_inc a" for as st
    using that by (induction as arbitrary: st) (auto simp: step)
  moreover have "\<forall>a \<in> set (merge_program n ss). action_ok n a \<and> \<not> is_inc a"
    using assms(2) by (auto simp: merge_program_def action_ok_def)
  ultimately show ?thesis using assms(1) unfolding merge_slots_program by blast
qed

lemma balanced_first_slot:
  assumes "wf_state n (slots, array, 0)"
  shows "balanced n (fold fas_set [0..<n] (slots, array, 0))"
proof -
  have "wf_state n (fold fas_set [0..<k] (slots, array, 0)) \<and>
      snd (snd (fold fas_set [0..<k] (slots, array, 0))) = sum_list (take k (fst (snd (fold fas_set [0..<k] (slots, array, 0)))))"
    if "k \<le> n" for k
    using that
  proof (induction k)
    case (Suc k)
    obtain s1 a1 n1 where st: "fold fas_set [0..<k] (slots, array, 0) = (s1, a1, n1)" by (metis prod_cases3)
    have step: "fold fas_set [0..<Suc k] (slots, array, 0) =
        (clear_slot 0 k s1, a1[k := s1 ! 0 ! k], n1 + a1[k := s1 ! 0 ! k] ! k)"
      by (simp add: st fas_set_def Let_def)
    have IH: "wf_slots n s1" "length a1 = n" "n1 = sum_list (take k a1)"
      using Suc.IH Suc.prems unfolding st by (simp_all add: wf_state_def)
    have "wf_slots n (clear_slot 0 k s1)" using IH(1) by (intro wf_slots_clear) (simp_all add: SB_HISTOGRAM_NSLOTS_def)
    then show ?case using IH Suc.prems unfolding step
      by (simp add: wf_state_def take_Suc_conv_app_nth)
  qed (use assms in simp)
  from this [of n] show ?thesis by (auto simp: balanced_def wf_state_def)
qed

lemma add_arrays_sum:
  assumes "n \<le> length cum" "n = length arr"
  shows "sum_list (add_arrays n cum arr) = sum_list cum + sum_list arr" "length (add_arrays n cum arr) = length cum"
proof -
  have "length (add_arrays k cum arr) = length cum \<and>
      sum_list (add_arrays k cum arr) = sum_list cum + sum_list (take k arr)" if "k \<le> n" for k
    using that
  proof (induction k)
    case (Suc k)
    then show ?case using assms
      by (auto simp: add_arrays_def sum_list_set take_Suc_conv_app_nth)
  qed (simp add: add_arrays_def)
  from this [of n] assms(2) show "sum_list (add_arrays n cum arr) = sum_list cum + sum_list arr"
    "length (add_arrays n cum arr) = length cum" by simp_all
qed

lemma tallied_merge:
  assumes "tallied h"
  shows "tallied (merge_intermediate_into_cumulative h)"
proof -
  let ?st = "(interm_slots h, cumulative_array h, cumulative_nevents h)"
  have "balanced (array_size h) ?st"
    using assms by (simp add: tallied_def wf_histogram_def balanced_def wf_state_def)
  from balanced_merge [OF this, of "[0..<SB_HISTOGRAM_NSLOTS]"] assms show ?thesis
    by (auto simp: merge_intermediate_into_cumulative_def tallied_def balanced_def wf_state_def wf_histogram_def
        split: prod.splits)
qed

lemma tallied_intermediate:
  assumes "tallied h"
  shows "tallied (fst (sb_histogram_get_pct_intermediate h p))"
proof -
  let ?n = "array_size h"
  obtain slots array nevents where st: "merge_slots ?n [1..<SB_HISTOGRAM_NSLOTS]
      (fold fas_set [0..<?n] (interm_slots h, temp_array h, 0)) = (slots, array, nevents)" by (metis prod_cases3)
  have "wf_state ?n (interm_slots h, temp_array h, 0)" using assms by (simp add: tallied_def wf_histogram_def wf_state_def)
  from balanced_merge [OF balanced_first_slot [OF this], of "[1..<SB_HISTOGRAM_NSLOTS]"]
  have b: "wf_slots ?n slots" "length array = ?n" "nevents = sum_list array"
    unfolding st by (simp_all add: balanced_def wf_state_def)
  have c: "length (cumulative_array h) = ?n" "length (temp_array h) = ?n" "0 < ?n"
    "cumulative_nevents h = sum_list (cumulative_array h)"
    using assms by (simp_all add: tallied_def wf_histogram_def)
  have "?n \<le> length (cumulative_array h)" using c(1) by simp
  note a = add_arrays_sum [OF this b(2) [symmetric]]
  have "fst (sb_histogram_get_pct_intermediate h p) = h\<lparr>interm_slots := slots, temp_array := array,
      cumulative_array := add_arrays ?n (cumulative_array h) array,
      cumulative_nevents := cumulative_nevents h + nevents, hlock := False\<rparr>"
    unfolding sb_histogram_get_pct_intermediate_def Let_def using st by simp
  then show ?thesis using a b c by (simp only: tallied_def wf_histogram_def sb_histogram.simps) simp
qed

lemma tallied_lock: "tallied (h\<lparr>hlock := b\<rparr>) = tallied h"
  by (simp add: tallied_def wf_histogram_def)

lemma tallied_call:
  assumes "tallied h"
  shows "tallied (hist_do c h)"
proof -
  have m: "tallied (merge_intermediate_into_cumulative (h\<lparr>hlock := True\<rparr>))"
    using assms by (intro tallied_merge) (simp add: tallied_lock)
  show ?thesis
  proof (cases c)
    case (Call_update v rng)
    have "0 < SB_HISTOGRAM_NSLOTS" by (simp add: SB_HISTOGRAM_NSLOTS_def)
    then have "unat (r mod of_nat SB_HISTOGRAM_NSLOTS :: u64) < SB_HISTOGRAM_NSLOTS" for r
      by (simp add: SB_HISTOGRAM_NSLOTS_def unat_mod)
    then show ?thesis using assms Call_update
      by (auto simp: sb_histogram_update_def tallied_def wf_histogram_def Let_def split: prod.splits)
  next
    case (Call_pct_intermediate p)
    then show ?thesis using tallied_intermediate [OF assms] by simp
  next
    case (Call_pct_cumulative p)
    then show ?thesis using m by (simp add: sb_histogram_get_pct_cumulative_def Let_def tallied_lock)
  next
    case (Call_pct_checkpoint p)
    then show ?thesis using m
      by (simp add: sb_histogram_get_pct_checkpoint_def Let_def tallied_lock) (simp add: tallied_def wf_histogram_def sum_list_replicate)
  next
    case Call_print
    then show ?thesis using m by (simp add: sb_histogram_print_def Let_def tallied_lock)
  qed
qed

lemma tallied_history: "tallied h \<Longrightarrow> tallied (fold hist_do cs h)"
  by (induction cs arbitrary: h) (simp_all add: tallied_call)

lemma tallied_init:
  assumes "sb_histogram_init True True raw n lo hi = (h, 0)" "cumulative_nevents raw = 0" "0 < n"
  shows "tallied h"
  using assms by (auto simp: sb_histogram_init_def Let_def tallied_def wf_histogram_def wf_slots_def sum_list_replicate)

section \<open>Properties\<close>

text \<open>C11: However the workers' increments interleave with the element-wise fetch-and-zero steps
  of a merge, no event is lost or counted twice: per element, the cumulative count plus what
  is left in the slots grows by exactly the increments made, and so does the event total.
  With no increment in between this is the merge of the code, and the slots end up empty.\<close>

theorem merge_loses_no_update:
  assumes "wf_state n st" "\<forall>a \<in> set as. action_ok n a"
    and "filter (\<lambda>a. \<not> is_inc a) as = merge_program n [0..<SB_HISTOGRAM_NSLOTS]"
  shows "(\<forall>j < n. held j (fold hist_step as st) = held j st + of_nat (length (filter (inc_at j) as))) \<and>
    held_total n (fold hist_step as st) = held_total n st + of_nat (length (filter is_inc as)) \<and>
    (filter is_inc as = [] \<longrightarrow> fold hist_step as st = merge_slots n [0..<SB_HISTOGRAM_NSLOTS] st \<and>
      (\<forall>j < n. col j (fst (fold hist_step as st)) = 0))"
proof -
  have "fold hist_step as st = merge_slots n [0..<SB_HISTOGRAM_NSLOTS] st \<and>
      (\<forall>j < n. col j (fst (fold hist_step as st)) = 0)" if "filter is_inc as = []"
  proof -
    have "filter (\<lambda>a. \<not> is_inc a) as = as" using that by (simp add: filter_empty_conv filter_id_conv)
    then have p: "as = merge_program n [0..<SB_HISTOGRAM_NSLOTS]" using assms(3) by simp
    have "length (fst (fold hist_step as st)) = SB_HISTOGRAM_NSLOTS"
      using actions_conserve [OF assms(1,2)] by (simp add: wf_state_def wf_slots_def)
    then show ?thesis using merge_clears [OF assms(1)] unfolding p
      by (auto simp: merge_slots_program intro!: col_zero)
  qed
  then show ?thesis using actions_conserve [OF assms(1,2)] by blast
qed

theorem merge_loses_no_update_witness:
  "held 0 (fold hist_step (Inc 5 0 # merge_program 1 [0..<SB_HISTOGRAM_NSLOTS] @ [Inc 3 0])
     (replicate SB_HISTOGRAM_NSLOTS [0], [7], 7)) = 9"
proof -
  let ?p = "merge_program 1 [0..<SB_HISTOGRAM_NSLOTS]"
  let ?st = "(replicate SB_HISTOGRAM_NSLOTS [0], [7], 7) :: merge_state"
  let ?as = "Inc 5 0 # ?p @ [Inc 3 0]"
  have f: "filter (\<lambda>a. \<not> is_inc a) ?p = ?p" "filter (inc_at 0) ?p = []"
    by (auto simp: merge_program_def filter_concat filter_id_conv comp_def)
  have "held 0 ?st = 7"
    by (simp add: held_def col_def SB_HISTOGRAM_NSLOTS_def sum_list_replicate)
  moreover have "wf_state 1 ?st" by (simp add: wf_state_def wf_slots_def)
  moreover have "\<forall>a \<in> set ?p. action_ok 1 a" by (intro merge_program_ok) simp
  then have "\<forall>a \<in> set ?as. action_ok 1 a" by (simp add: action_ok_def SB_HISTOGRAM_NSLOTS_def)
  moreover have "filter (\<lambda>a. \<not> is_inc a) ?as = ?p" by (simp only: filter.simps filter_append f) simp
  moreover have "filter (inc_at 0) ?as = [Inc 5 0, Inc 3 0]"
    by (simp only: filter.simps filter_append f) simp
  ultimately show ?thesis
    using merge_loses_no_update [of 1 ?st ?as] by (simp only: less_one) simp
qed


definition sample_histogram :: sb_histogram where
  "sample_histogram = \<lparr>cumulative_array = [1, 0, 3], cumulative_nevents = 4, temp_array = [0, 0, 0],
     interm_slots = replicate SB_HISTOGRAM_NSLOTS [0, 0, 0], array_size = 3, range_min = 1,
     range_max = 4, range_deduct = 0, range_mult = 2, hlock = False\<rparr>"


text \<open>C25: A value of the tracked range is counted in an existing element, and the value that
  element stands for is within half a step of the logarithmic scale of the value itself.\<close>

theorem histogram_bucket_error:
  assumes "(h', 0) = sb_histogram_init True True h n lo hi"
    and "1 < n" "0 < lo" "lo < hi" "lo \<le> v" "v \<le> hi"
  shows "hist_index h' v < n \<and>
    \<bar>ln (slot_value h' (hist_index h' v)) - ln v\<bar> \<le> (ln hi - ln lo) / (2 * real (n - 1))"
proof -
  have h': "array_size h' = n" "range_deduct h' = ln lo" "range_mult h' = real (n - 1) / (ln hi - ln lo)"
    using assms(1) by (simp_all add: sb_histogram_init_def Let_def)
  let ?w = "ln hi - ln lo" and ?x = "(ln v - ln lo) * range_mult h'"
  have w: "0 < ?w" using assms(3,4) by simp
  have m: "0 < range_mult h'" using w assms(2) by (simp add: h')
  have lv: "0 \<le> ln v - ln lo" "ln v - ln lo \<le> ?w" using assms by simp_all
  have x: "0 \<le> ?x" "?x \<le> real (n - 1)"
  proof -
    show "0 \<le> ?x" using lv m by simp
    have "?x \<le> ?w * range_mult h'" using lv m by (intro mult_right_mono) simp_all
    also have "\<dots> = real (n - 1)" using w by (simp add: h')
    finally show "?x \<le> real (n - 1)" .
  qed
  define i where "i = \<lfloor>?x + 0.5\<rfloor>"
  have i: "0 \<le> i" "i < int n" using x assms(2) unfolding i_def by linarith+
  have idx: "hist_index h' v = nat i" using i assms by (simp add: hist_index_def h' i_def Let_def)
  have "\<bar>real_of_int i - ?x\<bar> \<le> 1 / 2" unfolding i_def by linarith
  then have "\<bar>real_of_int i - ?x\<bar> / range_mult h' \<le> (1 / 2) / range_mult h'"
    using m by (intro divide_right_mono) simp_all
  moreover have "ln (slot_value h' (nat i)) - ln v = (real_of_int i - ?x) / range_mult h'"
    using i m by (simp add: slot_value_def h'(2) diff_divide_distrib)
  ultimately have "\<bar>ln (slot_value h' (nat i)) - ln v\<bar> \<le> (1 / 2) / range_mult h'"
    using m by (simp only: abs_divide abs_of_pos)
  also have "\<dots> = ?w / (2 * real (n - 1))" by (simp add: h')
  finally show ?thesis using i idx by simp
qed

theorem histogram_bucket_error_witness:
  "hist_index (fst (sb_histogram_init True True sample_histogram 1024 1 100)) 7 < 1024"
  using histogram_bucket_error
    [of "fst (sb_histogram_init True True sample_histogram 1024 1 100)" sample_histogram 1024 1 100 7]
  by (simp add: sb_histogram_init_def Let_def)

text \<open>Printing an empty histogram returns with the histogram's write lock held, while
  printing one that holds an event releases it.\<close>

theorem histogram_print_lock:
  "hlock (fst (sb_histogram_print h)) \<longleftrightarrow>
     list_all (\<lambda>a. a = 0) (cumulative_array (merge_intermediate_into_cumulative (h\<lparr>hlock := True\<rparr>)))"
proof -
  let ?h = "merge_intermediate_into_cumulative (h\<lparr>hlock := True\<rparr>)"
  have "foldl (\<lambda>m a. if a > m then a else m) x xs = 0 \<longleftrightarrow> x = 0 \<and> (\<forall>a \<in> set xs. a = 0)"
    for x :: u64 and xs
    by (induction xs arbitrary: x) (auto simp: word_gt_0)
  then have "max_count (cumulative_array ?h) = 0 \<longleftrightarrow> (\<forall>a \<in> set (cumulative_array ?h). a = 0)"
    by (simp add: max_count_def)
  moreover have "hlock ?h" by (simp add: merge_intermediate_into_cumulative_def split: prod.splits)
  ultimately show ?thesis by (simp add: sb_histogram_print_def Let_def list_all_iff)
qed

end
