(* ===== verification/Barrier.thy ===== *)
theory Barrier
  imports Prelude
begin

text \<open>
  The thread barrier (\<open>sb_barrier.c\<close>, \<open>sb_barrier.h\<close>).  \<open>sb_barrier_wait\<close> holds the barrier's
  mutex except inside \<open>pthread_cond_wait\<close>, so a call is at most three kinds of atomic steps:
  the arrival, wake-ups that find the generation unchanged, and the wake-up that returns.  A thread
  sleeps on the condition variable until a broadcast or a spurious wake-up.
  The result of the callback is an argument of the arrival: \<open>None\<close> when there is none.
\<close>

section \<open>The barrier\<close>

record sb_barrier =
  count :: u32
  init_count :: u32
  serial :: u32
  error :: bool

definition SB_BARRIER_SERIAL_THREAD :: int where "SB_BARRIER_SERIAL_THREAD = 1"

text \<open>\<open>pthread_ok\<close> tells whether the mutex and the condition variable can be initialised.\<close>

definition sb_barrier_init :: "bool \<Rightarrow> sb_barrier \<Rightarrow> u32 \<Rightarrow> sb_barrier \<times> nat" where
  "sb_barrier_init pthread_ok b n =
     (if n = 0 then (b, 1)
      else if \<not> pthread_ok then (b, 1)
      else (b\<lparr>init_count := n, count := n, serial := 0, error := False\<rparr>, 0))"

text \<open>The code from locking the mutex to the return or to \<open>pthread_cond_wait\<close>.\<close>

text \<open>The last thread returns, having called \<open>pthread_cond_broadcast\<close> or not.\<close>

datatype arrival = Returns bool int | Waits u32

definition sb_barrier_arrive :: "int option \<Rightarrow> sb_barrier \<Rightarrow> sb_barrier \<times> arrival" where
  "sb_barrier_arrive callback b =
     (let b = b\<lparr>count := count b - 1\<rparr>
      in if count b = 0 then
           let b = b\<lparr>serial := serial b + 1\<rparr>;
               b = b\<lparr>count := init_count b\<rparr>;
               broadcast = True
           in case callback of
                None \<Rightarrow> (b, Returns broadcast SB_BARRIER_SERIAL_THREAD)
              | Some r \<Rightarrow> (if r \<noteq> 0 then (b\<lparr>error := True\<rparr>, Returns broadcast (- 1))
                           else (b, Returns broadcast SB_BARRIER_SERIAL_THREAD))
         else (b, Waits (serial b)))"

text \<open>A return of \<open>pthread_cond_wait\<close> in a thread that remembers \<open>s\<close>: \<open>None\<close> when the loop
  waits again.\<close>

definition sb_barrier_wake :: "sb_barrier \<Rightarrow> u32 \<Rightarrow> int option" where
  "sb_barrier_wake b s = (if s = serial b then None else Some (if error b then - 1 else 0))"

section \<open>Threads at a barrier\<close>

text \<open>The threads inside \<open>sb_barrier_wait\<close> with the serial they remember, and those of them that sleep on the
  condition variable.  A wake-up needs a thread that does not sleep any more; when it finds
  the generation unchanged, the thread goes to sleep again.  Three components are history: the number of arrivals, the number of completed generations, and the generation
  each waiting thread belongs to.\<close>

record bsys =
  bar :: sb_barrier
  inside :: "nat \<Rightarrow> u32 option"
  asleep :: "nat set"
  arrived :: nat
  generation :: nat
  gen_of :: "nat \<Rightarrow> nat option"

datatype blabel = Arrive nat "int option" arrival | Spurious nat | Wake nat "int option"

inductive bstep :: "bsys \<Rightarrow> blabel \<Rightarrow> bsys \<Rightarrow> bool" where
  arrive_last: "inside s t = None \<Longrightarrow> sb_barrier_arrive cb (bar s) = (b, Returns bc r) \<Longrightarrow>
    bstep s (Arrive t cb (Returns bc r))
      (s\<lparr>bar := b, asleep := (if bc then {} else asleep s), arrived := arrived s + 1, generation := generation s + 1\<rparr>)"
| arrive_wait: "inside s t = None \<Longrightarrow> sb_barrier_arrive cb (bar s) = (b, Waits m) \<Longrightarrow>
    bstep s (Arrive t cb (Waits m))
      (s\<lparr>bar := b, arrived := arrived s + 1, inside := (inside s)(t \<mapsto> m), asleep := insert t (asleep s),
         gen_of := (gen_of s)(t \<mapsto> generation s)\<rparr>)"
| spurious: "t \<in> asleep s \<Longrightarrow> bstep s (Spurious t) (s\<lparr>asleep := asleep s - {t}\<rparr>)"
| wake_again: "inside s t = Some m \<Longrightarrow> t \<notin> asleep s \<Longrightarrow> sb_barrier_wake (bar s) m = None \<Longrightarrow>
    bstep s (Wake t None) (s\<lparr>asleep := insert t (asleep s)\<rparr>)"
| wake_return: "inside s t = Some m \<Longrightarrow> t \<notin> asleep s \<Longrightarrow> sb_barrier_wake (bar s) m = Some r \<Longrightarrow>
    bstep s (Wake t (Some r)) (s\<lparr>inside := (inside s)(t := None), gen_of := (gen_of s)(t := None)\<rparr>)"

inductive_cases wake_returnE: "bstep s (Wake t (Some r)) s'"

inductive breach :: "u32 \<Rightarrow> bsys \<Rightarrow> bool" where
  start: "sb_barrier_init True b n = (b', 0) \<Longrightarrow>
    breach n \<lparr>bar = b', inside = \<lambda>_. None, asleep = {}, arrived = 0, generation = 0, gen_of = \<lambda>_. None\<rparr>"
| step: "breach n s \<Longrightarrow> bstep s l s' \<Longrightarrow> breach n s'"

section \<open>Invariant\<close>

definition waiting_now :: "bsys \<Rightarrow> nat set" where
  "waiting_now s = {t. gen_of s t = Some (generation s)}"

text \<open>A thread that sleeps waits for the serial to change.\<close>

definition sleepers_ok :: "bsys \<Rightarrow> bool" where
  "sleepers_ok s \<longleftrightarrow> (\<forall>t\<in>asleep s. inside s t = Some (serial (bar s)))"

definition binv :: "u32 \<Rightarrow> bsys \<Rightarrow> bool" where
  "binv n s \<longleftrightarrow> 0 < unat n \<and> init_count (bar s) = n \<and>
     0 < unat (count (bar s)) \<and> unat (count (bar s)) \<le> unat n \<and>
     arrived s + unat (count (bar s)) = (generation s + 1) * unat n \<and>
     serial (bar s) = of_nat (generation s) \<and>
     (\<forall>t. inside s t = map_option of_nat (gen_of s t)) \<and>
     (\<forall>t g. gen_of s t = Some g \<longrightarrow> g \<le> generation s) \<and> sleepers_ok s \<and>
     finite (waiting_now s) \<and> card (waiting_now s) + unat (count (bar s)) = unat n"

lemma unat_dec: "w \<noteq> 0 \<Longrightarrow> unat (w - 1 :: u32) = unat w - 1"
  by (metis unat_minus_one)

lemma binv_start:
  assumes "sb_barrier_init True b n = (b', 0)"
  shows "binv n \<lparr>bar = b', inside = \<lambda>_. None, asleep = {}, arrived = 0, generation = 0, gen_of = \<lambda>_. None\<rparr>"
  using assms by (auto simp: sb_barrier_init_def binv_def waiting_now_def sleepers_ok_def unat_gt_0 split: if_splits)

lemma arrive_last_state:
  assumes "sb_barrier_arrive cb b = (b', Returns bc r)"
  shows "bc \<and> count b - 1 = 0 \<and> serial b' = serial b + 1 \<and> count b' = init_count b \<and>
    init_count b' = init_count b \<and>
    error b' = (error b \<or> (cb \<noteq> None \<and> cb \<noteq> Some 0)) \<and>
    r = (if cb \<noteq> None \<and> cb \<noteq> Some 0 then - 1 else 1)"
  using assms
  by (auto simp: sb_barrier_arrive_def Let_def SB_BARRIER_SERIAL_THREAD_def
      split: if_splits option.splits)

lemma arrive_wait_state:
  assumes "sb_barrier_arrive cb b = (b', Waits m)"
  shows "count b - 1 \<noteq> 0 \<and> b' = b\<lparr>count := count b - 1\<rparr> \<and> m = serial b"
  using assms by (auto simp: sb_barrier_arrive_def Let_def split: if_splits option.splits)

lemma binv_sleepers: "binv n s \<Longrightarrow> \<forall>t\<in>asleep s. inside s t = Some (serial (bar s))"
  unfolding binv_def sleepers_ok_def by blast

lemma binv_step [inv_intros]:
  assumes "binv n s" "bstep s l s'"
  shows "binv n s'"
  using assms(2,1)
proof cases
  case (arrive_last t cb b bc r)
  have sl: "sleepers_ok s'" using arrive_last_state [OF arrive_last(4)] by (simp add: sleepers_ok_def arrive_last(2))
  note a = arrive_last_state [OF arrive_last(4)]
  have inv: "binv n s" by fact
  have c: "unat (count (bar s)) = 1"
  proof -
    have "count (bar s) = 1" using a by simp
    then show ?thesis by simp
  qed
  have none: "waiting_now s' = {}"
  proof -
    have "gen_of s t' \<noteq> Some (generation s + 1)" for t'
      using inv unfolding binv_def by (metis Suc_eq_plus1 Suc_n_not_le_n)
    then show ?thesis by (auto simp: waiting_now_def arrive_last(2))
  qed
  from inv a c none sl show ?thesis
    unfolding binv_def arrive_last(2)
    by (auto simp: waiting_now_def arrive_last(2) le_Suc_eq)
next
  case (arrive_wait t cb b m)
  note a = arrive_wait_state [OF arrive_wait(4)]
  have inv: "binv n s" by fact
  have c: "unat (count (bar s) - 1) = unat (count (bar s)) - 1" "0 < unat (count (bar s) - 1)"
  proof -
    have "count (bar s) \<noteq> 0" using inv by (auto simp: binv_def)
    then show "unat (count (bar s) - 1) = unat (count (bar s)) - 1" by (rule unat_dec)
    show "0 < unat (count (bar s) - 1)" using a by (simp add: unat_gt_0)
  qed
  have "gen_of s t = None" using inv arrive_wait(3) by (auto simp: binv_def)
  then have "waiting_now s' = insert t (waiting_now s)" "t \<notin> waiting_now s"
    by (auto simp: waiting_now_def arrive_wait(2))
  moreover have "sleepers_ok s'" using binv_sleepers [OF inv] a by (simp add: sleepers_ok_def arrive_wait(2))
  ultimately show ?thesis using inv a c
    unfolding binv_def by (auto simp: arrive_wait(2))
next
  case (spurious t)
  have inv: "binv n s" by fact
  have "waiting_now s' = waiting_now s" by (simp add: waiting_now_def spurious(2))
  moreover have "sleepers_ok s'" using binv_sleepers [OF inv] by (simp add: sleepers_ok_def spurious(2))
  ultimately show ?thesis using inv unfolding binv_def by (simp add: spurious(2))
next
  case (wake_again t m)
  have inv: "binv n s" by fact
  have "waiting_now s' = waiting_now s" by (simp add: waiting_now_def wake_again(2))
  moreover have "m = serial (bar s)" using wake_again(5) by (simp add: sb_barrier_wake_def split: if_splits)
  then have "sleepers_ok s'" using binv_sleepers [OF inv] wake_again(3) by (simp add: sleepers_ok_def wake_again(2))
  ultimately show ?thesis using inv unfolding binv_def by (simp add: wake_again(2))
next
  case (wake_return t m r)
  have inv: "binv n s" by fact
  have "m \<noteq> serial (bar s)" using wake_return(5) by (auto simp: sb_barrier_wake_def)
  then have "gen_of s t \<noteq> Some (generation s)"
    using inv wake_return(3) by (auto simp: binv_def)
  then have "waiting_now s' = waiting_now s" by (auto simp: waiting_now_def wake_return(2))
  moreover have "sleepers_ok s'" using binv_sleepers [OF inv] wake_return(4) by (auto simp: sleepers_ok_def wake_return(2))
  ultimately show ?thesis using inv unfolding binv_def by (auto simp: wake_return(2))
qed

lemma breach_inv: "breach n s \<Longrightarrow> binv n s"
  by (induction rule: breach.induct) (auto intro: binv_start binv_step)

text \<open>The flag is never cleared.\<close>

lemma error_sticky: "bstep s l s' \<Longrightarrow> error (bar s) \<Longrightarrow> error (bar s')"
  by (induction rule: bstep.induct) (auto dest!: arrive_last_state arrive_wait_state)

inductive bsteps :: "bsys \<Rightarrow> blabel list \<Rightarrow> bsys \<Rightarrow> bool" where
  bsteps_nil: "bsteps s [] s"
| bsteps_cons: "bstep s l s' \<Longrightarrow> bsteps s' ls s'' \<Longrightarrow> bsteps s (l # ls) s''"

lemma error_sticky_steps: "bsteps s ls s' \<Longrightarrow> error (bar s) \<Longrightarrow> error (bar s')"
  by (induction rule: bsteps.induct) (auto dest: error_sticky)

lemma breach_steps: "bsteps s ls s' \<Longrightarrow> breach n s \<Longrightarrow> breach n s'"
  by (induction rule: bsteps.induct) (auto intro: breach.step)

section \<open>A barrier for two threads\<close>

text \<open>The states of a run in which thread 0 waits and thread 1, whose callback fails, completes
  the generation.\<close>

definition demo0 :: bsys where
  "demo0 = \<lparr>bar = \<lparr>count = 2, init_count = 2, serial = 0, error = False\<rparr>, inside = \<lambda>_. None,
     asleep = {}, arrived = 0, generation = 0, gen_of = \<lambda>_. None\<rparr>"

definition demo1 :: bsys where
  "demo1 = demo0\<lparr>bar := \<lparr>count = 1, init_count = 2, serial = 0, error = False\<rparr>, arrived := 1,
     inside := [0 \<mapsto> 0], asleep := {0}, gen_of := [0 \<mapsto> 0]\<rparr>"

definition demo2 :: bsys where
  "demo2 = demo1\<lparr>bar := \<lparr>count = 2, init_count = 2, serial = 1, error = True\<rparr>, asleep := {}, arrived := 2,
     generation := 1\<rparr>"

lemma demo_reach: "breach 2 demo0" "breach 2 demo1"
proof -
  show r: "breach 2 demo0"
    using breach.start [of "bar demo0" 2 "bar demo0"] by (simp add: sb_barrier_init_def demo0_def)
  have "bstep demo0 (Arrive 0 None (Waits 0)) demo1"
    using bstep.arrive_wait [of demo0 0 None "bar demo1" 0]
    by (simp add: demo0_def demo1_def sb_barrier_arrive_def Let_def)
  with r show "breach 2 demo1" by (rule breach.step)
qed

lemma demo_fail: "bstep demo1 (Arrive 1 (Some 5) (Returns True (- 1))) demo2"
  using bstep.arrive_last [of demo1 1 "Some 5" "bar demo2" True "- 1"]
  by (simp add: demo0_def demo1_def demo2_def sb_barrier_arrive_def Let_def numeral_2_eq_2)

section \<open>Properties\<close>

text \<open>C6: A thread inside \<open>sb_barrier_wait\<close> is awake and can return exactly when its generation is complete,
  that is when the full number of threads has arrived in it: nobody is released early, a
  spurious wake-up does not release anyone, and no wake-up is lost, since the broadcast of the last
  thread wakes all that sleep.  (The 32-bit serial is taken not to wrap.)\<close>

theorem barrier_releases_complete_generation:
  assumes "breach n s" "generation s < 2 ^ 32" "gen_of s t = Some g"
  shows "(\<exists>r s'. bstep s (Wake t (Some r)) s') \<longleftrightarrow> (g + 1) * unat n \<le> arrived s"
proof -
  have inv: "binv n s" using assms(1) by (rule breach_inv)
  have g: "g \<le> generation s" "inside s t = Some (of_nat g)" using inv assms(3) by (auto simp: binv_def)
  have "(of_nat g :: u32) = of_nat (generation s) \<longleftrightarrow> g = generation s"
  proof
    assume "(of_nat g :: u32) = of_nat (generation s)"
    then have "unat (of_nat g :: u32) = unat (of_nat (generation s) :: u32)" by simp
    then show "g = generation s" using assms(2) g(1) by (simp add: unat_of_nat_small)
  qed simp
  then have wake: "sb_barrier_wake (bar s) (of_nat g) \<noteq> None \<longleftrightarrow> g \<noteq> generation s"
    using inv by (simp add: sb_barrier_wake_def binv_def)
  moreover have "t \<notin> asleep s" if "sb_barrier_wake (bar s) (of_nat g) \<noteq> None"
    using binv_sleepers [OF inv] g(2) that by (auto simp: sb_barrier_wake_def)
  ultimately have "(\<exists>r s'. bstep s (Wake t (Some r)) s') \<longleftrightarrow> sb_barrier_wake (bar s) (of_nat g) \<noteq> None"
    using g(2) by (auto elim!: wake_returnE intro: bstep.wake_return)
  also have "\<dots> \<longleftrightarrow> g < generation s" using wake g(1) by auto
  also have "\<dots> \<longleftrightarrow> (g + 1) * unat n \<le> arrived s"
  proof
    assume "g < generation s"
    then have "(g + 1) * unat n \<le> generation s * unat n" by (intro mult_le_mono1) simp
    with inv show "(g + 1) * unat n \<le> arrived s" by (simp add: binv_def)
  next
    assume le: "(g + 1) * unat n \<le> arrived s"
    have "arrived s < (generation s + 1) * unat n" using inv by (simp add: binv_def)
    with le have "(g + 1) * unat n < (generation s + 1) * unat n" by linarith
    then show "g < generation s" by simp
  qed
  finally show ?thesis .
qed

theorem barrier_releases_complete_generation_witness:
  "\<not> (\<exists>r s'. bstep demo1 (Wake 0 (Some r)) s')"
  using barrier_releases_complete_generation [OF demo_reach(2), of 0 0]
  by (simp add: demo1_def demo0_def)

text \<open>In every reachable state the number of threads blocked in the current generation plus
  the remaining count is the barrier's size, so the last arrival completes a generation and
  arrivals and generations stay in step.\<close>

theorem barrier_counts:
  assumes "breach n s"
  shows "card (waiting_now s) + unat (count (bar s)) = unat n \<and>
    generation s = arrived s div unat n \<and> card (waiting_now s) = arrived s mod unat n"
proof -
  have inv: "binv n s" using assms by (rule breach_inv)
  then have "arrived s = generation s * unat n + card (waiting_now s)"
    "card (waiting_now s) < unat n" by (auto simp: binv_def)
  with inv show ?thesis by (simp add: binv_def)
qed

theorem barrier_counts_witness:
  "card (waiting_now demo1) = 1"
  using barrier_counts [OF demo_reach(2)] by (simp add: demo1_def demo0_def)

text \<open>The error of a failed callback is never cleared: after one failure every later thread
  that waits at the barrier gets -1, also in generations whose own callback succeeded and
  whose last thread got SB_BARRIER_SERIAL_THREAD.\<close>

theorem barrier_error_sticky:
  assumes "bstep s (Arrive t (Some e) (Returns bc r)) s1" "e \<noteq> 0"
    and "bsteps s1 ls s2" "bstep s2 (Wake t' (Some r')) s3"
  shows "r = - 1 \<and> r' = - 1"
proof -
  have "r = - 1 \<and> error (bar s1)"
    using assms(1,2) by cases (auto dest!: arrive_last_state)
  moreover from this have "error (bar s2)" using error_sticky_steps [OF assms(3)] by blast
  ultimately show ?thesis
    using assms(4) by (auto elim!: wake_returnE simp: sb_barrier_wake_def split: if_splits)
qed

theorem barrier_error_sticky_witness:
  "\<exists>s. bstep demo2 (Wake 0 (Some (- 1))) s"
proof -
  obtain r s where w: "bstep demo2 (Wake 0 (Some r)) s"
    using bstep.wake_return [of demo2 0 0]
    by (auto simp: demo0_def demo1_def demo2_def sb_barrier_wake_def)
  then have "r = - 1" using barrier_error_sticky [OF demo_fail _ bsteps_nil w] by simp
  with w show ?thesis by blast
qed

end
