(* ===== verification/Logger.thy ===== *)
theory Logger
  imports Histogram
begin

text \<open>
  The global variables of \<open>sysbench.h\<close> that the components share, and the logger
  (\<open>sb_logger.c\<close>, \<open>sb_logger.h\<close>): chains of message handlers per message type, the text
  handler with its suppression of repeated messages, and the operation handler that sets up
  the latency histogram.  What \<open>printf\<close> writes is collected in the state, one item per call.
  The variadic functions take the text their format expands to, \<open>None\<close> when \<open>vsnprintf\<close>
  fails.
\<close>

section \<open>Global variables\<close>

record sb_globals =
  g_error :: int
  g_argc :: int
  g_argv :: "string option list"
  g_tx_rate :: u32
  g_max_events :: u64
  g_max_time_ns :: u64
  g_exec_mutex :: bool
  g_testname :: "string option"
  g_cmdname :: "string option"
  g_threads :: u32
  g_threads_running :: u32
  g_report_interval :: u32
  g_percentile :: u32
  g_histogram :: bool
  g_checkpoints :: "u32 list"
  g_n_checkpoints :: u32
  g_debug :: bool
  g_timeout :: u32
  g_validate :: bool
  g_verbosity :: u8
  g_concurrency :: int
  g_force_shutdown :: bool
  g_forced_shutdown_in_progress :: bool
  g_warmup_time :: int
  g_nevents :: u64
  g_luajit_cmd :: "string option"

text \<open>\<open>MAX_CHECKPOINTS\<close>, and the variables as the loader leaves them.\<close>

definition MAX_CHECKPOINTS :: nat where "MAX_CHECKPOINTS = 256"

definition globals_static :: sb_globals where
  "globals_static = \<lparr>g_error = 0, g_argc = 0, g_argv = [], g_tx_rate = 0, g_max_events = 0,
     g_max_time_ns = 0, g_exec_mutex = False, g_testname = None, g_cmdname = None, g_threads = 0,
     g_threads_running = 0, g_report_interval = 0, g_percentile = 0, g_histogram = False,
     g_checkpoints = replicate MAX_CHECKPOINTS 0, g_n_checkpoints = 0, g_debug = False,
     g_timeout = 0, g_validate = False, g_verbosity = 0, g_concurrency = 0,
     g_force_shutdown = False, g_forced_shutdown_in_progress = False, g_warmup_time = 0,
     g_nevents = 0, g_luajit_cmd = None\<rparr>"

section \<open>Messages and handlers\<close>

datatype log_msg_type_t = LOG_MSG_TYPE_MIN | LOG_MSG_TYPE_TEXT | LOG_MSG_TYPE_OPER | LOG_MSG_TYPE_MAX

fun type_index :: "log_msg_type_t \<Rightarrow> nat" where
  "type_index LOG_MSG_TYPE_MIN = 0"
| "type_index LOG_MSG_TYPE_TEXT = 1"
| "type_index LOG_MSG_TYPE_OPER = 2"
| "type_index LOG_MSG_TYPE_MAX = 3"

datatype log_msg_priority_t =
  LOG_FATAL | LOG_ALERT | LOG_WARNING | LOG_NOTICE | LOG_INFO | LOG_DEBUG | LOG_MAX

fun priority :: "log_msg_priority_t \<Rightarrow> nat" where
  "priority LOG_FATAL = 0"
| "priority LOG_ALERT = 1"
| "priority LOG_WARNING = 2"
| "priority LOG_NOTICE = 3"
| "priority LOG_INFO = 4"
| "priority LOG_DEBUG = 5"
| "priority LOG_MAX = 6"

record log_msg_text_t =
  msg_priority :: log_msg_priority_t
  msg_text :: string
  msg_flags :: nat

datatype log_msg_t = Text_msg log_msg_text_t | Oper_msg

definition LOG_MSG_TEXT_ALLOW_DUPLICATES :: nat where "LOG_MSG_TEXT_ALLOW_DUPLICATES = 1"
definition TEXT_BUFFER_SIZE :: nat where "TEXT_BUFFER_SIZE = 4096"
definition OPER_LOG_GRANULARITY :: nat where "OPER_LOG_GRANULARITY = 1024"
definition OPER_LOG_MIN_VALUE :: real where "OPER_LOG_MIN_VALUE = 1 / 1000"
definition OPER_LOG_MAX_VALUE :: real where "OPER_LOG_MAX_VALUE = 100000"

text \<open>The two built-in handlers, and their argument tables.\<close>

datatype log_handler = Text_handler | Oper_handler

definition text_handler_args :: "sb_arg list" where
  "text_handler_args =
    [\<lparr>arg_name = ''verbosity'', arg_desc = ''verbosity level {5 - debug, 0 - only critical messages}'',
      arg_value = Some ''3'', arg_type = SB_ARG_TYPE_INT, arg_validate = None\<rparr>]"

definition oper_handler_args :: "sb_arg list" where
  "oper_handler_args =
    [\<lparr>arg_name = ''percentile'',
      arg_desc = ''percentile to calculate in latency statistics (1-100). Use the special value of 0 to disable percentile calculations'',
      arg_value = Some ''95'', arg_type = SB_ARG_TYPE_INT, arg_validate = None\<rparr>,
     \<lparr>arg_name = ''histogram'', arg_desc = ''print latency histogram in report'',
      arg_value = Some ''off'', arg_type = SB_ARG_TYPE_BOOL, arg_validate = None\<rparr>]"

fun handler_args :: "log_handler \<Rightarrow> sb_arg list" where
  "handler_args Text_handler = text_handler_args"
| "handler_args Oper_handler = oper_handler_args"

text \<open>The output: a text with its prefix, the notice about repetitions, anything else.\<close>

datatype out_item = Out_text string string | Out_repeated u32 | Out_line string

record log_state =
  l_handlers :: "log_handler list list"
  l_initialized :: bool
  text_cnt :: u32
  text_buf :: string
  l_out :: "out_item list"
  l_globals :: sb_globals
  l_opts :: options
  l_latency :: sb_histogram

definition printf :: "out_item \<Rightarrow> log_state \<Rightarrow> log_state" where
  "printf l s = s\<lparr>l_out := l_out s @ [l]\<rparr>"

definition get_msg_prefix :: "log_msg_priority_t \<Rightarrow> string" where
  "get_msg_prefix p = (case p of
     LOG_FATAL \<Rightarrow> ''FATAL: ''
   | LOG_ALERT \<Rightarrow> ''ALERT: ''
   | LOG_WARNING \<Rightarrow> ''WARNING: ''
   | LOG_DEBUG \<Rightarrow> ''DEBUG: ''
   | _ \<Rightarrow> [])"

section \<open>The text handler\<close>

text \<open>\<open>None\<close> is the \<open>exit\<close> of a malformed integer option.  The value goes through an unsigned
  char before it is checked.\<close>

definition text_handler_init :: "log_state \<Rightarrow> (log_state \<times> nat) option" where
  "text_handler_init s =
     (case sb_get_value_int (l_opts s) ''verbosity'' of
        None \<Rightarrow> None
      | Some v \<Rightarrow>
          (let s = s\<lparr>l_globals := (l_globals s)\<lparr>g_verbosity := word_of_int v\<rparr>\<rparr>
           in if unat (g_verbosity (l_globals s)) > priority LOG_DEBUG
              then Some (printf (Out_line ''Invalid value for verbosity'') s, 1)
              else Some (s\<lparr>text_cnt := 0, text_buf := []\<rparr>, 0)))"

definition text_handler_process :: "log_msg_text_t \<Rightarrow> log_state \<Rightarrow> log_state" where
  "text_handler_process m s =
     (if priority (msg_priority m) > unat (g_verbosity (l_globals s)) then s
      else if msg_flags m AND LOG_MSG_TEXT_ALLOW_DUPLICATES = 0 then
        (if text_buf s = msg_text m then s\<lparr>text_cnt := text_cnt s + 1\<rparr>
         else
           let s = (if text_cnt s > 0 then printf (Out_repeated (text_cnt s)) s else s);
               s = s\<lparr>text_cnt := 0, text_buf := msg_text m\<rparr>
           in printf (Out_text (get_msg_prefix (msg_priority m)) (msg_text m)) s)
      else printf (Out_text (get_msg_prefix (msg_priority m)) (msg_text m)) s)"

section \<open>The operation handler\<close>

definition oper_handler_init :: "bool \<Rightarrow> bool \<Rightarrow> log_state \<Rightarrow> (log_state \<times> nat) option" where
  "oper_handler_init calloc_ok malloc_ok s =
     (case sb_get_value_int (l_opts s) ''percentile'' of
        None \<Rightarrow> None
      | Some tmp \<Rightarrow>
          if tmp < 0 \<or> tmp > 100 then Some (printf (Out_line ''Invalid value for --percentile'') s, 1)
          else
            let g = (l_globals s)\<lparr>g_percentile := word_of_int tmp,
                      g_histogram := sb_get_value_flag (l_opts s) ''histogram''\<rparr>;
                s = s\<lparr>l_globals := g\<rparr>
            in if g_percentile g = 0 \<and> g_histogram g
               then Some (printf (Out_line ''--histogram cannot be used with --percentile=0'') s, 1)
               else
                 let (h, rc) = sb_histogram_init calloc_ok malloc_ok (l_latency s) OPER_LOG_GRANULARITY
                       OPER_LOG_MIN_VALUE OPER_LOG_MAX_VALUE
                 in Some (s\<lparr>l_latency := h\<rparr>, if rc \<noteq> 0 then 1 else 0))"

definition oper_handler_done :: "log_state \<Rightarrow> log_state" where
  "oper_handler_done s = s\<lparr>l_latency := sb_histogram_done (l_latency s)\<rparr>"

text \<open>The operation tables of the handlers.\<close>

definition handler_init :: "bool \<Rightarrow> bool \<Rightarrow> log_handler \<Rightarrow> log_state \<Rightarrow> (log_state \<times> nat) option" where
  "handler_init calloc_ok malloc_ok lh s = (case lh of
     Text_handler \<Rightarrow> text_handler_init s
   | Oper_handler \<Rightarrow> oper_handler_init calloc_ok malloc_ok s)"

definition handler_process :: "log_handler \<Rightarrow> log_msg_t \<Rightarrow> log_state \<Rightarrow> log_state" where
  "handler_process lh m s = (case (lh, m) of
     (Text_handler, Text_msg t) \<Rightarrow> text_handler_process t s
   | _ \<Rightarrow> s)"

definition handler_done :: "log_handler \<Rightarrow> log_state \<Rightarrow> log_state" where
  "handler_done lh s = (case lh of Text_handler \<Rightarrow> s | Oper_handler \<Rightarrow> oper_handler_done s)"

section \<open>The logger\<close>

definition log_add_handler ::
  "file_system \<Rightarrow> log_msg_type_t \<Rightarrow> log_handler \<Rightarrow> log_state \<Rightarrow> log_state \<times> nat" where
  "log_add_handler fs type lh s =
     (if type = LOG_MSG_TYPE_MIN \<or> type = LOG_MSG_TYPE_MAX then (s, 1)
      else
        let s = s\<lparr>l_opts := fst (sb_register_arg_set fs (l_opts s) (handler_args lh))\<rparr>
        in (s\<lparr>l_handlers := (l_handlers s)[type_index type := l_handlers s ! type_index type @ [lh]]\<rparr>, 0))"

definition log_register :: "file_system \<Rightarrow> log_state \<Rightarrow> log_state" where
  "log_register fs s =
     (let s = s\<lparr>l_handlers := replicate (type_index LOG_MSG_TYPE_MAX) []\<rparr>;
          (s, _) = log_add_handler fs LOG_MSG_TYPE_TEXT Text_handler s;
          (s, _) = log_add_handler fs LOG_MSG_TYPE_OPER Oper_handler s
      in s)"

text \<open>\<open>log_init\<close>: the handlers of all types in order, up to the first that fails.\<close>

fun init_handlers :: "bool \<Rightarrow> bool \<Rightarrow> log_handler list \<Rightarrow> log_state \<Rightarrow> (log_state \<times> nat) option" where
  "init_handlers c m [] s = Some (s, 0)"
| "init_handlers c m (lh # hs) s =
     (case handler_init c m lh s of
        None \<Rightarrow> None
      | Some (s, rc) \<Rightarrow> if rc \<noteq> 0 then Some (s, 1) else init_handlers c m hs s)"

definition log_init :: "bool \<Rightarrow> bool \<Rightarrow> log_state \<Rightarrow> (log_state \<times> nat) option" where
  "log_init calloc_ok malloc_ok s =
     (case init_handlers calloc_ok malloc_ok (concat (l_handlers s)) s of
        None \<Rightarrow> None
      | Some (s, rc) \<Rightarrow> if rc \<noteq> 0 then Some (s, 1) else Some (s\<lparr>l_initialized := True\<rparr>, 0))"

definition log_done :: "log_state \<Rightarrow> log_state" where
  "log_done s = (fold handler_done (concat (l_handlers s)) s)\<lparr>l_initialized := False\<rparr>"

definition log_print_help :: "log_state \<Rightarrow> log_state" where
  "log_print_help s =
     fold (\<lambda>lh s. fold (\<lambda>l. printf (Out_line l))
             (case sb_print_options (handler_args lh) of None \<Rightarrow> [] | Some ls \<Rightarrow> ls) s)
       (concat (l_handlers s)) (printf (Out_line ''Log options:'') s)"

definition log_msg :: "log_msg_t \<Rightarrow> log_state \<Rightarrow> log_state" where
  "log_msg m s =
     fold (\<lambda>lh. handler_process lh m)
       (l_handlers s ! type_index (case m of Text_msg _ \<Rightarrow> LOG_MSG_TYPE_TEXT | Oper_msg \<Rightarrow> LOG_MSG_TYPE_OPER)) s"

text \<open>\<open>snprintf\<close> into a buffer with \<open>room\<close> bytes: the characters that fit before the NUL.\<close>

definition snprintf :: "nat \<Rightarrow> string \<Rightarrow> string" where
  "snprintf room s = take (room - 1) s"

text \<open>The buffer \<open>log_text\<close> builds: the text, cut to the buffer, and a newline if there is room.\<close>

definition text_buffer :: "string \<Rightarrow> string option \<Rightarrow> string" where
  "text_buffer prefix formatted =
     (let clen = length prefix;
          maxlen = TEXT_BUFFER_SIZE - clen;
          body = snprintf maxlen (case formatted of None \<Rightarrow> [] | Some t \<Rightarrow> t);
          n = (case formatted of None \<Rightarrow> maxlen
               | Some t \<Rightarrow> if length t \<ge> maxlen then maxlen else length t);
          maxlen = maxlen - n
      in prefix @ body @ snprintf maxlen [CHR 0x0A])"

definition emit :: "log_msg_priority_t \<Rightarrow> string \<Rightarrow> nat \<Rightarrow> log_state \<Rightarrow> log_state" where
  "emit p buf flags s =
     (if \<not> l_initialized s then printf (Out_text (get_msg_prefix p) buf) s
      else log_msg (Text_msg \<lparr>msg_priority = p, msg_text = buf, msg_flags = flags\<rparr>) s)"

definition log_text :: "log_msg_priority_t \<Rightarrow> string option \<Rightarrow> log_state \<Rightarrow> log_state" where
  "log_text p formatted s = emit p (text_buffer [] formatted) 0 s"

text \<open>\<open>log_timestamp\<close>: \<open>stamp\<close> is what \<open>"[ %.0fs ] "\<close> expands to.\<close>

definition log_timestamp :: "log_msg_priority_t \<Rightarrow> string \<Rightarrow> string option \<Rightarrow> log_state \<Rightarrow> log_state" where
  "log_timestamp p stamp formatted s =
     emit p (text_buffer stamp formatted) LOG_MSG_TEXT_ALLOW_DUPLICATES s"

text \<open>\<open>log_errno\<close>: \<open>tail\<close> is what \<open>" errno = %d (%s)"\<close> expands to.  The write of the tail starts at
  \<open>buf + n\<close>, where \<open>n\<close> is the length the whole text would have had; the outcome is \<open>None\<close> when
  that lies outside the buffer.\<close>

definition log_errno ::
  "log_msg_priority_t \<Rightarrow> string \<Rightarrow> string option \<Rightarrow> log_state \<Rightarrow> log_state option" where
  "log_errno p tail formatted s =
     (case formatted of
        None \<Rightarrow> Some s
      | Some t \<Rightarrow>
          if length t = TEXT_BUFFER_SIZE then Some s
          else if length t > TEXT_BUFFER_SIZE then None
          else Some (log_text p (Some (t @ snprintf (TEXT_BUFFER_SIZE - length t) tail)) s))"

section \<open>Runs of the text handler\<close>

definition process_all :: "log_msg_text_t list \<Rightarrow> log_state \<Rightarrow> log_state" where
  "process_all ms s = fold text_handler_process ms s"

text \<open>Reading an output back: every printed text, and the last one again as often as a
  repetition notice says.\<close>

fun expand :: "string \<Rightarrow> out_item list \<Rightarrow> string list" where
  "expand prev [] = []"
| "expand prev (Out_text p t # os) = t # expand t os"
| "expand prev (Out_repeated n # os) = replicate (unat n) prev @ expand prev os"
| "expand prev (Out_line l # os) = expand prev os"

fun last_text :: "string \<Rightarrow> out_item list \<Rightarrow> string" where
  "last_text prev [] = prev"
| "last_text prev (Out_text p t # os) = last_text t os"
| "last_text prev (Out_repeated n # os) = last_text prev os"
| "last_text prev (Out_line l # os) = last_text prev os"

lemma expand_append: "expand l (xs @ ys) = expand l xs @ expand (last_text l xs) ys"
  by (induction l xs rule: expand.induct) simp_all

lemma last_text_append: "last_text l (xs @ ys) = last_text (last_text l xs) ys"
  by (induction l xs rule: expand.induct) simp_all

definition plain_msg :: "sb_globals \<Rightarrow> log_msg_text_t \<Rightarrow> bool" where
  "plain_msg g m \<longleftrightarrow> priority (msg_priority m) \<le> unat (g_verbosity g) \<and>
     msg_flags m AND LOG_MSG_TEXT_ALLOW_DUPLICATES = 0"

text \<open>The invariant of the suppression: what was printed, expanded, followed by the pending
  repetitions, is the list of messages so far.\<close>

definition log_account :: "string list \<Rightarrow> nat \<Rightarrow> log_state \<Rightarrow> bool" where
  "log_account ts k s \<longleftrightarrow>
     expand [] (l_out s) @ replicate (unat (text_cnt s)) (text_buf s) = ts \<and>
     last_text [] (l_out s) = text_buf s \<and> unat (text_cnt s) \<le> k"

lemma log_account_step:
  assumes "log_account ts k s" "plain_msg (l_globals s) m" "k < 2 ^ 32 - 1"
  shows "log_account (ts @ [msg_text m]) (Suc k) (text_handler_process m s)"
proof (cases "text_buf s = msg_text m")
  case True
  have "unat (text_cnt s + 1) = Suc (unat (text_cnt s))"
    using assms(1,3) by (simp add: log_account_def unat_word_ariths)
  then show ?thesis using assms True
    by (auto simp: log_account_def plain_msg_def text_handler_process_def replicate_append_same [symmetric])
next
  case False
  then show ?thesis using assms
    by (auto simp: log_account_def plain_msg_def text_handler_process_def printf_def Let_def
        expand_append last_text_append word_gt_0)
qed

lemma process_globals: "l_globals (text_handler_process m s) = l_globals s"
  by (simp add: text_handler_process_def printf_def Let_def)

lemma log_account_all:
  "log_account ts k s \<Longrightarrow> \<forall>m \<in> set ms. plain_msg (l_globals s) m \<Longrightarrow> k + length ms < 2 ^ 32 \<Longrightarrow>
    log_account (ts @ map msg_text ms) (k + length ms) (process_all ms s)"
proof (induction ms arbitrary: ts k s)
  case (Cons m ms)
  have "log_account (ts @ [msg_text m]) (Suc k) (text_handler_process m s)"
    using Cons.prems by (intro log_account_step) simp_all
  from Cons.IH [OF this] Cons.prems show ?case
    by (simp add: process_globals process_all_def)
qed (simp add: process_all_def)

lemma text_buffer_plain:
  "text_buffer [] (Some t) = (if length t \<le> 4094 then t @ [CHR 0x0A] else take 4095 t)"
  by (auto simp: text_buffer_def snprintf_def TEXT_BUFFER_SIZE_def Let_def)

section \<open>Properties\<close>

text \<open>The suppression of repeated messages loses nothing: expanding the repetition notices
  of the output and appending the repetitions still pending gives back the sequence of
  messages, as long as the 32-bit counter does not wrap.\<close>

theorem suppression_accounts:
  assumes "text_cnt s = 0" "text_buf s = []" "l_out s = []"
    and "\<forall>m \<in> set ms. plain_msg (l_globals s) m" "length ms < 2 ^ 32"
  shows "expand [] (l_out (process_all ms s)) @
      replicate (unat (text_cnt (process_all ms s))) (text_buf (process_all ms s)) = map msg_text ms"
proof -
  have "log_account [] 0 s" using assms(1-3) by (simp add: log_account_def)
  from log_account_all [OF this assms(4)] assms(5) show ?thesis by (simp add: log_account_def)
qed

definition sample_log :: log_state where
  "sample_log = \<lparr>l_handlers = [[], [Text_handler], [Oper_handler]], l_initialized = True, text_cnt = 0,
     text_buf = [], l_out = [], l_globals = globals_static\<lparr>g_verbosity := 3\<rparr>, l_opts = [],
     l_latency = sample_histogram\<rparr>"

definition sample_msg :: "string \<Rightarrow> log_msg_text_t" where
  "sample_msg t = \<lparr>msg_priority = LOG_NOTICE, msg_text = t, msg_flags = 0\<rparr>"

theorem suppression_accounts_witness:
  "expand [] (l_out (process_all (map sample_msg [''a'', ''a'', ''a'', ''b'', ''b'']) sample_log)) @
    replicate (unat (text_cnt (process_all (map sample_msg [''a'', ''a'', ''a'', ''b'', ''b'']) sample_log)))
      (text_buf (process_all (map sample_msg [''a'', ''a'', ''a'', ''b'', ''b'']) sample_log)) =
   [''a'', ''a'', ''a'', ''b'', ''b'']"
proof -
  have w: "\<forall>m \<in> set (map sample_msg ts). plain_msg (l_globals sample_log) m" for ts
    by (auto simp: plain_msg_def sample_msg_def sample_log_def)
  have "map msg_text (map sample_msg ts) = ts" for ts
    by (induction ts) (simp_all add: sample_msg_def)
  note t = this [of "[''a'', ''a'', ''a'', ''b'', ''b'']"]
  show ?thesis
    by (rule suppression_accounts
          [OF _ _ _ w [of "[''a'', ''a'', ''a'', ''b'', ''b'']"], unfolded t]) (simp_all add: sample_log_def)
qed

text \<open>A message of up to 4094 characters is logged whole and ends in a newline; a longer one
  is cut to 4095 characters and loses the newline, so the next message continues its line.
  With a time stamp the same holds of stamp and message together.  No other length of
  buffer is ever written.\<close>

theorem text_buffer_bounds:
  assumes "length stamp < 4096"
  shows "text_buffer stamp (Some t) =
     (if length stamp + length t \<le> 4094 then stamp @ t @ [CHR 0x0A] else take 4095 (stamp @ t))"
  using assms by (auto simp: text_buffer_def snprintf_def TEXT_BUFFER_SIZE_def Let_def)

theorem text_buffer_bounds_witness:
  "text_buffer ''[ 3s ] '' (Some ''x'') = ''[ 3s ] x'' @ [CHR 0x0A]"
  using text_buffer_bounds [of "''[ 3s ] ''" "''x''"] by simp

text \<open>\<open>log_errno\<close> writes outside its buffer exactly for messages longer than the buffer: the
  check against the return value of \<open>vsnprintf\<close> tests equality with the buffer size only.\<close>

theorem log_errno_overflow:
  "log_errno p suffix (Some t) s = None \<longleftrightarrow> 4096 < length t"
  by (auto simp: log_errno_def TEXT_BUFFER_SIZE_def)

text \<open>The verbosity is checked after it has been stored in an unsigned char, so the accepted
  values of \<open>--verbosity\<close> are those that are at most 5 modulo 256.\<close>

theorem verbosity_modulo:
  assumes "sb_get_value_int (l_opts s) ''verbosity'' = Some v"
  shows "(\<exists>s'. text_handler_init s = Some (s', 0)) \<longleftrightarrow> v mod 256 \<le> 5"
proof -
  have "unat (word_of_int v :: u8) = nat (v mod 256)"
    by (simp add: unsigned_of_int take_bit_eq_mod)
  then show ?thesis using assms
    by (auto simp: text_handler_init_def Let_def nat_le_iff)
qed

definition verbose_256 :: log_state where
  "verbose_256 = sample_log\<lparr>l_opts := [new_option\<lparr>opt_name := ''verbosity'',
     opt_values := [new_value\<lparr>data := ''256''\<rparr>]\<rparr>]\<rparr>"

theorem verbosity_modulo_witness:
  "\<exists>s'. text_handler_init verbose_256 = Some (s', 0)"
proof -
  have "sb_get_value_int (l_opts verbose_256) ''verbosity'' = Some 256"
    by (simp add: verbose_256_def sb_get_value_int_def find_option_def sb_opt_to_int_def strtol10_def
        isspace_def is_digit_def digit_value_def saturate_long_def char_code_def new_option_def
        new_value_def)
  then show ?thesis using verbosity_modulo [of verbose_256 256] by simp
qed

end
