(* ===== verification/Threads.thy ===== *)
theory Threads
  imports Logger
begin

text \<open>
  Worker thread management (\<open>sb_thread.c\<close>, \<open>sb_thread.h\<close>) and the memory helpers of
  \<open>sb_util.c\<close>.  The results of the POSIX calls are arguments: \<open>pthread_create\<close> gives an error
  code and a thread handle for the n-th thread, \<open>pthread_join\<close> an error code for a handle.
  The program is built with thread cancellation, so the signal based fallback is left out.
\<close>

type_synonym pthread_t = nat

record sb_thread_ctxt =
  thread :: pthread_t
  tid :: u32

record thread_state =
  threads :: "sb_thread_ctxt list option"
  thread_stack_size :: int

definition SB_EXIT_FAILURE :: nat where "SB_EXIT_FAILURE = 1"
definition SB_EXIT_SUCCESS :: nat where "SB_EXIT_SUCCESS = 0"

text \<open>The contents of a freshly allocated descriptor.\<close>

definition raw_ctxt :: sb_thread_ctxt where
  "raw_ctxt = \<lparr>thread = 0, tid = 0\<rparr>"

text \<open>The size option is an unsigned 64-bit number stored in an int.\<close>

definition int_of_size :: "u64 \<Rightarrow> int" where
  "int_of_size w = sint (ucast w :: u32)"

definition sb_thread_init ::
  "bool \<Rightarrow> thread_state \<Rightarrow> log_state \<Rightarrow> thread_state \<times> log_state \<times> nat" where
  "sb_thread_init malloc_ok ts s =
     (let ts = ts\<lparr>thread_stack_size := int_of_size (sb_get_value_size (l_opts s) ''thread-stack-size'')\<rparr>
      in if thread_stack_size ts \<le> 0
         then (ts, log_text LOG_FATAL (Some ''Invalid value for thread-stack-size'') s, 1)
         else
           let ts = ts\<lparr>threads := (if malloc_ok
                 then Some (replicate (unat (g_threads (l_globals s))) raw_ctxt) else None)\<rparr>
           in if threads ts = None
              then (ts, log_text LOG_FATAL (Some ''Memory allocation failure.'') s, SB_EXIT_FAILURE)
              else (ts, s, SB_EXIT_SUCCESS))"

definition sb_thread_done :: "thread_state \<Rightarrow> thread_state" where
  "sb_thread_done ts = ts\<lparr>threads := None\<rparr>"

definition sb_thread_create ::
  "(nat \<Rightarrow> int \<times> pthread_t) \<Rightarrow> nat \<Rightarrow> int \<times> pthread_t" where
  "sb_thread_create pthread_create i = pthread_create i"

definition sb_thread_join :: "(pthread_t \<Rightarrow> int) \<Rightarrow> pthread_t \<Rightarrow> int" where
  "sb_thread_join pthread_join t = pthread_join t"

text \<open>The two loops of \<open>sb_thread_create_workers\<close>.\<close>

definition set_ids :: "sb_thread_ctxt list \<Rightarrow> sb_thread_ctxt list" where
  "set_ids cs = fold (\<lambda>i cs. cs[i := (cs ! i)\<lparr>tid := of_nat i\<rparr>]) [0..<length cs] cs"

fun create_loop ::
  "(nat \<Rightarrow> int \<times> pthread_t) \<Rightarrow> nat list \<Rightarrow> sb_thread_ctxt list \<Rightarrow> sb_thread_ctxt list \<times> nat list \<times> bool" where
  "create_loop pc [] cs = (cs, [], True)"
| "create_loop pc (i # is) cs =
     (let (err, t) = sb_thread_create pc i
      in if err \<noteq> 0 then (cs, [], False)
         else let (cs, started, ok) = create_loop pc is (cs[i := (cs ! i)\<lparr>thread := t\<rparr>])
              in (cs, i # started, ok))"

text \<open>\<open>sb_thread_create_workers\<close>: the descriptors, the indices of the threads started, the result.\<close>

definition sb_thread_create_workers ::
  "(nat \<Rightarrow> int \<times> pthread_t) \<Rightarrow> sb_thread_ctxt list \<Rightarrow> log_state \<Rightarrow>
     sb_thread_ctxt list \<times> nat list \<times> log_state \<times> nat" where
  "sb_thread_create_workers pc cs s =
     (let s = log_text LOG_NOTICE (Some ''Initializing worker threads...'') s;
          cs = set_ids cs;
          (cs, started, ok) = create_loop pc [0..<length cs] cs
      in if ok then (cs, started, s, SB_EXIT_SUCCESS)
         else (cs, started,
               (case log_errno LOG_FATAL [] (Some ''sb_thread_create() for thread failed.'') s of
                  None \<Rightarrow> s | Some s \<Rightarrow> s), SB_EXIT_FAILURE))"

text \<open>\<open>sb_thread_join_workers\<close>: the count of running threads drops by one for every descriptor,
  whether or not the join succeeds.\<close>

fun join_loop :: "(pthread_t \<Rightarrow> int) \<Rightarrow> sb_thread_ctxt list \<Rightarrow> log_state \<Rightarrow> log_state" where
  "join_loop pj [] s = s"
| "join_loop pj (c # cs) s =
     (let s = (if sb_thread_join pj (thread c) \<noteq> 0
               then (case log_errno LOG_FATAL [] (Some ''sb_thread_join() for thread failed.'') s of
                       None \<Rightarrow> s | Some s \<Rightarrow> s)
               else s);
          g = l_globals s
      in join_loop pj cs (s\<lparr>l_globals := g\<lparr>g_threads_running := g_threads_running g - 1\<rparr>\<rparr>))"

definition sb_thread_join_workers ::
  "(pthread_t \<Rightarrow> int) \<Rightarrow> sb_thread_ctxt list \<Rightarrow> log_state \<Rightarrow> log_state \<times> nat" where
  "sb_thread_join_workers pj cs s = (join_loop pj cs s, SB_EXIT_SUCCESS)"

section \<open>Memory helpers\<close>

text \<open>\<open>SB_ALIGN\<close> and \<open>SB_PAD\<close> on size_t, and \<open>sb_memalign\<close> over the result of
  \<open>posix_memalign\<close>: an error code and an address.\<close>

definition SB_ALIGN :: "u64 \<Rightarrow> u64 \<Rightarrow> u64" where
  "SB_ALIGN n m = (n + (m - 1)) AND (NOT (m - 1))"

definition SB_PAD :: "u64 \<Rightarrow> u64 \<Rightarrow> u64" where
  "SB_PAD n m = SB_ALIGN n m - n"

definition sb_memalign :: "(u64 \<Rightarrow> u64 \<Rightarrow> int \<times> u64) \<Rightarrow> u64 \<Rightarrow> u64 \<Rightarrow> u64 option" where
  "sb_memalign posix_memalign sz alignment =
     (let (ret, buf) = posix_memalign alignment sz in if ret \<noteq> 0 then None else Some buf)"

section \<open>Lemmas\<close>

lemma set_ids_upto:
  "n \<le> length cs \<Longrightarrow> length (fold (\<lambda>i cs. cs[i := (cs ! i)\<lparr>tid := of_nat i\<rparr>]) [0..<n] cs) = length cs \<and>
    (\<forall>j < length cs. fold (\<lambda>i cs. cs[i := (cs ! i)\<lparr>tid := of_nat i\<rparr>]) [0..<n] cs ! j =
       (if j < n then (cs ! j)\<lparr>tid := of_nat j\<rparr> else cs ! j))"
  by (induction n) (auto simp: nth_list_update less_Suc_eq)

lemma set_ids_nth: "length (set_ids cs) = length cs"
  "j < length cs \<Longrightarrow> set_ids cs ! j = (cs ! j)\<lparr>tid := of_nat j\<rparr>"
  using set_ids_upto [of "length cs" cs] by (simp_all add: set_ids_def)

lemma create_loop_spec:
  "create_loop pc is cs = (cs', started, ok) \<Longrightarrow>
     started = takeWhile (\<lambda>i. fst (pc i) = 0) is \<and> ok = (\<forall>i \<in> set is. fst (pc i) = 0) \<and>
     length cs' = length cs \<and> map tid cs' = map tid cs"
proof (induction pc "is" cs arbitrary: cs' started ok rule: create_loop.induct)
  case (2 pc i "is" cs)
  obtain err t where e: "pc i = (err, t)" by (cases "pc i")
  have "map tid (cs[i := (cs ! i)\<lparr>thread := t\<rparr>]) = map tid cs"
  proof (rule nth_equalityI)
    fix j assume "j < length (map tid (cs[i := (cs ! i)\<lparr>thread := t\<rparr>]))"
    then show "map tid (cs[i := (cs ! i)\<lparr>thread := t\<rparr>]) ! j = map tid cs ! j"
      by (cases "j = i") simp_all
  qed simp
  with 2 e show ?case
    by (cases "err = 0") (auto simp: sb_thread_create_def Let_def split: prod.splits)
qed simp

lemma log_text_threads_running:
  "g_threads_running (l_globals (text_handler_process m s)) = g_threads_running (l_globals s)"
  by (simp add: process_globals)

lemma fold_process_globals: "l_globals (fold (\<lambda>lh. handler_process lh m) hs s) = l_globals s"
  by (induction hs arbitrary: s)
    (auto simp: handler_process_def process_globals split: log_handler.splits log_msg_t.splits)

lemma log_text_globals [simp]: "l_globals (log_text p t s) = l_globals s"
  by (simp add: log_text_def emit_def printf_def log_msg_def fold_process_globals)

lemma log_errno_globals: "log_errno p x t s = Some s' \<Longrightarrow> l_globals s' = l_globals s"
  by (auto simp: log_errno_def split: option.splits if_splits)

lemma join_loop_running:
  "g_threads_running (l_globals (join_loop pj cs s)) = g_threads_running (l_globals s) - of_nat (length cs)"
proof (induction pj cs s rule: join_loop.induct)
  case (2 pj c cs s)
  have "l_globals (if sb_thread_join pj (thread c) \<noteq> 0
      then (case log_errno LOG_FATAL [] (Some ''sb_thread_join() for thread failed.'') s of
              None \<Rightarrow> s | Some s \<Rightarrow> s) else s) = l_globals s"
    by (auto split: option.splits dest: log_errno_globals)
  with 2 show ?case by (simp add: Let_def)
qed simp

text \<open>For a power of two, \<open>SB_ALIGN\<close> rounds up to a multiple.\<close>

lemma SB_ALIGN_multiple:
  assumes "k < 64" "unat n + 2 ^ k \<le> 2 ^ 64"
  shows "unat (SB_ALIGN n (2 ^ k)) = (unat n + (2 ^ k - 1)) div 2 ^ k * 2 ^ k"
proof -
  have m: "(2 :: u64) ^ k - 1 = mask k" by (simp add: mask_eq_exp_minus_1)
  have um: "unat (mask k :: u64) = 2 ^ k - 1"
  proof -
    have "(2 :: nat) ^ k < 2 ^ 64" using assms(1) by (intro power_strict_increasing) simp_all
    then have "(2 :: nat) ^ k - 1 < 2 ^ LENGTH(64)" by simp
    moreover have "mask k = (of_nat (2 ^ k - 1) :: u64)" by (simp add: mask_eq_exp_minus_1 of_nat_diff)
    ultimately show ?thesis using unat_of_nat_small by metis
  qed
  have "(1 :: nat) \<le> 2 ^ k" by simp
  then have s: "unat (n + mask k) = unat n + (2 ^ k - 1)" using assms(2) um by (simp add: unat_word_ariths)
  have "x AND NOT (mask k) = push_bit k (drop_bit k x)" for x :: u64
    by (rule bit_word_eqI) (auto simp: bit_simps)
  then have "SB_ALIGN n (2 ^ k) = push_bit k (drop_bit k (n + mask k))"
    by (simp only: SB_ALIGN_def m)
  then have "unat (SB_ALIGN n (2 ^ k)) = unat (n + mask k) div 2 ^ k * 2 ^ k mod 2 ^ 64"
    by (simp only: unsigned_push_bit_eq unat_drop_bit_eq)
      (simp add: push_bit_eq_mult drop_bit_eq_div take_bit_eq_mod)
  moreover have "unat (n + mask k) div 2 ^ k * 2 ^ k < 2 ^ 64"
  proof (rule le_less_trans [OF div_times_less_eq_dividend])
    have "unat (n + mask k) < 2 ^ LENGTH(64)" by (rule unsigned_less)
    then show "unat (n + mask k) < 2 ^ 64" by simp
  qed
  ultimately show ?thesis by (simp add: s)
qed

section \<open>Properties\<close>

text \<open>Worker creation numbers all descriptors 0, 1, 2, ... and starts exactly the threads in
  front of the first failure of \<open>pthread_create\<close>; it reports success only if there is none,
  and joining as many workers as were announced brings the running count back to zero.\<close>

theorem workers_created_and_joined:
  assumes "sb_thread_create_workers pc cs s = (cs', started, s', rc)" "length cs < 2 ^ 32"
  shows "map (unat \<circ> tid) cs' = [0..<length cs] \<and>
    started = takeWhile (\<lambda>i. fst (pc i) = 0) [0..<length cs] \<and>
    (rc = SB_EXIT_SUCCESS \<longleftrightarrow> started = [0..<length cs]) \<and>
    (g_threads_running (l_globals s2) = of_nat (length cs) \<longrightarrow>
       g_threads_running (l_globals (fst (sb_thread_join_workers pj cs' s2))) = 0)"
proof -
  obtain ok where l: "create_loop pc [0..<length cs] (set_ids cs) = (cs', started, ok)"
    and rc: "rc = (if ok then SB_EXIT_SUCCESS else SB_EXIT_FAILURE)"
    using assms(1)
    by (auto simp: sb_thread_create_workers_def Let_def set_ids_nth split: prod.splits if_splits)
  note c = create_loop_spec [OF l]
  have len: "length cs' = length cs" using c by (simp add: set_ids_nth)
  have ids: "map (unat \<circ> tid) cs' = [0..<length cs]"
  proof (rule nth_equalityI)
    fix j assume "j < length (map (unat \<circ> tid) cs')"
    then have j: "j < length cs" using len by simp
    have "tid (cs' ! j) = tid (set_ids cs ! j)" using c j len by (metis length_map nth_map set_ids_nth(1))
    then show "map (unat \<circ> tid) cs' ! j = [0..<length cs] ! j"
      using j len assms(2) by (simp add: set_ids_nth unat_of_nat_small)
  qed (simp add: len)
  have "rc = SB_EXIT_SUCCESS \<longleftrightarrow> ok" by (simp add: rc SB_EXIT_SUCCESS_def SB_EXIT_FAILURE_def)
  moreover have "ok \<longleftrightarrow> started = [0..<length cs]"
    using c by (auto simp: takeWhile_eq_all_conv)
  ultimately show ?thesis using ids c len by (simp add: sb_thread_join_workers_def join_loop_running)
qed

theorem workers_created_and_joined_witness:
  "fst (snd (sb_thread_create_workers (\<lambda>i. if i = 2 then (11, 0) else (0, i)) (replicate 4 raw_ctxt) sample_log))
     = [0, 1]"
proof -
  obtain cs' started s' rc where e: "sb_thread_create_workers (\<lambda>i. if i = 2 then (11, 0) else (0, i))
      (replicate 4 raw_ctxt) sample_log = (cs', started, s', rc)"
    by (metis prod_cases4)
  from workers_created_and_joined [OF e] e show ?thesis by (simp add: upt_rec)
qed

end
