(* ===== verification/Reports.thy ===== *)
theory Reports
  imports Threads Counter Timer
begin

text \<open>
  Statistics and reports (\<open>sysbench.c\<close>, \<open>sysbench.h\<close>): the intermediate and cumulative
  reports, the checkpoints that reset the statistics, and the handler of the forced
  shutdown.  The readings of the clock and the formatting of \<open>printf\<close> are arguments.
\<close>

section \<open>Program state\<close>

datatype fmt_arg = A_int int | A_real real | A_str string

type_synonym sprintf = "string \<Rightarrow> fmt_arg list \<Rightarrow> string"

record sb_stat_t =
  st_threads_running :: u32
  st_time_interval :: real
  st_time_total :: real
  st_latency_pct :: real
  st_latency_min :: real
  st_latency_max :: real
  st_latency_avg :: real
  st_latency_sum :: real
  st_events :: u64
  st_reads :: u64
  st_writes :: u64
  st_other :: u64
  st_errors :: u64
  st_reconnects :: u64
  st_bytes_read :: u64
  st_bytes_written :: u64
  st_queue_length :: u64
  st_concurrency :: u64

definition zero_stat :: sb_stat_t where
  "zero_stat = \<lparr>st_threads_running = 0, st_time_interval = 0, st_time_total = 0, st_latency_pct = 0,
     st_latency_min = 0, st_latency_max = 0, st_latency_avg = 0, st_latency_sum = 0, st_events = 0,
     st_reads = 0, st_writes = 0, st_other = 0, st_errors = 0, st_reconnects = 0, st_bytes_read = 0,
     st_bytes_written = 0, st_queue_length = 0, st_concurrency = 0\<rparr>"

text \<open>The globals of \<open>sysbench.c\<close> the reports use.  \<open>p_queue_len\<close> is the number of queued events
  that \<open>ck_ring_size\<close> gives.\<close>

record prog =
  p_log :: log_state
  p_counters :: counters
  p_timers :: "sb_timer list"
  p_timers_copy :: "sb_timer list"
  p_exec_timer :: sb_timer
  p_intermediate_timer :: sb_timer
  p_checkpoint_timer :: sb_timer
  p_queue_len :: u64

abbreviation glob :: "prog \<Rightarrow> sb_globals" where "glob p \<equiv> l_globals (p_log p)"

definition set_globals :: "(sb_globals \<Rightarrow> sb_globals) \<Rightarrow> prog \<Rightarrow> prog" where
  "set_globals f p = p\<lparr>p_log := (p_log p)\<lparr>l_globals := f (glob p)\<rparr>\<rparr>"

definition say :: "log_msg_priority_t \<Rightarrow> string \<Rightarrow> prog \<Rightarrow> prog" where
  "say pr t p = p\<lparr>p_log := log_text pr (Some t) (p_log p)\<rparr>"

definition stamp :: "sprintf \<Rightarrow> real \<Rightarrow> string \<Rightarrow> prog \<Rightarrow> prog" where
  "stamp fmt seconds t p =
     p\<lparr>p_log := log_timestamp LOG_NOTICE (fmt ''[ %.0fs ] '' [A_real seconds]) (Some t) (p_log p)\<rparr>"

definition SEC2MS :: "real \<Rightarrow> real" where "SEC2MS sec = sec * 1000"
definition MS2SEC :: "real \<Rightarrow> real" where "MS2SEC msec = msec / 1000"

section \<open>Intermediate reports\<close>

definition sb_report_intermediate :: "sprintf \<Rightarrow> sb_stat_t \<Rightarrow> prog \<Rightarrow> prog" where
  "sb_report_intermediate fmt st p =
     (let p = stamp fmt (st_time_total st)
            (fmt ''thds: %u eps: %4.2f lat (ms,%u%%): %4.2f''
               [A_int (uint (st_threads_running st)),
                A_real (real (unat (st_events st)) / st_time_interval st),
                A_int (uint (g_percentile (glob p))), A_real (SEC2MS (st_latency_pct st))]) p
      in if g_tx_rate (glob p) > 0
         then stamp fmt (st_time_total st)
                (fmt ''queue length: %lu concurrency: %lu''
                   [A_int (uint (st_queue_length st)), A_int (uint (st_concurrency st))]) p
         else p)"

definition report_get_common_stat :: "timespec \<Rightarrow> sb_counters_t \<Rightarrow> prog \<Rightarrow> sb_stat_t" where
  "report_get_common_stat now cnt p =
     (let st = zero_stat;
          st = st\<lparr>st_threads_running := g_threads_running (glob p)\<rparr>;
          st = st\<lparr>st_events := cnt ! cnt_index SB_CNT_EVENT,
                  st_reads := cnt ! cnt_index SB_CNT_READ,
                  st_writes := cnt ! cnt_index SB_CNT_WRITE,
                  st_other := cnt ! cnt_index SB_CNT_OTHER,
                  st_errors := cnt ! cnt_index SB_CNT_ERROR,
                  st_reconnects := cnt ! cnt_index SB_CNT_RECONNECT,
                  st_bytes_read := cnt ! cnt_index SB_CNT_BYTES_READ,
                  st_bytes_written := cnt ! cnt_index SB_CNT_BYTES_WRITTEN\<rparr>
      in st\<lparr>st_time_total := NS2SEC (sb_timer_value now (p_exec_timer p)) -
              real_of_int (g_warmup_time (glob p))\<rparr>)"

text \<open>The rows of the counters; the reports run only after they have been allocated.\<close>

definition counter_rows :: "prog \<Rightarrow> sb_counters_t list" where
  "counter_rows p = (case sb_counters (p_counters p) of None \<Rightarrow> [] | Some r \<Rightarrow> r)"

definition nthreads :: "prog \<Rightarrow> nat" where
  "nthreads p = unat (g_threads (glob p))"

text \<open>A handler of a report, as the operations of a test may supply one.\<close>

type_synonym report_op = "(sb_stat_t \<Rightarrow> prog \<Rightarrow> prog) option"

definition report_intermediate :: "sprintf \<Rightarrow> timespec \<Rightarrow> timespec \<Rightarrow> report_op \<Rightarrow> prog \<Rightarrow> prog" where
  "report_intermediate fmt now1 now2 custom p =
     (if g_report_interval (glob p) = 0 then p
      else
        let (c, cnt) = sb_counters_agg_intermediate (counter_rows p) (nthreads p) (p_counters p);
            p = p\<lparr>p_counters := c\<rparr>;
            st = report_get_common_stat now1 cnt p;
            (h, pct) = sb_histogram_get_pct_intermediate (l_latency (p_log p))
                         (real (unat (g_percentile (glob p))));
            p = p\<lparr>p_log := (p_log p)\<lparr>l_latency := h\<rparr>\<rparr>;
            st = st\<lparr>st_latency_pct := MS2SEC pct\<rparr>;
            (t, ns) = sb_timer_current now2 (p_intermediate_timer p);
            p = p\<lparr>p_intermediate_timer := t\<rparr>;
            st = st\<lparr>st_time_interval := NS2SEC ns\<rparr>;
            st = (if g_tx_rate (glob p) > 0
                  then st\<lparr>st_queue_length := p_queue_len p,
                          st_concurrency := word_of_int (g_concurrency (glob p))\<rparr>
                  else st)
        in case custom of Some f \<Rightarrow> f st p | None \<Rightarrow> sb_report_intermediate fmt st p)"

section \<open>Cumulative reports\<close>

text \<open>On a forced shutdown: the timers that \<open>sb_timer_running\<close> takes to be running are stopped
  and counted.\<close>

fun stop_unfinished :: "timespec \<Rightarrow> nat list \<Rightarrow> sb_timer list \<Rightarrow> nat \<Rightarrow> sb_timer list \<times> nat" where
  "stop_unfinished now [] ts n = (ts, n)"
| "stop_unfinished now (i # is) ts n =
     (if sb_timer_running (ts ! i)
      then stop_unfinished now is (ts[i := fst (sb_timer_stop now (ts ! i))]) (n + 1)
      else stop_unfinished now is ts n)"

text \<open>Aggregating the copies of the timers.\<close>

definition aggregate :: "nat \<Rightarrow> sb_timer list \<Rightarrow> sb_timer \<Rightarrow> sb_timer" where
  "aggregate n copies t = fold (\<lambda>i t. sb_timer_merge t (copies ! i)) [0..<n] (sb_timer_init t)"

text \<open>The sums of squared deviations of the ``Threads fairness'' section.\<close>

definition events_dev :: "nat \<Rightarrow> sb_timer list \<Rightarrow> real \<Rightarrow> real" where
  "events_dev n ts avg = fold (\<lambda>i acc. let diff = \<bar>avg - real (unat (events (ts ! i)))\<bar>
     in acc + diff * diff) [0..<n] 0"

definition time_dev :: "nat \<Rightarrow> sb_timer list \<Rightarrow> real \<Rightarrow> real" where
  "time_dev n ts avg = fold (\<lambda>i acc. let diff = \<bar>avg - NS2SEC (sb_timer_sum (ts ! i))\<bar>
     in acc + diff * diff) [0..<n] 0"

definition sb_report_cumulative :: "sprintf \<Rightarrow> timespec \<Rightarrow> sb_stat_t \<Rightarrow> prog \<Rightarrow> prog" where
  "sb_report_cumulative fmt now st p =
     (let n = nthreads p;
          p = (if g_forced_shutdown_in_progress (glob p) then
                 let (ts, unfinished) = stop_unfinished now [0..<n] (p_timers_copy p) 0;
                     p = p\<lparr>p_timers_copy := ts\<rparr>
                 in if unfinished > 0
                    then say LOG_NOTICE (fmt ''Number of unfinished transactions on forced shutdown: %u''
                           [A_int (int unfinished)]) (say LOG_NOTICE [] p)
                    else p
               else p);
          p = say LOG_NOTICE [] p;
          p = say LOG_NOTICE ''Throughput:'' p;
          p = say LOG_NOTICE (fmt ''    events/s (eps):                      %.4f''
                [A_real (real (unat (st_events st)) / st_time_interval st)]) p;
          p = say LOG_NOTICE (fmt ''    time elapsed:                        %.4fs''
                [A_real (st_time_total st)]) p;
          p = say LOG_NOTICE (fmt ''    total number of events:              %lu''
                [A_int (uint (st_events st))]) p;
          p = say LOG_NOTICE [] p;
          p = say LOG_NOTICE ''Latency (ms):'' p;
          p = say LOG_NOTICE (fmt ''         min: %39.2f'' [A_real (SEC2MS (st_latency_min st))]) p;
          p = say LOG_NOTICE (fmt ''         avg: %39.2f'' [A_real (SEC2MS (st_latency_avg st))]) p;
          p = say LOG_NOTICE (fmt ''         max: %39.2f'' [A_real (SEC2MS (st_latency_max st))]) p;
          p = (if g_percentile (glob p) > 0
               then say LOG_NOTICE (fmt ''        %3dth percentile: %27.2f''
                      [A_int (uint (g_percentile (glob p))), A_real (SEC2MS (st_latency_pct st))]) p
               else say LOG_NOTICE ''         percentile stats:               disabled'' p);
          p = say LOG_NOTICE (fmt ''         sum: %39.2f'' [A_real (SEC2MS (st_latency_sum st))]) p;
          p = say LOG_NOTICE [] p;
          t = aggregate n (p_timers_copy p) zero_timer;
          events_avg = real (unat (events t)) / real n;
          time_avg = st_latency_sum st / real n;
          events_stddev = sqrt (events_dev n (p_timers_copy p) events_avg / real n);
          time_stddev = sqrt (time_dev n (p_timers_copy p) time_avg / real n);
          p = say LOG_NOTICE ''Threads fairness:'' p;
          p = say LOG_NOTICE (fmt ''    events (avg/stddev):           %.4f/%3.2f''
                [A_real events_avg, A_real events_stddev]) p;
          p = say LOG_NOTICE (fmt ''    execution time (avg/stddev):   %.4f/%3.2f''
                [A_real time_avg, A_real time_stddev]) p;
          p = say LOG_NOTICE [] p
      in if g_debug (glob p) then
           let p = say LOG_DEBUG (''Verbose per-thread statistics:'' @ [CHR 0x0A]) p;
               p = fold (\<lambda>i p.
                     let c = p_timers_copy p ! i;
                         p = say LOG_DEBUG (fmt ''    thread #%3d: min: %.4fs  avg: %.4fs  max: %.4fs  events: %lu''
                               [A_int (int i), A_real (NS2SEC (sb_timer_min c)),
                                A_real (NS2SEC (sb_timer_avg c)), A_real (NS2SEC (sb_timer_max c)),
                                A_int (uint (events c))]) p
                     in say LOG_DEBUG (fmt ''                 total time taken by event execution: %.4fs''
                          [A_real (NS2SEC (sb_timer_sum c))]) p) [0..<n] p
           in say LOG_NOTICE [] p
         else p)"

section \<open>Checkpoints\<close>

fun checkpoint_timers :: "nat list \<Rightarrow> sb_timer list \<Rightarrow> sb_timer list \<Rightarrow> sb_timer list \<times> sb_timer list" where
  "checkpoint_timers [] ts copies = (ts, copies)"
| "checkpoint_timers (i # is) ts copies =
     (let (t, old) = sb_timer_checkpoint (ts ! i)
      in checkpoint_timers is (ts[i := t]) (copies[i := old]))"

definition checkpoint :: "timespec \<Rightarrow> timespec \<Rightarrow> prog \<Rightarrow> prog \<times> sb_stat_t" where
  "checkpoint now1 now2 p =
     (let (c, cnt) = sb_counters_agg_cumulative (counter_rows p) (nthreads p) (p_counters p);
          p = p\<lparr>p_counters := c\<rparr>;
          st = report_get_common_stat now1 cnt p;
          (t, ns) = sb_timer_current now2 (p_checkpoint_timer p);
          p = p\<lparr>p_checkpoint_timer := t\<rparr>;
          st = st\<lparr>st_time_interval := NS2SEC ns\<rparr>;
          (h, pct) = sb_histogram_get_pct_checkpoint (l_latency (p_log p))
                       (real (unat (g_percentile (glob p))));
          p = p\<lparr>p_log := (p_log p)\<lparr>l_latency := h\<rparr>\<rparr>;
          st = st\<lparr>st_latency_pct := MS2SEC pct\<rparr>;
          (ts, copies) = checkpoint_timers [0..<nthreads p] (p_timers p) (p_timers_copy p)
      in (p\<lparr>p_timers := ts, p_timers_copy := copies\<rparr>, st))"

definition report_cumulative ::
  "sprintf \<Rightarrow> timespec \<Rightarrow> timespec \<Rightarrow> timespec \<Rightarrow> report_op \<Rightarrow> prog \<Rightarrow> prog" where
  "report_cumulative fmt now1 now2 now3 custom p =
     (let (p, st) = checkpoint now1 now2 p;
          t = aggregate (nthreads p) (p_timers_copy p) zero_timer;
          st = st\<lparr>st_latency_min := NS2SEC (sb_timer_min t)\<rparr>;
          st = st\<lparr>st_latency_max := NS2SEC (sb_timer_max t)\<rparr>;
          st = st\<lparr>st_latency_avg := NS2SEC (sb_timer_avg t)\<rparr>;
          st = st\<lparr>st_latency_sum := NS2SEC (sb_timer_sum t)\<rparr>
      in case custom of Some f \<Rightarrow> f st p | None \<Rightarrow> sb_report_cumulative fmt now3 st p)"

text \<open>The signal handler of the forced shutdown, up to \<open>exit(2)\<close>.\<close>

definition sigalrm_forced_shutdown_handler ::
  "sprintf \<Rightarrow> timespec list \<Rightarrow> report_op \<Rightarrow> bool \<Rightarrow> prog \<Rightarrow> prog" where
  "sigalrm_forced_shutdown_handler fmt now custom is_sigalrm p =
     (if \<not> is_sigalrm then p
      else
        let p = set_globals (\<lambda>g. g\<lparr>g_forced_shutdown_in_progress := True\<rparr>) p;
            p = p\<lparr>p_exec_timer := fst (sb_timer_stop (now ! 0) (p_exec_timer p))\<rparr>;
            p = p\<lparr>p_intermediate_timer := fst (sb_timer_stop (now ! 1) (p_intermediate_timer p))\<rparr>;
            p = p\<lparr>p_checkpoint_timer := fst (sb_timer_stop (now ! 2) (p_checkpoint_timer p))\<rparr>;
            p = say LOG_FATAL ''The --max-time limit has expired, forcing shutdown...'' p;
            p = report_cumulative fmt (now ! 3) (now ! 4) (now ! 5) custom p
        in p\<lparr>p_log := log_done (p_log p)\<rparr>)"

section \<open>Lemmas\<close>

lemma aggregate_foldl:
  "aggregate n copies t = foldl sb_timer_merge (sb_timer_init t) (map (\<lambda>i. copies ! i) [0..<n])"
  by (simp add: aggregate_def foldl_conv_fold fold_map comp_def)

lemma checkpoint_timers_spec:
  "checkpoint_timers is ts copies = (ts', copies') \<Longrightarrow> distinct is \<Longrightarrow>
    \<forall>i \<in> set is. i < length ts \<and> i < length copies \<Longrightarrow>
    length ts' = length ts \<and> length copies' = length copies \<and>
    (\<forall>j. ts' ! j = (if j \<in> set is then fst (sb_timer_checkpoint (ts ! j)) else ts ! j) \<and>
         copies' ! j = (if j \<in> set is then snd (sb_timer_checkpoint (ts ! j)) else copies ! j))"
proof (induction "is" ts copies arbitrary: ts' copies' rule: checkpoint_timers.induct)
  case (2 i "is" ts copies)
  obtain t old where c: "sb_timer_checkpoint (ts ! i) = (t, old)" by (cases "sb_timer_checkpoint (ts ! i)")
  have "checkpoint_timers is (ts[i := t]) (copies[i := old]) = (ts', copies')"
    using 2(2) c by simp
  from 2(1) [OF c [symmetric] refl this] 2(3,4) c show ?case
    by (auto simp: nth_list_update)
qed simp

lemma checkpoint_stats:
  "timer_stats (fst (sb_timer_checkpoint t)) = no_stats"
  "timer_stats (snd (sb_timer_checkpoint t)) = timer_stats t"
  by (simp_all add: sb_timer_checkpoint_def Let_def timer_stats_def no_stats_eq sb_timer_reset_def)

lemma latency_of_stats:
  "timer_stats t = timer_stats t' \<Longrightarrow> sb_timer_min t = sb_timer_min t' \<and>
    sb_timer_max t = sb_timer_max t' \<and> sb_timer_avg t = sb_timer_avg t' \<and> sb_timer_sum t = sb_timer_sum t'"
  by (simp add: timer_stats_def sb_timer_min_def sb_timer_max_def sb_timer_avg_def sb_timer_sum_def)

lemma foldl_merge_stats_cong:
  "map timer_stats xs = map timer_stats ys \<Longrightarrow>
    timer_stats (foldl sb_timer_merge t xs) = timer_stats (foldl sb_timer_merge t ys)"
  by (simp add: foldl_timer_merge)

text \<open>What \<open>checkpoint\<close> does to the timers.\<close>

lemma checkpoint_prog:
  assumes "checkpoint now1 now2 p = (p', st)"
    and "nthreads p \<le> length (p_timers p)" "nthreads p \<le> length (p_timers_copy p)"
  shows "nthreads p' = nthreads p \<and>
    (\<forall>i < nthreads p. timer_stats (p_timers p' ! i) = no_stats \<and>
       timer_stats (p_timers_copy p' ! i) = timer_stats (p_timers p ! i))"
proof -
  obtain ts copies where c: "checkpoint_timers [0..<nthreads p] (p_timers p) (p_timers_copy p) = (ts, copies)"
    by (cases "checkpoint_timers [0..<nthreads p] (p_timers p) (p_timers_copy p)")
  have "p_timers p' = ts \<and> p_timers_copy p' = copies \<and> nthreads p' = nthreads p"
    using assms(1) c
    by (auto simp: checkpoint_def Let_def nthreads_def split: prod.splits)
  with checkpoint_timers_spec [OF c] assms(2,3) show ?thesis
    by (auto simp: checkpoint_stats)
qed

lemma stop_unfinished_all:
  assumes "\<forall>i \<in> set is. sb_timer_running (ts ! i) \<and> i < length ts" "distinct is"
  shows "snd (stop_unfinished now is ts n) = n + length is \<and>
    (\<forall>j. fst (stop_unfinished now is ts n) ! j =
       (if j \<in> set is then fst (sb_timer_stop now (ts ! j)) else ts ! j))"
  using assms
proof (induction now "is" ts n rule: stop_unfinished.induct)
  case (2 now i "is" ts n)
  let ?ts = "ts[i := fst (sb_timer_stop now (ts ! i))]"
  have "\<forall>j \<in> set is. sb_timer_running (?ts ! j) \<and> j < length ?ts"
    using 2(3,4) by (auto simp: nth_list_update)
  then show ?case using 2 by (auto simp: nth_list_update)
qed simp

lemma running_nonzero:
  assumes "0 < timespec_ns e - timespec_ns b" "timespec_ns e - timespec_ns b < 2 ^ 64"
    and "time_start t = b" "time_end t = e"
  shows "sb_timer_running t"
proof -
  let ?d = "timespec_ns b - timespec_ns e"
  have "(word_of_int ?d :: u64) \<noteq> 0"
  proof
    assume "(word_of_int ?d :: u64) = 0"
    then have "2 ^ 64 dvd ?d" by (simp only: word_of_int_eq_0_iff) simp
    then have "2 ^ 64 dvd - ?d" by (simp only: dvd_minus_iff)
    with assms zdvd_not_zless [of "- ?d" "2 ^ 64"] show False by simp
  qed
  then show ?thesis using assms(3,4) by (simp add: sb_timer_running_def TIMESPEC_DIFF_ns word_gt_0)
qed

section \<open>Properties\<close>

text \<open>The latencies of a cumulative report are those of a single timer that had timed the
  events of all workers since the last checkpoint, in whatever order the threads are visited,
  and the report leaves every worker timer without statistics, so the next report starts
  afresh.\<close>

theorem report_cumulative_latency:
  assumes "nthreads p \<le> length (p_timers p)" "nthreads p \<le> length (p_timers_copy p)"
    and "length ess = nthreads p"
    and "\<forall>i < nthreads p. timer_stats (p_timers p ! i) = timer_stats (run_events (sb_timer_init t0) (ess ! i))"
    and "t = run_events (sb_timer_init t0) (concat ess)"
  shows "\<exists>st p'. report_cumulative fmt now1 now2 now3 (Some f) p = f st p' \<and>
    st_latency_min st = NS2SEC (sb_timer_min t) \<and> st_latency_avg st = NS2SEC (sb_timer_avg t) \<and>
    st_latency_max st = NS2SEC (sb_timer_max t) \<and> st_latency_sum st = NS2SEC (sb_timer_sum t) \<and>
    (\<forall>i < nthreads p. timer_stats (p_timers p' ! i) = no_stats)"
proof -
  obtain p' st where c: "checkpoint now1 now2 p = (p', st)" by (cases "checkpoint now1 now2 p")
  note cp = checkpoint_prog [OF c assms(1,2)]
  let ?a = "aggregate (nthreads p') (p_timers_copy p') zero_timer"
  have "map timer_stats (map (\<lambda>i. p_timers_copy p' ! i) [0..<nthreads p]) =
      map timer_stats (map (run_events (sb_timer_init t0)) ess)"
    using cp assms(3,4) by (intro nth_equalityI) auto
  then have "timer_stats ?a =
      timer_stats (foldl sb_timer_merge (sb_timer_init zero_timer) (map (run_events (sb_timer_init t0)) ess))"
    using cp unfolding aggregate_foldl by (simp add: foldl_merge_stats_cong)
  also have "\<dots> = timer_stats t" unfolding assms(5) by (rule aggregate_runs) simp
  finally have l: "timer_stats ?a = timer_stats t" .
  let ?st = "st\<lparr>st_latency_min := NS2SEC (sb_timer_min ?a), st_latency_max := NS2SEC (sb_timer_max ?a),
    st_latency_avg := NS2SEC (sb_timer_avg ?a), st_latency_sum := NS2SEC (sb_timer_sum ?a)\<rparr>"
  have "report_cumulative fmt now1 now2 now3 (Some f) p = f ?st p'"
    by (simp add: report_cumulative_def c Let_def)
  moreover have "st_latency_min ?st = NS2SEC (sb_timer_min t)" "st_latency_avg ?st = NS2SEC (sb_timer_avg t)"
    "st_latency_max ?st = NS2SEC (sb_timer_max t)" "st_latency_sum ?st = NS2SEC (sb_timer_sum t)"
    using latency_of_stats [OF l] by simp_all
  ultimately show ?thesis using cp by blast
qed

definition demo_events :: "(timespec \<times> timespec) list" where
  "demo_events = [(\<lparr>tv_sec = 1, tv_nsec = 0\<rparr>, \<lparr>tv_sec = 1, tv_nsec = 7\<rparr>)]"

definition sample_prog :: prog where
  "sample_prog = \<lparr>p_log = sample_log\<lparr>l_globals := globals_static\<lparr>g_threads := 1\<rparr>\<rparr>,
     p_counters = fst (sb_counters_init True 1 counters_static),
     p_timers = [run_events (sb_timer_init zero_timer) demo_events], p_timers_copy = [zero_timer],
     p_exec_timer = zero_timer, p_intermediate_timer = zero_timer, p_checkpoint_timer = zero_timer,
     p_queue_len = 0\<rparr>"

theorem report_cumulative_latency_witness:
  "timer_stats (p_timers (report_cumulative (\<lambda>s _. s) zero_timespec zero_timespec zero_timespec
      (Some (\<lambda>st p. p)) sample_prog) ! 0) = no_stats"
proof -
  have n: "nthreads sample_prog = 1" by (simp add: nthreads_def sample_prog_def sample_log_def)
  have t: "p_timers sample_prog = [run_events (sb_timer_init zero_timer) demo_events]"
    "p_timers_copy sample_prog = [zero_timer]" by (simp_all add: sample_prog_def)
  have p: "nthreads sample_prog \<le> length (p_timers sample_prog)"
    "nthreads sample_prog \<le> length (p_timers_copy sample_prog)"
    "length [demo_events] = nthreads sample_prog"
    "\<forall>i < nthreads sample_prog. timer_stats (p_timers sample_prog ! i) =
       timer_stats (run_events (sb_timer_init zero_timer) ([demo_events] ! i))"
    by (simp_all add: n t)
  from report_cumulative_latency [where f = "\<lambda>st p. p" and fmt = "\<lambda>s _. s" and
      ?now1.0 = zero_timespec and ?now2.0 = zero_timespec and ?now3.0 = zero_timespec, OF p refl]
  show ?thesis
    by (auto simp: n)
qed

text \<open>In a forced shutdown a thread that has completed its last event is taken for one with an
  unfinished transaction: if every worker is idle after an event that took any time, the
  report counts all of them as unfinished and adds one more event to each.\<close>

theorem forced_shutdown_miscounts:
  assumes "length copies = n"
    and "\<forall>i < n. \<exists>b e t. copies ! i = snd (sb_timer_checkpoint (fst (sb_timer_stop e (sb_timer_start b t)))) \<and>
      0 < timespec_ns e - timespec_ns b \<and> timespec_ns e - timespec_ns b < 2 ^ 64"
  shows "snd (stop_unfinished now [0..<n] copies 0) = n \<and>
    (\<forall>i < n. events (fst (stop_unfinished now [0..<n] copies 0) ! i) = events (copies ! i) + 1)"
proof -
  have "sb_timer_running (copies ! i)" if i: "i < n" for i
  proof -
    obtain b e t where be: "copies ! i = snd (sb_timer_checkpoint (fst (sb_timer_stop e (sb_timer_start b t))))"
      "0 < timespec_ns e - timespec_ns b" "timespec_ns e - timespec_ns b < 2 ^ 64"
      using assms(2) i by blast
    have "time_start (copies ! i) = b" "time_end (copies ! i) = e"
      by (simp_all add: be(1) sb_timer_checkpoint_def sb_timer_stop_def sb_timer_start_def Let_def)
    with be(2,3) show ?thesis by (intro running_nonzero)
  qed
  then have "\<forall>i \<in> set [0..<n]. sb_timer_running (copies ! i) \<and> i < length copies"
    using assms(1) by simp
  from stop_unfinished_all [OF this, of now 0] show ?thesis
    by (auto simp: sb_timer_stop_def Let_def)
qed

definition idle_copy :: sb_timer where
  "idle_copy = snd (sb_timer_checkpoint (fst (sb_timer_stop \<lparr>tv_sec = 5, tv_nsec = 3\<rparr>
     (sb_timer_start \<lparr>tv_sec = 5, tv_nsec = 1\<rparr> zero_timer))))"

theorem forced_shutdown_miscounts_witness:
  "snd (stop_unfinished zero_timespec [0..<2] [idle_copy, idle_copy] 0) = 2"
proof -
  have "\<forall>i < 2. \<exists>b e t. [idle_copy, idle_copy] ! i =
      snd (sb_timer_checkpoint (fst (sb_timer_stop e (sb_timer_start b t)))) \<and>
      0 < timespec_ns e - timespec_ns b \<and> timespec_ns e - timespec_ns b < 2 ^ 64"
  proof (intro allI impI exI conjI)
    fix i :: nat
    assume "i < 2"
    then show "[idle_copy, idle_copy] ! i = snd (sb_timer_checkpoint (fst (sb_timer_stop
        \<lparr>tv_sec = 5, tv_nsec = 3\<rparr> (sb_timer_start \<lparr>tv_sec = 5, tv_nsec = 1\<rparr> zero_timer))))"
      by (simp add: idle_copy_def nth_Cons')
  qed (simp_all add: timespec_ns_def)
  from forced_shutdown_miscounts [OF _ this, of zero_timespec] show ?thesis by simp
qed

end
