(* ===== verification/CmdLine.thy ===== *)
theory CmdLine
  imports Reports Rand
begin

text \<open>
  The command line and the start-up of the program (\<open>sysbench.c\<close>): the table of general
  options, the two passes over the arguments, the global configuration computed by
  \<open>init\<close>, and the dispatch of commands in \<open>main\<close>.
\<close>

section \<open>General options\<close>

definition SB_OPT :: "string \<Rightarrow> string \<Rightarrow> string option \<Rightarrow> sb_arg_type \<Rightarrow> sb_arg" where
  "SB_OPT n d v ty = \<lparr>arg_name = n, arg_desc = d, arg_value = v, arg_type = ty, arg_validate = None\<rparr>"

definition general_args :: "sb_arg list" where
  "general_args =
    [SB_OPT ''threads'' ''number of threads to use'' (Some ''1'') SB_ARG_TYPE_INT,
     SB_OPT ''events'' ''limit for total number of events'' (Some ''0'') SB_ARG_TYPE_INT,
     SB_OPT ''time'' ''limit for total execution time in seconds'' (Some ''10'') SB_ARG_TYPE_INT,
     SB_OPT ''warmup-time'' ''execute events for this many seconds with statistics disabled before the actual benchmark run with statistics enabled'' (Some ''0'') SB_ARG_TYPE_INT,
     SB_OPT ''forced-shutdown'' ''number of seconds to wait after the --time limit before forcing shutdown, or 'off' to disable'' (Some ''off'') SB_ARG_TYPE_STRING,
     SB_OPT ''thread-stack-size'' ''size of stack per thread'' (Some ''64K'') SB_ARG_TYPE_SIZE,
     SB_OPT ''thread-init-timeout'' ''wait time in seconds for worker threads to initialize'' (Some ''30'') SB_ARG_TYPE_INT,
     SB_OPT ''rate'' ''average transactions rate. 0 for unlimited rate'' (Some ''0'') SB_ARG_TYPE_INT,
     SB_OPT ''report-interval'' ''periodically report intermediate statistics with a specified interval in seconds. 0 disables intermediate reports'' (Some ''0'') SB_ARG_TYPE_INT,
     SB_OPT ''report-checkpoints'' ''dump full statistics and reset all counters at specified points in time. The argument is a list of comma-separated values representing the amount of time in seconds elapsed from start of test when report checkpoint(s) must be performed. Report checkpoints are off by default.'' (Some []) SB_ARG_TYPE_LIST,
     SB_OPT ''debug'' ''print more debugging info'' (Some ''off'') SB_ARG_TYPE_BOOL,
     SB_OPT ''validate'' ''perform validation checks where possible'' (Some ''off'') SB_ARG_TYPE_BOOL,
     SB_OPT ''help'' ''print help and exit'' (Some ''off'') SB_ARG_TYPE_BOOL,
     SB_OPT ''version'' ''print version and exit'' (Some ''off'') SB_ARG_TYPE_BOOL,
     SB_OPT ''config-file'' ''File containing command line options'' None SB_ARG_TYPE_FILE,
     SB_OPT ''luajit-cmd'' ''perform LuaJIT control command. This option is equivalent to 'luajit -j'. See LuaJIT documentation for more information'' None SB_ARG_TYPE_STRING]"

section \<open>Parsing arguments\<close>

text \<open>\<open>parse_option\<close> on the text behind the two dashes: the registry and 0 or 1.\<close>

definition parse_option :: "file_system \<Rightarrow> options \<Rightarrow> string \<Rightarrow> bool \<Rightarrow> options \<times> nat" where
  "parse_option fs opts arg ignore_unknown =
     (let name = takeWhile (\<lambda>c. c \<noteq> CHR ''='') arg;
          v = (if CHR ''='' \<in> set arg then Some (tl (dropWhile (\<lambda>c. c \<noteq> CHR ''='') arg)) else None)
      in case find_option opts name of
           Some i \<Rightarrow> (let (opts, r) = set_option fs opts name v (opt_type (opts ! i))
                     in (opts, if r = None then 1 else 0))
         | None \<Rightarrow>
             if ignore_unknown
             then (let (opts, r) = set_option fs opts name v SB_ARG_TYPE_STRING
                   in (opts, if r = None then 1 else 0))
             else (opts, 1))"

definition is_option :: "string \<Rightarrow> bool" where
  "is_option a \<longleftrightarrow> take 2 a = ''--''"

text \<open>The loop of \<open>parse_general_arguments\<close> over the arguments behind the program name: the
  registry, the arguments with the recognised ones set to NULL, the test and the command.
  The flag is false at an unrecognised third argument.\<close>

fun general_loop ::
  "file_system \<Rightarrow> options \<Rightarrow> string option \<Rightarrow> string option \<Rightarrow> string list \<Rightarrow>
     options \<times> string option list \<times> string option \<times> string option \<times> bool" where
  "general_loop fs opts testname cmdname [] = (opts, [], testname, cmdname, True)"
| "general_loop fs opts testname cmdname (a # as) =
     (if \<not> is_option a then
        if testname = None then
          (let (opts, rest, t, c, ok) = general_loop fs opts (Some a) cmdname as
           in (opts, Some a # rest, t, c, ok))
        else if cmdname = None then
          (let (opts, rest, t, c, ok) = general_loop fs opts testname (Some a) as
           in (opts, Some a # rest, t, c, ok))
        else (opts, map Some (a # as), testname, cmdname, False)
      else
        (let (opts, rc) = parse_option fs opts (drop 2 a) False;
             (opts, rest, t, c, ok) = general_loop fs opts testname cmdname as
         in (opts, (if rc = 0 then None else Some a) # rest, t, c, ok)))"

definition parse_general_arguments ::
  "file_system \<Rightarrow> options \<Rightarrow> string list \<Rightarrow> sb_globals \<Rightarrow>
     options \<times> string option list \<times> sb_globals \<times> nat" where
  "parse_general_arguments fs opts args g =
     (let (opts, rc) = sb_register_arg_set fs opts general_args
      in if rc \<noteq> 0 then (opts, map Some args, g, 1)
         else
           let (opts, rest, t, c, ok) = general_loop fs opts None None args
           in if \<not> ok then (opts, rest, g, 1)
              else (opts, rest, g\<lparr>g_testname := t, g_cmdname := c\<rparr>, 0))"

text \<open>\<open>parse_test_arguments\<close>: what is left must be an option of the test.\<close>

fun test_loop ::
  "file_system \<Rightarrow> options \<Rightarrow> string option list \<Rightarrow> options \<times> string option list \<times> nat" where
  "test_loop fs opts [] = (opts, [], 0)"
| "test_loop fs opts (None # as) =
     (let (opts, rest, rc) = test_loop fs opts as in (opts, None # rest, rc))"
| "test_loop fs opts (Some a # as) =
     (if \<not> is_option a then
        (let (opts, rest, rc) = test_loop fs opts as in (opts, Some a # rest, rc))
      else
        (let (opts, rc) = parse_option fs opts (drop 2 a) False
         in if rc \<noteq> 0 then (opts, Some a # as, 1)
            else (let (opts, rest, rc) = test_loop fs opts as in (opts, None # rest, rc))))"

definition parse_test_arguments ::
  "file_system \<Rightarrow> options \<Rightarrow> sb_arg list option \<Rightarrow> string option list \<Rightarrow>
     options \<times> string option list \<times> nat" where
  "parse_test_arguments fs opts test_args argv =
     (case test_args of
        None \<Rightarrow> test_loop fs opts argv
      | Some ta \<Rightarrow>
          (let (opts, rc) = sb_register_arg_set fs opts ta
           in if rc \<noteq> 0 then (opts, argv, 1) else test_loop fs opts argv))"

section \<open>Initialisation\<close>

text \<open>\<open>checkpoint_cmp\<close>, and \<open>qsort\<close> as the sorting of a list by a comparison function.\<close>

definition checkpoint_cmp :: "u32 \<Rightarrow> u32 \<Rightarrow> int" where
  "checkpoint_cmp a b = sint (a - b)"

fun qsort_insert :: "('a \<Rightarrow> 'a \<Rightarrow> int) \<Rightarrow> 'a \<Rightarrow> 'a list \<Rightarrow> 'a list" where
  "qsort_insert cmp x [] = [x]"
| "qsort_insert cmp x (y # ys) = (if cmp x y \<le> 0 then x # y # ys else y # qsort_insert cmp x ys)"

fun qsort :: "('a \<Rightarrow> 'a \<Rightarrow> int) \<Rightarrow> 'a list \<Rightarrow> 'a list" where
  "qsort cmp [] = []"
| "qsort cmp (x # xs) = qsort_insert cmp x (qsort cmp xs)"

text \<open>The loop over the values of \<open>--report-checkpoints\<close>: the array, the count, and what
  ended it.  The count is raised before it is checked against the size of the array.\<close>

datatype checkpoints_end = Checkpoints_ok | Invalid_checkpoint string | Too_many_checkpoints

fun checkpoints_loop :: "string list \<Rightarrow> u32 list \<Rightarrow> nat \<Rightarrow> u32 list \<times> nat \<times> checkpoints_end" where
  "checkpoints_loop [] cps n = (cps, n, Checkpoints_ok)"
| "checkpoints_loop (v # vs) cps n =
     (let (res, endptr) = strtol10 v
      in if endptr \<noteq> [] \<or> res < 0 \<or> res > INT_MAX then (cps, n, Invalid_checkpoint v)
         else
           let n = n + 1
           in if n > MAX_CHECKPOINTS then (cps, n, Too_many_checkpoints)
              else checkpoints_loop vs (cps[n - 1 := word_of_int res]) n)"

definition upper :: "string \<Rightarrow> string" where
  "upper s = map toupper s"

definition trunc_u32 :: "real \<Rightarrow> u32" where
  "trunc_u32 x = word_of_int \<lfloor>x\<rfloor>"

text \<open>The \<open>--forced-shutdown\<close> value: \<open>None\<close> when it is invalid.\<close>

definition forced_shutdown :: "string option \<Rightarrow> sb_globals \<Rightarrow> sb_globals option" where
  "forced_shutdown tmp g =
     (case tmp of
        None \<Rightarrow> Some (g\<lparr>g_force_shutdown := True, g_timeout := trunc_u32 (NS2SEC (g_max_time_ns g) / 20)\<rparr>)
      | Some s \<Rightarrow>
          if upper s \<noteq> ''OFF'' then
            (let (v, endptr) = strtol10 s;
                 g = g\<lparr>g_force_shutdown := True, g_timeout := word_of_int v\<rparr>
             in if endptr \<noteq> [] \<and> hd endptr = CHR ''%'' then
                  Some (g\<lparr>g_timeout := trunc_u32 (real (unat (g_timeout g)) * NS2SEC (g_max_time_ns g) / 100)\<rparr>)
                else if s = [] \<or> endptr \<noteq> [] then None
                else Some g)
          else Some (g\<lparr>g_force_shutdown := False\<rparr>))"

record init_state =
  i_prog :: prog
  i_threads :: thread_state
  i_init_timeout :: int
  i_rand :: "(int \<times> rand_params \<times> sb_rng_state_t \<times> unique_state) option"

datatype init_result = Init_exit | Init_failed init_state | Init_ok init_state

abbreviation iglob :: "init_state \<Rightarrow> sb_globals" where "iglob s \<equiv> glob (i_prog s)"
abbreviation iopts :: "init_state \<Rightarrow> options" where "iopts s \<equiv> l_opts (p_log (i_prog s))"

definition iset :: "(sb_globals \<Rightarrow> sb_globals) \<Rightarrow> init_state \<Rightarrow> init_state" where
  "iset f s = s\<lparr>i_prog := set_globals f (i_prog s)\<rparr>"

definition isay :: "log_msg_priority_t \<Rightarrow> string \<Rightarrow> init_state \<Rightarrow> init_state" where
  "isay pr t s = s\<lparr>i_prog := say pr t (i_prog s)\<rparr>"

text \<open>The time and event limits.\<close>

definition init_limits :: "sprintf \<Rightarrow> init_state \<Rightarrow> init_result" where
  "init_limits fmt s =
     (case (sb_get_value_int (iopts s) ''threads'', sb_get_value_int (iopts s) ''thread-init-timeout'') of
        (Some nthr, Some tmo) \<Rightarrow>
          (let s = iset (\<lambda>g. g\<lparr>g_threads := word_of_int nthr\<rparr>) s;
               s = s\<lparr>i_init_timeout := tmo\<rparr>
           in if g_threads (iglob s) \<le> 0
              then Init_failed (isay LOG_FATAL (fmt (''Invalid value for --threads: %d.'' @ [CHR 0x0A]) [A_int (sint (g_threads (iglob s)))]) s)
              else
                case (sb_get_value_int (iopts s) ''events'', sb_get_value_int (iopts s) ''warmup-time'') of
                  (Some nev, Some warmup) \<Rightarrow>
                    (let s = iset (\<lambda>g. g\<lparr>g_max_events := word_of_int nev, g_warmup_time := warmup\<rparr>) s
                     in if warmup < 0
                        then Init_failed (isay LOG_FATAL (fmt (''Invalid value for --warmup-time: %d.'' @ [CHR 0x0A]) [A_int warmup]) s)
                        else
                          case sb_get_value_int (iopts s) ''time'' of
                            None \<Rightarrow> Init_exit
                          | Some tlimit \<Rightarrow>
                             (let s = iset (\<lambda>g. g\<lparr>g_max_time_ns := SEC2NS tlimit\<rparr>) s;
                                  s = (if g_max_events (iglob s) = 0 \<and> g_max_time_ns (iglob s) = 0
                                       then isay LOG_WARNING ''Both event and time limits are disabled, running an endless test'' s
                                       else s)
                              in if g_max_time_ns (iglob s) > 0 then
                                   let s = (if g_warmup_time (iglob s) > 0
                                            then iset (\<lambda>g. g\<lparr>g_max_time_ns := g_max_time_ns g + SEC2NS (g_warmup_time g)\<rparr>) s
                                            else s);
                                       tmp = sb_get_value_string (iopts s) ''forced-shutdown''
                                   in case forced_shutdown tmp (iglob s) of
                                        None \<Rightarrow> Init_failed (isay LOG_FATAL (fmt (''Invalid value for --forced-shutdown: '%s'' @ [CHR 0x27]) [A_str (the tmp)]) s)
                                      | Some g \<Rightarrow> Init_ok (iset (\<lambda>_. g) s)
                                 else Init_ok s))
                | _ \<Rightarrow> Init_exit)
      | _ \<Rightarrow> Init_exit)"

definition init_checkpoints :: "sprintf \<Rightarrow> init_state \<Rightarrow> init_result" where
  "init_checkpoints fmt s =
     (let s = iset (\<lambda>g. g\<lparr>g_n_checkpoints := 0\<rparr>) s;
          vs = (case sb_get_value_list (iopts s) ''report-checkpoints'' of None \<Rightarrow> [] | Some vs \<Rightarrow> vs);
          (cps, n, e) = checkpoints_loop vs (g_checkpoints (iglob s)) 0;
          s = iset (\<lambda>g. g\<lparr>g_checkpoints := cps, g_n_checkpoints := of_nat n\<rparr>) s
      in case e of
           Invalid_checkpoint v \<Rightarrow>
             Init_failed (isay LOG_FATAL (fmt (''Invalid value for --report-checkpoints: '%s'' @ [CHR 0x27]) [A_str v]) s)
         | Too_many_checkpoints \<Rightarrow>
             Init_failed (isay LOG_FATAL (fmt ''Too many checkpoints in --report-checkpoints (up to %d can be defined)''
               [A_int (int MAX_CHECKPOINTS)]) s)
         | Checkpoints_ok \<Rightarrow>
             if n > 0
             then Init_ok (iset (\<lambda>g. g\<lparr>g_checkpoints := qsort checkpoint_cmp (take n cps) @ drop n cps\<rparr>) s)
             else Init_ok s)"

text \<open>The timers: one per worker and one for the background threads, zeroed, then those of the
  workers initialised.\<close>

definition init_timers :: "bool \<Rightarrow> init_state \<Rightarrow> init_result" where
  "init_timers alloc_ok s =
     (if \<not> alloc_ok then Init_failed (isay LOG_FATAL ''Memory allocation failure'' s)
      else
        let n = unat (g_threads (iglob s) + 1);
            ts = fold (\<lambda>i ts. ts[i := sb_timer_init (ts ! i)]) [0..<unat (g_threads (iglob s))]
                   (replicate n zero_timer);
            s = s\<lparr>i_prog := (i_prog s)\<lparr>p_timers := ts, p_timers_copy := replicate n zero_timer\<rparr>\<rparr>
        in Init_ok (iset (\<lambda>g. g\<lparr>g_luajit_cmd := sb_get_value_string (iopts s) ''luajit-cmd''\<rparr>) s))"

text \<open>Debugging, validation, random numbers, the rate and the report interval.\<close>

definition init_flags ::
  "file_system \<Rightarrow> (string \<Rightarrow> real) \<Rightarrow> u64 list \<Rightarrow> init_state \<Rightarrow> init_result" where
  "init_flags fs strtod random s =
     (let s = iset (\<lambda>g. g\<lparr>g_debug := sb_get_value_flag (iopts s) ''debug''\<rparr>) s;
          s = (if g_debug (iglob s) then
                 case find_option (iopts s) ''verbosity'' of
                   None \<Rightarrow> s
                 | Some i \<Rightarrow>
                     (let o' = iopts s ! i;
                          os = fst (set_option fs (iopts s) (opt_name o') (Some ''5'') (opt_type o'))
                      in s\<lparr>i_prog := (i_prog s)\<lparr>p_log := (p_log (i_prog s))\<lparr>l_opts := os\<rparr>\<rparr>\<rparr>)
               else s);
          s = iset (\<lambda>g. g\<lparr>g_validate := sb_get_value_flag (iopts s) ''validate''\<rparr>) s
      in case sb_rand_init strtod random (iopts s) of
           Rand_exit \<Rightarrow> Init_exit
         | Rand_failed \<Rightarrow> Init_failed s
         | Rand_ok seed prm rng u \<Rightarrow>
             (let s = s\<lparr>i_rand := Some (seed, prm, rng, u)\<rparr>
              in case (sb_get_value_int (iopts s) ''rate'', sb_get_value_int (iopts s) ''report-interval'') of
                   (Some rate, Some interval) \<Rightarrow>
                     Init_ok (iset (\<lambda>g. g\<lparr>g_tx_rate := word_of_int rate, g_report_interval := word_of_int interval\<rparr>) s)
                 | _ \<Rightarrow> Init_exit))"

definition init_bind :: "init_result \<Rightarrow> (init_state \<Rightarrow> init_result) \<Rightarrow> init_result" where
  "init_bind r f = (case r of Init_ok s \<Rightarrow> f s | _ \<Rightarrow> r)"

definition init ::
  "sprintf \<Rightarrow> file_system \<Rightarrow> (string \<Rightarrow> real) \<Rightarrow> u64 list \<Rightarrow> bool \<Rightarrow> bool \<Rightarrow> init_state \<Rightarrow> init_result" where
  "init fmt fs strtod random malloc_ok alloc_ok s =
     init_bind (init_limits fmt s) (\<lambda>s.
       let (ts, l, err) = sb_thread_init malloc_ok (i_threads s) (p_log (i_prog s));
           s = s\<lparr>i_threads := ts, i_prog := (i_prog s)\<lparr>p_log := l\<rparr>\<rparr>
       in if err \<noteq> 0 then Init_failed s
          else init_bind (init_flags fs strtod random s) (\<lambda>s.
                 init_bind (init_checkpoints fmt s) (init_timers alloc_ok)))"

text \<open>\<open>find_test\<close> on the list of registered tests, by short name.\<close>

fun find_test :: "string \<Rightarrow> ('t \<Rightarrow> string) \<Rightarrow> 't list \<Rightarrow> 't option" where
  "find_test n sname [] = None"
| "find_test n sname (t # ts) = (if sname t = n then Some t else find_test n sname ts)"

section \<open>Lemmas\<close>

lemma handler_process_keeps [simp]:
  "l_globals (handler_process lh m s) = l_globals s" "l_opts (handler_process lh m s) = l_opts s"
  by (simp_all add: handler_process_def text_handler_process_def printf_def Let_def
      split: log_handler.splits log_msg_t.splits)

lemma fold_handlers_keep:
  "l_globals (fold (\<lambda>lh. handler_process lh m) hs s) = l_globals s \<and>
   l_opts (fold (\<lambda>lh. handler_process lh m) hs s) = l_opts s"
  by (induction hs arbitrary: s) simp_all

lemma log_text_keeps [simp]:
  "l_globals (log_text p t s) = l_globals s" "l_opts (log_text p t s) = l_opts s"
  by (simp_all add: log_text_def emit_def printf_def log_msg_def fold_handlers_keep)

lemma isay_keeps [simp]:
  "iglob (isay p t s) = iglob s" "iopts (isay p t s) = iopts s"
  by (simp_all add: isay_def say_def)

lemma iset_fields [simp]:
  "iglob (iset f s) = f (iglob s)" "iopts (iset f s) = iopts s"
  by (simp_all add: iset_def set_globals_def)

lemma checkpoint_cmp_le:
  assumes "unat a < 2 ^ 31" "unat b < 2 ^ 31"
  shows "checkpoint_cmp a b \<le> 0 \<longleftrightarrow> a \<le> b"
proof -
  have n: "uint a < 2 ^ 31" "uint b < 2 ^ 31" "0 \<le> uint a" "0 \<le> uint b"
  proof -
    have "int (unat a) < int (2 ^ 31)" "int (unat b) < int (2 ^ 31)"
      using assms by (simp_all only: of_nat_less_iff)
    then show "uint a < 2 ^ 31" "uint b < 2 ^ 31" by simp_all
  qed simp_all
  have "checkpoint_cmp a b = uint a - uint b"
  proof -
    have "a - b = word_of_int (uint a - uint b)" by (simp add: word_of_int_uint)
    then have "checkpoint_cmp a b = signed_take_bit 31 (uint a - uint b)"
      by (simp only: checkpoint_cmp_def signed_of_int) simp
    also have "\<dots> = uint a - uint b"
      by (rule signed_take_bit_int_eq_self) (use n in \<open>simp_all, linarith+\<close>)
    finally show ?thesis .
  qed
  then show ?thesis by (simp add: word_le_def)
qed

lemma mset_qsort_insert [simp]: "mset (qsort_insert cmp x xs) = add_mset x (mset xs)"
  by (induction cmp x xs rule: qsort_insert.induct) simp_all

lemma mset_qsort [simp]: "mset (qsort cmp xs) = mset xs"
  by (induction xs) simp_all

lemma set_qsort [simp]: "set (qsort cmp xs) = set xs"
proof -
  have "set_mset (mset (qsort cmp xs)) = set_mset (mset xs)" by simp
  then show ?thesis by (simp only: set_mset_mset)
qed

lemma length_qsort [simp]: "length (qsort cmp xs) = length xs"
proof -
  have "size (mset (qsort cmp xs)) = size (mset xs)" by simp
  then show ?thesis by (simp only: size_mset)
qed

text \<open>Sorting by a comparison that agrees with a linear order on the elements of the list.\<close>

lemma sorted_qsort_insert:
  fixes x :: "'a::linorder"
  assumes "\<forall>a \<in> insert x (set xs). \<forall>b \<in> insert x (set xs). cmp a b \<le> 0 \<longleftrightarrow> a \<le> b" "sorted xs"
  shows "sorted (qsort_insert cmp x xs)"
  using assms
proof (induction cmp x xs rule: qsort_insert.induct)
  case (2 cmp x y ys)
  have "set (qsort_insert cmp x ys) = insert x (set ys)"
    by (simp add: set_mset_mset [symmetric] del: set_mset_mset)
  with 2 show ?case by auto
qed simp

lemma sorted_qsort:
  fixes xs :: "'a::linorder list"
  assumes "\<forall>a \<in> set xs. \<forall>b \<in> set xs. cmp a b \<le> 0 \<longleftrightarrow> a \<le> b"
  shows "sorted (qsort cmp xs)"
  using assms by (induction xs) (simp_all add: sorted_qsort_insert)

text \<open>The value of an accepted checkpoint.\<close>

definition checkpoint_value :: "string \<Rightarrow> u32" where
  "checkpoint_value v = word_of_int (fst (strtol10 v))"

lemma checkpoints_loop_ok:
  assumes "checkpoints_loop vs cps n = (cps', m, Checkpoints_ok)" "length cps = MAX_CHECKPOINTS" "n \<le> MAX_CHECKPOINTS"
  shows "m = n + length vs \<and> m \<le> MAX_CHECKPOINTS \<and> length cps' = length cps \<and>
    take m cps' = take n cps @ map checkpoint_value vs \<and>
    (\<forall>v \<in> set vs. unat (checkpoint_value v) < 2 ^ 31)"
  using assms
proof (induction vs cps n rule: checkpoints_loop.induct)
  case (2 v vs cps n)
  obtain res endptr where r: "strtol10 v = (res, endptr)" by (cases "strtol10 v")
  have ok: "endptr = []" "0 \<le> res" "res \<le> INT_MAX" "n + 1 \<le> MAX_CHECKPOINTS"
    and rest: "checkpoints_loop vs (cps[n := word_of_int res]) (n + 1) = (cps', m, Checkpoints_ok)"
    using 2(2) r by (auto simp: Let_def split: if_splits)
  have "unat (checkpoint_value v) < 2 ^ 31"
    using ok r by (simp add: checkpoint_value_def unsigned_of_int take_bit_int_eq_self nat_less_iff)
  moreover have "take (Suc n) (cps[n := word_of_int res]) = take n cps @ [checkpoint_value v]"
    using 2(3,4) ok r by (simp add: take_Suc_conv_app_nth checkpoint_value_def)
  moreover have "m = n + 1 + length vs \<and> m \<le> MAX_CHECKPOINTS \<and> length cps' = length (cps[n := word_of_int res]) \<and>
    take m cps' = take (n + 1) (cps[n := word_of_int res]) @ map checkpoint_value vs \<and>
    (\<forall>v \<in> set vs. unat (checkpoint_value v) < 2 ^ 31)"
    using 2(1) [OF r [symmetric] refl _ refl] ok rest 2(3) by auto
  ultimately show ?case by auto
qed simp

text \<open>How many of the two names are known.\<close>

definition names_known :: "string option \<Rightarrow> string option \<Rightarrow> nat" where
  "names_known t c = (if t = None then 0 else if c = None then 1 else 2)"

abbreviation positional :: "string list \<Rightarrow> string list" where
  "positional args \<equiv> filter (\<lambda>a. \<not> is_option a) args"

definition opt_nth :: "nat \<Rightarrow> 'a list \<Rightarrow> 'a option" where
  "opt_nth n xs = (if n < length xs then Some (xs ! n) else None)"

lemma opt_nth_simps [simp]:
  "opt_nth n [] = None" "opt_nth 0 (x # xs) = Some x" "opt_nth (Suc n) (x # xs) = opt_nth n xs"
  by (simp_all add: opt_nth_def)

lemma general_loop_spec:
  "general_loop fs opts t c args = (opts', rest, t', c', ok) \<Longrightarrow> t = None \<longrightarrow> c = None \<Longrightarrow>
    list_all2 (\<lambda>a r. r = Some a \<or> r = None \<and> is_option a) args rest \<and>
    (ok \<longleftrightarrow> names_known t c + length (positional args) \<le> 2) \<and>
    (ok \<longrightarrow> t' = (if t = None then opt_nth 0 (positional args) else t) \<and>
       c' = (if t = None then opt_nth 1 (positional args)
             else if c = None then opt_nth 0 (positional args) else c))"
proof (induction fs opts t c args arbitrary: opts' rest t' c' ok rule: general_loop.induct)
  case (2 fs opts t c a as)
  show ?case
  proof (cases "is_option a")
    case True
    obtain o1 rc where p: "parse_option fs opts (drop 2 a) False = (o1, rc)"
      by (cases "parse_option fs opts (drop 2 a) False")
    obtain o2 rest2 where g: "general_loop fs o1 t c as = (o2, rest2, t', c', ok)"
      "rest = (if rc = 0 then None else Some a) # rest2"
      using 2(4) True p by (cases "general_loop fs o1 t c as") auto
    from 2(3) [OF _ p [symmetric] refl g(1) 2(5)] True g(2) show ?thesis by simp
  next
    case False
    show ?thesis
    proof (cases t)
      case None
      obtain o2 rest2 where g: "general_loop fs opts (Some a) c as = (o2, rest2, t', c', ok)"
        "rest = Some a # rest2"
        using 2(4) False None by (cases "general_loop fs opts (Some a) c as") auto
      from 2(1) [OF False None g(1)] False g(2) None 2(5) show ?thesis
        by (auto simp: names_known_def)
    next
      case (Some tn)
      show ?thesis
      proof (cases c)
        case None
        obtain o2 rest2 where g: "general_loop fs opts t (Some a) as = (o2, rest2, t', c', ok)"
          "rest = Some a # rest2"
          using 2(4) False None Some by (cases "general_loop fs opts t (Some a) as") auto
        from 2(2) [OF False _ None g(1)] False g(2) None Some show ?thesis
          by (auto simp: names_known_def)
      next
        case (Some cn)
        then show ?thesis using 2(4) \<open>t = Some tn\<close> False
          by (auto simp: names_known_def list_all2_map2 list.rel_refl)
      qed
    qed
  qed
qed (auto simp: names_known_def)

text \<open>The registry after the options among some arguments have been tried.\<close>

definition options_after :: "file_system \<Rightarrow> options \<Rightarrow> string list \<Rightarrow> options" where
  "options_after fs opts args =
     foldl (\<lambda>opts a. if is_option a then fst (parse_option fs opts (drop 2 a) False) else opts) opts args"

lemma options_after_simps [simp]:
  "options_after fs opts [] = opts"
  "options_after fs opts (a # as) =
     options_after fs (if is_option a then fst (parse_option fs opts (drop 2 a) False) else opts) as"
  by (simp_all add: options_after_def)

text \<open>An argument is consumed when it is reached, is an option and parses in the registry as the
  arguments before it have left it.\<close>

definition consumed :: "file_system \<Rightarrow> options \<Rightarrow> nat \<Rightarrow> string list \<Rightarrow> nat \<Rightarrow> bool" where
  "consumed fs opts k args i \<longleftrightarrow> is_option (args ! i) \<and> k + length (positional (take i args)) \<le> 2 \<and>
     snd (parse_option fs (options_after fs opts (take i args)) (drop 2 (args ! i)) False) = 0"

lemma consumed_simps:
  "consumed fs opts k (a # as) 0 \<longleftrightarrow> is_option a \<and> k \<le> 2 \<and> snd (parse_option fs opts (drop 2 a) False) = 0"
  "consumed fs opts k (a # as) (Suc i) \<longleftrightarrow> consumed fs
     (if is_option a then fst (parse_option fs opts (drop 2 a) False) else opts) (if is_option a then k else Suc k) as i"
  by (simp_all add: consumed_def)

lemma not_consumed: "2 < k \<Longrightarrow> \<not> consumed fs opts k args i"
  by (simp add: consumed_def)

lemma general_loop_slots:
  "general_loop fs opts t c args = (opts', rest, t', c', ok) \<Longrightarrow> t = None \<longrightarrow> c = None \<Longrightarrow>
    rest = map (\<lambda>i. if consumed fs opts (names_known t c) args i then None else Some (args ! i)) [0..<length args] \<and>
    (ok \<longrightarrow> opts' = options_after fs opts args)"
proof (induction fs opts t c args arbitrary: opts' rest t' c' ok rule: general_loop.induct)
  case (2 fs opts t c a as)
  have split: "map h [0..<length (a # as)] = h 0 # map (\<lambda>i. h (Suc i)) [0..<length as]" for h :: "nat \<Rightarrow> string option"
    by (simp only: upt_rec [of 0] length_Cons map_Suc_upt [symmetric] list.map_comp comp_def) simp
  show ?case
  proof (cases "is_option a")
    case True
    obtain o1 rc where p: "parse_option fs opts (drop 2 a) False = (o1, rc)"
      by (cases "parse_option fs opts (drop 2 a) False")
    obtain o2 rest2 where g: "general_loop fs o1 t c as = (o2, rest2, t', c', ok)"
      "rest = (if rc = 0 then None else Some a) # rest2" "opts' = o2"
      using 2(4) True p by (cases "general_loop fs o1 t c as") auto
    have "names_known t c \<le> 2" by (simp add: names_known_def)
    with 2(3) [OF _ p [symmetric] refl g(1) 2(5)] True g p show ?thesis
      unfolding split by (simp add: consumed_simps)
  next
    case False
    show ?thesis
    proof (cases "t \<noteq> None \<and> c \<noteq> None")
      case True
      have "map (\<lambda>i. Some (as ! i)) [0..<length as] = map Some as" by (rule nth_equalityI) simp_all
      moreover have "rest = map Some (a # as)" "\<not> ok" "names_known t c = 2"
        using 2(4) False True by (auto simp: names_known_def)
      ultimately show ?thesis using False unfolding split by (simp add: consumed_simps not_consumed)
    next
      case one: False
      define t1 where "t1 = (if t = None then Some a else t)"
      define c1 where "c1 = (if t = None then c else Some a)"
      obtain o2 rest2 where g: "general_loop fs opts t1 c1 as = (o2, rest2, t', c', ok)"
        "rest = Some a # rest2" "opts' = o2"
        using 2(4) False one unfolding t1_def c1_def
        by (cases "t = None"; cases "general_loop fs opts (if t = None then Some a else t) (if t = None then c else Some a) as") auto
      have k: "names_known t1 c1 = Suc (names_known t c)" using one 2(5) by (auto simp: t1_def c1_def names_known_def)
      have "rest2 = map (\<lambda>i. if consumed fs opts (names_known t1 c1) as i then None else Some (as ! i)) [0..<length as] \<and>
          (ok \<longrightarrow> o2 = options_after fs opts as)"
        using 2(1,2) False one g(1) 2(5) unfolding t1_def c1_def by (cases "t = None") auto
      then show ?thesis using False g unfolding split k by (simp add: consumed_simps)
    qed
  qed
qed simp

text \<open>Registering a table without validators in a registry without validators succeeds.\<close>

definition quiet :: "options \<Rightarrow> bool" where
  "quiet opts \<longleftrightarrow> (\<forall>opt \<in> set opts. opt_validate opt = None)"

definition arg_ok :: "sb_arg \<Rightarrow> bool" where
  "arg_ok a \<longleftrightarrow> arg_type a \<notin> {SB_ARG_TYPE_NULL, SB_ARG_TYPE_MAX} \<and>
     (arg_type a = SB_ARG_TYPE_BOOL \<longrightarrow> is_on (arg_value a) \<or> is_off (arg_value a)) \<and>
     (arg_type a = SB_ARG_TYPE_FILE \<longrightarrow> arg_value a = None)"

lemma quiet_upd:
  assumes "quiet opts" "i < length opts" "opt_validate (f (opts ! i)) = None"
  shows "quiet (upd_option i f opts)"
  using assms set_update_subset_insert [of opts i "f (opts ! i)"]
  by (auto simp: quiet_def upd_option_def)

lemma quiet_add_option:
  assumes "quiet opts" "add_option opts n = (opts', i)"
  shows "quiet opts' \<and> i < length opts' \<and> opt_validate (opts' ! i) = None"
proof (cases "find_option opts n")
  case (Some j)
  then have "j < length opts" by (auto simp: find_option_def dest: index_of_Some)
  with Some assms show ?thesis by (auto simp: add_option_def quiet_def)
qed (use assms in \<open>auto simp: add_option_def quiet_def new_option_def\<close>)

lemma quiet_fold_add: "opt_validate (fold add_value vs opt) = opt_validate opt"
  by (induction vs arbitrary: opt) (simp_all add: add_value_def)

lemma quiet_set_option:
  assumes "quiet opts" "arg_ok a" "set_option fs opts (arg_name a) (arg_value a) (arg_type a) = (opts', r)"
  shows "\<exists>i. r = Some i \<and> quiet opts' \<and> i < length opts'"
proof -
  obtain o1 k where a: "add_option opts (arg_name a) = (o1, k)" by fastforce
  note q = quiet_add_option [OF assms(1) a]
  let ?o = "upd_option k (\<lambda>opt. (free_values opt)\<lparr>opt_type := arg_type a\<rparr>) o1"
  have o: "quiet ?o" "opt_validate (?o ! k) = None" "k < length ?o"
    using q by (auto simp: nth_upd_option free_values_def intro: quiet_upd)
  have f: "quiet (upd_option k g ?o)" if "\<And>opt. opt_validate (g opt) = opt_validate opt" for g
    by (rule quiet_upd) (use o that in \<open>auto simp only: length_upd_option\<close>)
  have "opt_validate (add_value v opt) = opt_validate opt" for v opt by (simp add: add_value_def)
  with assms(2,3) o f [of "add_value _"] f [of "fold add_value _"] show ?thesis
    by (cases "arg_type a")
      (auto simp: set_option_def a arg_ok_def quiet_fold_add Let_def split: if_splits)
qed

lemma register_args_succeed:
  "quiet opts \<Longrightarrow> \<forall>a \<in> set args. arg_ok a \<Longrightarrow> snd (register_args fs None opts args) = 0"
proof (induction args arbitrary: opts)
  case (Cons a args)
  obtain o1 r where s: "set_option fs opts (arg_name a) (arg_value a) (arg_type a) = (o1, r)" by fastforce
  from quiet_set_option [OF Cons.prems(1) _ s] Cons.prems(2)
  obtain i where i: "r = Some i" "quiet o1" "i < length o1" by auto
  then have "quiet (upd_option i (\<lambda>opt. opt\<lparr>opt_validate := None\<rparr>) o1)" by (intro quiet_upd) auto
  from Cons.IH [OF this] Cons.prems(2) s i show ?case by simp
qed simp

lemma general_args_register:
  assumes "quiet opts"
  shows "snd (sb_register_arg_set fs opts general_args) = 0"
proof -
  have "\<forall>a \<in> set general_args. arg_ok a"
    by (simp add: general_args_def SB_OPT_def arg_ok_def is_off_def)
  then have "snd (register_args fs None opts general_args) = 0" by (rule register_args_succeed [OF assms])
  moreover have "(case general_args of [] \<Rightarrow> None | a # _ \<Rightarrow> arg_validate a) = None"
    by (simp add: general_args_def SB_OPT_def)
  ultimately show ?thesis by (simp only: sb_register_arg_set_def)
qed

text \<open>Numbers too small to vanish in a word.\<close>

lemma word_of_small_int:
  assumes "\<bar>n\<bar> < 2 ^ 32" shows "(word_of_int n :: u32) = 0 \<longleftrightarrow> n = 0"
  using assms dvd_imp_le_int [of n "2 ^ 32"] by (auto simp: word_of_int_eq_0_iff)

lemma word_of_small_long:
  assumes "\<bar>n\<bar> < 2 ^ 64" shows "(word_of_int n :: u64) = 0 \<longleftrightarrow> n = 0"
  using assms dvd_imp_le_int [of n "2 ^ 64"] by (auto simp: word_of_int_eq_0_iff)

lemma upper_off: "upper ''off'' = ''OFF''"
  by (simp add: upper_def toupper_def char_code_def char_of_def bit_0)

section \<open>Properties\<close>

text \<open>C21: The arguments are consumed as documented.  Exactly the options that are reached and that
  parse, in the registry as the options before them have left it, are set to NULL; every other
  argument stays for the test-specific pass.  The first argument without dashes is the test and
  the second the command; exactly a third one is an error, which stops the loop and leaves the
  names unset.\<close>

theorem parse_general_arguments_correct:
  assumes "sb_register_arg_set fs opts general_args = (o1, 0)"
    and "parse_general_arguments fs opts args g = (o2, rest, g', rc)"
  shows "length rest = length args \<and>
    (\<forall>i < length args. rest ! i =
       (if is_option (args ! i) \<and> length (positional (take i args)) \<le> 2 \<and>
           snd (parse_option fs (options_after fs o1 (take i args)) (drop 2 (args ! i)) False) = 0
        then None else Some (args ! i))) \<and>
    (rc = 0 \<longleftrightarrow> length (positional args) \<le> 2) \<and>
    (rc = 0 \<longrightarrow> o2 = options_after fs o1 args \<and>
       g_testname g' = opt_nth 0 (positional args) \<and> g_cmdname g' = opt_nth 1 (positional args)) \<and>
    (rc \<noteq> 0 \<longrightarrow> g' = g)"
proof -
  obtain o3 r t c ok where l: "general_loop fs o1 None None args = (o3, r, t, c, ok)"
    by (cases "general_loop fs o1 None None args")
  have n: "names_known None None = 0" by (simp add: names_known_def)
  from general_loop_spec [OF l] general_loop_slots [OF l] show ?thesis
    using assms l by (auto simp: parse_general_arguments_def names_known_def consumed_def split: if_splits)
qed

theorem parse_general_arguments_correct_witness:
  "\<exists>rest o2 g'. parse_general_arguments (\<lambda>_. None) [] [''cpu'', ''run'', ''again''] globals_static = (o2, rest, g', 1)"
proof -
  have "snd (sb_register_arg_set (\<lambda>_. None) [] general_args) = 0"
    by (rule general_args_register) (simp add: quiet_def)
  then obtain o1 where r: "sb_register_arg_set (\<lambda>_. None) [] general_args = (o1, 0)"
    by (metis prod.collapse)
  obtain o2 rest g' rc where p:
    "parse_general_arguments (\<lambda>_. None) [] [''cpu'', ''run'', ''again''] globals_static = (o2, rest, g', rc)"
    by (metis prod_cases4)
  have "rc \<noteq> 0"
    using parse_general_arguments_correct [OF r p] by (simp add: is_option_def)
  moreover have "rc = 0 \<or> rc = 1"
    using p by (auto simp: parse_general_arguments_def split: prod.splits if_splits)
  ultimately show ?thesis using p by auto
qed

text \<open>The checkpoints of a successful start are the values of \<open>--report-checkpoints\<close>, at most
  256 of them, sorted: \<open>checkpoint_cmp\<close>, a difference of unsigned numbers read as an int, is
  an order because every accepted value is below \<open>2^31\<close>.\<close>

theorem init_checkpoints_sorted:
  assumes "init_checkpoints fmt s = Init_ok s'" "length (g_checkpoints (iglob s)) = MAX_CHECKPOINTS"
    and "sb_get_value_list (iopts s) ''report-checkpoints'' = Some vs"
  shows "unat (g_n_checkpoints (iglob s')) = length vs \<and> length vs \<le> MAX_CHECKPOINTS \<and>
    sorted (take (length vs) (g_checkpoints (iglob s'))) \<and>
    mset (take (length vs) (g_checkpoints (iglob s'))) = mset (map checkpoint_value vs)"
proof -
  obtain cps n e where l: "checkpoints_loop vs (g_checkpoints (iglob s)) 0 = (cps, n, e)"
    by (cases "checkpoints_loop vs (g_checkpoints (iglob s)) 0")
  have e: "e = Checkpoints_ok"
    using assms(1,3) l by (auto simp: init_checkpoints_def Let_def split: checkpoints_end.splits)
  note ok = checkpoints_loop_ok [OF l [unfolded e] assms(2)]
  have n: "n = length vs" "length vs \<le> MAX_CHECKPOINTS" "length cps = MAX_CHECKPOINTS"
    "take n cps = map checkpoint_value vs" "\<forall>v \<in> set vs. unat (checkpoint_value v) < 2 ^ 31"
    using ok assms(2) by auto
  let ?q = "qsort checkpoint_cmp (map checkpoint_value vs)"
  have g: "g_n_checkpoints (iglob s') = of_nat n \<and> take n (g_checkpoints (iglob s')) = ?q"
    using assms(1,3) l e n by (auto simp: init_checkpoints_def Let_def split: if_splits)
  have "n < 2 ^ 32" using n by (simp add: MAX_CHECKPOINTS_def)
  then have "unat (g_n_checkpoints (iglob s')) = n"
    using g by (simp add: unsigned_of_nat take_bit_nat_eq_self)
  moreover have "sorted ?q"
    by (rule sorted_qsort) (use n(5) in \<open>auto simp: checkpoint_cmp_le\<close>)
  ultimately show ?thesis using g n by simp
qed

definition sample_init :: "options \<Rightarrow> init_state" where
  "sample_init opts = \<lparr>i_prog = sample_prog\<lparr>p_log := sample_log\<lparr>l_globals := globals_static, l_opts := opts\<rparr>\<rparr>,
     i_threads = \<lparr>threads = None, thread_stack_size = 0\<rparr>, i_init_timeout = 0, i_rand = None\<rparr>"

definition sample_opt :: "string \<Rightarrow> string list \<Rightarrow> option_t" where
  "sample_opt n vs = new_option\<lparr>opt_name := n, opt_values := map (\<lambda>v. new_value\<lparr>data := v\<rparr>) vs\<rparr>"

theorem init_checkpoints_sorted_witness:
  "\<exists>s'. init_checkpoints (\<lambda>f _. f) (sample_init [sample_opt ''report-checkpoints'' [''30'', ''4'']]) = Init_ok s' \<and>
     sorted (take 2 (g_checkpoints (iglob s')))"
proof -
  let ?s = "sample_init [sample_opt ''report-checkpoints'' [''30'', ''4'']]"
  have i: "length (g_checkpoints (iglob ?s)) = MAX_CHECKPOINTS"
    "sb_get_value_list (iopts ?s) ''report-checkpoints'' = Some [''30'', ''4'']"
    by (simp_all add: sample_init_def sample_opt_def globals_static_def sb_get_value_list_def
        find_option_def sb_opt_to_list_def new_option_def new_value_def)
  have "\<exists>s'. init_checkpoints (\<lambda>f _. f) ?s = Init_ok s'"
    using i(2) by (simp add: init_checkpoints_def strtol10_def isspace_def is_digit_def digit_value_def
        saturate_long_def char_code_def MAX_CHECKPOINTS_def)
  then obtain s' where s': "init_checkpoints (\<lambda>f _. f) ?s = Init_ok s'" by blast
  from init_checkpoints_sorted [OF s' i] s' show ?thesis by (auto simp: numeral_2_eq_2)
qed

text \<open>With forced shutdown off and limits in the range of int, start-up accepts every thread
  count but 0 (a negative one becomes a count near \<open>2^32\<close>, the check \<open>threads <= 0\<close> being on
  an unsigned number) and every warm-up time that is not negative; the time limit is 0 when
  \<open>--time\<close> is 0 and otherwise the time plus the warm-up in nanoseconds, modulo \<open>2^64\<close>: exact
  when the time is not negative, over 290 years when the sum is negative.\<close>

theorem init_limits_correct:
  assumes "sb_get_value_int (iopts s) ''threads'' = Some n" "sb_get_value_int (iopts s) ''thread-init-timeout'' = Some tmo"
    and "sb_get_value_int (iopts s) ''events'' = Some ne" "sb_get_value_int (iopts s) ''warmup-time'' = Some w"
    and "sb_get_value_int (iopts s) ''time'' = Some t"
    and "sb_get_value_string (iopts s) ''forced-shutdown'' = Some ''off''"
    and "INT_MIN \<le> n" "n \<le> INT_MAX" "INT_MIN \<le> t" "t \<le> INT_MAX" "w \<le> INT_MAX"
  shows "if n = 0 \<or> w < 0 then \<exists>s'. init_limits fmt s = Init_failed s'
     else \<exists>s'. init_limits fmt s = Init_ok s' \<and> uint (g_threads (iglob s')) = n mod 2 ^ 32 \<and>
       uint (g_max_time_ns (iglob s')) = (if t = 0 then 0 else (t + w) * 10 ^ 9 mod 2 ^ 64)"
proof (cases "n = 0")
  case True
  then show ?thesis using assms by (simp add: init_limits_def)
next
  case n: False
  then have n0: "(word_of_int n :: u32) \<noteq> 0"
    using word_of_small_int [of n] assms(7,8) by simp
  show ?thesis
  proof (cases "w < 0")
    case True
    then show ?thesis using assms n n0 by (simp add: init_limits_def)
  next
    case False
    have t: "SEC2NS t = word_of_int (t * 10 ^ 9)"
      by (simp add: SEC2NS_def NS_PER_SEC_def)
    have t0: "SEC2NS t = 0 \<longleftrightarrow> t = 0"
      unfolding t using word_of_small_long [of "t * 10 ^ 9"] assms(9,10) by auto
    let ?m = "if t = 0 then 0 else if 0 < w then SEC2NS t + SEC2NS w else SEC2NS t"
    have "\<exists>s'. init_limits fmt s = Init_ok s' \<and> g_threads (iglob s') = word_of_int n \<and>
        g_max_time_ns (iglob s') = ?m"
      using assms n n0 False t0
      by (auto simp: init_limits_def Let_def forced_shutdown_def upper_off word_gt_0)
    moreover have "uint ?m = (if t = 0 then 0 else (t + w) * 10 ^ 9 mod 2 ^ 64)"
      using False by (auto simp: SEC2NS_def NS_PER_SEC_def uint_word_ariths unsigned_of_int
          take_bit_eq_mod algebra_simps mod_simps)
    ultimately show ?thesis using n False
      by (auto simp: unsigned_of_int take_bit_eq_mod)
  qed
qed

definition negative_limits :: options where
  "negative_limits = [sample_opt ''threads'' [''-1''], sample_opt ''time'' [''-1''],
     sample_opt ''forced-shutdown'' [''off'']]"

theorem init_limits_correct_witness:
  "\<exists>s'. init_limits (\<lambda>f _. f) (sample_init negative_limits) = Init_ok s' \<and>
     uint (g_threads (iglob s')) = 2 ^ 32 - 1 \<and>
     uint (g_max_time_ns (iglob s')) = 2 ^ 64 - 10 ^ 9"
proof -
  have i: "iopts (sample_init negative_limits) = negative_limits" by (simp add: sample_init_def)
  have f: "find_option negative_limits ''threads'' = Some 0" "find_option negative_limits ''time'' = Some 1"
    "find_option negative_limits ''forced-shutdown'' = Some 2"
    "find_option negative_limits ''thread-init-timeout'' = None"
    "find_option negative_limits ''events'' = None" "find_option negative_limits ''warmup-time'' = None"
    by (simp_all add: find_option_def negative_limits_def sample_opt_def new_option_def schar_code_def
        char_code_def is_dash_def)
  have v: "sb_opt_to_int (negative_limits ! 0) = Some (-1)" "sb_opt_to_int (negative_limits ! 1) = Some (-1)"
    "sb_opt_to_string (negative_limits ! 2) = Some ''off''"
    by (simp_all add: negative_limits_def sample_opt_def new_option_def new_value_def sb_opt_to_int_def
        sb_opt_to_string_def strtol10_def isspace_def is_digit_def digit_value_def saturate_long_def char_code_def)
  have o: "sb_get_value_int (iopts (sample_init negative_limits)) ''threads'' = Some (-1)"
    "sb_get_value_int (iopts (sample_init negative_limits)) ''thread-init-timeout'' = Some 0"
    "sb_get_value_int (iopts (sample_init negative_limits)) ''events'' = Some 0"
    "sb_get_value_int (iopts (sample_init negative_limits)) ''warmup-time'' = Some 0"
    "sb_get_value_int (iopts (sample_init negative_limits)) ''time'' = Some (-1)"
    "sb_get_value_string (iopts (sample_init negative_limits)) ''forced-shutdown'' = Some ''off''"
    unfolding i by (simp_all only: sb_get_value_int_def sb_get_value_string_def f v option.case)
  from init_limits_correct [OF o, of "\<lambda>f _. f"] show ?thesis by simp
qed

end
