(* ===== verification/EventQueue.thy ===== *)
theory EventQueue
  imports Prelude
begin

text \<open>
  The queue of generated events: the ring buffer of the Concurrency Kit (\<open>ck_ring.h\<close>, the
  functions for one producer and many consumers) at the size \<open>sysbench.c\<close> uses.  First the
  operations as functions, which refine the operations of a list; then the producer and the
  consumers as interleaved atomic steps, where the consumers race for the head with
  compare-and-swap.
\<close>

section \<open>The ring\<close>

definition MAX_QUEUE_LEN :: nat where "MAX_QUEUE_LEN = 131072"

record ck_ring =
  c_head :: u32
  p_tail :: u32
  p_head :: u32
  ring_size :: u32
  ring_mask :: u32

definition ck_ring_init :: "u32 \<Rightarrow> ck_ring \<Rightarrow> ck_ring" where
  "ck_ring_init n r = r\<lparr>ring_size := n, ring_mask := n - 1, p_tail := 0, p_head := 0, c_head := 0\<rparr>"

definition ck_ring_size :: "ck_ring \<Rightarrow> u32" where
  "ck_ring_size r = (p_tail r - c_head r) AND ring_mask r"

text \<open>\<open>ck_ring_enqueue_spmc\<close>: the ring, the buffer, whether there was room.\<close>

definition ck_ring_enqueue_spmc :: "'a \<Rightarrow> ck_ring \<Rightarrow> 'a list \<Rightarrow> ck_ring \<times> 'a list \<times> bool" where
  "ck_ring_enqueue_spmc e r buf =
     (let consumer = c_head r;
          producer = p_tail r;
          delta = producer + 1
      in if delta AND ring_mask r = consumer AND ring_mask r then (r, buf, False)
         else (r\<lparr>p_tail := delta\<rparr>, buf[unat (producer AND ring_mask r) := e], True))"

text \<open>\<open>ck_ring_dequeue_spmc\<close> with no other consumer: the ring and the entry.\<close>

definition ck_ring_dequeue_spmc :: "ck_ring \<Rightarrow> 'a list \<Rightarrow> ck_ring \<times> 'a option" where
  "ck_ring_dequeue_spmc r buf =
     (let consumer = c_head r;
          producer = p_tail r
      in if consumer = producer then (r, None)
         else (r\<lparr>c_head := consumer + 1\<rparr>, Some (buf ! unat (consumer AND ring_mask r))))"

section \<open>Refinement of a list\<close>

text \<open>Rings of \<open>MAX_QUEUE_LEN\<close> slots, filled up to one below it.\<close>

definition ring_ok :: "ck_ring \<Rightarrow> 'a list \<Rightarrow> bool" where
  "ring_ok r buf \<longleftrightarrow> ring_mask r = mask 17 \<and> length buf = MAX_QUEUE_LEN \<and>
     unat (p_tail r - c_head r) < MAX_QUEUE_LEN"

definition slot :: "u32 \<Rightarrow> nat" where
  "slot w = unat w mod MAX_QUEUE_LEN"

definition ring_items :: "ck_ring \<Rightarrow> 'a list \<Rightarrow> 'a list" where
  "ring_items r buf = map (\<lambda>i. buf ! slot (c_head r + of_nat i)) [0..<unat (p_tail r - c_head r)]"

lemma slot_mask: "unat (w AND mask 17 :: u32) = slot w"
proof -
  have "unat (w AND mask 17) = take_bit 17 (unat w)"
    by (simp only: take_bit_eq_mask [symmetric] unsigned_take_bit_eq)
  then show ?thesis by (simp add: slot_def MAX_QUEUE_LEN_def take_bit_eq_mod)
qed

lemma mask_eq_slot: "(v AND mask 17 = (w AND mask 17 :: u32)) \<longleftrightarrow> slot v = slot w"
  by (metis slot_mask word_unat_eq_iff)

lemma slot_less: "slot w < MAX_QUEUE_LEN"
  by (simp add: slot_def MAX_QUEUE_LEN_def)

lemma slot_add: "slot (c + w) = (slot c + unat w) mod MAX_QUEUE_LEN"
proof -
  have "(2::nat) ^ 32 mod 131072 = 0" by simp
  then have "unat (c + w) mod 131072 = (unat c + unat w) mod 131072"
    by (simp add: unat_word_ariths mod_mod_cancel)
  then show ?thesis by (simp add: slot_def MAX_QUEUE_LEN_def mod_simps)
qed

text \<open>Slots at different distances below the size are different.\<close>

lemma slot_inj:
  assumes "unat v < MAX_QUEUE_LEN" "unat w < MAX_QUEUE_LEN"
  shows "slot (c + v) = slot (c + w) \<longleftrightarrow> v = w"
proof
  assume "slot (c + v) = slot (c + w)"
  then have "(slot c + unat v) mod MAX_QUEUE_LEN = (slot c + unat w) mod MAX_QUEUE_LEN"
    by (simp add: slot_add)
  then have "((slot c + unat v) + (MAX_QUEUE_LEN - slot c)) mod MAX_QUEUE_LEN =
      ((slot c + unat w) + (MAX_QUEUE_LEN - slot c)) mod MAX_QUEUE_LEN"
    by (rule mod_add_cong) (rule refl)
  moreover have "(slot c + n) + (MAX_QUEUE_LEN - slot c) = n + MAX_QUEUE_LEN" for n
    using slot_less [of c] by simp
  ultimately have "unat v = unat w" using assms by simp
  then show "v = w" by (simp add: word_unat_eq_iff)
qed simp

lemma unat_small: "i < MAX_QUEUE_LEN \<Longrightarrow> unat (of_nat i :: u32) = i"
  by (simp add: MAX_QUEUE_LEN_def unsigned_of_nat take_bit_nat_eq_self)

lemma ring_full_iff:
  assumes "ring_ok r buf"
  shows "(p_tail r + 1 AND ring_mask r = c_head r AND ring_mask r) \<longleftrightarrow>
    length (ring_items r buf) = MAX_QUEUE_LEN - 1"
proof -
  let ?d = "p_tail r - c_head r"
  have d: "unat ?d < 131072" and m: "ring_mask r = mask 17"
    using assms by (simp_all add: ring_ok_def MAX_QUEUE_LEN_def)
  have "unat (?d + 1) = unat ?d + 1"
    using d by (simp add: unat_word_ariths)
  then have "slot (p_tail r + 1) = slot (c_head r) \<longleftrightarrow> (slot (c_head r) + (unat ?d + 1)) mod 131072 = slot (c_head r)"
    using slot_add [of "c_head r" "?d + 1"] by (simp add: MAX_QUEUE_LEN_def algebra_simps)
  also have "\<dots> \<longleftrightarrow> unat ?d = 131071"
    using d slot_less [of "c_head r"] by (simp add: MAX_QUEUE_LEN_def mod_if) presburger
  finally show ?thesis using m by (simp add: mask_eq_slot ring_items_def MAX_QUEUE_LEN_def)
qed

lemma ring_items_length: "ring_ok r buf \<Longrightarrow> length (ring_items r buf) < MAX_QUEUE_LEN"
  by (simp add: ring_items_def ring_ok_def)

lemma ck_ring_init_ok:
  assumes "length buf = MAX_QUEUE_LEN"
  shows "ring_ok (ck_ring_init (of_nat MAX_QUEUE_LEN) r) buf \<and>
    ring_items (ck_ring_init (of_nat MAX_QUEUE_LEN) r) buf = []"
  using assms by (simp add: ck_ring_init_def ring_ok_def ring_items_def MAX_QUEUE_LEN_def mask_numeral)

lemma ck_ring_size_items:
  "ring_ok r buf \<Longrightarrow> unat (ck_ring_size r) = length (ring_items r buf)"
  by (simp add: ck_ring_size_def ring_ok_def slot_mask ring_items_def slot_def)

lemma ck_ring_enqueue_items:
  assumes "ring_ok r buf" "ck_ring_enqueue_spmc e r buf = (r', buf', ok)"
  shows "ring_ok r' buf' \<and> (ok \<longleftrightarrow> length (ring_items r buf) < MAX_QUEUE_LEN - 1) \<and>
    ring_items r' buf' = (if ok then ring_items r buf @ [e] else ring_items r buf)"
proof (cases "length (ring_items r buf) = MAX_QUEUE_LEN - 1")
  case True
  then show ?thesis using assms ring_full_iff [OF assms(1)]
    by (simp add: ck_ring_enqueue_spmc_def Let_def)
next
  case False
  let ?d = "p_tail r - c_head r"
  have lt: "length (ring_items r buf) < MAX_QUEUE_LEN - 1"
    using False ring_items_length [OF assms(1)] by (simp add: MAX_QUEUE_LEN_def)
  then have d: "unat ?d < 131071" by (simp add: ring_items_def MAX_QUEUE_LEN_def)
  have m: "ring_mask r = mask 17" "length buf = MAX_QUEUE_LEN" using assms(1) by (simp_all add: ring_ok_def)
  have r': "r' = r\<lparr>p_tail := p_tail r + 1\<rparr>" "buf' = buf[slot (p_tail r) := e]" "ok"
    using assms(2) False ring_full_iff [OF assms(1)]
    by (auto simp: ck_ring_enqueue_spmc_def Let_def m slot_mask)
  have d1: "unat (p_tail r + 1 - c_head r) = Suc (unat ?d)"
  proof -
    have "unat (?d + 1) = Suc (unat ?d)" using d by (simp add: unat_word_ariths)
    then show ?thesis by (simp add: algebra_simps)
  qed
  have keep: "buf' ! slot (c_head r + of_nat i) = buf ! slot (c_head r + of_nat i)" if "i < unat ?d" for i
  proof -
    have "slot (c_head r + of_nat i) \<noteq> slot (c_head r + ?d)"
    proof -
      have "unat (of_nat i :: u32) = i" using that d by (intro unat_small) (simp add: MAX_QUEUE_LEN_def)
      with that d show ?thesis by (subst slot_inj) (auto simp: MAX_QUEUE_LEN_def)
    qed
    then show ?thesis by (simp add: r')
  qed
  have "buf' ! slot (c_head r + of_nat (unat ?d)) = e"
    using m slot_less by (simp add: r')
  then have "ring_items r' buf' = ring_items r buf @ [e]"
    using keep by (simp add: ring_items_def r'(1) d1)
  then show ?thesis using lt d d1 m r' by (simp add: ring_ok_def MAX_QUEUE_LEN_def)
qed

lemma ck_ring_dequeue_items:
  assumes "ring_ok r buf"
  shows "case ck_ring_dequeue_spmc r buf of
      (r', None) \<Rightarrow> r' = r \<and> ring_items r buf = []
    | (r', Some e) \<Rightarrow> ring_ok r' buf \<and> ring_items r buf = e # ring_items r' buf"
proof (cases "c_head r = p_tail r")
  case True
  then show ?thesis by (simp add: ck_ring_dequeue_spmc_def ring_items_def)
next
  case False
  let ?d = "p_tail r - c_head r"
  have m: "ring_mask r = mask 17" "length buf = MAX_QUEUE_LEN" "unat ?d < 131072"
    using assms by (simp_all add: ring_ok_def MAX_QUEUE_LEN_def)
  have nz: "?d \<noteq> 0" using False by simp
  then have "0 < unat ?d" by (simp only: unat_gt_0 not_False_eq_True)
  then have d: "unat ?d = Suc (unat (?d - 1))" using unat_minus_one [OF nz] by linarith
  have e: "?d - 1 = p_tail r - (c_head r + 1)" by (simp add: algebra_simps)
  have "[0..<unat ?d] = 0 # map Suc [0..<unat (?d - 1)]"
    unfolding d by (simp add: map_Suc_upt upt_conv_Cons del: upt_Suc)
  then have "ring_items r buf = map (\<lambda>i. buf ! slot (c_head r + of_nat i)) (0 # map Suc [0..<unat (?d - 1)])"
    by (simp only: ring_items_def)
  moreover have "ring_items (r\<lparr>c_head := c_head r + 1\<rparr>) buf =
      map (\<lambda>i. buf ! slot (c_head r + 1 + of_nat i)) [0..<unat (?d - 1)]"
    unfolding ring_items_def e by simp
  ultimately have "ring_items r buf = buf ! slot (c_head r) # ring_items (r\<lparr>c_head := c_head r + 1\<rparr>) buf"
    by (simp add: comp_def add.assoc del: upt_Suc)
  then show ?thesis using False m d e by (simp add: ck_ring_dequeue_spmc_def ring_ok_def slot_mask MAX_QUEUE_LEN_def Let_def)
qed

section \<open>The interface of a bounded queue\<close>

text \<open>
  What the event generator and the workers rely on: insertion that fails only when the queue
  holds \<open>cap\<close> entries, and removal from the front.  Inside the interface, any sequence of the
  two operations delivers the accepted entries in their order, each once.
\<close>

datatype 'a queue_op = Enqueue 'a | Dequeue

locale bounded_queue =
  fixes inv :: "'s \<Rightarrow> bool" and items :: "'s \<Rightarrow> 'a list" and cap :: nat
    and enq :: "'a \<Rightarrow> 's \<Rightarrow> 's \<times> bool" and deq :: "'s \<Rightarrow> 's \<times> 'a option"
  assumes inv_enq: "inv s \<Longrightarrow> inv (fst (enq e s))"
    and enq_ok: "inv s \<Longrightarrow> snd (enq e s) \<longleftrightarrow> length (items s) < cap"
    and enq_items: "inv s \<Longrightarrow> items (fst (enq e s)) = (if snd (enq e s) then items s @ [e] else items s)"
    and inv_deq: "inv s \<Longrightarrow> inv (fst (deq s))"
    and deq_items: "inv s \<Longrightarrow>
      snd (deq s) = (case items s of [] \<Rightarrow> None | e # _ \<Rightarrow> Some e) \<and> items (fst (deq s)) = tl (items s)"
begin

text \<open>The state, the accepted entries and the delivered ones after a sequence of operations.\<close>

fun run :: "'a queue_op list \<Rightarrow> 's \<Rightarrow> 's \<times> 'a list \<times> 'a list" where
  "run [] s = (s, [], [])"
| "run (Enqueue e # es) s =
     (let (s', ok) = enq e s; (s'', ins, outs) = run es s' in (s'', (if ok then e # ins else ins), outs))"
| "run (Dequeue # es) s =
     (let (s', r) = deq s; (s'', ins, outs) = run es s'
      in (s'', ins, (case r of None \<Rightarrow> outs | Some e \<Rightarrow> e # outs)))"

lemma run_fifo:
  "inv s \<Longrightarrow> run es s = (s', ins, outs) \<Longrightarrow> inv s' \<and> outs @ items s' = items s @ ins"
proof (induction es s arbitrary: s' ins outs rule: run.induct)
  case (2 e es s)
  obtain s1 ok where e: "enq e s = (s1, ok)" by fastforce
  obtain s2 i2 o2 where r: "run es s1 = (s2, i2, o2)" by (cases "run es s1")
  have "inv s1" using inv_enq [OF 2(2), of e] e by simp
  from 2(1) [OF e [symmetric] refl this r] show ?case
    using 2(3) e r enq_items [OF 2(2), of e] by (auto split: if_splits)
next
  case (3 es s)
  obtain s1 x where e: "deq s = (s1, x)" by fastforce
  obtain s2 i2 o2 where r: "run es s1 = (s2, i2, o2)" by (cases "run es s1")
  have "inv s1" using inv_deq [OF 3(2)] e by simp
  from 3(1) [OF e [symmetric] refl this r] show ?case
    using 3(3) e r deq_items [OF 3(2)] by (auto split: list.splits option.splits)
qed simp

lemma run_delivers_in_order:
  "inv s \<Longrightarrow> items s = [] \<Longrightarrow> run es s = (s', ins, outs) \<Longrightarrow> outs = take (length outs) ins"
  using run_fifo [of s es s' ins outs] by (metis append_Nil append_eq_conv_conj)

end

definition ring_enq :: "'a \<Rightarrow> ck_ring \<times> 'a list \<Rightarrow> (ck_ring \<times> 'a list) \<times> bool" where
  "ring_enq e s = (let (r, buf, ok) = ck_ring_enqueue_spmc e (fst s) (snd s) in ((r, buf), ok))"

definition ring_deq :: "ck_ring \<times> 'a list \<Rightarrow> (ck_ring \<times> 'a list) \<times> 'a option" where
  "ring_deq s = (let (r, x) = ck_ring_dequeue_spmc (fst s) (snd s) in ((r, snd s), x))"

interpretation ring: bounded_queue "\<lambda>s. ring_ok (fst s) (snd s)" "\<lambda>s. ring_items (fst s) (snd s)"
  "MAX_QUEUE_LEN - 1" ring_enq ring_deq
proof
  fix s :: "ck_ring \<times> 'a list" and e :: 'a
  assume i: "ring_ok (fst s) (snd s)"
  obtain r buf ok where e: "ck_ring_enqueue_spmc e (fst s) (snd s) = (r, buf, ok)"
    by (cases "ck_ring_enqueue_spmc e (fst s) (snd s)")
  note q = ck_ring_enqueue_items [OF i e]
  show "ring_ok (fst (fst (ring_enq e s))) (snd (fst (ring_enq e s)))"
    "snd (ring_enq e s) \<longleftrightarrow> length (ring_items (fst s) (snd s)) < MAX_QUEUE_LEN - 1"
    "ring_items (fst (fst (ring_enq e s))) (snd (fst (ring_enq e s))) =
       (if snd (ring_enq e s) then ring_items (fst s) (snd s) @ [e] else ring_items (fst s) (snd s))"
    using q by (simp_all add: ring_enq_def e)
  obtain r x where d: "ck_ring_dequeue_spmc (fst s) (snd s) = (r, x)" by fastforce
  show "ring_ok (fst (fst (ring_deq s))) (snd (fst (ring_deq s)))"
    "snd (ring_deq s) = (case ring_items (fst s) (snd s) of [] \<Rightarrow> None | e # _ \<Rightarrow> Some e) \<and>
       ring_items (fst (fst (ring_deq s))) (snd (fst (ring_deq s))) = tl (ring_items (fst s) (snd s))"
    using ck_ring_dequeue_items [OF i] i by (auto simp: ring_deq_def d split: option.splits)
qed

section \<open>Concurrent consumers\<close>

text \<open>
  The same code as interleaved atomic steps.  The producer checks for room, writes the slot
  and publishes it; a consumer loads the head, checks for an entry, copies the slot and tries
  to move the head from the value it loaded, starting again with the current head when
  another consumer was faster.  \<open>q_accepted\<close> and \<open>q_delivered\<close> are history.
\<close>

datatype 'a producer = P_idle | P_checked u32 'a | P_written u32 'a
datatype 'a consumer = C_idle | C_loaded u32 | C_checked u32 | C_copied u32 'a

record 'a ring_sys =
  q_ring :: ck_ring
  q_buf :: "'a list"
  q_prod :: "'a producer"
  q_cons :: "nat \<Rightarrow> 'a consumer"
  q_accepted :: "'a list"
  q_delivered :: "'a list"

inductive ring_step :: "'a ring_sys \<Rightarrow> 'a ring_sys \<Rightarrow> bool" where
  p_full: "q_prod s = P_idle \<Longrightarrow>
    p_tail (q_ring s) + 1 AND ring_mask (q_ring s) = c_head (q_ring s) AND ring_mask (q_ring s) \<Longrightarrow>
    ring_step s s"
| p_check: "q_prod s = P_idle \<Longrightarrow>
    p_tail (q_ring s) + 1 AND ring_mask (q_ring s) \<noteq> c_head (q_ring s) AND ring_mask (q_ring s) \<Longrightarrow>
    ring_step s (s\<lparr>q_prod := P_checked (p_tail (q_ring s)) e\<rparr>)"
| p_write: "q_prod s = P_checked p e \<Longrightarrow>
    ring_step s (s\<lparr>q_buf := (q_buf s)[unat (p AND ring_mask (q_ring s)) := e], q_prod := P_written p e\<rparr>)"
| p_publish: "q_prod s = P_written p e \<Longrightarrow>
    ring_step s (s\<lparr>q_ring := (q_ring s)\<lparr>p_tail := p + 1\<rparr>, q_prod := P_idle,
      q_accepted := q_accepted s @ [e]\<rparr>)"
| c_load: "q_cons s t = C_idle \<Longrightarrow>
    ring_step s (s\<lparr>q_cons := (q_cons s)(t := C_loaded (c_head (q_ring s)))\<rparr>)"
| c_empty: "q_cons s t = C_loaded c \<Longrightarrow> c = p_tail (q_ring s) \<Longrightarrow>
    ring_step s (s\<lparr>q_cons := (q_cons s)(t := C_idle)\<rparr>)"
| c_check: "q_cons s t = C_loaded c \<Longrightarrow> c \<noteq> p_tail (q_ring s) \<Longrightarrow>
    ring_step s (s\<lparr>q_cons := (q_cons s)(t := C_checked c)\<rparr>)"
| c_copy: "q_cons s t = C_checked c \<Longrightarrow>
    ring_step s (s\<lparr>q_cons := (q_cons s)(t := C_copied c (q_buf s ! unat (c AND ring_mask (q_ring s))))\<rparr>)"
| c_cas: "q_cons s t = C_copied c d \<Longrightarrow> c_head (q_ring s) = c \<Longrightarrow>
    ring_step s (s\<lparr>q_ring := (q_ring s)\<lparr>c_head := c + 1\<rparr>, q_cons := (q_cons s)(t := C_idle),
      q_delivered := q_delivered s @ [d]\<rparr>)"
| c_retry: "q_cons s t = C_copied c d \<Longrightarrow> c_head (q_ring s) \<noteq> c \<Longrightarrow>
    ring_step s (s\<lparr>q_cons := (q_cons s)(t := C_loaded (c_head (q_ring s)))\<rparr>)"

inductive ring_reach :: "'a ring_sys \<Rightarrow> bool" where
  start: "length buf = MAX_QUEUE_LEN \<Longrightarrow>
    ring_reach \<lparr>q_ring = ck_ring_init (of_nat MAX_QUEUE_LEN) r, q_buf = buf, q_prod = P_idle,
      q_cons = \<lambda>_. C_idle, q_accepted = [], q_delivered = []\<rparr>"
| step: "ring_reach s \<Longrightarrow> ring_step s s' \<Longrightarrow> ring_reach s'"

fun cons_ok :: "nat \<Rightarrow> 'a list \<Rightarrow> 'a consumer \<Rightarrow> bool" where
  "cons_ok h acc C_idle = True"
| "cons_ok h acc (C_loaded c) = (\<exists>n \<le> h. c = of_nat n)"
| "cons_ok h acc (C_checked c) = (\<exists>n \<le> h. c = of_nat n \<and> (n = h \<longrightarrow> h < length acc))"
| "cons_ok h acc (C_copied c d) = (\<exists>n \<le> h. c = of_nat n \<and> (n = h \<longrightarrow> h < length acc \<and> d = acc ! h))"

fun prod_ok :: "nat \<Rightarrow> nat \<Rightarrow> 'a list \<Rightarrow> 'a producer \<Rightarrow> bool" where
  "prod_ok h t buf P_idle = True"
| "prod_ok h t buf (P_checked p e) = (p = of_nat t \<and> t - h < MAX_QUEUE_LEN - 1)"
| "prod_ok h t buf (P_written p e) =
     (p = of_nat t \<and> t - h < MAX_QUEUE_LEN - 1 \<and> buf ! (t mod MAX_QUEUE_LEN) = e)"

definition ring_inv :: "'a ring_sys \<Rightarrow> bool" where
  "ring_inv s \<longleftrightarrow> (let h = length (q_delivered s); t = length (q_accepted s) in
     ring_mask (q_ring s) = mask 17 \<and> length (q_buf s) = MAX_QUEUE_LEN \<and>
     c_head (q_ring s) = of_nat h \<and> p_tail (q_ring s) = of_nat t \<and> h \<le> t \<and> t - h < MAX_QUEUE_LEN \<and>
     (\<forall>i. h \<le> i \<and> i < t \<longrightarrow> q_buf s ! (i mod MAX_QUEUE_LEN) = q_accepted s ! i) \<and>
     q_delivered s = take h (q_accepted s) \<and> prod_ok h t (q_buf s) (q_prod s) \<and>
     (\<forall>k. cons_ok h (q_accepted s) (q_cons s k)))"

lemma slot_of_nat: "unat (of_nat i AND mask 17 :: u32) = i mod MAX_QUEUE_LEN"
proof -
  have "(i mod 2 ^ 32) mod 131072 = i mod (131072 :: nat)" by (rule mod_mod_cancel) simp
  then show ?thesis by (simp add: slot_mask slot_def MAX_QUEUE_LEN_def unsigned_of_nat take_bit_eq_mod)
qed

lemma of_nat_slot: "(of_nat i AND mask 17 = (of_nat j AND mask 17 :: u32)) \<longleftrightarrow>
    i mod MAX_QUEUE_LEN = j mod MAX_QUEUE_LEN"
  by (metis slot_of_nat word_unat_eq_iff)

lemma cons_ok_mono: "cons_ok h acc c \<Longrightarrow> h \<le> length acc \<Longrightarrow> cons_ok h (acc @ [e]) c"
  by (cases c) (auto simp: nth_append)

lemma cons_ok_head: "cons_ok h acc c \<Longrightarrow> cons_ok (Suc h) acc c"
  by (cases c) (auto intro: le_SucI)

lemma mod_ne:
  assumes "i < t" "t - i < N"
  shows "i mod N \<noteq> t mod (N::nat)"
  using assms mod_eq_dvd_iff_nat [of i t N] by (auto dest: dvd_imp_le)

lemma ring_inv_step:
  assumes "ring_inv s" "ring_step s s'" "length (q_delivered s') \<le> 2 ^ 32"
  shows "ring_inv s'"
proof -
  let ?h = "length (q_delivered s)" and ?t = "length (q_accepted s)"
  have i: "ring_mask (q_ring s) = mask 17" "length (q_buf s) = MAX_QUEUE_LEN"
    "c_head (q_ring s) = of_nat ?h" "p_tail (q_ring s) = of_nat ?t" "?h \<le> ?t" "?t - ?h < MAX_QUEUE_LEN"
    "\<forall>i. ?h \<le> i \<and> i < ?t \<longrightarrow> q_buf s ! (i mod MAX_QUEUE_LEN) = q_accepted s ! i"
    "q_delivered s = take ?h (q_accepted s)" "prod_ok ?h ?t (q_buf s) (q_prod s)"
    and c: "\<And>k. cons_ok ?h (q_accepted s) (q_cons s k)"
    using assms(1) by (auto simp: ring_inv_def Let_def)
  from assms(2) show ?thesis
  proof cases
    case p_full
    with assms(1) show ?thesis by simp
  next
    case (p_check e)
    have "Suc ?t mod MAX_QUEUE_LEN \<noteq> ?h mod MAX_QUEUE_LEN"
    proof -
      have "p_tail (q_ring s) + 1 = of_nat (Suc ?t)" by (simp only: i(4) of_nat_Suc add.commute)
      with p_check(3) have "of_nat (Suc ?t) AND mask 17 \<noteq> (of_nat ?h AND mask 17 :: u32)"
        by (simp only: i(1,3) not_False_eq_True)
      then show ?thesis by (simp only: of_nat_slot not_False_eq_True)
    qed
    moreover have "Suc ?t = ?h + MAX_QUEUE_LEN" if "?t - ?h = MAX_QUEUE_LEN - 1"
      using that i(5) by (simp add: MAX_QUEUE_LEN_def)
    ultimately have "?t - ?h \<noteq> MAX_QUEUE_LEN - 1" by auto
    then have "?t - ?h < MAX_QUEUE_LEN - 1" using i(6) by linarith
    then show ?thesis using p_check i c by (simp add: ring_inv_def Let_def)
  next
    case (p_write p e)
    have p: "p = of_nat ?t" "?t - ?h < MAX_QUEUE_LEN - 1" using i(9) p_write by simp_all
    have "?t mod MAX_QUEUE_LEN < length (q_buf s)" by (simp add: i(2) MAX_QUEUE_LEN_def)
    moreover have "(q_buf s)[?t mod MAX_QUEUE_LEN := e] ! (j mod MAX_QUEUE_LEN) = q_accepted s ! j"
      if "?h \<le> j" "j < ?t" for j
    proof -
      have "?t mod MAX_QUEUE_LEN \<noteq> j mod MAX_QUEUE_LEN"
        using mod_ne [of j ?t MAX_QUEUE_LEN] that p(2) by linarith
      with that i(7) show ?thesis by simp
    qed
    ultimately show ?thesis using p_write i c p by (auto simp: ring_inv_def Let_def slot_of_nat)
  next
    case (p_publish p e)
    have p: "p = of_nat ?t" "?t - ?h < MAX_QUEUE_LEN - 1" "q_buf s ! (?t mod MAX_QUEUE_LEN) = e"
      using i(9) p_publish by simp_all
    have "q_buf s ! (j mod MAX_QUEUE_LEN) = (q_accepted s @ [e]) ! j" if "?h \<le> j" "j < Suc ?t" for j
      using that i(7) p(3) by (cases "j = ?t") (auto simp: nth_append)
    with p_publish i c p show ?thesis
      by (auto simp: ring_inv_def Let_def cons_ok_mono add.commute)
  next
    case (c_load t)
    then show ?thesis using i c by (auto simp: ring_inv_def Let_def)
  next
    case (c_empty t cv)
    then show ?thesis using i c by (auto simp: ring_inv_def Let_def)
  next
    case (c_check t cv)
    obtain n where n: "n \<le> ?h" "cv = of_nat n" using c [of t] c_check by auto
    have "n = ?h \<longrightarrow> ?h < ?t" using c_check(3) n i(4,5) by (auto simp: le_less)
    with c_check n i c show ?thesis by (auto simp: ring_inv_def Let_def)
  next
    case (c_copy t cv)
    obtain n where n: "n \<le> ?h" "cv = of_nat n" "n = ?h \<longrightarrow> ?h < ?t" using c [of t] c_copy by auto
    then have "n = ?h \<longrightarrow> q_buf s ! unat (cv AND ring_mask (q_ring s)) = q_accepted s ! ?h"
      using i(1,7) by (auto simp: slot_of_nat)
    with c_copy n i c show ?thesis by (auto simp: ring_inv_def Let_def)
  next
    case (c_cas t cv d)
    obtain n where n: "n \<le> ?h" "cv = of_nat n" "n = ?h \<longrightarrow> ?h < ?t \<and> d = q_accepted s ! ?h"
      using c [of t] c_cas by auto
    have "?h < 2 ^ 32" using assms(3) c_cas by simp
    moreover have "(of_nat n :: u32) = of_nat ?h" using c_cas n i by simp
    moreover have "unat (of_nat m :: u32) = m" if "m < 2 ^ 32" for m
      using that by (simp add: unsigned_of_nat take_bit_nat_eq_self)
    ultimately have nh: "n = ?h" using n(1) by (metis le_less_trans)
    have "take (Suc ?h) (q_accepted s) = q_delivered s @ [d]"
      using n nh i(8) by (simp add: take_Suc_conv_app_nth)
    moreover have "prod_ok (Suc ?h) ?t (q_buf s) (q_prod s)"
      using i(9) by (cases "q_prod s") auto
    ultimately show ?thesis using c_cas n nh i c
      by (auto simp: ring_inv_def Let_def cons_ok_head add.commute)
  next
    case (c_retry t cv d)
    then show ?thesis using i c by (auto simp: ring_inv_def Let_def)
  qed
qed

lemma delivered_mono: "ring_step s s' \<Longrightarrow> length (q_delivered s) \<le> length (q_delivered s')"
  by (cases rule: ring_step.cases) auto

lemma ring_reach_inv: "ring_reach s \<Longrightarrow> length (q_delivered s) \<le> 2 ^ 32 \<Longrightarrow> ring_inv s"
proof (induction rule: ring_reach.induct)
  case (start buf r)
  then show ?case by (simp add: ring_inv_def ck_ring_init_def MAX_QUEUE_LEN_def mask_numeral)
next
  case (step s s')
  then show ?case using ring_inv_step delivered_mono le_trans by blast
qed

section \<open>Properties\<close>

text \<open>C5: However the producer and any number of consumers interleave, and across wrap-arounds of
  the 32-bit indices, the entries delivered to the consumers are the accepted ones in the order
  of their acceptance, each once, and at most 131071 are queued, as long as fewer than \<open>2^32\<close>
  have been delivered (beyond that a stalled consumer could take a recycled head for the one
  it loaded).\<close>

theorem ring_delivers_in_order:
  assumes "ring_reach s" "length (q_delivered s) \<le> 2 ^ 32"
  shows "q_delivered s = take (length (q_delivered s)) (q_accepted s) \<and>
    length (q_delivered s) \<le> length (q_accepted s) \<and>
    length (q_accepted s) - length (q_delivered s) < MAX_QUEUE_LEN"
  using ring_reach_inv [OF assms] by (simp add: ring_inv_def Let_def)

definition demo_ring0 :: "nat ring_sys" where
  "demo_ring0 = \<lparr>q_ring = ck_ring_init (of_nat MAX_QUEUE_LEN) \<lparr>c_head = 0, p_tail = 0, p_head = 0, ring_size = 0, ring_mask = 0\<rparr>,
     q_buf = replicate MAX_QUEUE_LEN 0, q_prod = P_idle, q_cons = \<lambda>_. C_idle, q_accepted = [], q_delivered = []\<rparr>"

theorem ring_delivers_in_order_witness:
  "\<exists>s :: nat ring_sys. ring_reach s \<and> q_accepted s = [7] \<and> length (q_accepted s) - length (q_delivered s) < MAX_QUEUE_LEN"
proof -
  let ?s1 = "demo_ring0\<lparr>q_prod := P_checked (p_tail (q_ring demo_ring0)) 7\<rparr>"
  let ?s2 = "?s1\<lparr>q_buf := (q_buf ?s1)[unat (0 AND ring_mask (q_ring ?s1)) := 7], q_prod := P_written 0 7\<rparr>"
  let ?s3 = "?s2\<lparr>q_ring := (q_ring ?s2)\<lparr>p_tail := 0 + 1\<rparr>, q_prod := P_idle, q_accepted := q_accepted ?s2 @ [7]\<rparr>"
  have r0: "ring_reach demo_ring0"
    unfolding demo_ring0_def by (rule ring_reach.start) simp
  have "ring_step demo_ring0 ?s1"
    by (rule ring_step.p_check) (simp_all add: demo_ring0_def ck_ring_init_def MAX_QUEUE_LEN_def)
  with r0 have r1: "ring_reach ?s1" by (rule ring_reach.step)
  have "ring_step ?s1 ?s2"
    by (rule ring_step.p_write) (simp add: demo_ring0_def ck_ring_init_def)
  with r1 have r2: "ring_reach ?s2" by (rule ring_reach.step)
  have "ring_step ?s2 ?s3" by (rule ring_step.p_publish) simp
  with r2 have r3: "ring_reach ?s3" by (rule ring_reach.step)
  have "q_accepted ?s3 = [7]" "length (q_delivered ?s3) \<le> 2 ^ 32" by (simp_all add: demo_ring0_def)
  with r3 ring_delivers_in_order [OF r3] show ?thesis by blast
qed

end
