(* ===== verification/Events.thy ===== *)
theory Events
  imports CmdLine EventQueue
begin

text \<open>
  The execution of events (\<open>sysbench.c\<close>): when a worker takes another event, the timing and
  accounting of an event, the main loop of a worker thread, and the thread that generates
  events at a given rate.  The clock is a sequence of readings of which the state knows the
  next one; what other threads do while one waits is an argument, a list of changes of the
  state.
\<close>

section \<open>State\<close>

text \<open>\<open>v_test\<close> holds the static variables of the test that runs, and whatever it works on.\<close>

record 't ev_state =
  v_prog :: prog
  v_ring :: ck_ring
  v_rbuf :: "nat list"
  v_queue_array :: "u64 list"
  v_rng :: "nat \<Rightarrow> sb_rng_state_t"
  v_clock :: "nat \<Rightarrow> timespec"
  v_ticks :: nat
  v_test :: 't

abbreviation vglob :: "'t ev_state \<Rightarrow> sb_globals" where "vglob s \<equiv> glob (v_prog s)"

definition vset :: "(sb_globals \<Rightarrow> sb_globals) \<Rightarrow> 't ev_state \<Rightarrow> 't ev_state" where
  "vset f s = s\<lparr>v_prog := set_globals f (v_prog s)\<rparr>"

definition vsay :: "log_msg_priority_t \<Rightarrow> string \<Rightarrow> 't ev_state \<Rightarrow> 't ev_state" where
  "vsay pr t s = s\<lparr>v_prog := say pr t (v_prog s)\<rparr>"

text \<open>\<open>SB_GETTIME\<close>, and the value of the execution timer.\<close>

definition SB_GETTIME :: "'t ev_state \<Rightarrow> 't ev_state \<times> timespec" where
  "SB_GETTIME s = (s\<lparr>v_ticks := v_ticks s + 1\<rparr>, v_clock s (v_ticks s))"

definition exec_timer_value :: "'t ev_state \<Rightarrow> 't ev_state \<times> u64" where
  "exec_timer_value s =
     (let (s, now) = SB_GETTIME s in (s, sb_timer_value now (p_exec_timer (v_prog s))))"

definition upd_timer :: "nat \<Rightarrow> (sb_timer \<Rightarrow> sb_timer) \<Rightarrow> 't ev_state \<Rightarrow> 't ev_state" where
  "upd_timer i f s = s\<lparr>v_prog := (v_prog s)\<lparr>p_timers := (p_timers (v_prog s))[i := f (p_timers (v_prog s) ! i)]\<rparr>\<rparr>"

section \<open>Taking an event\<close>

text \<open>The check against the time limit; the clock is read only when there is a limit.\<close>

definition time_expired :: "'t ev_state \<Rightarrow> 't ev_state \<times> bool" where
  "time_expired s =
     (if g_max_time_ns (vglob s) > 0 then
        let (s, v) = exec_timer_value s in (s, v \<ge> g_max_time_ns (vglob s))
      else (s, False))"

text \<open>The part of \<open>sb_more_events\<close> before the queue: whether to go on.\<close>

definition more_events_check :: "'t ev_state \<Rightarrow> 't ev_state \<times> bool" where
  "more_events_check s =
     (if g_error (vglob s) \<noteq> 0 then (s, False)
      else
        let (s, expired) = time_expired s
        in if expired then (vsay LOG_INFO ''Time limit exceeded, exiting...'' s, False)
           else
             let max_events = g_max_events (vglob s)
             in if max_events > 0 then
                  let n = g_nevents (vglob s);
                      s = vset (\<lambda>g. g\<lparr>g_nevents := n + 1\<rparr>) s
                  in if n \<ge> max_events
                     then (vsay LOG_INFO ''Event limit exceeded, exiting...'' s, False)
                     else (s, True)
                else (s, True))"

text \<open>The outcome of \<open>sb_more_events\<close>: true, false, blocked in \<open>pthread_cond_wait\<close>, or the
  dereference of a NULL pointer.\<close>

datatype more_result = More | No_more | Blocked | Null_pointer

text \<open>The queue: every element of the list is what other threads do before the next attempt to
  dequeue, first before the loop and then inside the wait.\<close>

definition take_ptr :: "nat \<Rightarrow> nat option \<Rightarrow> 't ev_state \<Rightarrow> 't ev_state \<times> more_result" where
  "take_ptr wid ptr s =
     (let s = vset (\<lambda>g. g\<lparr>g_concurrency := g_concurrency g + 1\<rparr>) s
      in case ptr of
           None \<Rightarrow> (s, Null_pointer)
         | Some p \<Rightarrow>
             (let (s, v) = exec_timer_value s
              in (upd_timer wid (\<lambda>t. t\<lparr>queue_time := v - v_queue_array s ! p\<rparr>) s, More)))"

fun take_event :: "('t ev_state \<Rightarrow> 't ev_state) list \<Rightarrow> nat \<Rightarrow> 't ev_state \<Rightarrow> 't ev_state \<times> more_result" where
  "take_event others wid s =
     (let (ring, ptr) = ck_ring_dequeue_spmc (v_ring s) (v_rbuf s);
          s = s\<lparr>v_ring := ring\<rparr>
      in if ptr \<noteq> None \<or> g_error (vglob s) \<noteq> 0 then take_ptr wid ptr s
         else case others of
           [] \<Rightarrow> (s, Blocked)
         | other # others \<Rightarrow>
             (let s = other s
              in if g_error (vglob s) \<noteq> 0 then (s, No_more)
                 else
                   let (s, expired) = time_expired s
                   in if expired then (vsay LOG_INFO ''Time limit exceeded, exiting...'' s, No_more)
                      else take_event others wid s))"

definition sb_more_events ::
  "('t ev_state \<Rightarrow> 't ev_state) \<Rightarrow> ('t ev_state \<Rightarrow> 't ev_state) list \<Rightarrow> nat \<Rightarrow> 't ev_state \<Rightarrow> 't ev_state \<times> more_result" where
  "sb_more_events other others wid s =
     (let (s, go) = more_events_check s
      in if \<not> go then (s, No_more)
         else if g_tx_rate (vglob s) > 0 then take_event others wid (other s)
         else (s, More))"

section \<open>Timing and accounting\<close>

definition sb_event_start :: "nat \<Rightarrow> 't ev_state \<Rightarrow> 't ev_state" where
  "sb_event_start wid s = (let (s, now) = SB_GETTIME s in upd_timer wid (sb_timer_start now) s)"

definition sb_event_stop :: "nat \<Rightarrow> 't ev_state \<Rightarrow> 't ev_state" where
  "sb_event_stop wid s =
     (let (s, now) = SB_GETTIME s;
          (t, v) = sb_timer_stop now (p_timers (v_prog s) ! wid);
          s = upd_timer wid (\<lambda>_. t) s;
          s = (if g_percentile (vglob s) > 0 then
                 let (h, rng) = sb_histogram_update (l_latency (p_log (v_prog s))) (NS2MS (sint v)) (v_rng s wid)
                 in s\<lparr>v_prog := (v_prog s)\<lparr>p_log := (p_log (v_prog s))\<lparr>l_latency := h\<rparr>\<rparr>,
                      v_rng := (v_rng s)(wid := rng)\<rparr>
               else s);
          c = p_counters (v_prog s);
          s = s\<lparr>v_prog := (v_prog s)\<lparr>p_counters :=
                 c\<lparr>sb_counters := map_option (sb_counter_inc wid SB_CNT_EVENT) (sb_counters c)\<rparr>\<rparr>\<rparr>
      in if g_tx_rate (vglob s) > 0
         then vset (\<lambda>g. g\<lparr>g_concurrency := g_concurrency g - 1\<rparr>) s
         else s)"

section \<open>Worker threads\<close>

text \<open>The operations of a test (\<open>sb_operations_t\<close>) on the whole state; the ones a test may leave
  out are options.  The reports read the variables of the test.  An event of type \<open>SB_REQ_TYPE_NULL\<close> is \<open>None\<close>.\<close>

record ('t, 'e) sb_operations =
  op_init :: "('t ev_state \<Rightarrow> 't ev_state \<times> int) option"
  op_prepare :: "('t ev_state \<Rightarrow> 't ev_state \<times> int) option"
  op_thread_init :: "(nat \<Rightarrow> 't ev_state \<Rightarrow> 't ev_state \<times> int) option"
  op_print_mode :: "('t ev_state \<Rightarrow> 't ev_state) option"
  op_next_event :: "nat \<Rightarrow> 't ev_state \<Rightarrow> 't ev_state \<times> 'e option"
  op_execute_event :: "'e \<Rightarrow> nat \<Rightarrow> 't ev_state \<Rightarrow> 't ev_state \<times> int"
  op_report_intermediate :: "'t \<Rightarrow> report_op"
  op_report_cumulative :: "'t \<Rightarrow> report_op"
  op_thread_run :: "(nat \<Rightarrow> 't ev_state \<Rightarrow> 't ev_state \<times> int) option"
  op_thread_done :: "(nat \<Rightarrow> 't ev_state \<Rightarrow> 't ev_state \<times> int) option"
  op_cleanup :: "('t ev_state \<Rightarrow> 't ev_state \<times> int) option"
  op_done :: "('t ev_state \<Rightarrow> 't ev_state \<times> int) option"

text \<open>What other threads do during the n-th call of \<open>sb_more_events\<close>.\<close>

type_synonym 't interference = "nat \<Rightarrow> ('t ev_state \<Rightarrow> 't ev_state) \<times> ('t ev_state \<Rightarrow> 't ev_state) list"

datatype run_result = Returned int | Stuck more_result

text \<open>\<open>thread_run\<close> with fuel for its loop: \<open>None\<close> when the fuel does not suffice.  The limits are
  checked, and an event is taken, before the result of the last event is looked at.\<close>

fun thread_run ::
  "('t, 'e) sb_operations \<Rightarrow> 't interference \<Rightarrow> nat \<Rightarrow> nat \<Rightarrow> nat \<Rightarrow> int \<Rightarrow> 't ev_state \<Rightarrow> ('t ev_state \<times> run_result) option" where
  "thread_run ops env wid k 0 rc s = None"
| "thread_run ops env wid k (Suc fuel) rc s =
     (case sb_more_events (fst (env k)) (snd (env k)) wid s of
        (s, No_more) \<Rightarrow> Some (s, Returned rc)
      | (s, Blocked) \<Rightarrow> Some (s, Stuck Blocked)
      | (s, Null_pointer) \<Rightarrow> Some (s, Stuck Null_pointer)
      | (s, More) \<Rightarrow>
          if rc \<noteq> 0 then Some (s, Returned rc)
          else case op_next_event ops wid s of
            (s, None) \<Rightarrow> Some (s, Returned rc)
          | (s, Some e) \<Rightarrow>
              (let s = sb_event_start wid s;
                   (s, rc) = op_execute_event ops e wid s;
                   s = sb_event_stop wid s
               in thread_run ops env wid (k + 1) fuel rc s))"

text \<open>\<open>worker_thread\<close> up to its wait at the barrier (whether the thread has been initialised) and
  after it, for the result of the wait.\<close>

definition worker_start ::
  "('t, 'e) sb_operations \<Rightarrow> u64 list \<Rightarrow> sprintf \<Rightarrow> nat \<Rightarrow> 't ev_state \<Rightarrow> 't ev_state \<times> bool" where
  "worker_start ops random fmt wid s =
     (let s = s\<lparr>v_rng := (v_rng s)(wid := sb_rand_thread_init random)\<rparr>;
          s = vsay LOG_DEBUG (fmt ''Worker thread (#%d) started'' [A_int (int wid)]) s;
          (s, rc) = (case op_thread_init ops of None \<Rightarrow> (s, 0) | Some f \<Rightarrow> f wid s)
      in if op_thread_init ops \<noteq> None \<and> rc \<noteq> 0 then
           let s = vsay LOG_DEBUG (fmt ''Worker thread (#%d) failed to initialize!'' [A_int (int wid)]) s
           in (vset (\<lambda>g. g\<lparr>g_error := 1\<rparr>) s, False)
         else (vsay LOG_DEBUG (fmt ''Worker thread (#%d) initialized'' [A_int (int wid)]) s, True))"

definition worker_body ::
  "('t, 'e) sb_operations \<Rightarrow> 't interference \<Rightarrow> nat \<Rightarrow> nat \<Rightarrow> bool \<Rightarrow> int \<Rightarrow> 't ev_state \<Rightarrow> ('t ev_state \<times> run_result) option" where
  "worker_body ops env fuel wid initialised barrier_res s =
     (if \<not> initialised \<or> barrier_res < 0 then Some (s, Returned 0)
      else
        case (case op_thread_run ops of
                Some f \<Rightarrow> (let (s, rc) = f wid s in Some (s, Returned rc))
              | None \<Rightarrow> thread_run ops env wid 0 fuel 0 s) of
          None \<Rightarrow> None
        | Some (s, Stuck r) \<Rightarrow> Some (s, Stuck r)
        | Some (s, Returned rc) \<Rightarrow>
            if rc \<noteq> 0 then Some (vset (\<lambda>g. g\<lparr>g_error := 1\<rparr>) s, Returned 0)
            else (case op_thread_done ops of
                    None \<Rightarrow> Some (s, Returned 0)
                  | Some f \<Rightarrow> Some (fst (f wid s), Returned 0)))"

section \<open>The generator of events\<close>

text \<open>\<open>sb_rand_exp\<close> with the random state of a thread, and its conversion to nanoseconds.\<close>

definition sb_rand_exp :: "real \<Rightarrow> nat \<Rightarrow> 't ev_state \<Rightarrow> 't ev_state \<times> real" where
  "sb_rand_exp lam w s =
     (let (rng, u) = uniform_real (v_rng s w)
      in (s\<lparr>v_rng := (v_rng s)(w := rng)\<rparr>, - lam * ln (1 - u)))"

definition trunc_u64 :: "real \<Rightarrow> u64" where
  "trunc_u64 x = word_of_int \<lfloor>x\<rfloor>"

definition background_id :: "'t ev_state \<Rightarrow> nat" where
  "background_id s = unat (g_threads (vglob s))"

definition interval :: "'t ev_state \<Rightarrow> 't ev_state \<times> u64" where
  "interval s =
     (let (s, x) = sb_rand_exp (10 ^ 9 / real (unat (g_tx_rate (vglob s)))) (background_id s) s
      in (s, trunc_u64 x))"

text \<open>\<open>eventgen_thread_proc\<close> before the barrier (whether it goes on), right after it, and one round
  of its loop.  A round waits \<open>slept\<close> nanoseconds when it is ahead of its schedule.\<close>

definition eventgen_start :: "u64 list \<Rightarrow> bool \<Rightarrow> 't ev_state \<Rightarrow> 't ev_state \<times> bool" where
  "eventgen_start random pthread_ok s =
     (let s = s\<lparr>v_rng := (v_rng s)(background_id s := sb_rand_thread_init random)\<rparr>;
          s = s\<lparr>v_ring := ck_ring_init (of_nat MAX_QUEUE_LEN) (v_ring s)\<rparr>
      in if \<not> pthread_ok then (s, False)
         else (vsay LOG_DEBUG ''Event generating thread started'' s, True))"

definition eventgen_begin :: "'t ev_state \<Rightarrow> 't ev_state \<times> u64" where
  "eventgen_begin s =
     (let (s, curr_ns) = exec_timer_value s;
          (s, intr_ns) = interval s
      in (s, curr_ns + intr_ns))"

datatype gen_result = Gen_end | Gen_next nat u64 "u64 option"

definition queue_full_message :: string where
  "queue_full_message = ''The event queue is full. This means the worker threads are unable to keep up with the specified event generation rate''"

definition eventgen_step :: "nat \<Rightarrow> u64 \<Rightarrow> 't ev_state \<Rightarrow> 't ev_state \<times> gen_result" where
  "eventgen_step i next_ns s =
     (let (s, curr_ns) = exec_timer_value s;
          (s, intr_ns) = interval s;
          next_ns = next_ns + intr_ns
      in if g_max_time_ns (vglob s) > 0 \<and> curr_ns \<ge> g_max_time_ns (vglob s) then (s, Gen_end)
         else
           let slept = (if next_ns > curr_ns then Some (next_ns - curr_ns) else None);
               (s, v) = exec_timer_value s;
               s = s\<lparr>v_queue_array := (v_queue_array s)[i := v]\<rparr>;
               (ring, buf, ok) = ck_ring_enqueue_spmc i (v_ring s) (v_rbuf s);
               s = s\<lparr>v_ring := ring, v_rbuf := buf\<rparr>
           in if \<not> ok then (vsay LOG_FATAL queue_full_message (vset (\<lambda>g. g\<lparr>g_error := 1\<rparr>) s), Gen_end)
              else (s, Gen_next ((i + 1) mod MAX_QUEUE_LEN) next_ns slept))"

section \<open>Lemmas\<close>

lemma glob_set [simp]:
  "vglob (vset f s) = f (vglob s)" "vglob (vsay p t s) = vglob s"
  "glob (v_prog (upd_timer i f' s)) = vglob s"
  by (simp_all add: vset_def set_globals_def vsay_def say_def upd_timer_def)

lemma v_other [simp]:
  "v_ring (vset f s) = v_ring s" "v_rbuf (vset f s) = v_rbuf s" "v_queue_array (vset f s) = v_queue_array s"
  "v_rng (vset f s) = v_rng s" "v_clock (vset f s) = v_clock s" "v_ticks (vset f s) = v_ticks s"
  "v_ring (vsay p t s) = v_ring s" "v_rbuf (vsay p t s) = v_rbuf s" "v_queue_array (vsay p t s) = v_queue_array s"
  "v_ring (upd_timer i f' s) = v_ring s" "v_rbuf (upd_timer i f' s) = v_rbuf s"
  "v_queue_array (upd_timer i f' s) = v_queue_array s"
  "p_timers (v_prog (vset f s)) = p_timers (v_prog s)" "p_exec_timer (v_prog (vset f s)) = p_exec_timer (v_prog s)"
  "p_counters (v_prog (vset f s)) = p_counters (v_prog s)"
  by (simp_all add: vset_def set_globals_def vsay_def upd_timer_def)

lemma exec_timer_value_eq:
  "exec_timer_value s = (s\<lparr>v_ticks := v_ticks s + 1\<rparr>,
     sb_timer_value (v_clock s (v_ticks s)) (p_exec_timer (v_prog s)))"
  by (simp add: exec_timer_value_def SB_GETTIME_def)

text \<open>Without a time limit the check depends on the error flag and the event count only.\<close>

lemma more_events_check_free:
  assumes "g_max_time_ns (vglob s) = 0" "g_error (vglob s) = 0"
  shows "more_events_check s =
     (if g_max_events (vglob s) > 0 then
        let s' = vset (\<lambda>g. g\<lparr>g_nevents := g_nevents (vglob s) + 1\<rparr>) s
        in if g_nevents (vglob s) \<ge> g_max_events (vglob s)
           then (vsay LOG_INFO ''Event limit exceeded, exiting...'' s', False) else (s', True)
      else (s, True))"
  using assms by (simp add: more_events_check_def time_expired_def Let_def)

lemma sb_more_events_limit:
  assumes "g_max_time_ns (vglob s) = 0" "g_error (vglob s) = 0" "g_tx_rate (vglob s) = 0"
    and "g_max_events (vglob s) > 0"
  shows "\<exists>s'. sb_more_events other others w s =
      (s', if g_nevents (vglob s) \<ge> g_max_events (vglob s) then No_more else More) \<and>
    vglob s' = (vglob s)\<lparr>g_nevents := g_nevents (vglob s) + 1\<rparr>"
  using assms by (auto simp: sb_more_events_def more_events_check_free Let_def)

text \<open>Any number of calls from any threads, other things happening in between.\<close>

fun more_calls :: "(nat \<times> ('t ev_state \<Rightarrow> 't ev_state)) list \<Rightarrow> 't ev_state \<Rightarrow> 't ev_state \<times> more_result list" where
  "more_calls [] s = (s, [])"
| "more_calls ((w, between) # cs) s =
     (let (s, r) = sb_more_events id [] w (between s); (s, rs) = more_calls cs s in (s, r # rs))"

text \<open>What the rest of the program leaves alone during a run.\<close>

definition run_globals :: "'t ev_state \<Rightarrow> int \<times> u64 \<times> u64 \<times> u64 \<times> u32" where
  "run_globals s = (g_error (vglob s), g_nevents (vglob s), g_max_events (vglob s),
     g_max_time_ns (vglob s), g_tx_rate (vglob s))"

lemma more_calls_exact:
  assumes "\<forall>(w, f) \<in> set cs. \<forall>s. run_globals (f s) = run_globals s"
    and "g_max_time_ns (vglob s) = 0" "g_error (vglob s) = 0" "g_tx_rate (vglob s) = 0"
    and "0 < m" "g_max_events (vglob s) = m" "unat (g_nevents (vglob s)) + length cs < 2 ^ 64"
  shows "snd (more_calls cs s) =
    replicate (min (length cs) (unat m - unat (g_nevents (vglob s)))) More @
    replicate (length cs - (unat m - unat (g_nevents (vglob s)))) No_more"
  using assms
proof (induction cs arbitrary: s)
  case (Cons c cs)
  obtain w f where c: "c = (w, f)" by (cases c)
  let ?s = "f s"
  have rg: "run_globals ?s = run_globals s" using Cons.prems(1) c by auto
  then have g: "g_max_time_ns (vglob ?s) = 0" "g_error (vglob ?s) = 0" "g_tx_rate (vglob ?s) = 0"
    "g_max_events (vglob ?s) = m" "g_nevents (vglob ?s) = g_nevents (vglob s)"
    using Cons.prems by (simp_all add: run_globals_def)
  obtain s1 where s1: "sb_more_events id [] w ?s =
      (s1, if g_nevents (vglob s) \<ge> m then No_more else More)"
    "vglob s1 = (vglob ?s)\<lparr>g_nevents := g_nevents (vglob s) + 1\<rparr>"
    using sb_more_events_limit [of ?s id "[]" w] g Cons.prems(5) by auto
  have n: "unat (g_nevents (vglob s1)) = unat (g_nevents (vglob s)) + 1"
    using Cons.prems(7) s1(2) by (simp add: unat_word_ariths)
  have "snd (more_calls cs s1) =
    replicate (min (length cs) (unat m - unat (g_nevents (vglob s1)))) More @
    replicate (length cs - (unat m - unat (g_nevents (vglob s1)))) No_more"
    by (rule Cons.IH) (use Cons.prems s1 g n in auto)
  moreover have "unat m - unat (g_nevents (vglob s1)) = (unat m - unat (g_nevents (vglob s))) - 1"
    using n by simp
  ultimately show ?case using s1
    by (cases "unat m - unat (g_nevents (vglob s))")
      (auto simp: c case_prod_beta word_le_nat_alt)
qed simp

section \<open>The queue of time stamps\<close>

text \<open>The ring holds the positions of the time stamps, consecutive up to the position the
  generator writes next.\<close>

definition queued :: "'t ev_state \<Rightarrow> u64 list" where
  "queued s = map (\<lambda>p. v_queue_array s ! p) (ring_items (v_ring s) (v_rbuf s))"

definition positions :: "nat \<Rightarrow> nat \<Rightarrow> nat list" where
  "positions i n = map (\<lambda>j. (i + MAX_QUEUE_LEN - n + j) mod MAX_QUEUE_LEN) [0..<n]"

definition gen_inv :: "nat \<Rightarrow> 't ev_state \<Rightarrow> bool" where
  "gen_inv i s \<longleftrightarrow> i < MAX_QUEUE_LEN \<and> ring_ok (v_ring s) (v_rbuf s) \<and>
     length (v_queue_array s) = MAX_QUEUE_LEN \<and>
     ring_items (v_ring s) (v_rbuf s) = positions i (length (ring_items (v_ring s) (v_rbuf s)))"

lemma length_positions [simp]: "length (positions i n) = n"
  by (simp add: positions_def)

lemma positions_fresh:
  assumes "i < MAX_QUEUE_LEN" "n < MAX_QUEUE_LEN"
  shows "i \<notin> set (positions i n)"
proof
  assume "i \<in> set (positions i n)"
  then obtain j where j: "j < n" "(i + MAX_QUEUE_LEN - n + j) mod MAX_QUEUE_LEN = i"
    by (auto simp: positions_def)
  then have "(i + MAX_QUEUE_LEN - n + j) mod MAX_QUEUE_LEN = (i + MAX_QUEUE_LEN) mod MAX_QUEUE_LEN"
    using assms by simp
  moreover have "i + MAX_QUEUE_LEN - n + j < i + MAX_QUEUE_LEN"
    "i + MAX_QUEUE_LEN - (i + MAX_QUEUE_LEN - n + j) < MAX_QUEUE_LEN"
    using j(1) assms by linarith+
  ultimately show False by (metis mod_ne)
qed

lemma positions_snoc:
  assumes "i < MAX_QUEUE_LEN" "n < MAX_QUEUE_LEN"
  shows "positions ((i + 1) mod MAX_QUEUE_LEN) (n + 1) = positions i n @ [i]"
proof -
  have "((i + 1) mod MAX_QUEUE_LEN + MAX_QUEUE_LEN - Suc n + j) mod MAX_QUEUE_LEN =
      (i + MAX_QUEUE_LEN - n + j) mod MAX_QUEUE_LEN" for j
  proof (cases "i + 1 = MAX_QUEUE_LEN")
    case True
    then have "i + MAX_QUEUE_LEN - n + j = (MAX_QUEUE_LEN - Suc n + j) + MAX_QUEUE_LEN"
      using assms by linarith
    moreover have "(i + 1) mod MAX_QUEUE_LEN + MAX_QUEUE_LEN - Suc n + j = MAX_QUEUE_LEN - Suc n + j"
      using True by simp
    ultimately show ?thesis by (simp only: mod_add_self2)
  next
    case False
    then show ?thesis using assms by simp
  qed
  moreover have "(i + MAX_QUEUE_LEN - n + n) mod MAX_QUEUE_LEN = i" using assms by simp
  ultimately show ?thesis by (simp add: positions_def)
qed

lemma positions_tl:
  assumes "i < MAX_QUEUE_LEN" "Suc n \<le> MAX_QUEUE_LEN"
  shows "tl (positions i (Suc n)) = positions i n"
  using assms by (auto simp: positions_def map_tl [symmetric] tl_upt comp_def map_Suc_upt [symmetric]
      simp del: upt_Suc)

lemma interval_keeps:
  assumes "interval s = (s', d)"
  shows "v_prog s' = v_prog s \<and> v_ring s' = v_ring s \<and> v_rbuf s' = v_rbuf s \<and>
    v_queue_array s' = v_queue_array s \<and> v_clock s' = v_clock s \<and> v_ticks s' = v_ticks s"
  using assms by (auto simp: interval_def sb_rand_exp_def Let_def split: prod.splits)

text \<open>Appending at the position of the generator.\<close>

lemma queue_append:
  assumes inv: "gen_inv i s" and e: "ck_ring_enqueue_spmc i (v_ring s) (v_rbuf s) = (ring, buf, ok)"
    and s': "v_ring s' = ring" "v_rbuf s' = buf" "v_queue_array s' = (v_queue_array s)[i := v]"
  shows "if ok then gen_inv ((i + 1) mod MAX_QUEUE_LEN) s' \<and> queued s' = queued s @ [v]
     else gen_inv i s' \<and> queued s' = queued s"
proof -
  let ?ps = "ring_items (v_ring s) (v_rbuf s)"
  have i: "i < MAX_QUEUE_LEN" "ring_ok (v_ring s) (v_rbuf s)" "length (v_queue_array s) = MAX_QUEUE_LEN"
    "?ps = positions i (length ?ps)" using inv by (simp_all add: gen_inv_def)
  note q = ck_ring_enqueue_items [OF i(2) e]
  have lt: "length ?ps < MAX_QUEUE_LEN" by (rule ring_items_length [OF i(2)])
  have fresh: "i \<notin> set ?ps" using positions_fresh [OF i(1) lt] i(4) by simp
  then have old: "map (\<lambda>p. v_queue_array s' ! p) ?ps = queued s"
    unfolding queued_def s' by (metis (no_types, lifting) map_cong nth_list_update_neq)
  show ?thesis
  proof (cases ok)
    case True
    have "?ps @ [i] = positions ((i + 1) mod MAX_QUEUE_LEN) (length (?ps @ [i]))"
      using positions_snoc [OF i(1) lt] i(4) by simp
    moreover have it: "ring_items (v_ring s') (v_rbuf s') = ?ps @ [i]" "ring_ok (v_ring s') (v_rbuf s')"
      using q True s' by simp_all
    moreover have "queued s' = queued s @ [v]"
    proof -
      have "queued s' = map (\<lambda>p. v_queue_array s' ! p) (?ps @ [i])" by (simp only: queued_def it)
      also have "\<dots> = queued s @ [v_queue_array s' ! i]" by (simp only: map_append old list.map)
      also have "v_queue_array s' ! i = v" using i(1,3) s'(3) by simp
      finally show ?thesis .
    qed
    moreover have "(i + 1) mod MAX_QUEUE_LEN < MAX_QUEUE_LEN" by (simp add: MAX_QUEUE_LEN_def)
    ultimately show ?thesis using True i by (simp add: gen_inv_def s'(3) del: One_nat_def)
  next
    case False
    then show ?thesis using q s' i old by (simp add: gen_inv_def queued_def)
  qed
qed

lemma eventgen_step_cases:
  assumes inv: "gen_inv i s" and st: "eventgen_step i next_ns s = (s', r)"
  shows "case r of
      Gen_next i' next_ns' slept \<Rightarrow> gen_inv i' s' \<and>
        queued s' = queued s @ [sb_timer_value (v_clock s (v_ticks s + 1)) (p_exec_timer (v_prog s))]
    | Gen_end \<Rightarrow> gen_inv i s' \<and> queued s' = queued s"
proof -
  let ?s1 = "s\<lparr>v_ticks := v_ticks s + 1\<rparr>"
  obtain s2 d where d: "interval ?s1 = (s2, d)" by fastforce
  note k = interval_keeps [OF d]
  let ?v = "sb_timer_value (v_clock s2 (v_ticks s2)) (p_exec_timer (v_prog s2))"
  have v: "?v = sb_timer_value (v_clock s (v_ticks s + 1)) (p_exec_timer (v_prog s))" using k by simp
  have g2: "gen_inv i s2" "queued s2 = queued s" using inv k by (simp_all add: gen_inv_def queued_def)
  obtain ring buf ok where e: "ck_ring_enqueue_spmc i (v_ring s2) (v_rbuf s2) = (ring, buf, ok)"
    by (cases "ck_ring_enqueue_spmc i (v_ring s2) (v_rbuf s2)")
  show ?thesis
  proof (cases "g_max_time_ns (vglob s2) > 0 \<and>
      sb_timer_value (v_clock s (v_ticks s)) (p_exec_timer (v_prog s)) \<ge> g_max_time_ns (vglob s2)")
    case True
    then have "s' = s2 \<and> r = Gen_end"
      using st by (simp add: eventgen_step_def exec_timer_value_eq d [simplified] Let_def)
    with g2 show ?thesis by simp
  next
    case False
    let ?s3 = "s2\<lparr>v_ticks := v_ticks s2 + 1, v_queue_array := (v_queue_array s2)[i := ?v], v_ring := ring, v_rbuf := buf\<rparr>"
    have "if ok then s' = ?s3 \<and> (\<exists>nx sl. r = Gen_next ((i + 1) mod MAX_QUEUE_LEN) nx sl)
      else s' = vsay LOG_FATAL queue_full_message (vset (\<lambda>g. g\<lparr>g_error := 1\<rparr>) ?s3) \<and> r = Gen_end"
      using st False e by (auto simp: eventgen_step_def exec_timer_value_eq d [simplified] Let_def)
    moreover have "v_ring s' = ring \<and> v_rbuf s' = buf \<and> v_queue_array s' = (v_queue_array s2)[i := ?v]"
      using calculation by (auto split: if_splits)
    ultimately show ?thesis using queue_append [OF g2(1) e, of s' ?v] g2(2) v
      by (auto split: if_splits)
  qed
qed

text \<open>Taking from a queue that is not empty.\<close>

lemma take_event_head:
  assumes inv: "gen_inv i s" and q: "queued s = t # ts" and w: "w < length (p_timers (v_prog s))"
  shows "\<exists>s'. take_event others w s = (s', More) \<and> gen_inv i s' \<and> queued s' = ts \<and>
    queue_time (p_timers (v_prog s') ! w) =
      sb_timer_value (v_clock s (v_ticks s)) (p_exec_timer (v_prog s)) - t \<and>
    vglob s' = (vglob s)\<lparr>g_concurrency := g_concurrency (vglob s) + 1\<rparr> \<and>
    length (p_timers (v_prog s')) = length (p_timers (v_prog s))"
proof -
  let ?ps = "ring_items (v_ring s) (v_rbuf s)"
  have i: "i < MAX_QUEUE_LEN" "ring_ok (v_ring s) (v_rbuf s)" "length (v_queue_array s) = MAX_QUEUE_LEN"
    "?ps = positions i (length ?ps)" using inv by (simp_all add: gen_inv_def)
  obtain ring ptr where d: "ck_ring_dequeue_spmc (v_ring s) (v_rbuf s) = (ring, ptr)" by fastforce
  note dq = ck_ring_dequeue_items [OF i(2), unfolded d]
  obtain p where p: "ptr = Some p" "ring_ok ring (v_rbuf s)" "?ps = p # ring_items ring (v_rbuf s)"
    using dq q by (auto simp: queued_def split: option.splits)
  have t: "t = v_queue_array s ! p" "ts = map (\<lambda>p. v_queue_array s ! p) (ring_items ring (v_rbuf s))"
    using q p(3) by (simp_all add: queued_def)
  let ?n = "length (ring_items ring (v_rbuf s))"
  have "Suc ?n \<le> MAX_QUEUE_LEN" using ring_items_length [OF i(2)] p(3) by simp
  from positions_tl [OF i(1) this] i(4) p(3) have "ring_items ring (v_rbuf s) = positions i ?n"
    by (metis list.sel(3) length_Cons)
  then show ?thesis using i p t w
    by (simp add: d take_ptr_def exec_timer_value_eq gen_inv_def queued_def upd_timer_def vset_def
        set_globals_def Let_def)
qed

section \<open>Runs of a worker\<close>

lemma start_fields [simp]:
  "v_ring (sb_event_start w s) = v_ring s" "v_rbuf (sb_event_start w s) = v_rbuf s"
  "v_queue_array (sb_event_start w s) = v_queue_array s" "vglob (sb_event_start w s) = vglob s"
  "length (p_timers (v_prog (sb_event_start w s))) = length (p_timers (v_prog s))"
  by (simp_all add: sb_event_start_def SB_GETTIME_def upd_timer_def)

lemma stop_fields [simp]:
  "v_ring (sb_event_stop w s) = v_ring s" "v_rbuf (sb_event_stop w s) = v_rbuf s"
  "v_queue_array (sb_event_stop w s) = v_queue_array s"
  "length (p_timers (v_prog (sb_event_stop w s))) = length (p_timers (v_prog s))"
  by (simp_all add: sb_event_stop_def SB_GETTIME_def upd_timer_def case_prod_beta Let_def)

lemma stop_stats:
  "p_timers (v_prog (sb_event_stop w s)) =
     (p_timers (v_prog s))[w := fst (sb_timer_stop (v_clock s (v_ticks s)) (p_timers (v_prog s) ! w))]"
  "sb_counters (p_counters (v_prog (sb_event_stop w s))) =
     map_option (sb_counter_inc w SB_CNT_EVENT) (sb_counters (p_counters (v_prog s)))"
  "g_percentile (vglob s) > 0 \<Longrightarrow> l_latency (p_log (v_prog (sb_event_stop w s))) =
     fst (sb_histogram_update (l_latency (p_log (v_prog s)))
       (NS2MS (sint (snd (sb_timer_stop (v_clock s (v_ticks s)) (p_timers (v_prog s) ! w))))) (v_rng s w))"
  "\<not> g_percentile (vglob s) > 0 \<Longrightarrow> l_latency (p_log (v_prog (sb_event_stop w s))) = l_latency (p_log (v_prog s))"
  by (simp_all add: sb_event_stop_def SB_GETTIME_def upd_timer_def vset_def set_globals_def case_prod_beta Let_def)

lemma stop_globals:
  "vglob (sb_event_stop w s) = (if g_tx_rate (vglob s) > 0
     then (vglob s)\<lparr>g_concurrency := g_concurrency (vglob s) - 1\<rparr> else vglob s)"
  by (simp add: sb_event_stop_def SB_GETTIME_def upd_timer_def vset_def set_globals_def case_prod_beta Let_def)

lemma run_globals_start_stop [simp]:
  "run_globals (sb_event_start w s) = run_globals s" "run_globals (sb_event_stop w s) = run_globals s"
  by (simp_all add: run_globals_def stop_globals)

lemma event_test_fields [simp]:
  "v_test (sb_event_start w s) = v_test s" "v_test (sb_event_stop w s) = v_test s"
  "p_counters (v_prog (sb_event_start w s)) = p_counters (v_prog s)"
  by (simp_all add: sb_event_start_def sb_event_stop_def SB_GETTIME_def upd_timer_def vset_def case_prod_beta Let_def)

text \<open>A run without limits, in which nothing but the test ends a worker.\<close>

definition unlimited :: "'t ev_state \<Rightarrow> bool" where
  "unlimited s \<longleftrightarrow> g_error (vglob s) = 0 \<and> g_max_time_ns (vglob s) = 0 \<and> g_tx_rate (vglob s) = 0 \<and>
     g_max_events (vglob s) = 0"

lemma unlimited_more: "unlimited s \<Longrightarrow> sb_more_events a b w s = (s, More)"
  by (simp add: unlimited_def sb_more_events_def more_events_check_free Let_def)

lemma unlimited_stop [simp]: "unlimited (sb_event_stop w s) = unlimited s"
  by (simp add: unlimited_def stop_globals)

lemma unlimited_cong: "vglob s' = vglob s \<Longrightarrow> unlimited s' = unlimited s"
  by (simp add: unlimited_def)

lemma time_expired_keeps [simp]: "vglob (fst (time_expired s)) = vglob s"
  by (simp add: time_expired_def exec_timer_value_eq)

lemma more_events_limited:
  assumes "g_tx_rate (vglob s) = 0" "g_max_events (vglob s) > 0"
  shows "\<exists>s' r. sb_more_events other others w s = (s', r) \<and> (r = No_more \<or>
    r = More \<and> g_nevents (vglob s) < g_max_events (vglob s) \<and>
    vglob s' = (vglob s)\<lparr>g_nevents := g_nevents (vglob s) + 1\<rparr>)"
proof -
  obtain s1 b where t: "time_expired s = (s1, b)" by fastforce
  then have "vglob s1 = vglob s" using time_expired_keeps [of s] by simp
  with t assms show ?thesis
    by (auto simp: sb_more_events_def more_events_check_def Let_def not_le)
qed

text \<open>What happens during an event may count other events; it keeps the limit and the rate.\<close>

definition limit_kept :: "'t ev_state \<Rightarrow> 't ev_state \<Rightarrow> bool" where
  "limit_kept s s' \<longleftrightarrow> g_tx_rate (vglob s') = g_tx_rate (vglob s) \<and> g_max_events (vglob s') = g_max_events (vglob s) \<and>
     g_nevents (vglob s) \<le> g_nevents (vglob s')"

lemma thread_run_enough:
  assumes ops: "\<And>w s. limit_kept s (fst (op_next_event ops w s))"
      "\<And>e w s. limit_kept s (fst (op_execute_event ops e w s))"
    and "g_tx_rate (vglob s) = 0" "g_max_events (vglob s) > 0"
    and "unat (g_max_events (vglob s)) - unat (g_nevents (vglob s)) < fuel"
  shows "\<exists>s' rc'. thread_run ops env w k fuel rc s = Some (s', Returned rc')"
  using assms(3-5)
proof (induction fuel arbitrary: s k rc)
  case (Suc fuel)
  obtain s1 r where m: "sb_more_events (fst (env k)) (snd (env k)) w s = (s1, r)" and
    r: "r = No_more \<or> r = More \<and> g_nevents (vglob s) < g_max_events (vglob s) \<and>
      vglob s1 = (vglob s)\<lparr>g_nevents := g_nevents (vglob s) + 1\<rparr>"
    using more_events_limited [OF Suc.prems(1,2), of "fst (env k)" "snd (env k)" w] by blast
  obtain s2 x where n: "op_next_event ops w s1 = (s2, x)" by fastforce
  show ?case
  proof (cases "r = More \<and> rc = 0 \<and> x \<noteq> None")
    case False
    with m n r show ?thesis by (cases x) auto
  next
    case True
    then obtain e where x: "x = Some e" by auto
    obtain s3 rc3 where ex: "op_execute_event ops e w (sb_event_start w s2) = (s3, rc3)" by fastforce
    let ?s4 = "sb_event_stop w s3"
    have rg: "limit_kept s1 ?s4"
      using ops(1) [of s1 w] ops(2) [of "sb_event_start w s2" e w] n ex
        run_globals_start_stop(1) [of w s2] run_globals_start_stop(2) [of w s3]
      by (auto simp: limit_kept_def run_globals_def)
    have "g_tx_rate (vglob ?s4) = 0" "g_max_events (vglob ?s4) = g_max_events (vglob s)"
      "g_nevents (vglob s) + 1 \<le> g_nevents (vglob ?s4)"
      using rg r True Suc.prems by (simp_all add: limit_kept_def)
    moreover have "unat (g_nevents (vglob s) + 1) = unat (g_nevents (vglob s)) + 1"
    proof -
      have "unat (g_nevents (vglob s)) < unat (g_max_events (vglob s))"
        using r True by (auto simp: word_less_nat_alt)
      moreover have "unat (g_max_events (vglob s)) < 2 ^ LENGTH(64)" by (rule unsigned_less)
      ultimately show ?thesis by (simp add: unat_word_ariths)
    qed
    moreover have "unat (g_nevents (vglob s)) < unat (g_max_events (vglob s))"
      using r True by (auto simp: word_less_nat_alt)
    ultimately have "unat (g_max_events (vglob ?s4)) - unat (g_nevents (vglob ?s4)) < fuel"
      "g_tx_rate (vglob ?s4) = 0" "g_max_events (vglob ?s4) > 0"
      using Suc.prems unfolding word_le_nat_alt by simp_all
    from Suc.IH [OF this(2,3,1)] obtain s' rc' where
      "thread_run ops env w (k + 1) fuel rc3 ?s4 = Some (s', Returned rc')" by blast
    with m n x ex True show ?thesis by simp
  qed
qed simp

section \<open>Properties\<close>

text \<open>C7: Without a time limit, an error or a rate, the calls of \<open>sb_more_events\<close> by all threads
  together, in any order, let exactly the first \<open>max_events - nevents\<close> of them go on and refuse
  all later ones: the event limit is met exactly, however the threads interleave.\<close>

theorem event_limit_exact:
  assumes "\<forall>(w, f) \<in> set cs. \<forall>s. run_globals (f s) = run_globals s"
    and "g_max_time_ns (vglob s) = 0" "g_error (vglob s) = 0" "g_tx_rate (vglob s) = 0"
    and "0 < m" "g_max_events (vglob s) = m" "unat (g_nevents (vglob s)) + length cs < 2 ^ 64"
  shows "snd (more_calls cs s) =
    replicate (min (length cs) (unat m - unat (g_nevents (vglob s)))) More @
    replicate (length cs - (unat m - unat (g_nevents (vglob s)))) No_more"
  by (rule more_calls_exact [OF assms])

definition sample_ev :: "(sb_globals \<Rightarrow> sb_globals) \<Rightarrow> unit ev_state" where
  "sample_ev f = \<lparr>v_prog = set_globals f sample_prog,
     v_ring = \<lparr>c_head = 0, p_tail = 0, p_head = 0, ring_size = of_nat MAX_QUEUE_LEN, ring_mask = mask 17\<rparr>,
     v_rbuf = replicate MAX_QUEUE_LEN 0, v_queue_array = replicate MAX_QUEUE_LEN 0,
     v_rng = \<lambda>_. (1, 2), v_clock = \<lambda>n. \<lparr>tv_sec = int n, tv_nsec = 0\<rparr>, v_ticks = 0, v_test = ()\<rparr>"

lemma sample_ev_globals [simp]: "vglob (sample_ev f) = f (globals_static\<lparr>g_threads := 1\<rparr>)"
  by (simp add: sample_ev_def set_globals_def sample_prog_def)

theorem event_limit_exact_witness:
  "snd (more_calls [(0, id), (1, id), (0, id), (1, id)] (sample_ev (\<lambda>g. g\<lparr>g_max_events := 3\<rparr>))) =
    [More, More, More, No_more]"
proof -
  let ?s = "sample_ev (\<lambda>g. g\<lparr>g_max_events := 3\<rparr>)" and ?cs = "[(0, id), (1, id), (0, id), (1, id)] :: (nat \<times> (unit ev_state \<Rightarrow> unit ev_state)) list"
  have n: "unat (3 :: u64) - unat (g_nevents (vglob ?s)) = 3" "length ?cs = 4"
    by (simp_all add: globals_static_def)
  have "snd (more_calls ?cs ?s) =
      replicate (min (length ?cs) (unat (3 :: u64) - unat (g_nevents (vglob ?s)))) More @
      replicate (length ?cs - (unat (3 :: u64) - unat (g_nevents (vglob ?s)))) No_more"
    by (rule event_limit_exact) (simp_all add: globals_static_def)
  also have "\<dots> = replicate 3 More @ replicate 1 No_more" unfolding n by simp
  finally show ?thesis by (simp add: numeral_3_eq_3)
qed


definition idle_ops :: "int \<Rightarrow> (unit, unit) sb_operations" where
  "idle_ops rc = \<lparr>op_init = None, op_prepare = None, op_thread_init = None, op_print_mode = None,
     op_next_event = (\<lambda>w s. (s, Some ())), op_execute_event = (\<lambda>e w s. (s, rc)),
     op_report_intermediate = \<lambda>_. None, op_report_cumulative = \<lambda>_. None, op_thread_run = None,
     op_thread_done = None, op_cleanup = None, op_done = None\<rparr>"


text \<open>C19: The generator never overwrites a time stamp that is still queued, although time stamps live
  in an array reused in circles and the ring holds only their positions: a round of the
  generator appends the current time to the queued time stamps, or, at the time limit or when
  the queue is full, leaves them as they are.\<close>

theorem eventgen_queue:
  assumes "gen_inv i s" "eventgen_step i next_ns s = (s', r)"
  shows "case r of
      Gen_next i' next_ns' slept \<Rightarrow> gen_inv i' s' \<and>
        queued s' = queued s @ [sb_timer_value (v_clock s (v_ticks s + 1)) (p_exec_timer (v_prog s))]
    | Gen_end \<Rightarrow> gen_inv i s' \<and> queued s' = queued s"
  by (rule eventgen_step_cases [OF assms])

lemma sample_ev_inv: "gen_inv 0 (sample_ev f) \<and> queued (sample_ev f) = []"
  by (simp add: gen_inv_def queued_def sample_ev_def ring_ok_def ring_items_def positions_def MAX_QUEUE_LEN_def)

theorem eventgen_queue_witness:
  "case snd (eventgen_step 0 0 (sample_ev id)) of
     Gen_next i' _ _ \<Rightarrow> length (queued (fst (eventgen_step 0 0 (sample_ev id)))) = 1
   | Gen_end \<Rightarrow> queued (fst (eventgen_step 0 0 (sample_ev id))) = []"
  using eventgen_queue [of 0 "sample_ev id" 0 "fst (eventgen_step 0 0 (sample_ev id))"
      "snd (eventgen_step 0 0 (sample_ev id))"] sample_ev_inv [of id]
  by (auto split: gen_result.splits)

text \<open>In rate mode an event that fails takes another one with it: after \<open>execute_event\<close> has
  returned an error, the loop condition dequeues the next event before it looks at the error,
  so that event is never executed and the number of concurrent events stays one too high.\<close>

theorem failed_event_consumes_another:
  assumes "gen_inv i s" "queued s = t1 # t2 # ts" "w < length (p_timers (v_prog s))"
    and "g_error (vglob s) = 0" "g_max_time_ns (vglob s) = 0" "g_max_events (vglob s) = 0" "g_tx_rate (vglob s) > 0"
    and "\<And>s. op_next_event ops w s = (s, Some e)" "\<And>s. op_execute_event ops e w s = (s, rc)" "rc \<noteq> 0"
  shows "\<exists>s'. thread_run ops (\<lambda>_. (id, [])) w k (Suc (Suc fuel)) 0 s = Some (s', Returned rc) \<and>
    queued s' = ts \<and> g_concurrency (vglob s') = g_concurrency (vglob s) + 1"
proof -
  have more: "sb_more_events id [] w s = take_event [] w s"
    if "g_error (vglob s) = 0" "g_max_time_ns (vglob s) = 0" "g_max_events (vglob s) = 0" "g_tx_rate (vglob s) > 0"
    for s
    using that by (simp add: sb_more_events_def more_events_check_free)
  obtain s1 where s1: "take_event [] w s = (s1, More)" "gen_inv i s1" "queued s1 = t2 # ts"
    "vglob s1 = (vglob s)\<lparr>g_concurrency := g_concurrency (vglob s) + 1\<rparr>"
    "length (p_timers (v_prog s1)) = length (p_timers (v_prog s))"
    using take_event_head [OF assms(1-3)] by blast
  let ?s2 = "sb_event_stop w (sb_event_start w s1)"
  have keep: "gen_inv i ?s2 \<and> queued ?s2 = t2 # ts \<and> length (p_timers (v_prog ?s2)) = length (p_timers (v_prog s)) \<and>
      vglob ?s2 = (vglob s1)\<lparr>g_concurrency := g_concurrency (vglob s1) - 1\<rparr>"
    using s1 assms(7) by (simp add: gen_inv_def queued_def stop_globals)
  then obtain s3 where s3: "take_event [] w ?s2 = (s3, More)" "queued s3 = ts"
    "vglob s3 = (vglob ?s2)\<lparr>g_concurrency := g_concurrency (vglob ?s2) + 1\<rparr>"
    using take_event_head [of i ?s2 t2 ts w "[]"] assms(3) by auto
  have "thread_run ops (\<lambda>_. (id, [])) w k (Suc (Suc fuel)) 0 s = Some (s3, Returned rc)"
    using assms(4-10) s1 s3 keep more [of s] more [of ?s2] by simp
  then show ?thesis using s3 keep s1 by auto
qed

definition two_queued :: "unit ev_state" where
  "two_queued = (let s = sample_ev (\<lambda>g. g\<lparr>g_tx_rate := 9\<rparr>)
     in s\<lparr>v_ring := (v_ring s)\<lparr>p_tail := 2\<rparr>, v_rbuf := (v_rbuf s)[0 := 0, 1 := 1],
          v_queue_array := (v_queue_array s)[0 := 5, 1 := 6]\<rparr>)"

lemma two_queued_inv: "gen_inv 2 two_queued \<and> queued two_queued = [5, 6]"
proof -
  have items: "ring_items (v_ring two_queued) (v_rbuf two_queued) = [0, 1]"
    by (simp add: two_queued_def sample_ev_def ring_items_def slot_def MAX_QUEUE_LEN_def upt_rec)
  have "positions 2 (Suc (Suc 0)) = [0, Suc 0]" by (simp add: positions_def MAX_QUEUE_LEN_def upt_rec)
  moreover have "ring_ok (v_ring two_queued) (v_rbuf two_queued)"
    by (simp add: two_queued_def sample_ev_def ring_ok_def MAX_QUEUE_LEN_def)
  ultimately show ?thesis
    by (simp add: gen_inv_def queued_def items) (simp add: two_queued_def sample_ev_def MAX_QUEUE_LEN_def)
qed

theorem failed_event_consumes_another_witness:
  "\<exists>s'. thread_run (idle_ops 1) (\<lambda>_. (id, [])) 0 0 2 0 two_queued = Some (s', Returned 1) \<and>
    queued s' = [] \<and> g_concurrency (vglob s') = 1"
proof -
  have v: "vglob two_queued = globals_static\<lparr>g_threads := 1, g_tx_rate := 9\<rparr>"
    "length (p_timers (v_prog two_queued)) = 1"
    by (simp_all add: two_queued_def sample_ev_def set_globals_def sample_prog_def)
  have "\<exists>s'. thread_run (idle_ops 1) (\<lambda>_. (id, [])) 0 0 (Suc (Suc 0)) 0 two_queued = Some (s', Returned 1) \<and>
      queued s' = [] \<and> g_concurrency (vglob s') = g_concurrency (vglob two_queued) + 1"
    by (rule failed_event_consumes_another [where i = 2 and ?t1.0 = 5 and ?t2.0 = 6 and e = "()"])
      (use two_queued_inv in \<open>simp_all add: v globals_static_def idle_ops_def\<close>)
  then show ?thesis by (simp add: v globals_static_def numeral_2_eq_2)
qed

text \<open>A worker that finds no queued event once another thread has reported an error dereferences
  a NULL pointer: the error flag ends the loop around the dequeue without an entry, and the
  entry is read all the same.\<close>

theorem more_events_null_pointer:
  assumes "more_events_check s = (s1, True)" "g_tx_rate (vglob s1) > 0"
    and "ring_ok (v_ring (other s1)) (v_rbuf (other s1))"
    and "queued (other s1) = []" "g_error (vglob (other s1)) \<noteq> 0"
  shows "snd (sb_more_events other others w s) = Null_pointer"
proof -
  obtain ring ptr where d: "ck_ring_dequeue_spmc (v_ring (other s1)) (v_rbuf (other s1)) = (ring, ptr)"
    by fastforce
  have "ptr = None"
    using ck_ring_dequeue_items [OF assms(3), unfolded d] assms(4)
    by (auto simp: queued_def split: option.splits)
  with d assms show ?thesis by (simp add: sb_more_events_def take_ptr_def Let_def)
qed

theorem more_events_null_pointer_witness:
  "snd (sb_more_events (vset (\<lambda>g. g\<lparr>g_error := 1\<rparr>)) [] 0 (sample_ev (\<lambda>g. g\<lparr>g_tx_rate := 9\<rparr>))) = Null_pointer"
proof -
  let ?s = "sample_ev (\<lambda>g. g\<lparr>g_tx_rate := 9\<rparr>)"
  have "more_events_check ?s = (?s, True)"
    by (simp add: more_events_check_free globals_static_def)
  moreover have "ring_ok (v_ring ?s) (v_rbuf ?s)" "queued (vset f ?s) = []" for f
    using sample_ev_inv [of "\<lambda>g. g\<lparr>g_tx_rate := 9\<rparr>"] by (simp_all add: gen_inv_def queued_def)
  ultimately show ?thesis
    by (intro more_events_null_pointer [of ?s ?s]) (simp_all add: globals_static_def)
qed

text \<open>Where the histogram gains a value: the sum over all its slots.\<close>

definition in_slots :: "'t ev_state \<Rightarrow> u64" where
  "in_slots s = (let h = l_latency (p_log (v_prog s)) in \<Sum>j\<leftarrow>[0..<array_size h]. col j (interm_slots h))"

lemma in_slots_update:
  assumes "wf_histogram h" "l_latency (p_log (v_prog s)) = h" "l_latency (p_log (v_prog s')) = fst (sb_histogram_update h v r)"
  shows "in_slots s' = in_slots s + 1"
proof -
  obtain h' rng where h: "sb_histogram_update h v r = (h', rng)" by (metis surj_pair)
  have same: "array_size h' = array_size h" using h by (auto simp: sb_histogram_update_def Let_def split: prod.splits)
  obtain k i where ki: "k < SB_HISTOGRAM_NSLOTS" "i < array_size h" "interm_slots h' = inc_slot k i (interm_slots h)"
  proof
    let ?r = "snd (sb_rand_uniform_uint64 r)"
    show "unat (?r mod of_nat SB_HISTOGRAM_NSLOTS) < SB_HISTOGRAM_NSLOTS"
      by (simp add: SB_HISTOGRAM_NSLOTS_def unat_mod)
    show "hist_index h v < array_size h"
      using assms(1) by (auto simp: hist_index_def wf_histogram_def Let_def)
    show "interm_slots h' = inc_slot (unat (?r mod of_nat SB_HISTOGRAM_NSLOTS)) (hist_index h v) (interm_slots h)"
      using h by (auto simp: sb_histogram_update_def Let_def split: prod.splits)
  qed
  have "wf_slots (array_size h) (interm_slots h)" using assms(1) by (simp add: wf_histogram_def)
  from col_inc [OF this ki(1,2)] ki(2) assms(2,3) h same show ?thesis
    by (simp only: in_slots_def Let_def fst_conv ki(3) sum_list_add_single)
qed



end
