(* ===== verification/RunTest.thy ===== *)
theory RunTest
  imports Events Barrier
begin

text \<open>
  A run of a test (\<open>sysbench.c\<close>): the header of the run, the reporting threads and their
  schedules, the start of the threads at the barriers, the life of \<open>run_test\<close>, and the
  dispatch of commands in \<open>main\<close>.  The results of the operating system and what the other
  threads do while the main thread waits are fields of \<open>run_env\<close>.
\<close>

section \<open>Per-thread arrays\<close>

text \<open>\<open>sb_alloc_per_thread_array\<close>: the number of bytes asked for, a u64 product whose first factor
  wraps as an unsigned int, and the array, zeroed before it is tested for NULL: the outcome
  is \<open>None\<close> when \<open>memset\<close> is called on NULL.\<close>

definition CK_MD_CACHELINE :: u64 where "CK_MD_CACHELINE = 64"

definition sb_alloc_per_thread_array ::
  "(u64 \<Rightarrow> u64 \<Rightarrow> int \<times> u64) \<Rightarrow> u32 \<Rightarrow> u64 \<Rightarrow> (u64 \<times> u64) option" where
  "sb_alloc_per_thread_array posix_memalign nthr sz =
     (let bsize = ucast (nthr + 1) * sz
      in case sb_memalign posix_memalign bsize CK_MD_CACHELINE of
           None \<Rightarrow> None
         | Some p \<Rightarrow> Some (p, bsize))"

section \<open>The header of a run\<close>

text \<open>\<open>%u\<close>, and the list of checkpoints in a buffer of which \<open>room\<close> bytes are left.\<close>

fun udec :: "nat \<Rightarrow> string" where
  "udec n = (if n < 10 then [char_of (48 + n)] else udec (n div 10) @ [char_of (48 + n mod 10)])"

declare udec.simps [simp del]

fun checkpoint_str :: "u32 list \<Rightarrow> nat \<Rightarrow> string" where
  "checkpoint_str [] room = []"
| "checkpoint_str [c] room = snprintf room (udec (unat c))"
| "checkpoint_str (c # d # cs) room =
     (let t = udec (unat c) @ '', ''
      in if length t \<ge> room then snprintf room t else t @ checkpoint_str (d # cs) (room - length t))"

text \<open>\<open>print_run_mode\<close>: the state and the seed given to \<open>srandom\<close>.\<close>

definition print_run_mode ::
  "sprintf \<Rightarrow> int \<Rightarrow> int \<Rightarrow> ('t, 'e) sb_operations \<Rightarrow> 't ev_state \<Rightarrow> 't ev_state \<times> int" where
  "print_run_mode fmt seed now ops s =
     (let g = vglob s;
          s = vsay LOG_NOTICE ''Running the test with following options:'' s;
          s = vsay LOG_NOTICE (fmt ''Number of threads: %d'' [A_int (sint (g_threads g))]) s;
          s = (if g_warmup_time g > 0
               then vsay LOG_NOTICE (fmt ''Warmup time: %ds'' [A_int (g_warmup_time g)]) s else s);
          s = (if g_tx_rate g > 0
               then vsay LOG_NOTICE (fmt ''Target transaction rate: %d/sec'' [A_int (sint (g_tx_rate g))]) s else s);
          s = (if g_report_interval g \<noteq> 0
               then vsay LOG_NOTICE (fmt ''Report intermediate results every %d second(s)'' [A_int (sint (g_report_interval g))]) s
               else s);
          s = (if g_n_checkpoints g > 0
               then vsay LOG_NOTICE (fmt ''Report checkpoint(s) at %s seconds''
                      [A_str (checkpoint_str (take (unat (g_n_checkpoints g)) (g_checkpoints g)) (MAX_CHECKPOINTS * 12))]) s
               else s);
          s = (if g_debug g then vsay LOG_NOTICE (''Debug mode enabled.'' @ [CHR 0x0A]) s else s);
          s = (if g_validate g then vsay LOG_NOTICE (''Validation checks: on.'' @ [CHR 0x0A]) s else s);
          s = (if seed \<noteq> 0
               then vsay LOG_NOTICE (fmt (''Initializing random number generator from seed (%d).'' @ [CHR 0x0A]) [A_int seed]) s
               else vsay LOG_NOTICE (''Initializing random number generator from current time'' @ [CHR 0x0A]) s);
          s = (if g_force_shutdown g
               then vsay LOG_NOTICE (fmt ''Forcing shutdown in %u seconds''
                      [A_int (uint (trunc_u32 (NS2SEC (g_max_time_ns g)) + g_timeout g))]) s
               else s);
          s = vsay LOG_NOTICE [] s;
          s = (case op_print_mode ops of None \<Rightarrow> s | Some f \<Rightarrow> f s)
      in (s, if seed \<noteq> 0 then seed else now))"

section \<open>Reporting threads\<close>

text \<open>The reports with the readings of the clock they make.\<close>

definition ev_report_intermediate :: "sprintf \<Rightarrow> ('t, 'e) sb_operations \<Rightarrow> 't ev_state \<Rightarrow> 't ev_state" where
  "ev_report_intermediate fmt ops s =
     (if g_report_interval (vglob s) = 0 then s
      else
        let (s, now1) = SB_GETTIME s;
            (s, now2) = SB_GETTIME s;
            p = (v_prog s)\<lparr>p_queue_len := ucast (ck_ring_size (v_ring s))\<rparr>
        in s\<lparr>v_prog := report_intermediate fmt now1 now2 (op_report_intermediate ops (v_test s)) p\<rparr>)"

definition ev_report_cumulative :: "sprintf \<Rightarrow> ('t, 'e) sb_operations \<Rightarrow> 't ev_state \<Rightarrow> 't ev_state" where
  "ev_report_cumulative fmt ops s =
     (let (s, now1) = SB_GETTIME s;
          (s, now2) = SB_GETTIME s;
          (s, now3) = SB_GETTIME s
      in s\<lparr>v_prog := report_cumulative fmt now1 now2 now3 (op_report_cumulative ops (v_test s)) (v_prog s)\<rparr>)"

definition ev_checkpoint :: "'t ev_state \<Rightarrow> 't ev_state" where
  "ev_checkpoint s =
     (let (s, now1) = SB_GETTIME s;
          (s, now2) = SB_GETTIME s
      in s\<lparr>v_prog := fst (checkpoint now1 now2 (v_prog s))\<rparr>)"

text \<open>The loop that finds the time of the next report; \<open>None\<close> when it never ends.\<close>

partial_function (option) next_report :: "u64 \<Rightarrow> u64 \<Rightarrow> u64 \<Rightarrow> u64 option" where
  "next_report curr_ns prev_ns interval_ns =
     (let next_ns = prev_ns + interval_ns
      in if curr_ns \<ge> next_ns then next_report curr_ns next_ns interval_ns else Some next_ns)"

text \<open>\<open>report_thread_proc\<close> after the barrier: the first pause and the previous report time; then a
  round, from the end of the pause to the next pause.\<close>

definition report_thread_begin :: "'t ev_state \<Rightarrow> 't ev_state \<times> u64 \<times> u64 \<times> u64" where
  "report_thread_begin s =
     (let interval_ns = SEC2NS (uint (g_report_interval (vglob s)));
          (s, v) = exec_timer_value s
      in (s, interval_ns, interval_ns, v + interval_ns))"

definition report_thread_round ::
  "sprintf \<Rightarrow> ('t, 'e) sb_operations \<Rightarrow> u64 \<Rightarrow> u64 \<Rightarrow> 't ev_state \<Rightarrow> ('t ev_state \<times> u64 \<times> u64) option" where
  "report_thread_round fmt ops interval_ns prev_ns s =
     (let s = ev_report_intermediate fmt ops s;
          (s, curr_ns) = exec_timer_value s
      in case next_report curr_ns prev_ns interval_ns of
           None \<Rightarrow> None
         | Some next_ns \<Rightarrow> Some (s, next_ns - curr_ns, next_ns))"

text \<open>The loop of \<open>checkpoints_thread_proc\<close>: the state and the pauses.\<close>

fun checkpoints_run ::
  "sprintf \<Rightarrow> ('t, 'e) sb_operations \<Rightarrow> u32 list \<Rightarrow> 't ev_state \<Rightarrow> 't ev_state \<times> u64 list" where
  "checkpoints_run fmt ops [] s = (s, [])"
| "checkpoints_run fmt ops (c # cs) s =
     (let next_ns = SEC2NS (uint c);
          (s, curr_ns) = exec_timer_value s
      in if next_ns \<le> curr_ns then checkpoints_run fmt ops cs s
         else
           let (s, v) = exec_timer_value s;
               s = s\<lparr>v_prog := stamp fmt (NS2SEC v) ''Checkpoint report:'' (v_prog s)\<rparr>;
               s = ev_report_cumulative fmt ops s;
               (s, ps) = checkpoints_run fmt ops cs s
           in (s, (next_ns - curr_ns) # ps))"

definition checkpoints_thread_body :: "sprintf \<Rightarrow> ('t, 'e) sb_operations \<Rightarrow> 't ev_state \<Rightarrow> 't ev_state \<times> u64 list" where
  "checkpoints_thread_body fmt ops s =
     checkpoints_run fmt ops (take (unat (g_n_checkpoints (vglob s))) (g_checkpoints (vglob s))) s"

text \<open>What both reporting threads do before they reach the barrier: whether they go on.\<close>

definition report_thread_start ::
  "u64 list \<Rightarrow> bool \<Rightarrow> bool \<Rightarrow> string \<Rightarrow> 't ev_state \<Rightarrow> 't ev_state \<times> bool" where
  "report_thread_start random lua_loaded lua_failed name s =
     (let s = s\<lparr>v_rng := (v_rng s)(background_id s := sb_rand_thread_init random)\<rparr>
      in if lua_loaded \<and> lua_failed then (s, False) else (vsay LOG_DEBUG name s, True))"

section \<open>The start of the threads\<close>

definition threads_started_callback :: "'t ev_state \<Rightarrow> 't ev_state \<times> int" where
  "threads_started_callback s =
     (if g_error (vglob s) \<noteq> 0 then (s, 1)
      else
        let s = vset (\<lambda>g. g\<lparr>g_threads_running := g_threads g\<rparr>) s;
            (s, now) = SB_GETTIME s;
            t = sb_timer_start now (p_exec_timer (v_prog s));
            s = s\<lparr>v_prog := (v_prog s)\<lparr>p_exec_timer := t, p_intermediate_timer := sb_timer_copy t,
                   p_checkpoint_timer := sb_timer_copy t\<rparr>\<rparr>
        in (vsay LOG_NOTICE (''Threads started!'' @ [CHR 0x0A]) s, 0))"

text \<open>The sizes of the two barriers.\<close>

definition worker_barrier_threads :: "sb_globals \<Rightarrow> u32" where
  "worker_barrier_threads g = 1 + g_threads g + (if g_tx_rate g > 0 then 1 else 0)"

definition report_barrier_threads :: "sb_globals \<Rightarrow> u32" where
  "report_barrier_threads g =
     1 + (if g_report_interval g > 0 then 1 else 0) + (if g_n_checkpoints g > 0 then 1 else 0)"

section \<open>Running a test\<close>

text \<open>What \<open>run_test\<close> gets from the operating system and from the other threads: the result of
  every call, the number of other threads that reach each barrier, and what the others do to
  the state while the main thread waits.\<close>

record 't run_env =
  e_fmt :: sprintf
  e_seed :: int
  e_time :: int
  e_errno :: string
  e_init_timeout :: u32
  e_worker_barrier_ok :: bool
  e_report_barrier_ok :: bool
  e_create_report :: int
  e_create_eventgen :: int
  e_create_checkpoints :: int
  e_pthread_create :: "nat \<Rightarrow> int \<times> pthread_t"
  e_pthread_join :: "pthread_t \<Rightarrow> int"
  e_workers_arrive :: nat
  e_reporters_arrive :: nat
  e_before_start :: "'t ev_state \<Rightarrow> 't ev_state"
  e_warming_up :: "'t ev_state \<Rightarrow> 't ev_state"
  e_before_report :: "'t ev_state \<Rightarrow> 't ev_state"
  e_until_joined :: "'t ev_state \<Rightarrow> 't ev_state"
  e_report_created :: bool
  e_eventgen_created :: bool
  e_checkpoints_created :: bool
  e_end_report_failed :: bool
  e_end_eventgen_failed :: bool
  e_end_checkpoints_failed :: bool

datatype alarm_call = Alarm_init u32 | Alarm_shutdown u32 | Alarm_off

text \<open>The state with the barriers, the descriptors of the workers, the calls of \<open>alarm\<close>, the
  argument of \<open>usleep\<close>, and \<open>old_max_events\<close>.\<close>

record 't run_state =
  r_ev :: "'t ev_state"
  r_worker_barrier :: sb_barrier
  r_report_barrier :: sb_barrier
  r_ctxts :: "sb_thread_ctxt list"
  r_started :: "nat list"
  r_alarms :: "alarm_call list"
  r_usleep :: "int option"
  r_old_max_events :: u64

text \<open>A run returns, stays at a barrier that other threads never complete, or overflows an int;
  \<open>Run_on\<close> is a run that is not over.\<close>

datatype 't run_outcome =
    Run_on "'t run_state"
  | Run_returned int "'t run_state"
  | Run_waiting "'t run_state"
  | Run_overflow "'t run_state"

definition run_bind :: "'t run_outcome \<Rightarrow> ('t run_state \<Rightarrow> 't run_outcome) \<Rightarrow> 't run_outcome" where
  "run_bind r f = (case r of Run_on s \<Rightarrow> f s | _ \<Rightarrow> r)"

definition rset :: "('t ev_state \<Rightarrow> 't ev_state) \<Rightarrow> 't run_state \<Rightarrow> 't run_state" where
  "rset f s = s\<lparr>r_ev := f (r_ev s)\<rparr>"

abbreviation rglob :: "'t run_state \<Rightarrow> sb_globals" where "rglob s \<equiv> vglob (r_ev s)"

definition verrno :: "string \<Rightarrow> log_msg_priority_t \<Rightarrow> string \<Rightarrow> 't ev_state \<Rightarrow> 't ev_state" where
  "verrno errno pr t s =
     (case log_errno pr errno (Some t) (p_log (v_prog s)) of
        None \<Rightarrow> s
      | Some l \<Rightarrow> s\<lparr>v_prog := (v_prog s)\<lparr>p_log := l\<rparr>\<rparr>)"

text \<open>An operation of the test that may be missing: its result, 0 without it.\<close>

definition call_op :: "('t ev_state \<Rightarrow> 't ev_state \<times> int) option \<Rightarrow> 't run_state \<Rightarrow> 't run_state \<times> int" where
  "call_op f s = (case f of
     None \<Rightarrow> (s, 0)
   | Some f \<Rightarrow> (let (v, rc) = f (r_ev s) in (s\<lparr>r_ev := v\<rparr>, rc)))"

text \<open>The arrival of \<open>n\<close> threads at a barrier: the result in the last one, if the barrier opens.\<close>

fun arrive_n :: "int option \<Rightarrow> nat \<Rightarrow> sb_barrier \<Rightarrow> sb_barrier \<times> int option" where
  "arrive_n callback 0 b = (b, None)"
| "arrive_n callback (Suc n) b =
     (case sb_barrier_arrive callback b of
        (b, Returns bc r) \<Rightarrow> (b, Some r)
      | (b, Waits _) \<Rightarrow> arrive_n callback n b)"

text \<open>From the initialisation of the test to the barriers.\<close>

definition run_prepare :: "'t run_env \<Rightarrow> ('t, 'e) sb_operations \<Rightarrow> 't run_state \<Rightarrow> 't run_outcome" where
  "run_prepare env ops s =
     (let (s, rc) = call_op (op_init ops) s
      in if rc \<noteq> 0 then Run_returned 1 s
         else
           let s = rset (\<lambda>v. fst (print_run_mode (e_fmt env) (e_seed env) (e_time env) ops v)) s;
               s = rset (\<lambda>v. v\<lparr>v_prog := (v_prog v)\<lparr>p_exec_timer := sb_timer_init (p_exec_timer (v_prog v)),
                     p_intermediate_timer := sb_timer_init (p_intermediate_timer (v_prog v)),
                     p_checkpoint_timer := sb_timer_init (p_checkpoint_timer (v_prog v))\<rparr>\<rparr>) s;
               (s, rc) = call_op (op_prepare ops) s
           in if rc \<noteq> 0 then Run_returned 1 s
              else
                let s = rset (vset (\<lambda>g. g\<lparr>g_exec_mutex := False, g_threads_running := 0\<rparr>)) s;
                    (b, rc) = sb_barrier_init (e_worker_barrier_ok env) (r_worker_barrier s)
                                (worker_barrier_threads (rglob s));
                    s = s\<lparr>r_worker_barrier := b\<rparr>
                in if rc \<noteq> 0 then Run_returned 1 (rset (verrno (e_errno env) LOG_FATAL ''sb_barrier_init() failed'') s)
                   else
                     let (b, rc) = sb_barrier_init (e_report_barrier_ok env) (r_report_barrier s)
                                     (report_barrier_threads (rglob s));
                         s = s\<lparr>r_report_barrier := b\<rparr>
                     in if rc \<noteq> 0 then Run_returned 1 (rset (verrno (e_errno env) LOG_FATAL ''sb_barrier_init() failed'') s)
                        else Run_on s)"

text \<open>The creation of the threads.\<close>

definition create_background ::
  "'t run_env \<Rightarrow> bool \<Rightarrow> int \<Rightarrow> string \<Rightarrow> 't run_state \<Rightarrow> 't run_outcome" where
  "create_background env wanted err msg s =
     (if wanted \<and> err \<noteq> 0 then Run_returned 1 (rset (verrno (e_errno env) LOG_FATAL msg) s) else Run_on s)"

definition run_create :: "'t run_env \<Rightarrow> 't run_state \<Rightarrow> 't run_outcome" where
  "run_create env s =
     run_bind (create_background env (g_report_interval (rglob s) > 0) (e_create_report env)
                 ''sb_thread_create() for the reporting thread failed.'' s) (\<lambda>s.
     run_bind (create_background env (g_tx_rate (rglob s) > 0) (e_create_eventgen env)
                 ''sb_thread_create() for the reporting thread failed.'' s) (\<lambda>s.
     run_bind (create_background env (g_n_checkpoints (rglob s) > 0) (e_create_checkpoints env)
                 ''sb_thread_create() for the checkpoint thread failed.'' s) (\<lambda>s.
       let (cs, started, l, err) = sb_thread_create_workers (e_pthread_create env) (r_ctxts s) (p_log (v_prog (r_ev s)));
           s = rset (\<lambda>v. v\<lparr>v_prog := (v_prog v)\<lparr>p_log := l\<rparr>\<rparr>) s;
           s = s\<lparr>r_ctxts := cs, r_started := started\<rparr>
       in if err \<noteq> 0 then Run_returned (int err) s else Run_on s)))"

text \<open>From the alarm for the initialisation to the end of the warm-up.  The callback of the worker
  barrier runs in the last thread that arrives.\<close>

definition run_arm :: "'t run_env \<Rightarrow> 't run_state \<Rightarrow> 't run_state" where
  "run_arm env s =
     (let s = s\<lparr>r_alarms := r_alarms s @ [Alarm_init (e_init_timeout env)]\<rparr>;
          s = (if g_warmup_time (rglob s) > 0
               then rset (vset (\<lambda>g. g\<lparr>g_max_events := 0\<rparr>)) (s\<lparr>r_old_max_events := g_max_events (rglob s)\<rparr>)
               else s)
      in rset (e_before_start env) s)"

definition run_start :: "'t run_env \<Rightarrow> 't run_state \<Rightarrow> 't run_outcome" where
  "run_start env s =
     (let s = run_arm env s;
          (v, callback) = threads_started_callback (r_ev s);
          (b, result) = arrive_n (Some callback) (e_workers_arrive env + 1) (r_worker_barrier s);
          s = s\<lparr>r_worker_barrier := b\<rparr>
      in case result of
           None \<Rightarrow> Run_waiting s
         | Some rc \<Rightarrow>
             (let s = s\<lparr>r_ev := v\<rparr>
              in if rc < 0 then Run_returned 1 (rset (vsay LOG_FATAL ''Threads initialization failed!'') s)
                 else
                   let s = s\<lparr>r_alarms := r_alarms s @ [Alarm_off]\<rparr>;
                       g = rglob s
                   in Run_on (if g_force_shutdown g
                              then s\<lparr>r_alarms := r_alarms s @
                                     [Alarm_shutdown (trunc_u32 (NS2SEC (g_max_time_ns g) + real (unat (g_timeout g))))]\<rparr>
                              else s)))"

definition run_warmup :: "'t run_env \<Rightarrow> 't run_state \<Rightarrow> 't run_outcome" where
  "run_warmup env s =
     (if g_warmup_time (rglob s) > 0 then
        let s = rset (\<lambda>v. vsay LOG_NOTICE (e_fmt env (''Warming up for %d seconds...'' @ [CHR 0x0A])
                              [A_int (g_warmup_time (vglob v))]) v) s
        in if g_warmup_time (rglob s) * 1000000 > INT_MAX then Run_overflow s
           else
             let s = s\<lparr>r_usleep := Some (g_warmup_time (rglob s) * 1000000)\<rparr>;
                 s = rset (e_warming_up env) s;
                 s = rset (vset (\<lambda>g. g\<lparr>g_max_events := r_old_max_events s\<rparr>)) s
             in Run_on (rset ev_checkpoint s)
      else Run_on s)"

definition run_report_start :: "'t run_env \<Rightarrow> 't run_state \<Rightarrow> 't run_outcome" where
  "run_report_start env s =
     (let s = rset (e_before_report env) s;
          (b, result) = arrive_n None (e_reporters_arrive env + 1) (r_report_barrier s);
          s = s\<lparr>r_report_barrier := b\<rparr>
      in case result of
           None \<Rightarrow> Run_waiting s
         | Some rc \<Rightarrow>
             if rc < 0 then Run_returned 1 (rset (vsay LOG_FATAL ''Failed to signal reporting threads'') s)
             else Run_on s)"

text \<open>The handler of the first alarm, up to \<open>exit(2)\<close>.\<close>

definition sigalrm_thread_init_timeout_handler :: "'t run_env \<Rightarrow> bool \<Rightarrow> 't ev_state \<Rightarrow> 't ev_state" where
  "sigalrm_thread_init_timeout_handler env is_sigalrm s =
     (if \<not> is_sigalrm then s
      else vsay LOG_FATAL (e_fmt env ''Worker threads failed to initialize within %u seconds!''
             [A_int (uint (e_init_timeout env))]) s)"

text \<open>From the wait for the workers to the cleanup of the test.\<close>

definition stop_timer :: "(prog \<Rightarrow> sb_timer) \<Rightarrow> (sb_timer \<Rightarrow> prog \<Rightarrow> prog) \<Rightarrow> 't ev_state \<Rightarrow> 't ev_state" where
  "stop_timer get put s =
     (let (s, now) = SB_GETTIME s
      in s\<lparr>v_prog := put (fst (sb_timer_stop now (get (v_prog s)))) (v_prog s)\<rparr>)"

definition run_join :: "'t run_env \<Rightarrow> ('t, 'e) sb_operations \<Rightarrow> 't run_state \<Rightarrow> 't run_outcome" where
  "run_join env ops s =
     (let s = rset (e_until_joined env) s;
          (l, err) = sb_thread_join_workers (e_pthread_join env) (r_ctxts s) (p_log (v_prog (r_ev s)));
          s = rset (\<lambda>v. v\<lparr>v_prog := (v_prog v)\<lparr>p_log := l\<rparr>\<rparr>) s
      in if err \<noteq> 0 then Run_returned (int err) s
         else
           let s = rset (stop_timer p_exec_timer (\<lambda>t p. p\<lparr>p_exec_timer := t\<rparr>)) s;
               s = rset (stop_timer p_intermediate_timer (\<lambda>t p. p\<lparr>p_intermediate_timer := t\<rparr>)) s;
               s = rset (stop_timer p_checkpoint_timer (\<lambda>t p. p\<lparr>p_checkpoint_timer := t\<rparr>)) s;
               s = rset (vset (\<lambda>g. g\<lparr>g_report_interval := 0\<rparr>)) s;
               s = s\<lparr>r_alarms := r_alarms s @ [Alarm_off]\<rparr>;
               s = rset (vsay LOG_INFO (''Done.'' @ [CHR 0x0A])) s;
               (s, rc) = call_op (op_cleanup ops) s
           in if rc \<noteq> 0 then Run_returned 1 s else Run_on s)"

text \<open>The rows of \<open>sb_histogram_print\<close> as text, and the end of the run.\<close>

definition histogram_rows :: "sprintf \<Rightarrow> (real \<times> int \<times> u64) list \<Rightarrow> log_state \<Rightarrow> log_state" where
  "histogram_rows fmt rs l =
     (if rs = [] then l
      else fold (\<lambda>(v, w, n). printf (Out_line (fmt ''%12.3f |%-40.*s %lu''
                 [A_real v, A_int w, A_str (replicate 40 (CHR ''*'')), A_int (uint n)]))) rs
             (printf (Out_line ''       value  ------------- distribution ------------- count'') l))"

definition ev_histogram_print :: "sprintf \<Rightarrow> 't ev_state \<Rightarrow> 't ev_state" where
  "ev_histogram_print fmt s =
     (let l = p_log (v_prog s);
          (h, rs) = sb_histogram_print (l_latency l)
      in s\<lparr>v_prog := (v_prog s)\<lparr>p_log := histogram_rows fmt rs (l\<lparr>l_latency := h\<rparr>)\<rparr>\<rparr>)"

definition run_finish :: "'t run_env \<Rightarrow> ('t, 'e) sb_operations \<Rightarrow> 't run_state \<Rightarrow> 't run_outcome" where
  "run_finish env ops s =
     (let s = (if e_report_created env \<and> e_end_report_failed env
               then rset (verrno (e_errno env) LOG_FATAL ''Terminating the reporting thread failed.'') s else s);
          s = (if e_eventgen_created env \<and> e_end_eventgen_failed env \<and> g_max_time_ns (rglob s) = 0
               then rset (vsay LOG_FATAL ''Terminating the event generator thread failed.'') s else s);
          s = (if e_checkpoints_created env \<and> e_end_checkpoints_failed env
               then rset (verrno (e_errno env) LOG_FATAL ''Terminating the checkpoint thread failed.'') s else s);
          s = (if g_error (rglob s) = 0 then
                 let s = (if g_histogram (rglob s) then
                            rset (\<lambda>v. vsay LOG_NOTICE '' '' (ev_histogram_print (e_fmt env)
                                   (vsay LOG_NOTICE ''Latency histogram (values are in milliseconds)'' v))) s
                          else s)
                 in rset (ev_report_cumulative (e_fmt env) ops) s
               else s);
          (s, _) = call_op (op_done ops) s
      in Run_returned (if g_error (rglob s) \<noteq> 0 then 1 else 0) s)"

definition run_test :: "'t run_env \<Rightarrow> ('t, 'e) sb_operations \<Rightarrow> 't run_state \<Rightarrow> 't run_outcome" where
  "run_test env ops s =
     run_bind (run_prepare env ops s) (\<lambda>s.
     run_bind (run_create env s) (\<lambda>s.
     run_bind (run_start env s) (\<lambda>s.
     run_bind (run_warmup env s) (\<lambda>s.
     run_bind (run_report_start env s) (\<lambda>s.
     run_bind (run_join env ops s) (\<lambda>s. run_finish env ops s))))))"

section \<open>The schedule of the intermediate reports\<close>

lemma next_report_closed:
  assumes "0 < i" "unat now + unat i < 2 ^ 64" "unat prev + unat i < 2 ^ 64"
  shows "\<exists>nxt. next_report now prev i = Some nxt \<and>
     unat nxt = unat prev + ((unat now - unat prev) div unat i + 1) * unat i"
  using assms
proof (induction "unat now - unat prev" arbitrary: prev rule: less_induct)
  case less
  have i: "0 < unat i" using less.prems(1) by (simp add: word_less_nat_alt)
  have p: "unat (prev + i) = unat prev + unat i"
    using less.prems(3) by (simp add: unat_word_ariths)
  show ?case
  proof (cases "prev + i \<le> now")
    case False
    have "unat now - unat prev < unat i"
      using False p i by (simp add: word_le_nat_alt less_diff_conv2 not_le)
    thus ?thesis using False p by (subst next_report.simps) (simp add: Let_def)
  next
    case True
    have le: "unat prev + unat i \<le> unat now" using True p by (simp add: word_le_nat_alt)
    have d: "(unat now - unat prev) div unat i = (unat now - unat (prev + i)) div unat i + 1"
    proof -
      have "unat now - unat prev = (unat now - unat (prev + i)) + unat i" using le p by simp
      thus ?thesis using i by simp
    qed
    have "unat now - unat (prev + i) < unat now - unat prev" using le i p by simp
    moreover have "unat (prev + i) + unat i < 2 ^ 64" using le p less.prems(2) by simp
    ultimately obtain nxt where "next_report now (prev + i) i = Some nxt"
      "unat nxt = unat (prev + i) + ((unat now - unat (prev + i)) div unat i + 1) * unat i"
      using less.hyps [of "prev + i"] less.prems(1,2) by blast
    thus ?thesis using True p d by (subst next_report.simps) (simp add: Let_def algebra_simps)
  qed
qed

text \<open>The loop of the reporting thread ends, and the next report is due at the first multiple
  of the interval after the previous one that lies in the future: at most one interval
  ahead when the last report was not early, whatever number of reports was missed.\<close>
theorem report_schedule:
  assumes "0 < interval_ns" "unat curr_ns + unat interval_ns < 2 ^ 64" "prev_ns \<le> curr_ns"
  shows "\<exists>next_ns. next_report curr_ns prev_ns interval_ns = Some next_ns \<and>
     curr_ns < next_ns \<and> next_ns - curr_ns \<le> interval_ns \<and>
     unat interval_ns dvd unat next_ns - unat prev_ns"
proof -
  have le: "unat prev_ns \<le> unat curr_ns" using assms(3) by (simp add: word_le_nat_alt)
  let ?d = "unat curr_ns - unat prev_ns"
  obtain nxt where n: "next_report curr_ns prev_ns interval_ns = Some nxt"
    "unat nxt = unat prev_ns + (?d div unat interval_ns + 1) * unat interval_ns"
    using next_report_closed [of interval_ns curr_ns prev_ns] assms le by auto
  have i: "0 < unat interval_ns" using assms(1) by (simp add: word_less_nat_alt)
  have up: "?d < (?d div unat interval_ns + 1) * unat interval_ns"
    using dividend_less_div_times [OF i, of ?d] by (simp add: algebra_simps)
  have lo: "?d div unat interval_ns * unat interval_ns \<le> ?d" by simp
  have less: "unat curr_ns < unat nxt" "unat nxt \<le> unat curr_ns + unat interval_ns"
    using n(2) up lo le by (simp_all only: distrib_right mult_1)
  have "unat (nxt - curr_ns) = unat nxt - unat curr_ns"
    using less by (simp add: unat_sub word_le_nat_alt)
  hence "next_ns - curr_ns \<le> interval_ns" if "next_ns = nxt" for next_ns
    using less that by (simp add: word_le_nat_alt)
  moreover have "unat interval_ns dvd unat nxt - unat prev_ns" using n(2) by simp
  ultimately show ?thesis using n(1) less by (auto simp: word_less_nat_alt)
qed

theorem report_schedule_witness:
  "\<exists>next_ns. next_report 35 10 10 = Some next_ns \<and> (35::u64) < next_ns \<and> next_ns - 35 \<le> 10 \<and>
     unat (10::u64) dvd unat next_ns - unat (10::u64)"
  using report_schedule [of 10 35 10] by simp

section \<open>The barriers of a run\<close>

lemma arrive_n_spec:
  assumes "0 < n" "b = b0\<lparr>count := of_nat n\<rparr>" "n < 2 ^ 32"
  shows "(k < n \<longrightarrow> arrive_n cb k b = (b0\<lparr>count := of_nat (n - k)\<rparr>, None)) \<and>
     (n \<le> k \<longrightarrow> snd (arrive_n cb k b) =
        Some (case cb of None \<Rightarrow> 1 | Some r \<Rightarrow> if r \<noteq> 0 then - 1 else 1))"
  using assms
proof (induction k arbitrary: n b)
  case 0 thus ?case by simp
next
  case (Suc k)
  have one: "of_nat n - 1 = (of_nat (n - 1) :: u32)" using Suc.prems(1) by (simp add: of_nat_diff)
  have "unat (of_nat (n - 1) :: u32) = n - 1"
    using Suc.prems(3) by (simp add: unat_of_nat take_bit_nat_eq_self)
  hence z: "(of_nat (n - 1) :: u32) = 0 \<longleftrightarrow> n = 1"
    using Suc.prems(1) unat_eq_zero [of "of_nat (n - 1) :: u32"] by linarith
  show ?case
  proof (cases "n = 1")
    case True
    thus ?thesis using Suc.prems
      by (simp add: sb_barrier_arrive_def Let_def SB_BARRIER_SERIAL_THREAD_def split: option.splits)
  next
    case False
    have a: "sb_barrier_arrive cb b = (b0\<lparr>count := of_nat (n - 1)\<rparr>, Waits (serial b0))"
      using False z one Suc.prems(2) by (simp add: sb_barrier_arrive_def Let_def)
    have u: "arrive_n cb (Suc k) b = arrive_n cb k (b0\<lparr>count := of_nat (n - 1)\<rparr>)"
      by (simp only: arrive_n.simps a prod.case arrival.case)
    have d: "Suc k < n \<longleftrightarrow> k < n - 1" "n \<le> Suc k \<longleftrightarrow> n - 1 \<le> k" "n - Suc k = n - 1 - k"
      "0 < n - 1" "n - 1 < 2 ^ 32"
      using Suc.prems False by auto
    show ?thesis
      unfolding u d(1,2,3) by (rule Suc.IH [OF d(4) refl d(5)])
  qed
qed

lemma verrno_keeps [simp]: "vglob (verrno e p t s) = vglob s"
  by (simp add: verrno_def log_errno_def split: option.splits)

lemma rset_fields [simp]:
  "r_ev (rset f s) = f (r_ev s)" "r_worker_barrier (rset f s) = r_worker_barrier s"
  "r_report_barrier (rset f s) = r_report_barrier s" "r_ctxts (rset f s) = r_ctxts s"
  "r_started (rset f s) = r_started s" "r_alarms (rset f s) = r_alarms s"
  "r_usleep (rset f s) = r_usleep s" "r_old_max_events (rset f s) = r_old_max_events s"
  by (simp_all add: rset_def)

text \<open>What the callback of the worker barrier does.\<close>

lemma threads_started_error:
  "g_error (vglob s) \<noteq> 0 \<Longrightarrow> threads_started_callback s = (s, 1)"
  by (simp add: threads_started_callback_def)

lemma threads_started_ok:
  assumes "g_error (vglob s) = 0" "threads_started_callback s = (s', rc)"
  shows "rc = 0 \<and> vglob s' = (vglob s)\<lparr>g_threads_running := g_threads (vglob s)\<rparr>"
  using assms
  by (auto simp: threads_started_callback_def Let_def SB_GETTIME_def)

text \<open>A barrier that \<open>sb_barrier_init\<close> made, and the arrival of threads at it.\<close>

lemma barrier_of_init:
  assumes "sb_barrier_init ok b n = (b', 0)"
  shows "0 < unat n \<and> (k < unat n \<longrightarrow> snd (arrive_n cb k b') = None) \<and>
    (unat n \<le> k \<longrightarrow> snd (arrive_n cb k b') =
       Some (case cb of None \<Rightarrow> 1 | Some r \<Rightarrow> if r \<noteq> 0 then - 1 else 1))"
proof -
  have n: "n \<noteq> 0" "b' = b'\<lparr>count := of_nat (unat n)\<rparr>"
    using assms by (auto simp: sb_barrier_init_def split: if_splits)
  have "0 < unat n" "unat n < 2 ^ 32"
    using n(1) unsigned_less [of n] by (auto simp: unat_gt_0)
  with arrive_n_spec [OF this(1) n(2) this(2), of k cb] show ?thesis by auto
qed

lemma run_arm_fields [simp]:
  "r_worker_barrier (run_arm env s) = r_worker_barrier s"
  "r_alarms (run_arm env s) = r_alarms s @ [Alarm_init (e_init_timeout env)]"
  "r_started (run_arm env s) = r_started s" "r_ctxts (run_arm env s) = r_ctxts s"
  "r_report_barrier (run_arm env s) = r_report_barrier s"
  by (simp_all add: run_arm_def Let_def)

lemma run_start_eq:
  assumes "threads_started_callback (r_ev (run_arm env s)) = (v, callback)"
    and "arrive_n (Some callback) (e_workers_arrive env + 1) (r_worker_barrier s) = (b, r)"
  shows "run_start env s =
    (let s = (run_arm env s)\<lparr>r_worker_barrier := b\<rparr>
     in case r of
          None \<Rightarrow> Run_waiting s
        | Some rc \<Rightarrow>
            (let s = s\<lparr>r_ev := v\<rparr>
             in if rc < 0 then Run_returned 1 (rset (vsay LOG_FATAL ''Threads initialization failed!'') s)
                else
                  let s = s\<lparr>r_alarms := r_alarms s @ [Alarm_off]\<rparr>;
                      g = rglob s
                  in Run_on (if g_force_shutdown g
                             then s\<lparr>r_alarms := r_alarms s @
                                    [Alarm_shutdown (trunc_u32 (NS2SEC (g_max_time_ns g) + real (unat (g_timeout g))))]\<rparr>
                             else s)))"
  unfolding run_start_def Let_def assms(1) prod.case run_arm_fields assms(2) ..

text \<open>C26: The start of the workers, for a barrier made for the threads of the configuration: the
  main thread stays at the barrier exactly when a participant is missing; otherwise the
  run fails when some thread reported an error, and goes on with every thread counted as
  running, the start alarm cancelled and the one for a forced shutdown armed when asked
  for.\<close>
theorem worker_barrier_opens:
  assumes "sb_barrier_init ok b (worker_barrier_threads g) = (r_worker_barrier s, 0)"
    and "unat (g_threads g) + 2 < 2 ^ 32"
    and "n = unat (g_threads g) + (if g_tx_rate g > 0 then 1 else 0)"
  shows "case run_start env s of
      Run_waiting s' \<Rightarrow> e_workers_arrive env < n
    | Run_returned rc s' \<Rightarrow> n \<le> e_workers_arrive env \<and> rc = 1 \<and> g_error (rglob s') \<noteq> 0
    | Run_overflow s' \<Rightarrow> False
    | Run_on s' \<Rightarrow> n \<le> e_workers_arrive env \<and> g_error (rglob s') = 0 \<and>
        g_threads_running (rglob s') = g_threads (rglob s') \<and>
        (\<exists>t. r_alarms s' = r_alarms s @ [Alarm_init (e_init_timeout env), Alarm_off] @
           (if g_force_shutdown (rglob s') then [Alarm_shutdown t] else []))"
proof -
  have n: "unat (worker_barrier_threads g) = n + 1"
    using assms(2,3) by (simp add: worker_barrier_threads_def unat_word_ariths)
  let ?s = "run_arm env s"
  obtain v callback where c: "threads_started_callback (r_ev ?s) = (v, callback)"
    by (cases "threads_started_callback (r_ev ?s)")
  obtain b' r where a: "arrive_n (Some callback) (e_workers_arrive env + 1) (r_worker_barrier s) = (b', r)"
    by (cases "arrive_n (Some callback) (e_workers_arrive env + 1) (r_worker_barrier s)")
  note spec = barrier_of_init [OF assms(1), of "e_workers_arrive env + 1" "Some callback", unfolded n a snd_conv]
  note start = run_start_eq [OF c a]
  show ?thesis
  proof (cases "e_workers_arrive env < n")
    case True
    hence "r = None" using spec by simp
    thus ?thesis using True by (simp add: start)
  next
    case False
    hence r: "r = Some (if callback \<noteq> 0 then - 1 else 1)" using spec by simp
    show ?thesis
    proof (cases "g_error (vglob (r_ev ?s)) = 0")
      case True
      from threads_started_ok [OF True c] True False r show ?thesis
        by (simp add: start Let_def)
    next
      case err: False
      from threads_started_error [OF err] err False r c show ?thesis
        by (simp add: start Let_def)
    qed
  qed
qed

section \<open>The stages of a run\<close>

lemma run_bind_simps [simp]:
  "run_bind (Run_on s) f = f s" "run_bind (Run_returned rc s) f = Run_returned rc s"
  "run_bind (Run_waiting s) f = Run_waiting s" "run_bind (Run_overflow s) f = Run_overflow s"
  by (simp_all add: run_bind_def)

lemma run_bind_cases:
  "run_bind r f = q \<Longrightarrow> (\<And>s. r = Run_on s \<Longrightarrow> f s = q \<Longrightarrow> P) \<Longrightarrow> (r = q \<Longrightarrow> \<forall>s. r \<noteq> Run_on s \<Longrightarrow> P) \<Longrightarrow> P"
  by (cases r) auto

text \<open>The parts of the state only \<open>run_test\<close> itself changes.\<close>

definition run_book :: "'t run_state \<Rightarrow> alarm_call list \<times> sb_thread_ctxt list \<times> nat list \<times> int option" where
  "run_book s = (r_alarms s, r_ctxts s, r_started s, r_usleep s)"

lemma run_book_rset [simp]: "run_book (rset f s) = run_book s"
  by (simp add: run_book_def)

lemma call_op_book:
  "call_op f s = (s', rc) \<Longrightarrow> run_book s' = run_book s \<and> r_worker_barrier s' = r_worker_barrier s \<and>
     r_report_barrier s' = r_report_barrier s \<and> r_old_max_events s' = r_old_max_events s"
  by (auto simp: call_op_def run_book_def split: option.splits prod.splits)

lemma run_prepare_on:
  assumes "run_prepare env ops s = Run_on s'"
  shows "run_book s' = run_book s \<and> g_threads_running (rglob s') = 0 \<and>
    (\<exists>b. sb_barrier_init (e_worker_barrier_ok env) b (worker_barrier_threads (rglob s')) = (r_worker_barrier s', 0)) \<and>
    (\<exists>b. sb_barrier_init (e_report_barrier_ok env) b (report_barrier_threads (rglob s')) = (r_report_barrier s', 0))"
proof -
  obtain s1 rc1 where c1: "call_op (op_init ops) s = (s1, rc1)" by (cases "call_op (op_init ops) s")
  define s2 where "s2 = rset (\<lambda>v. v\<lparr>v_prog := (v_prog v)\<lparr>p_exec_timer := sb_timer_init (p_exec_timer (v_prog v)),
      p_intermediate_timer := sb_timer_init (p_intermediate_timer (v_prog v)),
      p_checkpoint_timer := sb_timer_init (p_checkpoint_timer (v_prog v))\<rparr>\<rparr>)
      (rset (\<lambda>v. fst (print_run_mode (e_fmt env) (e_seed env) (e_time env) ops v)) s1)"
  obtain s3 rc3 where c3: "call_op (op_prepare ops) s2 = (s3, rc3)" by (cases "call_op (op_prepare ops) s2")
  define s4 where "s4 = rset (vset (\<lambda>g. g\<lparr>g_exec_mutex := False, g_threads_running := 0\<rparr>)) s3"
  obtain b1 r1 where b1: "sb_barrier_init (e_worker_barrier_ok env) (r_worker_barrier s4)
      (worker_barrier_threads (rglob s4)) = (b1, r1)" by (cases "sb_barrier_init (e_worker_barrier_ok env)
      (r_worker_barrier s4) (worker_barrier_threads (rglob s4))")
  obtain b2 r2 where b2: "sb_barrier_init (e_report_barrier_ok env) (r_report_barrier s4)
      (report_barrier_threads (rglob s4)) = (b2, r2)" by (cases "sb_barrier_init (e_report_barrier_ok env)
      (r_report_barrier s4) (report_barrier_threads (rglob s4))")
  have s': "s' = s4\<lparr>r_worker_barrier := b1, r_report_barrier := b2\<rparr> \<and> r1 = 0 \<and> r2 = 0"
    using assms c3 b1 b2 unfolding s4_def s2_def
    by (simp add: run_prepare_def c1 Let_def split: if_splits)
  have "run_book s4 = run_book s"
    using call_op_book [OF c1] call_op_book [OF c3] by (simp add: s4_def s2_def)
  moreover have "g_threads_running (rglob s4) = 0" by (simp add: s4_def)
  ultimately show ?thesis using s' b1 b2 by (auto simp: run_book_def)
qed

lemma create_background_on:
  "create_background env w e m s = Run_on s' \<longleftrightarrow> s' = s \<and> (w \<longrightarrow> e = 0)"
  by (auto simp: create_background_def)

lemma create_background_zero:
  "create_background env w e m s \<noteq> Run_returned 0 s'"
  by (simp add: create_background_def)

lemma workers_keep_globals:
  "sb_thread_create_workers pc cs l = (cs', started, l', err) \<Longrightarrow> l_globals l' = l_globals l"
  by (auto simp: sb_thread_create_workers_def Let_def log_errno_def split: prod.splits if_splits)

lemma run_create_on:
  assumes "run_create env s = Run_on s'"
  shows "\<exists>cs' l'. s' = (rset (\<lambda>v. v\<lparr>v_prog := (v_prog v)\<lparr>p_log := l'\<rparr>\<rparr>) s)
      \<lparr>r_ctxts := cs', r_started := [0..<length (r_ctxts s)]\<rparr> \<and>
    rglob s' = rglob s \<and> length cs' = length (r_ctxts s) \<and>
    (\<forall>i < length (r_ctxts s). fst (e_pthread_create env i) = 0)"
proof -
  obtain cs' started l' err where w: "sb_thread_create_workers (e_pthread_create env) (r_ctxts s)
      (p_log (v_prog (r_ev s))) = (cs', started, l', err)"
    by (metis prod_cases4)
  have on: "err = 0 \<and> s' = (rset (\<lambda>v. v\<lparr>v_prog := (v_prog v)\<lparr>p_log := l'\<rparr>\<rparr>) s)\<lparr>r_ctxts := cs', r_started := started\<rparr>"
    using assms unfolding run_create_def
    by (elim run_bind_cases) (auto simp: create_background_on w Let_def split: if_splits)
  obtain ok where l: "create_loop (e_pthread_create env) [0..<length (r_ctxts s)] (set_ids (r_ctxts s)) = (cs', started, ok)"
      "ok"
    using w on by (auto simp: sb_thread_create_workers_def Let_def set_ids_nth SB_EXIT_FAILURE_def split: prod.splits if_splits)
  from create_loop_spec [OF l(1)] l(2)
  have "started = [0..<length (r_ctxts s)] \<and> length cs' = length (r_ctxts s) \<and>
    (\<forall>i < length (r_ctxts s). fst (e_pthread_create env i) = 0)"
    by (simp add: set_ids_nth)
  with on workers_keep_globals [OF w] show ?thesis by auto
qed

lemma run_start_on:
  assumes "run_start env s = Run_on s'"
  shows "(\<exists>t. r_alarms s' = r_alarms s @ [Alarm_init (e_init_timeout env), Alarm_off] @
           (if g_force_shutdown (rglob s') then [Alarm_shutdown t] else [])) \<and>
    r_ctxts s' = r_ctxts s \<and> r_started s' = r_started s \<and> r_usleep s' = r_usleep s \<and>
    r_old_max_events s' = r_old_max_events (run_arm env s) \<and>
    g_warmup_time (rglob s') = g_warmup_time (rglob (run_arm env s))"
proof -
  obtain v callback where c: "threads_started_callback (r_ev (run_arm env s)) = (v, callback)"
    by (cases "threads_started_callback (r_ev (run_arm env s))")
  obtain b r where a: "arrive_n (Some callback) (e_workers_arrive env + 1) (r_worker_barrier s) = (b, r)"
    by (cases "arrive_n (Some callback) (e_workers_arrive env + 1) (r_worker_barrier s)")
  have w: "g_warmup_time (vglob v) = g_warmup_time (rglob (run_arm env s))"
    using threads_started_error threads_started_ok c
    by (metis (no_types, lifting) fst_conv sb_globals.select_convs(24) sb_globals.surjective sb_globals.update_convs(11))
  have u: "r_usleep (run_arm env s) = r_usleep s" by (simp add: run_arm_def Let_def)
  show ?thesis
    using assms w unfolding run_start_eq [OF c a]
    by (auto simp: Let_def u split: option.splits if_splits)
qed

lemma run_warmup_on:
  assumes "run_warmup env s = Run_on s'"
  shows "r_alarms s' = r_alarms s \<and> r_ctxts s' = r_ctxts s \<and> r_started s' = r_started s"
  using assms by (auto simp: run_warmup_def Let_def split: if_splits)

lemma run_report_start_on:
  assumes "run_report_start env s = Run_on s'"
  shows "run_book s' = run_book s"
proof -
  obtain b r where a: "arrive_n None (e_reporters_arrive env + 1) (r_report_barrier s) = (b, r)"
    by (cases "arrive_n None (e_reporters_arrive env + 1) (r_report_barrier s)")
  show ?thesis
    using assms unfolding run_report_start_def Let_def rset_fields a prod.case
    by (auto simp: run_book_def split: option.splits if_splits)
qed

lemma run_join_on:
  assumes "run_join env ops s = Run_on s'"
  shows "r_alarms s' = r_alarms s @ [Alarm_off] \<and> r_started s' = r_started s"
proof -
  obtain l err where j: "sb_thread_join_workers (e_pthread_join env) (r_ctxts s)
      (p_log (v_prog (r_ev (rset (e_until_joined env) s)))) = (l, err)"
    by (cases "sb_thread_join_workers (e_pthread_join env) (r_ctxts s)
      (p_log (v_prog (r_ev (rset (e_until_joined env) s))))")
  show ?thesis
    using assms j unfolding run_join_def Let_def
    by (auto simp: run_book_def dest!: call_op_book split: prod.splits if_splits)
qed

lemma run_finish_result:
  "\<exists>s'. run_finish env ops s = Run_returned (if g_error (rglob s') \<noteq> 0 then 1 else 0) s' \<and>
     run_book s' = run_book s"
proof -
  have e: "\<exists>t. run_finish env ops s = (let (s, _) = call_op (op_done ops) t
      in Run_returned (if g_error (rglob s) \<noteq> 0 then 1 else 0) s) \<and> run_book t = run_book s"
    unfolding run_finish_def by (simp only: Let_def) (rule exI, rule conjI, rule refl, simp)
  then obtain t where t: "run_finish env ops s = (let (s, _) = call_op (op_done ops) t
      in Run_returned (if g_error (rglob s) \<noteq> 0 then 1 else 0) s)" "run_book t = run_book s" by blast
  obtain s' rc where c: "call_op (op_done ops) t = (s', rc)" by (cases "call_op (op_done ops) t")
  show ?thesis using call_op_book [OF c] t(2) by (intro exI [of _ s']) (simp add: t(1) c)
qed

lemma run_prepare_fails: "run_prepare env ops s \<noteq> Run_returned 0 s'"
  by (simp add: run_prepare_def Let_def split: prod.split)

lemma run_create_fails: "run_create env s \<noteq> Run_returned 0 s'"
  by (simp add: run_create_def run_bind_def create_background_def Let_def split: prod.split)

lemma run_start_fails: "run_start env s \<noteq> Run_returned 0 s'"
  by (simp add: run_start_def Let_def split: prod.split option.split)

lemma run_warmup_fails: "run_warmup env s \<noteq> Run_returned 0 s'"
  by (simp add: run_warmup_def Let_def)

lemma run_report_start_fails: "run_report_start env s \<noteq> Run_returned 0 s'"
  by (simp add: run_report_start_def Let_def split: prod.split option.split)

lemma run_join_fails: "run_join env ops s \<noteq> Run_returned 0 s'"
  by (simp add: run_join_def Let_def split: prod.split)

lemmas run_failures = run_prepare_fails run_create_fails run_start_fails run_warmup_fails
  run_report_start_fails run_join_fails

lemma run_test_zero:
  assumes "run_test env ops s = Run_returned 0 s'"
  shows "g_error (rglob s') = 0 \<and> r_started s' = [0..<length (r_ctxts s)] \<and>
    (\<forall>i < length (r_ctxts s). fst (e_pthread_create env i) = 0) \<and>
    (\<exists>shutdown. r_alarms s' = r_alarms s @ [Alarm_init (e_init_timeout env), Alarm_off] @ shutdown @ [Alarm_off] \<and>
       length shutdown \<le> 1)"
proof -
  obtain s1 s2 s3 s4 s5 s6 where r:
    "run_prepare env ops s = Run_on s1" "run_create env s1 = Run_on s2" "run_start env s2 = Run_on s3"
    "run_warmup env s3 = Run_on s4" "run_report_start env s4 = Run_on s5" "run_join env ops s5 = Run_on s6"
    "run_finish env ops s6 = Run_returned 0 s'"
    using assms unfolding run_test_def
    by (elim run_bind_cases) ((simp add: run_failures; fail) | blast)+
  obtain cs' l' where s2: "s2 = (rset (\<lambda>v. v\<lparr>v_prog := (v_prog v)\<lparr>p_log := l'\<rparr>\<rparr>) s1)
      \<lparr>r_ctxts := cs', r_started := [0..<length (r_ctxts s1)]\<rparr>"
    and pc: "\<forall>i < length (r_ctxts s1). fst (e_pthread_create env i) = 0"
    using run_create_on [OF r(2)] by blast
  have b1: "run_book s1 = run_book s" using run_prepare_on [OF r(1)] by blast
  obtain t where t: "r_alarms s3 = r_alarms s2 @ [Alarm_init (e_init_timeout env), Alarm_off] @
      (if g_force_shutdown (rglob s3) then [Alarm_shutdown t] else [])" "r_started s3 = r_started s2"
    using run_start_on [OF r(3)] by blast
  have f: "g_error (rglob s') = 0 \<and> run_book s' = run_book s6"
    using run_finish_result [of env ops s6] r(7) by (auto split: if_splits)
  have "r_alarms s' = r_alarms s3 @ [Alarm_off] \<and> r_started s' = r_started s3 \<and> g_error (rglob s') = 0"
    using f run_join_on [OF r(6)] run_report_start_on [OF r(5)]
      run_warmup_on [OF r(4)] by (simp add: run_book_def)
  thus ?thesis using t s2 b1 pc by (auto simp: run_book_def)
qed

text \<open>C18: A run returns 0 only when no error was recorded, a thread was created for every
  descriptor, and the alarm that guards the start and the one of a forced shutdown have
  been switched off.\<close>
theorem run_test_success:
  assumes "run_test env ops s = Run_returned 0 s'"
  shows "g_error (rglob s') = 0 \<and> r_started s' = [0..<length (r_ctxts s)] \<and>
    (\<forall>i < length (r_ctxts s). fst (e_pthread_create env i) = 0) \<and>
    (\<exists>shutdown. r_alarms s' = r_alarms s @ [Alarm_init (e_init_timeout env), Alarm_off] @ shutdown @ [Alarm_off] \<and>
       length shutdown \<le> 1)"
  using assms by (rule run_test_zero)

section \<open>The warm-up\<close>

lemma checkpoint_timers_length:
  "checkpoint_timers is ts copies = (ts', copies') \<Longrightarrow> length ts' = length ts \<and> length copies' = length copies"
  by (induction "is" ts copies arbitrary: ts' copies' rule: checkpoint_timers.induct)
    (auto simp: Let_def split: prod.splits)

lemma checkpoint_lengths:
  "length (p_timers (fst (checkpoint now1 now2 p))) = length (p_timers p)"
  "length (p_timers_copy (fst (checkpoint now1 now2 p))) = length (p_timers_copy p)"
proof -
  obtain ts copies where c: "checkpoint_timers [0..<nthreads p] (p_timers p) (p_timers_copy p) = (ts, copies)"
    by (cases "checkpoint_timers [0..<nthreads p] (p_timers p) (p_timers_copy p)")
  have "p_timers (fst (checkpoint now1 now2 p)) = ts \<and> p_timers_copy (fst (checkpoint now1 now2 p)) = copies"
    using c by (auto simp: checkpoint_def Let_def nthreads_def split: prod.splits)
  with checkpoint_timers_length [OF c] show
    "length (p_timers (fst (checkpoint now1 now2 p))) = length (p_timers p)"
    "length (p_timers_copy (fst (checkpoint now1 now2 p))) = length (p_timers_copy p)" by simp_all
qed

lemma checkpoint_globals: "glob (fst (checkpoint now1 now2 p)) = glob p"
  by (simp add: checkpoint_def Let_def case_prod_beta)

lemma checkpoint_clears:
  assumes "nthreads (fst (checkpoint now1 now2 p)) \<le> length (p_timers (fst (checkpoint now1 now2 p)))"
    and "nthreads (fst (checkpoint now1 now2 p)) \<le> length (p_timers_copy (fst (checkpoint now1 now2 p)))"
  shows "\<forall>i < nthreads p. timer_stats (p_timers (fst (checkpoint now1 now2 p)) ! i) = no_stats"
  using assms checkpoint_prog [of now1 now2 p "fst (checkpoint now1 now2 p)" "snd (checkpoint now1 now2 p)"]
  by (simp add: checkpoint_lengths nthreads_def checkpoint_globals)

lemma checkpoint_histogram:
  "list_all (\<lambda>c. c = 0) (cumulative_array (l_latency (p_log (fst (checkpoint now1 now2 p)))))"
  "cumulative_nevents (l_latency (p_log (fst (checkpoint now1 now2 p)))) = 0"
  by (simp_all add: checkpoint_def Let_def case_prod_beta sb_histogram_get_pct_checkpoint_def list_all_iff)

lemma ev_checkpoint_prog:
  "\<exists>now1 now2. v_prog (ev_checkpoint s) = fst (checkpoint now1 now2 (v_prog s))"
  by (auto simp: ev_checkpoint_def SB_GETTIME_def Let_def)

text \<open>A warm-up ends with the event limit of the configuration in force again, after the sleep
  it asked for, and with the statistics of every worker and the latency histogram empty,
  whatever the workers did meanwhile.\<close>
theorem warmup_restores_limits:
  assumes "run_start env s = Run_on s1" "run_warmup env s1 = Run_on s2"
    and "0 < g_warmup_time (rglob s)"
    and "\<And>v. g_warmup_time (vglob (e_before_start env v)) = g_warmup_time (vglob v)"
    and "nthreads (v_prog (r_ev s2)) \<le> length (p_timers (v_prog (r_ev s2)))"
    and "nthreads (v_prog (r_ev s2)) \<le> length (p_timers_copy (v_prog (r_ev s2)))"
  shows "g_max_events (rglob s2) = g_max_events (rglob s) \<and>
    r_usleep s2 = Some (g_warmup_time (rglob s) * 1000000) \<and>
    (\<forall>i < nthreads (v_prog (r_ev s2)). timer_stats (p_timers (v_prog (r_ev s2)) ! i) = no_stats) \<and>
    list_all (\<lambda>c. c = 0) (cumulative_array (l_latency (p_log (v_prog (r_ev s2))))) \<and>
    cumulative_nevents (l_latency (p_log (v_prog (r_ev s2)))) = 0"
proof -
  have old: "r_old_max_events s1 = g_max_events (rglob s)" "g_warmup_time (rglob s1) = g_warmup_time (rglob s)"
    using run_start_on [OF assms(1)] assms(3,4) by (auto simp: run_arm_def Let_def)
  obtain v where v: "r_ev s2 = ev_checkpoint (vset (\<lambda>g. g\<lparr>g_max_events := r_old_max_events s1\<rparr>) v)"
    "r_usleep s2 = Some (g_warmup_time (rglob s1) * 1000000)"
    using assms(2,3) old by (auto simp: run_warmup_def Let_def rset_def split: if_splits)
  obtain now1 now2 where c: "v_prog (r_ev s2) =
      fst (checkpoint now1 now2 (v_prog (vset (\<lambda>g. g\<lparr>g_max_events := r_old_max_events s1\<rparr>) v)))"
    using ev_checkpoint_prog v(1) by metis
  have "g_max_events (rglob s2) = r_old_max_events s1"
    unfolding c checkpoint_globals by simp
  moreover have "nthreads (v_prog (r_ev s2)) = nthreads (v_prog (vset (\<lambda>g. g\<lparr>g_max_events := r_old_max_events s1\<rparr>) v))"
    unfolding c by (simp add: nthreads_def checkpoint_globals)
  ultimately show ?thesis
    using v(2) old checkpoint_clears assms(5,6) checkpoint_histogram unfolding c by simp
qed

section \<open>Runs that succeed\<close>

text \<open>The part of the global variables that decides the course of a run: the error flag and the
  configuration of the threads and of the warm-up.\<close>

definition run_course :: "sb_globals \<Rightarrow> int \<times> u32 \<times> u32 \<times> u32 \<times> u32 \<times> int" where
  "run_course g = (g_error g, g_threads g, g_tx_rate g, g_report_interval g, g_n_checkpoints g, g_warmup_time g)"

text \<open>Operations that report success and leave these alone.\<close>

definition quiet_op :: "('t ev_state \<Rightarrow> 't ev_state \<times> int) option \<Rightarrow> bool" where
  "quiet_op f \<longleftrightarrow> (case f of None \<Rightarrow> True | Some f \<Rightarrow> \<forall>s. run_course (vglob (fst (f s))) = run_course (vglob s) \<and> snd (f s) = 0)"

definition quiet_ops :: "('t, 'e) sb_operations \<Rightarrow> bool" where
  "quiet_ops ops \<longleftrightarrow> quiet_op (op_init ops) \<and> quiet_op (op_prepare ops) \<and> quiet_op (op_cleanup ops) \<and>
     quiet_op (op_done ops) \<and>
     (case op_print_mode ops of None \<Rightarrow> True | Some f \<Rightarrow> \<forall>s. run_course (vglob (f s)) = run_course (vglob s)) \<and>
     (\<forall>t. case op_report_cumulative ops t of None \<Rightarrow> True | Some f \<Rightarrow> \<forall>st p. run_course (glob (f st p)) = run_course (glob p))"

text \<open>An environment in which every call succeeds, the other threads leave the course of the run
  alone (they may count events, update statistics and change every other variable), and as many of them reach the barriers as the configuration \<open>g\<close> starts.\<close>

definition smooth_env :: "'t run_env \<Rightarrow> sb_globals \<Rightarrow> bool" where
  "smooth_env env g \<longleftrightarrow> e_worker_barrier_ok env \<and> e_report_barrier_ok env \<and>
     e_create_report env = 0 \<and> e_create_eventgen env = 0 \<and> e_create_checkpoints env = 0 \<and>
     (\<forall>i. fst (e_pthread_create env i) = 0) \<and>
     unat (worker_barrier_threads g) = e_workers_arrive env + 1 \<and>
     unat (report_barrier_threads g) = e_reporters_arrive env + 1 \<and>
     (\<forall>s. run_course (vglob (e_before_start env s)) = run_course (vglob s)) \<and>
     (\<forall>s. run_course (vglob (e_warming_up env s)) = run_course (vglob s)) \<and>
     (\<forall>s. run_course (vglob (e_before_report env s)) = run_course (vglob s)) \<and>
     (\<forall>s. run_course (vglob (e_until_joined env s)) = run_course (vglob s))"

lemma run_course_fields:
  "run_course g' = run_course g \<Longrightarrow> g_error g' = g_error g \<and> g_warmup_time g' = g_warmup_time g"
  by (simp add: run_course_def)

lemma run_course_upd [simp]:
  "run_course (g\<lparr>g_max_events := m\<rparr>) = run_course g" "run_course (g\<lparr>g_threads_running := n\<rparr>) = run_course g"
  "run_course (g\<lparr>g_exec_mutex := b\<rparr>) = run_course g"
  by (simp_all add: run_course_def)

lemma call_quiet:
  "quiet_op f \<Longrightarrow> \<exists>s'. call_op f s = (s', 0) \<and> run_course (rglob s') = run_course (rglob s)"
  by (auto simp: quiet_op_def call_op_def case_prod_beta split: option.splits)

text \<open>Rules that follow a sequence of updates and show that a component of the state stays.\<close>

lemma let_keeps:
  "f a = g \<Longrightarrow> (\<And>x. f x = g \<Longrightarrow> f (h x) = g) \<Longrightarrow> f (let x = a in h x) = g"
  "(\<And>y. f (k y) = g) \<Longrightarrow> f (let y = b in k y) = g"
  "f a = g \<Longrightarrow> (\<And>x. f x = g \<Longrightarrow> f (fst (l x)) = g) \<Longrightarrow> f (fst (let x = a in l x)) = g"
  "(\<And>y. f (fst (m y)) = g) \<Longrightarrow> f (fst (let y = b in m y)) = g"
  by (simp_all add: Let_def)

lemma if_keeps: "f a = g \<Longrightarrow> f b = g \<Longrightarrow> f (if c then a else b) = g"
  by simp

lemma case_prod_keeps: "(\<And>x y. f (h x y) = g) \<Longrightarrow> f (case p of (x, y) \<Rightarrow> h x y) = g"
  by (simp add: case_prod_beta)

lemmas keeps_rules = let_keeps [where f = vglob] let_keeps [where f = glob]
  let_keeps [where f = "\<lambda>s. run_course (vglob s)"]
  if_keeps [where f = vglob] if_keeps [where f = glob] if_keeps [where f = "\<lambda>s. run_course (vglob s)"]
  case_prod_keeps [where f = glob]

lemma print_run_mode_keeps:
  assumes "quiet_ops ops"
  shows "run_course (vglob (fst (print_run_mode fmt seed now ops s))) = run_course (vglob s)"
proof -
  have m: "run_course (vglob s) = g \<Longrightarrow> run_course (vglob (case op_print_mode ops of None \<Rightarrow> s | Some f \<Rightarrow> f s)) = g" for s g
    using assms by (auto simp: quiet_ops_def split: option.splits)
  show ?thesis unfolding print_run_mode_def
    by (rule keeps_rules refl m | assumption | simp (no_asm_simp))+
qed

lemma fold_keeps_glob:
  "(\<And>x p. glob (f x p) = glob p) \<Longrightarrow> glob (fold f xs p) = glob p"
  by (induction xs arbitrary: p) simp_all

lemma say_keeps [simp]: "glob (say pr t p) = glob p"
  by (simp add: say_def)

lemma sb_report_cumulative_keeps: "glob (sb_report_cumulative fmt now st p) = glob p"
proof -
  have fold: "glob p = g \<Longrightarrow> glob (fold (\<lambda>i p. let c = p_timers_copy p ! i; p = say pr (f1 c i) p
      in say pr (f2 c) p) is p) = g" for p g "is" pr f1 f2
    by (simp add: fold_keeps_glob Let_def)
  show ?thesis unfolding sb_report_cumulative_def
    by (rule keeps_rules refl fold | assumption | simp (no_asm_simp))+
qed

lemma report_cumulative_keeps:
  "quiet_ops ops \<Longrightarrow> run_course (vglob (ev_report_cumulative fmt ops s)) = run_course (vglob s)"
  by (simp add: ev_report_cumulative_def SB_GETTIME_def Let_def case_prod_beta report_cumulative_def
      quiet_ops_def checkpoint_globals sb_report_cumulative_keeps split: option.splits)

lemma histogram_print_keeps [simp]: "vglob (ev_histogram_print fmt s) = vglob s"
proof -
  have f: "l_globals (fold (\<lambda>(v, w, n). printf (Out_line (f v w n))) rs l) = l_globals l"
    for f :: "real \<Rightarrow> int \<Rightarrow> u64 \<Rightarrow> string" and rs l
    by (induction rs arbitrary: l) (auto simp: printf_def)
  show ?thesis
    by (simp add: f ev_histogram_print_def Let_def case_prod_beta histogram_rows_def printf_def)
qed

text \<open>What every stage of such a run keeps.\<close>

definition on_course :: "'t run_env \<Rightarrow> 't run_state \<Rightarrow> bool" where
  "on_course env s \<longleftrightarrow> smooth_env env (rglob s) \<and> g_error (rglob s) = 0 \<and> g_warmup_time (rglob s) \<le> 2147"

definition barriers_ready :: "'t run_env \<Rightarrow> 't run_state \<Rightarrow> bool" where
  "barriers_ready env s \<longleftrightarrow>
     (\<exists>ok b n. sb_barrier_init ok b n = (r_worker_barrier s, 0) \<and> unat n = e_workers_arrive env + 1) \<and>
     (\<exists>ok b n. sb_barrier_init ok b n = (r_report_barrier s, 0) \<and> unat n = e_reporters_arrive env + 1)"

lemma smooth_env_cong:
  "run_course g' = run_course g \<Longrightarrow> smooth_env env g' = smooth_env env g"
  by (simp add: run_course_def smooth_env_def worker_barrier_threads_def report_barrier_threads_def)

lemma on_course_cong:
  "run_course (rglob s') = run_course (rglob s) \<Longrightarrow> on_course env s' = on_course env s"
  using smooth_env_cong [of "rglob s'" "rglob s" env] run_course_fields [of "rglob s'" "rglob s"]
  by (auto simp: on_course_def)

lemma barrier_init_ok:
  "0 < unat n \<Longrightarrow> \<exists>b'. sb_barrier_init True b n = (b', 0)"
  by (auto simp: sb_barrier_init_def)

lemma run_prepare_runs:
  assumes "quiet_ops ops" "on_course env s"
  shows "\<exists>s'. run_prepare env ops s = Run_on s' \<and> on_course env s' \<and> barriers_ready env s'"
proof -
  obtain s1 where s1: "call_op (op_init ops) s = (s1, 0)" "run_course (rglob s1) = run_course (rglob s)"
    using call_quiet [of "op_init ops" s] assms(1) by (auto simp: quiet_ops_def)
  define s2 where "s2 = rset (\<lambda>v. v\<lparr>v_prog := (v_prog v)\<lparr>p_exec_timer := sb_timer_init (p_exec_timer (v_prog v)),
      p_intermediate_timer := sb_timer_init (p_intermediate_timer (v_prog v)),
      p_checkpoint_timer := sb_timer_init (p_checkpoint_timer (v_prog v))\<rparr>\<rparr>)
      (rset (\<lambda>v. fst (print_run_mode (e_fmt env) (e_seed env) (e_time env) ops v)) s1)"
  obtain s3 where s3: "call_op (op_prepare ops) s2 = (s3, 0)" "run_course (rglob s3) = run_course (rglob s2)"
    using call_quiet [of "op_prepare ops" s2] assms(1) by (auto simp: quiet_ops_def)
  define s4 where "s4 = rset (vset (\<lambda>g. g\<lparr>g_exec_mutex := False, g_threads_running := 0\<rparr>)) s3"
  have "run_course (rglob s4) = run_course (rglob s)"
    using s1(2) s3(2) print_run_mode_keeps [OF assms(1)] by (simp add: s4_def s2_def)
  then have "on_course env s4" using assms(2) on_course_cong by blast
  then have oc: "smooth_env env (rglob s4)" "g_error (rglob s4) = 0" "g_warmup_time (rglob s4) \<le> 2147"
    by (simp_all add: on_course_def)
  have w: "unat (worker_barrier_threads (rglob s4)) = e_workers_arrive env + 1"
    and r: "unat (report_barrier_threads (rglob s4)) = e_reporters_arrive env + 1"
    and ok: "e_worker_barrier_ok env" "e_report_barrier_ok env"
    using oc(1) by (simp_all add: smooth_env_def)
  obtain b1 where b1: "sb_barrier_init True (r_worker_barrier s4) (worker_barrier_threads (rglob s4)) = (b1, 0)"
    using barrier_init_ok w by (metis add_gr_0 zero_less_one)
  obtain b2 where b2: "sb_barrier_init True (r_report_barrier s4) (report_barrier_threads (rglob s4)) = (b2, 0)"
    using barrier_init_ok r by (metis add_gr_0 zero_less_one)
  have "run_prepare env ops s = Run_on (s4\<lparr>r_worker_barrier := b1, r_report_barrier := b2\<rparr>)"
    using s3(1) b1 b2 ok unfolding s4_def s2_def
    by (simp add: run_prepare_def s1(1) Let_def)
  moreover have "on_course env (s4\<lparr>r_worker_barrier := b1, r_report_barrier := b2\<rparr>)"
    using oc by (simp add: on_course_def)
  moreover have "barriers_ready env (s4\<lparr>r_worker_barrier := b1, r_report_barrier := b2\<rparr>)"
    unfolding barriers_ready_def using b1 b2 w r by fastforce
  ultimately show ?thesis by blast
qed

lemma run_create_runs:
  assumes "on_course env s" "barriers_ready env s"
  shows "\<exists>s'. run_create env s = Run_on s' \<and> on_course env s' \<and> barriers_ready env s'"
proof -
  obtain cs' started l' err where w: "sb_thread_create_workers (e_pthread_create env) (r_ctxts s)
      (p_log (v_prog (r_ev s))) = (cs', started, l', err)"
    by (metis prod_cases4)
  have pc: "\<forall>i. fst (e_pthread_create env i) = 0" and c: "e_create_report env = 0" "e_create_eventgen env = 0"
    "e_create_checkpoints env = 0"
    using assms(1) by (simp_all add: on_course_def smooth_env_def)
  have err: "err = 0"
    using w pc by (auto simp: sb_thread_create_workers_def Let_def set_ids_nth SB_EXIT_SUCCESS_def
        dest!: create_loop_spec split: prod.splits if_splits)
  have "run_create env s = Run_on ((rset (\<lambda>v. v\<lparr>v_prog := (v_prog v)\<lparr>p_log := l'\<rparr>\<rparr>) s)\<lparr>r_ctxts := cs', r_started := started\<rparr>)"
    by (simp add: run_create_def create_background_def c w err Let_def)
  thus ?thesis using assms workers_keep_globals [OF w] by (simp add: on_course_def barriers_ready_def)
qed

lemma run_start_runs:
  assumes "on_course env s" "barriers_ready env s"
  shows "\<exists>s'. run_start env s = Run_on s' \<and> on_course env s' \<and> r_report_barrier s' = r_report_barrier s"
proof -
  obtain v callback where c: "threads_started_callback (r_ev (run_arm env s)) = (v, callback)"
    by (cases "threads_started_callback (r_ev (run_arm env s))")
  obtain b r where a: "arrive_n (Some callback) (e_workers_arrive env + 1) (r_worker_barrier s) = (b, r)"
    by (cases "arrive_n (Some callback) (e_workers_arrive env + 1) (r_worker_barrier s)")
  have sm: "run_course (vglob (e_before_start env v)) = run_course (vglob v)" for v
    using assms(1) by (simp add: on_course_def smooth_env_def)
  have arm: "run_course (rglob (run_arm env s)) = run_course (rglob s)"
    by (simp add: run_arm_def Let_def sm)
  have e: "g_error (vglob (r_ev (run_arm env s))) = 0"
    using assms(1) run_course_fields [OF arm] by (simp add: on_course_def)
  from threads_started_ok [OF e c] have v: "callback = 0"
    "vglob v = (rglob (run_arm env s))\<lparr>g_threads_running := g_threads (rglob (run_arm env s))\<rparr>" by simp_all
  have r: "r = Some 1"
    using assms(2) barrier_of_init [of _ _ _ "r_worker_barrier s" "e_workers_arrive env + 1" "Some callback"] a v(1)
    by (auto simp: barriers_ready_def)
  have "run_course (vglob v) = run_course (rglob s)" using arm v(2) by simp
  then have "smooth_env env (vglob v) \<and> g_error (vglob v) = 0 \<and> g_warmup_time (vglob v) \<le> 2147"
    using assms(1) smooth_env_cong [of "vglob v" "rglob s" env] run_course_fields [of "vglob v" "rglob s"]
    by (simp add: on_course_def)
  thus ?thesis by (simp add: run_start_eq [OF c a] r Let_def on_course_def)
qed

lemma run_warmup_runs:
  assumes "on_course env s"
  shows "\<exists>s'. run_warmup env s = Run_on s' \<and> on_course env s' \<and> r_report_barrier s' = r_report_barrier s"
proof -
  have cp: "vglob (ev_checkpoint v) = vglob v" for v
    by (metis ev_checkpoint_prog checkpoint_globals)
  have sm: "run_course (vglob (e_warming_up env v)) = run_course (vglob v)" for v
    using assms by (simp add: on_course_def smooth_env_def)
  have w: "\<not> INT_MAX < g_warmup_time (rglob s) * 1000000"
    using assms by (simp add: on_course_def)
  obtain s' where s': "run_warmup env s = Run_on s'" "run_course (rglob s') = run_course (rglob s)"
    "r_report_barrier s' = r_report_barrier s"
  proof
    show "run_warmup env s = Run_on (case run_warmup env s of Run_on s' \<Rightarrow> s')"
      "run_course (rglob (case run_warmup env s of Run_on s' \<Rightarrow> s')) = run_course (rglob s)"
      "r_report_barrier (case run_warmup env s of Run_on s' \<Rightarrow> s') = r_report_barrier s"
      using w by (simp_all add: run_warmup_def Let_def cp sm)
  qed
  from on_course_cong [OF s'(2)] assms s' show ?thesis by blast
qed

lemma run_report_start_runs:
  assumes "on_course env s"
    and "sb_barrier_init ok b n = (r_report_barrier s, 0)" "unat n = e_reporters_arrive env + 1"
  shows "\<exists>s'. run_report_start env s = Run_on s' \<and> on_course env s'"
proof -
  obtain b r where a: "arrive_n None (e_reporters_arrive env + 1) (r_report_barrier s) = (b, r)"
    by (cases "arrive_n None (e_reporters_arrive env + 1) (r_report_barrier s)")
  have r: "r = Some 1"
    using barrier_of_init [OF assms(2), of "e_reporters_arrive env + 1" None] assms(3) a by simp
  have sm: "run_course (vglob (e_before_report env v)) = run_course (vglob v)" for v
    using assms(1) by (simp add: on_course_def smooth_env_def)
  obtain s' where s': "run_report_start env s = Run_on s'" "run_course (rglob s') = run_course (rglob s)"
    unfolding run_report_start_def Let_def rset_fields a prod.case r by (auto simp: sm)
  from on_course_cong [OF s'(2)] assms(1) s' show ?thesis by blast
qed

lemma join_loop_error: "g_error (l_globals (join_loop pj cs l)) = g_error (l_globals l)"
  by (induction pj cs l rule: join_loop.induct) (auto simp: Let_def log_errno_def split: option.splits)

lemma stop_timer_keeps:
  "(\<And>t p. glob (put t p) = glob p) \<Longrightarrow> vglob (stop_timer get put s) = vglob s"
  by (simp add: stop_timer_def SB_GETTIME_def)

lemma run_join_runs:
  assumes "on_course env s" "quiet_ops ops"
  shows "\<exists>s'. run_join env ops s = Run_on s' \<and> g_error (rglob s') = 0"
proof -
  let ?v = "e_until_joined env (r_ev s)"
  obtain l where j: "sb_thread_join_workers (e_pthread_join env) (r_ctxts s) (p_log (v_prog ?v)) = (l, 0)"
    by (simp add: sb_thread_join_workers_def SB_EXIT_SUCCESS_def)
  have "run_course (vglob ?v) = run_course (rglob s)" using assms(1) by (simp add: on_course_def smooth_env_def)
  from run_course_fields [OF this] have "g_error (vglob ?v) = 0" using assms(1) by (simp add: on_course_def)
  hence e: "g_error (l_globals l) = 0"
    using j by (auto simp: sb_thread_join_workers_def join_loop_error on_course_def)
  have q: "quiet_op (op_cleanup ops)" using assms(2) by (simp add: quiet_ops_def)
  obtain t where t: "run_join env ops s = (let (s, rc) = call_op (op_cleanup ops) t
      in if rc \<noteq> 0 then Run_returned 1 s else Run_on s)" "g_error (rglob t) = 0"
    using j e unfolding run_join_def Let_def rset_fields
    by (simp add: stop_timer_keeps Let_def)
  obtain s' where "call_op (op_cleanup ops) t = (s', 0)" "run_course (rglob s') = run_course (rglob t)" using call_quiet [OF q] by blast
  with t run_course_fields [of "rglob s'" "rglob t"] show ?thesis by simp
qed

lemma run_finish_runs:
  assumes "quiet_ops ops" "g_error (rglob s) = 0"
  shows "\<exists>s'. run_finish env ops s = Run_returned 0 s'"
proof -
  have q: "quiet_op (op_done ops)" using assms(1) by (simp add: quiet_ops_def)
  have cum: "g_error (vglob (ev_report_cumulative fmt ops v)) = g_error (vglob v)" for fmt v
    using report_cumulative_keeps [OF assms(1)] run_course_fields by blast
  obtain t where t: "run_finish env ops s = (let (s, _) = call_op (op_done ops) t
      in Run_returned (if g_error (rglob s) \<noteq> 0 then 1 else 0) s)" "g_error (rglob t) = 0"
    using assms unfolding run_finish_def
    by (simp add: Let_def cum)
  obtain s' where "call_op (op_done ops) t = (s', 0)" "run_course (rglob s') = run_course (rglob t)" using call_quiet [OF q] by blast
  with t run_course_fields [of "rglob s'" "rglob t"] show ?thesis by simp
qed

lemma run_test_runs:
  assumes "quiet_ops ops" "on_course env s"
  shows "\<exists>s'. run_test env ops s = Run_returned 0 s'"
proof -
  obtain s1 where 1: "run_prepare env ops s = Run_on s1" "on_course env s1" "barriers_ready env s1"
    using run_prepare_runs assms by blast
  then obtain s2 where 2: "run_create env s1 = Run_on s2" "on_course env s2" "barriers_ready env s2"
    using run_create_runs by blast
  then obtain s3 where 3: "run_start env s2 = Run_on s3" "on_course env s3" "r_report_barrier s3 = r_report_barrier s2"
    using run_start_runs by blast
  then obtain s4 where 4: "run_warmup env s3 = Run_on s4" "on_course env s4" "r_report_barrier s4 = r_report_barrier s2"
    using run_warmup_runs by metis
  from 2(3) 4(3) obtain ok b n where "sb_barrier_init ok b n = (r_report_barrier s4, 0)" "unat n = e_reporters_arrive env + 1"
    by (auto simp: barriers_ready_def)
  then obtain s5 where 5: "run_report_start env s4 = Run_on s5" "on_course env s5"
    using run_report_start_runs [OF 4(2)] by blast
  then obtain s6 where 6: "run_join env ops s5 = Run_on s6" "g_error (rglob s6) = 0"
    using run_join_runs assms(1) by blast
  obtain s' where "run_finish env ops s6 = Run_returned 0 s'" using run_finish_runs [OF assms(1) 6(2)] by blast
  with 1 2 3 4 5 6 show ?thesis by (auto simp: run_test_def)
qed


section \<open>A sample run\<close>

definition sample_env :: "unit run_env" where
  "sample_env = \<lparr>e_fmt = \<lambda>f _. f, e_seed = 7, e_time = 0, e_errno = [], e_init_timeout = 30,
     e_worker_barrier_ok = True, e_report_barrier_ok = True, e_create_report = 0, e_create_eventgen = 0,
     e_create_checkpoints = 0, e_pthread_create = \<lambda>i. (0, i), e_pthread_join = \<lambda>_. 0,
     e_workers_arrive = 1, e_reporters_arrive = 0, e_before_start = id, e_warming_up = id,
     e_before_report = id, e_until_joined = id, e_report_created = False, e_eventgen_created = False,
     e_checkpoints_created = False, e_end_report_failed = False, e_end_eventgen_failed = False,
     e_end_checkpoints_failed = False\<rparr>"

definition sample_ops :: "(unit, unit) sb_operations" where
  "sample_ops = \<lparr>op_init = None, op_prepare = None, op_thread_init = None, op_print_mode = None,
     op_next_event = \<lambda>_ s. (s, None), op_execute_event = \<lambda>_ _ s. (s, 0), op_report_intermediate = \<lambda>_. None,
     op_report_cumulative = \<lambda>_. None, op_thread_run = None, op_thread_done = None, op_cleanup = None, op_done = None\<rparr>"

definition sample_barrier :: "u32 \<Rightarrow> sb_barrier" where
  "sample_barrier n = \<lparr>count = n, init_count = n, serial = 0, error = False\<rparr>"

definition sample_run :: "(sb_globals \<Rightarrow> sb_globals) \<Rightarrow> unit run_state" where
  "sample_run f = \<lparr>r_ev = sample_ev f, r_worker_barrier = sample_barrier 2, r_report_barrier = sample_barrier 1,
     r_ctxts = [raw_ctxt], r_started = [], r_alarms = [], r_usleep = None, r_old_max_events = 0\<rparr>"

lemma sample_run_globals [simp]: "rglob (sample_run f) = f (globals_static\<lparr>g_threads := 1\<rparr>)"
  by (simp add: sample_run_def)

lemma sample_smooth:
  "g_threads g = 1 \<Longrightarrow> g_tx_rate g = 0 \<Longrightarrow> g_report_interval g = 0 \<Longrightarrow> g_n_checkpoints g = 0 \<Longrightarrow>
    smooth_env sample_env g"
  by (simp add: smooth_env_def sample_env_def worker_barrier_threads_def report_barrier_threads_def)

lemma sample_quiet: "quiet_ops sample_ops"
  by (simp add: quiet_ops_def quiet_op_def sample_ops_def)

lemma sample_init_barrier: "sb_barrier_init True b 2 = (sample_barrier 2, 0)" "sb_barrier_init True b 1 = (sample_barrier 1, 0)"
  by (simp_all add: sb_barrier_init_def sample_barrier_def)


theorem worker_barrier_opens_witness:
  "\<exists>s'. run_start (sample_env\<lparr>e_workers_arrive := 0\<rparr>) (sample_run id) = Run_waiting s'"
proof -
  have b: "sb_barrier_init True (sample_barrier 0) (worker_barrier_threads (globals_static\<lparr>g_threads := 1\<rparr>)) =
      (r_worker_barrier (sample_run id), 0)"
    by (simp add: worker_barrier_threads_def globals_static_def sample_run_def sample_init_barrier)
  have "unat (g_threads (globals_static\<lparr>g_threads := 1\<rparr>)) + 2 < 2 ^ 32" by simp
  from worker_barrier_opens [OF b this refl, of "sample_env\<lparr>e_workers_arrive := 0\<rparr>"]
  show ?thesis
    by (cases "run_start (sample_env\<lparr>e_workers_arrive := 0\<rparr>) (sample_run id)") (simp_all add: globals_static_def)
qed

lemma sample_course:
  "g_warmup_time (f (globals_static\<lparr>g_threads := 1\<rparr>)) \<le> 2147 \<Longrightarrow> g_error (f (globals_static\<lparr>g_threads := 1\<rparr>)) = 0 \<Longrightarrow>
    smooth_env sample_env (f (globals_static\<lparr>g_threads := 1\<rparr>)) \<Longrightarrow> on_course sample_env (sample_run f)"
  by (simp add: on_course_def)

theorem run_test_success_witness:
  "\<exists>s'. run_test sample_env sample_ops (sample_run id) = Run_returned 0 s' \<and> r_started s' = [0]"
proof -
  have "on_course sample_env (sample_run id)"
    by (rule sample_course) (simp_all add: globals_static_def sample_smooth)
  then obtain s' where "run_test sample_env sample_ops (sample_run id) = Run_returned 0 s'"
    using run_test_runs [OF sample_quiet] by blast
  with run_test_success [OF this] show ?thesis by (simp add: sample_run_def)
qed

definition warm :: "sb_globals \<Rightarrow> sb_globals" where
  "warm g = g\<lparr>g_warmup_time := 3, g_max_events := 50\<rparr>"

theorem warmup_restores_limits_witness:
  "\<exists>s1 s2. run_start sample_env (sample_run warm) = Run_on s1 \<and> run_warmup sample_env s1 = Run_on s2 \<and>
     g_max_events (rglob s1) = 0 \<and> g_max_events (rglob s2) = 50"
proof -
  let ?s = "sample_run warm"
  obtain v where c: "threads_started_callback (r_ev (run_arm sample_env ?s)) = (v, 0)"
    and v: "vglob v = (rglob (run_arm sample_env ?s))\<lparr>g_threads_running := 1\<rparr>"
      "length (p_timers (v_prog v)) = 1" "length (p_timers_copy (v_prog v)) = 1"
    by (simp add: threads_started_callback_def run_arm_def Let_def SB_GETTIME_def warm_def
        globals_static_def sample_env_def sample_run_def rset_def) (simp add: sample_ev_def sample_prog_def vset_def vsay_def say_def set_globals_def)
  have a: "arrive_n (Some 0) (e_workers_arrive sample_env + 1) (r_worker_barrier ?s) = (sample_barrier 2\<lparr>serial := 1\<rparr>, Some 1)"
    by (simp add: sample_env_def sample_run_def sample_barrier_def sb_barrier_arrive_def Let_def
        SB_BARRIER_SERIAL_THREAD_def numeral_2_eq_2)
  have g: "rglob (run_arm sample_env ?s) = (globals_static\<lparr>g_threads := 1\<rparr>)\<lparr>g_warmup_time := 3, g_max_events := 0\<rparr>"
    by (simp add: run_arm_def Let_def warm_def sample_env_def)
  define s1 where "s1 = (run_arm sample_env ?s)\<lparr>r_worker_barrier := sample_barrier 2\<lparr>serial := 1\<rparr>, r_ev := v,
      r_alarms := r_alarms (run_arm sample_env ?s) @ [Alarm_off]\<rparr>"
  have r1: "run_start sample_env ?s = Run_on s1"
    unfolding run_start_eq [OF c a] by (simp add: s1_def Let_def v(1) g globals_static_def)
  have g1: "rglob s1 = (globals_static\<lparr>g_threads := 1\<rparr>)\<lparr>g_warmup_time := 3, g_max_events := 0, g_threads_running := 1\<rparr>"
    by (simp add: s1_def v(1) g)
  obtain s2 where r2: "run_warmup sample_env s1 = Run_on s2"
    by (simp add: run_warmup_def Let_def g1)
  have l: "length (p_timers (v_prog (r_ev s2))) = 1 \<and> length (p_timers_copy (v_prog (r_ev s2))) = 1 \<and>
      nthreads (v_prog (r_ev s2)) = 1"
  proof -
    obtain w where w: "r_ev s2 = ev_checkpoint w" "p_timers (v_prog w) = p_timers (v_prog v)"
      "p_timers_copy (v_prog w) = p_timers_copy (v_prog v)" "g_threads (vglob w) = 1"
      using r2 by (auto simp: run_warmup_def Let_def g1 sample_env_def) (auto simp: s1_def vset_def set_globals_def vsay_def say_def v(1) g)
    obtain now1 now2 where "v_prog (r_ev s2) = fst (checkpoint now1 now2 (v_prog w))"
      using ev_checkpoint_prog w(1) by metis
    thus ?thesis using w v by (simp add: checkpoint_lengths nthreads_def checkpoint_globals)
  qed
  have e: "g_warmup_time (vglob (e_before_start sample_env v)) = g_warmup_time (vglob v)" for v
    by (simp add: sample_env_def)
  from warmup_restores_limits [OF r1 r2 _ e] l r1 r2 g1 show ?thesis by (simp add: warm_def)
qed

end
