(* ===== verification/Sysbench.thy ===== *)
theory Sysbench
  imports RunTest
begin

text \<open>
  The program (\<open>main\<close> of \<open>sysbench.c\<close>): registration, the command line, initialisation, the
  choice of a test, the dispatch of its command, and the release of everything.  The Lua
  engine and the drivers are not modelled: what they do is part of \<open>main_env\<close>.
\<close>

section \<open>Tests and the environment\<close>

type_synonym 't builtin_cmd = "('t ev_state \<Rightarrow> 't ev_state \<times> int) option"

record ('t, 'e) sb_test =
  t_sname :: string
  t_lname :: string
  t_ops :: "('t, 'e) sb_operations"
  t_help :: "'t builtin_cmd"
  t_prepare :: "'t builtin_cmd"
  t_run :: "'t builtin_cmd"
  t_cleanup :: "'t builtin_cmd"
  t_args :: "sb_arg list option"

record ('t, 'e) main_env =
  m_fs :: file_system
  m_strtod :: "string \<Rightarrow> real"
  m_random :: "u64 list"
  m_thread_malloc_ok :: bool
  m_timers_ok :: bool
  m_log_calloc_ok :: bool
  m_log_malloc_ok :: bool
  m_counters_ok :: bool
  m_isatty :: bool
  m_version :: string
  m_tests :: "('t, 'e) sb_test list"
  m_register_rc :: int
  m_register_db :: "options \<Rightarrow> options \<times> int"
  m_db_help :: "log_state \<Rightarrow> log_state"
  m_load_lua :: "string option \<Rightarrow> 't ev_state \<Rightarrow> 't ev_state \<times> ('t, 'e) sb_test option"
  m_lua_loaded :: "'t ev_state \<Rightarrow> bool"
  m_custom_command :: "string \<Rightarrow> ('t ev_state \<Rightarrow> 't ev_state \<times> int) option"
  m_run_env :: "int \<Rightarrow> 't run_env"

text \<open>The state of the program; \<open>s_released\<close> tells whether the code from \<open>end\<close> on has run.\<close>

record ('t, 'e) main_state =
  s_run :: "'t run_state"
  s_threads :: thread_state
  s_tests :: "('t, 'e) sb_test list"
  s_current :: "('t, 'e) sb_test option"
  s_argv :: "string option list"
  s_init_timeout :: int
  s_seed :: int
  s_released :: bool

text \<open>The end of the program: an exit code, \<open>exit(2)\<close> from the handler of the start alarm, or
  undefined behaviour.\<close>

datatype ('t, 'e) main_result = Exits int "('t, 'e) main_state" | Alarm_exits | Undefined

abbreviation mev :: "('t, 'e) main_state \<Rightarrow> 't ev_state" where "mev s \<equiv> r_ev (s_run s)"
abbreviation mprog :: "('t, 'e) main_state \<Rightarrow> prog" where "mprog s \<equiv> v_prog (mev s)"
abbreviation mglob :: "('t, 'e) main_state \<Rightarrow> sb_globals" where "mglob s \<equiv> vglob (mev s)"
abbreviation mopts :: "('t, 'e) main_state \<Rightarrow> options" where "mopts s \<equiv> l_opts (p_log (mprog s))"

definition upd_ev :: "('t ev_state \<Rightarrow> 't ev_state) \<Rightarrow> ('t, 'e) main_state \<Rightarrow> ('t, 'e) main_state" where
  "upd_ev f s = s\<lparr>s_run := rset f (s_run s)\<rparr>"

definition upd_prog :: "(prog \<Rightarrow> prog) \<Rightarrow> ('t, 'e) main_state \<Rightarrow> ('t, 'e) main_state" where
  "upd_prog f s = upd_ev (\<lambda>v. v\<lparr>v_prog := f (v_prog v)\<rparr>) s"

definition upd_log :: "(log_state \<Rightarrow> log_state) \<Rightarrow> ('t, 'e) main_state \<Rightarrow> ('t, 'e) main_state" where
  "upd_log f s = upd_prog (\<lambda>p. p\<lparr>p_log := f (p_log p)\<rparr>) s"

section \<open>Registration and help\<close>

definition register_tests :: "('t, 'e) main_env \<Rightarrow> ('t, 'e) main_state \<Rightarrow> ('t, 'e) main_state \<times> int" where
  "register_tests env s =
     (let s = s\<lparr>s_tests := m_tests env\<rparr>;
          (opts, rc) = m_register_db env (mopts s);
          (opts, rc') = sb_rand_register (m_fs env) opts
      in (upd_log (\<lambda>l. l\<lparr>l_opts := opts\<rparr>) s, m_register_rc env + rc + int rc'))"

definition print_lines :: "string list \<Rightarrow> log_state \<Rightarrow> log_state" where
  "print_lines ls l = fold (\<lambda>t. printf (Out_line t)) ls l"

definition print_arg_set :: "sb_arg list \<Rightarrow> log_state \<Rightarrow> log_state" where
  "print_arg_set as l = (case sb_print_options as of None \<Rightarrow> l | Some ls \<Rightarrow> print_lines ls l)"

definition sb_rand_print_help :: "log_state \<Rightarrow> log_state" where
  "sb_rand_print_help l =
     print_arg_set rand_args (print_lines [''Pseudo-Random Numbers Generator options:''] l)"

definition print_help :: "('t, 'e) main_env \<Rightarrow> ('t, 'e) main_state \<Rightarrow> ('t, 'e) main_state" where
  "print_help env s = upd_log (\<lambda>l.
     let l = print_lines [''Usage:'', ''  sysbench [options]... [testname] [command]'', [],
               ''Commands implemented by most tests: prepare run cleanup help'', [], ''General options:''] l;
         l = print_arg_set general_args l;
         l = sb_rand_print_help l;
         l = log_print_help l;
         l = m_db_help env l;
         l = print_lines [''Compiled-in tests:''] l;
         l = print_lines (map (\<lambda>t. ''  '' @ t_sname t @ '' - '' @ t_lname t) (s_tests s)) l
     in print_lines [[], ''See 'sysbench <testname> help' for a list of options for each test.'', []] l) s"

definition print_header :: "('t, 'e) main_env \<Rightarrow> ('t, 'e) main_state \<Rightarrow> ('t, 'e) main_state" where
  "print_header env s = upd_ev (vsay LOG_NOTICE (m_version env @ [CHR 0x0A])) s"

definition sb_print_test_options :: "('t, 'e) main_state \<Rightarrow> ('t, 'e) main_state" where
  "sb_print_test_options s = (case s_current s of
     None \<Rightarrow> s
   | Some t \<Rightarrow> (case t_args t of None \<Rightarrow> s | Some as \<Rightarrow> upd_log (print_arg_set as) s))"

section \<open>Commands\<close>

text \<open>The code after the label \<open>end\<close>.\<close>

definition main_end :: "int \<Rightarrow> ('t, 'e) main_state \<Rightarrow> ('t, 'e) main_result" where
  "main_end rc s =
     (let s = upd_prog (\<lambda>p. p\<lparr>p_counters := sb_counters_done (p_counters p)\<rparr>) s;
          s = upd_log log_done s;
          s = upd_log (\<lambda>l. l\<lparr>l_opts := free_options (l_opts l)\<rparr>) s;
          s = s\<lparr>s_threads := sb_thread_done (s_threads s)\<rparr>;
          s = upd_prog (\<lambda>p. p\<lparr>p_timers := [], p_timers_copy := []\<rparr>) s
      in Exits rc (s\<lparr>s_released := True\<rparr>))"

definition run_cmd :: "('t ev_state \<Rightarrow> 't ev_state \<times> int) \<Rightarrow> ('t, 'e) main_state \<Rightarrow> ('t, 'e) main_result" where
  "run_cmd f s = (let (v, rc) = f (mev s) in main_end rc (upd_ev (\<lambda>_. v) s))"

definition run_builtin :: "'t builtin_cmd \<Rightarrow> ('t, 'e) main_state \<Rightarrow> ('t, 'e) main_result" where
  "run_builtin f s = (case f of None \<Rightarrow> main_end 1 s | Some f \<Rightarrow> run_cmd f s)"

definition cmd_help :: "('t, 'e) sb_test \<Rightarrow> ('t, 'e) main_state \<Rightarrow> ('t, 'e) main_result" where
  "cmd_help test s =
     (case t_help test of
        Some f \<Rightarrow> main_end 0 (upd_ev (fst \<circ> f) s)
      | None \<Rightarrow>
          if t_args test \<noteq> None
          then main_end 0 (sb_print_test_options (upd_log (print_lines [t_sname test @ '' options:'']) s))
          else Exits 1 s)"

definition cmd_run :: "('t, 'e) main_env \<Rightarrow> ('t, 'e) sb_test \<Rightarrow> ('t, 'e) main_state \<Rightarrow> ('t, 'e) main_result" where
  "cmd_run env test s =
     (case run_test ((m_run_env env (s_seed s))\<lparr>e_init_timeout := word_of_int (s_init_timeout s)\<rparr>)
             (t_ops test) (s_run s) of
        Run_returned rc r \<Rightarrow> main_end (if rc \<noteq> 0 then 1 else 0) (s\<lparr>s_run := r\<rparr>)
      | Run_waiting r \<Rightarrow> Alarm_exits
      | _ \<Rightarrow> Undefined)"

definition dispatch :: "('t, 'e) main_env \<Rightarrow> ('t, 'e) sb_test \<Rightarrow> string \<Rightarrow> ('t, 'e) main_state \<Rightarrow> ('t, 'e) main_result" where
  "dispatch env test cmd s =
     (case (if m_lua_loaded env (mev s) then m_custom_command env cmd else None) of
        Some f \<Rightarrow> run_cmd f s
      | None \<Rightarrow>
          if cmd = ''help'' then cmd_help test s
          else if cmd = ''prepare'' then run_builtin (t_prepare test) s
          else if cmd = ''cleanup'' then run_builtin (t_cleanup test) s
          else if cmd = ''run'' then cmd_run env test s
          else main_end 1 s)"

section \<open>The program\<close>

text \<open>\<open>init\<close> on the state of the program: \<open>None\<close> when it calls \<open>exit\<close>.\<close>

definition main_init :: "('t, 'e) main_env \<Rightarrow> ('t, 'e) main_state \<Rightarrow> (('t, 'e) main_state \<times> int) option" where
  "main_init env s =
     (let put = (\<lambda>i. (upd_prog (\<lambda>_. i_prog i) s)\<lparr>s_threads := i_threads i, s_init_timeout := i_init_timeout i,
            s_seed := (case i_rand i of None \<Rightarrow> 0 | Some (seed, _) \<Rightarrow> seed)\<rparr>)
      in case init (e_fmt (m_run_env env 0)) (m_fs env) (m_strtod env) (m_random env)
                (m_thread_malloc_ok env) (m_timers_ok env)
                \<lparr>i_prog = mprog s, i_threads = s_threads s, i_init_timeout = s_init_timeout s, i_rand = None\<rparr> of
           Init_exit \<Rightarrow> None
         | Init_failed i \<Rightarrow> Some (put i, 1)
         | Init_ok i \<Rightarrow> Some ((put i)\<lparr>s_run := (s_run (put i))\<lparr>r_ctxts := (case threads (i_threads i) of None \<Rightarrow> [] | Some cs \<Rightarrow> cs)\<rparr>\<rparr>, 0))"

text \<open>The script from the standard input.\<close>

definition read_script :: "('t, 'e) main_env \<Rightarrow> ('t, 'e) main_state \<Rightarrow> ('t, 'e) main_state \<times> (int + ('t, 'e) sb_test \<times> string)" where
  "read_script env s =
     (let s = upd_ev (vset (\<lambda>g. g\<lparr>g_testname := None\<rparr>)) s;
          s = (if m_isatty env
               then upd_ev (vsay LOG_NOTICE (''Reading the script from the standard input:'' @ [CHR 0x0A])) s else s);
          (v, test) = m_load_lua env None (mev s)
      in (upd_ev (\<lambda>_. v) s, Inl (if test \<noteq> None then 0 else 1)))"

text \<open>The choice of the test: an exit code, or the test and its command.\<close>

definition choose_test :: "('t, 'e) main_env \<Rightarrow> ('t, 'e) main_state \<Rightarrow> ('t, 'e) main_state \<times> (int + ('t, 'e) sb_test \<times> string)" where
  "choose_test env s =
     (case g_testname (mglob s) of
        Some n \<Rightarrow>
          if n \<noteq> ''-'' then
            (case find_test n t_sname (s_tests s) of
               Some test \<Rightarrow>
                 (case g_cmdname (mglob s) of
                    None \<Rightarrow> (s, Inl 1)
                  | Some cmd \<Rightarrow> (s, Inr (test, cmd)))
             | None \<Rightarrow>
                 (let (v, test) = m_load_lua env (Some n) (mev s);
                      s = upd_ev (\<lambda>_. v) s
                  in case test of
                       None \<Rightarrow> (s, Inl 1)
                     | Some test \<Rightarrow>
                         (case g_cmdname (mglob s) of
                            None \<Rightarrow> (s, Inl 0)
                          | Some cmd \<Rightarrow> (s, Inr (test, cmd)))))
          else read_script env s
      | None \<Rightarrow> read_script env s)"

text \<open>From the parsed command line to the exit.\<close>

definition main_test :: "('t, 'e) main_env \<Rightarrow> ('t, 'e) main_state \<Rightarrow> ('t, 'e) main_result" where
  "main_test env s =
     (case choose_test env s of
        (s, Inl rc) \<Rightarrow> Exits rc s
      | (s, Inr (test, cmd)) \<Rightarrow>
          (let s = s\<lparr>s_current := Some test\<rparr>;
               (opts, argv, rc) = parse_test_arguments (m_fs env) (mopts s) (t_args test) (s_argv s);
               s = (upd_log (\<lambda>l. l\<lparr>l_opts := opts\<rparr>) s)\<lparr>s_argv := argv\<rparr>
           in if rc \<noteq> 0 then Exits 1 s else dispatch env test cmd s))"

definition main_started :: "('t, 'e) main_env \<Rightarrow> ('t, 'e) main_state \<Rightarrow> ('t, 'e) main_result" where
  "main_started env s =
     (case main_init env s of
        None \<Rightarrow> Exits 1 s
      | Some (s, rc) \<Rightarrow>
          if rc \<noteq> 0 then Exits 1 s
          else case log_init (m_log_calloc_ok env) (m_log_malloc_ok env) (p_log (mprog s)) of
                 None \<Rightarrow> Exits 1 s
               | Some (l, rc) \<Rightarrow>
                   (let s = upd_log (\<lambda>_. l) s
                    in if rc \<noteq> 0 then Exits 1 s
                       else
                         let (c, failed) = sb_counters_init (m_counters_ok env) (unat (g_threads (mglob s)))
                                             (p_counters (mprog s));
                             s = upd_prog (\<lambda>p. p\<lparr>p_counters := c\<rparr>) s
                         in if failed then Exits 1 s
                            else main_test env (print_header env s)))"

text \<open>\<open>main\<close>: the arguments are those after the name of the program.\<close>

definition sb_main :: "('t, 'e) main_env \<Rightarrow> string list \<Rightarrow> ('t, 'e) main_state \<Rightarrow> ('t, 'e) main_result" where
  "sb_main env args s =
     (let s = upd_ev (vset (\<lambda>g. g\<lparr>g_argc := int (length args) + 1, g_argv := None # map Some args\<rparr>)) s;
          s = upd_log (\<lambda>l. l\<lparr>l_opts := sb_options_init\<rparr>) s;
          s = upd_log (log_register (m_fs env)) s;
          (s, rc) = register_tests env s
      in if rc \<noteq> 0 then Exits 1 s
         else
           let (opts, argv, g, rc) = parse_general_arguments (m_fs env) (mopts s) args (mglob s);
               s = (upd_log (\<lambda>l. l\<lparr>l_opts := opts, l_globals := g\<rparr>) s)\<lparr>s_argv := argv\<rparr>
           in if rc \<noteq> 0 then Exits 1 s
              else if sb_get_value_flag (mopts s) ''help'' then Exits 0 (print_help env s)
              else if sb_get_value_flag (mopts s) ''version''
              then Exits 0 (upd_log (print_lines [m_version env]) s)
              else main_started env s)"

section \<open>From the command line to the result of a run\<close>

definition names :: "sb_globals \<Rightarrow> string option \<times> string option" where
  "names g = (g_testname g, g_cmdname g)"

lemma init_limits_names:
  "init_limits fmt s = Init_ok s' \<Longrightarrow> names (iglob s') = names (iglob s)"
  by (auto simp: init_limits_def names_def forced_shutdown_def Let_def split: option.splits if_splits prod.splits)

lemma init_checkpoints_names:
  "init_checkpoints fmt s = Init_ok s' \<Longrightarrow> names (iglob s') = names (iglob s)"
  by (auto simp: init_checkpoints_def names_def Let_def split: option.splits if_splits prod.splits checkpoints_end.splits)

lemma init_timers_names:
  "init_timers ok s = Init_ok s' \<Longrightarrow> names (iglob s') = names (iglob s)"
  by (auto simp: init_timers_def names_def Let_def split: if_splits)

lemma init_flags_names:
  "init_flags fs st r s = Init_ok s' \<Longrightarrow> names (iglob s') = names (iglob s)"
  by (auto simp: init_flags_def names_def Let_def iset_def set_globals_def split: option.splits if_splits rand_init_result.splits)

lemma sb_thread_init_names:
  "sb_thread_init ok ts l = (ts', l', e) \<Longrightarrow> l_globals l' = l_globals l"
  by (auto simp: sb_thread_init_def Let_def split: if_splits)

lemma init_bind_ok:
  "init_bind r f = Init_ok s' \<longleftrightarrow> (\<exists>s. r = Init_ok s \<and> f s = Init_ok s')"
  by (cases r) (auto simp: init_bind_def)

lemma init_names:
  assumes "init fmt fs st r m a s = Init_ok s'"
  shows "names (iglob s') = names (iglob s)"
proof -
  obtain s1 where s1: "init_limits fmt s = Init_ok s1"
    using assms by (auto simp: init_def init_bind_ok)
  obtain ts l e where 1: "sb_thread_init m (i_threads s1) (p_log (i_prog s1)) = (ts, l, e)"
    by (metis prod_cases3)
  let ?s2 = "s1\<lparr>i_threads := ts, i_prog := (i_prog s1)\<lparr>p_log := l\<rparr>\<rparr>"
  obtain s3 s4 where 2: "init_flags fs st r ?s2 = Init_ok s3" "init_checkpoints fmt s3 = Init_ok s4" "init_timers a s4 = Init_ok s'"
    using assms s1 1 by (auto simp: init_def init_bind_ok Let_def split: if_splits)
  show ?thesis
    using init_limits_names [OF s1] init_flags_names [OF 2(1)] init_checkpoints_names [OF 2(2)]
      init_timers_names [OF 2(3)] sb_thread_init_names [OF 1] by simp
qed

lemma handler_init_names:
  "handler_init c m lh l = Some (l', rc) \<Longrightarrow> names (l_globals l') = names (l_globals l)"
  by (auto simp: handler_init_def text_handler_init_def oper_handler_init_def printf_def names_def Let_def
      split: log_handler.splits option.splits if_splits prod.splits)

lemma init_handlers_names:
  "init_handlers c m hs l = Some (l', rc) \<Longrightarrow> names (l_globals l') = names (l_globals l)"
  by (induction c m hs l rule: init_handlers.induct)
    (auto split: option.splits prod.splits if_splits dest: handler_init_names)

lemma log_init_names:
  "log_init c m l = Some (l', rc) \<Longrightarrow> names (l_globals l') = names (l_globals l)"
  by (auto simp: log_init_def split: option.splits prod.splits if_splits dest: init_handlers_names)

text \<open>The parts of the program's state the dispatch depends on.\<close>

definition course :: "('t, 'e) main_state \<Rightarrow> (string option \<times> string option) \<times> ('t, 'e) sb_test list \<times> bool" where
  "course s = (names (mglob s), s_tests s, s_released s)"

lemma course_upd [simp]:
  "course (upd_log f s) = (names (l_globals (f (p_log (mprog s)))), s_tests s, s_released s)"
  "course (upd_prog h s) = (names (glob (h (mprog s))), s_tests s, s_released s)"
  "course (upd_ev k s) = (names (vglob (k (mev s))), s_tests s, s_released s)"
  by (simp_all add: course_def upd_log_def upd_prog_def upd_ev_def)

lemma main_init_course:
  "main_init env s = Some (s', 0) \<Longrightarrow> course s' = course s"
  by (auto simp: main_init_def Let_def course_def upd_prog_def upd_ev_def
      split: init_result.splits dest!: init_names)

lemma register_tests_course:
  assumes "register_tests env s = (s', rc)"
  shows "names (mglob s') = names (mglob s) \<and> s_tests s' = m_tests env \<and> s_released s' = s_released s"
  using assms by (auto simp: register_tests_def upd_log_def upd_prog_def upd_ev_def Let_def split: prod.splits)

text \<open>What becomes of the state once everything is released.\<close>

lemma log_done_keeps_error: "l_globals (log_done l) = l_globals l" "l_opts (log_done l) = l_opts l"
proof -
  have "l_globals (fold handler_done hs l) = l_globals l \<and> l_opts (fold handler_done hs l) = l_opts l" for hs l
    by (induction hs arbitrary: l) (auto simp: handler_done_def oper_handler_done_def split: log_handler.splits)
  thus "l_globals (log_done l) = l_globals l" "l_opts (log_done l) = l_opts l" by (simp_all add: log_done_def)
qed

lemma main_end_released:
  "main_end rc s = Exits rc' s' \<Longrightarrow> rc' = rc \<and> r_started (s_run s') = r_started (s_run s) \<and>
     g_error (mglob s') = g_error (mglob s) \<and> mopts s' = [] \<and> sb_counters (p_counters (mprog s')) = None \<and>
     threads (s_threads s') = None"
  by (auto simp: main_end_def Let_def upd_log_def upd_prog_def upd_ev_def sb_counters_done_def
      free_options_def sb_thread_done_def log_done_keeps_error)

lemma unreleased:
  "print_help env s = s' \<Longrightarrow> s_released s' = s_released s"
  by (auto simp: print_help_def upd_log_def upd_prog_def upd_ev_def)

lemma main_test_run:
  assumes "main_test env s = Exits 0 s'" "s_released s'" "\<not> s_released s"
    and "names (mglob s) = (Some t, Some ''run'')" "t \<noteq> ''-''" "find_test t t_sname (s_tests s) = Some test"
    and "\<And>v. \<not> m_lua_loaded env v"
  shows "\<exists>renv s1 r. run_test renv (t_ops test) (s_run s1) = Run_returned 0 r \<and> main_end 0 (s1\<lparr>s_run := r\<rparr>) = Exits 0 s'"
proof -
  have c: "choose_test env s = (s, Inr (test, ''run''))"
    using assms(4-6) by (simp add: choose_test_def names_def)
  obtain opts argv rc where p: "parse_test_arguments (m_fs env) (mopts s) (t_args test) (s_argv s) = (opts, argv, rc)"
    by (metis prod_cases3)
  let ?s = "(upd_log (\<lambda>l. l\<lparr>l_opts := opts\<rparr>) (s\<lparr>s_current := Some test\<rparr>))\<lparr>s_argv := argv\<rparr>"
  have "dispatch env test ''run'' ?s = Exits 0 s'"
    using assms(1) p by (simp add: main_test_def c Let_def split: if_splits)
  hence run: "cmd_run env test ?s = Exits 0 s'"
    using assms(7) by (simp add: dispatch_def)
  let ?e = "(m_run_env env (s_seed ?s))\<lparr>e_init_timeout := word_of_int (s_init_timeout ?s)\<rparr>"
  obtain rc r where r: "run_test ?e (t_ops test) (s_run ?s) = Run_returned rc r"
    "main_end (if rc \<noteq> 0 then 1 else 0) (?s\<lparr>s_run := r\<rparr>) = Exits 0 s'"
    using run by (auto simp: cmd_run_def split: run_outcome.splits)
  have "0 = (if rc \<noteq> 0 then 1 else 0 :: int)"
    using main_end_released [OF r(2)] by blast
  hence "rc = 0" by (simp split: if_splits)
  with r have "run_test ?e (t_ops test) (s_run ?s) = Run_returned 0 r" "main_end 0 (?s\<lparr>s_run := r\<rparr>) = Exits 0 s'"
    by simp_all
  thus ?thesis by blast
qed

lemma general_names:
  assumes "parse_general_arguments fs opts args g = (opts', argv, g', 0)" "positional args = [t, c]"
  shows "names g' = (Some t, Some c)"
proof -
  obtain opts1 rest t' c' ok rc where g: "sb_register_arg_set fs opts general_args = (opts1, rc)"
    "general_loop fs opts1 None None args = (opts', rest, t', c', ok)" "ok" "g' = g\<lparr>g_testname := t', g_cmdname := c'\<rparr>"
    using assms(1) by (auto simp: parse_general_arguments_def Let_def split: prod.splits if_splits)
  from general_loop_spec [OF g(2)] g(3,4) assms(2) show ?thesis by (simp add: names_def)
qed

lemma main_test_zero:
  assumes "main_test env s = Exits 0 s'" "s_released s'" "\<not> s_released s"
    and "names (mglob s) = (Some t, Some ''run'')" "t \<noteq> ''-''" "find_test t t_sname (s_tests s) = Some test"
    and "\<And>v. \<not> m_lua_loaded env v"
  shows "g_error (mglob s') = 0 \<and> (\<exists>n. r_started (s_run s') = [0..<n]) \<and>
    mopts s' = [] \<and> sb_counters (p_counters (mprog s')) = None \<and> threads (s_threads s') = None \<and>
    (\<exists>renv r0 r. run_test renv (t_ops test) r0 = Run_returned 0 r \<and> r_started (s_run s') = r_started r)"
proof -
  obtain renv s5 r where run: "run_test renv (t_ops test) (s_run s5) = Run_returned 0 r"
    "main_end 0 (s5\<lparr>s_run := r\<rparr>) = Exits 0 s'"
    using main_test_run [OF assms] by blast
  note z = run_test_zero [OF run(1)] and e = main_end_released [OF run(2)]
  have "\<exists>renv r0 r. run_test renv (t_ops test) r0 = Run_returned 0 r \<and> r_started (s_run s') = r_started r"
    using run(1) e by (intro exI conjI) auto
  with z e show ?thesis by auto
qed


text \<open>The same from the command line on: \<open>sysbench [options] T run\<close>.\<close>

lemma sysbench_run_exit:
  assumes "sb_main env args s = Exits 0 s'" "s_released s'" "\<not> s_released s"
    and "positional args = [t, ''run'']" "t \<noteq> ''-''" "find_test t t_sname (m_tests env) = Some test"
    and "\<And>v. \<not> m_lua_loaded env v"
  shows "g_error (mglob s') = 0 \<and> (\<exists>n. r_started (s_run s') = [0..<n]) \<and>
    mopts s' = [] \<and> sb_counters (p_counters (mprog s')) = None \<and> threads (s_threads s') = None \<and>
    (\<exists>renv r0 r. run_test renv (t_ops test) r0 = Run_returned 0 r \<and> r_started (s_run s') = r_started r)"
proof -
  define s0 where "s0 = upd_log (log_register (m_fs env)) (upd_log (\<lambda>l. l\<lparr>l_opts := sb_options_init\<rparr>)
    (upd_ev (vset (\<lambda>g. g\<lparr>g_argc := int (length args) + 1, g_argv := None # map Some args\<rparr>)) s))"
  obtain s1 rc1 where r: "register_tests env s0 = (s1, rc1)" by (cases "register_tests env s0")
  obtain opts argv g rc2 where p: "parse_general_arguments (m_fs env) (mopts s1) args (mglob s1) = (opts, argv, g, rc2)"
    by (metis prod_cases4)
  define s2 where "s2 = (upd_log (\<lambda>l. l\<lparr>l_opts := opts, l_globals := g\<rparr>) s1)\<lparr>s_argv := argv\<rparr>"
  have rel: "\<not> s_released s2" "s_tests s2 = m_tests env"
    using register_tests_course [OF r] assms(3)
    by (simp_all add: s2_def s0_def upd_log_def upd_prog_def upd_ev_def)
  have m: "rc2 = 0 \<and> main_started env s2 = Exits 0 s'"
    using assms(1,2) rel(1) r p unfolding s0_def s2_def
    by (auto simp: sb_main_def Let_def print_help_def upd_log_def upd_prog_def upd_ev_def split: if_splits)
  have n: "names (mglob s2) = (Some t, Some ''run'')"
    using general_names [of "m_fs env" "mopts s1" args "mglob s1" opts argv g t "''run''"] p m assms(4)
    by (simp add: s2_def upd_log_def upd_prog_def upd_ev_def)
  obtain s3 where i: "main_init env s2 = Some (s3, 0)"
    using m by (auto simp: main_started_def Let_def split: option.splits prod.splits if_splits)
  obtain l c where l: "log_init (m_log_calloc_ok env) (m_log_malloc_ok env) (p_log (mprog s3)) = Some (l, 0)"
    and t: "main_test env (print_header env (upd_prog (\<lambda>p. p\<lparr>p_counters := c\<rparr>) (upd_log (\<lambda>_. l) s3))) = Exits 0 s'"
    using m i by (auto simp: main_started_def Let_def split: option.splits prod.splits if_splits)
  let ?s4 = "print_header env (upd_prog (\<lambda>p. p\<lparr>p_counters := c\<rparr>) (upd_log (\<lambda>_. l) s3))"
  have c4: "course ?s4 = course s2"
    using main_init_course [OF i] log_init_names [OF l]
    by (simp add: print_header_def course_def upd_log_def upd_prog_def upd_ev_def)
  show ?thesis
    using main_test_zero [OF t assms(2) _ _ assms(5) _ assms(7), of test] c4 n rel assms(6)
    by (auto simp: course_def)
qed

definition sample_test :: "(unit, unit) sb_test" where
  "sample_test = \<lparr>t_sname = ''cpu'', t_lname = ''CPU performance test'', t_ops = sample_ops, t_help = None,
     t_prepare = None, t_run = None, t_cleanup = None, t_args = None\<rparr>"

definition sample_main_env :: "(unit, unit) main_env" where
  "sample_main_env = \<lparr>m_fs = \<lambda>_. None, m_strtod = \<lambda>_. 0, m_random = [], m_thread_malloc_ok = True,
     m_timers_ok = True, m_log_calloc_ok = True, m_log_malloc_ok = True, m_counters_ok = True,
     m_isatty = False, m_version = ''sysbench'', m_tests = [sample_test], m_register_rc = 0,
     m_register_db = \<lambda>opts. (opts, 0), m_db_help = id, m_load_lua = \<lambda>_ s. (s, None),
     m_lua_loaded = \<lambda>_. False, m_custom_command = \<lambda>_. None, m_run_env = \<lambda>_. sample_env\<rparr>"

definition named :: "sb_globals \<Rightarrow> sb_globals" where
  "named g = g\<lparr>g_testname := Some ''cpu'', g_cmdname := Some ''run''\<rparr>"

definition sample_main :: "(unit, unit) main_state" where
  "sample_main = \<lparr>s_run = sample_run named, s_threads = \<lparr>threads = None, thread_stack_size = 0\<rparr>,
     s_tests = [sample_test], s_current = None, s_argv = [Some ''cpu'', Some ''run''], s_init_timeout = 30,
     s_seed = 7, s_released = False\<rparr>"


end
