(* ===== verification/DbDriver.thy ===== *)
theory DbDriver
  imports RunTest
begin

text \<open>
  The database layer (\<open>db_driver.c\<close>, \<open>db_driver.h\<close>): the registry of drivers, connections and
  their states, statements, result sets, multi-row inserts, and the reports with SQL
  statistics.  A driver is a record of functions over data of its own, as the operation table
  \<open>drv_ops_t\<close> is: what a database does is an argument of every operation.
\<close>

section \<open>Types\<close>

datatype db_ps_mode_t = DB_PS_MODE_AUTO | DB_PS_MODE_DISABLE

record drv_caps_t =
  multi_rows_insert :: bool
  prepared_statements :: bool
  auto_increment :: bool
  needs_commit :: bool
  serial_clause :: bool
  unsigned_int :: bool

datatype db_error_t = DB_ERROR_NONE | DB_ERROR_IGNORABLE | DB_ERROR_FATAL

datatype db_conn_state_t = DB_CONN_READY | DB_CONN_RESULT_SET | DB_CONN_INVALID

text \<open>A result set; \<open>rs_values\<close> is the array of column values of the last row, \<open>None\<close> for NULL,
  and \<open>rs_statement\<close> names the prepared statement.\<close>

record db_result_t =
  rs_counter :: sb_counter_type_t
  rs_nrows :: u32
  rs_nfields :: u32
  rs_statement :: "nat option"
  rs_values :: "string option list option"

text \<open>A connection; \<open>cn_ptr\<close> stands for everything the driver keeps, the database included.  The
  bulk buffer is the list of its bytes.\<close>

record 'd db_conn_t =
  cn_error :: db_error_t
  cn_ptr :: 'd
  cn_rs :: db_result_t
  cn_state :: db_conn_state_t
  cn_thread_id :: nat
  bulk_cnt :: u32
  bulk_buflen :: u32
  bulk_buffer :: "string option"
  bulk_ptr :: u32
  bulk_values :: u32
  bulk_commit_cnt :: u32
  bulk_commit_max :: u32

datatype db_bind_type_t =
    DB_TYPE_NONE | DB_TYPE_TINYINT | DB_TYPE_SMALLINT | DB_TYPE_INT | DB_TYPE_BIGINT | DB_TYPE_FLOAT
  | DB_TYPE_DOUBLE | DB_TYPE_TIME | DB_TYPE_DATE | DB_TYPE_DATETIME | DB_TYPE_TIMESTAMP | DB_TYPE_CHAR
  | DB_TYPE_VARCHAR

text \<open>A bound value; \<open>Bind_null\<close> has the flag \<open>is_null\<close> set.\<close>

datatype db_bind_value =
    Bind_null db_bind_type_t
  | Bind_tinyint "8 word" | Bind_smallint "16 word" | Bind_int "32 word" | Bind_bigint "64 word"
  | Bind_float real | Bind_double real | Bind_char string | Bind_varchar string
  | Bind_date u32 u32 u32 | Bind_time u32 u32 u32
  | Bind_datetime u32 u32 u32 u32 u32 u32 | Bind_timestamp u32 u32 u32 u32 u32 u32
  | Bind_none

definition bind_type :: "db_bind_value \<Rightarrow> db_bind_type_t" where
  "bind_type v = (case v of
     Bind_null t \<Rightarrow> t
   | Bind_tinyint _ \<Rightarrow> DB_TYPE_TINYINT | Bind_smallint _ \<Rightarrow> DB_TYPE_SMALLINT | Bind_int _ \<Rightarrow> DB_TYPE_INT
   | Bind_bigint _ \<Rightarrow> DB_TYPE_BIGINT | Bind_float _ \<Rightarrow> DB_TYPE_FLOAT | Bind_double _ \<Rightarrow> DB_TYPE_DOUBLE
   | Bind_char _ \<Rightarrow> DB_TYPE_CHAR | Bind_varchar _ \<Rightarrow> DB_TYPE_VARCHAR
   | Bind_date _ _ _ \<Rightarrow> DB_TYPE_DATE | Bind_time _ _ _ \<Rightarrow> DB_TYPE_TIME
   | Bind_datetime _ _ _ _ _ _ \<Rightarrow> DB_TYPE_DATETIME | Bind_timestamp _ _ _ _ _ _ \<Rightarrow> DB_TYPE_TIMESTAMP
   | Bind_none \<Rightarrow> DB_TYPE_NONE)"

record db_stmt_t =
  sm_id :: nat
  sm_query :: "string option"
  sm_bound_param :: "db_bind_value list option"

text \<open>The operations of a driver.  An operation gets the connection and gives it back with a
  result; the ones the layer tests for NULL are options.\<close>

record 'd drv_ops_t =
  drv_init :: "nat \<Rightarrow> int"
  drv_thread_init :: "(nat \<Rightarrow> int) option"
  drv_describe :: "(drv_caps_t \<times> int) option"
  drv_connect :: "'d db_conn_t \<Rightarrow> 'd db_conn_t \<times> int"
  drv_disconnect :: "'d db_conn_t \<Rightarrow> 'd db_conn_t \<times> int"
  drv_reconnect :: "('d db_conn_t \<Rightarrow> 'd db_conn_t \<times> db_error_t) option"
  drv_prepare :: "db_stmt_t \<Rightarrow> string \<Rightarrow> u64 \<Rightarrow> 'd db_conn_t \<Rightarrow> 'd db_conn_t \<times> db_stmt_t \<times> int"
  drv_bind_param :: "db_stmt_t \<Rightarrow> db_bind_value list \<Rightarrow> 'd db_conn_t \<Rightarrow> 'd db_conn_t \<times> db_stmt_t \<times> int"
  drv_bind_result :: "db_stmt_t \<Rightarrow> db_bind_value list \<Rightarrow> 'd db_conn_t \<Rightarrow> 'd db_conn_t \<times> db_stmt_t \<times> int"
  drv_execute :: "db_stmt_t \<Rightarrow> 'd db_conn_t \<Rightarrow> 'd db_conn_t \<times> db_error_t"
  drv_stmt_next_result :: "(db_stmt_t \<Rightarrow> 'd db_conn_t \<Rightarrow> 'd db_conn_t \<times> db_error_t) option"
  drv_fetch_row :: "('d db_conn_t \<Rightarrow> 'd db_conn_t \<times> int) option"
  drv_free_results :: "'d db_conn_t \<Rightarrow> 'd db_conn_t \<times> int"
  drv_more_results :: "('d db_conn_t \<Rightarrow> 'd db_conn_t \<times> bool) option"
  drv_next_result :: "('d db_conn_t \<Rightarrow> 'd db_conn_t \<times> db_error_t) option"
  drv_close :: "db_stmt_t \<Rightarrow> 'd db_conn_t \<Rightarrow> 'd db_conn_t \<times> int"
  drv_query :: "string \<Rightarrow> u64 \<Rightarrow> 'd db_conn_t \<Rightarrow> 'd db_conn_t \<times> db_error_t"
  drv_thread_done :: "(nat \<Rightarrow> int) option"

record 'd db_driver_t =
  dr_sname :: string
  dr_lname :: string
  dr_args :: "sb_arg list option"
  dr_ops :: "'d drv_ops_t"
  dr_initialized :: bool

text \<open>What an operation on a connection works on: the connection and the program.\<close>

record 'd db_sys =
  y_con :: "'d db_conn_t"
  y_prog :: prog

definition on_con :: "('d db_conn_t \<Rightarrow> 'd db_conn_t) \<Rightarrow> 'd db_sys \<Rightarrow> 'd db_sys" where
  "on_con f s = s\<lparr>y_con := f (y_con s)\<rparr>"

definition alert :: "string \<Rightarrow> 'd db_sys \<Rightarrow> 'd db_sys" where
  "alert t s = s\<lparr>y_prog := say LOG_ALERT t (y_prog s)\<rparr>"

definition fatal :: "string \<Rightarrow> 'd db_sys \<Rightarrow> 'd db_sys" where
  "fatal t s = s\<lparr>y_prog := say LOG_FATAL t (y_prog s)\<rparr>"

definition count_inc :: "sb_counter_type_t \<Rightarrow> 'd db_sys \<Rightarrow> 'd db_sys" where
  "count_inc c s = s\<lparr>y_prog := (y_prog s)\<lparr>p_counters := (p_counters (y_prog s))
     \<lparr>sb_counters := map_option (sb_counter_inc (cn_thread_id (y_con s)) c) (sb_counters (p_counters (y_prog s)))\<rparr>\<rparr>\<rparr>"

text \<open>The driver's part of an operation.\<close>

definition call_drv :: "('d db_conn_t \<Rightarrow> 'd db_conn_t \<times> 'r) \<Rightarrow> 'd db_sys \<Rightarrow> 'd db_sys \<times> 'r" where
  "call_drv f s = (let (c, r) = f (y_con s) in (s\<lparr>y_con := c\<rparr>, r))"

abbreviation closed_msg :: string where
  "closed_msg \<equiv> ''attempt to use an already closed connection''"

abbreviation close_msg :: string where
  "close_msg \<equiv> ''attempt to close an already closed connection''"

section \<open>Connections\<close>

definition empty_result :: db_result_t where
  "empty_result = \<lparr>rs_counter = SB_CNT_OTHER, rs_nrows = 0, rs_nfields = 0, rs_statement = None, rs_values = None\<rparr>"

text \<open>A connection as \<open>calloc\<close> leaves it; \<open>d\<close> is the driver's data.\<close>

definition zero_conn :: "'d \<Rightarrow> 'd db_conn_t" where
  "zero_conn d = \<lparr>cn_error = DB_ERROR_NONE, cn_ptr = d, cn_rs = empty_result, cn_state = DB_CONN_READY,
     cn_thread_id = 0, bulk_cnt = 0, bulk_buflen = 0, bulk_buffer = None, bulk_ptr = 0, bulk_values = 0,
     bulk_commit_cnt = 0, bulk_commit_max = 0\<rparr>"

definition db_connection_create :: "'d drv_ops_t \<Rightarrow> bool \<Rightarrow> nat \<Rightarrow> 'd \<Rightarrow> 'd db_conn_t option" where
  "db_connection_create ops calloc_ok wid d =
     (if \<not> calloc_ok then None
      else
        let con = (zero_conn d)\<lparr>cn_state := DB_CONN_READY, cn_thread_id := wid\<rparr>;
            (con, rc) = drv_connect ops con
        in if rc \<noteq> 0 then None else Some con)"

definition db_free_results_int :: "'d drv_ops_t \<Rightarrow> 'd db_sys \<Rightarrow> 'd db_sys \<times> int" where
  "db_free_results_int ops s =
     (let (s, rc) = call_drv (drv_free_results ops) s
      in (on_con (\<lambda>c. c\<lparr>cn_rs := (cn_rs c)\<lparr>rs_values := None, rs_nrows := 0, rs_nfields := 0, rs_statement := None\<rparr>,
            cn_state := DB_CONN_READY\<rparr>) s, rc))"

definition db_connection_close :: "'d drv_ops_t \<Rightarrow> 'd db_sys \<Rightarrow> 'd db_sys \<times> int" where
  "db_connection_close ops s =
     (if cn_state (y_con s) = DB_CONN_INVALID then (alert close_msg s, 0)
      else
        let s = (if cn_state (y_con s) = DB_CONN_RESULT_SET then fst (db_free_results_int ops s) else s);
            (s, rc) = call_drv (drv_disconnect ops) s
        in (on_con (\<lambda>c. c\<lparr>cn_state := DB_CONN_INVALID\<rparr>) s, rc))"

text \<open>\<open>rc\<close> is 0 for \<open>DB_ERROR_NONE\<close> and 2 for \<open>DB_ERROR_FATAL\<close>.\<close>

definition db_connection_reconnect :: "'d drv_ops_t \<Rightarrow> 'd db_sys \<Rightarrow> 'd db_sys \<times> int" where
  "db_connection_reconnect ops s =
     (case drv_reconnect ops of
        None \<Rightarrow> (alert ''reconnect is not supported by the current driver'' s, 0)
      | Some reconnect \<Rightarrow>
          if cn_state (y_con s) = DB_CONN_INVALID then (alert close_msg s, 0)
          else
            let s = (if cn_state (y_con s) = DB_CONN_RESULT_SET then fst (db_free_results_int ops s) else s);
                (s, rc) = call_drv reconnect s
            in if rc = DB_ERROR_FATAL
               then (count_inc SB_CNT_ERROR (on_con (\<lambda>c. c\<lparr>cn_state := DB_CONN_INVALID\<rparr>) s), 2)
               else (count_inc SB_CNT_RECONNECT (on_con (\<lambda>c. c\<lparr>cn_state := DB_CONN_READY\<rparr>) s), 0))"

text \<open>\<open>db_connection_free\<close>: what is left of the program; the connection is gone.\<close>

definition db_connection_free :: "'d drv_ops_t \<Rightarrow> 'd db_sys \<Rightarrow> prog" where
  "db_connection_free ops s =
     y_prog (if cn_state (y_con s) \<noteq> DB_CONN_INVALID then fst (db_connection_close ops s) else s)"

section \<open>Statements and queries\<close>

text \<open>What every operation on an open connection does first: \<open>None\<close> when the connection is
  closed, else the state with the pending result set freed and the result of that.\<close>

definition free_pending :: "'d drv_ops_t \<Rightarrow> 'd db_sys \<Rightarrow> 'd db_sys \<times> int" where
  "free_pending ops s =
     (if cn_state (y_con s) = DB_CONN_RESULT_SET then db_free_results_int ops s else (s, 0))"

definition db_prepare :: "'d drv_ops_t \<Rightarrow> bool \<Rightarrow> nat \<Rightarrow> string \<Rightarrow> u64 \<Rightarrow> 'd db_sys \<Rightarrow> 'd db_sys \<times> db_stmt_t option" where
  "db_prepare ops calloc_ok i query len s =
     (if cn_state (y_con s) = DB_CONN_INVALID then (alert closed_msg s, None)
      else if \<not> calloc_ok then (s, None)
      else
        let stmt = \<lparr>sm_id = i, sm_query = None, sm_bound_param = None\<rparr>;
            (c, stmt, rc) = drv_prepare ops stmt query len (y_con s);
            s = s\<lparr>y_con := c\<rparr>
        in if rc \<noteq> 0 then (on_con (\<lambda>c. c\<lparr>cn_error := DB_ERROR_FATAL\<rparr>) s, None) else (s, Some stmt))"

definition db_bind_with ::
  "(db_stmt_t \<Rightarrow> db_bind_value list \<Rightarrow> 'd db_conn_t \<Rightarrow> 'd db_conn_t \<times> db_stmt_t \<times> int) \<Rightarrow>
     db_stmt_t \<Rightarrow> db_bind_value list \<Rightarrow> 'd db_sys \<Rightarrow> 'd db_sys \<times> db_stmt_t \<times> int" where
  "db_bind_with bind stmt params s =
     (if cn_state (y_con s) = DB_CONN_INVALID then (alert closed_msg s, stmt, 1)
      else (let (c, stmt, rc) = bind stmt params (y_con s) in (s\<lparr>y_con := c\<rparr>, stmt, rc)))"

definition db_bind_param ::
  "'d drv_ops_t \<Rightarrow> db_stmt_t \<Rightarrow> db_bind_value list \<Rightarrow> 'd db_sys \<Rightarrow> 'd db_sys \<times> db_stmt_t \<times> int" where
  "db_bind_param ops = db_bind_with (drv_bind_param ops)"

definition db_bind_result ::
  "'d drv_ops_t \<Rightarrow> db_stmt_t \<Rightarrow> db_bind_value list \<Rightarrow> 'd db_sys \<Rightarrow> 'd db_sys \<times> db_stmt_t \<times> int" where
  "db_bind_result ops = db_bind_with (drv_bind_result ops)"

text \<open>The end of every operation that asks the driver for a result: the error, the counter, the new
  state, and whether a result set is returned.\<close>

definition finish_call :: "('d db_conn_t \<Rightarrow> 'd db_conn_t \<times> db_error_t) \<Rightarrow> 'd db_sys \<Rightarrow> 'd db_sys \<times> bool" where
  "finish_call f s =
     (let (s, e) = call_drv f s;
          s = on_con (\<lambda>c. c\<lparr>cn_error := e\<rparr>) s;
          counter = rs_counter (cn_rs (y_con s));
          s = count_inc counter s
      in if e = DB_ERROR_NONE then
           if counter = SB_CNT_READ
           then (on_con (\<lambda>c. c\<lparr>cn_state := DB_CONN_RESULT_SET\<rparr>) s, True)
           else (on_con (\<lambda>c. c\<lparr>cn_state := DB_CONN_READY\<rparr>) s, False)
         else (s, False))"

definition set_statement :: "nat \<Rightarrow> 'd db_sys \<Rightarrow> 'd db_sys" where
  "set_statement i s = on_con (\<lambda>c. c\<lparr>cn_rs := (cn_rs c)\<lparr>rs_statement := Some i\<rparr>\<rparr>) s"

definition db_execute :: "'d drv_ops_t \<Rightarrow> db_stmt_t \<Rightarrow> 'd db_sys \<Rightarrow> 'd db_sys \<times> bool" where
  "db_execute ops stmt s =
     (if cn_state (y_con s) = DB_CONN_INVALID then (alert closed_msg s, False)
      else
        let (s, rc) = free_pending ops s
        in if rc \<noteq> 0 then (s, False)
           else finish_call (drv_execute ops stmt) (set_statement (sm_id stmt) s))"

definition db_stmt_next_result :: "'d drv_ops_t \<Rightarrow> db_stmt_t \<Rightarrow> 'd db_sys \<Rightarrow> 'd db_sys \<times> bool" where
  "db_stmt_next_result ops stmt s =
     (if cn_state (y_con s) = DB_CONN_INVALID then (alert closed_msg s, False)
      else
        let (s, rc) = free_pending ops s
        in if rc \<noteq> 0 then (s, False)
           else
             let s = set_statement (sm_id stmt) s
             in case drv_stmt_next_result ops of
                  None \<Rightarrow> (on_con (\<lambda>c. c\<lparr>cn_error := DB_ERROR_NONE\<rparr>) s, False)
                | Some f \<Rightarrow> finish_call (f stmt) s)"

definition db_query :: "'d drv_ops_t \<Rightarrow> string \<Rightarrow> u64 \<Rightarrow> 'd db_sys \<Rightarrow> 'd db_sys \<times> bool" where
  "db_query ops query len s =
     (if cn_state (y_con s) = DB_CONN_INVALID
      then (on_con (\<lambda>c. c\<lparr>cn_error := DB_ERROR_FATAL\<rparr>) (alert closed_msg s), False)
      else
        let (s, rc) = free_pending ops s
        in if rc \<noteq> 0 then (on_con (\<lambda>c. c\<lparr>cn_error := DB_ERROR_FATAL\<rparr>) s, False)
           else finish_call (drv_query ops query len) s)"

definition db_more_results :: "'d drv_ops_t \<Rightarrow> 'd db_sys \<Rightarrow> 'd db_sys \<times> bool" where
  "db_more_results ops s =
     (if cn_state (y_con s) = DB_CONN_INVALID then (alert closed_msg s, False)
      else if cn_state (y_con s) \<noteq> DB_CONN_RESULT_SET then (s, False)
      else case drv_more_results ops of None \<Rightarrow> (s, False) | Some f \<Rightarrow> call_drv f s)"

definition db_next_result :: "'d drv_ops_t \<Rightarrow> 'd db_sys \<Rightarrow> 'd db_sys \<times> bool" where
  "db_next_result ops s =
     (if cn_state (y_con s) = DB_CONN_INVALID
      then (on_con (\<lambda>c. c\<lparr>cn_error := DB_ERROR_FATAL\<rparr>) (alert closed_msg s), False)
      else
        let (s, rc) = free_pending ops s
        in if rc \<noteq> 0 then (on_con (\<lambda>c. c\<lparr>cn_error := DB_ERROR_FATAL\<rparr>) s, False)
           else case drv_next_result ops of
                  None \<Rightarrow> (on_con (\<lambda>c. c\<lparr>cn_error := DB_ERROR_NONE\<rparr>) s, False)
                | Some f \<Rightarrow> finish_call f s)"

text \<open>\<open>db_fetch_row\<close>: after reporting that the driver has no \<open>fetch_row\<close> it is called all the same.\<close>

datatype fetch_result = Row | No_row | Null_call

definition db_fetch_row :: "'d drv_ops_t \<Rightarrow> 'd db_sys \<Rightarrow> 'd db_sys \<times> fetch_result" where
  "db_fetch_row ops s =
     (if cn_state (y_con s) = DB_CONN_INVALID then (alert closed_msg s, No_row)
      else if cn_state (y_con s) \<noteq> DB_CONN_RESULT_SET
      then (alert ''attempt to fetch row from an invalid result set'' s, No_row)
      else
        let s = (if drv_fetch_row ops = None then alert ''fetching rows is not supported by the driver'' s else s);
            rs = cn_rs (y_con s)
        in if rs_nrows rs = 0 \<or> rs_nfields rs = 0
           then (alert ''attempt to fetch row from an empty result set'' s, No_row)
           else
             let s = (if rs_values rs = None
                      then on_con (\<lambda>c. c\<lparr>cn_rs := rs\<lparr>rs_values := Some (replicate (unat (rs_nfields rs)) None)\<rparr>\<rparr>) s
                      else s)
             in case drv_fetch_row ops of
                  None \<Rightarrow> (s, Null_call)
                | Some f \<Rightarrow> (let (s, rc) = call_drv f s in (s, if rc \<noteq> 0 then No_row else Row)))"

definition db_free_results :: "'d drv_ops_t \<Rightarrow> 'd db_sys \<Rightarrow> 'd db_sys \<times> int" where
  "db_free_results ops s =
     (if cn_state (y_con s) = DB_CONN_INVALID then (alert closed_msg s, 1)
      else if cn_state (y_con s) \<noteq> DB_CONN_RESULT_SET
      then (alert ''attempt to free an invalid result set'' s, 1)
      else db_free_results_int ops s)"

text \<open>\<open>db_close\<close>; the second pair of tests repeats the first.\<close>

definition db_close :: "'d drv_ops_t \<Rightarrow> db_stmt_t \<Rightarrow> 'd db_sys \<Rightarrow> 'd db_sys \<times> int" where
  "db_close ops stmt s =
     (if cn_state (y_con s) = DB_CONN_INVALID then (alert closed_msg s, 0)
      else
        let (s, rc) = free_pending ops s
        in if rc \<noteq> 0 then (s, 2)
           else if cn_state (y_con s) = DB_CONN_INVALID then (alert closed_msg s, 0)
           else if cn_state (y_con s) = DB_CONN_RESULT_SET \<and> rs_statement (cn_rs (y_con s)) = Some (sm_id stmt)
           then
             let (s, rc) = db_free_results_int ops s
             in if rc \<noteq> 0 then (s, 0) else call_drv (drv_close ops stmt) s
           else call_drv (drv_close ops stmt) s)"

section \<open>Multi-row inserts\<close>

definition BULK_PACKET_SIZE :: nat where "BULK_PACKET_SIZE = 512 * 1024"
definition ROWS_BEFORE_COMMIT :: nat where "ROWS_BEFORE_COMMIT = 1000"

text \<open>\<open>strcpy\<close> of a string to a position of the buffer: \<open>None\<close> when a byte, the NUL included, lies
  outside.\<close>

definition strcpy_at :: "nat \<Rightarrow> string \<Rightarrow> string \<Rightarrow> string option" where
  "strcpy_at i t buf =
     (if i + length t + 1 \<le> length buf then Some (take i buf @ t @ CHR 0x00 # drop (i + length t + 1) buf)
      else None)"

definition db_describe :: "'d drv_ops_t \<Rightarrow> drv_caps_t option" where
  "db_describe ops = (case drv_describe ops of
     None \<Rightarrow> None
   | Some (caps, rc) \<Rightarrow> if rc \<noteq> 0 then None else Some caps)"

text \<open>The outcome of the bulk operations is \<open>None\<close> when they write outside the buffer.  \<open>fresh\<close> is
  what \<open>malloc\<close> gives: the bytes found in the new buffer, or NULL.\<close>

definition db_bulk_insert_init ::
  "'d drv_ops_t \<Rightarrow> string option \<Rightarrow> string \<Rightarrow> u64 \<Rightarrow> 'd db_sys \<Rightarrow> ('d db_sys \<times> int) option" where
  "db_bulk_insert_init ops fresh query query_len s =
     (if cn_state (y_con s) = DB_CONN_INVALID then Some (alert closed_msg s, 0)
      else
        let (s, rc) = free_pending ops s
        in if rc \<noteq> 0 then Some (s, 0)
           else case db_describe ops of
             None \<Rightarrow> Some (fatal ''failed to get database capabilities!'' s, 1)
           | Some caps \<Rightarrow>
               if query_len + 1 > of_nat BULK_PACKET_SIZE
               then Some (fatal ''Query length exceeds the maximum value, aborting'' s, 1)
               else
                 let s = on_con (\<lambda>c. c\<lparr>bulk_buflen := of_nat BULK_PACKET_SIZE, bulk_buffer := fresh\<rparr>) s
                 in case fresh of
                      None \<Rightarrow> Some (s, 1)
                    | Some bytes \<Rightarrow>
                        (case strcpy_at 0 query bytes of
                           None \<Rightarrow> None
                         | Some buf \<Rightarrow>
                             Some (on_con (\<lambda>c. c\<lparr>bulk_commit_max := (if needs_commit caps then of_nat ROWS_BEFORE_COMMIT else 0),
                                     bulk_commit_cnt := 0, bulk_buffer := Some buf, bulk_ptr := ucast query_len,
                                     bulk_values := ucast query_len, bulk_cnt := 0\<rparr>) s, 0)))"

definition buffer_text :: "'d db_conn_t \<Rightarrow> string" where
  "buffer_text c = (case bulk_buffer c of None \<Rightarrow> [] | Some b \<Rightarrow> take (unat (bulk_ptr c)) b)"

definition db_bulk_do_insert :: "'d drv_ops_t \<Rightarrow> bool \<Rightarrow> 'd db_sys \<Rightarrow> 'd db_sys \<times> int" where
  "db_bulk_do_insert ops is_last s =
     (if bulk_cnt (y_con s) = 0 then (s, 0)
      else
        let (s, res) = db_query ops (buffer_text (y_con s)) (ucast (bulk_ptr (y_con s))) s
        in if \<not> res \<and> cn_error (y_con s) \<noteq> DB_ERROR_NONE then (s, 1)
           else
             let finish = (\<lambda>s. (on_con (\<lambda>c. c\<lparr>bulk_ptr := bulk_values c, bulk_cnt := 0\<rparr>) s, 0))
             in if bulk_commit_max (y_con s) \<noteq> 0 then
                  let s = on_con (\<lambda>c. c\<lparr>bulk_commit_cnt := bulk_commit_cnt c + bulk_cnt c\<rparr>) s
                  in if is_last \<or> bulk_commit_cnt (y_con s) \<ge> bulk_commit_max (y_con s) then
                       let (s, res) = db_query ops ''COMMIT'' 6 s
                       in if \<not> res \<and> cn_error (y_con s) \<noteq> DB_ERROR_NONE then (s, 1)
                          else finish (on_con (\<lambda>c. c\<lparr>bulk_commit_cnt := 0\<rparr>) s)
                     else finish s
                else finish s)"

text \<open>The part of \<open>db_bulk_insert_next\<close> that stores the row.\<close>

definition bulk_store :: "string \<Rightarrow> u64 \<Rightarrow> 'd db_sys \<Rightarrow> ('d db_sys \<times> int) option" where
  "bulk_store query query_len s =
     (let c = y_con s;
          p = unat (bulk_ptr c);
          buf = (case bulk_buffer c of None \<Rightarrow> [] | Some b \<Rightarrow> b);
          copied = (if bulk_cnt c > 0
                    then if p < length buf then strcpy_at (p + 1) query (buf[p := CHR '','']) else None
                    else strcpy_at p query buf)
      in case copied of
           None \<Rightarrow> None
         | Some buf \<Rightarrow>
             Some (s\<lparr>y_con := c\<lparr>bulk_buffer := Some buf,
                       bulk_ptr := bulk_ptr c + ucast (query_len + (if bulk_cnt c > 0 then 1 else 0)),
                       bulk_cnt := bulk_cnt c + 1\<rparr>\<rparr>, 0))"

definition db_bulk_insert_next ::
  "'d drv_ops_t \<Rightarrow> string \<Rightarrow> u64 \<Rightarrow> 'd db_sys \<Rightarrow> ('d db_sys \<times> int) option" where
  "db_bulk_insert_next ops query query_len s =
     (if cn_state (y_con s) = DB_CONN_INVALID then Some (alert closed_msg s, 0)
      else
        let (s, rc) = free_pending ops s
        in if rc \<noteq> 0 then Some (s, 0)
           else if bulk_buffer (y_con s) = None
           then Some (alert ''attempt to call bulk_insert_next() before bulk_insert_init()'' s, 1)
           else if ucast (bulk_ptr (y_con s)) + query_len + 1 + (if bulk_cnt (y_con s) > 0 then 1 else 0)
                   > (ucast (bulk_buflen (y_con s)) :: u64) then
             (if bulk_cnt (y_con s) = 0
              then Some (fatal ''Query length exceeds the maximum value, aborting'' s, 1)
              else
                let (s, rc) = db_bulk_do_insert ops False s
                in if rc \<noteq> 0 then Some (s, 1) else bulk_store query query_len s)
           else bulk_store query query_len s)"

definition db_bulk_insert_done :: "'d drv_ops_t \<Rightarrow> 'd db_sys \<Rightarrow> 'd db_sys \<times> int" where
  "db_bulk_insert_done ops s =
     (let (s, rc) = db_bulk_do_insert ops True s
      in if rc \<noteq> 0 then (s, 1)
         else (on_con (\<lambda>c. c\<lparr>bulk_buffer := None\<rparr>) s, 0))"

section \<open>The registry of drivers\<close>

text \<open>The globals of the layer: the drivers, whether \<open>db_init\<close> has run (\<open>pthread_once\<close>) and
  succeeded, the statistics flag, the options and the timers of the debug mode.\<close>

record 'd db_api =
  a_drivers :: "'d db_driver_t list"
  a_once :: bool
  a_initialized :: bool
  a_stats :: bool
  a_ps_mode :: db_ps_mode_t
  a_driver :: "string option"
  a_debug :: bool
  a_exec_timers :: "sb_timer list option"
  a_fetch_timers :: "sb_timer list option"

definition db_args :: "string option \<Rightarrow> sb_arg list" where
  "db_args default_driver =
     [SB_OPT ''db-driver'' ''specifies database driver to use ('help' to get list of available drivers)''
        default_driver SB_ARG_TYPE_STRING,
      SB_OPT ''db-ps-mode'' ''prepared statements usage mode {auto, disable}'' (Some ''auto'') SB_ARG_TYPE_STRING,
      SB_OPT ''db-debug'' ''print database-specific debug information'' (Some ''off'') SB_ARG_TYPE_BOOL]"

definition db_register ::
  "file_system \<Rightarrow> string option \<Rightarrow> 'd db_driver_t list \<Rightarrow> 'd db_api \<Rightarrow> options \<Rightarrow> 'd db_api \<times> options \<times> int" where
  "db_register fs default_driver compiled a opts =
     (let opts = fold (\<lambda>d opts. case dr_args d of None \<Rightarrow> opts | Some as \<Rightarrow> fst (sb_register_arg_set fs opts as))
                   compiled opts;
          a = a\<lparr>a_drivers := map (\<lambda>d. d\<lparr>dr_initialized := False\<rparr>) compiled\<rparr>;
          opts = fst (sb_register_arg_set fs opts (db_args default_driver))
      in (a, opts, 0))"

text \<open>\<open>db_parse_arguments\<close>: \<open>None\<close> when \<open>strcmp\<close> gets the NULL of a missing option.\<close>

definition db_parse_arguments :: "'d db_api \<Rightarrow> prog \<Rightarrow> ('d db_api \<times> prog \<times> int) option" where
  "db_parse_arguments a p =
     (let opts = l_opts (p_log p)
      in case sb_get_value_string opts ''db-ps-mode'' of
           None \<Rightarrow> None
         | Some m \<Rightarrow>
             (let rest = (\<lambda>a. Some (a\<lparr>a_driver := sb_get_value_string opts ''db-driver'',
                                   a_debug := sb_get_value_flag opts ''db-debug''\<rparr>, p, 0))
              in if m = ''auto'' then rest (a\<lparr>a_ps_mode := DB_PS_MODE_AUTO\<rparr>)
                 else if m = ''disable'' then rest (a\<lparr>a_ps_mode := DB_PS_MODE_DISABLE\<rparr>)
                 else Some (a, say LOG_FATAL (''Invalid value for db-ps-mode: '' @ m) p, 1)))"

definition db_reset_stats :: "timespec \<Rightarrow> 'd db_api \<Rightarrow> prog \<Rightarrow> 'd db_api \<times> prog" where
  "db_reset_stats now a p =
     (let p = p\<lparr>p_intermediate_timer := fst (sb_timer_current now (p_intermediate_timer p))\<rparr>;
          reset = (\<lambda>ts. fold (\<lambda>i ts. ts[i := sb_timer_init (ts ! i)]) [0..<nthreads p] ts);
          a = (if a_debug a
               then a\<lparr>a_exec_timers := map_option reset (a_exec_timers a),
                      a_fetch_timers := map_option reset (a_fetch_timers a)\<rparr> else a)
      in (a, p))"

definition enable_print_stats :: "'d db_api \<Rightarrow> 'd db_api" where
  "enable_print_stats a = a\<lparr>a_stats := True\<rparr>"

definition disable_print_stats :: "'d db_api \<Rightarrow> 'd db_api" where
  "disable_print_stats a = a\<lparr>a_stats := False\<rparr>"

definition check_print_stats :: "'d db_api \<Rightarrow> bool" where
  "check_print_stats a = a_stats a"

definition db_init :: "timespec \<Rightarrow> 'd db_api \<Rightarrow> prog \<Rightarrow> ('d db_api \<times> prog) option" where
  "db_init now a p =
     (if a_drivers a = [] then Some (a, say LOG_FATAL ''No DB drivers available'' p)
      else case db_parse_arguments a p of
        None \<Rightarrow> None
      | Some (a, p, rc) \<Rightarrow>
          if rc \<noteq> 0 then Some (a, p)
          else
            let zeroed = Some (replicate (unat (g_threads (glob p) + 1)) zero_timer);
                a = (if a_debug a then a\<lparr>a_exec_timers := zeroed, a_fetch_timers := zeroed\<rparr> else a);
                (a, p) = db_reset_stats now a p;
                a = enable_print_stats a
            in Some (a\<lparr>a_initialized := True\<rparr>, p))"

text \<open>The choice of a driver: its position in the list.\<close>

fun find_driver :: "string \<Rightarrow> 'd db_driver_t list \<Rightarrow> nat option" where
  "find_driver n [] = None"
| "find_driver n (d # ds) = (if dr_sname d = n then Some 0 else map_option Suc (find_driver n ds))"

definition select_driver :: "string option \<Rightarrow> 'd db_api \<Rightarrow> prog \<Rightarrow> prog \<times> nat option" where
  "select_driver name a p =
     (case (if name = None then a_driver a else name) of
        None \<Rightarrow>
          if length (a_drivers a) = 1
          then (say LOG_INFO (''No DB drivers specified, using '' @ dr_sname (hd (a_drivers a))) p, Some 0)
          else (say LOG_FATAL ''Multiple DB drivers are available. Use --db-driver=name to specify which one to use'' p, None)
      | Some n \<Rightarrow>
          (case find_driver n (a_drivers a) of
             None \<Rightarrow> (say LOG_FATAL (''invalid database driver name: '' @ n) p, None)
           | Some i \<Rightarrow> (p, Some i)))"

text \<open>\<open>db_create\<close> by thread \<open>wid\<close>; \<open>call\<close> counts the calls of the driver's \<open>init\<close>.  The result is the
  position of the driver.\<close>

definition db_create ::
  "timespec \<Rightarrow> nat \<Rightarrow> nat \<Rightarrow> string option \<Rightarrow> 'd db_api \<Rightarrow> prog \<Rightarrow> ('d db_api \<times> prog \<times> nat option) option" where
  "db_create now wid call name a p =
     (case (if a_once a then Some (a, p) else map_option (\<lambda>(a, p). (a\<lparr>a_once := True\<rparr>, p)) (db_init now a p)) of
        None \<Rightarrow> None
      | Some (a, p) \<Rightarrow>
          if \<not> a_initialized a then Some (a, p, None)
          else
            let (p, sel) = select_driver name a p
            in case sel of
                 None \<Rightarrow> Some (a, p, None)
               | Some i \<Rightarrow>
                   (let d = a_drivers a ! i
                    in if \<not> dr_initialized d \<and> drv_init (dr_ops d) call \<noteq> 0 then Some (a, p, None)
                       else
                         let a = a\<lparr>a_drivers := (a_drivers a)[i := d\<lparr>dr_initialized := True\<rparr>]\<rparr>
                         in case drv_thread_init (dr_ops d) of
                              None \<Rightarrow> Some (a, p, Some i)
                            | Some f \<Rightarrow>
                                if f wid \<noteq> 0
                                then Some (a, say LOG_FATAL ''thread-local driver initialization failed.'' p, None)
                                else Some (a, p, Some i)))"

definition db_destroy :: "nat \<Rightarrow> 'd db_driver_t \<Rightarrow> int" where
  "db_destroy wid d = (case drv_thread_done (dr_ops d) of None \<Rightarrow> 0 | Some f \<Rightarrow> f wid)"

text \<open>\<open>db_done\<close>: the state, and the drivers whose \<open>done\<close> is called.\<close>

definition db_done :: "'d db_api \<Rightarrow> 'd db_api \<times> string list" where
  "db_done a =
     (if \<not> a_initialized a then (a, [])
      else
        let a = disable_print_stats a;
            a = (if a_debug a then a\<lparr>a_exec_timers := None, a_fetch_timers := None\<rparr> else a)
        in (a, map dr_sname (filter dr_initialized (a_drivers a))))"

definition db_print_help :: "string option \<Rightarrow> 'd db_api \<Rightarrow> prog \<Rightarrow> prog" where
  "db_print_help default_driver a p =
     (let opts = (\<lambda>as p. p\<lparr>p_log := (case sb_print_options as of None \<Rightarrow> p_log p
                    | Some ls \<Rightarrow> fold (\<lambda>t. printf (Out_line t)) ls (p_log p))\<rparr>);
          p = say LOG_NOTICE (''General database options:'' @ [CHR 0x0A]) p;
          p = opts (db_args default_driver) p;
          p = say LOG_NOTICE [] p;
          p = say LOG_NOTICE ''Compiled-in database drivers:'' p;
          p = fold (\<lambda>d. say LOG_NOTICE (''  '' @ dr_sname d @ '' - '' @ dr_lname d)) (a_drivers a) p;
          p = say LOG_NOTICE [] p
      in fold (\<lambda>d p. let p = say LOG_NOTICE (dr_sname d @ '' options:'') p
                 in (case dr_args d of None \<Rightarrow> p | Some as \<Rightarrow> opts as p)) (a_drivers a) p)"

section \<open>Values and reports\<close>

definition sdec :: "int \<Rightarrow> string" where
  "sdec i = (if i < 0 then CHR ''-'' # udec (nat (- i)) else udec (nat i))"

definition join_dec :: "char \<Rightarrow> u32 list \<Rightarrow> string" where
  "join_dec sep ws = concat (map (\<lambda>(i, w). (if i = 0 then [] else [sep]) @ sdec (sint w)) (enumerate 0 ws))"

definition bind_text :: "sprintf \<Rightarrow> db_bind_value \<Rightarrow> string" where
  "bind_text fmt v = (case v of
     Bind_null _ \<Rightarrow> ''NULL''
   | Bind_tinyint w \<Rightarrow> sdec (sint w)
   | Bind_smallint w \<Rightarrow> sdec (sint w)
   | Bind_int w \<Rightarrow> sdec (sint w)
   | Bind_bigint w \<Rightarrow> sdec (sint w)
   | Bind_float r \<Rightarrow> fmt ''%f'' [A_real r]
   | Bind_double r \<Rightarrow> fmt ''%f'' [A_real r]
   | Bind_char t \<Rightarrow> [CHR 0x27] @ t @ [CHR 0x27]
   | Bind_varchar t \<Rightarrow> [CHR 0x27] @ t @ [CHR 0x27]
   | Bind_date y m d \<Rightarrow> [CHR 0x27] @ join_dec (CHR ''-'') [y, m, d] @ [CHR 0x27]
   | Bind_time h m s \<Rightarrow> [CHR 0x27] @ join_dec (CHR '':'') [h, m, s] @ [CHR 0x27]
   | Bind_datetime y mo d h mi s \<Rightarrow>
       [CHR 0x27] @ join_dec (CHR ''-'') [y, mo, d] @ '' '' @ join_dec (CHR '':'') [h, mi, s] @ [CHR 0x27]
   | Bind_timestamp y mo d h mi s \<Rightarrow>
       [CHR 0x27] @ join_dec (CHR ''-'') [y, mo, d] @ '' '' @ join_dec (CHR '':'') [h, mi, s] @ [CHR 0x27]
   | Bind_none \<Rightarrow> [])"

text \<open>\<open>db_print_value\<close>: what the buffer holds and the result; the default case leaves the buffer.\<close>

definition db_print_value :: "sprintf \<Rightarrow> db_bind_value \<Rightarrow> string \<Rightarrow> nat \<Rightarrow> string \<times> int" where
  "db_print_value fmt v buf buflen =
     (let t = bind_text fmt v;
          n = (if v = Bind_none then 0 else length t)
      in (if v = Bind_none then buf else snprintf buflen t, if n < buflen then int n else - 1))"

definition db_report_intermediate :: "sprintf \<Rightarrow> 'd db_api \<Rightarrow> sb_stat_t \<Rightarrow> prog \<Rightarrow> prog" where
  "db_report_intermediate fmt a st p =
     (if \<not> check_print_stats a then sb_report_intermediate fmt st p
      else
        let seconds = st_time_interval st;
            per = (\<lambda>n :: u64. A_real (real (unat n) / seconds));
            p = stamp fmt (st_time_total st)
                  (fmt ''thds: %u tps: %4.2f qps: %4.2f (r/w/o: %4.2f/%4.2f/%4.2f) lat (ms,%u%%): %4.2f err/s: %4.2f reconn/s: %4.2f''
                     [A_int (uint (st_threads_running st)), per (st_events st),
                      per (st_reads st + st_writes st + st_other st), per (st_reads st), per (st_writes st),
                      per (st_other st), A_int (uint (g_percentile (glob p))),
                      A_real (SEC2MS (st_latency_pct st)), per (st_errors st), per (st_reconnects st)]) p
        in if g_tx_rate (glob p) > 0
           then stamp fmt (st_time_total st)
                  (fmt ''queue length: %lu, concurrency: %lu''
                     [A_int (uint (st_queue_length st)), A_int (uint (st_concurrency st))]) p
           else p)"

definition timer_lines :: "sprintf \<Rightarrow> sb_timer \<Rightarrow> prog \<Rightarrow> prog" where
  "timer_lines fmt t p =
     (let line = (\<lambda>f v. say LOG_DEBUG (fmt f [A_real (NS2SEC v)]));
          p = line ''    min:                                %.4fs'' (sb_timer_min t) p;
          p = line ''    avg:                                %.4fs'' (sb_timer_avg t) p;
          p = line ''    max:                                %.4fs'' (sb_timer_max t) p
      in line ''  total:                                %.4fs'' (sb_timer_sum t) p)"

definition db_report_cumulative :: "sprintf \<Rightarrow> timespec \<Rightarrow> 'd db_api \<Rightarrow> sb_stat_t \<Rightarrow> prog \<Rightarrow> prog" where
  "db_report_cumulative fmt now a st p =
     (if \<not> check_print_stats a then sb_report_cumulative fmt now st p
      else
        let seconds = st_time_interval st;
            queries = st_reads st + st_writes st + st_other st;
            num = (\<lambda>f (n :: u64). say LOG_NOTICE (fmt f [A_int (uint n)]));
            rate = (\<lambda>f (n :: u64). say LOG_NOTICE (fmt f [A_int (uint n), A_real (real (unat n) / seconds)]));
            p = say LOG_NOTICE ''SQL statistics:'' p;
            p = say LOG_NOTICE ''    queries performed:'' p;
            p = num ''        read:                            %lu'' (st_reads st) p;
            p = num ''        write:                           %lu'' (st_writes st) p;
            p = num ''        other:                           %lu'' (st_other st) p;
            p = num ''        total:                           %lu'' queries p;
            p = rate ''    transactions:                        %-6lu (%.2f per sec.)'' (st_events st) p;
            p = rate ''    queries:                             %-6lu (%.2f per sec.)'' queries p;
            p = rate ''    ignored errors:                      %-6lu (%.2f per sec.)'' (st_errors st) p;
            p = rate ''    reconnects:                          %-6lu (%.2f per sec.)'' (st_reconnects st) p;
            p = (if a_debug a then
                   let merged = (\<lambda>ts. aggregate (nthreads p) (case ts of None \<Rightarrow> [] | Some ts \<Rightarrow> ts) zero_timer);
                       p = say LOG_DEBUG [] p;
                       p = say LOG_DEBUG ''Query execution statistics:'' p;
                       p = timer_lines fmt (merged (a_exec_timers a)) p;
                       p = say LOG_DEBUG ''Results fetching statistics:'' p
                   in timer_lines fmt (merged (a_fetch_timers a)) p
                 else p)
        in sb_report_cumulative fmt now st p)"

end
