(* ===== verification/Emulation.thy ===== *)
theory Emulation
  imports DbDriver
begin

text \<open>
  The loop both database drivers use to make a query out of a statement with place holders:
  \<open>pgsql_drv_prepare\<close> numbers the place holders, and the client-side emulation of prepared
  statements in \<open>pgsql_drv_execute\<close> and \<open>mysql_drv_execute\<close> prints the bound values in their
  place.  The text goes to a buffer that is doubled whenever a piece does not fit.

  What a place holder is replaced with is given by its number.  The size of the buffer is the
  source's \<open>unsigned int\<close>: doubling it wraps, and the room left is the source's \<open>int\<close>, so that a room of
  2 GB or more counts as negative and nothing fits.  A piece fits when it is shorter than the room
  left, as \<open>snprintf\<close> and \<open>db_print_value\<close> report it.  The query is a list, its position and the
  number of place holders need no width of their own: both are bounded by its length.
\<close>

section \<open>The loop\<close>

text \<open>The finished text with the next number, a failed \<open>realloc\<close>, or an access outside an array: a
  value that is not bound, or the buffer itself.\<close>

datatype built = Built string nat | No_memory | Wild_access

text \<open>How often a size can be doubled before it wraps to 0; a new buffer comes before all that.\<close>

definition doublings :: "u32 \<Rightarrow> nat" where
  "doublings b = (if b = 0 then 33 else LEAST n. b * 2 ^ n = 0)"

lemma doublings_double:
  assumes "b * 2 \<noteq> 0"
  shows "doublings (b * 2) < doublings b"
proof -
  have "(2 :: u32) ^ 32 = 0" by simp
  then have ex: "b * 2 ^ 32 = 0" by (simp only: mult_zero_right)
  have b: "b \<noteq> 0" using assms by auto
  let ?n = "LEAST n. b * 2 ^ n = 0"
  have n: "b * 2 ^ ?n = 0" by (rule LeastI [of "\<lambda>n. b * 2 ^ n = 0", OF ex])
  then obtain m where m: "?n = Suc m" using b by (cases ?n) auto
  with n have "b * 2 * 2 ^ m = 0" by (simp add: mult.assoc)
  then have "(LEAST n. b * 2 * 2 ^ n = 0) \<le> m" by (rule Least_le)
  then show ?thesis using assms b m by (simp add: doublings_def)
qed

lemma doublings_new: "doublings 256 < doublings 0"
proof -
  have "(256 :: u32) * 2 ^ 24 = 0" by simp
  then have "(LEAST n. (256 :: u32) * 2 ^ n = 0) \<le> 24" by (rule Least_le)
  then show ?thesis by (simp add: doublings_def)
qed

text \<open>\<open>ok\<close> says whether an allocation of so many bytes succeeds, \<open>shown\<close> is what to print for a
  number; \<open>out\<close> is the filled part of the buffer of \<open>buflen\<close> bytes, \<open>vcnt\<close> the next number.\<close>

function build_query ::
  "(nat \<Rightarrow> bool) \<Rightarrow> (nat \<Rightarrow> string option) \<Rightarrow> string \<Rightarrow> string \<Rightarrow> u32 \<Rightarrow> bool \<Rightarrow> nat \<Rightarrow> built" where
  "build_query ok shown [] out buflen need_realloc vcnt =
     (if length out < unat buflen then Built out vcnt else Wild_access)"
| "build_query ok shown (c # cs) out buflen need_realloc vcnt =
     (let j = (of_nat (length out) :: u32);
          grow = (j + 1 \<ge> buflen \<or> need_realloc);
          buflen = (if grow then if buflen > 0 then buflen * 2 else 256 else buflen)
      in if grow \<and> \<not> ok (unat buflen) then No_memory
         else if length out \<ge> unat buflen then Wild_access
         else if c \<noteq> CHR ''?'' then build_query ok shown cs (out @ [c]) buflen False vcnt
         else case shown vcnt of
                None \<Rightarrow> Wild_access
              | Some t \<Rightarrow>
                  if int (length t) \<ge> sint (buflen - j) then build_query ok shown (c # cs) out buflen True vcnt
                  else build_query ok shown cs (out @ t) buflen False (vcnt + 1))"
  by pat_completeness auto
termination
proof (relation "measures [\<lambda>(ok, shown, cs, out, buflen, need, k). length cs,
    \<lambda>(ok, shown, cs, out, buflen, need, k). doublings buflen + (if need then 0 else 1)]", goal_cases)
  case (3 ok shown c cs out buflen need k x xa xb t)
  have "\<not> unat (buflen * 2) \<le> length out \<Longrightarrow> doublings (buflen * 2) < doublings buflen"
    by (rule doublings_double) (auto simp del: unat_eq_0)
  with 3 doublings_new show ?case by (auto simp: word_gt_0 split: if_splits)
qed auto

declare build_query.simps [simp del]

text \<open>The start of the loop.\<close>

definition expand_query :: "(nat \<Rightarrow> bool) \<Rightarrow> (nat \<Rightarrow> string option) \<Rightarrow> nat \<Rightarrow> string \<Rightarrow> built" where
  "expand_query ok shown first query = build_query ok shown query [] 0 True first"

text \<open>The values the emulation prints: \<open>None\<close> past the end of the array, or without one.  A value
  fits as \<open>db_print_value\<close> says, given the room as an \<open>int\<close>; with a negative one it always
  returns - 1.\<close>

definition bound_text :: "sprintf \<Rightarrow> db_bind_value list option \<Rightarrow> nat \<Rightarrow> string option" where
  "bound_text fmt params k =
     (case params of
        None \<Rightarrow> None
      | Some vs \<Rightarrow> if k < length vs then Some (bind_text fmt (vs ! k)) else None)"

lemma db_print_value_fits:
  assumes "0 < room"
  shows "snd (db_print_value fmt v buf room) < 0 \<longleftrightarrow> length (bind_text fmt v) \<ge> room"
    and "snd (db_print_value fmt v buf room) \<ge> 0 \<Longrightarrow> snd (db_print_value fmt v buf room) = int (length (bind_text fmt v))"
proof -
  have "v = Bind_none \<Longrightarrow> bind_text fmt v = []" by (simp add: bind_text_def)
  then show "snd (db_print_value fmt v buf room) < 0 \<longleftrightarrow> length (bind_text fmt v) \<ge> room"
    "snd (db_print_value fmt v buf room) \<ge> 0 \<Longrightarrow> snd (db_print_value fmt v buf room) = int (length (bind_text fmt v))"
    using assms by (auto simp: db_print_value_def Let_def split: if_splits)
qed

section \<open>What it computes\<close>

fun substitute :: "(nat \<Rightarrow> string option) \<Rightarrow> nat \<Rightarrow> string \<Rightarrow> (string \<times> nat) option" where
  "substitute shown k [] = Some ([], k)"
| "substitute shown k (c # cs) =
     (if c \<noteq> CHR ''?'' then map_option (apfst ((#) c)) (substitute shown k cs)
      else case shown k of None \<Rightarrow> None | Some t \<Rightarrow> map_option (apfst ((@) t)) (substitute shown (k + 1) cs))"

abbreviation built_from :: "string \<Rightarrow> (string \<times> nat) option \<Rightarrow> built" where
  "built_from out r \<equiv> (case r of None \<Rightarrow> Wild_access | Some (t, n) \<Rightarrow> Built (out @ t) n)"

text \<open>The length of the text, up to the first piece that is missing.\<close>

fun built_length :: "(nat \<Rightarrow> string option) \<Rightarrow> nat \<Rightarrow> string \<Rightarrow> nat" where
  "built_length shown k [] = 0"
| "built_length shown k (c # cs) =
     (if c \<noteq> CHR ''?'' then 1 + built_length shown k cs
      else case shown k of None \<Rightarrow> 0 | Some t \<Rightarrow> length t + built_length shown (k + 1) cs)"

lemma built_length_substitute: "substitute shown k cs = Some (t, n) \<Longrightarrow> length t = built_length shown k cs"
  by (induction cs arbitrary: k t) (auto split: if_splits option.splits)

text \<open>One round of growing: with less than 1 GB in the buffer and no need for more, the size neither
  wraps nor leaves a room that counts as negative.\<close>

lemma grown_buffer:
  fixes buflen :: u32
  assumes "j < unat buflen \<or> (j = 0 \<and> buflen = 0)" "unat buflen < 2 ^ 31" "j + 1 < 2 ^ 30"
    and "need \<longrightarrow> unat buflen < 2 ^ 30"
    and "b = (if of_nat j + 1 \<ge> buflen \<or> need then if buflen > 0 then buflen * 2 else 256 else buflen)"
  shows "j + 1 < unat b" "unat b < 2 ^ 31" "sint (b - of_nat j) = int (unat b - j)"
proof -
  have "unat (of_nat (j + 1) :: u32) = j + 1"
    by (rule unat_of_nat_small) (use assms(3) in simp)
  then have j: "of_nat j + 1 \<ge> buflen \<longleftrightarrow> unat buflen \<le> j + 1" by (simp add: word_le_nat_alt add.commute)
  have two: "unat (buflen * 2) = unat buflen * 2" using assms(2) by (subst unat_mult_lem [THEN iffD1]) simp_all
  show b: "j + 1 < unat b" "unat b < 2 ^ 31"
    using assms(1-4) unfolding assms(5) j by (auto simp: two word_gt_0 unat_eq_0 split: if_splits)
  have "unat (of_nat j :: u32) = j" by (rule unat_of_nat_small) (use assms(3) in simp)
  then have u: "unat (b - of_nat j) = unat b - j" using b(1) by (subst unat_sub) (simp_all add: word_le_nat_alt)
  then have "uint (b - of_nat j) = int (unat b - j)" by (metis uint_nat)
  moreover have "sint (b - of_nat j) = uint (b - of_nat j)"
    unfolding sint_uint by (rule signed_take_bit_int_eq_self) (use calculation b(2) in simp_all)
  ultimately show "sint (b - of_nat j) = int (unat b - j)" by simp
qed

lemma build_query_substitute:
  assumes "\<forall>n. ok n" "cs = [] \<longrightarrow> length out < unat buflen" "length out < unat buflen \<or> (out = [] \<and> buflen = 0)"
    and "length out + built_length shown k cs + 1 < 2 ^ 30" "unat buflen < 2 ^ 31"
    and "need \<longrightarrow> unat buflen \<le> length out + built_length shown k cs"
  shows "build_query ok shown cs out buflen need k = built_from out (substitute shown k cs)"
  using assms
proof (induction ok shown cs out buflen need k rule: build_query.induct)
  case (1 ok shown out buflen need k)
  then show ?case by (simp add: build_query.simps)
next
  case (2 ok shown c cs out buflen need k)
  let ?j = "of_nat (length out) :: u32"
  define b where "b = (if ?j + 1 \<ge> buflen \<or> need then if buflen > 0 then buflen * 2 else 256 else buflen)"
  have b: "length out + 1 < unat b" "unat b < 2 ^ 31" "sint (b - ?j) = int (unat b - length out)"
    using grown_buffer [of "length out" buflen need b] "2.prems"(3-6) b_def by auto
  then have room: "\<not> length out \<ge> unat b" by simp
  have ok: "\<not> ((?j + 1 \<ge> buflen \<or> need) \<and> \<not> ok (unat b))" using "2.prems"(1) by simp
  note unfold = build_query.simps(2) [of ok shown c cs out buflen need k, unfolded Let_def, folded b_def]
  note IH = "2.IH" [OF refl refl, folded b_def, OF refl ok room]
  show ?case
  proof (cases "c = CHR ''?''")
    case False
    then have "build_query ok shown (c # cs) out buflen need k = build_query ok shown cs (out @ [c]) b False k"
      using unfold ok room by auto
    also have "\<dots> = built_from (out @ [c]) (substitute shown k cs)"
      by (rule IH(1)) (use False b "2.prems"(1,4) in auto)
    finally show ?thesis using False by (simp split: option.splits)
  next
    case True
    show ?thesis
    proof (cases "shown k")
      case None
      then show ?thesis using unfold ok room True by auto
    next
      case (Some t)
      show ?thesis
      proof (cases "int (length t) \<ge> sint (b - ?j)")
        case long: True
        then have "build_query ok shown (c # cs) out buflen need k = build_query ok shown (c # cs) out b True k"
          using unfold ok room True Some by auto
        moreover have "unat b \<le> length out + length t" using b(1,3) long by linarith
        then have "build_query ok shown (c # cs) out b True k = built_from out (substitute shown k (c # cs))"
          by (intro IH(2)) (use long Some b True "2.prems"(1,4) in auto)
        ultimately show ?thesis by simp
      next
        case False
        then have "build_query ok shown (c # cs) out buflen need k = build_query ok shown cs (out @ t) b False (k + 1)"
          using unfold ok room True Some by auto
        moreover have fits: "length out + length t < unat b" using b(1,3) False by linarith
        then have "build_query ok shown cs (out @ t) b False (k + 1) = built_from (out @ t) (substitute shown (k + 1) cs)"
          by (intro IH(3)) (use False Some b True "2.prems"(1,4) in auto)
        ultimately show ?thesis using True Some by (simp split: option.splits)
      qed
    qed
  qed
qed


text \<open>The bound is real: when 1 GB is not enough for a piece at the start of the query, the doubled size
  leaves a room that counts as negative, nothing fits, and the next doubling gives a buffer of no
  bytes.\<close>

lemma build_query_wraps:
  assumes "\<forall>n. ok n" "shown k = Some t"
  shows "build_query ok shown (CHR ''?'' # cs) [] (2 ^ 30) True k = Wild_access"
proof -
  have "build_query ok shown (CHR ''?'' # cs) [] (2 ^ 30) True k = build_query ok shown (CHR ''?'' # cs) [] (2 ^ 31) True k"
    using assms by (subst build_query.simps) (simp add: Let_def)
  also have "\<dots> = Wild_access" using assms by (subst build_query.simps) (simp add: Let_def)
  finally show ?thesis .
qed


text \<open>The place holders of \<open>pgsql_drv_prepare\<close>: as many numbers are used as the query has question
  marks.\<close>

lemma substitute_counts:
  assumes "\<And>k. shown k \<noteq> None"
  shows "\<exists>t. substitute shown k q = Some (t, k + count_list q (CHR ''?''))"
proof (induction q arbitrary: k)
  case (Cons c q)
  obtain t where "substitute shown k q = Some (t, k + count_list q (CHR ''?''))" using Cons.IH by blast
  moreover obtain t' where "substitute shown (k + 1) q = Some (t', k + 1 + count_list q (CHR ''?''))"
    using Cons.IH by blast
  moreover obtain p where "shown k = Some p" using assms by auto
  ultimately show ?case by auto
qed simp

end
