(* ===== verification/PgDriver.thy ===== *)
theory PgDriver
  imports Emulation
begin

text \<open>
  The driver for PostgreSQL (\<open>drivers/pgsql/drv_pgsql.c\<close>) as a table of operations of the
  database layer.  The client library is the record \<open>libpq\<close> of functions on a state of its own,
  which stands for the library and the servers; results it hands out are kept in a store until
  \<open>PQclear\<close> is called, so that a result cleared twice or never is visible.

  \<open>pg_fault\<close> is set by an access through a NULL pointer or outside an array, by clearing a
  result that is not there, and by a loop that does not end.
\<close>

section \<open>The client library\<close>

datatype exec_status = PGRES_TUPLES_OK | PGRES_COMMAND_OK | PGRES_FATAL_ERROR | PGRES_other int

text \<open>The cells of a result are \<open>None\<close> for NULL; a field of the error is \<open>None\<close> when the library
  returns NULL for it.\<close>

record pg_result =
  res_status :: exec_status
  res_tuples :: "string option list list"
  res_nfields :: nat
  res_cmd_tuples :: string
  res_sqlstate :: "string option"
  res_primary :: "string option"

text \<open>A parameter buffer: a NULL pointer, allocated and never written, or a string.\<close>

datatype pvalue = Null_ptr | Unset | Stored string

text \<open>The arguments of the driver; \<open>pa_db\<close> is the text with database name and SSL mode.\<close>

record pgsql_drv_args_t =
  pa_host :: "string option"
  pa_port :: "string option"
  pa_user :: "string option"
  pa_password :: "string option"
  pa_db :: string

record 'w libpq =
  PQsetdbLogin :: "pgsql_drv_args_t \<Rightarrow> 'w \<Rightarrow> 'w \<times> nat"
  PQstatus_ok :: "nat \<Rightarrow> 'w \<Rightarrow> bool"
  PQerrorMessage :: "nat \<Rightarrow> 'w \<Rightarrow> string"
  PQserverVersion :: "nat \<Rightarrow> 'w \<Rightarrow> int"
  PQfinish :: "nat \<Rightarrow> 'w \<Rightarrow> 'w"
  PQexec :: "nat \<Rightarrow> string \<Rightarrow> 'w \<Rightarrow> 'w \<times> pg_result"
  PQprepare :: "nat \<Rightarrow> string \<Rightarrow> string \<Rightarrow> nat \<Rightarrow> int list option \<Rightarrow> 'w \<Rightarrow> 'w \<times> pg_result"
  PQexecPrepared :: "nat \<Rightarrow> string \<Rightarrow> nat \<Rightarrow> pvalue list option \<Rightarrow> bool \<Rightarrow> 'w \<Rightarrow> 'w \<times> pg_result"

section \<open>State\<close>

record pg_stmt_t =
  ps_name :: string
  ps_prepared :: bool
  ps_nparams :: nat
  ps_ptypes :: "int list option"
  ps_pvalues :: "pvalue list option"

text \<open>What the driver keeps for a connection, the pointers of the structures of the layer included:
  \<open>pg_con\<close> is \<open>ptr\<close> of the connection, \<open>pg_rs_ptr\<close> and \<open>pg_row_ptr\<close> those of its result set and
  row, \<open>pg_stmts\<close> and \<open>pg_emulated\<close> those of a statement.\<close>

record 'w pg_data =
  pg_world :: 'w
  pg_con :: "nat option"
  pg_results :: "nat \<Rightarrow> pg_result option"
  pg_fresh :: nat
  pg_rs_ptr :: "nat option"
  pg_row_ptr :: int
  pg_sql_errno :: int
  pg_sql_state :: "string option"
  pg_sql_errmsg :: "string option"
  pg_stmts :: "nat \<Rightarrow> pg_stmt_t option"
  pg_emulated :: "nat \<Rightarrow> bool"
  pg_rng :: sb_rng_state_t
  pg_said :: "(log_msg_priority_t \<times> string) list"
  pg_fault :: bool

type_synonym 'w pg_conn = "'w pg_data db_conn_t"

text \<open>What stays the same: the library, the arguments, \<open>use_ps\<close>, which allocations succeed, \<open>printf\<close>,
  and whether the global error is set when the n-th attempt to reconnect has failed.\<close>

record 'w pg_env =
  pe_lib :: "'w libpq"
  pe_args :: pgsql_drv_args_t
  pe_use_ps :: bool
  pe_alloc :: "nat \<Rightarrow> bool"
  pe_fmt :: sprintf
  pe_error :: "nat \<Rightarrow> bool"

definition pgd :: "('w pg_data \<Rightarrow> 'w pg_data) \<Rightarrow> 'w pg_conn \<Rightarrow> 'w pg_conn" where
  "pgd f c = c\<lparr>cn_ptr := f (cn_ptr c)\<rparr>"

definition pg_rs :: "(db_result_t \<Rightarrow> db_result_t) \<Rightarrow> 'w pg_conn \<Rightarrow> 'w pg_conn" where
  "pg_rs f c = c\<lparr>cn_rs := f (cn_rs c)\<rparr>"

definition pg_log :: "log_msg_priority_t \<Rightarrow> string \<Rightarrow> 'w pg_conn \<Rightarrow> 'w pg_conn" where
  "pg_log p t = pgd (\<lambda>d. d\<lparr>pg_said := pg_said d @ [(p, t)]\<rparr>)"

definition pg_crash :: "'w pg_conn \<Rightarrow> 'w pg_conn" where
  "pg_crash = pgd (\<lambda>d. d\<lparr>pg_fault := True\<rparr>)"

text \<open>A library call that returns a result: the result is a new entry of the store.\<close>

definition pg_call :: "('w \<Rightarrow> 'w \<times> pg_result) \<Rightarrow> 'w pg_conn \<Rightarrow> 'w pg_conn \<times> nat" where
  "pg_call f c =
     (let d = cn_ptr c; (w, r) = f (pg_world d)
      in (c\<lparr>cn_ptr := d\<lparr>pg_world := w, pg_results := (pg_results d)(pg_fresh d \<mapsto> r), pg_fresh := pg_fresh d + 1\<rparr>\<rparr>,
          pg_fresh d))"

definition PQclear :: "nat \<Rightarrow> 'w pg_conn \<Rightarrow> 'w pg_conn" where
  "PQclear i c =
     (if pg_results (cn_ptr c) i = None then pg_crash c
      else pgd (\<lambda>d. d\<lparr>pg_results := (pg_results d)(i := None)\<rparr>) c)"

definition MAX_PARAM_LENGTH :: nat where "MAX_PARAM_LENGTH = 256"

section \<open>Initialisation and connections\<close>

definition pgsql_drv_arg_list :: "sb_arg list" where
  "pgsql_drv_arg_list =
     [SB_OPT ''pgsql-host'' ''PostgreSQL server host'' (Some ''localhost'') SB_ARG_TYPE_STRING,
      SB_OPT ''pgsql-port'' ''PostgreSQL server port'' (Some ''5432'') SB_ARG_TYPE_INT,
      SB_OPT ''pgsql-user'' ''PostgreSQL user'' (Some ''sbtest'') SB_ARG_TYPE_STRING,
      SB_OPT ''pgsql-password'' ''PostgreSQL password'' (Some []) SB_ARG_TYPE_STRING,
      SB_OPT ''pgsql-db'' ''PostgreSQL database name'' (Some ''sbtest'') SB_ARG_TYPE_STRING,
      SB_OPT ''pgsql-sslmode'' ''PostgreSQL SSL mode (disable, allow, prefer, require, verify-ca, verify-full)''
        (Some ''prefer'') SB_ARG_TYPE_STRING]"

text \<open>The arguments and \<open>use_ps\<close>; \<open>None\<close> when \<open>strlen\<close> gets a NULL pointer.\<close>

definition pgsql_drv_init :: "options \<Rightarrow> db_ps_mode_t \<Rightarrow> (pgsql_drv_args_t \<times> bool) option" where
  "pgsql_drv_init opts mode =
     (case (sb_get_value_string opts ''pgsql-db'', sb_get_value_string opts ''pgsql-sslmode'') of
        (Some dbname, Some sslmode) \<Rightarrow>
          Some (\<lparr>pa_host = sb_get_value_string opts ''pgsql-host'', pa_port = sb_get_value_string opts ''pgsql-port'',
                 pa_user = sb_get_value_string opts ''pgsql-user'',
                 pa_password = sb_get_value_string opts ''pgsql-password'',
                 pa_db = ''dbname='' @ dbname @ '' sslmode='' @ sslmode\<rparr>,
                mode \<noteq> DB_PS_MODE_DISABLE)
      | _ \<Rightarrow> None)"

definition pgsql_drv_caps :: drv_caps_t where
  "pgsql_drv_caps = \<lparr>multi_rows_insert = True, prepared_statements = True, auto_increment = False,
     needs_commit = False, serial_clause = True, unsigned_int = False\<rparr>"

text \<open>The state of the library, the capabilities, the result and the message.\<close>

definition pgsql_drv_describe :: "'w pg_env \<Rightarrow> 'w \<Rightarrow> 'w \<times> (drv_caps_t \<times> int) \<times> string option" where
  "pgsql_drv_describe env w =
     (let lib = pe_lib env; (w, con) = PQsetdbLogin lib (pe_args env) w
      in if \<not> PQstatus_ok lib con w
         then (PQfinish lib con w, (pgsql_drv_caps, 1),
               Some (''Connection to database failed: '' @ PQerrorMessage lib con w))
         else
           let caps = (if PQserverVersion lib con w < 80200 then pgsql_drv_caps\<lparr>multi_rows_insert := False\<rparr>
                       else pgsql_drv_caps)
           in (PQfinish lib con w, (caps, 0), None))"

definition pgsql_drv_connect :: "'w pg_env \<Rightarrow> 'w pg_conn \<Rightarrow> 'w pg_conn \<times> int" where
  "pgsql_drv_connect env c =
     (let lib = pe_lib env; (w, con) = PQsetdbLogin lib (pe_args env) (pg_world (cn_ptr c));
          c = pgd (\<lambda>d. d\<lparr>pg_world := w\<rparr>) c
      in if \<not> PQstatus_ok lib con w
         then (pgd (\<lambda>d. d\<lparr>pg_world := PQfinish lib con w\<rparr>)
                 (pg_log LOG_FATAL (''Connection to database failed: '' @ PQerrorMessage lib con w) c), 1)
         else (pgd (\<lambda>d. d\<lparr>pg_con := Some con\<rparr>) c, 0))"

definition clear_sql_error :: "'w pg_conn \<Rightarrow> 'w pg_conn" where
  "clear_sql_error = pgd (\<lambda>d. d\<lparr>pg_sql_state := None, pg_sql_errmsg := None\<rparr>)"

definition pgsql_drv_disconnect :: "'w pg_env \<Rightarrow> 'w pg_conn \<Rightarrow> 'w pg_conn \<times> int" where
  "pgsql_drv_disconnect env c =
     (let c = clear_sql_error c
      in (case pg_con (cn_ptr c) of
            None \<Rightarrow> c
          | Some con \<Rightarrow> pgd (\<lambda>d. d\<lparr>pg_world := PQfinish (pe_lib env) con (pg_world d)\<rparr>) c, 0))"

text \<open>The loop of \<open>pgsql_drv_reconnect\<close> from attempt \<open>k\<close> on; it may run for ever.\<close>

partial_function (option) pg_reconnect_loop ::
  "'w pg_env \<Rightarrow> nat \<Rightarrow> 'w pg_conn \<Rightarrow> ('w pg_conn \<times> db_error_t) option" where
  "pg_reconnect_loop env k c =
     (let (c, rc) = pgsql_drv_connect env c
      in if rc = 0 then Some (c, DB_ERROR_IGNORABLE)
         else if pe_error env k then Some (c, DB_ERROR_FATAL)
         else pg_reconnect_loop env (k + 1) c)"

definition pgsql_drv_reconnect :: "'w pg_env \<Rightarrow> 'w pg_conn \<Rightarrow> ('w pg_conn \<times> db_error_t) option" where
  "pgsql_drv_reconnect env c =
     (let (c, rc) = pgsql_drv_disconnect env c
      in if rc \<noteq> 0 then Some (c, DB_ERROR_FATAL) else pg_reconnect_loop env 0 c)"

section \<open>Prepared statements\<close>

definition db_pgsql_bind_map :: "(db_bind_type_t \<times> int) list" where
  "db_pgsql_bind_map =
     [(DB_TYPE_TINYINT, 0), (DB_TYPE_SMALLINT, 21), (DB_TYPE_INT, 23), (DB_TYPE_BIGINT, 20), (DB_TYPE_FLOAT, 700),
      (DB_TYPE_DOUBLE, 701), (DB_TYPE_DATETIME, 0), (DB_TYPE_TIMESTAMP, 1114), (DB_TYPE_CHAR, 18),
      (DB_TYPE_VARCHAR, 1043)]"

definition get_pgsql_bind_type :: "db_bind_type_t \<Rightarrow> int" where
  "get_pgsql_bind_type ty = (case map_of db_pgsql_bind_map ty of None \<Rightarrow> - 1 | Some t \<Rightarrow> t)"

text \<open>The two calls of the generator are arguments of one \<open>snprintf\<close>; they are taken in order.\<close>

definition get_unique_stmt_name :: "sb_rng_state_t \<Rightarrow> sb_rng_state_t \<times> string" where
  "get_unique_stmt_name rng =
     (let (rng, a) = sb_rand_uniform_uint64 rng;
          (rng, b) = sb_rand_uniform_uint64 rng
      in (rng, snprintf 32 (''sbstmt'' @ sdec (sint (ucast a :: u32)) @ sdec (sint (ucast b :: u32)))))"

definition placeholder :: "nat \<Rightarrow> string option" where
  "placeholder k = Some (CHR ''$'' # sdec (int k))"

definition pgsql_drv_prepare ::
  "'w pg_env \<Rightarrow> db_stmt_t \<Rightarrow> string \<Rightarrow> u64 \<Rightarrow> 'w pg_conn \<Rightarrow> 'w pg_conn \<times> db_stmt_t \<times> int" where
  "pgsql_drv_prepare env stmt query len c =
     (case pg_con (cn_ptr c) of
        None \<Rightarrow> (c, stmt, 1)
      | Some con \<Rightarrow>
          if \<not> pe_use_ps env
          then (pgd (\<lambda>d. d\<lparr>pg_emulated := (pg_emulated d)(sm_id stmt := True)\<rparr>) c, stmt\<lparr>sm_query := Some query\<rparr>, 0)
          else
            (case expand_query (pe_alloc env) placeholder 1 query of
               No_memory \<Rightarrow> (c, stmt, 1)
             | Wild_access \<Rightarrow> (pg_crash c, stmt, 1)
             | Built buf vcnt \<Rightarrow>
                 let stmt = stmt\<lparr>sm_query := Some buf\<rparr>
                 in if \<not> pe_alloc env 40 then (c, stmt, 1)
                    else
                      let (rng, name) = get_unique_stmt_name (pg_rng (cn_ptr c));
                          c = pgd (\<lambda>d. d\<lparr>pg_rng := rng\<rparr>) c;
                          pgstmt = \<lparr>ps_name = name, ps_prepared = False, ps_nparams = vcnt - 1,
                                    ps_ptypes = None, ps_pvalues = None\<rparr>;
                          keep = (\<lambda>p. pgd (\<lambda>d. d\<lparr>pg_stmts := (pg_stmts d)(sm_id stmt \<mapsto> p)\<rparr>))
                      in if ps_nparams pgstmt \<noteq> 0 then (keep pgstmt c, stmt, 0)
                         else
                           let (c, pgres) = pg_call (PQprepare (pe_lib env) con name buf 0 None) c;
                               ok = (map_option res_status (pg_results (cn_ptr c) pgres) = Some PGRES_COMMAND_OK);
                               c = (if ok then c
                                    else pg_log LOG_FATAL
                                      (''PQprepare() failed: '' @ PQerrorMessage (pe_lib env) con (pg_world (cn_ptr c))) c);
                               c = PQclear pgres c
                           in if ok then (keep (pgstmt\<lparr>ps_prepared := True\<rparr>) c, stmt, 0)
                              else (c, stmt\<lparr>sm_query := None\<rparr>, 1)))"

text \<open>\<open>bound_param\<close> is replaced first, on every path.  A failed \<open>PQprepare\<close> leaves its result behind.\<close>

definition pgsql_drv_bind_param ::
  "'w pg_env \<Rightarrow> db_stmt_t \<Rightarrow> db_bind_value list \<Rightarrow> 'w pg_conn \<Rightarrow> 'w pg_conn \<times> db_stmt_t \<times> int" where
  "pgsql_drv_bind_param env stmt params c =
     (case pg_con (cn_ptr c) of
        None \<Rightarrow> (c, stmt, 1)
      | Some con \<Rightarrow>
          let len = length params;
              keep = (\<lambda>p. pgd (\<lambda>d. d\<lparr>pg_stmts := (pg_stmts d)(sm_id stmt \<mapsto> p)\<rparr>))
          in if \<not> pe_alloc env (len * 40) then (c, stmt\<lparr>sm_bound_param := None\<rparr>, 1)
             else
               let stmt = stmt\<lparr>sm_bound_param := Some params\<rparr>
               in if pg_emulated (cn_ptr c) (sm_id stmt) then (c, stmt, 0)
                  else case pg_stmts (cn_ptr c) (sm_id stmt) of
                    None \<Rightarrow> (pg_crash c, stmt, 1)
                  | Some pgstmt \<Rightarrow>
                      if ps_prepared pgstmt then (c, stmt, 0)
                      else if ps_nparams pgstmt \<noteq> len
                      then (pg_log LOG_DEBUG (pe_fmt env ''counted: %d, passed to bind_param(): %zd''
                                [A_int (int (ps_nparams pgstmt)), A_int (int len)])
                              (pg_log LOG_ALERT ''wrong number of parameters in prepared statement'' c), stmt, 1)
                      else if \<not> pe_alloc env (len * 4) then (keep (pgstmt\<lparr>ps_ptypes := None\<rparr>) c, stmt, 1)
                      else
                        let ptypes = map (\<lambda>v. get_pgsql_bind_type (bind_type v)) params;
                            pgstmt = pgstmt\<lparr>ps_ptypes := Some ptypes\<rparr>;
                            c = keep pgstmt c;
                            query = (case sm_query stmt of None \<Rightarrow> [] | Some q \<Rightarrow> q);
                            (c, pgres) = pg_call (PQprepare (pe_lib env) con (ps_name pgstmt) query len (Some ptypes)) c
                        in if map_option res_status (pg_results (cn_ptr c) pgres) \<noteq> Some PGRES_COMMAND_OK
                           then (pg_log LOG_FATAL
                                   (''PQprepare() failed: '' @ PQerrorMessage (pe_lib env) con (pg_world (cn_ptr c))) c,
                                 stmt, 1)
                           else
                             let c = PQclear pgres c
                             in if \<not> pe_alloc env (len * 8) then (keep (pgstmt\<lparr>ps_pvalues := None\<rparr>) c, stmt, 1)
                                else if len > 0 \<and> \<not> pe_alloc env MAX_PARAM_LENGTH
                                then (keep (pgstmt\<lparr>ps_pvalues := Some (replicate len Null_ptr)\<rparr>) c, stmt, 1)
                                else (keep (pgstmt\<lparr>ps_pvalues := Some (replicate len Unset), ps_prepared := True\<rparr>) c,
                                      stmt, 0))"

definition pgsql_drv_bind_result ::
  "db_stmt_t \<Rightarrow> db_bind_value list \<Rightarrow> 'w pg_conn \<Rightarrow> 'w pg_conn \<times> db_stmt_t \<times> int" where
  "pgsql_drv_bind_result stmt params c = (c, stmt, 0)"

section \<open>Execution\<close>

definition ignorable_states :: "string set" where
  "ignorable_states = {''40P01'', ''23505'', ''40001''}"

text \<open>\<open>pgsql_check_status\<close>: a result with tuples stays in the store, as does one of an unexpected
  status; \<open>strdup\<close> of a missing error field faults.\<close>

definition pgsql_check_status ::
  "'w pg_env \<Rightarrow> nat \<Rightarrow> string \<Rightarrow> string option \<Rightarrow> 'w pg_conn \<Rightarrow> 'w pg_conn \<times> db_error_t" where
  "pgsql_check_status env pgres funcname query c =
     (case pg_results (cn_ptr c) pgres of
        None \<Rightarrow> (pg_crash c, DB_ERROR_FATAL)
      | Some r \<Rightarrow>
         (case res_status r of
            PGRES_TUPLES_OK \<Rightarrow>
              (pg_rs (\<lambda>rs. rs\<lparr>rs_nrows := of_nat (length (res_tuples r)), rs_nfields := of_nat (res_nfields r),
                            rs_counter := SB_CNT_READ\<rparr>) c, DB_ERROR_NONE)
          | PGRES_COMMAND_OK \<Rightarrow>
              let n = word_of_int (fst (strtol10 (res_cmd_tuples r)));
                  c = pg_rs (\<lambda>rs. rs\<lparr>rs_nrows := n, rs_counter := (if n > 0 then SB_CNT_WRITE else SB_CNT_OTHER)\<rparr>) c
              in (PQclear pgres c, DB_ERROR_NONE)
          | PGRES_FATAL_ERROR \<Rightarrow>
              let c = clear_sql_error (pg_rs (\<lambda>rs. rs\<lparr>rs_nrows := 0, rs_counter := SB_CNT_ERROR\<rparr>) c)
              in case (res_sqlstate r, res_primary r, pg_con (cn_ptr c)) of
                   (Some st, Some msg, Some con) \<Rightarrow>
                     let c = pgd (\<lambda>d. d\<lparr>pg_sql_state := Some st, pg_sql_errmsg := Some msg\<rparr>) c
                     in if st \<in> ignorable_states
                        then
                          let (c, tmp) = pg_call (PQexec (pe_lib env) con ''ROLLBACK'') c
                          in (PQclear pgres (PQclear tmp c), DB_ERROR_IGNORABLE)
                        else
                          let c = pg_log LOG_FATAL (funcname @ ''() failed: 7 '' @ msg) c;
                              c = (case query of None \<Rightarrow> c | Some q \<Rightarrow> pg_log LOG_FATAL (''failed query was: '' @ q) c)
                          in (PQclear pgres c, DB_ERROR_FATAL)
                 | _ \<Rightarrow> (pg_crash c, DB_ERROR_FATAL)
          | PGRES_other _ \<Rightarrow>
              (pg_rs (\<lambda>rs. rs\<lparr>rs_nrows := 0, rs_counter := SB_CNT_ERROR\<rparr>) c, DB_ERROR_FATAL)))"

text \<open>The end of both ways to execute: the result is kept when it has tuples.\<close>

definition keep_result :: "nat \<Rightarrow> 'w pg_conn \<Rightarrow> 'w pg_conn" where
  "keep_result pgres c =
     pgd (\<lambda>d. d\<lparr>pg_rs_ptr := (if rs_counter (cn_rs c) = SB_CNT_READ then Some pgres else None)\<rparr>) c"

definition pgsql_drv_query :: "'w pg_env \<Rightarrow> string \<Rightarrow> u64 \<Rightarrow> 'w pg_conn \<Rightarrow> 'w pg_conn \<times> db_error_t" where
  "pgsql_drv_query env query len c =
     (let c = clear_sql_error (pgd (\<lambda>d. d\<lparr>pg_sql_errno := 0\<rparr>) c)
      in case pg_con (cn_ptr c) of
           None \<Rightarrow> (pg_crash c, DB_ERROR_FATAL)
         | Some con \<Rightarrow>
             let (c, pgres) = pg_call (PQexec (pe_lib env) con query) c;
                 (c, rc) = pgsql_check_status env pgres ''PQexec'' (Some query) c
             in (keep_result pgres c, rc))"

text \<open>A parameter written to its buffer: \<open>None\<close> for a write outside of it.  A NULL value leaves the
  buffer alone, as does a value without a type.\<close>

definition store_param :: "sprintf \<Rightarrow> db_bind_value \<Rightarrow> pvalue \<Rightarrow> pvalue option" where
  "store_param fmt v old =
     (let string = (\<lambda>t. if old = Null_ptr \<or> length t \<ge> MAX_PARAM_LENGTH then None
                       else Some (Stored (takeWhile (\<lambda>ch. ch \<noteq> CHR 0x00) t)))
      in case v of
           Bind_null _ \<Rightarrow> Some old
         | Bind_char t \<Rightarrow> string t
         | Bind_varchar t \<Rightarrow> string t
         | Bind_none \<Rightarrow> Some old
         | _ \<Rightarrow> if old = Null_ptr then None
               else Some (Stored (fst (db_print_value fmt v [] MAX_PARAM_LENGTH))))"

text \<open>The loop over the parameters of the statement.\<close>

fun store_params :: "sprintf \<Rightarrow> db_bind_value list option \<Rightarrow> nat list \<Rightarrow> pvalue list option \<Rightarrow> pvalue list option option" where
  "store_params fmt params [] vals = Some vals"
| "store_params fmt params (i # is) vals =
     (case (params, vals) of
        (Some ps, Some vs) \<Rightarrow>
          if i < length ps \<and> i < length vs then
            (case store_param fmt (ps ! i) (vs ! i) of
               None \<Rightarrow> None
             | Some v \<Rightarrow> store_params fmt params is (Some (vs[i := v])))
          else None
      | _ \<Rightarrow> None)"

definition pgsql_drv_execute :: "'w pg_env \<Rightarrow> db_stmt_t \<Rightarrow> 'w pg_conn \<Rightarrow> 'w pg_conn \<times> db_error_t" where
  "pgsql_drv_execute env stmt c =
     (let c = clear_sql_error (pgd (\<lambda>d. d\<lparr>pg_sql_errno := 0\<rparr>) c)
      in if \<not> pg_emulated (cn_ptr c) (sm_id stmt) then
           case pg_stmts (cn_ptr c) (sm_id stmt) of
             None \<Rightarrow> (pg_log LOG_DEBUG ''ERROR: exiting mysql_drv_execute(), uninitialized statement'' c, DB_ERROR_FATAL)
           | Some pgstmt \<Rightarrow>
              (case (store_params (pe_fmt env) (sm_bound_param stmt) [0..<ps_nparams pgstmt] (ps_pvalues pgstmt),
                     pg_con (cn_ptr c)) of
                 (Some vals, Some con) \<Rightarrow>
                   let c = pgd (\<lambda>d. d\<lparr>pg_stmts := (pg_stmts d)(sm_id stmt \<mapsto> pgstmt\<lparr>ps_pvalues := vals\<rparr>)\<rparr>) c;
                       (c, pgres) = pg_call (PQexecPrepared (pe_lib env) con (ps_name pgstmt) (ps_nparams pgstmt) vals True) c;
                       (c, rc) = pgsql_check_status env pgres ''PQexecPrepared'' None c
                   in (keep_result pgres c, rc)
               | _ \<Rightarrow> (pg_crash c, DB_ERROR_FATAL))
         else
           case sm_query stmt of
             None \<Rightarrow> (pg_crash c, DB_ERROR_FATAL)
           | Some q \<Rightarrow>
              (case expand_query (pe_alloc env) (bound_text (pe_fmt env) (sm_bound_param stmt)) 0 q of
                 No_memory \<Rightarrow> (c, DB_ERROR_FATAL)
               | Wild_access \<Rightarrow> (pg_crash c, DB_ERROR_FATAL)
               | Built buf vcnt \<Rightarrow> pgsql_drv_query env buf (of_nat (length buf)) c))"

section \<open>Result sets and statements\<close>

text \<open>\<open>row->ptr\<close> is the number of the next row.\<close>

definition pgsql_drv_fetch_row :: "'w pg_conn \<Rightarrow> 'w pg_conn \<times> int" where
  "pgsql_drv_fetch_row c =
     (let rownum = pg_row_ptr (cn_ptr c); rs = cn_rs c
      in if rownum \<ge> sint (rs_nrows rs) then (c, 1)
         else case (pg_rs_ptr (cn_ptr c), rs_values rs) of
           (Some i, Some vs) \<Rightarrow>
             (case pg_results (cn_ptr c) i of
                None \<Rightarrow> (pg_crash c, 0)
              | Some r \<Rightarrow>
                  let cell = (\<lambda>j. res_tuples r ! nat rownum ! j);
                      vs = fold (\<lambda>j vs. vs[j := cell j]) [0..<nat (sint (rs_nfields rs))] vs
                  in (pgd (\<lambda>d. d\<lparr>pg_row_ptr := rownum + 1\<rparr>) (pg_rs (\<lambda>rs. rs\<lparr>rs_values := Some vs\<rparr>) c), 0))
         | _ \<Rightarrow> (pg_crash c, 0))"

definition pgsql_drv_free_results :: "'w pg_conn \<Rightarrow> 'w pg_conn \<times> int" where
  "pgsql_drv_free_results c =
     (case pg_rs_ptr (cn_ptr c) of
        None \<Rightarrow> (c, 1)
      | Some i \<Rightarrow> (pgd (\<lambda>d. d\<lparr>pg_rs_ptr := None, pg_row_ptr := 0\<rparr>) (PQclear i c), 0))"

definition pgsql_drv_close :: "db_stmt_t \<Rightarrow> 'w pg_conn \<Rightarrow> 'w pg_conn \<times> int" where
  "pgsql_drv_close stmt c =
     (case pg_stmts (cn_ptr c) (sm_id stmt) of
        None \<Rightarrow> (c, 1)
      | Some _ \<Rightarrow> (pgd (\<lambda>d. d\<lparr>pg_stmts := (pg_stmts d)(sm_id stmt := None)\<rparr>) c, 0))"

text \<open>The table.  The layer never calls \<open>fetch\<close> and \<open>done\<close>, which do nothing; \<open>pgsql_drv_init\<close> always
  returns 0; \<open>w\<close> is the state in which \<open>describe\<close> is called.\<close>

definition pgsql_ops :: "'w pg_env \<Rightarrow> 'w \<Rightarrow> 'w pg_data drv_ops_t" where
  "pgsql_ops env w =
     \<lparr>drv_init = (\<lambda>_. 0), drv_thread_init = None,
      drv_describe = Some (fst (snd (pgsql_drv_describe env w))),
      drv_connect = pgsql_drv_connect env, drv_disconnect = pgsql_drv_disconnect env,
      drv_reconnect = Some (\<lambda>c. case pgsql_drv_reconnect env c of
                                 None \<Rightarrow> (pg_crash c, DB_ERROR_FATAL)
                               | Some r \<Rightarrow> r),
      drv_prepare = pgsql_drv_prepare env, drv_bind_param = pgsql_drv_bind_param env,
      drv_bind_result = pgsql_drv_bind_result, drv_execute = pgsql_drv_execute env,
      drv_stmt_next_result = None, drv_fetch_row = Some pgsql_drv_fetch_row,
      drv_free_results = pgsql_drv_free_results, drv_more_results = None, drv_next_result = None,
      drv_close = pgsql_drv_close, drv_query = pgsql_drv_query env, drv_thread_done = None\<rparr>"

definition pgsql_driver :: "'w pg_env \<Rightarrow> 'w \<Rightarrow> 'w pg_data db_driver_t" where
  "pgsql_driver env w =
     \<lparr>dr_sname = ''pgsql'', dr_lname = ''PostgreSQL driver'', dr_args = Some pgsql_drv_arg_list,
      dr_ops = pgsql_ops env w, dr_initialized = False\<rparr>"

end
