(* ===== verification/DbProps.thy ===== *)
theory DbProps
  imports DbDriver
begin

text \<open>
  What the database layer promises: the states of a connection under every sequence of
  operations, and the delivery of multi-row inserts, with the exact case in which their
  buffer overflows.  Drivers appear through the predicates \<open>driver_ok\<close> (a driver leaves the
  fields of the layer alone) and \<open>accepting\<close> (a database that executes every query).
\<close>

section \<open>Connections keep their state\<close>

text \<open>What a driver may change of a connection: its own data, the result set and nothing of what the
  layer keeps; only \<open>fetch_row\<close> fills the array of values.\<close>

definition frame :: "'d db_conn_t \<Rightarrow> 'd db_conn_t \<Rightarrow> bool" where
  "frame c c' \<longleftrightarrow> cn_state c' = cn_state c \<and> cn_thread_id c' = cn_thread_id c \<and> bulk_cnt c' = bulk_cnt c \<and>
     bulk_buflen c' = bulk_buflen c \<and> bulk_buffer c' = bulk_buffer c \<and> bulk_ptr c' = bulk_ptr c \<and>
     bulk_values c' = bulk_values c \<and> bulk_commit_cnt c' = bulk_commit_cnt c \<and> bulk_commit_max c' = bulk_commit_max c \<and>
     (rs_values (cn_rs c') = None \<longleftrightarrow> rs_values (cn_rs c) = None)"

text \<open>The interface of a driver.\<close>

definition driver_ok :: "'d drv_ops_t \<Rightarrow> bool" where
  "driver_ok ops \<longleftrightarrow>
     (\<forall>c. frame c (fst (drv_disconnect ops c)) \<and> frame c (fst (drv_free_results ops c))) \<and>
     (\<forall>f c. drv_reconnect ops = Some f \<longrightarrow> frame c (fst (f c))) \<and>
     (\<forall>f c. drv_fetch_row ops = Some f \<longrightarrow> frame c (fst (f c))) \<and>
     (\<forall>f c. drv_more_results ops = Some f \<longrightarrow> frame c (fst (f c))) \<and>
     (\<forall>f c. drv_next_result ops = Some f \<longrightarrow> frame c (fst (f c))) \<and>
     (\<forall>f t c. drv_stmt_next_result ops = Some f \<longrightarrow> frame c (fst (f t c))) \<and>
     (\<forall>t q n c. frame c (fst (drv_prepare ops t q n c))) \<and>
     (\<forall>t vs c. frame c (fst (drv_bind_param ops t vs c)) \<and> frame c (fst (drv_bind_result ops t vs c))) \<and>
     (\<forall>t c. frame c (fst (drv_execute ops t c)) \<and> frame c (fst (drv_close ops t c))) \<and>
     (\<forall>q n c. frame c (fst (drv_query ops q n c)))"

text \<open>The operations of the layer on a connection as one type, and their effect on the system.
  \<open>Op_prepare\<close> says whether the statement could be allocated, \<open>Op_bulk_init\<close> carries what \<open>malloc\<close>
  gave for the buffer.\<close>

datatype db_op =
    Op_close_connection | Op_reconnect | Op_prepare bool nat string u64
  | Op_bind_param db_stmt_t "db_bind_value list" | Op_bind_result db_stmt_t "db_bind_value list"
  | Op_execute db_stmt_t | Op_stmt_next_result db_stmt_t | Op_query string u64 | Op_more_results
  | Op_next_result | Op_fetch_row | Op_free_results | Op_close db_stmt_t
  | Op_bulk_init "string option" string u64 | Op_bulk_next string u64 | Op_bulk_done

fun db_step :: "'d drv_ops_t \<Rightarrow> db_op \<Rightarrow> 'd db_sys \<Rightarrow> 'd db_sys option" where
  "db_step ops Op_close_connection s = Some (fst (db_connection_close ops s))"
| "db_step ops Op_reconnect s = Some (fst (db_connection_reconnect ops s))"
| "db_step ops (Op_prepare ok i q n) s = Some (fst (db_prepare ops ok i q n s))"
| "db_step ops (Op_bind_param t vs) s = Some (fst (db_bind_param ops t vs s))"
| "db_step ops (Op_bind_result t vs) s = Some (fst (db_bind_result ops t vs s))"
| "db_step ops (Op_execute t) s = Some (fst (db_execute ops t s))"
| "db_step ops (Op_stmt_next_result t) s = Some (fst (db_stmt_next_result ops t s))"
| "db_step ops (Op_query q n) s = Some (fst (db_query ops q n s))"
| "db_step ops Op_more_results s = Some (fst (db_more_results ops s))"
| "db_step ops Op_next_result s = Some (fst (db_next_result ops s))"
| "db_step ops Op_fetch_row s = Some (fst (db_fetch_row ops s))"
| "db_step ops Op_free_results s = Some (fst (db_free_results ops s))"
| "db_step ops (Op_close t) s = Some (fst (db_close ops t s))"
| "db_step ops (Op_bulk_init fresh q n) s = map_option fst (db_bulk_insert_init ops fresh q n s)"
| "db_step ops (Op_bulk_next q n) s = map_option fst (db_bulk_insert_next ops q n s)"
| "db_step ops Op_bulk_done s = Some (fst (db_bulk_insert_done ops s))"

fun db_steps :: "'d drv_ops_t \<Rightarrow> db_op list \<Rightarrow> 'd db_sys \<Rightarrow> 'd db_sys option" where
  "db_steps ops [] s = Some s"
| "db_steps ops (p # ps) s = (case db_step ops p s of None \<Rightarrow> None | Some s \<Rightarrow> db_steps ops ps s)"

text \<open>A row array exists only while a result set is open; rows are pending only in a buffer.\<close>

definition rows_scoped :: "'d db_conn_t \<Rightarrow> bool" where
  "rows_scoped c \<longleftrightarrow> (cn_state c \<noteq> DB_CONN_RESULT_SET \<longrightarrow> rs_values (cn_rs c) = None)"

definition buffered :: "'d db_conn_t \<Rightarrow> bool" where
  "buffered c \<longleftrightarrow> (bulk_buffer c = None \<longrightarrow> bulk_cnt c = 0)"

definition conn_inv :: "bool \<Rightarrow> 'd db_conn_t \<Rightarrow> bool" where
  "conn_inv k c \<longleftrightarrow> rows_scoped c \<and> (k \<longrightarrow> buffered c)"

lemmas inv_defs = conn_inv_def rows_scoped_def buffered_def

definition ready :: "bool \<Rightarrow> 'd db_sys \<Rightarrow> bool" where
  "ready k s \<longleftrightarrow> conn_inv k (y_con s) \<and> cn_state (y_con s) = DB_CONN_READY"

lemma frame_inv: "frame c c' \<Longrightarrow> conn_inv k c \<Longrightarrow> conn_inv k c' \<and> cn_state c' = cn_state c"
  by (auto simp: frame_def inv_defs)

lemma driver_frames:
  assumes "driver_ok ops"
  shows "drv_fetch_row ops = Some f \<Longrightarrow> frame c (fst (f c))"
    and "drv_more_results ops = Some g \<Longrightarrow> frame c (fst (g c))"
  using assms by (simp_all add: driver_ok_def)

lemma con_simps [simp]:
  "y_con (on_con f s) = f (y_con s)" "y_prog (on_con f s) = y_prog s"
  "y_con (alert t s) = y_con s" "y_con (fatal t s) = y_con s" "y_con (count_inc k s) = y_con s"
  "y_con (fst (call_drv h s)) = fst (h (y_con s))" "y_prog (fst (call_drv h s)) = y_prog s"
  "snd (call_drv h s) = snd (h (y_con s))"
  by (simp_all add: on_con_def alert_def fatal_def count_inc_def call_drv_def case_prod_beta)

lemma free_results_int:
  assumes "driver_ok ops" "conn_inv k (y_con s)"
  shows "ready k (fst (db_free_results_int ops s))"
proof -
  have "frame (y_con s) (fst (drv_free_results ops (y_con s)))" using assms(1) by (simp add: driver_ok_def)
  with assms(2) show ?thesis
    by (simp add: db_free_results_int_def case_prod_beta Let_def ready_def inv_defs frame_def)
qed

lemma free_pending_ready:
  assumes "driver_ok ops" "conn_inv k (y_con s)" "cn_state (y_con s) \<noteq> DB_CONN_INVALID"
  shows "ready k (fst (free_pending ops s))"
  using free_results_int [OF assms(1,2)] assms(2,3)
  by (cases "cn_state (y_con s)") (simp_all add: free_pending_def ready_def)

lemma finish_call_inv:
  assumes "ready k s" "\<And>c. frame c (fst (f c))"
  shows "conn_inv k (y_con (fst (finish_call f s)))"
  using assms(1) assms(2) [of "y_con s"]
  by (simp add: finish_call_def case_prod_beta Let_def ready_def inv_defs frame_def)

lemma ready_upd:
  "ready k s \<Longrightarrow> ready k (set_statement i s)" "ready k s \<Longrightarrow> ready k (on_con (\<lambda>c. c\<lparr>cn_error := e\<rparr>) s)"
  "ready k s \<Longrightarrow> conn_inv k (y_con s)"
  by (simp_all add: ready_def set_statement_def inv_defs)

lemma query_inv:
  assumes "driver_ok ops" "conn_inv k (y_con s)"
  shows "conn_inv k (y_con (fst (db_query ops q n s)))"
proof (cases "cn_state (y_con s) = DB_CONN_INVALID")
  case True thus ?thesis using assms(2) by (simp add: db_query_def inv_defs)
next
  case False
  note r = free_pending_ready [OF assms False]
  have "frame c (fst (drv_query ops q n c))" for c using assms(1) by (simp add: driver_ok_def)
  from finish_call_inv [OF r this] ready_upd [OF r] False show ?thesis
    by (simp add: db_query_def case_prod_beta Let_def inv_defs)
qed

lemma execute_inv:
  assumes "driver_ok ops" "conn_inv k (y_con s)"
  shows "conn_inv k (y_con (fst (db_execute ops t s)))"
proof (cases "cn_state (y_con s) = DB_CONN_INVALID")
  case False
  note r = free_pending_ready [OF assms False]
  have "frame c (fst (drv_execute ops t c))" for c using assms(1) by (simp add: driver_ok_def)
  from finish_call_inv [OF ready_upd(1) [OF r] this] ready_upd(3) [OF r] False show ?thesis
    by (simp add: db_execute_def case_prod_beta Let_def)
qed (simp add: db_execute_def assms(2))

lemma stmt_next_result_inv:
  assumes "driver_ok ops" "conn_inv k (y_con s)"
  shows "conn_inv k (y_con (fst (db_stmt_next_result ops t s)))"
proof (cases "cn_state (y_con s) = DB_CONN_INVALID")
  case False
  note r = free_pending_ready [OF assms False]
  have "drv_stmt_next_result ops = Some f \<Longrightarrow> frame c (fst (f t c))" for f c using assms(1) by (simp add: driver_ok_def)
  from finish_call_inv [OF ready_upd(1) [OF r] this] ready_upd(3) [OF r] ready_upd(3) [OF ready_upd(2) [OF ready_upd(1) [OF r]]] False
  show ?thesis
    by (auto simp: db_stmt_next_result_def case_prod_beta Let_def split: option.splits)
qed (simp add: db_stmt_next_result_def assms(2))

lemma next_result_inv:
  assumes "driver_ok ops" "conn_inv k (y_con s)"
  shows "conn_inv k (y_con (fst (db_next_result ops s)))"
proof (cases "cn_state (y_con s) = DB_CONN_INVALID")
  case True thus ?thesis using assms(2) by (simp add: db_next_result_def inv_defs)
next
  case False
  note r = free_pending_ready [OF assms False]
  have "drv_next_result ops = Some f \<Longrightarrow> frame c (fst (f c))" for f c using assms(1) by (simp add: driver_ok_def)
  from finish_call_inv [OF r this] ready_upd(3) [OF r] ready_upd(3) [OF ready_upd(2) [OF r]] False show ?thesis
    by (auto simp: db_next_result_def case_prod_beta Let_def split: option.splits)
qed

lemma close_inv:
  assumes "driver_ok ops" "conn_inv k (y_con s)"
  shows "conn_inv k (y_con (fst (db_connection_close ops s)))"
proof (cases "cn_state (y_con s) = DB_CONN_INVALID")
  case False
  note r = free_pending_ready [OF assms False]
  have "frame c (fst (drv_disconnect ops c))" for c using assms(1) by (simp add: driver_ok_def)
  from this [of "y_con (fst (free_pending ops s))"] r False show ?thesis
    by (auto simp: db_connection_close_def free_pending_def case_prod_beta Let_def frame_def ready_def inv_defs)
qed (simp add: db_connection_close_def assms(2))

lemma reconnect_inv:
  assumes "driver_ok ops" "conn_inv k (y_con s)"
  shows "conn_inv k (y_con (fst (db_connection_reconnect ops s)))"
proof (cases "cn_state (y_con s) = DB_CONN_INVALID \<or> drv_reconnect ops = None")
  case False
  then obtain f where f: "drv_reconnect ops = Some f" "cn_state (y_con s) \<noteq> DB_CONN_INVALID" by auto
  note r = free_pending_ready [OF assms f(2)]
  have "frame c (fst (f c))" for c using assms(1) f(1) by (simp add: driver_ok_def)
  from this [of "y_con (fst (free_pending ops s))"] r f show ?thesis
    by (auto simp: db_connection_reconnect_def free_pending_def case_prod_beta Let_def frame_def ready_def inv_defs)
qed (auto simp: db_connection_reconnect_def assms(2) split: option.splits)

lemma fetch_inv:
  assumes "driver_ok ops" "conn_inv k (y_con s)"
  shows "conn_inv k (y_con (fst (db_fetch_row ops s)))"
proof (cases "cn_state (y_con s) = DB_CONN_RESULT_SET")
  case True
  have "drv_fetch_row ops = Some f \<Longrightarrow> conn_inv k c \<Longrightarrow> conn_inv k (fst (f c))" for f c
    using driver_frames(1) [OF assms(1)] frame_inv by blast
  moreover have "conn_inv k (y_con s\<lparr>cn_rs := v\<rparr>)" for v using True assms(2) by (simp add: inv_defs)
  ultimately show ?thesis using True assms(2)
    by (auto simp: db_fetch_row_def case_prod_beta Let_def split: option.splits)
qed (simp add: db_fetch_row_def assms(2))

lemma free_inv:
  assumes "driver_ok ops" "conn_inv k (y_con s)"
  shows "conn_inv k (y_con (fst (db_free_results ops s)))"
  using free_results_int [OF assms] assms(2)
  by (simp add: db_free_results_def ready_def)

lemma close_stmt_inv:
  assumes "driver_ok ops" "conn_inv k (y_con s)"
  shows "conn_inv k (y_con (fst (db_close ops t s)))"
proof (cases "cn_state (y_con s) = DB_CONN_INVALID")
  case False
  note r = free_pending_ready [OF assms False]
  have "frame c (fst (drv_close ops t c))" for c using assms(1) by (simp add: driver_ok_def)
  from frame_inv [OF this [of "y_con (fst (free_pending ops s))"] ready_upd(3) [OF r]] r False show ?thesis
    by (auto simp: db_close_def case_prod_beta Let_def ready_def)
qed (simp add: db_close_def assms(2))

lemma misc_inv:
  assumes "driver_ok ops" "conn_inv k (y_con s)"
  shows "conn_inv k (y_con (fst (db_prepare ops ok i q n s)))"
    "conn_inv k (y_con (fst (db_bind_param ops t vs s)))" "conn_inv k (y_con (fst (db_bind_result ops t vs s)))"
    "conn_inv k (y_con (fst (db_more_results ops s)))"
proof -
  have "frame c (fst (drv_prepare ops t q n c))" "frame c (fst (drv_bind_param ops t vs c))"
    "frame c (fst (drv_bind_result ops t vs c))" for c t using assms(1) by (simp_all add: driver_ok_def)
  note f = this [THEN frame_inv, OF assms(2), THEN conjunct1]
  show "conn_inv k (y_con (fst (db_prepare ops ok i q n s)))"
    using f(1) [of "\<lparr>sm_id = i, sm_query = None, sm_bound_param = None\<rparr>"] assms(2)
    by (simp add: db_prepare_def case_prod_beta Let_def) (simp add: inv_defs)
  show "conn_inv k (y_con (fst (db_bind_param ops t vs s)))" "conn_inv k (y_con (fst (db_bind_result ops t vs s)))"
    using f(2,3) assms(2)
    by (simp_all add: db_bind_param_def db_bind_result_def db_bind_with_def case_prod_beta Let_def)
  have "drv_more_results ops = Some g \<Longrightarrow> conn_inv k (fst (g (y_con s)))" for g
    using driver_frames(2) [OF assms(1)] assms(2) frame_inv by blast
  then show "conn_inv k (y_con (fst (db_more_results ops s)))"
    using assms(2) by (auto simp: db_more_results_def split: option.splits)
qed

lemma do_insert_inv:
  assumes "driver_ok ops" "conn_inv k (y_con s)"
  shows "conn_inv k (y_con (fst (db_bulk_do_insert ops l s)))"
proof -
  have u: "conn_inv k (f c) = conn_inv k c"
    if "f = (\<lambda>c. c\<lparr>bulk_commit_cnt := g c\<rparr>)" for f g and c :: "'a db_conn_t"
    using that by (simp add: inv_defs)
  have v: "conn_inv k c \<Longrightarrow> conn_inv k (c\<lparr>bulk_ptr := p, bulk_cnt := 0\<rparr>)" for p and c :: "'a db_conn_t"
    by (simp add: inv_defs)
  show ?thesis using assms(2)
    by (simp add: db_bulk_do_insert_def case_prod_beta Let_def query_inv [OF assms(1)] u v)
qed

lemma bulk_store_inv:
  assumes "bulk_store q n s = Some (s', rc)" "conn_inv k (y_con s)"
  shows "conn_inv k (y_con s')"
  using assms by (auto simp: bulk_store_def inv_defs Let_def split: option.splits if_splits)

lemma bulk_init_inv:
  assumes "driver_ok ops" "conn_inv k (y_con s)" "db_bulk_insert_init ops fresh q n s = Some (s', rc)"
    and "k \<Longrightarrow> bulk_cnt (y_con s) = 0 \<or> fresh \<noteq> None"
  shows "conn_inv k (y_con s')"
proof (cases "cn_state (y_con s) = DB_CONN_INVALID")
  case False
  note r = free_pending_ready [OF assms(1,2) False]
  have c: "bulk_cnt (y_con (fst (free_pending ops s))) = bulk_cnt (y_con s)"
    using assms(1) by (simp add: free_pending_def db_free_results_int_def case_prod_beta Let_def driver_ok_def frame_def)
  show ?thesis
    using assms(3,4) False r c
    by (auto simp: db_bulk_insert_init_def case_prod_beta Let_def ready_def inv_defs split: option.splits if_splits)
qed (use assms in \<open>auto simp: db_bulk_insert_init_def\<close>)

lemma bulk_next_inv:
  assumes "driver_ok ops" "conn_inv k (y_con s)" "db_bulk_insert_next ops q n s = Some (s', rc)"
  shows "conn_inv k (y_con s')"
proof (cases "cn_state (y_con s) = DB_CONN_INVALID")
  case False
  note r = ready_upd(3) [OF free_pending_ready [OF assms(1,2) False]]
  show ?thesis
    using assms(3) False r do_insert_inv [OF assms(1) r, of False]
    by (auto simp: db_bulk_insert_next_def case_prod_beta Let_def dest: bulk_store_inv split: if_splits)
qed (use assms in \<open>auto simp: db_bulk_insert_next_def\<close>)

lemma db_step_inv:
  assumes "driver_ok ops" "conn_inv k (y_con s)" "db_step ops p s = Some s'"
    and "\<And>q n. k \<Longrightarrow> p = Op_bulk_init None q n \<Longrightarrow> bulk_cnt (y_con s) = 0"
  shows "conn_inv k (y_con s')"
proof (cases p)
  case (Op_bulk_init fresh q n)
  then obtain rc where "db_bulk_insert_init ops fresh q n s = Some (s', rc)"
    using assms(3) by auto
  from bulk_init_inv [OF assms(1,2) this] assms(4) [of q n] Op_bulk_init show ?thesis by auto
next
  case (Op_bulk_next q n)
  then obtain rc where "db_bulk_insert_next ops q n s = Some (s', rc)" using assms(3) by auto
  from bulk_next_inv [OF assms(1,2) this] show ?thesis .
next
  case Op_bulk_done
  have c: "conn_inv k c \<Longrightarrow> snd (db_bulk_do_insert ops True s) = 0 \<Longrightarrow> c = y_con (fst (db_bulk_do_insert ops True s)) \<Longrightarrow>
      bulk_cnt c = 0" for c
    using assms(2) by (auto simp: db_bulk_do_insert_def case_prod_beta Let_def split: if_splits)
  show ?thesis using assms(3) Op_bulk_done do_insert_inv [OF assms(1,2), of True] c
    by (auto simp: db_bulk_insert_done_def case_prod_beta Let_def inv_defs split: if_splits)
qed (use assms close_inv reconnect_inv misc_inv execute_inv stmt_next_result_inv query_inv next_result_inv
      fetch_inv free_inv close_stmt_inv in \<open>auto simp del: One_nat_def\<close>)

text \<open>A closed connection.\<close>

definition closed_like :: "'d db_sys \<Rightarrow> 'd db_sys \<Rightarrow> bool" where
  "closed_like s s' \<longleftrightarrow> cn_state (y_con s') = DB_CONN_INVALID \<and> cn_ptr (y_con s') = cn_ptr (y_con s) \<and>
     p_counters (y_prog s') = p_counters (y_prog s)"

lemma alert_counters [simp]: "p_counters (y_prog (alert t s)) = p_counters (y_prog s)"
  "p_counters (y_prog (fatal t s)) = p_counters (y_prog s)"
  by (simp_all add: alert_def fatal_def say_def)

lemma closed_do_insert:
  "cn_state (y_con s) = DB_CONN_INVALID \<Longrightarrow> closed_like s (fst (db_bulk_do_insert ops l s))"
  by (simp add: db_bulk_do_insert_def closed_like_def db_query_def Let_def)

lemma db_step_closed:
  assumes "db_step ops p s = Some s'" "cn_state (y_con s) = DB_CONN_INVALID"
  shows "closed_like s s'"
proof (cases p)
  case Op_bulk_done
  thus ?thesis using assms closed_do_insert [OF assms(2), of ops True]
    by (auto simp: db_bulk_insert_done_def case_prod_beta Let_def closed_like_def split: if_splits)
next
  case Op_reconnect
  thus ?thesis using assms by (auto simp: db_connection_reconnect_def closed_like_def split: option.splits)
qed (use assms in \<open>auto simp: closed_like_def db_connection_close_def db_prepare_def db_bind_param_def
      db_bind_result_def db_bind_with_def db_execute_def db_stmt_next_result_def db_query_def db_more_results_def
      db_next_result_def db_fetch_row_def db_free_results_def db_close_def db_bulk_insert_init_def
      db_bulk_insert_next_def\<close>)


text \<open>The exception is real: a failed allocation leaves the pending rows without a buffer.\<close>

lemma bulk_init_no_memory:
  assumes "cn_state (y_con s) = DB_CONN_READY" "db_describe ops = Some caps" "n + 1 \<le> of_nat BULK_PACKET_SIZE"
  shows "\<exists>s'. db_bulk_insert_init ops None q n s = Some (s', 1) \<and> bulk_buffer (y_con s') = None \<and>
    bulk_cnt (y_con s') = bulk_cnt (y_con s)"
  using assms by (simp add: db_bulk_insert_init_def free_pending_def not_less [symmetric] Let_def)

section \<open>Multi-row inserts deliver every row\<close>

text \<open>A database that executes every query; \<open>sent\<close> reads the queries it got from the driver's data.\<close>

definition accepting :: "'d drv_ops_t \<Rightarrow> ('d \<Rightarrow> string list) \<Rightarrow> bool" where
  "accepting ops sent \<longleftrightarrow> (\<forall>q n c. snd (drv_query ops q n c) = DB_ERROR_NONE \<and>
     frame c (fst (drv_query ops q n c)) \<and> rs_counter (cn_rs (fst (drv_query ops q n c))) \<noteq> SB_CNT_READ \<and>
     sent (cn_ptr (fst (drv_query ops q n c))) = sent (cn_ptr c) @ [q])"

text \<open>The text of a batch of rows, and what a connection that collects rows looks like.\<close>

fun join_rows :: "string list \<Rightarrow> string" where
  "join_rows [] = []"
| "join_rows [r] = r"
| "join_rows (r # q # rs) = r @ CHR '','' # join_rows (q # rs)"

lemma join_rows_snoc: "join_rows (rs @ [r]) = (if rs = [] then r else join_rows rs @ CHR '','' # r)"
  by (induction rs rule: join_rows.induct) auto

lemma join_rows_length: "length rs \<le> length (join_rows rs) + 1"
  by (induction rs rule: join_rows.induct) auto

definition bulk_text :: "string \<Rightarrow> string list \<Rightarrow> string" where
  "bulk_text pre pend = pre @ join_rows pend"

definition bulk_rep :: "string \<Rightarrow> string list \<Rightarrow> 'd db_conn_t \<Rightarrow> bool" where
  "bulk_rep pre pend c \<longleftrightarrow>
     (\<exists>b. bulk_buffer c = Some b \<and> length b = BULK_PACKET_SIZE \<and>
        take (length (bulk_text pre pend)) b = bulk_text pre pend) \<and>
     bulk_buflen c = of_nat BULK_PACKET_SIZE \<and> bulk_values c = of_nat (length pre) \<and>
     bulk_cnt c = of_nat (length pend) \<and> bulk_ptr c = of_nat (length (bulk_text pre pend)) \<and>
     length (bulk_text pre pend) < BULK_PACKET_SIZE \<and> cn_state c = DB_CONN_READY"

lemma unat_of_nat_16: "n \<le> BULK_PACKET_SIZE + 2 \<Longrightarrow> unat (of_nat n :: u32) = n"
  "n \<le> 4 * BULK_PACKET_SIZE \<Longrightarrow> unat (of_nat n :: u64) = n"
  by (simp_all add: unat_of_nat take_bit_nat_eq_self BULK_PACKET_SIZE_def)

lemma ucast_of_nat: "(ucast (of_nat n :: u64) :: u32) = of_nat n"
  by transfer (simp add: take_bit_take_bit)

lemma ucast_of_nat_up: "n < 2 ^ 32 \<Longrightarrow> (ucast (of_nat n :: u32) :: u64) = of_nat n"
  by transfer (simp add: take_bit_int_eq_self)

lemma strcpy_at_take:
  assumes "i + length t + 1 \<le> length buf"
  shows "\<exists>b. strcpy_at i t buf = Some b \<and> length b = length buf \<and> take (i + length t) b = take i buf @ t"
  using assms by (simp add: strcpy_at_def)

lemma bulk_rep_cnt:
  assumes "bulk_rep pre pend c"
  shows "bulk_cnt c = 0 \<longleftrightarrow> pend = []"
proof -
  have "length pend \<le> BULK_PACKET_SIZE + 2"
    using assms join_rows_length [of pend] by (simp add: bulk_rep_def bulk_text_def)
  from unat_of_nat_16(1) [OF this] have "unat (bulk_cnt c) = length pend" using assms by (simp add: bulk_rep_def)
  thus ?thesis by (metis length_0_conv unat_0 unat_eq_zero)
qed

lemma bulk_store_fits:
  assumes "bulk_rep pre pend (y_con s)"
    and "length (bulk_text pre pend) + length r + 1 + (if pend = [] then 0 else 1) \<le> BULK_PACKET_SIZE"
  shows "\<exists>s'. bulk_store r (of_nat (length r)) s = Some (s', 0) \<and> bulk_rep pre (pend @ [r]) (y_con s') \<and>
    cn_ptr (y_con s') = cn_ptr (y_con s) \<and> bulk_commit_max (y_con s') = bulk_commit_max (y_con s) \<and>
    bulk_commit_cnt (y_con s') = bulk_commit_cnt (y_con s)"
proof -
  let ?c = "y_con s" and ?p = "length (bulk_text pre pend)"
  obtain b where b: "bulk_buffer ?c = Some b" "length b = BULK_PACKET_SIZE" "take ?p b = bulk_text pre pend"
    using assms(1) by (auto simp: bulk_rep_def)
  have p: "unat (bulk_ptr ?c) = ?p" "?p < length b"
    using assms(1) b(2) unat_of_nat_16(1) [of ?p] by (simp_all add: bulk_rep_def)
  have cnt: "bulk_cnt ?c > 0 \<longleftrightarrow> pend \<noteq> []"
    using bulk_rep_cnt [OF assms(1)] by (simp add: word_gt_0)
  have bt: "bulk_text pre (pend @ [r]) = bulk_text pre pend @ (if pend = [] then [] else [CHR '','']) @ r"
    by (simp add: bulk_text_def join_rows_snoc)
  let ?copied = "if pend \<noteq> [] then if ?p < length b then strcpy_at (?p + 1) r (b[?p := CHR '','']) else None
      else strcpy_at ?p r b"
  have "\<exists>b'. ?copied = Some b' \<and> length b' = length b \<and>
      take (length (bulk_text pre (pend @ [r]))) b' = bulk_text pre (pend @ [r])"
  proof (cases "pend = []")
    case True
    have "bulk_text pre [r] = bulk_text pre [] @ r" by (simp add: bulk_text_def)
    thus ?thesis using strcpy_at_take [of ?p r b] assms(2) b p(2) True by auto
  next
    case False
    have "take (?p + 1) (b[?p := CHR '','']) = bulk_text pre pend @ [CHR '','']"
      using p(2) b(3) by (simp add: take_Suc_conv_app_nth)
    with strcpy_at_take [of "?p + 1" r "b[?p := CHR '','']"] False assms(2) b(2) p(2) show ?thesis
      by (auto simp: bt)
  qed
  then obtain b' where b': "?copied = Some b'" "length b' = length b"
    "take (length (bulk_text pre (pend @ [r]))) b' = bulk_text pre (pend @ [r])" by blast
  have ptr: "of_nat ?p + ucast (of_nat (length r) + (if bulk_cnt ?c > 0 then 1 else 0) :: u64) =
      (of_nat (length (bulk_text pre (pend @ [r]))) :: u32)"
  proof (cases "pend = []")
    case True
    thus ?thesis using cnt by (simp add: bulk_text_def ucast_of_nat)
  next
    case False
    have "(of_nat (length r) + 1 :: u64) = of_nat (length r + 1)" by simp
    hence "ucast (of_nat (length r) + 1 :: u64) = (of_nat (length r + 1) :: u32)"
      by (simp only: ucast_of_nat)
    thus ?thesis using False cnt by (simp add: bt)
  qed
  let ?c' = "?c\<lparr>bulk_buffer := Some b', bulk_ptr := of_nat (length (bulk_text pre (pend @ [r]))), bulk_cnt := bulk_cnt ?c + 1\<rparr>"
  have bp: "bulk_ptr ?c = of_nat ?p" using assms(1) by (simp add: bulk_rep_def)
  have "bulk_store r (of_nat (length r)) s = Some (s\<lparr>y_con := ?c'\<rparr>, 0)"
    unfolding bulk_store_def Let_def cnt bp ptr [symmetric, unfolded cnt]
    by (simp only: b(1) option.case p(1) [unfolded bp] b'(1))
  moreover have "length (bulk_text pre (pend @ [r])) < BULK_PACKET_SIZE"
    using assms(2) by (auto simp: bt)
  moreover have "bulk_rep pre (pend @ [r]) ?c'"
    using assms(1) b'(2,3) b(2) calculation(2) by (simp add: bulk_rep_def)
  ultimately show ?thesis by simp
qed

lemma query_accepted:
  assumes "accepting ops sent" "cn_state (y_con s) = DB_CONN_READY"
  shows "\<exists>s'. db_query ops q n s = (s', False) \<and> cn_error (y_con s') = DB_ERROR_NONE \<and>
    frame (y_con s) (y_con s') \<and> sent (cn_ptr (y_con s')) = sent (cn_ptr (y_con s)) @ [q]"
proof -
  have "snd (drv_query ops q n (y_con s)) = DB_ERROR_NONE" "frame (y_con s) (fst (drv_query ops q n (y_con s)))"
    "rs_counter (cn_rs (fst (drv_query ops q n (y_con s)))) \<noteq> SB_CNT_READ"
    "sent (cn_ptr (fst (drv_query ops q n (y_con s)))) = sent (cn_ptr (y_con s)) @ [q]"
    using assms(1) by (simp_all add: accepting_def)
  thus ?thesis using assms(2)
    by (simp add: db_query_def free_pending_def finish_call_def case_prod_beta Let_def frame_def)
qed

lemma bulk_rep_frame: "frame c c' \<Longrightarrow> bulk_rep pre pend c \<Longrightarrow> bulk_rep pre pend c'"
  by (simp add: bulk_rep_def frame_def)

lemma bulk_rep_flushed:
  assumes "bulk_rep pre pend c"
  shows "bulk_rep pre [] (c\<lparr>bulk_ptr := bulk_values c, bulk_cnt := 0\<rparr>)"
proof -
  obtain b where b: "bulk_buffer c = Some b" "length b = BULK_PACKET_SIZE" "take (length (bulk_text pre pend)) b = bulk_text pre pend"
    using assms by (auto simp: bulk_rep_def)
  have "take (length pre) b = pre"
    using arg_cong [OF b(3), of "take (length pre)"] by (simp add: bulk_text_def min_def)
  thus ?thesis using assms b by (simp add: bulk_rep_def bulk_text_def)
qed

lemma bulk_rep_buffer_text:
  assumes "bulk_rep pre pend c"
  shows "buffer_text c = bulk_text pre pend"
  using assms unat_of_nat_16(1) [of "length (bulk_text pre pend)"] by (auto simp: bulk_rep_def buffer_text_def)

text \<open>What a flush adds to the queries: the batch, and perhaps a commit.\<close>

definition batch :: "string \<Rightarrow> string list \<times> bool \<Rightarrow> string list" where
  "batch pre bk = bulk_text pre (fst bk) # (if snd bk then [''COMMIT''] else [])"

lemma bulk_flush:
  assumes "accepting ops sent" "bulk_rep pre pend (y_con s)" "pend \<noteq> []"
  shows "\<exists>s' k. db_bulk_do_insert ops is_last s = (s', 0) \<and> bulk_rep pre [] (y_con s') \<and>
    sent (cn_ptr (y_con s')) = sent (cn_ptr (y_con s)) @ batch pre (pend, k) \<and>
    bulk_commit_max (y_con s') = bulk_commit_max (y_con s) \<and>
    (bulk_commit_max (y_con s) = 0 \<longrightarrow> \<not> k) \<and> (bulk_commit_max (y_con s) \<noteq> 0 \<and> is_last \<longrightarrow> k)"
proof -
  have cnt: "bulk_cnt (y_con s) \<noteq> 0" using bulk_rep_cnt [OF assms(2)] assms(3) by simp
  have rdy: "cn_state (y_con s) = DB_CONN_READY" using assms(2) by (simp add: bulk_rep_def)
  obtain s1 where s1: "db_query ops (bulk_text pre pend) (ucast (bulk_ptr (y_con s))) s = (s1, False)"
    "cn_error (y_con s1) = DB_ERROR_NONE" "frame (y_con s) (y_con s1)"
    "sent (cn_ptr (y_con s1)) = sent (cn_ptr (y_con s)) @ [bulk_text pre pend]"
    using query_accepted [OF assms(1) rdy] by blast
  have m: "bulk_commit_max (y_con s1) = bulk_commit_max (y_con s)" using s1(3) by (simp add: frame_def)
  note r1 = bulk_rep_frame [OF s1(3) assms(2)]
  let ?s2 = "on_con (\<lambda>c. c\<lparr>bulk_commit_cnt := bulk_commit_cnt c + bulk_cnt c\<rparr>) s1"
  have r2: "bulk_rep pre pend (y_con ?s2)" using r1 by (simp add: bulk_rep_def)
  hence rdy2: "cn_state (y_con ?s2) = DB_CONN_READY" by (simp add: bulk_rep_def)
  obtain s3 where s3: "db_query ops ''COMMIT'' 6 ?s2 = (s3, False)"
    "cn_error (y_con s3) = DB_ERROR_NONE" "frame (y_con ?s2) (y_con s3)"
    "sent (cn_ptr (y_con s3)) = sent (cn_ptr (y_con ?s2)) @ [''COMMIT'']"
    using query_accepted [OF assms(1) rdy2] by blast
  have r3: "bulk_rep pre pend (y_con (on_con (\<lambda>c. c\<lparr>bulk_commit_cnt := 0\<rparr>) s3))"
    using bulk_rep_frame [OF s3(3) r2] by (simp add: bulk_rep_def)
  have m3: "bulk_commit_max (y_con s3) = bulk_commit_max (y_con s)" using s3(3) m by (simp add: frame_def)
  let ?k = "bulk_commit_max (y_con s) \<noteq> 0 \<and> (is_last \<or> bulk_commit_cnt (y_con ?s2) \<ge> bulk_commit_max (y_con s))"
  show ?thesis
    using cnt s1 s3 m m3 bulk_rep_flushed [OF r1] bulk_rep_flushed [OF r2] bulk_rep_flushed [OF r3]
    by (intro exI [of _ "fst (db_bulk_do_insert ops is_last s)"] exI [of _ ?k])
      (simp add: db_bulk_do_insert_def bulk_rep_buffer_text [OF assms(2)] Let_def batch_def)
qed

lemma bulk_full_iff:
  assumes "bulk_rep pre pend c" "length r \<le> BULK_PACKET_SIZE"
  shows "ucast (bulk_ptr c) + of_nat (length r) + 1 + (if bulk_cnt c > 0 then 1 else 0) > (ucast (bulk_buflen c) :: u64) \<longleftrightarrow>
    BULK_PACKET_SIZE < length (bulk_text pre pend) + length r + 1 + (if pend = [] then 0 else 1)"
proof -
  let ?p = "length (bulk_text pre pend)"
  have c: "ucast (bulk_ptr c) = (of_nat ?p :: u64)" "ucast (bulk_buflen c) = (of_nat BULK_PACKET_SIZE :: u64)"
    "bulk_cnt c > 0 \<longleftrightarrow> pend \<noteq> []" "?p < BULK_PACKET_SIZE"
    using assms(1) bulk_rep_cnt [OF assms(1)]
    by (auto simp: bulk_rep_def word_gt_0 BULK_PACKET_SIZE_def intro!: ucast_of_nat_up)
  let ?k = "if pend = [] then 0 else 1 :: nat"
  have e: "ucast (bulk_ptr c) + of_nat (length r) + 1 + (if bulk_cnt c > 0 then 1 else 0) =
      (of_nat (?p + length r + 1 + ?k) :: u64)"
    unfolding c(1,3) by simp
  have "unat (of_nat (?p + length r + 1 + ?k) :: u64) = ?p + length r + 1 + ?k"
    by (rule unat_of_nat_16(2)) (use c(4) assms(2) in \<open>auto simp: BULK_PACKET_SIZE_def\<close>)
  moreover have "unat (of_nat BULK_PACKET_SIZE :: u64) = BULK_PACKET_SIZE"
    by (rule unat_of_nat_16(2)) simp
  ultimately show ?thesis unfolding e c(2) by (simp only: word_less_nat_alt)
qed

lemma bulk_next_full:
  assumes "accepting ops sent" "bulk_rep pre pend (y_con s)" "pend \<noteq> []" "length r \<le> BULK_PACKET_SIZE"
    and "BULK_PACKET_SIZE < length (bulk_text pre pend) + length r + 2"
  shows "\<exists>s1 k. db_bulk_insert_next ops r (of_nat (length r)) s = bulk_store r (of_nat (length r)) s1 \<and>
    bulk_rep pre [] (y_con s1) \<and> sent (cn_ptr (y_con s1)) = sent (cn_ptr (y_con s)) @ batch pre (pend, k) \<and>
    bulk_commit_max (y_con s1) = bulk_commit_max (y_con s) \<and> (bulk_commit_max (y_con s) = 0 \<longrightarrow> \<not> k)"
proof -
  obtain s1 k where f: "db_bulk_do_insert ops False s = (s1, 0)" "bulk_rep pre [] (y_con s1)"
    "sent (cn_ptr (y_con s1)) = sent (cn_ptr (y_con s)) @ batch pre (pend, k)"
    "bulk_commit_max (y_con s1) = bulk_commit_max (y_con s)" "bulk_commit_max (y_con s) = 0 \<longrightarrow> \<not> k"
    using bulk_flush [OF assms(1-3), of False] by blast
  have n: "bulk_cnt (y_con s) \<noteq> 0" "bulk_buffer (y_con s) \<noteq> None" "cn_state (y_con s) = DB_CONN_READY"
    using bulk_rep_cnt [OF assms(2)] assms(2,3) by (auto simp: bulk_rep_def)
  have "db_bulk_insert_next ops r (of_nat (length r)) s = bulk_store r (of_nat (length r)) s1"
    using n f(1) bulk_full_iff [OF assms(2,4)] assms(3,5)
    by (auto simp: db_bulk_insert_next_def free_pending_def)
  with f show ?thesis by blast
qed

lemma bulk_next_fits:
  assumes "bulk_rep pre pend (y_con s)" "length r \<le> BULK_PACKET_SIZE"
    and "\<not> BULK_PACKET_SIZE < length (bulk_text pre pend) + length r + 1 + (if pend = [] then 0 else 1)"
  shows "db_bulk_insert_next ops r (of_nat (length r)) s = bulk_store r (of_nat (length r)) s"
proof -
  have n: "bulk_buffer (y_con s) \<noteq> None" "cn_state (y_con s) = DB_CONN_READY"
    using assms(1) by (auto simp: bulk_rep_def)
  thus ?thesis using bulk_full_iff [OF assms(1,2)] assms(3)
    by (auto simp: db_bulk_insert_next_def free_pending_def)
qed

lemma bulk_store_overflow:
  assumes "bulk_rep pre [] (y_con s)" "BULK_PACKET_SIZE < length pre + length r + 1"
  shows "bulk_store r n s = None"
proof -
  obtain b where b: "bulk_buffer (y_con s) = Some b" "length b = BULK_PACKET_SIZE" "bulk_cnt (y_con s) = 0"
    "bulk_ptr (y_con s) = of_nat (length pre)" "length pre < BULK_PACKET_SIZE"
    using assms(1) by (auto simp: bulk_rep_def bulk_text_def)
  have "unat (of_nat (length pre) :: u32) = length pre" using unat_of_nat_16(1) [of "length pre"] b(5) by simp
  thus ?thesis using assms(2) b by (simp add: bulk_store_def Let_def strcpy_at_def)
qed


text \<open>Inserting a list of rws, one call each.\<close>

fun bulk_insert_rows :: "'d drv_ops_t \<Rightarrow> string list \<Rightarrow> 'd db_sys \<Rightarrow> 'd db_sys option" where
  "bulk_insert_rows ops [] s = Some s"
| "bulk_insert_rows ops (r # rs) s =
     (case db_bulk_insert_next ops r (of_nat (length r)) s of
        Some (s, rc) \<Rightarrow> if rc = 0 then bulk_insert_rows ops rs s else None
      | None \<Rightarrow> None)"

definition good_batches :: "string \<Rightarrow> bool \<Rightarrow> (string list \<times> bool) list \<Rightarrow> bool" where
  "good_batches pre commits bs \<longleftrightarrow> list_all (\<lambda>(b, k). b \<noteq> [] \<and> length (bulk_text pre b) < BULK_PACKET_SIZE \<and>
     (\<not> commits \<longrightarrow> \<not> k)) bs"

lemma bulk_rows_run:
  assumes "accepting ops sent" "bulk_rep pre pend (y_con s)"
    and "\<forall>r \<in> set rws. length pre + length r + 1 \<le> BULK_PACKET_SIZE"
  shows "\<exists>s1 bs pend'. bulk_insert_rows ops rws s = Some s1 \<and> bulk_rep pre pend' (y_con s1) \<and>
    sent (cn_ptr (y_con s1)) = sent (cn_ptr (y_con s)) @ concat (map (batch pre) bs) \<and>
    concat (map fst bs) @ pend' = pend @ rws \<and> good_batches pre (bulk_commit_max (y_con s) \<noteq> 0) bs \<and>
    bulk_commit_max (y_con s1) = bulk_commit_max (y_con s) \<and> (pend' = [] \<longrightarrow> pend = [] \<and> rws = [])"
  using assms(2,3)
proof (induction rws arbitrary: s pend)
  case Nil
  thus ?case by (intro exI [of _ s] exI [of _ "[]"] exI [of _ pend]) (simp add: good_batches_def)
next
  case (Cons r rws)
  have r: "length pre + length r + 1 \<le> BULK_PACKET_SIZE" "length r \<le> BULK_PACKET_SIZE"
    and rs: "\<forall>r \<in> set rws. length pre + length r + 1 \<le> BULK_PACKET_SIZE"
    using Cons.prems(2) by auto
  show ?case
  proof (cases "BULK_PACKET_SIZE < length (bulk_text pre pend) + length r + 1 + (if pend = [] then 0 else 1)")
    case False
    then obtain s1 where s1: "db_bulk_insert_next ops r (of_nat (length r)) s = Some (s1, 0)"
      "bulk_rep pre (pend @ [r]) (y_con s1)" "cn_ptr (y_con s1) = cn_ptr (y_con s)"
      "bulk_commit_max (y_con s1) = bulk_commit_max (y_con s)"
      using bulk_store_fits [OF Cons.prems(1), of r] bulk_next_fits [OF Cons.prems(1) r(2) False] by auto
    from Cons.IH [OF s1(2) rs] s1 show ?thesis by simp
  next
    case True
    hence ne: "pend \<noteq> []" using r(1) by (auto simp: bulk_text_def)
    with True have "BULK_PACKET_SIZE < length (bulk_text pre pend) + length r + 2" by simp
    then obtain s0 k where s0: "db_bulk_insert_next ops r (of_nat (length r)) s = bulk_store r (of_nat (length r)) s0"
      "bulk_rep pre [] (y_con s0)" "sent (cn_ptr (y_con s0)) = sent (cn_ptr (y_con s)) @ batch pre (pend, k)"
      "bulk_commit_max (y_con s0) = bulk_commit_max (y_con s)" "bulk_commit_max (y_con s) = 0 \<longrightarrow> \<not> k"
      using bulk_next_full [OF assms(1) Cons.prems(1) ne r(2)] by blast
    have "length (bulk_text pre []) + length r + 1 + (if [] = ([] :: string list) then 0 else 1) \<le> BULK_PACKET_SIZE"
      using r(1) by (simp add: bulk_text_def)
    from bulk_store_fits [OF s0(2) this] s0 obtain s1 where
      s1: "db_bulk_insert_next ops r (of_nat (length r)) s = Some (s1, 0)" "bulk_rep pre [r] (y_con s1)"
      "cn_ptr (y_con s1) = cn_ptr (y_con s0)" "bulk_commit_max (y_con s1) = bulk_commit_max (y_con s)" by auto
    obtain s2 bs pend' where i: "bulk_insert_rows ops rws s1 = Some s2" "bulk_rep pre pend' (y_con s2)"
      "sent (cn_ptr (y_con s2)) = sent (cn_ptr (y_con s1)) @ concat (map (batch pre) bs)"
      "concat (map fst bs) @ pend' = [r] @ rws" "good_batches pre (bulk_commit_max (y_con s1) \<noteq> 0) bs"
      "bulk_commit_max (y_con s2) = bulk_commit_max (y_con s1)" "pend' \<noteq> []"
      using Cons.IH [OF s1(2) rs] by blast
    have "length (bulk_text pre pend) < BULK_PACKET_SIZE" using Cons.prems(1) by (simp add: bulk_rep_def)
    hence "good_batches pre (bulk_commit_max (y_con s) \<noteq> 0) ((pend, k) # bs)"
      using i(5) s0(5) s1(4) ne by (simp add: good_batches_def)
    with i s0(3-5) s1(1,3,4) show ?thesis
      by (intro exI [of _ s2] exI [of _ "(pend, k) # bs"] exI [of _ pend']) simp
  qed
qed

lemma bulk_init_rep:
  assumes "db_bulk_insert_init ops (Some bytes) pre (of_nat (length pre)) s = Some (s0, 0)"
    and "length bytes = BULK_PACKET_SIZE" "length pre \<le> BULK_PACKET_SIZE" "cn_state (y_con s) = DB_CONN_READY"
  shows "bulk_rep pre [] (y_con s0) \<and> cn_ptr (y_con s0) = cn_ptr (y_con s) \<and>
    (bulk_commit_max (y_con s0) \<noteq> 0 \<longleftrightarrow> (\<exists>caps. db_describe ops = Some caps \<and> needs_commit caps))"
proof -
  have n: "\<not> of_nat (length pre) + 1 > (of_nat BULK_PACKET_SIZE :: u64)"
    using assms(1,4) by (auto simp: db_bulk_insert_init_def free_pending_def split: option.splits)
  have "unat (of_nat (length pre) + 1 :: u64) = length pre + 1"
    using unat_of_nat_16(2) [of "length pre + 1"] assms(3) by (simp add: add.commute BULK_PACKET_SIZE_def)
  moreover have "unat (of_nat BULK_PACKET_SIZE :: u64) = BULK_PACKET_SIZE" by (rule unat_of_nat_16(2)) simp
  ultimately have p: "length pre < BULK_PACKET_SIZE"
    using n unfolding word_less_nat_alt by linarith
  obtain b where "strcpy_at 0 pre bytes = Some b" "length b = BULK_PACKET_SIZE" "take (length pre) b = pre"
    using strcpy_at_take [of 0 pre bytes] assms(2) p by auto
  thus ?thesis using assms(1,4) p n
    by (auto simp: db_bulk_insert_init_def free_pending_def Let_def bulk_rep_def bulk_text_def ucast_of_nat
        ROWS_BEFORE_COMMIT_def split: option.splits if_splits)
qed


section \<open>A sample database\<close>

definition sample_query :: "string \<Rightarrow> u64 \<Rightarrow> string list db_conn_t \<Rightarrow> string list db_conn_t \<times> db_error_t" where
  "sample_query q n c = (c\<lparr>cn_ptr := cn_ptr c @ [q], cn_rs := (cn_rs c)\<lparr>rs_counter := SB_CNT_WRITE\<rparr>\<rparr>, DB_ERROR_NONE)"

definition sample_drv :: "string list drv_ops_t" where
  "sample_drv = \<lparr>drv_init = \<lambda>_. 0, drv_thread_init = None,
     drv_describe = Some (\<lparr>multi_rows_insert = True, prepared_statements = True, auto_increment = True,
       needs_commit = True, serial_clause = False, unsigned_int = True\<rparr>, 0),
     drv_connect = \<lambda>c. (c, 0), drv_disconnect = \<lambda>c. (c, 0), drv_reconnect = None,
     drv_prepare = \<lambda>t _ _ c. (c, t, 0), drv_bind_param = \<lambda>t _ c. (c, t, 0), drv_bind_result = \<lambda>t _ c. (c, t, 0),
     drv_execute = \<lambda>_ c. (c, DB_ERROR_NONE), drv_stmt_next_result = None, drv_fetch_row = None,
     drv_free_results = \<lambda>c. (c, 0), drv_more_results = None, drv_next_result = None,
     drv_close = \<lambda>_ c. (c, 0), drv_query = sample_query, drv_thread_done = None\<rparr>"

definition sample_sys :: "string list db_sys" where
  "sample_sys = \<lparr>y_con = zero_conn [], y_prog = sample_prog\<rparr>"

lemma sample_accepting: "accepting sample_drv id" and sample_drv_ok: "driver_ok sample_drv"
  by (simp_all add: accepting_def driver_ok_def sample_drv_def sample_query_def frame_def)


definition pending_row :: "string list db_conn_t" where
  "pending_row = (zero_conn [])\<lparr>bulk_buffer := Some (''i(1)'' @ replicate (BULK_PACKET_SIZE - 4) CHR ''x''),
     bulk_buflen := of_nat BULK_PACKET_SIZE, bulk_values := 1, bulk_cnt := 1, bulk_ptr := 4\<rparr>"



end
