(* ===== verification/DriverProps.thy ===== *)
theory DriverProps
  imports DbProps
begin

text \<open>
  The interface between the database layer and a driver where result sets are concerned, and
  what the layer does with it: a driver holds a result set exactly while the connection is in
  the state \<open>DB_CONN_RESULT_SET\<close>, whatever sequence of plain operations works on it.
\<close>

section \<open>The contract\<close>

text \<open>What every operation that asks for a result does: the connection holds a result set afterwards
  exactly when the operation succeeds as a read.\<close>

definition answers ::
  "('d db_conn_t \<Rightarrow> bool) \<Rightarrow> ('d db_conn_t \<Rightarrow> bool) \<Rightarrow> ('d db_conn_t \<Rightarrow> 'd db_conn_t \<times> db_error_t) \<Rightarrow> bool" where
  "answers good has_rs f \<longleftrightarrow> (\<forall>c. good c \<and> \<not> has_rs c \<longrightarrow> good (fst (f c)) \<and>
     (has_rs (fst (f c)) \<longleftrightarrow> snd (f c) = DB_ERROR_NONE \<and> rs_counter (cn_rs (fst (f c))) = SB_CNT_READ))"

text \<open>The operations without prepared statements.\<close>

fun plain :: "db_op \<Rightarrow> bool" where
  "plain Op_close_connection = True"
| "plain Op_reconnect = True"
| "plain (Op_query q n) = True"
| "plain Op_more_results = True"
| "plain Op_next_result = True"
| "plain Op_fetch_row = True"
| "plain Op_free_results = True"
| "plain (Op_bulk_init b q n) = True"
| "plain (Op_bulk_next q n) = True"
| "plain Op_bulk_done = True"
| "plain _ = False"

definition tied :: "('d db_conn_t \<Rightarrow> bool) \<Rightarrow> ('d db_conn_t \<Rightarrow> bool) \<Rightarrow> 'd db_sys \<Rightarrow> bool" where
  "tied good has_rs s \<longleftrightarrow> good (y_con s) \<and> (has_rs (y_con s) \<longleftrightarrow> cn_state (y_con s) = DB_CONN_RESULT_SET)"

text \<open>\<open>good\<close> is what the driver keeps true of its data, \<open>has_rs\<close> says that it holds a result set.  The layer
  changes neither, by its own fields or by forgetting the statement of a result set.\<close>

locale result_driver =
  fixes ops :: "'d drv_ops_t" and good has_rs :: "'d db_conn_t \<Rightarrow> bool"
  assumes frames: "driver_ok ops"
    and layer: "good c \<Longrightarrow> cn_ptr c' = cn_ptr c \<Longrightarrow>
      rs_statement (cn_rs c') = rs_statement (cn_rs c) \<or> rs_statement (cn_rs c') = None \<Longrightarrow>
      good c' \<and> has_rs c' = has_rs c"
    and query: "answers good has_rs (drv_query ops q n)"
    and next_result: "drv_next_result ops = Some f \<Longrightarrow> answers good has_rs f"
    and free: "good c \<Longrightarrow> has_rs c \<Longrightarrow> snd (drv_free_results ops c) = 0 \<and>
      good (fst (drv_free_results ops c)) \<and> \<not> has_rs (fst (drv_free_results ops c))"
    and fetch: "drv_fetch_row ops = Some k \<Longrightarrow> good c \<Longrightarrow> has_rs c \<Longrightarrow> rs_values (cn_rs c) \<noteq> None \<Longrightarrow>
      good (fst (k c)) \<and> has_rs (fst (k c))"
    and more: "drv_more_results ops = Some g \<Longrightarrow> good c \<Longrightarrow> good (fst (g c)) \<and> has_rs (fst (g c)) = has_rs c"
    and disconnect: "good c \<Longrightarrow> \<not> has_rs c \<Longrightarrow>
      good (fst (drv_disconnect ops c)) \<and> \<not> has_rs (fst (drv_disconnect ops c))"
    and reconnect: "drv_reconnect ops = Some h \<Longrightarrow> good c \<Longrightarrow> \<not> has_rs c \<Longrightarrow>
      good (fst (h c)) \<and> \<not> has_rs (fst (h c))"
begin

abbreviation "ok \<equiv> tied good has_rs"

lemma layerD:
  assumes "good c"
  shows "good (c\<lparr>cn_state := x\<rparr>)" "has_rs (c\<lparr>cn_state := x\<rparr>) = has_rs c"
    "good (c\<lparr>cn_error := e\<rparr>)" "has_rs (c\<lparr>cn_error := e\<rparr>) = has_rs c"
    "good (c\<lparr>cn_rs := (cn_rs c)\<lparr>rs_values := v\<rparr>\<rparr>)" "has_rs (c\<lparr>cn_rs := (cn_rs c)\<lparr>rs_values := v\<rparr>\<rparr>) = has_rs c"
  using layer [OF assms, of "c\<lparr>cn_state := x\<rparr>"] layer [OF assms, of "c\<lparr>cn_error := e\<rparr>"]
    layer [OF assms, of "c\<lparr>cn_rs := (cn_rs c)\<lparr>rs_values := v\<rparr>\<rparr>"] by simp_all

lemma ok_layer:
  assumes "ok s" "cn_ptr (y_con s') = cn_ptr (y_con s)" "rs_statement (cn_rs (y_con s')) = rs_statement (cn_rs (y_con s))"
    and "cn_state (y_con s') = cn_state (y_con s)"
  shows "ok s'"
  using assms layer [of "y_con s" "y_con s'"] by (simp add: tied_def)

lemma free_int:
  assumes "ok s" "cn_state (y_con s) = DB_CONN_RESULT_SET"
  shows "snd (db_free_results_int ops s) = 0 \<and> ok (fst (db_free_results_int ops s)) \<and>
    cn_state (y_con (fst (db_free_results_int ops s))) = DB_CONN_READY"
proof -
  let ?c = "fst (drv_free_results ops (y_con s))"
  let ?c' = "y_con (fst (db_free_results_int ops s))"
  from free [of "y_con s"] assms have f: "snd (drv_free_results ops (y_con s)) = 0" "good ?c" "\<not> has_rs ?c"
    by (simp_all add: tied_def)
  have c': "?c' = ?c\<lparr>cn_rs := (cn_rs ?c)\<lparr>rs_values := None, rs_nrows := 0, rs_nfields := 0, rs_statement := None\<rparr>,
      cn_state := DB_CONN_READY\<rparr>" "snd (db_free_results_int ops s) = snd (drv_free_results ops (y_con s))"
    by (simp_all add: db_free_results_int_def case_prod_beta Let_def)
  from layer [OF f(2), of ?c'] f show ?thesis by (simp add: tied_def c')
qed

lemma pending:
  assumes "ok s" "cn_state (y_con s) \<noteq> DB_CONN_INVALID"
  shows "snd (free_pending ops s) = 0" "ok (fst (free_pending ops s))"
    "cn_state (y_con (fst (free_pending ops s))) = DB_CONN_READY"
  using free_int [OF assms(1)] assms by (cases "cn_state (y_con s)"; simp add: free_pending_def)+

lemma finish:
  assumes "ok s" "cn_state (y_con s) = DB_CONN_READY" "answers good has_rs f" "\<And>c. frame c (fst (f c))"
  shows "ok (fst (finish_call f s))"
proof -
  have a: "good (fst (f (y_con s)))" "has_rs (fst (f (y_con s))) \<longleftrightarrow> snd (f (y_con s)) = DB_ERROR_NONE \<and>
      rs_counter (cn_rs (fst (f (y_con s)))) = SB_CNT_READ"
    using assms(1-3) by (auto simp: answers_def tied_def)
  have "cn_state (fst (f (y_con s))) = DB_CONN_READY" using assms(2) assms(4) [of "y_con s"] by (simp add: frame_def)
  then show ?thesis using a layerD [OF layerD(3) [OF a(1)]] layerD [OF a(1)]
    by (simp add: finish_call_def case_prod_beta Let_def tied_def)
qed

lemma query_ok:
  assumes "ok s"
  shows "ok (fst (db_query ops q n s))"
proof (cases "cn_state (y_con s) = DB_CONN_INVALID")
  case True
  then show ?thesis using ok_layer [OF assms] by (simp add: db_query_def)
next
  case False
  note p = pending [OF assms False]
  have "frame c (fst (drv_query ops q n c))" for c using frames by (simp add: driver_ok_def)
  from finish [OF p(2,3) query this] p(1) False show ?thesis
    by (simp add: db_query_def case_prod_beta Let_def)
qed

lemma next_ok:
  assumes "ok s"
  shows "ok (fst (db_next_result ops s))"
proof (cases "cn_state (y_con s) = DB_CONN_INVALID")
  case True
  then show ?thesis using ok_layer [OF assms] by (simp add: db_next_result_def)
next
  case False
  note p = pending [OF assms False]
  show ?thesis
  proof (cases "drv_next_result ops")
    case None
    then show ?thesis using p(1) False ok_layer [OF p(2)]
      by (simp add: db_next_result_def case_prod_beta Let_def)
  next
    case (Some f)
    have "frame c (fst (f c))" for c using frames Some by (simp add: driver_ok_def)
    from finish [OF p(2,3) next_result [OF Some] this] p(1) False Some show ?thesis
      by (simp add: db_next_result_def case_prod_beta Let_def)
  qed
qed

lemma close_ok:
  assumes "ok s"
  shows "ok (fst (db_connection_close ops s))"
proof (cases "cn_state (y_con s) = DB_CONN_INVALID")
  case True
  then show ?thesis using ok_layer [OF assms] by (simp add: db_connection_close_def)
next
  case False
  let ?s = "fst (free_pending ops s)"
  note p = pending [OF assms False]
  have d: "good (fst (drv_disconnect ops (y_con ?s)))" "\<not> has_rs (fst (drv_disconnect ops (y_con ?s)))"
    using disconnect [of "y_con ?s"] p by (simp_all add: tied_def)
  have "(if cn_state (y_con s) = DB_CONN_RESULT_SET then fst (db_free_results_int ops s) else s) = ?s"
    by (simp add: free_pending_def)
  then show ?thesis using False layerD [OF d(1)] d
    by (simp add: db_connection_close_def case_prod_beta Let_def tied_def)
qed

lemma reconnect_ok:
  assumes "ok s"
  shows "ok (fst (db_connection_reconnect ops s))"
proof (cases "cn_state (y_con s) = DB_CONN_INVALID \<or> drv_reconnect ops = None")
  case True
  then show ?thesis using ok_layer [OF assms] by (auto simp: db_connection_reconnect_def split: option.splits)
next
  case False
  then obtain h where h: "drv_reconnect ops = Some h" "cn_state (y_con s) \<noteq> DB_CONN_INVALID" by auto
  let ?s = "fst (free_pending ops s)"
  note p = pending [OF assms h(2)]
  have d: "good (fst (h (y_con ?s)))" "\<not> has_rs (fst (h (y_con ?s)))"
    using reconnect [OF h(1), of "y_con ?s"] p by (simp_all add: tied_def)
  have "(if cn_state (y_con s) = DB_CONN_RESULT_SET then fst (db_free_results_int ops s) else s) = ?s"
    by (simp add: free_pending_def)
  then show ?thesis using h layerD [OF d(1)] d
    by (simp add: db_connection_reconnect_def case_prod_beta Let_def tied_def)
qed

lemma fetch_ok:
  assumes "ok s"
  shows "ok (fst (db_fetch_row ops s))"
proof (cases "cn_state (y_con s) = DB_CONN_RESULT_SET")
  case False
  then show ?thesis using ok_layer [OF assms] by (simp add: db_fetch_row_def)
next
  case True
  have c: "good (y_con s)" "has_rs (y_con s)" using assms True by (simp_all add: tied_def)
  have step: "good (fst (f c)) \<and> has_rs (fst (f c)) \<and> cn_state (fst (f c)) = cn_state c"
    if "drv_fetch_row ops = Some f" "good c" "has_rs c" "rs_values (cn_rs c) \<noteq> None" for f c
    using fetch [OF that] driver_frames(1) [OF frames that(1), of c] by (simp add: frame_def)
  show ?thesis using True c step layerD(5,6) [OF c(1)] ok_layer [OF assms]
    by (auto simp: db_fetch_row_def case_prod_beta Let_def tied_def split: option.splits)
qed

lemma ok_bulk:
  "ok (on_con (\<lambda>c. c\<lparr>bulk_commit_cnt := a c\<rparr>) s) \<longleftrightarrow> ok s"
  "ok (on_con (\<lambda>c. c\<lparr>bulk_ptr := a c, bulk_cnt := 0\<rparr>) s) \<longleftrightarrow> ok s"
proof -
  have "ok (on_con u s) = ok s"
    if "\<And>c. cn_ptr (u c) = cn_ptr c" "\<And>c. cn_rs (u c) = cn_rs c" "\<And>c. cn_state (u c) = cn_state c" for u
    using that layer [of "y_con s" "u (y_con s)"] layer [of "u (y_con s)" "y_con s"] by (auto simp: tied_def)
  then show "ok (on_con (\<lambda>c. c\<lparr>bulk_commit_cnt := a c\<rparr>) s) \<longleftrightarrow> ok s"
    "ok (on_con (\<lambda>c. c\<lparr>bulk_ptr := a c, bulk_cnt := 0\<rparr>) s) \<longleftrightarrow> ok s" by simp_all
qed

lemma do_insert_ok:
  assumes "ok s"
  shows "ok (fst (db_bulk_do_insert ops l s))"
  using assms by (simp add: db_bulk_do_insert_def case_prod_beta Let_def ok_bulk query_ok)

lemma step_ok:
  assumes "ok s" "plain p" "db_step ops p s = Some s'"
  shows "ok s'"
proof -
  have bulk: "ok s'" if "ok s" "bulk_store q n s = Some (s', rc)" for q n rc and s s' :: "'d db_sys"
    using that ok_layer [OF that(1), of s'] by (auto simp: bulk_store_def Let_def split: option.splits if_splits)
  show ?thesis
  proof (cases p)
    case (Op_bulk_init b q n)
    show ?thesis
    proof (cases "cn_state (y_con s) = DB_CONN_INVALID")
      case True
      then show ?thesis using assms Op_bulk_init ok_layer [OF assms(1)] by (auto simp: db_bulk_insert_init_def)
    next
      case False
      note p = pending [OF assms(1) False]
      show ?thesis using assms(3) Op_bulk_init False p(1) ok_layer [OF p(2)]
        by (auto simp: db_bulk_insert_init_def case_prod_beta Let_def split: option.splits if_splits)
    qed
  next
    case (Op_bulk_next q n)
    show ?thesis
    proof (cases "cn_state (y_con s) = DB_CONN_INVALID")
      case True
      then show ?thesis using assms Op_bulk_next ok_layer [OF assms(1)] by (auto simp: db_bulk_insert_next_def)
    next
      case False
      note p = pending [OF assms(1) False]
      show ?thesis using assms(3) Op_bulk_next False p(1) ok_layer [OF p(2)] do_insert_ok [OF p(2)] bulk [OF p(2)]
          bulk [OF do_insert_ok [OF p(2)]]
        by (auto simp: db_bulk_insert_next_def case_prod_beta Let_def split: option.splits if_splits)
    qed
  next
    case Op_bulk_done
    show ?thesis using assms(3) Op_bulk_done do_insert_ok [OF assms(1), of True] ok_layer [OF do_insert_ok [OF assms(1), of True]]
      by (auto simp: db_bulk_insert_done_def case_prod_beta Let_def split: if_splits)
  next
    case Op_more_results
    have "drv_more_results ops = Some g \<Longrightarrow> cn_state (fst (g c)) = cn_state c" for g c
      using driver_frames(2) [OF frames, of g c] by (simp add: frame_def)
    then show ?thesis using assms(1,3) Op_more_results ok_layer [OF assms(1)] more [of _ "y_con s"]
      by (auto simp: db_more_results_def tied_def split: option.splits if_splits)
  next
    case Op_free_results
    then show ?thesis using assms ok_layer [OF assms(1)] free_int [OF assms(1)]
      by (auto simp: db_free_results_def split: if_splits)
  qed (use assms query_ok next_ok close_ok reconnect_ok fetch_ok in auto)
qed

lemma steps_ok:
  assumes "ok s" "list_all plain ps" "db_steps ops ps s = Some s'"
  shows "ok s'"
  using assms
proof (induction ps arbitrary: s)
  case (Cons p ps)
  then obtain s1 where "db_step ops p s = Some s1" "db_steps ops ps s1 = Some s'" by (auto split: option.splits)
  moreover from this(1) have "ok s1" by (rule step_ok [OF Cons.prems(1), rotated]) (use Cons.prems(2) in simp)
  ultimately show ?case using Cons.IH Cons.prems(2) by simp
qed simp

end

end
