(* ===== verification/PgProps.thy ===== *)
theory PgProps
  imports PgDriver DriverProps
begin

text \<open>
  Properties of the PostgreSQL driver: result sets are cleared exactly once, errors are classified
  by their state, values reach prepared statements, and the loop of a reconnection ends when it
  can.
\<close>

section \<open>The driver leaves the fields of the layer alone\<close>

lemma pg_simps [simp]:
  "cn_ptr (pgd f c) = f (cn_ptr c)" "cn_rs (pgd f c) = cn_rs c" "cn_ptr (pg_rs g c) = cn_ptr c"
  "cn_rs (pg_rs g c) = g (cn_rs c)" "cn_ptr (pg_log p t c) = (cn_ptr c)\<lparr>pg_said := pg_said (cn_ptr c) @ [(p, t)]\<rparr>"
  "cn_rs (pg_log p t c) = cn_rs c" "cn_ptr (pg_crash c) = (cn_ptr c)\<lparr>pg_fault := True\<rparr>" "cn_rs (pg_crash c) = cn_rs c"
  "cn_ptr (clear_sql_error c) = (cn_ptr c)\<lparr>pg_sql_state := None, pg_sql_errmsg := None\<rparr>"
  "cn_rs (clear_sql_error c) = cn_rs c"
  "cn_rs (PQclear i c) = cn_rs c" "cn_rs (fst (pg_call h c)) = cn_rs c" "cn_rs (keep_result i c) = cn_rs c"
  "snd (pg_call h c) = pg_fresh (cn_ptr c)"
  by (simp_all add: pgd_def pg_rs_def pg_log_def pg_crash_def clear_sql_error_def PQclear_def pg_call_def
      keep_result_def Let_def case_prod_beta)

lemma pg_call_ptr [simp]:
  "cn_ptr (fst (pg_call h c)) = (cn_ptr c)\<lparr>pg_world := fst (h (pg_world (cn_ptr c))),
     pg_results := (pg_results (cn_ptr c))(pg_fresh (cn_ptr c) \<mapsto> snd (h (pg_world (cn_ptr c)))),
     pg_fresh := pg_fresh (cn_ptr c) + 1\<rparr>"
  by (simp add: pg_call_def Let_def case_prod_beta)

lemma PQclear_ptr:
  "cn_ptr (PQclear i c) = (if pg_results (cn_ptr c) i = None then (cn_ptr c)\<lparr>pg_fault := True\<rparr>
     else (cn_ptr c)\<lparr>pg_results := (pg_results (cn_ptr c))(i := None)\<rparr>)"
  by (simp add: PQclear_def)

lemma keep_result_ptr [simp]:
  "cn_ptr (keep_result i c) =
     (cn_ptr c)\<lparr>pg_rs_ptr := (if rs_counter (cn_rs c) = SB_CNT_READ then Some i else None)\<rparr>"
  by (simp add: keep_result_def)

lemma frame_pg [simp]:
  "frame c (pgd f c') = frame c c'" "frame c (pg_log p t c') = frame c c'" "frame c (pg_crash c') = frame c c'"
  "frame c (clear_sql_error c') = frame c c'" "frame c (PQclear i c') = frame c c'"
  "frame c (fst (pg_call h c')) = frame c c'" "frame c (keep_result i c') = frame c c'"
  by (simp_all add: frame_def pgd_def pg_log_def pg_crash_def clear_sql_error_def PQclear_def pg_call_def
      keep_result_def Let_def case_prod_beta)

lemma frame_pg_rs [simp]:
  "(\<And>rs. rs_values (g rs) = rs_values rs) \<Longrightarrow> frame c (pg_rs g c') = frame c c'"
  by (simp add: frame_def pg_rs_def)

lemma frame_refl [simp]: "frame c c"
  by (simp add: frame_def)

lemma frame_connect [simp]: "frame c (fst (pgsql_drv_connect env c')) = frame c c'"
  by (simp add: pgsql_drv_connect_def Let_def case_prod_beta)

lemma frame_disconnect [simp]: "frame c (fst (pgsql_drv_disconnect env c')) = frame c c'"
  by (simp add: pgsql_drv_disconnect_def Let_def split: option.splits)

lemma frame_check_status [simp]: "frame c (fst (pgsql_check_status env i fn q c')) = frame c c'"
  by (simp add: pgsql_check_status_def Let_def case_prod_beta split: option.splits exec_status.splits)

lemma frame_query [simp]: "frame c (fst (pgsql_drv_query env q n c')) = frame c c'"
  by (simp add: pgsql_drv_query_def Let_def case_prod_beta split: option.splits)

text \<open>What every connection attempt keeps, the loop keeps.\<close>

lemma pg_reconnect_keeps:
  assumes "\<And>c. P c \<Longrightarrow> P (fst (pgsql_drv_connect env c))" "pg_reconnect_loop env k c = Some r"
  shows "P c \<longrightarrow> P (fst r)"
proof -
  have "e = env \<longrightarrow> P c \<longrightarrow> P (fst r)" if "pg_reconnect_loop e k c = Some r" for e k c r
  proof (rule pg_reconnect_loop.raw_induct [where P = "\<lambda>e k c r. e = env \<longrightarrow> P c \<longrightarrow> P (fst r)", OF _ that], goal_cases)
    case (1 loop e k c r)
    then show ?case using assms(1) [of c] by (auto simp: Let_def case_prod_beta split: if_splits)
  qed
  with assms(2) show ?thesis by blast
qed

lemma frame_drv_reconnect: "pgsql_drv_reconnect env c = Some r \<Longrightarrow> frame c (fst r)"
  using pg_reconnect_keeps [of "frame c" env 0 "fst (pgsql_drv_disconnect env c)" r]
  by (auto simp: pgsql_drv_reconnect_def Let_def case_prod_beta split: if_splits)

lemma frame_prepare [simp]: "frame c (fst (pgsql_drv_prepare env t q n c')) = frame c c'"
  by (simp add: pgsql_drv_prepare_def Let_def case_prod_beta split: option.splits built.splits)

lemma frame_bind [simp]: "frame c (fst (pgsql_drv_bind_param env t vs c')) = frame c c'"
  by (simp add: pgsql_drv_bind_param_def Let_def case_prod_beta split: option.splits)

lemma frame_execute [simp]: "frame c (fst (pgsql_drv_execute env t c')) = frame c c'"
  by (simp add: pgsql_drv_execute_def Let_def case_prod_beta split: option.splits built.splits)

lemma frame_fetch [simp]: "frame c (fst (pgsql_drv_fetch_row c))"
  by (auto simp: pgsql_drv_fetch_row_def frame_def pgd_def pg_rs_def pg_crash_def Let_def split: option.splits)

lemma pgsql_driver_ok: "driver_ok (pgsql_ops env w)"
  by (auto simp: driver_ok_def pgsql_ops_def pgsql_drv_free_results_def pgsql_drv_close_def pgsql_drv_bind_result_def
      split: option.splits dest: frame_drv_reconnect)

section \<open>Reconnecting\<close>

text \<open>The connection after some attempts.\<close>

definition pg_attempts :: "'w pg_env \<Rightarrow> nat \<Rightarrow> 'w pg_conn \<Rightarrow> 'w pg_conn" where
  "pg_attempts env n c = ((\<lambda>c. fst (pgsql_drv_connect env c)) ^^ n) c"

lemma pg_attempts_Suc: "pg_attempts env (Suc n) c = pg_attempts env n (fst (pgsql_drv_connect env c))"
  by (simp add: pg_attempts_def funpow_Suc_right del: funpow.simps)

lemma pg_reconnect_stops:
  assumes "snd (pgsql_drv_connect env (pg_attempts env n c)) = 0 \<or> pe_error env (k + n)"
  shows "pg_reconnect_loop env k c \<noteq> None"
  using assms
proof (induction n arbitrary: k c)
  case 0
  then show ?case by (subst pg_reconnect_loop.simps) (auto simp: Let_def case_prod_beta pg_attempts_def)
next
  case (Suc n)
  then show ?case
    by (subst pg_reconnect_loop.simps) (auto simp: Let_def case_prod_beta pg_attempts_Suc)
qed

lemma pg_reconnect_stopped:
  assumes "pg_reconnect_loop env k c = Some r"
  shows "\<exists>n. (snd (pgsql_drv_connect env (pg_attempts env n c)) = 0 \<or> pe_error env (k + n)) \<and>
    fst r = pg_attempts env (Suc n) c \<and>
    snd r = (if snd (pgsql_drv_connect env (pg_attempts env n c)) = 0 then DB_ERROR_IGNORABLE else DB_ERROR_FATAL)"
  using assms
proof (rule pg_reconnect_loop.raw_induct [rotated], goal_cases)
  case (1 loop env k c r)
  let ?c = "fst (pgsql_drv_connect env c)"
  show ?case
  proof (cases "snd (pgsql_drv_connect env c) = 0 \<or> pe_error env k")
    case True
    then show ?thesis using 1(2)
      by (intro exI [of _ 0]) (auto simp: Let_def case_prod_beta pg_attempts_def)
  next
    case False
    then have "loop env (k + 1) ?c = Some r" using 1(2) by (simp add: Let_def case_prod_beta)
    from 1(1) [OF this] obtain n where
      "snd (pgsql_drv_connect env (pg_attempts env n ?c)) = 0 \<or> pe_error env (k + 1 + n)"
      "fst r = pg_attempts env (Suc n) ?c"
      "snd r = (if snd (pgsql_drv_connect env (pg_attempts env n ?c)) = 0 then DB_ERROR_IGNORABLE else DB_ERROR_FATAL)"
      by blast
    then show ?thesis by (intro exI [of _ "Suc n"]) (simp add: pg_attempts_Suc)
  qed
qed

text \<open>A reconnection returns exactly when some attempt succeeds or finds the global error set;
  otherwise it tries for ever.\<close>

theorem pgsql_reconnect_returns:
  "(\<exists>r. pgsql_drv_reconnect env c = Some r) \<longleftrightarrow>
   (\<exists>n. snd (pgsql_drv_connect env (pg_attempts env n (fst (pgsql_drv_disconnect env c)))) = 0 \<or> pe_error env n)"
proof -
  let ?c = "fst (pgsql_drv_disconnect env c)"
  have "pgsql_drv_reconnect env c = pg_reconnect_loop env 0 ?c"
    by (simp add: pgsql_drv_reconnect_def pgsql_drv_disconnect_def Let_def case_prod_beta)
  moreover have "pg_reconnect_loop env 0 ?c \<noteq> None"
    if "snd (pgsql_drv_connect env (pg_attempts env n ?c)) = 0 \<or> pe_error env n" for n
    using pg_reconnect_stops [of env n ?c 0] that by simp
  moreover have "\<exists>n. snd (pgsql_drv_connect env (pg_attempts env n ?c)) = 0 \<or> pe_error env n"
    if "pg_reconnect_loop env 0 ?c = Some r" for r
    using pg_reconnect_stopped [OF that] by auto
  ultimately show ?thesis by (metis not_None_eq)
qed

section \<open>Result sets\<close>

text \<open>A library whose errors have a state and a message.\<close>

definition decent :: "'w libpq \<Rightarrow> bool" where
  "decent lib \<longleftrightarrow> (\<forall>con q w. let r = snd (PQexec lib con q w) in
     res_status r = PGRES_FATAL_ERROR \<longrightarrow> res_sqlstate r \<noteq> None \<and> res_primary r \<noteq> None)"

text \<open>The results not cleared are the open one and those of a status the driver does not know.\<close>

definition unknown_status :: "pg_result \<Rightarrow> bool" where
  "unknown_status r \<longleftrightarrow> res_status r \<notin> {PGRES_TUPLES_OK, PGRES_COMMAND_OK, PGRES_FATAL_ERROR}"

definition only_open :: "'w pg_data \<Rightarrow> bool" where
  "only_open d \<longleftrightarrow> (\<forall>i. pg_rs_ptr d = Some i \<longrightarrow> pg_results d i \<noteq> None) \<and>
     (\<forall>i r. pg_results d i = Some r \<longrightarrow> pg_rs_ptr d = Some i \<or> unknown_status r)"

text \<open>The library is decent, attempts to reconnect are not repeated for ever and nothing has faulted.\<close>

definition pg_good :: "'w pg_env \<Rightarrow> 'w pg_conn \<Rightarrow> bool" where
  "pg_good env c \<longleftrightarrow> decent (pe_lib env) \<and> (\<exists>n. pe_error env n) \<and> \<not> pg_fault (cn_ptr c) \<and> pg_con (cn_ptr c) \<noteq> None \<and>
     only_open (cn_ptr c) \<and> (\<forall>i. pg_results (cn_ptr c) i \<noteq> None \<longrightarrow> i < pg_fresh (cn_ptr c))"

definition pg_has_rs :: "'w pg_conn \<Rightarrow> bool" where
  "pg_has_rs c \<longleftrightarrow> pg_rs_ptr (cn_ptr c) \<noteq> None"

lemma decentD:
  assumes "decent lib"
  obtains "res_status (snd (PQexec lib con q w)) = PGRES_TUPLES_OK"
    | "res_status (snd (PQexec lib con q w)) = PGRES_COMMAND_OK"
    | st msg where "res_status (snd (PQexec lib con q w)) = PGRES_FATAL_ERROR"
      "res_sqlstate (snd (PQexec lib con q w)) = Some st" "res_primary (snd (PQexec lib con q w)) = Some msg"
    | k where "res_status (snd (PQexec lib con q w)) = PGRES_other k"
  using assms unfolding decent_def Let_def by (metis not_None_eq exec_status.exhaust)

lemma pg_query_answers: "answers (pg_good env) pg_has_rs (pgsql_drv_query env q n)"
proof (unfold answers_def, intro allI impI)
  fix c assume c: "pg_good env c \<and> \<not> pg_has_rs c"
  let ?d = "cn_ptr c" and ?c' = "fst (pgsql_drv_query env q n c)"
  obtain con where d: "decent (pe_lib env)" "\<not> pg_fault ?d" "pg_con ?d = Some con" "pg_rs_ptr ?d = None"
    and fresh: "pg_results ?d (pg_fresh ?d + k) = None" for k
    using c by (auto simp: pg_good_def pg_has_rs_def) (metis add_diff_cancel_left' diff_add_inverse2 not_add_less1 not_None_eq)
  note fresh = fresh [of 0] fresh [of 1]
  note defs = pgsql_drv_query_def pgsql_check_status_def pg_good_def pg_has_rs_def only_open_def unknown_status_def
    Let_def case_prod_beta PQclear_ptr
  from d(1) show "pg_good env ?c' \<and> (pg_has_rs ?c' \<longleftrightarrow>
      snd (pgsql_drv_query env q n c) = DB_ERROR_NONE \<and> rs_counter (cn_rs ?c') = SB_CNT_READ)"
  proof (cases rule: decentD [of _ con q "pg_world ?d"])
    case 1
    then show ?thesis using c d fresh by (auto simp: defs split: if_splits)
  next
    case 2
    then show ?thesis using c d fresh by (auto simp: defs split: if_splits)
  next
    case (3 st msg)
    then show ?thesis using c d fresh by (auto simp: defs split: option.splits if_splits)
  next
    case (4 k)
    then show ?thesis using c d fresh by (auto simp: defs split: if_splits)
  qed
qed

lemma pg_free_law:
  assumes "pg_good env c" "pg_has_rs c"
  shows "snd (pgsql_drv_free_results c) = 0 \<and> pg_good env (fst (pgsql_drv_free_results c)) \<and>
    \<not> pg_has_rs (fst (pgsql_drv_free_results c))"
proof -
  obtain i where i: "pg_rs_ptr (cn_ptr c) = Some i" using assms(2) by (auto simp: pg_has_rs_def)
  then have "pg_results (cn_ptr c) i \<noteq> None" using assms(1) by (simp add: pg_good_def only_open_def)
  then show ?thesis using assms(1) i
    by (auto simp: pgsql_drv_free_results_def pg_good_def only_open_def pg_has_rs_def PQclear_ptr)
qed

lemma pg_fetch_law:
  assumes "pg_good env c" "pg_has_rs c" "rs_values (cn_rs c) \<noteq> None"
  shows "pg_good env (fst (pgsql_drv_fetch_row c)) \<and> pg_has_rs (fst (pgsql_drv_fetch_row c))"
proof -
  obtain i vs where i: "pg_rs_ptr (cn_ptr c) = Some i" "rs_values (cn_rs c) = Some vs"
    using assms(2,3) by (auto simp: pg_has_rs_def)
  moreover from i(1) assms(1) obtain r where "pg_results (cn_ptr c) i = Some r" by (auto simp: pg_good_def only_open_def)
  ultimately show ?thesis using assms(1,2)
    by (auto simp: pgsql_drv_fetch_row_def Let_def pg_good_def only_open_def pg_has_rs_def)
qed

lemma pg_disconnect_law:
  assumes "pg_good env c" "\<not> pg_has_rs c"
  shows "pg_good env (fst (pgsql_drv_disconnect env c)) \<and> \<not> pg_has_rs (fst (pgsql_drv_disconnect env c))"
  using assms by (auto simp: pgsql_drv_disconnect_def Let_def pg_good_def only_open_def pg_has_rs_def split: option.splits)

lemma pg_connect_law:
  assumes "pg_good env c \<and> \<not> pg_has_rs c"
  shows "pg_good env (fst (pgsql_drv_connect env c)) \<and> \<not> pg_has_rs (fst (pgsql_drv_connect env c))"
  using assms by (auto simp: pgsql_drv_connect_def Let_def case_prod_beta pg_good_def only_open_def pg_has_rs_def)

lemma pg_reconnect_law:
  assumes "pg_good env c" "\<not> pg_has_rs c"
  shows "\<exists>r. pgsql_drv_reconnect env c = Some r \<and> pg_good env (fst r) \<and> \<not> pg_has_rs (fst r)"
proof -
  let ?c = "fst (pgsql_drv_disconnect env c)"
  obtain n where "pe_error env n" using assms(1) by (auto simp: pg_good_def only_open_def)
  with pg_reconnect_stops [of env n ?c 0] obtain r where r: "pg_reconnect_loop env 0 ?c = Some r" by auto
  from pg_reconnect_keeps [of "\<lambda>c. pg_good env c \<and> \<not> pg_has_rs c", OF pg_connect_law r] pg_disconnect_law [OF assms]
  have "pg_good env (fst r) \<and> \<not> pg_has_rs (fst r)" by blast
  moreover have "snd (pgsql_drv_disconnect env c) = 0"
    by (simp add: pgsql_drv_disconnect_def Let_def)
  ultimately show ?thesis using r by (simp add: pgsql_drv_reconnect_def Let_def case_prod_beta)
qed

interpretation pg: result_driver "pgsql_ops env w" "pg_good env" pg_has_rs for env w
proof (unfold_locales, goal_cases)
  case 1 show ?case by (rule pgsql_driver_ok)
next
  case (2 c c') then show ?case by (simp add: pg_good_def only_open_def pg_has_rs_def)
next
  case (3 q n) show ?case using pg_query_answers by (simp add: pgsql_ops_def)
next
  case (4 f) then show ?case by (simp add: pgsql_ops_def)
next
  case (5 c) then show ?case using pg_free_law by (simp add: pgsql_ops_def)
next
  case (6 k c) then show ?case using pg_fetch_law [of env c] by (simp add: pgsql_ops_def)
next
  case (7 g c) then show ?case by (simp add: pgsql_ops_def)
next
  case (8 c) then show ?case using pg_disconnect_law by (simp add: pgsql_ops_def)
next
  case (9 h c) then show ?case using pg_reconnect_law [of env c] by (auto simp: pgsql_ops_def)
qed


text \<open>The default branch of the switch keeps nothing of such a result and does not clear it.\<close>

lemma pgsql_unknown_status_leaks:
  assumes "pg_con (cn_ptr c) = Some con" "PQexec (pe_lib env) con q (pg_world (cn_ptr c)) = (w', r)"
    and "res_status r = PGRES_other k" "pgsql_drv_query env q n c = (c', e)"
  shows "e = DB_ERROR_FATAL \<and> pg_rs_ptr (cn_ptr c') = None \<and> pg_results (cn_ptr c') (pg_fresh (cn_ptr c)) = Some r"
proof -
  have "c' = fst (pgsql_drv_query env q n c)" "e = snd (pgsql_drv_query env q n c)" by (simp_all add: assms(4))
  then show ?thesis using assms(1-3)
    by (simp add: pgsql_drv_query_def pgsql_check_status_def Let_def case_prod_beta)
qed

section \<open>Errors\<close>

text \<open>A query that ends with an error of the server: without a state or a message the driver
  duplicates a NULL string and faults; a deadlock, a violated unique key or a serialization
  failure rolls the transaction back and is ignorable, every other error is fatal; state and
  message are kept, the statistics count an error, and the result is cleared.\<close>

theorem pgsql_query_error:
  assumes "pg_con (cn_ptr c) = Some con" "PQexec (pe_lib env) con q (pg_world (cn_ptr c)) = (w', r)"
    and "res_status r = PGRES_FATAL_ERROR" "pgsql_drv_query env q n c = (c', e)"
  shows "case (res_sqlstate r, res_primary r) of
      (Some st, Some msg) \<Rightarrow>
        pg_sql_state (cn_ptr c') = Some st \<and> pg_sql_errmsg (cn_ptr c') = Some msg \<and>
        rs_counter (cn_rs c') = SB_CNT_ERROR \<and> rs_nrows (cn_rs c') = 0 \<and> pg_rs_ptr (cn_ptr c') = None \<and>
        pg_results (cn_ptr c') (pg_fresh (cn_ptr c)) = None \<and>
        (if st \<in> {''40P01'', ''23505'', ''40001''}
         then e = DB_ERROR_IGNORABLE \<and> pg_world (cn_ptr c') = fst (PQexec (pe_lib env) con ''ROLLBACK'' w')
         else e = DB_ERROR_FATAL \<and> pg_world (cn_ptr c') = w')
    | _ \<Rightarrow> pg_fault (cn_ptr c')"
proof -
  note defs = pgsql_drv_query_def pgsql_check_status_def Let_def case_prod_beta PQclear_ptr
  have c': "c' = fst (pgsql_drv_query env q n c)" and e: "e = snd (pgsql_drv_query env q n c)" by (simp_all add: assms(4))
  show ?thesis
  proof (cases "res_sqlstate r = None \<or> res_primary r = None")
    case True
    then have "pg_fault (cn_ptr c')" unfolding c' using assms(1-3) by (cases "res_sqlstate r") (simp_all add: defs)
    then show ?thesis using True by (cases "res_sqlstate r"; cases "res_primary r") simp_all
  next
    case False
    then obtain st msg where f: "res_sqlstate r = Some st" "res_primary r = Some msg" by auto
    show ?thesis
    proof (cases "st \<in> ignorable_states")
      case True
      with assms(1-3) f show ?thesis unfolding c' e by (simp add: defs ignorable_states_def [symmetric])
    next
      case False
      with assms(1-3) f show ?thesis unfolding c' e by (simp add: defs ignorable_states_def [symmetric])
    qed
  qed
qed

section \<open>Values of prepared statements\<close>

text \<open>The value a buffer has after a parameter has been stored, and the parameters that do not fit.\<close>

definition sent :: "sprintf \<Rightarrow> db_bind_value \<Rightarrow> pvalue \<Rightarrow> pvalue" where
  "sent fmt v old =
     (case v of
        Bind_null _ \<Rightarrow> old
      | Bind_none \<Rightarrow> old
      | Bind_char t \<Rightarrow> Stored (takeWhile (\<lambda>ch. ch \<noteq> CHR 0x00) t)
      | Bind_varchar t \<Rightarrow> Stored (takeWhile (\<lambda>ch. ch \<noteq> CHR 0x00) t)
      | _ \<Rightarrow> Stored (take 255 (bind_text fmt v)))"

definition too_long :: "db_bind_value \<Rightarrow> bool" where
  "too_long v = (case v of Bind_char t \<Rightarrow> length t \<ge> 256 | Bind_varchar t \<Rightarrow> length t \<ge> 256 | _ \<Rightarrow> False)"

lemma store_param_eq:
  "old \<noteq> Null_ptr \<Longrightarrow> store_param fmt v old = (if too_long v then None else Some (sent fmt v old))"
  by (cases v) (simp_all add: store_param_def too_long_def sent_def MAX_PARAM_LENGTH_def db_print_value_def
      snprintf_def Let_def)

lemma store_params_eq:
  assumes "distinct is" "\<forall>i\<in>set is. i < length ps \<and> i < length vs \<and> vs ! i \<noteq> Null_ptr"
  shows "store_params fmt (Some ps) is (Some vs) =
    (if \<exists>i\<in>set is. too_long (ps ! i) then None
     else Some (Some (map (\<lambda>i. if i \<in> set is then sent fmt (ps ! i) (vs ! i) else vs ! i) [0..<length vs])))"
  using assms
proof (induction "is" arbitrary: vs)
  case Nil
  then show ?case by (simp add: map_nth)
next
  case (Cons k ks)
  let ?vs = "vs[k := sent fmt (ps ! k) (vs ! k)]"
  have step: "store_params fmt (Some ps) (k # ks) (Some vs) =
      (if too_long (ps ! k) then None else store_params fmt (Some ps) ks (Some ?vs))"
    using Cons.prems(2) by (simp add: store_param_eq)
  have "\<forall>i\<in>set ks. i < length ps \<and> i < length ?vs \<and> ?vs ! i \<noteq> Null_ptr"
    using Cons.prems by (auto simp: nth_list_update)
  moreover have "distinct ks" using Cons.prems(1) by simp
  moreover have "map (\<lambda>i. if i \<in> set ks then sent fmt (ps ! i) (?vs ! i) else ?vs ! i) [0..<length ?vs] =
      map (\<lambda>i. if i \<in> set (k # ks) then sent fmt (ps ! i) (vs ! i) else vs ! i) [0..<length vs]"
    using Cons.prems by (auto simp: nth_list_update)
  ultimately show ?case using Cons.IH [of ?vs] by (simp only: step) auto
qed

lemma check_status_tuples:
  "pg_results (cn_ptr c) i = Some r \<Longrightarrow> res_status r = PGRES_TUPLES_OK \<Longrightarrow>
   pgsql_check_status env i fn q c =
     (pg_rs (\<lambda>rs. rs\<lparr>rs_nrows := of_nat (length (res_tuples r)), rs_nfields := of_nat (res_nfields r),
                   rs_counter := SB_CNT_READ\<rparr>) c, DB_ERROR_NONE)"
  by (simp add: pgsql_check_status_def)

text \<open>C38: Executing a prepared statement passes the server the text of every bound value, cut to 255
  characters unless it is a string, and what the server answers becomes the result set; a
  string of 256 characters or more is stored past the end of its buffer; a NULL is not
  passed: the buffer keeps the value of the previous execution, or what the allocation left
  in it.\<close>

theorem pgsql_execute_values:
  assumes "pg_con (cn_ptr c) = Some con" "\<not> pg_emulated (cn_ptr c) (sm_id stmt)"
    "pg_stmts (cn_ptr c) (sm_id stmt) = Some p" "sm_bound_param stmt = Some params" "ps_nparams p = length params"
    "ps_pvalues p = Some olds" "length olds = length params" "Null_ptr \<notin> set olds"
    and "pgsql_drv_execute env stmt c = (c', e)"
  shows "if \<exists>v\<in>set params. too_long v then pg_fault (cn_ptr c')
    else
      (let vals = map2 (sent (pe_fmt env)) params olds;
           r = PQexecPrepared (pe_lib env) con (ps_name p) (length params) (Some vals) True (pg_world (cn_ptr c))
       in pg_stmts (cn_ptr c') (sm_id stmt) = Some (p\<lparr>ps_pvalues := Some vals\<rparr>) \<and>
          (res_status (snd r) = PGRES_TUPLES_OK \<longrightarrow>
             e = DB_ERROR_NONE \<and> pg_world (cn_ptr c') = fst r \<and> rs_counter (cn_rs c') = SB_CNT_READ \<and>
             rs_nrows (cn_rs c') = of_nat (length (res_tuples (snd r))) \<and>
             pg_rs_ptr (cn_ptr c') = Some (pg_fresh (cn_ptr c)) \<and>
             pg_results (cn_ptr c') (pg_fresh (cn_ptr c)) = Some (snd r)))"
proof -
  have c': "c' = fst (pgsql_drv_execute env stmt c)" and e: "e = snd (pgsql_drv_execute env stmt c)"
    by (simp_all add: assms(9))
  define c1 where "c1 = clear_sql_error (pgd (\<lambda>d. d\<lparr>pg_sql_errno := 0\<rparr>) c)"
  have c1: "cn_ptr c1 = (cn_ptr c)\<lparr>pg_sql_errno := 0, pg_sql_state := None, pg_sql_errmsg := None\<rparr>" "cn_rs c1 = cn_rs c"
    by (simp_all add: c1_def)
  have idx: "\<forall>i\<in>set [0..<length params]. i < length params \<and> i < length olds \<and> olds ! i \<noteq> Null_ptr"
    using assms(7,8) by (metis atLeastLessThan_iff nth_mem set_upt)
  have some: "(\<exists>i\<in>set [0..<length params]. too_long (params ! i)) \<longleftrightarrow> (\<exists>v\<in>set params. too_long v)"
    by (metis atLeastLessThan_iff in_set_conv_nth set_upt zero_le)
  have vals: "map (\<lambda>i. if i \<in> set [0..<length params] then sent (pe_fmt env) (params ! i) (olds ! i) else olds ! i)
      [0..<length olds] = map2 (sent (pe_fmt env)) params olds"
    using assms(7) by (intro nth_equalityI) auto
  note store = store_params_eq [OF _ idx, of "pe_fmt env", unfolded some vals, simplified]
  have keeps: "pg_stmts (cn_ptr (fst (pgsql_check_status env i fn q d))) = pg_stmts (cn_ptr d)" for i fn q and d :: "'a pg_conn"
    by (simp add: pgsql_check_status_def Let_def case_prod_beta PQclear_ptr split: option.split exec_status.split)
  show ?thesis
  proof (cases "\<exists>v\<in>set params. too_long v")
    case True
    with store have "store_params (pe_fmt env) (Some params) [0..<length params] (Some olds) = None" by simp
    then have "pg_fault (cn_ptr c')" unfolding c' pgsql_drv_execute_def Let_def c1_def [symmetric]
      using assms(1-6) by (simp add: c1)
    then show ?thesis using True by simp
  next
    case False
    with store have st: "store_params (pe_fmt env) (Some params) [0..<length params] (Some olds) =
        Some (Some (map2 (sent (pe_fmt env)) params olds))" by simp
    show ?thesis unfolding c' e pgsql_drv_execute_def Let_def c1_def [symmetric]
      using False assms(1-6) by (simp add: c1 st case_prod_beta keeps check_status_tuples)
  qed
qed

section \<open>Witnesses\<close>

text \<open>A library that keeps the queries it gets: \<open>BEGIN\<close> completes, \<open>bad\<close> is a deadlock and everything else
  returns one row.\<close>

definition sample_result :: "exec_status \<Rightarrow> pg_result" where
  "sample_result st = \<lparr>res_status = st, res_tuples = [[Some ''1'', None]], res_nfields = 2, res_cmd_tuples = [],
     res_sqlstate = Some ''40P01'', res_primary = Some ''deadlock''\<rparr>"

definition sample_answer :: "string \<Rightarrow> pg_result" where
  "sample_answer q = sample_result (if q \<in> {''BEGIN'', ''ROLLBACK''} then PGRES_COMMAND_OK
     else if q = ''bad'' then PGRES_FATAL_ERROR else PGRES_TUPLES_OK)"

definition sample_pq :: "string list libpq" where
  "sample_pq = \<lparr>PQsetdbLogin = (\<lambda>_ w. (w, 0)), PQstatus_ok = (\<lambda>_ _. True), PQerrorMessage = (\<lambda>_ _. []),
     PQserverVersion = (\<lambda>_ _. 90000), PQfinish = (\<lambda>_ w. w), PQexec = (\<lambda>_ q w. (w @ [q], sample_answer q)),
     PQprepare = (\<lambda>_ _ q _ _ w. (w, sample_result PGRES_COMMAND_OK)),
     PQexecPrepared = (\<lambda>_ nm _ _ _ w. (w @ [nm], sample_result PGRES_TUPLES_OK))\<rparr>"

definition sample_pg_env :: "string list pg_env" where
  "sample_pg_env = \<lparr>pe_lib = sample_pq,
     pe_args = \<lparr>pa_host = None, pa_port = None, pa_user = None, pa_password = None, pa_db = []\<rparr>,
     pe_use_ps = True, pe_alloc = (\<lambda>_. True), pe_fmt = (\<lambda>_ _. []), pe_error = (\<lambda>_. True)\<rparr>"

definition sample_pg_data :: "string list pg_data" where
  "sample_pg_data = \<lparr>pg_world = [], pg_con = Some 0, pg_results = Map.empty, pg_fresh = 0, pg_rs_ptr = None,
     pg_row_ptr = 0, pg_sql_errno = 0, pg_sql_state = None, pg_sql_errmsg = None,
     pg_stmts = [1 \<mapsto> \<lparr>ps_name = ''st'', ps_prepared = True, ps_nparams = 2, ps_ptypes = None, ps_pvalues = Some [Unset, Stored ''5'']\<rparr>],
     pg_emulated = (\<lambda>_. False), pg_rng = (1, 2), pg_said = [], pg_fault = False\<rparr>"

definition sample_pg_sys :: "string list pg_data db_sys" where
  "sample_pg_sys = \<lparr>y_con = zero_conn sample_pg_data, y_prog = sample_prog\<rparr>"

lemma sample_pq_decent: "decent sample_pq"
  by (simp add: decent_def sample_pq_def sample_answer_def sample_result_def)

lemma sample_pg_simps [simp]:
  "pe_lib sample_pg_env = sample_pq" "pe_error sample_pg_env n" "pe_fmt sample_pg_env = (\<lambda>_ _. [])"
  "cn_ptr (y_con sample_pg_sys) = sample_pg_data" "cn_state (y_con sample_pg_sys) = DB_CONN_READY"
  "pg_con sample_pg_data = Some 0" "pg_results sample_pg_data = Map.empty" "pg_rs_ptr sample_pg_data = None"
  "\<not> pg_fault sample_pg_data" "pg_world sample_pg_data = []"
  by (simp_all add: sample_pg_env_def sample_pg_sys_def sample_pg_data_def zero_conn_def)


theorem pgsql_query_error_witness:
  "\<exists>c'. pgsql_drv_query sample_pg_env ''bad'' 3 (y_con sample_pg_sys) = (c', DB_ERROR_IGNORABLE) \<and>
     pg_world (cn_ptr c') = [''bad'', ''ROLLBACK'']"
proof -
  obtain c' e where q: "pgsql_drv_query sample_pg_env ''bad'' 3 (y_con sample_pg_sys) = (c', e)" by fastforce
  have a: "PQexec sample_pq 0 ''bad'' [] = ([''bad''], sample_result PGRES_FATAL_ERROR)"
    by (simp add: sample_pq_def sample_answer_def)
  have f: "res_status (sample_result st) = st" "res_sqlstate (sample_result st) = Some ''40P01''"
    "res_primary (sample_result st) = Some ''deadlock''" for st by (simp_all add: sample_result_def)
  from pgsql_query_error [OF _ _ _ q, of 0 "[''bad'']" "sample_result PGRES_FATAL_ERROR"] a f q show ?thesis
    by (simp add: sample_pq_def)
qed

theorem pgsql_execute_values_witness:
  "\<exists>c' p. pgsql_drv_execute sample_pg_env \<lparr>sm_id = 1, sm_query = None,
       sm_bound_param = Some [Bind_int 7, Bind_null DB_TYPE_INT]\<rparr> (y_con sample_pg_sys) = (c', DB_ERROR_NONE) \<and>
     pg_stmts (cn_ptr c') 1 = Some p \<and> ps_pvalues p = Some [Stored ''7'', Stored ''5'']"
proof -
  let ?st = "\<lparr>sm_id = 1, sm_query = None, sm_bound_param = Some [Bind_int 7, Bind_null DB_TYPE_INT]\<rparr>"
  let ?p = "\<lparr>ps_name = ''st'', ps_prepared = True, ps_nparams = 2, ps_ptypes = None, ps_pvalues = Some [Unset, Stored ''5'']\<rparr>"
  obtain c' e where q: "pgsql_drv_execute sample_pg_env ?st (y_con sample_pg_sys) = (c', e)" by fastforce
  have "char_of (55 :: nat) = CHR ''7''" by code_simp
  then have "sent (\<lambda>_ _. []) (Bind_int 7) Unset = Stored ''7''"
    by (simp add: sent_def bind_text_def sdec_def udec.simps)
  moreover have "sent (\<lambda>_ _. []) (Bind_null DB_TYPE_INT) (Stored ''5'') = Stored ''5''" by (simp add: sent_def)
  ultimately show ?thesis
    using pgsql_execute_values [OF _ _ _ _ _ _ _ _ q, of 0 ?p "[Bind_int 7, Bind_null DB_TYPE_INT]" "[Unset, Stored ''5'']"] q
    by (simp add: sample_pg_data_def too_long_def sample_pq_def sample_result_def)
qed

end
