(* ===== verification/MyDriver.thy ===== *)
theory MyDriver
  imports Emulation
begin

text \<open>
  The driver for MySQL (\<open>drivers/mysql/drv_mysql.c\<close>) as a table of operations of the database
  layer.  The client library is the record \<open>libmysql\<close> of functions on a state of its own, which
  stands for the library and the servers; the result sets it hands out are kept in a store
  until \<open>mysql_free_result\<close> is called.  The traces of \<open>--mysql-debug\<close> are left out.

  \<open>my_fault\<close> is set by an access through a NULL pointer or outside an array, by the use of a
  result set that is not there, and by a loop that does not end.
\<close>

section \<open>The client library\<close>

text \<open>A result set; a cell is \<open>None\<close> for NULL.\<close>

record my_result =
  mr_rows :: "string option list list"
  mr_nfields :: nat

datatype my_type =
    MYSQL_TYPE_TINY | MYSQL_TYPE_SHORT | MYSQL_TYPE_LONG | MYSQL_TYPE_LONGLONG | MYSQL_TYPE_FLOAT
  | MYSQL_TYPE_DOUBLE | MYSQL_TYPE_DATETIME | MYSQL_TYPE_TIMESTAMP | MYSQL_TYPE_STRING | MYSQL_TYPE_VAR_STRING

text \<open>A bound value as the library gets it: the type, \<open>None\<close> for the \<open>-1\<close> of an unknown one, and the
  buffers of the caller.\<close>

type_synonym my_bind = "my_type option \<times> db_bind_value"

datatype my_option =
    Opt_ssl_mode nat
  | Opt_ssl_set "string option" "string option" "string option" "string option"
  | Opt_compress
  | Opt_compression_algorithms "string option"

text \<open>\<open>db_mysql_conn_t\<close>; \<open>mc_mysql\<close> is the handle of the library.\<close>

record db_mysql_conn_t =
  mc_mysql :: nat
  mc_host :: "string option"
  mc_user :: "string option"
  mc_password :: "string option"
  mc_db :: "string option"
  mc_port :: u32
  mc_socket :: "string option"

text \<open>\<open>ER_UNSUPPORTED_PS\<close> and the codes of a lost connection (\<open>CR_SERVER_LOST\<close>, \<open>CR_SERVER_GONE_ERROR\<close>,
  \<open>CR_TCP_CONNECTION\<close>, \<open>CR_SERVER_LOST_EXTENDED\<close>) are constants of the library.\<close>

record 'w libmysql =
  er_unsupported_ps :: u32
  cr_lost :: "u32 set"
  mysql_thread_init :: int
  mysql_init :: "'w \<Rightarrow> 'w \<times> nat"
  mysql_options :: "nat \<Rightarrow> my_option \<Rightarrow> 'w \<Rightarrow> 'w"
  mysql_real_connect :: "db_mysql_conn_t \<Rightarrow> 'w \<Rightarrow> 'w \<times> bool"
  mysql_close :: "nat \<Rightarrow> 'w \<Rightarrow> 'w"
  mysql_errno :: "nat \<Rightarrow> 'w \<Rightarrow> u32"
  mysql_sqlstate :: "nat \<Rightarrow> 'w \<Rightarrow> string"
  mysql_error :: "nat \<Rightarrow> 'w \<Rightarrow> string"
  mysql_real_query :: "nat \<Rightarrow> string \<Rightarrow> u64 \<Rightarrow> 'w \<Rightarrow> 'w \<times> int"
  mysql_store_result :: "nat \<Rightarrow> 'w \<Rightarrow> 'w \<times> my_result option"
  mysql_field_count :: "nat \<Rightarrow> 'w \<Rightarrow> nat"
  mysql_affected_rows :: "nat \<Rightarrow> 'w \<Rightarrow> u64"
  mysql_lib_more_results :: "nat \<Rightarrow> 'w \<Rightarrow> bool"
  mysql_lib_next_result :: "nat \<Rightarrow> 'w \<Rightarrow> 'w \<times> int"
  mysql_stmt_init :: "nat \<Rightarrow> 'w \<Rightarrow> 'w \<times> nat option"
  mysql_stmt_prepare :: "nat \<Rightarrow> string \<Rightarrow> u64 \<Rightarrow> 'w \<Rightarrow> 'w \<times> int"
  mysql_stmt_param_count :: "nat \<Rightarrow> 'w \<Rightarrow> nat"
  mysql_stmt_bind_param :: "nat \<Rightarrow> my_bind list \<Rightarrow> 'w \<Rightarrow> 'w \<times> bool"
  mysql_stmt_bind_result :: "nat \<Rightarrow> my_bind list \<Rightarrow> 'w \<Rightarrow> 'w \<times> bool"
  mysql_stmt_execute :: "nat \<Rightarrow> 'w \<Rightarrow> 'w \<times> int"
  mysql_stmt_store_result :: "nat \<Rightarrow> 'w \<Rightarrow> 'w \<times> int"
  mysql_stmt_errno :: "nat \<Rightarrow> 'w \<Rightarrow> u32"
  mysql_stmt_field_count :: "nat \<Rightarrow> 'w \<Rightarrow> nat"
  mysql_stmt_affected_rows :: "nat \<Rightarrow> 'w \<Rightarrow> u64"
  mysql_stmt_num_rows :: "nat \<Rightarrow> 'w \<Rightarrow> u64"
  mysql_stmt_next_result :: "nat \<Rightarrow> 'w \<Rightarrow> 'w \<times> int"
  mysql_stmt_free_result :: "nat \<Rightarrow> 'w \<Rightarrow> 'w"
  mysql_stmt_close :: "nat \<Rightarrow> 'w \<Rightarrow> 'w \<times> int"

section \<open>State\<close>

record mysql_drv_args_t =
  ma_hosts :: "string list"
  ma_ports :: "string list"
  ma_sockets :: "string list"
  ma_user :: "string option"
  ma_password :: "string option"
  ma_db :: "string option"
  ma_ssl_mode :: "nat option"
  ma_use_ssl :: bool
  ma_ssl_key :: "string option"
  ma_ssl_cert :: "string option"
  ma_ssl_ca :: "string option"
  ma_ssl_cipher :: "string option"
  ma_use_compression :: bool
  ma_compression_alg :: "string option option"
  ma_ignored_errors :: "string list"
  ma_dry_run :: bool
  ma_use_ps :: bool

text \<open>What the driver keeps: \<open>my_conn\<close> is \<open>ptr\<close> of the connection, \<open>my_rs_ptr\<close> that of its result set, a
  result set of the store with the number of rows fetched; \<open>my_stmts\<close> and \<open>my_emulated\<close> are \<open>ptr\<close>
  and \<open>emulated\<close> of a statement.  The positions are indices, the length of a list standing for
  its head; they are shared by all connections.\<close>

record 'w my_data =
  my_world :: 'w
  my_hosts_pos :: nat
  my_ports_pos :: nat
  my_sockets_pos :: nat
  my_conn :: "db_mysql_conn_t option"
  my_results :: "nat \<Rightarrow> (my_result \<times> nat) option"
  my_fresh :: nat
  my_rs_ptr :: "nat option"
  my_sql_errno :: u32
  my_sql_state :: "string option"
  my_sql_errmsg :: "string option"
  my_stmts :: "nat \<Rightarrow> nat option"
  my_emulated :: "nat \<Rightarrow> bool"
  my_said :: "(log_msg_priority_t \<times> string) list"
  my_fault :: bool

type_synonym 'w my_dbconn = "'w my_data db_conn_t"

text \<open>\<open>mye_init\<close> is what \<open>mysql_drv_init\<close> returned when it set the arguments (0, or 1 for one of its
  messages); \<open>mye_alloc n\<close> is whether an allocation of \<open>n\<close> bytes succeeds, where 112 and 40 bytes
  are the sizes of \<open>MYSQL_BIND\<close> and \<open>db_bind_t\<close>; \<open>mye_memory\<close> is whether the two allocations of a new connection succeed, \<open>mye_error\<close> whether the
  global error is set when the n-th attempt to reconnect has failed.\<close>

record 'w my_env =
  mye_lib :: "'w libmysql"
  mye_args :: mysql_drv_args_t
  mye_init :: int
  mye_alloc :: "nat \<Rightarrow> bool"
  mye_memory :: "bool \<times> bool"
  mye_fmt :: sprintf
  mye_error :: "nat \<Rightarrow> bool"

definition myd :: "('w my_data \<Rightarrow> 'w my_data) \<Rightarrow> 'w my_dbconn \<Rightarrow> 'w my_dbconn" where
  "myd f c = c\<lparr>cn_ptr := f (cn_ptr c)\<rparr>"

definition my_rs :: "(db_result_t \<Rightarrow> db_result_t) \<Rightarrow> 'w my_dbconn \<Rightarrow> 'w my_dbconn" where
  "my_rs f c = c\<lparr>cn_rs := f (cn_rs c)\<rparr>"

definition my_log :: "log_msg_priority_t \<Rightarrow> string \<Rightarrow> 'w my_dbconn \<Rightarrow> 'w my_dbconn" where
  "my_log p t = myd (\<lambda>d. d\<lparr>my_said := my_said d @ [(p, t)]\<rparr>)"

definition my_crash :: "'w my_dbconn \<Rightarrow> 'w my_dbconn" where
  "my_crash = myd (\<lambda>d. d\<lparr>my_fault := True\<rparr>)"

text \<open>A library call that changes the state of the library and gives a value.\<close>

definition my_call :: "('w \<Rightarrow> 'w \<times> 'a) \<Rightarrow> 'w my_dbconn \<Rightarrow> 'w my_dbconn \<times> 'a" where
  "my_call f c = (let (w, x) = f (my_world (cn_ptr c)) in (myd (\<lambda>d. d\<lparr>my_world := w\<rparr>) c, x))"

definition my_do :: "('w \<Rightarrow> 'w) \<Rightarrow> 'w my_dbconn \<Rightarrow> 'w my_dbconn" where
  "my_do f = myd (\<lambda>d. d\<lparr>my_world := f (my_world d)\<rparr>)"

definition my_get :: "('w \<Rightarrow> 'a) \<Rightarrow> 'w my_dbconn \<Rightarrow> 'a" where
  "my_get f c = f (my_world (cn_ptr c))"

section \<open>Initialisation\<close>

text \<open>\<open>ssl_modes\<close> are the names and values of the modes, \<open>None\<close> in a build without
  \<open>MYSQL_OPT_SSL_MODE\<close>; \<open>algorithms\<close> is whether compression algorithms can be chosen.\<close>

definition mysql_drv_arg_list :: "bool \<Rightarrow> sb_arg list" where
  "mysql_drv_arg_list has_mode =
     [SB_OPT ''mysql-host'' ''MySQL server host'' (Some ''localhost'') SB_ARG_TYPE_LIST,
      SB_OPT ''mysql-port'' ''MySQL server port'' (Some ''3306'') SB_ARG_TYPE_LIST,
      SB_OPT ''mysql-socket'' ''MySQL socket'' None SB_ARG_TYPE_LIST,
      SB_OPT ''mysql-user'' ''MySQL user'' (Some ''sbtest'') SB_ARG_TYPE_STRING,
      SB_OPT ''mysql-password'' ''MySQL password'' (Some []) SB_ARG_TYPE_STRING,
      SB_OPT ''mysql-db'' ''MySQL database name'' (Some ''sbtest'') SB_ARG_TYPE_STRING,
      (if has_mode
       then SB_OPT ''mysql-ssl'' ''SSL mode. This accepts the same values as the --ssl-mode option in the MySQL client utilities. Disabled by default''
              (Some ''disabled'') SB_ARG_TYPE_STRING
       else SB_OPT ''mysql-ssl'' ''use SSL connections, if available in the client library'' (Some ''off'') SB_ARG_TYPE_BOOL),
      SB_OPT ''mysql-ssl-key'' ''path name of the client private key file'' None SB_ARG_TYPE_STRING,
      SB_OPT ''mysql-ssl-ca'' ''path name of the CA file'' None SB_ARG_TYPE_STRING,
      SB_OPT ''mysql-ssl-cert'' ''path name of the client public key certificate file'' None SB_ARG_TYPE_STRING,
      SB_OPT ''mysql-ssl-cipher'' ''use specific cipher for SSL connections'' (Some []) SB_ARG_TYPE_STRING,
      SB_OPT ''mysql-compression'' ''use compression, if available in the client library'' (Some ''off'') SB_ARG_TYPE_BOOL,
      SB_OPT ''mysql-compression-algorithms'' ''compression algorithms to use'' (Some ''zlib'') SB_ARG_TYPE_STRING,
      SB_OPT ''mysql-debug'' ''trace all client library calls'' (Some ''off'') SB_ARG_TYPE_BOOL,
      SB_OPT ''mysql-ignore-errors'' ''list of errors to ignore, or \"all\"'' (Some ''1213,1020,1205'') SB_ARG_TYPE_LIST,
      SB_OPT ''mysql-dry-run'' ''Dry run, pretend that all MySQL client API calls are successful without executing them''
        (Some ''off'') SB_ARG_TYPE_BOOL]"

definition strcasecmp_eq :: "string \<Rightarrow> string \<Rightarrow> bool" where
  "strcasecmp_eq a b \<longleftrightarrow> map toupper a = map toupper b"

text \<open>The arguments with the globals, or the message of a failure; \<open>None\<close> when \<open>strcasecmp\<close> gets a NULL
  pointer.  With \<open>--mysql-debug\<close> the verbosity of the program is raised.  The positions in the lists
  are set by \<open>first_positions\<close>.\<close>

definition mysql_drv_init ::
  "(string \<times> nat) list option \<Rightarrow> nat \<Rightarrow> bool \<Rightarrow> options \<Rightarrow> db_ps_mode_t \<Rightarrow> sb_globals \<Rightarrow>
     (string + mysql_drv_args_t \<times> sb_globals) option" where
  "mysql_drv_init ssl_modes ssl_disabled algorithms opts ps g =
     (let items = (\<lambda>n. case sb_get_value_list opts n of None \<Rightarrow> [] | Some vs \<Rightarrow> vs);
          text_of = sb_get_value_string opts;
          hosts = items ''mysql-host''; ports = items ''mysql-port'';
          mode_name = (case text_of ''mysql-ssl'' of None \<Rightarrow> [] | Some n \<Rightarrow> n);
          mode = (case ssl_modes of None \<Rightarrow> None | Some ms \<Rightarrow> map_option snd (find (\<lambda>(n, m). strcasecmp_eq mode_name n) ms))
      in if hosts = [] then Some (Inl ''No MySQL hosts specified, aborting'')
         else if ports = [] then Some (Inl ''No MySQL ports specified, aborting'')
         else if ssl_modes \<noteq> None \<and> text_of ''mysql-ssl'' = None then None
         else if ssl_modes \<noteq> None \<and> mode \<in> {None, Some 0}
         then Some (Inl (''Invalid value for --mysql-ssl: '' @ [CHR 0x27] @ mode_name @ [CHR 0x27]))
         else
           Some (Inr (\<lparr>ma_hosts = hosts, ma_ports = ports, ma_sockets = items ''mysql-socket'',
                ma_user = text_of ''mysql-user'', ma_password = text_of ''mysql-password'', ma_db = text_of ''mysql-db'',
                ma_ssl_mode = mode,
                ma_use_ssl = (if ssl_modes \<noteq> None then mode \<noteq> Some ssl_disabled else sb_get_value_flag opts ''mysql-ssl''),
                ma_ssl_key = text_of ''mysql-ssl-key'', ma_ssl_cert = text_of ''mysql-ssl-cert'',
                ma_ssl_ca = text_of ''mysql-ssl-ca'', ma_ssl_cipher = text_of ''mysql-ssl-cipher'',
                ma_use_compression = sb_get_value_flag opts ''mysql-compression'',
                ma_compression_alg = (if algorithms then Some (text_of ''mysql-compression-algorithms'') else None),
                ma_ignored_errors = items ''mysql-ignore-errors'',
                ma_dry_run = sb_get_value_flag opts ''mysql-dry-run'',
                ma_use_ps = (ps \<noteq> DB_PS_MODE_DISABLE)\<rparr>,
              if sb_get_value_flag opts ''mysql-debug'' then g\<lparr>g_verbosity := of_nat (priority LOG_DEBUG)\<rparr> else g)))"

definition first_positions :: "mysql_drv_args_t \<Rightarrow> 'w my_data \<Rightarrow> 'w my_data" where
  "first_positions args d = d\<lparr>my_hosts_pos := 0, my_ports_pos := 0, my_sockets_pos := length (ma_sockets args)\<rparr>"

definition mysql_drv_thread_init :: "'w libmysql \<Rightarrow> nat \<Rightarrow> int" where
  "mysql_drv_thread_init lib wid = (if mysql_thread_init lib \<noteq> 0 then 1 else 0)"

definition mysql_drv_thread_done :: "nat \<Rightarrow> int" where
  "mysql_drv_thread_done wid = 0"

text \<open>The capabilities as \<open>mysql_drv_init\<close> leaves them.\<close>

definition mysql_drv_caps :: drv_caps_t where
  "mysql_drv_caps = \<lparr>multi_rows_insert = True, prepared_statements = True, auto_increment = True,
     needs_commit = False, serial_clause = False, unsigned_int = True\<rparr>"

definition mysql_drv_describe :: "drv_caps_t \<times> int" where
  "mysql_drv_describe = (mysql_drv_caps, 0)"

section \<open>Connections\<close>

definition mysql_drv_real_connect :: "'w my_env \<Rightarrow> db_mysql_conn_t \<Rightarrow> 'w my_dbconn \<Rightarrow> 'w my_dbconn \<times> bool" where
  "mysql_drv_real_connect env con c =
     (let lib = mye_lib env; args = mye_args env;
          option = (\<lambda>opt. my_do (mysql_options lib (mc_mysql con) opt));
          c = (case ma_ssl_mode args of None \<Rightarrow> c | Some m \<Rightarrow> option (Opt_ssl_mode m) c);
          c = (if ma_use_ssl args
               then option (Opt_ssl_set (ma_ssl_key args) (ma_ssl_cert args) (ma_ssl_ca args) (ma_ssl_cipher args)) c else c);
          c = (if ma_use_compression args then
                 (case ma_compression_alg args of None \<Rightarrow> option Opt_compress c
                  | Some alg \<Rightarrow> option (Opt_compression_algorithms alg) (option Opt_compress c))
               else c);
          (c, connected) = my_call (mysql_real_connect lib con) c
      in (c, \<not> connected))"

text \<open>The next element of a circular list with a head: from the head to the first element.\<close>

definition next_pos :: "'a list \<Rightarrow> nat \<Rightarrow> nat" where
  "next_pos xs i = (if i = length xs then 0 else i + 1)"

text \<open>\<open>SB_LIST_ENTRY\<close> of a position; the head is not an entry.\<close>

definition entry :: "string list \<Rightarrow> nat \<Rightarrow> string option" where
  "entry xs i = (if i < length xs then Some (xs ! i) else None)"

definition atoi :: "string \<Rightarrow> u32" where
  "atoi s = word_of_int (fst (strtol10 s))"

text \<open>The choice of host and port, or of the socket, and the move of the positions.\<close>

definition pick_server :: "mysql_drv_args_t \<Rightarrow> 'w my_data \<Rightarrow> 'w my_data \<times> (string option \<times> u32 \<times> string option) option" where
  "pick_server args d =
     (if ma_sockets args = [] then
        let host = entry (ma_hosts args) (my_hosts_pos d);
            port = entry (ma_ports args) (my_ports_pos d);
            pp = next_pos (ma_ports args) (my_ports_pos d);
            d = (if pp = length (ma_ports args) then
                   let hp = next_pos (ma_hosts args) (my_hosts_pos d);
                       hp = (if hp = length (ma_hosts args) then next_pos (ma_hosts args) hp else hp)
                   in d\<lparr>my_hosts_pos := hp, my_ports_pos := next_pos (ma_ports args) pp\<rparr>
                 else d\<lparr>my_ports_pos := pp\<rparr>)
        in (d, case (host, port) of (Some h, Some p) \<Rightarrow> Some (Some h, atoi p, None) | _ \<Rightarrow> None)
      else
        let sp = next_pos (ma_sockets args) (my_sockets_pos d);
            sp = (if sp = length (ma_sockets args) then next_pos (ma_sockets args) sp else sp)
        in (d\<lparr>my_sockets_pos := sp\<rparr>, Some (Some ''localhost'', 0, entry (ma_sockets args) sp)))"

definition mysql_drv_connect :: "'w my_env \<Rightarrow> 'w my_dbconn \<Rightarrow> 'w my_dbconn \<times> int" where
  "mysql_drv_connect env c =
     (let lib = mye_lib env; args = mye_args env
      in if ma_dry_run args then (c, 0)
         else if mye_memory env \<noteq> (True, True) then (c, 1)
         else
           let (c, m) = my_call (mysql_init lib) c;
               (d, picked) = pick_server args (cn_ptr c);
               c = c\<lparr>cn_ptr := d\<rparr>
           in case picked of
                None \<Rightarrow> (my_crash c, 1)
              | Some (host, port, sock) \<Rightarrow>
                  let con = \<lparr>mc_mysql = m, mc_host = host, mc_user = ma_user args, mc_password = ma_password args,
                             mc_db = ma_db args, mc_port = port, mc_socket = sock\<rparr>;
                      (c, failed) = mysql_drv_real_connect env con c;
                      shown = (\<lambda>t. case t of None \<Rightarrow> [] | Some t \<Rightarrow> t)
                  in if failed then
                       (my_log LOG_FATAL (mye_fmt env ''error %d: '' [A_int (uint (my_get (mysql_errno lib m) c))] @
                            my_get (mysql_error lib m) c)
                         (my_log LOG_FATAL
                            (if ma_sockets args \<noteq> []
                             then ''unable to connect to MySQL server on socket '' @ [CHR 0x27] @ shown sock @ [CHR 0x27] @ '', aborting...''
                             else ''unable to connect to MySQL server on host '' @ [CHR 0x27] @ shown host @ [CHR 0x27] @
                               '', port '' @ udec (unat port) @ '', aborting...'') c), 1)
                     else (myd (\<lambda>d. d\<lparr>my_conn := Some con\<rparr>) c, 0))"

definition mysql_drv_disconnect :: "'w my_env \<Rightarrow> 'w my_dbconn \<Rightarrow> 'w my_dbconn \<times> int" where
  "mysql_drv_disconnect env c =
     (if ma_dry_run (mye_args env) then (c, 0)
      else (case my_conn (cn_ptr c) of
              None \<Rightarrow> c
            | Some con \<Rightarrow> my_do (mysql_close (mye_lib env) (mc_mysql con)) c, 0))"

text \<open>The loop of \<open>mysql_drv_reconnect\<close> from attempt \<open>k\<close> on; it may run for ever.\<close>

partial_function (option) my_reconnect_loop ::
  "'w my_env \<Rightarrow> db_mysql_conn_t \<Rightarrow> nat \<Rightarrow> 'w my_dbconn \<Rightarrow> ('w my_dbconn \<times> db_error_t) option" where
  "my_reconnect_loop env con k c =
     (let (c, failed) = mysql_drv_real_connect env con c
      in if \<not> failed then Some (my_log LOG_DEBUG ''Reconnected'' c, DB_ERROR_IGNORABLE)
         else if mye_error env k then Some (c, DB_ERROR_FATAL)
         else my_reconnect_loop env con (k + 1) c)"

definition mysql_drv_reconnect :: "'w my_env \<Rightarrow> 'w my_dbconn \<Rightarrow> 'w my_dbconn \<times> db_error_t" where
  "mysql_drv_reconnect env c =
     (case my_conn (cn_ptr c) of
        None \<Rightarrow> (my_crash c, DB_ERROR_FATAL)
      | Some con \<Rightarrow>
          (case my_reconnect_loop env con 0
                  (my_do (mysql_close (mye_lib env) (mc_mysql con)) (my_log LOG_DEBUG ''Reconnecting'' c)) of
             None \<Rightarrow> (my_crash c, DB_ERROR_FATAL)
           | Some r \<Rightarrow> r))"

text \<open>\<open>check_error\<close>: an error of the list is ignored, after a new connection when it was lost.\<close>

definition ignored :: "string list \<Rightarrow> u32 \<Rightarrow> bool" where
  "ignored vals err \<longleftrightarrow> list_ex (\<lambda>v. err = atoi v \<or> v = ''all'') vals"

definition check_error :: "'w my_env \<Rightarrow> string \<Rightarrow> string option \<Rightarrow> 'w my_dbconn \<Rightarrow> 'w my_dbconn \<times> db_error_t" where
  "check_error env func query c =
     (case my_conn (cn_ptr c) of
        None \<Rightarrow> (my_crash c, DB_ERROR_FATAL)
      | Some con \<Rightarrow>
          let lib = mye_lib env; m = mc_mysql con;
              err = my_get (mysql_errno lib m) c;
              msg = my_get (mysql_error lib m) c;
              c = myd (\<lambda>d. d\<lparr>my_sql_errno := err, my_sql_state := Some (mysql_sqlstate lib m (my_world d)),
                           my_sql_errmsg := Some msg\<rparr>) c;
              number = udec (unat err);
              count_as = (\<lambda>k. my_rs (\<lambda>rs. rs\<lparr>rs_counter := k\<rparr>))
          in if ignored (ma_ignored_errors (mye_args env)) err then
               let c = my_log LOG_DEBUG (''Ignoring error '' @ number @ '' '' @ msg @ '', '') c
               in if err \<in> cr_lost lib then mysql_drv_reconnect env (count_as SB_CNT_RECONNECT c)
                  else (count_as SB_CNT_ERROR c, DB_ERROR_IGNORABLE)
             else
               let c = my_log LOG_FATAL (func @ '' returned error '' @ number @ '' ('' @ msg @ '')'' @
                         (case query of None \<Rightarrow> [] | Some q \<Rightarrow> '' for query '' @ [CHR 0x27] @ q @ [CHR 0x27])) c
               in (count_as SB_CNT_ERROR c, DB_ERROR_FATAL))"

definition clear_my_error :: "'w my_dbconn \<Rightarrow> 'w my_dbconn" where
  "clear_my_error = myd (\<lambda>d. d\<lparr>my_sql_errno := 0, my_sql_state := None, my_sql_errmsg := None\<rparr>)"

section \<open>Prepared statements\<close>

definition db_mysql_bind_map :: "(db_bind_type_t \<times> my_type) list" where
  "db_mysql_bind_map =
     [(DB_TYPE_TINYINT, MYSQL_TYPE_TINY), (DB_TYPE_SMALLINT, MYSQL_TYPE_SHORT), (DB_TYPE_INT, MYSQL_TYPE_LONG),
      (DB_TYPE_BIGINT, MYSQL_TYPE_LONGLONG), (DB_TYPE_FLOAT, MYSQL_TYPE_FLOAT), (DB_TYPE_DOUBLE, MYSQL_TYPE_DOUBLE),
      (DB_TYPE_DATETIME, MYSQL_TYPE_DATETIME), (DB_TYPE_TIMESTAMP, MYSQL_TYPE_TIMESTAMP),
      (DB_TYPE_CHAR, MYSQL_TYPE_STRING), (DB_TYPE_VARCHAR, MYSQL_TYPE_VAR_STRING)]"

definition get_mysql_bind_type :: "db_bind_type_t \<Rightarrow> my_type option" where
  "get_mysql_bind_type = map_of db_mysql_bind_map"

definition convert_to_mysql_bind :: "db_bind_value \<Rightarrow> my_bind" where
  "convert_to_mysql_bind v = (get_mysql_bind_type (bind_type v), v)"

definition mysql_drv_prepare ::
  "'w my_env \<Rightarrow> db_stmt_t \<Rightarrow> string \<Rightarrow> u64 \<Rightarrow> 'w my_dbconn \<Rightarrow> 'w my_dbconn \<times> db_stmt_t \<times> int" where
  "mysql_drv_prepare env stmt query len c =
     (let lib = mye_lib env;
          emulate = (\<lambda>c. (myd (\<lambda>d. d\<lparr>my_emulated := (my_emulated d)(sm_id stmt := True)\<rparr>) c,
                         stmt\<lparr>sm_query := Some query\<rparr>, 0))
      in if ma_dry_run (mye_args env) then (c, stmt, 0)
         else case my_conn (cn_ptr c) of
           None \<Rightarrow> (my_crash c, stmt, 1)
         | Some con \<Rightarrow>
             if \<not> ma_use_ps (mye_args env) then emulate c
             else
               (case my_call (mysql_stmt_init lib (mc_mysql con)) c of
                  (c, None) \<Rightarrow> (my_log LOG_FATAL ''mysql_stmt_init() failed'' c, stmt, 1)
                | (c, Some p) \<Rightarrow>
                    let c = myd (\<lambda>d. d\<lparr>my_stmts := (my_stmts d)(sm_id stmt \<mapsto> p)\<rparr>) c;
                        (c, rc) = my_call (mysql_stmt_prepare lib p query len) c;
                        err = my_get (mysql_errno lib (mc_mysql con)) c;
                        msg = my_get (mysql_error lib (mc_mysql con)) c
                    in if rc = 0 then (c, stmt\<lparr>sm_query := Some query\<rparr>, 0)
                       else if err = er_unsupported_ps lib
                       then emulate (my_log LOG_INFO (''Failed to prepare query '' @ [CHR 0x22] @ query @ [CHR 0x22] @
                              '' ('' @ udec (unat err) @ '': '' @ msg @ ''), using emulation'') c)
                       else
                         let c = my_log LOG_FATAL ''mysql_stmt_prepare() failed'' c;
                             c = my_log LOG_FATAL (''MySQL error: '' @ udec (unat err) @ '' '' @ [CHR 0x22] @ msg @ [CHR 0x22]) c
                         in (fst (my_call (mysql_stmt_close lib p) c), stmt, 1)))"

definition mysql_drv_bind_param ::
  "'w my_env \<Rightarrow> db_stmt_t \<Rightarrow> db_bind_value list \<Rightarrow> 'w my_dbconn \<Rightarrow> 'w my_dbconn \<times> db_stmt_t \<times> int" where
  "mysql_drv_bind_param env stmt params c =
     (let lib = mye_lib env; len = length params
      in if ma_dry_run (mye_args env) then (c, stmt, 0)
         else case my_conn (cn_ptr c) of
           None \<Rightarrow> (my_crash c, stmt, 1)
         | Some con \<Rightarrow>
             if \<not> my_emulated (cn_ptr c) (sm_id stmt) then
               (case my_stmts (cn_ptr c) (sm_id stmt) of
                  None \<Rightarrow> (c, stmt, 1)
                | Some p \<Rightarrow>
                    if my_get (mysql_stmt_param_count lib p) c \<noteq> len
                    then (my_log LOG_FATAL ''Wrong number of parameters to mysql_stmt_bind_param'' c, stmt, 1)
                    else if \<not> mye_alloc env (len * 112) then (c, stmt, 1)
                    else
                      let (c, failed) = my_call (mysql_stmt_bind_param lib p (map convert_to_mysql_bind params)) c
                      in if failed then
                           (my_log LOG_FATAL (''MySQL error: '' @ udec (unat (my_get (mysql_errno lib (mc_mysql con)) c)) @
                                '' '' @ [CHR 0x22] @ my_get (mysql_error lib (mc_mysql con)) c @ [CHR 0x22])
                              (my_log LOG_FATAL ''mysql_stmt_bind_param() failed'' c), stmt, 1)
                         else (c, stmt, 0))
             else if \<not> mye_alloc env (len * 40) then (c, stmt\<lparr>sm_bound_param := None\<rparr>, 1)
             else (c, stmt\<lparr>sm_bound_param := Some params\<rparr>, 0))"

definition mysql_drv_bind_result ::
  "'w my_env \<Rightarrow> db_stmt_t \<Rightarrow> db_bind_value list \<Rightarrow> 'w my_dbconn \<Rightarrow> 'w my_dbconn \<times> db_stmt_t \<times> int" where
  "mysql_drv_bind_result env stmt params c =
     (if ma_dry_run (mye_args env) then (c, stmt, 0)
      else case my_conn (cn_ptr c) of
        None \<Rightarrow> (my_crash c, stmt, 1)
      | Some con \<Rightarrow>
          (case my_stmts (cn_ptr c) (sm_id stmt) of
             None \<Rightarrow> (c, stmt, 1)
           | Some p \<Rightarrow>
               if \<not> mye_alloc env (length params * 112) then (c, stmt, 1)
               else
                 let (c, failed) = my_call (mysql_stmt_bind_result (mye_lib env) p (map convert_to_mysql_bind params)) c
                 in (c, stmt, if failed then 1 else 0)))"

section \<open>Execution\<close>

text \<open>\<open>mysql_store_result\<close> and what follows it, the same in \<open>mysql_drv_query\<close> and
  \<open>mysql_drv_next_result\<close>; without a result set and without rows changed \<open>nrows\<close> keeps its value.\<close>

definition store_query_result :: "'w my_env \<Rightarrow> nat \<Rightarrow> 'w my_dbconn \<Rightarrow> 'w my_dbconn \<times> db_error_t" where
  "store_query_result env m c =
     (let lib = mye_lib env
      in case my_call (mysql_store_result lib m) c of
           (c, None) \<Rightarrow>
             if my_get (mysql_errno lib m) c = 0 \<and> my_get (mysql_field_count lib m) c = 0 then
               let n = ucast (my_get (mysql_affected_rows lib m) c)
               in (my_rs (\<lambda>rs. if n > 0 then rs\<lparr>rs_counter := SB_CNT_WRITE, rs_nrows := n\<rparr>
                              else rs\<lparr>rs_counter := SB_CNT_OTHER\<rparr>) c, DB_ERROR_NONE)
             else check_error env ''mysql_store_result()'' None c
         | (c, Some res) \<Rightarrow>
             let i = my_fresh (cn_ptr c);
                 c = myd (\<lambda>d. d\<lparr>my_results := (my_results d)(i \<mapsto> (res, 0)), my_fresh := i + 1, my_rs_ptr := Some i\<rparr>) c
             in (my_rs (\<lambda>rs. rs\<lparr>rs_counter := SB_CNT_READ, rs_nrows := of_nat (length (mr_rows res)),
                              rs_nfields := of_nat (mr_nfields res)\<rparr>) c, DB_ERROR_NONE))"

definition mysql_drv_query :: "'w my_env \<Rightarrow> string \<Rightarrow> u64 \<Rightarrow> 'w my_dbconn \<Rightarrow> 'w my_dbconn \<times> db_error_t" where
  "mysql_drv_query env query len c =
     (if ma_dry_run (mye_args env) then (c, DB_ERROR_NONE)
      else
        let c = clear_my_error c
        in case my_conn (cn_ptr c) of
             None \<Rightarrow> (my_crash c, DB_ERROR_FATAL)
           | Some con \<Rightarrow>
               let (c, err) = my_call (mysql_real_query (mye_lib env) (mc_mysql con) query len) c
               in if err \<noteq> 0 then check_error env ''mysql_drv_query()'' (Some query) c
                  else store_query_result env (mc_mysql con) c)"

definition mysql_drv_next_result :: "'w my_env \<Rightarrow> 'w my_dbconn \<Rightarrow> 'w my_dbconn \<times> db_error_t" where
  "mysql_drv_next_result env c =
     (if ma_dry_run (mye_args env) then (c, DB_ERROR_NONE)
      else
        let c = clear_my_error c
        in case my_conn (cn_ptr c) of
             None \<Rightarrow> (my_crash c, DB_ERROR_FATAL)
           | Some con \<Rightarrow>
               let (c, err) = my_call (mysql_lib_next_result (mye_lib env) (mc_mysql con)) c
               in if err > 0 then check_error env ''mysql_drv_next_result()'' None c
                  else if err = - 1 then (my_rs (\<lambda>rs. rs\<lparr>rs_counter := SB_CNT_OTHER\<rparr>) c, DB_ERROR_NONE)
                  else store_query_result env (mc_mysql con) c)"

definition mysql_drv_more_results :: "'w my_env \<Rightarrow> 'w my_dbconn \<Rightarrow> 'w my_dbconn \<times> bool" where
  "mysql_drv_more_results env c =
     (if ma_dry_run (mye_args env) then (c, False)
      else case my_conn (cn_ptr c) of
        None \<Rightarrow> (my_crash c, False)
      | Some con \<Rightarrow> (c, my_get (mysql_lib_more_results (mye_lib env) (mc_mysql con)) c))"

text \<open>\<open>mysql_stmt_store_result\<close> and what follows it, the same in \<open>mysql_drv_execute\<close> and
  \<open>mysql_drv_stmt_next_result\<close>.\<close>

definition store_stmt_result :: "'w my_env \<Rightarrow> nat \<Rightarrow> 'w my_dbconn \<Rightarrow> 'w my_dbconn \<times> db_error_t" where
  "store_stmt_result env p c =
     (let lib = mye_lib env; (c, err) = my_call (mysql_stmt_store_result lib p) c
      in if err \<noteq> 0 then check_error env ''mysql_stmt_store_result()'' None c
         else if my_get (mysql_stmt_errno lib p) c = 0 \<and> my_get (mysql_stmt_field_count lib p) c = 0 then
           let n = ucast (my_get (mysql_stmt_affected_rows lib p) c)
           in (my_rs (\<lambda>rs. rs\<lparr>rs_nrows := n, rs_counter := (if n > 0 then SB_CNT_WRITE else SB_CNT_OTHER)\<rparr>) c, DB_ERROR_NONE)
         else
           (my_rs (\<lambda>rs. rs\<lparr>rs_counter := SB_CNT_READ, rs_nrows := ucast (my_get (mysql_stmt_num_rows lib p) c),
                        rs_nfields := of_nat (my_get (mysql_stmt_field_count lib p) c)\<rparr>) c, DB_ERROR_NONE))"

definition mysql_drv_execute :: "'w my_env \<Rightarrow> db_stmt_t \<Rightarrow> 'w my_dbconn \<Rightarrow> 'w my_dbconn \<times> db_error_t" where
  "mysql_drv_execute env stmt c =
     (if ma_dry_run (mye_args env) then (c, DB_ERROR_NONE)
      else
        let c = clear_my_error c
        in if \<not> my_emulated (cn_ptr c) (sm_id stmt) then
             case my_stmts (cn_ptr c) (sm_id stmt) of
               None \<Rightarrow> (my_log LOG_DEBUG ''ERROR: exiting mysql_drv_execute(), uninitialized statement'' c, DB_ERROR_FATAL)
             | Some p \<Rightarrow>
                 let (c, err) = my_call (mysql_stmt_execute (mye_lib env) p) c
                 in if err \<noteq> 0 then check_error env ''mysql_stmt_execute()'' (sm_query stmt) c
                    else store_stmt_result env p c
           else
             case sm_query stmt of
               None \<Rightarrow> (my_crash c, DB_ERROR_FATAL)
             | Some q \<Rightarrow>
                (case expand_query (mye_alloc env) (bound_text (mye_fmt env) (sm_bound_param stmt)) 0 q of
                   No_memory \<Rightarrow>
                     (my_log LOG_DEBUG ''ERROR: exiting mysql_drv_execute(), memory allocation failure'' c, DB_ERROR_FATAL)
                 | Wild_access \<Rightarrow> (my_crash c, DB_ERROR_FATAL)
                 | Built buf vcnt \<Rightarrow> mysql_drv_query env buf (of_nat (length buf)) c))"

definition mysql_drv_stmt_next_result :: "'w my_env \<Rightarrow> db_stmt_t \<Rightarrow> 'w my_dbconn \<Rightarrow> 'w my_dbconn \<times> db_error_t" where
  "mysql_drv_stmt_next_result env stmt c =
     (if ma_dry_run (mye_args env) then (c, DB_ERROR_NONE)
      else
        let c = clear_my_error c
        in if my_emulated (cn_ptr c) (sm_id stmt) then mysql_drv_next_result env c
           else case my_stmts (cn_ptr c) (sm_id stmt) of
             None \<Rightarrow>
               (my_log LOG_DEBUG ''ERROR: exiting mysql_drv_stmt_next_result(), uninitialized statement'' c, DB_ERROR_FATAL)
           | Some p \<Rightarrow>
               let (c, err) = my_call (mysql_stmt_next_result (mye_lib env) p) c
               in if err > 0 then check_error env ''mysql_drv_stmt_next_result()'' (sm_query stmt) c
                  else if err = - 1 then (my_rs (\<lambda>rs. rs\<lparr>rs_counter := SB_CNT_OTHER\<rparr>) c, DB_ERROR_NONE)
                  else store_stmt_result env p c)"

section \<open>Result sets and statements\<close>

text \<open>\<open>mysql_fetch_row\<close> and \<open>mysql_fetch_lengths\<close>; the lengths are NULL after the last row.\<close>

definition mysql_drv_fetch_row :: "'w my_env \<Rightarrow> 'w my_dbconn \<Rightarrow> 'w my_dbconn \<times> int" where
  "mysql_drv_fetch_row env c =
     (if ma_dry_run (mye_args env) then (c, 0)
      else case my_rs_ptr (cn_ptr c) of
        None \<Rightarrow> (my_crash c, 1)
      | Some i \<Rightarrow>
          (case my_results (cn_ptr c) i of
             None \<Rightarrow> (my_crash c, 1)
           | Some (res, k) \<Rightarrow>
               if k \<ge> length (mr_rows res) then (c, 1)
               else
                 let c = myd (\<lambda>d. d\<lparr>my_results := (my_results d)(i \<mapsto> (res, k + 1))\<rparr>) c;
                     cells = mr_rows res ! k
                 in case rs_values (cn_rs c) of
                      None \<Rightarrow> (my_crash c, 0)
                    | Some vs \<Rightarrow>
                        (my_rs (\<lambda>rs. rs\<lparr>rs_values := Some (fold (\<lambda>j vs. vs[j := cells ! j]) [0..<unat (rs_nfields rs)] vs)\<rparr>) c, 0)))"

text \<open>The result set of a statement that is not emulated belongs to the statement.  The pointer of a
  statement that is closed is NULL.\<close>

definition mysql_drv_free_results :: "'w my_env \<Rightarrow> 'w my_dbconn \<Rightarrow> 'w my_dbconn \<times> int" where
  "mysql_drv_free_results env c =
     (if ma_dry_run (mye_args env) then (c, 0)
      else
        let c = (case rs_statement (cn_rs c) of
                   None \<Rightarrow> c
                 | Some i \<Rightarrow>
                     if my_emulated (cn_ptr c) i then c
                     else
                       myd (\<lambda>d. d\<lparr>my_rs_ptr := None\<rparr>)
                         (case my_stmts (cn_ptr c) i of
                            None \<Rightarrow> my_crash c
                          | Some p \<Rightarrow> my_do (mysql_stmt_free_result (mye_lib env) p) c))
        in (case my_rs_ptr (cn_ptr c) of
              None \<Rightarrow> c
            | Some i \<Rightarrow>
                if my_results (cn_ptr c) i = None then my_crash c
                else myd (\<lambda>d. d\<lparr>my_results := (my_results d)(i := None), my_rs_ptr := None\<rparr>) c, 0))"

text \<open>\<open>mysql_stmt_close\<close> returns 0 or 1.\<close>

definition mysql_drv_close :: "'w my_env \<Rightarrow> db_stmt_t \<Rightarrow> 'w my_dbconn \<Rightarrow> 'w my_dbconn \<times> int" where
  "mysql_drv_close env stmt c =
     (if ma_dry_run (mye_args env) then (c, 0)
      else case my_stmts (cn_ptr c) (sm_id stmt) of
        None \<Rightarrow> (c, 1)
      | Some p \<Rightarrow>
          let (c, rc) = my_call (mysql_stmt_close (mye_lib env) p) c
          in (myd (\<lambda>d. d\<lparr>my_stmts := (my_stmts d)(sm_id stmt := None)\<rparr>) c, rc))"

text \<open>The table.  The layer never calls \<open>fetch\<close>, and \<open>done\<close> only ends the library.\<close>

definition mysql_ops :: "'w my_env \<Rightarrow> 'w my_data drv_ops_t" where
  "mysql_ops env =
     \<lparr>drv_init = (\<lambda>_. mye_init env), drv_thread_init = Some (mysql_drv_thread_init (mye_lib env)),
      drv_describe = Some mysql_drv_describe,
      drv_connect = mysql_drv_connect env, drv_disconnect = mysql_drv_disconnect env,
      drv_reconnect = Some (mysql_drv_reconnect env),
      drv_prepare = mysql_drv_prepare env, drv_bind_param = mysql_drv_bind_param env,
      drv_bind_result = mysql_drv_bind_result env, drv_execute = mysql_drv_execute env,
      drv_stmt_next_result = Some (mysql_drv_stmt_next_result env), drv_fetch_row = Some (mysql_drv_fetch_row env),
      drv_free_results = mysql_drv_free_results env, drv_more_results = Some (mysql_drv_more_results env),
      drv_next_result = Some (mysql_drv_next_result env), drv_close = mysql_drv_close env,
      drv_query = mysql_drv_query env, drv_thread_done = Some mysql_drv_thread_done\<rparr>"

definition mysql_driver :: "'w my_env \<Rightarrow> bool \<Rightarrow> 'w my_data db_driver_t" where
  "mysql_driver env has_mode =
     \<lparr>dr_sname = ''mysql'', dr_lname = ''MySQL driver'', dr_args = Some (mysql_drv_arg_list has_mode),
      dr_ops = mysql_ops env, dr_initialized = False\<rparr>"

end
