(* ===== verification/MyProps.thy ===== *)
theory MyProps
  imports MyDriver DriverProps
begin

text \<open>
  Properties of the MySQL driver: connections go round the servers, errors are ignored or end the
  connection as the options say, and result sets are freed exactly once unless a statement
  prepared by the server has been executed before.
\<close>

section \<open>The driver leaves the fields of the layer alone\<close>

lemma my_simps [simp]:
  "cn_ptr (myd f c) = f (cn_ptr c)" "cn_rs (myd f c) = cn_rs c" "cn_ptr (my_rs g c) = cn_ptr c"
  "cn_rs (my_rs g c) = g (cn_rs c)" "cn_ptr (my_log p t c) = (cn_ptr c)\<lparr>my_said := my_said (cn_ptr c) @ [(p, t)]\<rparr>"
  "cn_rs (my_log p t c) = cn_rs c" "cn_ptr (my_crash c) = (cn_ptr c)\<lparr>my_fault := True\<rparr>" "cn_rs (my_crash c) = cn_rs c"
  "cn_ptr (clear_my_error c) = (cn_ptr c)\<lparr>my_sql_errno := 0, my_sql_state := None, my_sql_errmsg := None\<rparr>"
  "cn_rs (clear_my_error c) = cn_rs c"
  "cn_ptr (my_do w c) = (cn_ptr c)\<lparr>my_world := w (my_world (cn_ptr c))\<rparr>" "cn_rs (my_do w c) = cn_rs c"
  "cn_ptr (fst (my_call h c)) = (cn_ptr c)\<lparr>my_world := fst (h (my_world (cn_ptr c)))\<rparr>"
  "cn_rs (fst (my_call h c)) = cn_rs c" "snd (my_call h c) = snd (h (my_world (cn_ptr c)))"
  by (simp_all add: myd_def my_rs_def my_log_def my_crash_def clear_my_error_def my_do_def my_call_def Let_def case_prod_beta)

lemma frame_my [simp]:
  "frame c (myd f c') = frame c c'" "frame c (my_log p t c') = frame c c'" "frame c (my_crash c') = frame c c'"
  "frame c (clear_my_error c') = frame c c'" "frame c (my_do w c') = frame c c'" "frame c (fst (my_call h c')) = frame c c'"
  by (simp_all add: frame_def myd_def my_log_def my_crash_def clear_my_error_def my_do_def my_call_def Let_def case_prod_beta)

lemma frame_my_rs [simp]:
  "(\<And>rs. rs_values (g rs) = rs_values rs) \<Longrightarrow> frame c (my_rs g c') = frame c c'"
  by (simp add: frame_def my_rs_def)

lemma frame_same [simp]: "frame c c" "frame c (c'\<lparr>cn_ptr := d\<rparr>) = frame c c'"
  by (simp_all add: frame_def)

text \<open>A real connection attempt changes the state of the library only.\<close>

definition with_world :: "'w \<Rightarrow> 'w my_dbconn \<Rightarrow> 'w my_dbconn" where
  "with_world w c = c\<lparr>cn_ptr := (cn_ptr c)\<lparr>my_world := w\<rparr>\<rparr>"

lemma with_world_simps [simp]:
  "with_world w (my_do h c) = with_world w c" "with_world w (fst (my_call k c)) = with_world w c"
  "with_world (my_world (cn_ptr c)) c = c"
  by (simp_all add: with_world_def my_do_def my_call_def myd_def Let_def case_prod_beta)

lemma real_connect_shape:
  "fst (mysql_drv_real_connect env con c) = with_world (my_world (cn_ptr (fst (mysql_drv_real_connect env con c)))) c"
proof -
  have "with_world w (fst (mysql_drv_real_connect env con c)) = with_world w c" for w
    by (simp add: mysql_drv_real_connect_def Let_def case_prod_beta split: option.split)
  from this [of "my_world (cn_ptr (fst (mysql_drv_real_connect env con c)))"] show ?thesis by simp
qed

lemma with_world_parts [simp]:
  "frame c (with_world w c') = frame c c'" "cn_rs (with_world w c) = cn_rs c"
  "cn_ptr (with_world w c) = (cn_ptr c)\<lparr>my_world := w\<rparr>"
  by (simp_all add: with_world_def frame_def)

text \<open>What no change of the library's state and no message can break, the loop of a reconnection keeps.\<close>

lemma my_reconnect_keeps:
  assumes "\<And>c w. P c \<Longrightarrow> P (with_world w c)" "\<And>p t c. P c \<Longrightarrow> P (my_log p t c)"
    "my_reconnect_loop env con k c = Some r" "P c"
  shows "P (fst r) \<and> snd r \<noteq> DB_ERROR_NONE"
proof -
  have step: "P c \<Longrightarrow> P (fst (mysql_drv_real_connect env con c))" for env con c
    using assms(1) real_connect_shape by metis
  have "P c \<longrightarrow> P (fst r) \<and> snd r \<noteq> DB_ERROR_NONE"
    using assms(3)
  proof (rule my_reconnect_loop.raw_induct
      [rotated, where P = "\<lambda>env con k c r. P c \<longrightarrow> P (fst r) \<and> snd r \<noteq> DB_ERROR_NONE"], goal_cases)
    case (1 loop env con k c r)
    then show ?case using step [of c env con] assms(2) by (auto simp: Let_def case_prod_beta split: if_splits)
  qed
  with assms(4) show ?thesis by blast
qed

lemma frame_reconnect [simp]: "frame c (fst (mysql_drv_reconnect env c')) = frame c c'"
proof -
  have "frame c (fst r) = frame c d" if "my_reconnect_loop env con 0 d = Some r" for con r d
    using my_reconnect_keeps [of "\<lambda>x. frame c x = frame c d", OF _ _ that] by simp
  then show ?thesis by (auto simp: mysql_drv_reconnect_def split: option.split)
qed

lemma frame_check_error [simp]: "frame c (fst (check_error env fn q c')) = frame c c'"
  by (simp add: check_error_def Let_def split: option.split)

lemma frame_my_connect [simp]: "frame c (fst (mysql_drv_connect env c')) = frame c c'"
proof -
  have "frame c (fst (mysql_drv_real_connect env con d)) = frame c d" for con d
    by (subst real_connect_shape) simp
  then show ?thesis by (simp add: mysql_drv_connect_def Let_def case_prod_beta split: option.split)
qed

lemma frame_store [simp]:
  "frame c (fst (store_query_result env m c')) = frame c c'"
  "frame c (fst (store_stmt_result env p c')) = frame c c'"
  by (simp_all add: store_query_result_def store_stmt_result_def Let_def case_prod_beta split: option.split)

lemma frame_queries [simp]:
  "frame c (fst (mysql_drv_query env q n c')) = frame c c'"
  "frame c (fst (mysql_drv_next_result env c')) = frame c c'"
  "frame c (fst (mysql_drv_more_results env c')) = frame c c'"
  by (simp_all add: mysql_drv_query_def mysql_drv_next_result_def mysql_drv_more_results_def Let_def case_prod_beta
      split: option.split)

lemma frame_statements [simp]:
  "frame c (fst (mysql_drv_execute env t c')) = frame c c'"
  "frame c (fst (mysql_drv_stmt_next_result env t c')) = frame c c'"
  "frame c (fst (mysql_drv_prepare env t q n c')) = frame c c'"
  "frame c (fst (mysql_drv_bind_param env t vs c')) = frame c c'"
  "frame c (fst (mysql_drv_bind_result env t vs c')) = frame c c'"
  "frame c (fst (mysql_drv_close env t c')) = frame c c'"
  by (simp_all add: mysql_drv_execute_def mysql_drv_stmt_next_result_def mysql_drv_prepare_def mysql_drv_bind_param_def
      mysql_drv_bind_result_def mysql_drv_close_def Let_def case_prod_beta split: option.split built.split)

lemma frame_results [simp]:
  "frame c (fst (mysql_drv_free_results env c')) = frame c c'"
  "frame c (fst (mysql_drv_disconnect env c')) = frame c c'"
  "frame c (fst (mysql_drv_fetch_row env c))"
  by (auto simp: mysql_drv_free_results_def mysql_drv_disconnect_def mysql_drv_fetch_row_def Let_def case_prod_beta
      frame_def my_rs_def myd_def my_crash_def my_do_def split: option.split)

lemma mysql_driver_ok: "driver_ok (mysql_ops env)"
  by (auto simp: driver_ok_def mysql_ops_def)

section \<open>Result sets\<close>

lemma my_reconnect_stops:
  assumes "mye_error env (k + n)"
  shows "my_reconnect_loop env con k c \<noteq> None"
  using assms
proof (induction n arbitrary: k c)
  case 0
  then show ?case by (subst my_reconnect_loop.simps) (simp add: Let_def case_prod_beta)
next
  case (Suc n)
  then show ?case by (subst my_reconnect_loop.simps) (simp add: Let_def case_prod_beta)
qed

text \<open>A connection without a statement of its result set, on which nothing has faulted; the result sets
  not freed are the one of the connection.\<close>

definition my_good :: "'w my_env \<Rightarrow> 'w my_dbconn \<Rightarrow> bool" where
  "my_good env c \<longleftrightarrow> \<not> ma_dry_run (mye_args env) \<and> (\<exists>n. mye_error env n) \<and> \<not> my_fault (cn_ptr c) \<and>
     my_conn (cn_ptr c) \<noteq> None \<and> rs_statement (cn_rs c) = None \<and>
     (\<forall>i. my_results (cn_ptr c) i \<noteq> None \<longleftrightarrow> my_rs_ptr (cn_ptr c) = Some i)"

definition my_has_rs :: "'w my_dbconn \<Rightarrow> bool" where
  "my_has_rs c \<longleftrightarrow> my_rs_ptr (cn_ptr c) \<noteq> None"

definition my_idle :: "'w my_env \<Rightarrow> 'w my_dbconn \<Rightarrow> bool" where
  "my_idle env c \<longleftrightarrow> my_good env c \<and> \<not> my_has_rs c"

lemma my_idle_simps [simp]:
  "my_idle env (with_world w c) = my_idle env c" "my_idle env (my_log p t c) = my_idle env c"
  "my_idle env (my_do h c) = my_idle env c" "my_idle env (fst (my_call k c)) = my_idle env c"
  "my_idle env (clear_my_error c) = my_idle env c"
  "(\<And>rs. rs_statement (g rs) = rs_statement rs) \<Longrightarrow> my_idle env (my_rs g c) = my_idle env c"
  "my_idle env (myd (\<lambda>d. d\<lparr>my_sql_errno := e, my_sql_state := Some (st d), my_sql_errmsg := m\<rparr>) c) = my_idle env c"
  by (simp_all add: my_idle_def my_good_def my_has_rs_def)

lemma my_reconnect_law:
  assumes "my_idle env c"
  shows "my_idle env (fst (mysql_drv_reconnect env c)) \<and> snd (mysql_drv_reconnect env c) \<noteq> DB_ERROR_NONE"
proof -
  obtain con n where con: "my_conn (cn_ptr c) = Some con" "mye_error env n"
    using assms by (auto simp: my_idle_def my_good_def)
  let ?c = "my_do (mysql_close (mye_lib env) (mc_mysql con)) (my_log LOG_DEBUG ''Reconnecting'' c)"
  obtain r where r: "my_reconnect_loop env con 0 ?c = Some r" using my_reconnect_stops [of env 0 n con ?c] con(2) by auto
  from my_reconnect_keeps [of "my_idle env", OF _ _ r] assms
  have "my_idle env (fst r) \<and> snd r \<noteq> DB_ERROR_NONE" by simp
  then show ?thesis using con(1) r by (simp add: mysql_drv_reconnect_def)
qed

lemma my_check_error_law:
  assumes "my_idle env c"
  shows "my_idle env (fst (check_error env fn q c)) \<and> snd (check_error env fn q c) \<noteq> DB_ERROR_NONE"
proof -
  obtain con where con: "my_conn (cn_ptr c) = Some con" using assms by (auto simp: my_idle_def my_good_def)
  have "my_idle env (my_rs (rs_counter_update (\<lambda>_. SB_CNT_RECONNECT)) (my_log LOG_DEBUG t
      (myd (\<lambda>d. d\<lparr>my_sql_errno := e, my_sql_state := Some (st d), my_sql_errmsg := m\<rparr>) c)))" for t e st m
    using assms by simp
  from my_reconnect_law [OF this] con show ?thesis using assms by (simp add: check_error_def Let_def)
qed

lemma my_store_law:
  assumes "my_idle env c"
  shows "my_good env (fst (store_query_result env m c)) \<and>
    (my_has_rs (fst (store_query_result env m c)) \<longleftrightarrow> snd (store_query_result env m c) = DB_ERROR_NONE \<and>
       rs_counter (cn_rs (fst (store_query_result env m c))) = SB_CNT_READ)"
proof (cases "snd (mysql_store_result (mye_lib env) m (my_world (cn_ptr c)))")
  case None
  let ?c = "fst (my_call (mysql_store_result (mye_lib env) m) c)"
  have "my_idle env ?c" using assms by simp
  from my_check_error_law [OF this] my_idle_simps(6) [of _ env ?c] this show ?thesis using None
    by (auto simp: store_query_result_def Let_def case_prod_beta my_idle_def my_good_def my_has_rs_def)
next
  case (Some res)
  then show ?thesis using assms
    by (auto simp: store_query_result_def Let_def case_prod_beta my_idle_def my_good_def my_has_rs_def)
qed

lemma my_answers:
  "answers (my_good env) my_has_rs (mysql_drv_query env q n)"
  "answers (my_good env) my_has_rs (mysql_drv_next_result env)"
proof -
  have idle: "my_idle env c \<Longrightarrow> my_good env c \<and> \<not> my_has_rs c" for c by (simp add: my_idle_def)
  have con: "my_idle env c \<Longrightarrow> \<not> ma_dry_run (mye_args env) \<and> (\<exists>con. my_conn (cn_ptr c) = Some con)" for c
    by (auto simp: my_idle_def my_good_def)
  have err: "my_idle env c \<Longrightarrow> my_good env (fst (check_error env fn q c)) \<and> \<not> my_has_rs (fst (check_error env fn q c)) \<and>
      snd (check_error env fn q c) \<noteq> DB_ERROR_NONE" for fn q c
    using my_check_error_law [of env c fn q] by (simp add: my_idle_def)
  show "answers (my_good env) my_has_rs (mysql_drv_query env q n)"
    unfolding answers_def my_idle_def [symmetric]
  proof (intro allI impI)
    fix c assume c: "my_idle env c"
    then show "my_good env (fst (mysql_drv_query env q n c)) \<and> (my_has_rs (fst (mysql_drv_query env q n c)) \<longleftrightarrow>
        snd (mysql_drv_query env q n c) = DB_ERROR_NONE \<and> rs_counter (cn_rs (fst (mysql_drv_query env q n c))) = SB_CNT_READ)"
    proof -
      obtain con where "my_conn (cn_ptr c) = Some con" "\<not> ma_dry_run (mye_args env)" using con [OF c] by blast
      then show ?thesis using c
        by (cases "snd (mysql_real_query (mye_lib env) (mc_mysql con) q n (my_world (cn_ptr c))) = 0")
          (simp_all add: mysql_drv_query_def Let_def case_prod_beta err my_store_law)
    qed
  qed
  show "answers (my_good env) my_has_rs (mysql_drv_next_result env)"
    unfolding answers_def my_idle_def [symmetric]
  proof (intro allI impI)
    fix c assume c: "my_idle env c"
    then have "my_idle env (my_rs (\<lambda>rs. rs\<lparr>rs_counter := SB_CNT_OTHER\<rparr>) (fst (my_call k (clear_my_error c))))"
      for k :: "'a \<Rightarrow> 'a \<times> int" by simp
    from idle [OF this] show "my_good env (fst (mysql_drv_next_result env c)) \<and> (my_has_rs (fst (mysql_drv_next_result env c)) \<longleftrightarrow>
        snd (mysql_drv_next_result env c) = DB_ERROR_NONE \<and> rs_counter (cn_rs (fst (mysql_drv_next_result env c))) = SB_CNT_READ)"
    proof -
      assume other: "\<And>k :: 'a \<Rightarrow> 'a \<times> int. my_good env (my_rs (\<lambda>rs. rs\<lparr>rs_counter := SB_CNT_OTHER\<rparr>) (fst (my_call k (clear_my_error c)))) \<and>
          \<not> my_has_rs (my_rs (\<lambda>rs. rs\<lparr>rs_counter := SB_CNT_OTHER\<rparr>) (fst (my_call k (clear_my_error c))))"
      obtain con where d: "my_conn (cn_ptr c) = Some con" "\<not> ma_dry_run (mye_args env)" using con [OF c] by blast
      let ?e = "snd (mysql_lib_next_result (mye_lib env) (mc_mysql con) (my_world (cn_ptr c)))"
      show ?thesis using c d other
        by (cases "?e > 0"; cases "?e = - 1")
          (simp_all add: mysql_drv_next_result_def Let_def case_prod_beta err my_store_law)
    qed
  qed
qed

lemma my_free_law:
  assumes "my_good env c" "my_has_rs c"
  shows "snd (mysql_drv_free_results env c) = 0 \<and> my_idle env (fst (mysql_drv_free_results env c))"
proof -
  obtain i where i: "my_rs_ptr (cn_ptr c) = Some i" using assms(2) by (auto simp: my_has_rs_def)
  then have "my_results (cn_ptr c) i \<noteq> None" using assms(1) by (simp add: my_good_def)
  then show ?thesis using assms(1) i
    by (auto simp: mysql_drv_free_results_def my_idle_def my_good_def my_has_rs_def)
qed

lemma my_fetch_law:
  assumes "my_good env c" "my_has_rs c" "rs_values (cn_rs c) \<noteq> None"
  shows "my_good env (fst (mysql_drv_fetch_row env c)) \<and> my_has_rs (fst (mysql_drv_fetch_row env c))"
proof -
  obtain i vs where i: "my_rs_ptr (cn_ptr c) = Some i" "rs_values (cn_rs c) = Some vs"
    using assms(2,3) by (auto simp: my_has_rs_def)
  moreover from i(1) assms(1) have "my_results (cn_ptr c) i \<noteq> None" by (simp add: my_good_def)
  then obtain res k where "my_results (cn_ptr c) i = Some (res, k)" by auto
  ultimately show ?thesis using assms(1,2)
    by (auto simp: mysql_drv_fetch_row_def Let_def my_good_def my_has_rs_def)
qed

interpretation my: result_driver "mysql_ops env" "my_good env" my_has_rs for env
proof (unfold_locales, goal_cases)
  case 1 show ?case by (rule mysql_driver_ok)
next
  case (2 c c') then show ?case by (auto simp: my_good_def my_has_rs_def)
next
  case (3 q n) show ?case using my_answers(1) by (simp add: mysql_ops_def)
next
  case (4 f) then show ?case using my_answers(2) [of env] by (auto simp: mysql_ops_def)
next
  case (5 c) then show ?case using my_free_law by (simp add: mysql_ops_def my_idle_def)
next
  case (6 k c) then show ?case using my_fetch_law [of env c] by (simp add: mysql_ops_def)
next
  case (7 g c)
  then obtain con where "my_conn (cn_ptr c) = Some con" "\<not> ma_dry_run (mye_args env)" by (auto simp: my_good_def)
  moreover have "g = mysql_drv_more_results env" using 7 by (simp add: mysql_ops_def)
  ultimately show ?case using 7(2) by (simp add: mysql_drv_more_results_def)
next
  case (8 c)
  then have "my_idle env c" by (simp add: my_idle_def)
  then have "my_idle env (fst (mysql_drv_disconnect env c))" by (simp add: mysql_drv_disconnect_def split: option.split)
  then show ?case by (simp add: mysql_ops_def my_idle_def)
next
  case (9 h c)
  then show ?case using my_reconnect_law [of env c] by (simp add: mysql_ops_def my_idle_def)
qed

text \<open>C30: Whatever sequence of queries, further result sets, fetches, multi-row inserts, reconnections and
  the final close the layer performs on a MySQL connection that has executed no prepared
  statement, the driver never faults and every result set it has been given has been freed
  except the one that is open.\<close>

theorem mysql_results_freed:
  assumes "\<not> ma_dry_run (mye_args env)" "mye_error env n" "my_conn (cn_ptr (y_con s)) \<noteq> None" "\<not> my_fault (cn_ptr (y_con s))"
    and "my_results (cn_ptr (y_con s)) = Map.empty" "my_rs_ptr (cn_ptr (y_con s)) = None"
    "rs_statement (cn_rs (y_con s)) = None" "cn_state (y_con s) = DB_CONN_READY"
    and "list_all plain ps" "db_steps (mysql_ops env) ps s = Some s'"
  shows "\<not> my_fault (cn_ptr (y_con s')) \<and>
    (cn_state (y_con s') = DB_CONN_RESULT_SET \<longleftrightarrow> my_rs_ptr (cn_ptr (y_con s')) \<noteq> None) \<and>
    (\<forall>i. my_results (cn_ptr (y_con s')) i \<noteq> None \<longleftrightarrow> my_rs_ptr (cn_ptr (y_con s')) = Some i)"
proof -
  have "tied (my_good env) my_has_rs s" using assms(1-8) by (auto simp: tied_def my_good_def my_has_rs_def)
  from my.steps_ok [OF this assms(9,10)] show ?thesis by (simp add: tied_def my_good_def my_has_rs_def)
qed

section \<open>A statement that stays with the result set\<close>

text \<open>No operation of the driver changes which statement a result set belongs to.\<close>

lemma my_statement_kept:
  "rs_statement (cn_rs (fst (mysql_drv_query env q n c))) = rs_statement (cn_rs c)"
  "rs_statement (cn_rs (fst (mysql_drv_execute env t c))) = rs_statement (cn_rs c)"
proof -
  have loop: "rs_statement (cn_rs (fst r)) = rs_statement (cn_rs d)" if "my_reconnect_loop env con 0 d = Some r" for con r d
    using my_reconnect_keeps [of "\<lambda>x. rs_statement (cn_rs x) = rs_statement (cn_rs d)", OF _ _ that] by simp
  have again: "rs_statement (cn_rs (fst (mysql_drv_reconnect env c))) = rs_statement (cn_rs c)" for c
    using loop by (auto simp: mysql_drv_reconnect_def split: option.split)
  have err: "rs_statement (cn_rs (fst (check_error env fn q c))) = rs_statement (cn_rs c)" for fn q c
    by (simp add: check_error_def Let_def again split: option.split)
  have store: "rs_statement (cn_rs (fst (store_query_result env m c))) = rs_statement (cn_rs c)"
    "rs_statement (cn_rs (fst (store_stmt_result env p c))) = rs_statement (cn_rs c)" for m p c
    by (simp_all add: store_query_result_def store_stmt_result_def Let_def case_prod_beta err split: option.split)
  show query: "rs_statement (cn_rs (fst (mysql_drv_query env q n c))) = rs_statement (cn_rs c)" for q n c
    by (simp add: mysql_drv_query_def Let_def case_prod_beta err store split: option.split)
  show "rs_statement (cn_rs (fst (mysql_drv_execute env t c))) = rs_statement (cn_rs c)"
    by (simp add: mysql_drv_execute_def Let_def case_prod_beta err store query split: option.split built.split)
qed

text \<open>Executing and querying leave the pointers of the statements alone.\<close>

lemma my_tables_kept:
  "my_stmts (cn_ptr (fst (mysql_drv_execute env t c))) = my_stmts (cn_ptr c) \<and>
   my_emulated (cn_ptr (fst (mysql_drv_execute env t c))) = my_emulated (cn_ptr c)"
proof -
  let ?tabs = "\<lambda>c. (my_stmts (cn_ptr c), my_emulated (cn_ptr c))"
  have loop: "?tabs (fst r) = ?tabs d" if "my_reconnect_loop env con 0 d = Some r" for con r d
    using my_reconnect_keeps [of "\<lambda>x. ?tabs x = ?tabs d", OF _ _ that] by simp
  have again: "?tabs (fst (mysql_drv_reconnect env c)) = ?tabs c" for c
    using loop by (fastforce simp: mysql_drv_reconnect_def split: option.split)
  have err: "?tabs (fst (check_error env fn q c)) = ?tabs c" for fn q c
    using again by (simp add: check_error_def Let_def split: option.split)
  have store: "?tabs (fst (store_query_result env m c)) = ?tabs c" "?tabs (fst (store_stmt_result env p c)) = ?tabs c" for m p c
    using err by (simp_all add: store_query_result_def store_stmt_result_def Let_def case_prod_beta split: option.split)
  have query: "?tabs (fst (mysql_drv_query env q n c)) = ?tabs c" for q n c
    using err store by (simp add: mysql_drv_query_def Let_def case_prod_beta split: option.split)
  have "?tabs (fst (mysql_drv_execute env t c)) = ?tabs c"
    using err store query by (simp add: mysql_drv_execute_def Let_def case_prod_beta split: option.split built.split)
  then show ?thesis by simp
qed

text \<open>A statement of the server that was executed without an error has a pointer.\<close>

lemma my_executed_ptr:
  assumes "\<not> ma_dry_run (mye_args env)" "\<not> my_emulated (cn_ptr (fst (mysql_drv_execute env stmt c))) (sm_id stmt)"
    "snd (mysql_drv_execute env stmt c) = DB_ERROR_NONE"
  shows "\<exists>p. my_stmts (cn_ptr (fst (mysql_drv_execute env stmt c))) (sm_id stmt) = Some p"
proof -
  have same: "my_stmts (cn_ptr (fst (mysql_drv_execute env stmt c))) = my_stmts (cn_ptr c) \<and>
      my_emulated (cn_ptr (fst (mysql_drv_execute env stmt c))) = my_emulated (cn_ptr c)"
    by (rule my_tables_kept)
  then show ?thesis using assms by (auto simp: mysql_drv_execute_def Let_def split: option.splits)
qed

text \<open>Closing the statement keeps what the result set refers to; only the pointer is gone.\<close>

lemma my_close_keeps:
  assumes "cn_state (y_con s) = DB_CONN_READY" "\<not> ma_dry_run (mye_args env)"
  shows "cn_state (y_con (fst (db_close (mysql_ops env) stmt s))) = DB_CONN_READY"
    "cn_rs (y_con (fst (db_close (mysql_ops env) stmt s))) = cn_rs (y_con s)"
    "my_emulated (cn_ptr (y_con (fst (db_close (mysql_ops env) stmt s)))) = my_emulated (cn_ptr (y_con s))"
    "my_stmts (cn_ptr (y_con (fst (db_close (mysql_ops env) stmt s)))) (sm_id stmt) = None"
proof -
  let ?c = "fst (mysql_drv_close env stmt (y_con s))"
  have y: "y_con (fst (db_close (mysql_ops env) stmt s)) = ?c"
    using assms(1) by (simp add: db_close_def free_pending_def mysql_ops_def)
  have "frame (y_con s) ?c" by simp
  then show "cn_state (y_con (fst (db_close (mysql_ops env) stmt s))) = DB_CONN_READY"
    using assms(1) unfolding y by (simp add: frame_def)
  show "cn_rs (y_con (fst (db_close (mysql_ops env) stmt s))) = cn_rs (y_con s)"
    "my_emulated (cn_ptr (y_con (fst (db_close (mysql_ops env) stmt s)))) = my_emulated (cn_ptr (y_con s))"
    "my_stmts (cn_ptr (y_con (fst (db_close (mysql_ops env) stmt s)))) (sm_id stmt) = None"
    unfolding y using assms(2) by (simp_all add: mysql_drv_close_def Let_def case_prod_beta split: option.split)
qed


section \<open>Errors\<close>

text \<open>An error of a query is kept with its state; it ends with a fatal error unless its number or
  \<open>all\<close> is among the errors to ignore; an ignored error is counted as an error, and one that lost
  the connection as a reconnection, for which the connection is closed and opened again with
  the same parameters, until that succeeds or the global error is set.\<close>

theorem mysql_query_error:
  assumes "my_conn (cn_ptr c) = Some con" "\<not> ma_dry_run (mye_args env)"
    "mysql_real_query (mye_lib env) (mc_mysql con) q n (my_world (cn_ptr c)) = (w, rc)" "rc \<noteq> 0"
    and "mysql_drv_query env q n c = (c', e)" "err = mysql_errno (mye_lib env) (mc_mysql con) w"
  shows "if \<not> (\<exists>v\<in>set (ma_ignored_errors (mye_args env)). err = atoi v \<or> v = ''all'')
    then e = DB_ERROR_FATAL \<and> rs_counter (cn_rs c') = SB_CNT_ERROR \<and> my_sql_errno (cn_ptr c') = err
    else if err \<notin> cr_lost (mye_lib env)
    then e = DB_ERROR_IGNORABLE \<and> rs_counter (cn_rs c') = SB_CNT_ERROR \<and> my_sql_errno (cn_ptr c') = err
    else (\<forall>k. mye_error env k \<longrightarrow> rs_counter (cn_rs c') = SB_CNT_RECONNECT \<and> my_sql_errno (cn_ptr c') = err \<and>
      (\<exists>d r. my_world (cn_ptr d) = mysql_close (mye_lib env) (mc_mysql con) w \<and> my_conn (cn_ptr d) = Some con \<and>
         my_reconnect_loop env con 0 d = Some r \<and> r = (c', e) \<and> e \<noteq> DB_ERROR_NONE))"
proof -
  have some: "(\<exists>v\<in>set (ma_ignored_errors (mye_args env)). err = atoi v \<or> v = ''all'') \<longleftrightarrow>
      ignored (ma_ignored_errors (mye_args env)) err" by (simp add: ignored_def list_ex_iff)
  have c': "c' = fst (mysql_drv_query env q n c)" and e: "e = snd (mysql_drv_query env q n c)" by (simp_all add: assms(5))
  have q: "mysql_drv_query env q n c =
      check_error env ''mysql_drv_query()'' (Some q) (fst (my_call (mysql_real_query (mye_lib env) (mc_mysql con) q n) (clear_my_error c)))"
    using assms(1-4) by (simp add: mysql_drv_query_def Let_def case_prod_beta)
  note defs = q check_error_def Let_def my_get_def
  show ?thesis
  proof (cases "ignored (ma_ignored_errors (mye_args env)) err \<and> err \<in> cr_lost (mye_lib env)")
    case False
    then show ?thesis using assms(1,3,6) unfolding c' e some by (auto simp: defs)
  next
    case True
    obtain d0 where d0: "mysql_drv_query env q n c = mysql_drv_reconnect env d0" "rs_counter (cn_rs d0) = SB_CNT_RECONNECT"
      "my_world (cn_ptr d0) = w" "my_conn (cn_ptr d0) = Some con" "my_sql_errno (cn_ptr d0) = err"
      using True assms(1,3,6) by (auto simp: defs)
    define d where "d = my_do (mysql_close (mye_lib env) (mc_mysql con)) (my_log LOG_DEBUG ''Reconnecting'' d0)"
    have d: "my_world (cn_ptr d) = mysql_close (mye_lib env) (mc_mysql con) w" "my_conn (cn_ptr d) = Some con"
      "rs_counter (cn_rs d) = SB_CNT_RECONNECT" "my_sql_errno (cn_ptr d) = err"
      using d0 by (simp_all add: d_def)
    have "rs_counter (cn_rs c') = SB_CNT_RECONNECT \<and> my_sql_errno (cn_ptr c') = err \<and>
        my_reconnect_loop env con 0 d = Some (c', e) \<and> e \<noteq> DB_ERROR_NONE" if k: "mye_error env k" for k
    proof -
      obtain r where r: "my_reconnect_loop env con 0 d = Some r" using my_reconnect_stops [of env 0 k con d] k by auto
      then have "r = (c', e)" using d0(1,4) assms(5) by (simp add: mysql_drv_reconnect_def d_def)
      with r my_reconnect_keeps [of "\<lambda>x. rs_counter (cn_rs x) = SB_CNT_RECONNECT \<and> my_sql_errno (cn_ptr x) = err", OF _ _ r] d(3,4)
      show ?thesis by simp
    qed
    with d True show ?thesis unfolding some by auto
  qed
qed

section \<open>Servers\<close>

definition after_picks :: "mysql_drv_args_t \<Rightarrow> nat \<Rightarrow> 'w my_data \<Rightarrow> 'w my_data" where
  "after_picks args n d = ((\<lambda>d. fst (pick_server args d)) ^^ n) d"

lemma next_pos_mod: "i < length xs \<Longrightarrow> (if next_pos xs i = length xs then next_pos xs (next_pos xs i) else next_pos xs i) =
  (i + 1) mod length xs"
  by (auto simp: next_pos_def)

lemma after_picks_Suc: "after_picks args (Suc n) d = fst (pick_server args (after_picks args n d))"
  by (simp add: after_picks_def)

lemma pick_port_pos:
  assumes "ma_sockets args = []" "my_ports_pos e < length (ma_ports args)"
  shows "my_ports_pos (fst (pick_server args e)) = (my_ports_pos e + 1) mod length (ma_ports args)"
  using assms by (auto simp: pick_server_def Let_def next_pos_def)

lemma pick_host_pos:
  assumes "ma_sockets args = []" "my_ports_pos e < length (ma_ports args)" "my_hosts_pos e < length (ma_hosts args)"
  shows "my_hosts_pos (fst (pick_server args e)) =
    (if my_ports_pos e + 1 = length (ma_ports args) then (my_hosts_pos e + 1) mod length (ma_hosts args) else my_hosts_pos e)"
  using assms by (auto simp: pick_server_def Let_def next_pos_def)

lemma pick_socket_pos:
  assumes "ma_sockets args \<noteq> []" "my_sockets_pos e < length (ma_sockets args)"
  shows "my_sockets_pos (fst (pick_server args e)) = (my_sockets_pos e + 1) mod length (ma_sockets args)"
  using assms by (auto simp: pick_server_def Let_def next_pos_def)

lemma after_picks_ports:
  assumes "ma_sockets args = []" "ma_hosts args \<noteq> []" "ma_ports args \<noteq> []" "my_hosts_pos d = 0" "my_ports_pos d = 0"
  shows "my_ports_pos (after_picks args n d) = n mod length (ma_ports args) \<and>
    my_hosts_pos (after_picks args n d) = n div length (ma_ports args) mod length (ma_hosts args)"
proof (induction n)
  case 0
  then show ?case using assms by (simp add: after_picks_def)
next
  case (Suc n)
  have "n mod length (ma_ports args) < length (ma_ports args)"
    "n div length (ma_ports args) mod length (ma_hosts args) < length (ma_hosts args)" using assms(2,3) by simp_all
  then show ?case using Suc assms(1)
    by (auto simp: after_picks_Suc pick_port_pos pick_host_pos mod_Suc_eq mod_Suc div_Suc)
qed

lemma after_picks_sockets:
  assumes "ma_sockets args \<noteq> []" "my_sockets_pos d = length (ma_sockets args)"
  shows "my_sockets_pos (after_picks args (Suc n) d) = n mod length (ma_sockets args)"
proof (induction n)
  case 0
  then show ?case using assms by (simp add: after_picks_def pick_server_def next_pos_def)
next
  case (Suc n)
  have "n mod length (ma_sockets args) < length (ma_sockets args)" using assms(1) by simp
  then show ?case using Suc assms(1)
    by (simp add: after_picks_Suc [of args "Suc n"] pick_socket_pos mod_Suc_eq)
qed

text \<open>C40: From the positions \<open>mysql_drv_init\<close> leaves, connection \<open>n\<close> goes to the next socket of the list, or
  without sockets to the next port of the same host, and to the next host after its last port,
  each list starting over at its end: every server gets the same share of the connections.\<close>

theorem mysql_round_robin:
  assumes "ma_hosts args \<noteq> []" "ma_ports args \<noteq> []"
  shows "snd (pick_server args (after_picks args n (first_positions args d))) =
    (if ma_sockets args = []
     then Some (Some (ma_hosts args ! (n div length (ma_ports args) mod length (ma_hosts args))),
                atoi (ma_ports args ! (n mod length (ma_ports args))), None)
     else Some (Some ''localhost'', 0, Some (ma_sockets args ! (n mod length (ma_sockets args)))))"
proof (cases "ma_sockets args = []")
  case True
  have "n div length (ma_ports args) mod length (ma_hosts args) < length (ma_hosts args)"
    "n mod length (ma_ports args) < length (ma_ports args)" using assms by simp_all
  then show ?thesis using True after_picks_ports [OF True assms, of "first_positions args d" n]
    by (simp add: pick_server_def Let_def entry_def first_positions_def)
next
  case False
  have "snd (pick_server args e) = Some (Some ''localhost'', 0, entry (ma_sockets args) (my_sockets_pos (fst (pick_server args e))))"
    for e :: "'a my_data" using False by (simp add: pick_server_def Let_def)
  moreover have "fst (pick_server args (after_picks args n e)) = after_picks args (Suc n) e" for e :: "'a my_data"
    by (simp add: after_picks_def)
  moreover have "n mod length (ma_sockets args) < length (ma_sockets args)" using False by simp
  ultimately show ?thesis using False after_picks_sockets [OF False, of "first_positions args d" n]
    by (simp add: entry_def first_positions_def)
qed

section \<open>A sample server\<close>

text \<open>A library that answers every query with one row, except the queries \<open>bad\<close> and \<open>gone\<close>: a deadlock
  and a lost connection.  Its state is the last query.\<close>

definition sample_my :: "string libmysql" where
  "sample_my = \<lparr>er_unsupported_ps = 1295, cr_lost = {2013, 2006},
     mysql_thread_init = 0, mysql_init = (\<lambda>w. (w, 0)), mysql_options = (\<lambda>_ _ w. w),
     mysql_real_connect = (\<lambda>_ w. (w, True)), mysql_close = (\<lambda>_ w. w),
     mysql_errno = (\<lambda>_ w. if w = ''bad'' then 1213 else if w = ''gone'' then 2013 else 0),
     mysql_sqlstate = (\<lambda>_ _. ''40001''), mysql_error = (\<lambda>_ _. ''deadlock''),
     mysql_real_query = (\<lambda>_ q _ w. (q, if q = ''bad'' \<or> q = ''gone'' then 1 else 0)),
     mysql_store_result = (\<lambda>_ w. (w, Some \<lparr>mr_rows = [[Some ''1'']], mr_nfields = 1\<rparr>)),
     mysql_field_count = (\<lambda>_ _. 1), mysql_affected_rows = (\<lambda>_ _. 0),
     mysql_lib_more_results = (\<lambda>_ _. False), mysql_lib_next_result = (\<lambda>_ w. (w, - 1)),
     mysql_stmt_init = (\<lambda>_ w. (w, Some 5)), mysql_stmt_prepare = (\<lambda>_ _ _ w. (w, 0)),
     mysql_stmt_param_count = (\<lambda>_ _. 0), mysql_stmt_bind_param = (\<lambda>_ _ w. (w, False)),
     mysql_stmt_bind_result = (\<lambda>_ _ w. (w, False)), mysql_stmt_execute = (\<lambda>_ w. (w, 0)),
     mysql_stmt_store_result = (\<lambda>_ w. (w, 0)), mysql_stmt_errno = (\<lambda>_ _. 0),
     mysql_stmt_field_count = (\<lambda>_ _. 0), mysql_stmt_affected_rows = (\<lambda>_ _. 1),
     mysql_stmt_num_rows = (\<lambda>_ _. 0), mysql_stmt_next_result = (\<lambda>_ w. (w, - 1)),
     mysql_stmt_free_result = (\<lambda>_ w. w), mysql_stmt_close = (\<lambda>_ w. (w, 0))\<rparr>"

definition sample_my_args :: mysql_drv_args_t where
  "sample_my_args = \<lparr>ma_hosts = [''a'', ''b''], ma_ports = [''1'', ''2''], ma_sockets = [], ma_user = None, ma_password = None,
     ma_db = None, ma_ssl_mode = None, ma_use_ssl = False, ma_ssl_key = None, ma_ssl_cert = None, ma_ssl_ca = None,
     ma_ssl_cipher = None, ma_use_compression = False, ma_compression_alg = None, ma_ignored_errors = [''all''],
     ma_dry_run = False, ma_use_ps = True\<rparr>"

definition sample_my_env :: "string my_env" where
  "sample_my_env = \<lparr>mye_lib = sample_my, mye_args = sample_my_args, mye_init = 0, mye_alloc = (\<lambda>_. True), mye_memory = (True, True),
     mye_fmt = (\<lambda>_ _. []), mye_error = (\<lambda>_. True)\<rparr>"

definition sample_my_con :: db_mysql_conn_t where
  "sample_my_con = \<lparr>mc_mysql = 0, mc_host = Some ''a'', mc_user = None, mc_password = None, mc_db = None, mc_port = 1,
     mc_socket = None\<rparr>"

definition sample_my_data :: "string my_data" where
  "sample_my_data = \<lparr>my_world = [], my_hosts_pos = 0, my_ports_pos = 0, my_sockets_pos = 0, my_conn = Some sample_my_con,
     my_results = Map.empty, my_fresh = 0, my_rs_ptr = None, my_sql_errno = 0, my_sql_state = None, my_sql_errmsg = None,
     my_stmts = [1 \<mapsto> 5], my_emulated = (\<lambda>_. False), my_said = [], my_fault = False\<rparr>"

definition sample_my_sys :: "string my_data db_sys" where
  "sample_my_sys = \<lparr>y_con = zero_conn sample_my_data, y_prog = sample_prog\<rparr>"

lemma sample_my_simps [simp]:
  "mye_lib sample_my_env = sample_my" "mye_error sample_my_env n" "\<not> ma_dry_run (mye_args sample_my_env)"
  "ma_ignored_errors (mye_args sample_my_env) = [''all'']" "mc_mysql sample_my_con = 0"
  "cn_ptr (y_con sample_my_sys) = sample_my_data" "cn_state (y_con sample_my_sys) = DB_CONN_READY"
  "rs_statement (cn_rs (y_con sample_my_sys)) = None" "my_world sample_my_data = []"
  "my_conn sample_my_data = Some sample_my_con" "my_results sample_my_data = Map.empty" "my_rs_ptr sample_my_data = None"
  "\<not> my_fault sample_my_data" "my_stmts sample_my_data = [1 \<mapsto> 5]" "\<not> my_emulated sample_my_data i"
  by (simp_all add: sample_my_env_def sample_my_args_def sample_my_con_def sample_my_sys_def sample_my_data_def zero_conn_def
      empty_result_def)

theorem mysql_results_freed_witness:
  "\<exists>s'. db_steps (mysql_ops sample_my_env) [Op_query ''SELECT'' 6, Op_query ''bad'' 3, Op_close_connection] sample_my_sys = Some s' \<and>
     \<not> my_fault (cn_ptr (y_con s'))"
proof -
  obtain s' where s': "db_steps (mysql_ops sample_my_env) [Op_query ''SELECT'' 6, Op_query ''bad'' 3, Op_close_connection]
      sample_my_sys = Some s'" by simp
  from mysql_results_freed [OF _ _ _ _ _ _ _ _ _ this, of 0] s' show ?thesis by simp
qed


theorem mysql_query_error_witness:
  "snd (mysql_drv_query sample_my_env ''bad'' 3 (y_con sample_my_sys)) = DB_ERROR_IGNORABLE \<and>
   rs_counter (cn_rs (fst (mysql_drv_query sample_my_env ''gone'' 4 (y_con sample_my_sys)))) = SB_CNT_RECONNECT"
proof -
  obtain c1 e1 where q1: "mysql_drv_query sample_my_env ''bad'' 3 (y_con sample_my_sys) = (c1, e1)" by fastforce
  obtain c2 e2 where q2: "mysql_drv_query sample_my_env ''gone'' 4 (y_con sample_my_sys) = (c2, e2)" by fastforce
  have r: "mysql_real_query sample_my 0 ''bad'' 3 [] = (''bad'', 1)" "mysql_real_query sample_my 0 ''gone'' 4 [] = (''gone'', 1)"
    "mysql_errno sample_my 0 ''bad'' = 1213" "mysql_errno sample_my 0 ''gone'' = 2013" "cr_lost sample_my = {2013, 2006}"
    by (simp_all add: sample_my_def)
  from mysql_query_error [OF _ _ _ _ q1 refl, of sample_my_con "''bad''" 1]
    mysql_query_error [OF _ _ _ _ q2 refl, of sample_my_con "''gone''" 1] q1 q2
  show ?thesis by (simp add: r)
qed

theorem mysql_round_robin_witness:
  "snd (pick_server sample_my_args (after_picks sample_my_args 2 (first_positions sample_my_args sample_my_data))) =
     Some (Some ''b'', atoi ''1'', None)"
proof -
  have a: "ma_hosts sample_my_args = [''a'', ''b'']" "ma_ports sample_my_args = [''1'', ''2'']" "ma_sockets sample_my_args = []"
    by (simp_all add: sample_my_args_def)
  have "ma_hosts sample_my_args \<noteq> []" "ma_ports sample_my_args \<noteq> []" by (simp_all add: a)
  note r = mysql_round_robin [OF this, of 2]
  have n: "2 div length (ma_ports sample_my_args) mod length (ma_hosts sample_my_args) = 1"
    "2 mod length (ma_ports sample_my_args) = 0" by (simp_all only: a(1,2)) (simp_all add: numeral_2_eq_2)
  show ?thesis by (simp only: r a(3) simp_thms if_True n) (simp add: a)
qed

end
