(* ===== verification/PteTests.thy ===== *)
theory PteTests
  imports Timer
begin

text \<open>
  The PTE metadata tests \<open>test1/test1.c\<close> to \<open>test9/test9.c\<close>: user programs that
  write a pattern to a page, drive the four system calls of the PTE metadata kernel
  (469 enable, 470 disable, 471 set, 472 get), check after every step that the page still
  holds the pattern, and exit with 0 or 1.

  The kernel and the C library are not under \<open>src/\<close>: they are the fields of the record
  \<open>os\<close>, functions on the machine.  The machine has a byte-addressed memory (\<open>None\<close> is an
  unmapped byte, whose access ends the program), the kernel's own state of an unknown type,
  \<open>errno\<close>, the sizes of the blocks the allocator has given out, the number of clock readings, and the timing lines printed so far.  The other
  lines the tests print, and the messages of \<open>perror\<close>, are left out; doubles are reals.
\<close>

section \<open>The machine and its programs\<close>

type_synonym memory = "u64 \<Rightarrow> u8 option"

record 'k machine =
  mem :: memory
  kern :: 'k
  errnum :: int
  chunks :: "u64 \<Rightarrow> nat option"
  clock_reads :: nat
  timings :: "(string \<times> real) list"

record 'k os =
  os_syscall :: "nat \<Rightarrow> u64 list \<Rightarrow> 'k machine \<Rightarrow> int \<times> 'k machine"
  os_memalign :: "u64 \<Rightarrow> u64 \<Rightarrow> 'k machine \<Rightarrow> (int \<times> u64) \<times> 'k machine"
  os_malloc :: "u64 \<Rightarrow> 'k machine \<Rightarrow> u64 \<times> 'k machine"
  os_free :: "u64 \<Rightarrow> 'k machine \<Rightarrow> 'k machine"
  os_mlock :: "u64 \<Rightarrow> u64 \<Rightarrow> 'k machine \<Rightarrow> 'k machine"
  os_munlock :: "u64 \<Rightarrow> u64 \<Rightarrow> 'k machine \<Rightarrow> 'k machine"
  os_pagesize :: u64
  os_clock :: "nat \<Rightarrow> timespec"
  os_local :: "nat \<Rightarrow> u64"

text \<open>\<open>os_local i\<close> is the address of the \<open>i\<close>-th local variable whose address the test
  hands to the kernel.  A program returns a value, exits, or dies of an invalid access.\<close>

datatype 'a outcome = Val 'a | Exited int | Segv

type_synonym ('k, 'a) pgm = "'k machine \<Rightarrow> 'a outcome \<times> 'k machine"

definition give :: "'a \<Rightarrow> ('k, 'a) pgm" where
  "give x M = (Val x, M)"

definition die :: "int \<Rightarrow> ('k, 'a) pgm" where
  "die c M = (Exited c, M)"

definition pbind :: "('k, 'a) pgm \<Rightarrow> ('a \<Rightarrow> ('k, 'b) pgm) \<Rightarrow> ('k, 'b) pgm" where
  "pbind p f M =
     (case p M of (Val x, M') \<Rightarrow> f x M' | (Exited c, M') \<Rightarrow> (Exited c, M') | (Segv, M') \<Rightarrow> (Segv, M'))"

definition pseq :: "('k, 'a) pgm \<Rightarrow> ('k, 'b) pgm \<Rightarrow> ('k, 'b) pgm" where
  "pseq p q = pbind p (\<lambda>_. q)"

primrec pmap :: "('i \<Rightarrow> ('k, 'a) pgm) \<Rightarrow> 'i list \<Rightarrow> ('k, 'a list) pgm" where
  "pmap f [] = give []"
| "pmap f (i # is) = pbind (f i) (\<lambda>x. pbind (pmap f is) (\<lambda>xs. give (x # xs)))"

primrec pfor :: "('i \<Rightarrow> ('k, unit) pgm) \<Rightarrow> 'i list \<Rightarrow> ('k, unit) pgm" where
  "pfor f [] = give ()"
| "pfor f (i # is) = pseq (f i) (pfor f is)"

text \<open>A library call that only changes the machine.\<close>

definition effect :: "('k machine \<Rightarrow> 'k machine) \<Rightarrow> ('k, unit) pgm" where
  "effect g M = (Val (), g M)"

definition query :: "('k machine \<Rightarrow> 'a \<times> 'k machine) \<Rightarrow> ('k, 'a) pgm" where
  "query g M = (case g M of (x, M') \<Rightarrow> (Val x, M'))"

definition errno :: "('k, int) pgm" where
  "errno M = (Val (errnum M), M)"

section \<open>Memory\<close>

text \<open>Little-endian integers, as on the machines the kernel runs on.\<close>

definition le_bytes :: "nat \<Rightarrow> u64 \<Rightarrow> u8 list" where
  "le_bytes n w = map (\<lambda>k. ucast (drop_bit (8 * k) w)) [0..<n]"

definition le_value :: "u8 list \<Rightarrow> u64" where
  "le_value bs = foldr (\<lambda>b acc. ucast b OR push_bit 8 acc) bs 0"

definition read_bytes :: "memory \<Rightarrow> u64 \<Rightarrow> nat \<Rightarrow> u8 list option" where
  "read_bytes m a n = those (map (\<lambda>k. m (a + of_nat k)) [0..<n])"

definition mapped :: "memory \<Rightarrow> u64 \<Rightarrow> nat \<Rightarrow> bool" where
  "mapped m a n \<longleftrightarrow> (\<forall>k<n. m (a + of_nat k) \<noteq> None)"

definition write_bytes :: "memory \<Rightarrow> u64 \<Rightarrow> u8 list \<Rightarrow> memory" where
  "write_bytes m a bs = fold (\<lambda>k m. m(a + of_nat k \<mapsto> bs ! k)) [0..<length bs] m"

definition load_bytes :: "u64 \<Rightarrow> nat \<Rightarrow> ('k, u8 list) pgm" where
  "load_bytes a n M = (case read_bytes (mem M) a n of None \<Rightarrow> (Segv, M) | Some bs \<Rightarrow> (Val bs, M))"

definition store_bytes :: "u64 \<Rightarrow> u8 list \<Rightarrow> ('k, unit) pgm" where
  "store_bytes a bs M =
     (if mapped (mem M) a (length bs) then (Val (), M\<lparr>mem := write_bytes (mem M) a bs\<rparr>)
      else (Segv, M))"

definition load_u8 :: "u64 \<Rightarrow> ('k, u8) pgm" where
  "load_u8 a M = (case mem M a of None \<Rightarrow> (Segv, M) | Some b \<Rightarrow> (Val b, M))"

definition store_u8 :: "u64 \<Rightarrow> u8 \<Rightarrow> ('k, unit) pgm" where
  "store_u8 a b M =
     (if mem M a = None then (Segv, M) else (Val (), M\<lparr>mem := (mem M)(a \<mapsto> b)\<rparr>))"

definition load_u64 :: "u64 \<Rightarrow> ('k, u64) pgm" where
  "load_u64 a = pbind (load_bytes a 8) (\<lambda>bs. give (le_value bs))"

definition store_u64 :: "u64 \<Rightarrow> u64 \<Rightarrow> ('k, unit) pgm" where
  "store_u64 a w = store_bytes a (le_bytes 8 w)"

section \<open>The helpers every test has\<close>

abbreviation (input) SYS_enable_pte_meta :: nat where "SYS_enable_pte_meta \<equiv> 469"
abbreviation (input) SYS_disable_pte_meta :: nat where "SYS_disable_pte_meta \<equiv> 470"
abbreviation (input) SYS_set_pte_meta :: nat where "SYS_set_pte_meta \<equiv> 471"
abbreviation (input) SYS_get_pte_meta :: nat where "SYS_get_pte_meta \<equiv> 472"
abbreviation (input) EEXIST :: int where "EEXIST \<equiv> 17"
abbreviation (input) EINVAL :: int where "EINVAL \<equiv> 22"
abbreviation (input) ENODATA :: int where "ENODATA \<equiv> 61"

definition pattern_at :: "nat \<Rightarrow> u8" where
  "pattern_at i = ucast ((of_nat i :: u64) AND 0xFF)"

definition fill :: "u64 \<Rightarrow> u64 \<Rightarrow> ('k, unit) pgm" where
  "fill b n = pfor (\<lambda>i. store_u8 (b + of_nat i) (pattern_at i)) [0..<unat n]"

definition verify_pattern :: "u64 \<Rightarrow> u64 \<Rightarrow> ('k, unit) pgm" where
  "verify_pattern b n =
     pfor (\<lambda>i. pbind (load_u8 (b + of_nat i))
                (\<lambda>x. if x \<noteq> pattern_at i then die 1 else give ())) [0..<unat n]"

definition syscall :: "'k os \<Rightarrow> nat \<Rightarrow> u64 list \<Rightarrow> ('k, int) pgm" where
  "syscall os nr args = query (os_syscall os nr args)"

definition call_or_die_1 :: "'k os \<Rightarrow> nat \<Rightarrow> u64 \<Rightarrow> ('k, unit) pgm" where
  "call_or_die_1 os nr a1 =
     pbind (syscall os nr [a1]) (\<lambda>r. if r < 0 then die 1 else give ())"

definition call_or_die_3 :: "'k os \<Rightarrow> nat \<Rightarrow> u64 \<Rightarrow> u64 \<Rightarrow> u64 \<Rightarrow> ('k, unit) pgm" where
  "call_or_die_3 os nr a1 a2 a3 =
     pbind (syscall os nr [a1, a2, a3]) (\<lambda>r. if r < 0 then die 1 else give ())"

definition clock_gettime :: "'k os \<Rightarrow> ('k, timespec) pgm" where
  "clock_gettime os M = (Val (os_clock os (clock_reads M)), M\<lparr>clock_reads := clock_reads M + 1\<rparr>)"

definition get_time_diff :: "timespec \<Rightarrow> timespec \<Rightarrow> real" where
  "get_time_diff s e = of_int (tv_sec e - tv_sec s) * 10 ^ 9 + of_int (tv_nsec e - tv_nsec s)"

definition print_timing :: "string \<Rightarrow> real \<Rightarrow> ('k, unit) pgm" where
  "print_timing operation t M = (Val (), M\<lparr>timings := timings M @ [(operation, t)]\<rparr>)"

text \<open>Every measured call stands between two readings of the clock; most are printed at once.\<close>

definition clocked :: "'k os \<Rightarrow> ('k, 'a) pgm \<Rightarrow> ('k, 'a \<times> real) pgm" where
  "clocked os p =
     pbind (clock_gettime os) (\<lambda>s. pbind p (\<lambda>x. pbind (clock_gettime os)
       (\<lambda>e. give (x, get_time_diff s e))))"

definition timed :: "'k os \<Rightarrow> string \<Rightarrow> ('k, 'a) pgm \<Rightarrow> ('k, 'a) pgm" where
  "timed os operation p =
     pbind (clocked os p) (\<lambda>(x, t). pseq (print_timing operation t) (give x))"

text \<open>\<open>printf\<close>'s \<open>%d\<close> on the loop counters below ten.\<close>

definition digit :: "nat \<Rightarrow> string" where
  "digit i = [char_of (48 + i)]"

section \<open>Setting a page up\<close>

text \<open>Every \<open>main\<close> begins alike: allocate, lock, fill, verify.  \<open>chk\<close> says whether the test
  looks at the result of \<open>posix_memalign\<close>; test1, 2, 3, 4 and 6 do not.\<close>

definition alloc_page :: "'k os \<Rightarrow> bool \<Rightarrow> ('k, u64) pgm" where
  "alloc_page os chk =
     timed os ''Page allocation''
       (pbind (query (os_memalign os (os_pagesize os) (os_pagesize os)))
          (\<lambda>(r, buf). if chk \<and> r \<noteq> 0 then die 1 else give buf))"

definition setup_page :: "'k os \<Rightarrow> bool \<Rightarrow> ('k, u64) pgm" where
  "setup_page os chk =
     pbind (alloc_page os chk) (\<lambda>buf.
     pseq (effect (os_mlock os buf (os_pagesize os)))
    (pseq (timed os ''Pattern writing'' (fill buf (os_pagesize os)))
    (pseq (verify_pattern buf (os_pagesize os)) (give buf))))"

definition release_page :: "'k os \<Rightarrow> u64 \<Rightarrow> ('k, int) pgm" where
  "release_page os buf =
     pseq (effect (os_munlock os buf (os_pagesize os))) (pseq (effect (os_free os buf)) (give 0))"

definition disable_timed :: "'k os \<Rightarrow> u64 \<Rightarrow> ('k, unit) pgm" where
  "disable_timed os buf = timed os ''disable_pte_meta'' (call_or_die_1 os SYS_disable_pte_meta buf)"

text \<open>A read-back: the system call, its error check, and the comparison of two variables.\<close>

definition get_into :: "'k os \<Rightarrow> u64 \<Rightarrow> u64 \<Rightarrow> ('k, int) pgm" where
  "get_into os buf dst = syscall os SYS_get_pte_meta [buf, dst]"

definition die_if :: "bool \<Rightarrow> ('k, unit) pgm" where
  "die_if c = (if c then die 1 else give ())"

definition compare_u64 :: "u64 \<Rightarrow> u64 \<Rightarrow> ('k, unit) pgm" where
  "compare_u64 a b = pbind (load_u64 a) (\<lambda>x. pbind (load_u64 b) (\<lambda>y. die_if (x \<noteq> y)))"

section \<open>test1: the page alone\<close>

definition test1_main :: "'k os \<Rightarrow> ('k, int) pgm" where
  "test1_main os = pbind (setup_page os False) (\<lambda>buf. release_page os buf)"

section \<open>test2: direct metadata\<close>

abbreviation (input) META_VALUE_DIRECT :: u64 where "META_VALUE_DIRECT \<equiv> 0xCAFEBABEDEADBEEF"

definition test_mdp0 :: "'k os \<Rightarrow> u64 \<Rightarrow> u64 \<Rightarrow> ('k, unit) pgm" where
  "test_mdp0 os buf ps =
     (let meta_value = os_local os 0; retrieved_meta = os_local os 1 in
      pseq (store_u64 meta_value META_VALUE_DIRECT)
     (pseq (timed os ''enable_pte_meta'' (call_or_die_1 os SYS_enable_pte_meta buf))
     (pseq (timed os ''set_pte_meta MDP=0'' (call_or_die_3 os SYS_set_pte_meta buf 0 meta_value))
     (pseq (verify_pattern buf ps)
     (pbind (timed os ''get_pte_meta MDP=0'' (get_into os buf retrieved_meta)) (\<lambda>r.
      pseq (die_if (r < 0)) (compare_u64 retrieved_meta meta_value)))))))"

definition test2_main :: "'k os \<Rightarrow> ('k, int) pgm" where
  "test2_main os =
     pbind (setup_page os False) (\<lambda>buf.
     pseq (test_mdp0 os buf (os_pagesize os))
    (pseq (disable_timed os buf)
    (pseq (verify_pattern buf (os_pagesize os)) (release_page os buf))))"

section \<open>test3: structured metadata\<close>

text \<open>The packed header of test3: 16-bit version and type, 32-bit length.\<close>

record metadata_header =
  version :: u16
  mtype :: u16
  mlength :: u32

definition header_bytes :: "metadata_header \<Rightarrow> u8 list" where
  "header_bytes h =
     le_bytes 2 (ucast (version h)) @ le_bytes 2 (ucast (mtype h)) @ le_bytes 4 (ucast (mlength h))"

definition read_header :: "u8 list \<Rightarrow> metadata_header" where
  "read_header bs =
     \<lparr>version = ucast (le_value (take 2 bs)),
      mtype = ucast (le_value (take 2 (drop 2 bs))),
      mlength = ucast (le_value (take 4 (drop 4 bs)))\<rparr>"

definition test3_header :: metadata_header where
  "test3_header = \<lparr>version = 1, mtype = 0x1234, mlength = 16\<rparr>"

definition test3_payload :: "u8 list" where
  "test3_payload = [0xDE, 0xAD, 0xBE, 0xEF, 0xCA, 0xFE, 0xBA, 0xBE,
                    0x01, 0x23, 0x45, 0x67, 0x89, 0xAB, 0xCD, 0xEF]"

text \<open>\<open>print_payload\<close> reads as many bytes as the header it was given says.\<close>

definition print_payload :: "u64 \<Rightarrow> u32 \<Rightarrow> ('k, unit) pgm" where
  "print_payload a len = pseq (load_bytes a (unat len)) (give ())"

definition test_mdp1 :: "'k os \<Rightarrow> u64 \<Rightarrow> u64 \<Rightarrow> ('k, unit) pgm" where
  "test_mdp1 os buf ps =
      pseq (timed os ''enable_pte_meta'' (call_or_die_1 os SYS_enable_pte_meta buf))
     (pbind (query (os_malloc os 24)) (\<lambda>meta_buffer.
      pseq (die_if (meta_buffer = 0))
     (pseq (store_bytes meta_buffer (header_bytes test3_header))
     (pseq (store_bytes (meta_buffer + 8) test3_payload)
     (pseq (timed os ''set_pte_meta MDP=1'' (call_or_die_3 os SYS_set_pte_meta buf 1 meta_buffer))
     (pseq (verify_pattern buf ps)
     (pbind (query (os_malloc os 24)) (\<lambda>retrieved_buffer.
      pseq (die_if (retrieved_buffer = 0))
     (pbind (timed os ''get_pte_meta MDP=1'' (get_into os buf retrieved_buffer)) (\<lambda>r.
      pseq (die_if (r < 0))
     (pbind (load_bytes retrieved_buffer 8) (\<lambda>hb.
      let h = read_header hb in
      pseq (print_payload (retrieved_buffer + 8) (mlength h))
     (pseq (die_if (h \<noteq> test3_header))
     (pbind (load_bytes (retrieved_buffer + 8) 16) (\<lambda>pl.
      pseq (die_if (pl \<noteq> test3_payload))
     (pseq (effect (os_free os meta_buffer)) (effect (os_free os retrieved_buffer))))))))))))))))))"

definition test3_main :: "'k os \<Rightarrow> ('k, int) pgm" where
  "test3_main os =
     pbind (setup_page os False) (\<lambda>buf.
     pseq (test_mdp1 os buf (os_pagesize os))
    (pseq (disable_timed os buf)
    (pseq (verify_pattern buf (os_pagesize os)) (release_page os buf))))"

section \<open>test4: get from a table that is not expanded\<close>

text \<open>The code asks \<open>r == 0\<close> and then \<open>r < 0\<close>: a positive result is taken for the expected
  failure.\<close>

definition test_get_without_expansion :: "'k os \<Rightarrow> u64 \<Rightarrow> u64 \<Rightarrow> ('k, unit) pgm" where
  "test_get_without_expansion os buf ps =
     (let buffer = os_local os 0 in
      pseq (store_u64 buffer 0)
     (pbind (timed os ''get_pte_meta'' (get_into os buf buffer)) (\<lambda>r.
      pseq (die_if (r = 0))
     (pseq (if r < 0 then pbind errno (\<lambda>e. die_if (e \<noteq> ENODATA)) else give ())
           (verify_pattern buf ps)))))"

definition test4_main :: "'k os \<Rightarrow> ('k, int) pgm" where
  "test4_main os =
     pbind (setup_page os False) (\<lambda>buf.
     pseq (test_get_without_expansion os buf (os_pagesize os)) (release_page os buf))"

section \<open>test5: several pages of one table\<close>

abbreviation (input) NUM_PAGES :: nat where "NUM_PAGES \<equiv> 4"

definition page_value :: "nat \<Rightarrow> u64" where
  "page_value i = 0xDEADBEEF00000000 OR of_nat i"

definition set_page :: "'k os \<Rightarrow> (nat \<Rightarrow> u64) \<Rightarrow> u64 \<Rightarrow> nat \<Rightarrow> ('k, unit) pgm" where
  "set_page os pages ps i =
     (let meta_value = os_local os 0 in
      pseq (store_u64 meta_value (page_value i))
     (pseq (timed os (''set_pte_meta pg'' @ digit i)
              (call_or_die_3 os SYS_set_pte_meta (pages i) 0 meta_value))
           (verify_pattern (pages i) ps)))"

definition check_page :: "'k os \<Rightarrow> (nat \<Rightarrow> u64) \<Rightarrow> u64 \<Rightarrow> nat \<Rightarrow> ('k, unit) pgm" where
  "check_page os pages ps i =
     (let retrieved_meta = os_local os 1 in
      pbind (timed os (''get_pte_meta pg'' @ digit i) (get_into os (pages i) retrieved_meta)) (\<lambda>r.
      pseq (die_if (r < 0))
     (pbind (load_u64 retrieved_meta) (\<lambda>x.
      pseq (die_if (x \<noteq> page_value i)) (verify_pattern (pages i) ps)))))"

definition test_multiple_pages :: "'k os \<Rightarrow> (nat \<Rightarrow> u64) \<Rightarrow> u64 \<Rightarrow> ('k, unit) pgm" where
  "test_multiple_pages os pages ps =
      pseq (timed os ''enable_pte_meta'' (call_or_die_1 os SYS_enable_pte_meta (pages 0)))
     (pseq (pfor (set_page os pages ps) [0..<NUM_PAGES])
           (pfor (check_page os pages ps) [0..<NUM_PAGES]))"

definition verify_pages :: "(nat \<Rightarrow> u64) \<Rightarrow> u64 \<Rightarrow> ('k, unit) pgm" where
  "verify_pages pages ps = pfor (\<lambda>i. verify_pattern (pages i) ps) [0..<NUM_PAGES]"

definition test5_pages :: "'k os \<Rightarrow> u64 \<Rightarrow> nat \<Rightarrow> u64" where
  "test5_pages os base_addr i = base_addr + of_nat i * os_pagesize os"

definition alloc_pages :: "'k os \<Rightarrow> ('k, u64) pgm" where
  "alloc_pages os =
     timed os ''Multi-page allocation''
       (pbind (query (os_memalign os (os_pagesize os) (os_pagesize os * of_nat NUM_PAGES)))
          (\<lambda>(r, base_addr). if r \<noteq> 0 then die 1 else give base_addr))"

definition test5_run :: "'k os \<Rightarrow> u64 \<Rightarrow> ('k, int) pgm" where
  "test5_run os base_addr =
     (let ps = os_pagesize os; total_size = os_pagesize os * of_nat NUM_PAGES; pages = test5_pages os base_addr in
      pseq (effect (os_mlock os base_addr total_size))
     (pseq (timed os ''Pattern writing all'' (pfor (\<lambda>i. fill (pages i) ps) [0..<NUM_PAGES]))
     (pseq (verify_pages pages ps)
     (pseq (test_multiple_pages os pages ps)
     (pseq (disable_timed os (pages 0))
     (pseq (verify_pages pages ps)
     (pseq (effect (os_munlock os base_addr total_size))
     (pseq (effect (os_free os base_addr)) (give 0)))))))))"

definition test5_main :: "'k os \<Rightarrow> ('k, int) pgm" where
  "test5_main os = pbind (alloc_pages os) (test5_run os)"

section \<open>test6: enable and disable cycles\<close>

definition test_enable_disable_cycle :: "'k os \<Rightarrow> u64 \<Rightarrow> u64 \<Rightarrow> ('k, unit) pgm" where
  "test_enable_disable_cycle os buf ps =
     pfor (\<lambda>cycle.
       pseq (timed os (''enable cycle '' @ digit cycle) (call_or_die_1 os SYS_enable_pte_meta buf))
      (pseq (verify_pattern buf ps)
      (pseq (timed os (''disable cycle '' @ digit cycle) (call_or_die_1 os SYS_disable_pte_meta buf))
            (verify_pattern buf ps)))) [1, 2, 3]"

definition test_double_enable_error :: "'k os \<Rightarrow> u64 \<Rightarrow> u64 \<Rightarrow> ('k, unit) pgm" where
  "test_double_enable_error os buf ps =
      pseq (timed os ''first enable'' (call_or_die_1 os SYS_enable_pte_meta buf))
     (pbind (timed os ''second enable'' (syscall os SYS_enable_pte_meta [buf])) (\<lambda>r.
      pseq (die_if (r = 0))
     (pbind errno (\<lambda>e.
      pseq (if e = EEXIST then give () else die 1)
     (pseq (verify_pattern buf ps) (call_or_die_1 os SYS_disable_pte_meta buf))))))"

definition test6_main :: "'k os \<Rightarrow> ('k, int) pgm" where
  "test6_main os =
     pbind (setup_page os False) (\<lambda>buf.
     pseq (test_enable_disable_cycle os buf (os_pagesize os))
    (pseq (test_double_enable_error os buf (os_pagesize os))
    (pseq (verify_pattern buf (os_pagesize os)) (release_page os buf))))"

section \<open>test7: disable without enable\<close>

definition test_disable_without_enable :: "'k os \<Rightarrow> u64 \<Rightarrow> u64 \<Rightarrow> ('k, unit) pgm" where
  "test_disable_without_enable os buf ps =
     pbind (timed os ''disable_pte_meta'' (syscall os SYS_disable_pte_meta [buf])) (\<lambda>r.
     pseq (die_if (r = 0))
    (pseq (if r < 0 then pbind errno (\<lambda>e. die_if (e \<noteq> EINVAL)) else give ())
          (verify_pattern buf ps)))"

definition test7_main :: "'k os \<Rightarrow> ('k, int) pgm" where
  "test7_main os =
     pbind (setup_page os True) (\<lambda>buf.
     pseq (test_disable_without_enable os buf (os_pagesize os))
    (pseq (verify_pattern buf (os_pagesize os)) (release_page os buf)))"

section \<open>test8: set and get, twice\<close>

text \<open>The table is not enabled first: the first set is meant to expand it.  The comparison of
  the measured times at the end only prints.\<close>

definition test_timing_comparison :: "'k os \<Rightarrow> u64 \<Rightarrow> u64 \<Rightarrow> ('k, unit) pgm" where
  "test_timing_comparison os buf ps =
     (let first_meta = os_local os 0; second_meta = os_local os 1; retrieved_meta = os_local os 2 in
      pseq (store_u64 first_meta 0xCAFEBABE12345678)
     (pseq (store_u64 second_meta 0xDEADBEEF87654321)
     (pseq (timed os ''First set (expand)'' (call_or_die_3 os SYS_set_pte_meta buf 0 first_meta))
     (pseq (verify_pattern buf ps)
     (pbind (timed os ''First get'' (get_into os buf retrieved_meta)) (\<lambda>r.
      pseq (die_if (r < 0))
     (pseq (compare_u64 retrieved_meta first_meta)
     (pseq (timed os ''Second set (update)'' (call_or_die_3 os SYS_set_pte_meta buf 0 second_meta))
     (pseq (verify_pattern buf ps)
     (pbind (timed os ''Second get'' (get_into os buf retrieved_meta)) (\<lambda>r2.
      pseq (die_if (r2 < 0))
           (compare_u64 retrieved_meta second_meta))))))))))))"

definition test8_main :: "'k os \<Rightarrow> ('k, int) pgm" where
  "test8_main os =
     pbind (setup_page os True) (\<lambda>buf.
     pseq (test_timing_comparison os buf (os_pagesize os))
    (pseq (disable_timed os buf)
    (pseq (verify_pattern buf (os_pagesize os)) (release_page os buf))))"

section \<open>test9: iterations and statistics\<close>

abbreviation (input) ITERATIONS :: nat where "ITERATIONS \<equiv> 10000"
abbreviation (input) META_VALUE_BASE :: u64 where "META_VALUE_BASE \<equiv> 0xCAFEBABEDEADBEEF"

text \<open>The loop of \<open>calculate_stats\<close> over the sum, the sum of squares, the minimum and the
  maximum.\<close>

type_synonym stats4 = "real \<times> real \<times> real \<times> real"

definition stats_step :: "stats4 \<Rightarrow> real \<Rightarrow> stats4" where
  "stats_step = (\<lambda>(tsum, tsum_sq, lo, hi) t.
     (tsum + t, tsum_sq + t * t, if t < lo then t else lo, if t > hi then t else hi))"

definition calculate_stats :: "real list \<Rightarrow> stats4" where
  "calculate_stats ts =
     (case foldl stats_step (0, 0, ts ! 0, ts ! 0) ts of (tsum, tsum_sq, lo, hi) \<Rightarrow>
        let n = real (length ts); mean = tsum / n
        in (lo, hi, mean, sqrt (tsum_sq / n - mean * mean)))"

definition iteration :: "'k os \<Rightarrow> u64 \<Rightarrow> nat \<Rightarrow> ('k, real \<times> real) pgm" where
  "iteration os buf i =
     (let meta_value = os_local os 0; retrieved_meta = os_local os 1 in
      pseq (store_u64 meta_value (META_VALUE_BASE + of_nat i))
     (pbind (clocked os (call_or_die_3 os SYS_set_pte_meta buf 0 meta_value)) (\<lambda>(u, set_time).
      pbind (clocked os (get_into os buf retrieved_meta)) (\<lambda>(r, get_time).
      pseq (die_if (r < 0))
     (pseq (compare_u64 retrieved_meta meta_value) (give (set_time, get_time)))))))"

definition print_stats4 :: "string \<Rightarrow> stats4 \<Rightarrow> ('k, unit) pgm" where
  "print_stats4 what = (\<lambda>(lo, hi, mean, dev).
     pseq (print_timing (what @ ''Min'') lo) (pseq (print_timing (what @ ''Max'') hi)
    (pseq (print_timing (what @ ''Mean'') mean) (print_timing (what @ ''StdDev'') dev))))"

text \<open>The throughput lines divide by the total time; a total of zero is a division of doubles by
  zero, whose result (an infinity) is only printed.\<close>

definition print_summary :: "real list \<Rightarrow> real list \<Rightarrow> ('k, unit) pgm" where
  "print_summary sets gets =
     (let total_set_time = foldl (+) 0 sets; total_get_time = foldl (+) 0 gets in
      pseq (print_timing ''Total set time'' (total_set_time / 10 ^ 6))
     (pseq (print_timing ''Total get time'' (total_get_time / 10 ^ 6))
     (pseq (print_timing ''Set throughput'' (real ITERATIONS / (total_set_time / 10 ^ 9)))
           (print_timing ''Get throughput'' (real ITERATIONS / (total_get_time / 10 ^ 9))))))"

definition test9_main :: "'k os \<Rightarrow> ('k, int) pgm" where
  "test9_main os =
     pbind (setup_page os True) (\<lambda>buf.
     pseq (timed os ''enable_pte_meta'' (call_or_die_1 os SYS_enable_pte_meta buf))
    (pbind (pmap (iteration os buf) [0..<ITERATIONS]) (\<lambda>ts.
     let set_times = map fst ts; get_times = map snd ts in
     pseq (print_stats4 ''Set PTE Meta '' (calculate_stats set_times))
    (pseq (print_stats4 ''Get PTE Meta '' (calculate_stats get_times))
    (pseq (print_summary set_times get_times)
    (pseq (disable_timed os buf)
    (pseq (verify_pattern buf (os_pagesize os)) (release_page os buf))))))))"

end
