(* ===== verification/PteBlocks.thy ===== *)
theory PteBlocks
  imports PteTests
begin

text \<open>
  The proof machinery for the PTE tests.  \<open>documented\<close> states, as a hypothesis on the kernel,
  the interface the README documents, and \<open>memalign_ok\<close>, \<open>malloc_ok\<close>, \<open>free_ok\<close> and \<open>libc_ok\<close>
  what is relied on of the C library; \<open>run_to\<close> is total correctness of a program over
  separated blocks of memory, with a rule for every operation the tests use.
\<close>

section \<open>Bytes and memory\<close>

lemma le_bytes_Suc: "le_bytes (Suc n) w = ucast w # le_bytes n (drop_bit 8 w)"
  by (simp add: le_bytes_def upt_conv_Cons map_Suc_upt [symmetric] add.commute del: upt_Suc)

lemma le_value_Cons: "le_value (b # bs) = ucast b OR push_bit 8 (le_value bs)"
  by (simp add: le_value_def)

lemma low_byte: "ucast (ucast w :: u8) OR push_bit 8 (take_bit n (drop_bit 8 w)) = take_bit (n + 8) (w :: u64)"
  by (rule bit_eqI) (auto simp: bit_simps)

lemma le_value_bytes: "le_value (le_bytes n w) = take_bit (8 * n) w"
proof (induction n arbitrary: w)
  case 0 then show ?case by (simp add: le_bytes_def le_value_def)
next
  case (Suc n) then show ?case by (simp add: le_bytes_Suc le_value_Cons low_byte add.commute)
qed

lemma le_value_bytes_8 [simp]: "le_value (le_bytes 8 w) = w"
  by (rule bit_word_eqI) (simp add: le_value_bytes bit_simps)

lemma length_le_bytes [simp]: "length (le_bytes n w) = n"
  by (simp add: le_bytes_def)

definition area :: "u64 \<Rightarrow> nat \<Rightarrow> u64 set" where
  "area a n = (\<lambda>k. a + of_nat k) ` {..<n}"

lemma those_Some: "those xs = Some ys \<longleftrightarrow> xs = map Some ys"
  by (induction xs arbitrary: ys) (auto split: option.splits simp: Cons_eq_map_conv)

lemma read_bytes_Some:
  "read_bytes m a n = Some bs \<longleftrightarrow> length bs = n \<and> (\<forall>k<n. m (a + of_nat k) = Some (bs ! k))"
proof -
  have "map (\<lambda>k. m (a + of_nat k)) [0..<n] = map Some bs \<longleftrightarrow>
    length bs = n \<and> (\<forall>k<n. m (a + of_nat k) = Some (bs ! k))"
    by (auto simp: list_eq_iff_nth_eq)
  then show ?thesis by (simp add: read_bytes_def those_Some)
qed

lemma small_inj:
  assumes "j \<le> 2 ^ 32" "k \<le> 2 ^ 32"
  shows "(of_nat j :: u64) = of_nat k \<longleftrightarrow> j = k"
proof
  assume "(of_nat j :: u64) = of_nat k"
  then have "unat (of_nat j :: u64) = unat (of_nat k :: u64)" by (rule arg_cong)
  moreover have "unat (of_nat j :: u64) = j" by (rule unat_of_nat_small) (use assms in simp)
  moreover have "unat (of_nat k :: u64) = k" by (rule unat_of_nat_small) (use assms in simp)
  ultimately show "j = k" by simp
qed simp

lemma mapped_write: "mapped (write_bytes m a bs) b n \<longleftrightarrow> True" if "mapped m b n"
proof -
  have "fold (\<lambda>k m. m(a + of_nat k \<mapsto> bs ! k)) xs m' x \<noteq> None" if "m' x \<noteq> None" for xs m' x
    using that by (induction xs arbitrary: m') auto
  then show ?thesis using that by (simp add: mapped_def write_bytes_def)
qed

lemma dom_write: "mapped m a (length bs) \<Longrightarrow> dom (write_bytes m a bs) = dom m"
proof -
  have "dom (fold (\<lambda>k m. m(a + of_nat k \<mapsto> f k)) xs m) = dom m"
    if "\<forall>k \<in> set xs. m (a + of_nat k) \<noteq> None" for xs f and m :: memory
    using that by (induction xs arbitrary: m) auto
  then show "mapped m a (length bs) \<Longrightarrow> ?thesis" by (simp add: mapped_def write_bytes_def)
qed

lemma write_fold_other:
  "(\<And>k. k \<in> set xs \<Longrightarrow> a + of_nat k \<noteq> x) \<Longrightarrow> fold (\<lambda>k m. m(a + of_nat k \<mapsto> f k)) xs m x = (m :: memory) x"
  by (induction xs arbitrary: m) auto

lemma write_bytes_other: "x \<notin> area a (length bs) \<Longrightarrow> write_bytes m a bs x = m x"
  unfolding write_bytes_def by (rule write_fold_other) (auto simp: area_def)

lemma write_fold_at:
  "k < n \<Longrightarrow> n \<le> 2 ^ 32 \<Longrightarrow> fold (\<lambda>k m. m(a + of_nat k \<mapsto> f k)) [0..<n] m (a + of_nat k) = Some (f k)"
  for m :: memory
proof (induction n arbitrary: k)
  case (Suc n)
  then show ?case using small_inj [of k n] by (cases "k = n") auto
qed simp

lemma write_bytes_at:
  "k < length bs \<Longrightarrow> length bs \<le> 2 ^ 32 \<Longrightarrow> write_bytes m a bs (a + of_nat k) = Some (bs ! k)"
  unfolding write_bytes_def by (rule write_fold_at)

lemma read_write_same: "length bs \<le> 2 ^ 32 \<Longrightarrow> read_bytes (write_bytes m a bs) a (length bs) = Some bs"
  by (simp add: read_bytes_Some write_bytes_at)

lemma read_write_other:
  "area a (length bs) \<inter> area b n = {} \<Longrightarrow> read_bytes (write_bytes m a bs) b n = read_bytes m b n"
proof -
  assume "area a (length bs) \<inter> area b n = {}"
  then have "b + of_nat k \<notin> area a (length bs)" if "k < n" for k
    using that by (auto simp: area_def)
  then show ?thesis by (auto simp: read_bytes_def write_bytes_other intro!: arg_cong [where f = those])
qed

lemma read_prefix: "read_bytes m a n = Some bs \<Longrightarrow> j \<le> n \<Longrightarrow> read_bytes m a j = Some (take j bs)"
  by (simp add: read_bytes_Some)

lemma read_mapped: "read_bytes m a n = Some bs \<Longrightarrow> mapped m a n"
  by (simp add: read_bytes_Some mapped_def)

section \<open>The documented interface\<close>

text \<open>What the README says of the four calls.  A table of page table entries covers 512 pages
  of 4096 bytes; enabling expands the table of the address, disabling collapses it and drops
  its metadata.  The comments of test8 have the first set expand the table, the other documents
  do not say: \<open>demand\<close> is the choice.\<close>

record kview =
  pen :: "u64 \<Rightarrow> bool"
  stored :: "u64 \<Rightarrow> u8 list option"

definition table_of :: "u64 \<Rightarrow> u64" where "table_of a = drop_bit 21 a"
definition page_of :: "u64 \<Rightarrow> u64" where "page_of a = drop_bit 12 a"

definition fresh_table :: "bool \<Rightarrow> u64 \<Rightarrow> kview \<Rightarrow> kview" where
  "fresh_table on t v =
     v\<lparr>pen := (pen v)(t := on), stored := (\<lambda>p. if drop_bit 9 p = t then None else stored v p)\<rparr>"

definition spec_enable :: "u64 \<Rightarrow> kview \<Rightarrow> int \<times> kview" where
  "spec_enable a v = (if pen v (table_of a) then (- EEXIST, v) else (0, fresh_table True (table_of a) v))"

definition spec_disable :: "u64 \<Rightarrow> kview \<Rightarrow> int \<times> kview" where
  "spec_disable a v = (if pen v (table_of a) then (0, fresh_table False (table_of a) v) else (- EINVAL, v))"

text \<open>A structured entry is a header and a payload as long as the header says.  The documents
  disagree on the header: test3 writes a packed one of 8 bytes, the README and sysbench have
  four 32-bit fields.  A layout is the length of the header and the length of the payload
  read from it.\<close>

type_synonym header_layout = "nat \<times> (u8 list \<Rightarrow> nat)"

definition packed_header :: header_layout where
  "packed_header = (8, \<lambda>h. unat (mlength (read_header h)))"

definition readme_header :: header_layout where
  "readme_header = (16, \<lambda>h. unat (le_value (take 4 (drop 8 h))))"

definition user_metadata :: "header_layout \<Rightarrow> memory \<Rightarrow> u64 \<Rightarrow> u64 \<Rightarrow> u8 list option" where
  "user_metadata L m mdp a =
     (if mdp = 0 then read_bytes m a 8
      else case read_bytes m a (fst L) of None \<Rightarrow> None
           | Some h \<Rightarrow> read_bytes m a (fst L + snd L h))"

definition spec_set :: "header_layout \<Rightarrow> bool \<Rightarrow> u64 \<Rightarrow> u64 \<Rightarrow> u64 \<Rightarrow> memory \<Rightarrow> kview \<Rightarrow> int \<times> kview" where
  "spec_set L demand a mdp src m v =
     (if \<not> pen v (table_of a) \<and> \<not> demand then (- ENODATA, v)
      else case user_metadata L m mdp src of None \<Rightarrow> (- 14, v)
        | Some bs \<Rightarrow>
          let w = if pen v (table_of a) then v else fresh_table True (table_of a) v
          in (0, w\<lparr>stored := (stored w)(page_of a \<mapsto> bs)\<rparr>))"

definition spec_get :: "u64 \<Rightarrow> u64 \<Rightarrow> memory \<Rightarrow> kview \<Rightarrow> int \<times> memory" where
  "spec_get a dst m v =
     (if \<not> pen v (table_of a) then (- ENODATA, m)
      else case stored v (page_of a) of None \<Rightarrow> (- ENODATA, m)
        | Some bs \<Rightarrow> if mapped m dst (length bs) then (0, write_bytes m dst bs) else (- 14, m))"

definition spec_call :: "header_layout \<Rightarrow> bool \<Rightarrow> nat \<Rightarrow> u64 list \<Rightarrow> memory \<Rightarrow> kview \<Rightarrow> int \<times> memory \<times> kview" where
  "spec_call L demand nr args m v =
     (if nr = 469 then (case spec_enable (args ! 0) v of (r, w) \<Rightarrow> (r, m, w))
      else if nr = 470 then (case spec_disable (args ! 0) v of (r, w) \<Rightarrow> (r, m, w))
      else if nr = 471 then
        (case spec_set L demand (args ! 0) (args ! 1) (args ! 2) m v of (r, w) \<Rightarrow> (r, m, w))
      else if nr = 472 then (case spec_get (args ! 0) (args ! 1) m v of (r, m') \<Rightarrow> (r, m', v))
      else (- 38, m, v))"

text \<open>A kernel with the view \<open>V\<close> of its state behaves as documented: \<open>syscall\<close> returns the
  result, or \<open>-1\<close> with the error number in \<open>errno\<close>.\<close>

definition documented :: "('k \<Rightarrow> kview) \<Rightarrow> header_layout \<Rightarrow> bool \<Rightarrow> 'k os \<Rightarrow> bool" where
  "documented V L demand os \<longleftrightarrow>
     (\<forall>nr args M. case spec_call L demand nr args (mem M) (V (kern M)) of (r, m', v') \<Rightarrow>
        (\<exists>k. V k = v' \<and> os_syscall os nr args M =
           (if r < 0 then (- 1, M\<lparr>kern := k, errnum := - r\<rparr>) else (r, M\<lparr>mem := m', kern := k\<rparr>))))"

lemma documentedD:
  assumes "documented V L demand os" "spec_call L demand nr args (mem M) (V (kern M)) = (r, m', v')"
  obtains k where "V k = v'" "os_syscall os nr args M =
      (if r < 0 then (- 1, M\<lparr>kern := k, errnum := - r\<rparr>) else (r, M\<lparr>mem := m', kern := k\<rparr>))"
proof -
  have "case spec_call L demand nr args (mem M) (V (kern M)) of (r, m', v') \<Rightarrow>
        (\<exists>k. V k = v' \<and> os_syscall os nr args M =
           (if r < 0 then (- 1, M\<lparr>kern := k, errnum := - r\<rparr>) else (r, M\<lparr>mem := m', kern := k\<rparr>)))"
    by (rule assms(1) [unfolded documented_def, THEN spec, THEN spec, THEN spec])
  then show thesis using that unfolding assms(2) prod.case by blast
qed

section \<open>Blocks of memory\<close>

text \<open>The machine seen as separate blocks with known contents, the kernel's view, the error
  number where it is known, the allocator's table and a bound on the
  number of mapped bytes.\<close>

type_synonym blocks = "u64 \<Rightarrow> u8 list option"
type_synonym pstate = "blocks \<times> kview \<times> int option \<times> (u64 \<Rightarrow> nat option) \<times> nat"

definition holds :: "memory \<Rightarrow> blocks \<Rightarrow> bool" where
  "holds m B \<longleftrightarrow>
     (\<forall>a bs. B a = Some bs \<longrightarrow> bs \<noteq> [] \<and> length bs \<le> 2 ^ 32 \<and> read_bytes m a (length bs) = Some bs) \<and>
     (\<forall>a bs b cs. B a = Some bs \<longrightarrow> B b = Some cs \<longrightarrow> a \<noteq> b \<longrightarrow>
        area a (length bs) \<inter> area b (length cs) = {})"

definition rel :: "('k \<Rightarrow> kview) \<Rightarrow> pstate \<Rightarrow> 'k machine \<Rightarrow> bool" where
  "rel V = (\<lambda>(B, v, e, C) M. holds (mem M) B \<and> V (kern M) = v \<and>
     (\<forall>n. e = Some n \<longrightarrow> errnum M = n) \<and> chunks M = fst C \<and> card (dom (mem M)) \<le> snd C)"

lemma holds_read: "holds m B \<Longrightarrow> B a = Some bs \<Longrightarrow> read_bytes m a (length bs) = Some bs"
  by (simp add: holds_def)

lemma holds_write:
  assumes "holds m B" "B a = Some bs" "length cs = length bs"
  shows "holds (write_bytes m a cs) (B(a \<mapsto> cs))"
proof -
  have other: "read_bytes (write_bytes m a cs) b (length ds) = Some ds" if "B b = Some ds" "b \<noteq> a" for b ds
  proof -
    have "area a (length cs) \<inter> area b (length ds) = {}"
      using assms that unfolding holds_def by metis
    then show ?thesis using assms(1) that by (simp add: read_write_other holds_def)
  qed
  have len: "cs \<noteq> []" "length cs \<le> 2 ^ 32" using assms by (auto simp: holds_def)
  have sep: "area b (length ds) \<inter> area c (length es) = {}"
    if "(B(a \<mapsto> cs)) b = Some ds" "(B(a \<mapsto> cs)) c = Some es" "b \<noteq> c" for b c ds es
  proof -
    have old: "\<exists>fs'. B f = Some fs' \<and> length fs' = length fs" if "(B(a \<mapsto> cs)) f = Some fs" for f fs
      using that assms(2,3) by (cases "f = a") auto
    show ?thesis using old [OF that(1)] old [OF that(2)] assms(1) that(3) unfolding holds_def by metis
  qed
  show ?thesis
    unfolding holds_def using other len sep assms(1)
    by (auto simp: read_write_same holds_def split: if_splits)
qed

text \<open>A block of fresh memory, as \<open>malloc\<close> and \<open>posix_memalign\<close> give: unmapped before, mapped
  afterwards, the rest untouched.\<close>

definition fresh_block :: "memory \<Rightarrow> memory \<Rightarrow> u64 \<Rightarrow> nat \<Rightarrow> bool" where
  "fresh_block m m' a n \<longleftrightarrow>
     area a n \<inter> dom m = {} \<and> dom m' = dom m \<union> area a n \<and> (\<forall>x \<in> dom m. m' x = m x)"

lemma read_agree:
  assumes "read_bytes m b n = Some cs" "\<forall>x \<in> dom m. m' x = m x"
  shows "read_bytes m' b n = Some cs"
proof -
  have "m' (b + of_nat k) = Some (cs ! k)" if "k < n" for k
    using assms that by (auto simp: read_bytes_Some dom_def)
  then show ?thesis using assms(1) by (simp add: read_bytes_Some)
qed

lemma mapped_read: "mapped m a n \<Longrightarrow> \<exists>bs. length bs = n \<and> read_bytes m a n = Some bs"
  by (rule exI [of _ "map (\<lambda>k. the (m (a + of_nat k))) [0..<n]"]) (simp add: read_bytes_Some mapped_def)

lemma read_area: "read_bytes m b n = Some cs \<Longrightarrow> area b n \<subseteq> dom m"
  by (auto simp: read_bytes_Some area_def)

lemma holds_alloc:
  assumes "holds m B" "fresh_block m m' a n" "n \<le> 2 ^ 32" "0 < n"
  obtains bs where "length bs = n" "B a = None" "holds m' (B(a \<mapsto> bs))"
proof -
  have "mapped m' a n" using assms(2) by (auto simp: fresh_block_def mapped_def area_def dom_def)
  then obtain bs where bs: "length bs = n" "read_bytes m' a n = Some bs"
    using mapped_read by blast
  have apart: "area a n \<inter> area b (length cs) = {}" if "B b = Some cs" for b cs
    using assms(1,2) that read_area [OF holds_read [OF assms(1) that]] unfolding fresh_block_def by blast
  have "a + of_nat 0 \<in> area a n" using assms(4) unfolding area_def by blast
  then have "a \<in> area a n" by simp
  moreover have "b + of_nat 0 \<in> area b (length cs)" if "B b = Some cs" for b cs
    using assms(1) that unfolding holds_def area_def by blast
  ultimately have new: "B a = None" using apart by (cases "B a") force+
  have "holds m' (B(a \<mapsto> bs))"
    unfolding holds_def
  proof (intro conjI allI impI)
    fix b ds assume ds: "(B(a \<mapsto> bs)) b = Some ds"
    then show "ds \<noteq> []" "length ds \<le> 2 ^ 32" "read_bytes m' b (length ds) = Some ds"
      using bs assms read_agree [OF holds_read [OF assms(1)]]
      by (auto simp: holds_def fresh_block_def split: if_splits)
  next
    fix b ds c es assume "(B(a \<mapsto> bs)) b = Some ds" "(B(a \<mapsto> bs)) c = Some es" "b \<noteq> c"
    then show "area b (length ds) \<inter> area c (length es) = {}"
      using assms(1) bs(1) apart [of b ds] apart [of c es] unfolding holds_def
      by (cases "b = a"; cases "c = a") (auto simp del: Int_emptyI)
  qed
  then show thesis using that bs(1) new by blast
qed

section \<open>Running a program on blocks\<close>

text \<open>Total correctness: from every machine the blocks describe, the program ends, with an
  outcome and a machine that the postcondition's blocks describe.\<close>

definition run_to :: "('k \<Rightarrow> kview) \<Rightarrow> ('k, 'a) pgm \<Rightarrow> pstate \<Rightarrow> ('a outcome \<Rightarrow> pstate \<Rightarrow> bool) \<Rightarrow> bool" where
  "run_to V p s Q \<longleftrightarrow> (\<forall>M. rel V s M \<longrightarrow> (\<exists>r s' M'. p M = (r, M') \<and> rel V s' M' \<and> Q r s'))"

lemma run_one:
  "(\<And>M. rel V s M \<Longrightarrow> p M = (r M, N M) \<and> rel V s' (N M) \<and> Q (r M) s') \<Longrightarrow> run_to V p s Q"
  unfolding run_to_def by blast

lemma rel_more [simp]:
  "rel V s (M\<lparr>clock_reads := n\<rparr>) = rel V s M" "rel V s (M\<lparr>timings := ts\<rparr>) = rel V s M"
  by (simp_all add: rel_def split: prod.splits)

definition then_run :: "('k \<Rightarrow> kview) \<Rightarrow> ('a \<Rightarrow> ('k, 'b) pgm) \<Rightarrow> ('b outcome \<Rightarrow> pstate \<Rightarrow> bool) \<Rightarrow>
    'a outcome \<Rightarrow> pstate \<Rightarrow> bool" where
  "then_run V f Q r s =
     (case r of Val x \<Rightarrow> run_to V (f x) s Q | Exited c \<Rightarrow> Q (Exited c) s | Segv \<Rightarrow> Q Segv s)"

lemma then_run_simps [simp]:
  "then_run V f Q (Val x) s = run_to V (f x) s Q"
  "then_run V f Q (Exited c) s = Q (Exited c) s"
  "then_run V f Q Segv s = Q Segv s"
  by (simp_all add: then_run_def)

named_theorems run_rules \<open>weakest preconditions of the operations of a test\<close>

lemma run_bind [run_rules]:
  assumes "run_to V p s (then_run V f Q)"
  shows "run_to V (pbind p f) s Q"
  unfolding run_to_def
proof (intro allI impI)
  fix M assume "rel V s M"
  then obtain r s' M' where "p M = (r, M')" "rel V s' M'" "then_run V f Q r s'"
    using assms unfolding run_to_def by blast
  then show "\<exists>r s'' M''. pbind p f M = (r, M'') \<and> rel V s'' M'' \<and> Q r s''"
    by (cases r) (auto simp del: split_paired_Ex simp: pbind_def run_to_def)
qed

lemma run_seq [run_rules]: "run_to V p s (then_run V (\<lambda>_. q) Q) \<Longrightarrow> run_to V (pseq p q) s Q"
  unfolding pseq_def by (rule run_bind)

lemma run_give [run_rules]: "Q (Val x) s \<Longrightarrow> run_to V (give x) s Q"
  by (rule run_one) (simp add: give_def)

lemma run_die [run_rules]: "Q (Exited c) s \<Longrightarrow> run_to V (die c) s Q"
  by (rule run_one) (simp add: die_def)

lemma run_die_if [run_rules]:
  "(c \<Longrightarrow> Q (Exited 1) s) \<Longrightarrow> (\<not> c \<Longrightarrow> Q (Val ()) s) \<Longrightarrow> run_to V (die_if c) s Q"
  by (simp add: die_if_def run_give run_die)

lemma run_mono: "run_to V p s Q \<Longrightarrow> (\<And>r s'. Q r s' \<Longrightarrow> R r s') \<Longrightarrow> run_to V p s R"
  unfolding run_to_def by blast

lemma run_print [run_rules]: "Q (Val ()) s \<Longrightarrow> run_to V (print_timing l t) s Q"
  by (rule run_one [where s' = s and r = "\<lambda>_. Val ()" and N = "\<lambda>M. M\<lparr>timings := timings M @ [(l, t)]\<rparr>"])
    (simp add: print_timing_def)

lemma run_clock: "(\<And>t. Q (Val t) s) \<Longrightarrow> run_to V (clock_gettime os) s Q"
  by (rule run_one [where s' = s and r = "\<lambda>M. Val (os_clock os (clock_reads M))"
        and N = "\<lambda>M. M\<lparr>clock_reads := clock_reads M + 1\<rparr>"])
    (simp add: clock_gettime_def)

definition with_time :: "(('a \<times> real) outcome \<Rightarrow> pstate \<Rightarrow> bool) \<Rightarrow> 'a outcome \<Rightarrow> pstate \<Rightarrow> bool" where
  "with_time Q r s = (case r of Val x \<Rightarrow> (\<forall>t. Q (Val (x, t)) s) | Exited c \<Rightarrow> Q (Exited c) s | Segv \<Rightarrow> Q Segv s)"

lemma with_time_simps [simp]:
  "with_time Q (Val x) s = (\<forall>t. Q (Val (x, t)) s)"
  "with_time Q (Exited c) s = Q (Exited c) s"
  "with_time Q Segv s = Q Segv s"
  by (simp_all add: with_time_def)

lemma run_clocked [run_rules]:
  assumes "run_to V p s (with_time Q)"
  shows "run_to V (clocked os p) s Q"
  unfolding clocked_def
proof (rule run_bind, rule run_clock, simp, rule run_bind, rule run_mono [OF assms])
  fix t r s' assume "with_time Q r s'"
  then show "then_run V (\<lambda>x. pbind (clock_gettime os) (\<lambda>e. give (x, get_time_diff t e))) Q r s'"
    by (cases r) (auto intro!: run_bind run_clock run_give)
qed

lemma run_timed [run_rules]:
  assumes "run_to V p s Q"
  shows "run_to V (timed os l p) s Q"
  unfolding timed_def
proof (rule run_bind, rule run_clocked, rule run_mono [OF assms])
  fix r s' assume "Q r s'"
  then show "with_time (then_run V (\<lambda>(x, t). pseq (print_timing l t) (give x)) Q) r s'"
    by (cases r) (auto intro!: run_seq run_print run_give)
qed

lemma run_load [run_rules]:
  "B a = Some bs \<Longrightarrow> length bs = n \<Longrightarrow> Q (Val bs) (B, v, e) \<Longrightarrow> run_to V (load_bytes a n) (B, v, e) Q"
  by (rule run_one [where s' = "(B, v, e)" and r = "\<lambda>_. Val bs" and N = id])
    (cases e, auto simp: load_bytes_def rel_def dest: holds_read)

lemma run_store [run_rules]:
  "B a = Some bs \<Longrightarrow> length cs = length bs \<Longrightarrow> Q (Val ()) (B(a \<mapsto> cs), v, e) \<Longrightarrow>
   run_to V (store_bytes a cs) (B, v, e) Q"
proof (rule run_one [where s' = "(B(a \<mapsto> cs), v, e)" and r = "\<lambda>_. Val ()"
      and N = "\<lambda>M. M\<lparr>mem := write_bytes (mem M) a cs\<rparr>"])
  fix M assume a: "B a = Some bs" "length cs = length bs" "Q (Val ()) (B(a \<mapsto> cs), v, e)" "rel V (B, v, e) M"
  then have h: "holds (mem M) B" by (cases e) (simp add: rel_def)
  have m: "mapped (mem M) a (length cs)" using read_mapped [OF holds_read [OF h a(1)]] a(2) by simp
  moreover have "rel V (B(a \<mapsto> cs), v, e) (M\<lparr>mem := write_bytes (mem M) a cs\<rparr>)"
    using a holds_write [OF h a(1,2)] dom_write [OF m] by (cases e) (simp add: rel_def)
  ultimately show "store_bytes a cs M = (Val (), M\<lparr>mem := write_bytes (mem M) a cs\<rparr>) \<and>
      rel V (B(a \<mapsto> cs), v, e) (M\<lparr>mem := write_bytes (mem M) a cs\<rparr>) \<and> Q (Val ()) (B(a \<mapsto> cs), v, e)"
    using a(3) by (simp add: store_bytes_def)
qed

text \<open>A part of a block.\<close>

definition put_part :: "nat \<Rightarrow> u8 list \<Rightarrow> u8 list \<Rightarrow> u8 list" where
  "put_part off cs bs = take off bs @ cs @ drop (off + length cs) bs"

lemma length_put_part [simp]: "off + length cs \<le> length bs \<Longrightarrow> length (put_part off cs bs) = length bs"
  by (simp add: put_part_def)

lemma put_part_nth:
  "off + length cs \<le> length bs \<Longrightarrow> j < length bs \<Longrightarrow>
   put_part off cs bs ! j = (if off \<le> j \<and> j < off + length cs then cs ! (j - off) else bs ! j)"
  by (auto simp: put_part_def nth_append)

lemma write_part:
  assumes "read_bytes m a (length bs) = Some bs" "off + length cs \<le> length bs" "length bs \<le> 2 ^ 32"
  shows "write_bytes m (a + of_nat off) cs = write_bytes m a (put_part off cs bs)"
proof
  fix y
  have len: "length (put_part off cs bs) = length bs" using assms(2) by (simp add: put_part_def)
  have at: "y \<in> area (a + of_nat off) (length cs) \<longleftrightarrow> off \<le> j \<and> j < off + length cs"
    if "y = a + of_nat j" "j < length bs" for j
  proof
    assume "y \<in> area (a + of_nat off) (length cs)"
    then obtain k where k: "k < length cs" "y = a + of_nat off + of_nat k" by (auto simp: area_def)
    then have "a + of_nat j = a + of_nat (off + k)" using that(1) by (simp add: add.assoc)
    then have "(of_nat j :: u64) = of_nat (off + k)" by (rule add_left_imp_eq)
    with k(1) show "off \<le> j \<and> j < off + length cs" using small_inj [of j "off + k"] that(2) assms(2,3) by simp
  next
    assume "off \<le> j \<and> j < off + length cs"
    then have "y = a + of_nat off + of_nat (j - off)" "j - off < length cs" using that by (auto simp: of_nat_diff)
    then show "y \<in> area (a + of_nat off) (length cs)" by (auto simp: area_def)
  qed
  show "write_bytes m (a + of_nat off) cs y = write_bytes m a (put_part off cs bs) y"
  proof (cases "y \<in> area a (length bs)")
    case False
    then have "y \<notin> area (a + of_nat off) (length cs)"
      using assms(2) by (force simp: area_def add.assoc simp flip: of_nat_add)
    then show ?thesis using False len by (simp add: write_bytes_other)
  next
    case True
    then obtain j where j: "y = a + of_nat j" "j < length bs" by (auto simp: area_def)
    have new: "write_bytes m a (put_part off cs bs) y = Some (put_part off cs bs ! j)"
      using j assms(3) len write_bytes_at [of j "put_part off cs bs" m a] by simp
    show ?thesis
    proof (cases "off \<le> j \<and> j < off + length cs")
      case True
      then have "write_bytes m (a + of_nat off) cs (a + of_nat off + of_nat (j - off)) = Some (cs ! (j - off))"
        using assms(2,3) by (intro write_bytes_at) auto
      moreover have "a + of_nat off + of_nat (j - off) = y" using True j by (simp add: of_nat_diff)
      ultimately show ?thesis using True new j assms(2) by (simp add: put_part_nth)
    next
      case False
      then have "write_bytes m (a + of_nat off) cs y = m y" using at [OF j] by (simp add: write_bytes_other)
      then show ?thesis using False new j assms(1,2) by (auto simp: put_part_nth read_bytes_Some)
    qed
  qed
qed

lemma run_store_part:
  assumes "B a = Some bs" "off + length cs \<le> length bs" "Q (Val ()) (B(a \<mapsto> put_part off cs bs), v, e)"
  shows "run_to V (store_bytes (a + of_nat off) cs) (B, v, e) Q"
proof (rule run_one [where s' = "(B(a \<mapsto> put_part off cs bs), v, e)" and r = "\<lambda>_. Val ()"
      and N = "\<lambda>M. M\<lparr>mem := write_bytes (mem M) a (put_part off cs bs)\<rparr>"])
  fix M assume r: "rel V (B, v, e) M"
  have len: "length (put_part off cs bs) = length bs" using assms(2) by (simp add: put_part_def)
  from r have h: "holds (mem M) B" by (cases e) (simp add: rel_def)
  note read = holds_read [OF h assms(1)]
  have "length bs \<le> 2 ^ 32" using h assms(1) by (simp add: holds_def)
  then have eq: "write_bytes (mem M) (a + of_nat off) cs = write_bytes (mem M) a (put_part off cs bs)"
    by (rule write_part [OF read assms(2)])
  have "mem M (a + of_nat off + of_nat k) \<noteq> None" if "k < length cs" for k
  proof -
    have "mem M (a + of_nat (off + k)) \<noteq> None"
      using that assms(2) read unfolding read_bytes_Some by (metis add_less_cancel_left option.distinct(1) order_less_le_trans)
    then show ?thesis by (simp add: add.assoc)
  qed
  then have m: "mapped (mem M) (a + of_nat off) (length cs)" by (simp add: mapped_def)
  have "dom (write_bytes (mem M) a (put_part off cs bs)) = dom (mem M)"
    using dom_write [of "mem M" a "put_part off cs bs"] read_mapped [OF read] len by simp
  then show "store_bytes (a + of_nat off) cs M = (Val (), M\<lparr>mem := write_bytes (mem M) a (put_part off cs bs)\<rparr>) \<and>
      rel V (B(a \<mapsto> put_part off cs bs), v, e) (M\<lparr>mem := write_bytes (mem M) a (put_part off cs bs)\<rparr>) \<and>
      Q (Val ()) (B(a \<mapsto> put_part off cs bs), v, e)"
    using r m eq assms(3) holds_write [OF h assms(1) len] by (cases e) (simp add: store_bytes_def rel_def)
qed

lemma run_load_part:
  assumes "B a = Some bs" "off + n \<le> length bs" "Q (Val (take n (drop off bs))) (B, v, e)"
  shows "run_to V (load_bytes (a + of_nat off) n) (B, v, e) Q"
proof (rule run_one [where s' = "(B, v, e)" and r = "\<lambda>_. Val (take n (drop off bs))" and N = id])
  fix M assume r: "rel V (B, v, e) M"
  then have "holds (mem M) B" by (cases e) (simp add: rel_def)
  note read = holds_read [OF this assms(1)]
  have "mem M (a + of_nat off + of_nat k) = Some (bs ! (off + k))" if "k < n" for k
  proof -
    have "off + k < length bs" using that assms(2) by simp
    then have "mem M (a + of_nat (off + k)) = Some (bs ! (off + k))" using read unfolding read_bytes_Some by blast
    then show ?thesis by (simp add: add.assoc)
  qed
  then have "read_bytes (mem M) (a + of_nat off) n = Some (take n (drop off bs))"
    using assms(2) by (simp add: read_bytes_Some)
  then show "load_bytes (a + of_nat off) n M = (Val (take n (drop off bs)), id M) \<and> rel V (B, v, e) (id M) \<and>
      Q (Val (take n (drop off bs))) (B, v, e)"
    using r assms(3) by (simp add: load_bytes_def)
qed

lemma run_load_u64 [run_rules]:
  "B a = Some bs \<Longrightarrow> length bs = 8 \<Longrightarrow> Q (Val (le_value bs)) (B, v, e) \<Longrightarrow> run_to V (load_u64 a) (B, v, e) Q"
  by (simp add: load_u64_def run_rules)

lemma run_store_u64 [run_rules]:
  "B a = Some bs \<Longrightarrow> length bs = 8 \<Longrightarrow> Q (Val ()) (B(a \<mapsto> le_bytes 8 w), v, e) \<Longrightarrow>
   run_to V (store_u64 a w) (B, v, e) Q"
  by (simp add: store_u64_def run_rules)

lemma run_errno [run_rules]: "Q (Val n) (B, v, Some n, C) \<Longrightarrow> run_to V errno (B, v, Some n, C) Q"
  by (rule run_one [where s' = "(B, v, Some n, C)" and r = "\<lambda>_. Val n" and N = id])
    (simp add: errno_def rel_def)

text \<open>A call that keeps the memory and the view of the kernel.\<close>

definition harmless :: "('k \<Rightarrow> kview) \<Rightarrow> ('k machine \<Rightarrow> 'k machine) \<Rightarrow> bool" where
  "harmless V g \<longleftrightarrow> (\<forall>M. mem (g M) = mem M \<and> V (kern (g M)) = V (kern M) \<and> chunks (g M) = chunks M)"

lemma run_effect:
  "harmless V g \<Longrightarrow> Q (Val ()) (B, v, None, C) \<Longrightarrow> run_to V (effect g) (B, v, e, C) Q"
  by (rule run_one [where s' = "(B, v, None, C)" and r = "\<lambda>_. Val ()" and N = g]) (auto simp: effect_def harmless_def rel_def)

text \<open>Loops: an invariant, and for the bodies that may end the program what holds then.\<close>

lemma run_pfor_exits:
  assumes "I 0 s"
    and "\<And>k s'. k < length xs \<Longrightarrow> I k s' \<Longrightarrow> run_to V (f (xs ! k)) s'
      (\<lambda>r s''. r = Val () \<and> I (Suc k) s'' \<or> (\<exists>c. r = Exited c \<and> Q (Exited c) s''))"
    and "\<And>s'. I (length xs) s' \<Longrightarrow> Q (Val ()) s'"
  shows "run_to V (pfor f xs) s Q"
  using assms
proof (induction xs arbitrary: I s)
  case Nil then show ?case by (simp add: run_give)
next
  case (Cons x xs)
  have "run_to V (pfor f xs) s' Q" if "I 1 s'" for s'
  proof (rule Cons.IH [of "\<lambda>k. I (Suc k)"])
    show "I (Suc 0) s'" using that by simp
    show "run_to V (f (xs ! k)) s'' (\<lambda>r s''. r = Val () \<and> I (Suc (Suc k)) s'' \<or> (\<exists>c. r = Exited c \<and> Q (Exited c) s''))"
      if "k < length xs" "I (Suc k) s''" for k s'' using Cons.prems(2) [of "Suc k" s''] that by simp
    show "Q (Val ()) s''" if "I (Suc (length xs)) s''" for s'' using Cons.prems(3) that by simp
  qed
  moreover have "run_to V (f x) s (\<lambda>r s''. r = Val () \<and> I (Suc 0) s'' \<or> (\<exists>c. r = Exited c \<and> Q (Exited c) s''))"
    using Cons.prems(1) Cons.prems(2) [of 0 s] by simp
  ultimately show ?case by (auto intro!: run_seq elim!: run_mono)
qed

lemma run_pfor:
  assumes "I 0 s" "\<And>k s'. k < length xs \<Longrightarrow> I k s' \<Longrightarrow> run_to V (f (xs ! k)) s' (\<lambda>r s''. r = Val () \<and> I (Suc k) s'')"
    and "\<And>s'. I (length xs) s' \<Longrightarrow> Q (Val ()) s'"
  shows "run_to V (pfor f xs) s Q"
  using assms(1) run_mono [OF assms(2)] assms(3) by (rule run_pfor_exits) auto

lemma run_pmap:
  assumes "I s" "\<And>i s'. I s' \<Longrightarrow> run_to V (f i) s' (\<lambda>r s''. \<exists>x. r = Val x \<and> I s'')"
    and "\<And>ys s'. I s' \<Longrightarrow> Q (Val ys) s'"
  shows "run_to V (pmap f xs) s Q"
  using assms(1,3)
proof (induction xs arbitrary: s Q)
  case Nil then show ?case by (simp add: run_give)
next
  case (Cons x xs)
  show ?case
    unfolding pmap.simps
    by (rule run_bind, rule run_mono [OF assms(2) [OF Cons.prems(1)]])
      (auto intro!: run_bind Cons.IH run_give simp: Cons.prems(2))
qed

section \<open>The pattern of a page\<close>

definition page_bytes :: "nat \<Rightarrow> u8 list" where
  "page_bytes n = map pattern_at [0..<n]"

lemma length_page_bytes [simp]: "length (page_bytes n) = n"
  by (simp add: page_bytes_def)

lemma write_in_block:
  assumes "read_bytes m b (length cs) = Some cs" "i < length cs" "length cs \<le> 2 ^ 32"
  shows "m(b + of_nat i \<mapsto> x) = write_bytes m b (cs[i := x])"
proof
  fix y
  show "(m(b + of_nat i \<mapsto> x)) y = write_bytes m b (cs[i := x]) y"
  proof (cases "y \<in> area b (length cs)")
    case True
    then obtain j where j: "j < length cs" "y = b + of_nat j" by (auto simp: area_def)
    then show ?thesis using assms small_inj [of j i] write_bytes_at [of j "cs[i := x]" m b]
      by (cases "i = j") (auto simp: read_bytes_Some)
  next
    case False
    then have "y \<noteq> b + of_nat i" using assms(2) by (auto simp: area_def)
    then show ?thesis using False by (simp add: write_bytes_other)
  qed
qed

lemma run_store_u8:
  assumes "B b = Some cs" "i < length cs" "Q (Val ()) (B(b \<mapsto> cs[i := x]), v, e)"
  shows "run_to V (store_u8 (b + of_nat i) x) (B, v, e) Q"
proof (rule run_one [where s' = "(B(b \<mapsto> cs[i := x]), v, e)" and r = "\<lambda>_. Val ()"
      and N = "\<lambda>M. M\<lparr>mem := (mem M)(b + of_nat i \<mapsto> x)\<rparr>"])
  fix M assume r: "rel V (B, v, e) M"
  then have h: "holds (mem M) B" by (cases e) (simp add: rel_def)
  note read = holds_read [OF h assms(1)]
  have "length cs \<le> 2 ^ 32" using h assms(1) by (simp add: holds_def)
  then have "(mem M)(b + of_nat i \<mapsto> x) = write_bytes (mem M) b (cs[i := x])"
    by (rule write_in_block [OF read assms(2)])
  moreover have "mem M (b + of_nat i) \<noteq> None" using read assms(2) by (simp add: read_bytes_Some)
  moreover have "dom ((mem M)(b + of_nat i \<mapsto> x)) = dom (mem M)" using calculation(2) by auto
  ultimately show "store_u8 (b + of_nat i) x M = (Val (), M\<lparr>mem := (mem M)(b + of_nat i \<mapsto> x)\<rparr>) \<and>
      rel V (B(b \<mapsto> cs[i := x]), v, e) (M\<lparr>mem := (mem M)(b + of_nat i \<mapsto> x)\<rparr>) \<and>
      Q (Val ()) (B(b \<mapsto> cs[i := x]), v, e)"
    using r assms(3) holds_write [OF h assms(1), of "cs[i := x]"]
    by (cases e) (simp add: store_u8_def rel_def)
qed

lemma run_load_u8:
  assumes "B b = Some cs" "i < length cs" "Q (Val (cs ! i)) (B, v, e)"
  shows "run_to V (load_u8 (b + of_nat i)) (B, v, e) Q"
proof (rule run_one [where s' = "(B, v, e)" and r = "\<lambda>_. Val (cs ! i)" and N = id])
  fix M assume r: "rel V (B, v, e) M"
  then have "holds (mem M) B" by (cases e) (simp add: rel_def)
  then have "mem M (b + of_nat i) = Some (cs ! i)"
    using holds_read assms(1,2) by (force simp: read_bytes_Some)
  then show "load_u8 (b + of_nat i) M = (Val (cs ! i), id M) \<and> rel V (B, v, e) (id M) \<and> Q (Val (cs ! i)) (B, v, e)"
    using r assms(3) by (simp add: load_u8_def)
qed

lemma run_fill [run_rules]:
  assumes "B b = Some cs" "length cs = unat n" "Q (Val ()) (B(b \<mapsto> page_bytes (unat n)), v, e)"
  shows "run_to V (fill b n) (B, v, e) Q"
  unfolding fill_def
proof (rule run_pfor [where I = "\<lambda>k s. s = (B(b \<mapsto> map pattern_at [0..<k] @ drop k cs), v, e)"])
  show "(B, v, e) = (B(b \<mapsto> map pattern_at [0..<0] @ drop 0 cs), v, e)" using assms(1) by auto
next
  fix k s' assume k: "k < length [0..<unat n]" and s: "s' = (B(b \<mapsto> map pattern_at [0..<k] @ drop k cs), v, e)"
  have "(map pattern_at [0..<k] @ drop k cs)[k := pattern_at k] = map pattern_at [0..<Suc k] @ drop (Suc k) cs"
    using k assms(2) by (simp add: list_update_append Cons_nth_drop_Suc [symmetric])
  then show "run_to V (store_u8 (b + of_nat ([0..<unat n] ! k)) (pattern_at ([0..<unat n] ! k))) s'
      (\<lambda>r s''. r = Val () \<and> s'' = (B(b \<mapsto> map pattern_at [0..<Suc k] @ drop (Suc k) cs), v, e))"
    using k assms(2) s by (auto intro!: run_store_u8)
qed (use assms in \<open>auto simp: page_bytes_def\<close>)

lemma run_verify [run_rules]:
  assumes "B b = Some (page_bytes (unat n))" "Q (Val ()) (B, v, e)"
  shows "run_to V (verify_pattern b n) (B, v, e) Q"
  unfolding verify_pattern_def
proof (rule run_pfor [where I = "\<lambda>k s. s = (B, v, e)"])
  fix k s' assume k: "k < length [0..<unat n]" and s: "s' = (B, v, e)"
  have "page_bytes (unat n) ! k = pattern_at k" using k by (simp add: page_bytes_def)
  then show "run_to V (pbind (load_u8 (b + of_nat ([0..<unat n] ! k)))
      (\<lambda>x. if x \<noteq> pattern_at ([0..<unat n] ! k) then die 1 else give ())) s' (\<lambda>r s''. r = Val () \<and> s'' = (B, v, e))"
    using k s assms(1) by (auto intro!: run_bind run_load_u8 run_give)
qed (use assms in auto)

section \<open>The calls of the kernel and of the allocator\<close>

lemma run_call:
  assumes "documented V L demand os"
    and "\<And>m. holds m B \<Longrightarrow> card (dom m) \<le> snd C \<Longrightarrow> spec_call L demand nr args m v = (r, m, w)"
    and "Q (Val (if r < 0 then - 1 else r)) (B, w, if r < 0 then Some (- r) else e, C)"
  shows "run_to V (syscall os nr args) (B, v, e, C) Q"
  unfolding run_to_def
proof (intro allI impI)
  fix M assume rel: "rel V (B, v, e, C) M"
  then have "spec_call L demand nr args (mem M) (V (kern M)) = (r, mem M, w)" using assms(2) by (simp add: rel_def)
  then obtain k where "V k = w" "os_syscall os nr args M =
      (if r < 0 then (- 1, M\<lparr>kern := k, errnum := - r\<rparr>) else (r, M\<lparr>mem := mem M, kern := k\<rparr>))"
    by (rule documentedD [OF assms(1)])
  then show "\<exists>q s' M'. syscall os nr args M = (q, M') \<and> rel V s' M' \<and> Q q s'"
    using assms(3) rel
    by (intro exI [of _ "Val (if r < 0 then - 1 else r)"] exI [of _ "(B, w, if r < 0 then Some (- r) else e, C)"])
      (auto simp: syscall_def query_def rel_def)
qed

lemma run_enable:
  assumes "documented V L demand os"
    and "pen v (table_of a) \<Longrightarrow> Q (Val (- 1)) (B, v, Some EEXIST, C)"
    and "\<not> pen v (table_of a) \<Longrightarrow> Q (Val 0) (B, fresh_table True (table_of a) v, e, C)"
  shows "run_to V (syscall os SYS_enable_pte_meta [a]) (B, v, e, C) Q"
  using assms(2,3)
  by (cases "pen v (table_of a)") (auto simp: spec_call_def spec_enable_def intro!: run_call [OF assms(1)])

lemma run_disable:
  assumes "documented V L demand os"
    and "\<not> pen v (table_of a) \<Longrightarrow> Q (Val (- 1)) (B, v, Some EINVAL, C)"
    and "pen v (table_of a) \<Longrightarrow> Q (Val 0) (B, fresh_table False (table_of a) v, e, C)"
  shows "run_to V (syscall os SYS_disable_pte_meta [a]) (B, v, e, C) Q"
  using assms(2,3)
  by (cases "pen v (table_of a)") (auto simp: spec_call_def spec_disable_def intro!: run_call [OF assms(1)])

definition opened :: "u64 \<Rightarrow> kview \<Rightarrow> kview" where
  "opened a v = (if pen v (table_of a) then v else fresh_table True (table_of a) v)"

lemma run_set:
  assumes "documented V L demand os" "B src = Some bs"
    and "mdp = 0 \<and> length bs = 8 \<or> mdp \<noteq> 0 \<and> fst L \<le> length bs \<and> length bs = fst L + snd L (take (fst L) bs)"
    and "\<not> pen v (table_of a) \<Longrightarrow> \<not> demand \<Longrightarrow> Q (Val (- 1)) (B, v, Some ENODATA, C)"
    and "pen v (table_of a) \<or> demand \<Longrightarrow>
         Q (Val 0) (B, (opened a v)\<lparr>stored := (stored (opened a v))(page_of a \<mapsto> bs)\<rparr>, e, C)"
  shows "run_to V (syscall os SYS_set_pte_meta [a, mdp, src]) (B, v, e, C) Q"
proof (cases "pen v (table_of a) \<or> demand")
  case True
  have "user_metadata L m mdp src = Some bs" if "holds m B" for m
  proof -
    have all: "read_bytes m src (length bs) = Some bs" using holds_read [OF that assms(2)] .
    then have "read_bytes m src (fst L) = Some (take (fst L) bs)" if "fst L \<le> length bs"
      using that by (rule read_prefix)
    then show ?thesis using assms(3) all by (auto simp: user_metadata_def)
  qed
  then have "spec_call L demand 471 [a, mdp, src] m v =
      (0, m, (opened a v)\<lparr>stored := (stored (opened a v))(page_of a \<mapsto> bs)\<rparr>)" if "holds m B" for m
    using True that by (auto simp: spec_call_def spec_set_def opened_def Let_def)
  from run_call [OF assms(1) this, where e = e and C = C and Q = Q] assms(5) [OF True]
  show ?thesis by simp
next
  case False
  then show ?thesis
    using assms(4) by (auto simp: spec_call_def spec_set_def intro!: run_call [OF assms(1)])
qed

lemma run_get_none:
  assumes "documented V L demand os" "\<not> pen v (table_of a) \<or> stored v (page_of a) = None"
    and "Q (Val (- 1)) (B, v, Some ENODATA, C)"
  shows "run_to V (get_into os a dst) (B, v, e, C) Q"
  using assms(2,3) unfolding get_into_def
  by (auto simp: spec_call_def spec_get_def intro!: run_call [OF assms(1)])

lemma run_get:
  assumes "documented V L demand os" "pen v (table_of a)" "stored v (page_of a) = Some bs"
    and "B dst = Some cs" "length cs = length bs" "Q (Val 0) (B(dst \<mapsto> bs), v, e, C)"
  shows "run_to V (get_into os a dst) (B, v, e, C) Q"
  unfolding run_to_def
proof (intro allI impI)
  fix M assume rel: "rel V (B, v, e, C) M"
  then have h: "holds (mem M) B" by (simp add: rel_def)
  have m: "mapped (mem M) dst (length bs)" using read_mapped [OF holds_read [OF h assms(4)]] assms(5) by simp
  from m have "spec_call L demand 472 [a, dst] (mem M) (V (kern M)) = (0, write_bytes (mem M) dst bs, v)"
    using rel assms(2,3) by (simp add: spec_call_def spec_get_def rel_def)
  then obtain k where "V k = v" "os_syscall os 472 [a, dst] M =
      (if (0 :: int) < 0 then (- 1, M\<lparr>kern := k, errnum := - 0\<rparr>) else (0, M\<lparr>mem := write_bytes (mem M) dst bs, kern := k\<rparr>))"
    by (rule documentedD [OF assms(1)])
  then show "\<exists>q s' M'. get_into os a dst M = (q, M') \<and> rel V s' M' \<and> Q q s'"
    using assms(6) rel holds_write [OF h assms(4)] assms(5) dom_write [OF m]
    by (intro exI [of _ "Val 0"] exI [of _ "(B(dst \<mapsto> bs), v, e, C)"])
      (auto simp: get_into_def syscall_def query_def rel_def)
qed

text \<open>What the tests rely on of the C library: allocation succeeds with fresh memory while less
  than \<open>2 ^ 40\<close> bytes are mapped, freeing touches only the freed block, locking touches
  nothing the program sees.  \<open>where_to\<close> restricts the addresses \<open>posix_memalign\<close> gives.\<close>

definition memalign_ok :: "('k \<Rightarrow> kview) \<Rightarrow> (u64 \<Rightarrow> bool) \<Rightarrow> u64 \<Rightarrow> 'k os \<Rightarrow> bool" where
  "memalign_ok V where_to n os \<longleftrightarrow>
     (\<forall>M. card (dom (mem M)) \<le> 2 ^ 40 \<longrightarrow>
        (\<exists>b M'. os_memalign os 4096 n M = ((0, b), M') \<and> where_to b \<and> take_bit 12 b = 0 \<and>
           fresh_block (mem M) (mem M') b (unat n) \<and> V (kern M') = V (kern M) \<and>
           chunks M' = (chunks M)(b \<mapsto> unat n)))"

definition malloc_ok :: "('k \<Rightarrow> kview) \<Rightarrow> u64 \<Rightarrow> 'k os \<Rightarrow> bool" where
  "malloc_ok V n os \<longleftrightarrow>
     (\<forall>M. card (dom (mem M)) \<le> 2 ^ 40 \<longrightarrow>
        (\<exists>b M'. os_malloc os n M = (b, M') \<and> b \<noteq> 0 \<and>
           fresh_block (mem M) (mem M') b (unat n) \<and> V (kern M') = V (kern M) \<and>
           chunks M' = (chunks M)(b \<mapsto> unat n)))"

definition free_ok :: "('k \<Rightarrow> kview) \<Rightarrow> 'k os \<Rightarrow> bool" where
  "free_ok V os \<longleftrightarrow>
     (\<forall>M a n. chunks M a = Some n \<longrightarrow>
        V (kern (os_free os a M)) = V (kern M) \<and> chunks (os_free os a M) = (chunks M)(a := None) \<and>
        dom (mem (os_free os a M)) \<subseteq> dom (mem M) \<and>
        (\<forall>x. x \<notin> area a n \<longrightarrow> mem (os_free os a M) x = mem M x))"

definition libc_ok :: "('k \<Rightarrow> kview) \<Rightarrow> 'k os \<Rightarrow> bool" where
  "libc_ok V os \<longleftrightarrow> os_pagesize os = 4096 \<and> free_ok V os \<and>
     (\<forall>a n. harmless V (os_mlock os a n)) \<and> (\<forall>a n. harmless V (os_munlock os a n))"

lemma card_fresh:
  assumes "fresh_block m m' a n" "card (dom m) \<le> N"
  shows "card (dom m') \<le> N + n"
proof -
  have "card (area a n) \<le> n" unfolding area_def by (metis card_image_le card_lessThan finite_lessThan)
  then show ?thesis
    using assms card_Un_le [of "dom m" "area a n"] by (simp add: fresh_block_def)
qed

lemma run_memalign:
  assumes "memalign_ok V where_to n os" "N \<le> 2 ^ 40" "0 < unat n" "unat n \<le> 2 ^ 32"
    and "\<And>b bs. where_to b \<Longrightarrow> take_bit 12 b = 0 \<Longrightarrow> length bs = unat n \<Longrightarrow> B b = None \<Longrightarrow>
      Q (Val (0, b)) (B(b \<mapsto> bs), v, None, C(b \<mapsto> unat n), N + unat n)"
  shows "run_to V (query (os_memalign os 4096 n)) (B, v, e, C, N) Q"
  unfolding run_to_def
proof (intro allI impI)
  fix M assume rel: "rel V (B, v, e, C, N) M"
  then have h: "holds (mem M) B" and c: "card (dom (mem M)) \<le> 2 ^ 40" using assms(2) by (simp_all add: rel_def)
  obtain b M' where b: "os_memalign os 4096 n M = ((0, b), M')" "where_to b" "take_bit 12 b = 0"
    "fresh_block (mem M) (mem M') b (unat n)" "V (kern M') = V (kern M)" "chunks M' = (chunks M)(b \<mapsto> unat n)"
    using assms(1) c unfolding memalign_ok_def by blast
  obtain bs where bs: "length bs = unat n" "B b = None" "holds (mem M') (B(b \<mapsto> bs))"
    using holds_alloc [OF h b(4) assms(4,3)] .
  show "\<exists>r s' M'. query (os_memalign os 4096 n) M = (r, M') \<and> rel V s' M' \<and> Q r s'"
    using assms(5) [OF b(2,3) bs(1,2)] b bs rel card_fresh [OF b(4)]
    by (intro exI [of _ "Val (0, b)"] exI [of _ "(B(b \<mapsto> bs), v, None, C(b \<mapsto> unat n), N + unat n)"])
      (auto simp: query_def rel_def)
qed

lemma run_malloc:
  assumes "malloc_ok V n os" "N \<le> 2 ^ 40" "0 < unat n" "unat n \<le> 2 ^ 32"
    and "\<And>b bs. b \<noteq> 0 \<Longrightarrow> length bs = unat n \<Longrightarrow> B b = None \<Longrightarrow>
      Q (Val b) (B(b \<mapsto> bs), v, None, C(b \<mapsto> unat n), N + unat n)"
  shows "run_to V (query (os_malloc os n)) (B, v, e, C, N) Q"
  unfolding run_to_def
proof (intro allI impI)
  fix M assume rel: "rel V (B, v, e, C, N) M"
  then have h: "holds (mem M) B" and c: "card (dom (mem M)) \<le> 2 ^ 40" using assms(2) by (simp_all add: rel_def)
  obtain b M' where b: "os_malloc os n M = (b, M')" "b \<noteq> 0"
    "fresh_block (mem M) (mem M') b (unat n)" "V (kern M') = V (kern M)" "chunks M' = (chunks M)(b \<mapsto> unat n)"
    using assms(1) c unfolding malloc_ok_def by blast
  obtain bs where bs: "length bs = unat n" "B b = None" "holds (mem M') (B(b \<mapsto> bs))"
    using holds_alloc [OF h b(3) assms(4,3)] .
  show "\<exists>r s' M'. query (os_malloc os n) M = (r, M') \<and> rel V s' M' \<and> Q r s'"
    using assms(5) [OF b(2) bs(1,2)] b bs rel card_fresh [OF b(3)]
    by (intro exI [of _ "Val b"] exI [of _ "(B(b \<mapsto> bs), v, None, C(b \<mapsto> unat n), N + unat n)"])
      (auto simp: query_def rel_def)
qed

lemma holds_empty [simp]: "holds m Map.empty"
  by (simp add: holds_def)

lemma holds_free:
  assumes "holds m B" "B a = Some bs" "\<forall>x. x \<notin> area a (length bs) \<longrightarrow> m' x = m x"
  shows "holds m' (B(a := None))"
proof -
  have "read_bytes m' b (length cs) = Some cs" if b: "b \<noteq> a" "B b = Some cs" for b cs
  proof -
    have "area a (length bs) \<inter> area b (length cs) = {}" using assms(1,2) b unfolding holds_def by metis
    then have "m' (b + of_nat k) = m (b + of_nat k)" if "k < length cs" for k
    proof -
      have "b + of_nat k \<in> area b (length cs)" using that by (simp add: area_def)
      then show ?thesis using assms(3) \<open>area a (length bs) \<inter> area b (length cs) = {}\<close> by blast
    qed
    then show ?thesis using holds_read [OF assms(1) b(2)] by (simp add: read_bytes_Some)
  qed
  then show ?thesis using assms(1) by (auto simp: holds_def split: if_splits)
qed

lemma run_free:
  assumes "free_ok V os" "C a = Some (length bs)" "B a = Some bs"
    and "Q (Val ()) (B(a := None), v, None, C(a := None), N)"
  shows "run_to V (effect (os_free os a)) (B, v, e, C, N) Q"
proof (rule run_one [where s' = "(B(a := None), v, None, C(a := None), N)" and r = "\<lambda>_. Val ()" and N = "os_free os a"])
  fix M assume rel: "rel V (B, v, e, C, N) M"
  have law: "V (kern (os_free os a M)) = V (kern M)" "chunks (os_free os a M) = (chunks M)(a := None)"
    "dom (mem (os_free os a M)) \<subseteq> dom (mem M)" "\<forall>x. x \<notin> area a (length bs) \<longrightarrow> mem (os_free os a M) x = mem M x"
    using assms(1,2) rel by (simp_all add: free_ok_def rel_def)
  have "card (dom (mem (os_free os a M))) \<le> card (dom (mem M))"
    using law(3) by (rule card_mono [OF finite])
  then show "effect (os_free os a) M = (Val (), os_free os a M) \<and>
      rel V (B(a := None), v, None, C(a := None), N) (os_free os a M) \<and>
      Q (Val ()) (B(a := None), v, None, C(a := None), N)"
    using law rel assms holds_free [of "mem M" B a bs] by (auto simp: effect_def rel_def)
qed

lemma run_forget:
  assumes "free_ok V os" "C a = Some n" "Q (Val ()) (Map.empty, v, None, C(a := None), N)"
  shows "run_to V (effect (os_free os a)) (B, v, e, C, N) Q"
proof (rule run_one [where s' = "(Map.empty, v, None, C(a := None), N)" and r = "\<lambda>_. Val ()" and N = "os_free os a"])
  fix M assume rel: "rel V (B, v, e, C, N) M"
  have law: "V (kern (os_free os a M)) = V (kern M)" "chunks (os_free os a M) = (chunks M)(a := None)"
    "dom (mem (os_free os a M)) \<subseteq> dom (mem M)"
    using assms(1,2) rel by (simp_all add: free_ok_def rel_def)
  have "card (dom (mem (os_free os a M))) \<le> card (dom (mem M))"
    using law(3) by (rule card_mono [OF finite])
  then show "effect (os_free os a) M = (Val (), os_free os a M) \<and>
      rel V (Map.empty, v, None, C(a := None), N) (os_free os a M) \<and> Q (Val ()) (Map.empty, v, None, C(a := None), N)"
    using law rel assms(3) by (auto simp: effect_def rel_def)
qed

end
