(* ===== verification/PteProps.thy ===== *)
theory PteProps
  imports PteBlocks
begin

text \<open>
  What the PTE tests decide: every test is run symbolically against the documented kernel, and
  the verdicts of the whole programs follow.  At the end a concrete kernel and allocator that
  meet all the hypotheses.
\<close>

section \<open>Running the tests\<close>

lemma run_call_1 [run_rules]:
  "run_to V (syscall os nr [a]) s (then_run V (\<lambda>r. if r < 0 then die 1 else give ()) Q) \<Longrightarrow>
   run_to V (call_or_die_1 os nr a) s Q"
  unfolding call_or_die_1_def by (rule run_bind)

lemma run_call_3 [run_rules]:
  "run_to V (syscall os nr [a, b, c]) s (then_run V (\<lambda>r. if r < 0 then die 1 else give ()) Q) \<Longrightarrow>
   run_to V (call_or_die_3 os nr a b c) s Q"
  unfolding call_or_die_3_def by (rule run_bind)

lemma run_compare [run_rules]:
  assumes "B a = Some xs" "length xs = 8" "B b = Some ys" "length ys = 8"
    and "Q (if le_value xs \<noteq> le_value ys then Exited 1 else Val ()) (B, v, e)"
  shows "run_to V (compare_u64 a b) (B, v, e) Q"
  unfolding compare_u64_def
  by (rule run_bind, rule run_load_u64, rule assms(1), rule assms(2), simp,
      rule run_bind, rule run_load_u64, rule assms(3), rule assms(4), simp, rule run_die_if)
    (use assms(5) in simp_all)

lemma run_setup_page:
  assumes "memalign_ok V where_to 4096 os" "libc_ok V os" "N \<le> 2 ^ 40"
    and "\<And>b. where_to b \<Longrightarrow> B b = None \<Longrightarrow>
      Q (Val b) (B(b \<mapsto> page_bytes 4096), v, None, C(b \<mapsto> 4096), N + 4096)"
  shows "run_to V (setup_page os chk) (B, v, e, C, N) Q"
proof -
  have ps: "os_pagesize os = 4096" "\<And>a n. harmless V (os_mlock os a n)" using assms(2) by (simp_all add: libc_ok_def)
  show ?thesis
    unfolding setup_page_def alloc_page_def ps
    by (rule run_rules | rule run_memalign [OF assms(1,3)] | rule run_effect [OF ps(2)] | simp | rule assms(4))+
qed

lemma run_release_page:
  assumes "libc_ok V os" "C b = Some n" "Q (Val 0) (Map.empty, v, None, C(b := None), N)"
  shows "run_to V (release_page os b) (B, v, e, C, N) Q"
proof -
  have ps: "free_ok V os" "\<And>a n. harmless V (os_munlock os a n)" using assms(1) by (simp_all add: libc_ok_def)
  show ?thesis
    unfolding release_page_def
    by (rule run_rules | rule run_effect [OF ps(2)] | rule run_forget [where n = n, OF ps(1)] | simp add: assms)+
qed

text \<open>The rules again, with every premise computed from the blocks: this is what runs the tests
  by rewriting.\<close>

named_theorems test_rules \<open>rules that run a test on known blocks\<close>

lemma computed_rules [test_rules]:
  "B a \<noteq> None \<Longrightarrow> length (the (B a)) = 8 \<Longrightarrow> Q (Val (le_value (the (B a)))) (B, v, e) \<Longrightarrow>
   run_to V (load_u64 a) (B, v, e) Q"
  "B a \<noteq> None \<Longrightarrow> length (the (B a)) = 8 \<Longrightarrow> R (Val ()) (B(a \<mapsto> le_bytes 8 w), v, e) \<Longrightarrow>
   run_to V (store_u64 a w) (B, v, e) R"
  "B a \<noteq> None \<Longrightarrow> length (the (B a)) = 8 \<Longrightarrow> B b \<noteq> None \<Longrightarrow> length (the (B b)) = 8 \<Longrightarrow>
   R (if le_value (the (B a)) \<noteq> le_value (the (B b)) then Exited 1 else Val ()) (B, v, e) \<Longrightarrow>
   run_to V (compare_u64 a b) (B, v, e) R"
  by (auto intro: run_load_u64 run_store_u64 run_compare)

lemmas basic_rules [test_rules] =
  run_bind run_seq run_give run_die run_die_if run_print run_clocked run_timed run_verify run_errno
  run_call_1 run_call_3

lemma set_direct_rule:
  assumes "documented V L demand os" "B src \<noteq> None" "length (the (B src)) = 8"
    and "\<not> pen v (table_of a) \<Longrightarrow> \<not> demand \<Longrightarrow> Q (Val (- 1)) (B, v, Some ENODATA, C)"
    and "pen v (table_of a) \<or> demand \<Longrightarrow>
         Q (Val 0) (B, (opened a v)\<lparr>stored := (stored (opened a v))(page_of a \<mapsto> the (B src))\<rparr>, e, C)"
  shows "run_to V (syscall os SYS_set_pte_meta [a, 0, src]) (B, v, e, C) Q"
  using assms(2-) by (auto intro!: run_set [OF assms(1)])

lemma get_rule:
  assumes "documented V L demand os" "pen v (table_of a)" "stored v (page_of a) \<noteq> None" "B dst \<noteq> None"
    "length (the (B dst)) = length (the (stored v (page_of a)))"
    "Q (Val 0) (B(dst \<mapsto> the (stored v (page_of a))), v, e, C)"
  shows "run_to V (get_into os a dst) (B, v, e, C) Q"
  using assms(2-) by (auto intro!: run_get [OF assms(1)])

lemma fresh_table_simps [simp]: "pen (fresh_table on t v) = (pen v)(t := on)"
  by (simp add: fresh_table_def)

lemma opened_simps [simp]:
  "pen (opened a v) = (pen v)(table_of a := True)"
  by (auto simp: opened_def fun_eq_iff)

text \<open>A process whose page tables are not expanded, with its three local variables mapped; and
  the same process with the pattern on the page at \<open>b\<close>.\<close>

definition locals_ok :: "'k os \<Rightarrow> blocks \<Rightarrow> bool" where
  "locals_ok os B \<longleftrightarrow> distinct (map (os_local os) [0, 1, 2]) \<and>
     (\<forall>i \<in> {0, 1, 2}. B (os_local os i) \<noteq> None \<and> length (the (B (os_local os i))) = 8)"

definition laid :: "'k os \<Rightarrow> u64 \<Rightarrow> blocks \<Rightarrow> bool" where
  "laid os b B \<longleftrightarrow> locals_ok os B \<and> B b = Some (page_bytes 4096) \<and>
     b \<noteq> os_local os 0 \<and> b \<noteq> os_local os 1 \<and> b \<noteq> os_local os 2"

lemma laid_page: "locals_ok os B \<Longrightarrow> B b = None \<Longrightarrow> laid os b (B(b \<mapsto> page_bytes 4096))"
  by (auto simp: laid_def locals_ok_def)

definition expanded_only :: "bool \<Rightarrow> u64 \<Rightarrow> kview \<Rightarrow> bool" where
  "expanded_only on b v \<longleftrightarrow> (\<forall>t. pen v t \<longleftrightarrow> on \<and> t = table_of b)"

definition body_ok :: "'k os \<Rightarrow> u64 \<Rightarrow> bool \<Rightarrow> (u64 \<Rightarrow> nat option) \<times> nat \<Rightarrow> 'a outcome \<Rightarrow> pstate \<Rightarrow> bool" where
  "body_ok os b on C r = (\<lambda>(B, v, e, C'). (\<exists>x. r = Val x) \<and> laid os b B \<and> expanded_only on b v \<and> C' = C)"

definition passed :: "int outcome \<Rightarrow> pstate \<Rightarrow> bool" where
  "passed r = (\<lambda>(B, v, e). r = Val 0 \<and> (\<forall>t. \<not> pen v t))"

lemma run_test_mdp0:
  assumes "documented V L demand os" "laid os b B" "expanded_only False b v"
  shows "run_to V (test_mdp0 os b 4096) (B, v, e, C) (body_ok os b True C)"
  unfolding test_mdp0_def Let_def
  by (rule test_rules run_enable [OF assms(1)] set_direct_rule [OF assms(1)] get_rule [OF assms(1)]
     | use assms(2,3) in \<open>simp add: laid_def locals_ok_def expanded_only_def body_ok_def\<close>)+

text \<open>The header test3 writes is the header it reads back.\<close>

lemma length_header_bytes [simp]: "length (header_bytes h) = 8"
  by (simp add: header_bytes_def)

lemma narrow_field:
  "(ucast (take_bit 16 (ucast (x :: u16) :: u64)) :: u16) = x"
  "(ucast (take_bit 32 (ucast (y :: u32) :: u64)) :: u32) = y"
  by (rule bit_word_eqI, simp add: bit_simps)+

lemma read_header_bytes: "read_header (header_bytes h @ xs) = h" "read_header (header_bytes h) = h"
  by (simp_all add: read_header_def header_bytes_def le_value_bytes narrow_field)

lemma part_rules:
  "B a \<noteq> None \<Longrightarrow> off + length cs \<le> length (the (B a)) \<Longrightarrow>
   Q (Val ()) (B(a \<mapsto> put_part off cs (the (B a))), v, e) \<Longrightarrow> run_to V (store_bytes (a + of_nat off) cs) (B, v, e) Q"
  "B a \<noteq> None \<Longrightarrow> off + n \<le> length (the (B a)) \<Longrightarrow> R (Val (take n (drop off (the (B a))))) (B, v, e) \<Longrightarrow>
   run_to V (load_bytes (a + of_nat off) n) (B, v, e) R"
  by (auto intro: run_store_part run_load_part)

lemma header_part_rules:
  "B a \<noteq> None \<Longrightarrow> length cs \<le> length (the (B a)) \<Longrightarrow>
   Q (Val ()) (B(a \<mapsto> put_part 0 cs (the (B a))), v, e) \<Longrightarrow> run_to V (store_bytes a cs) (B, v, e) Q"
  "B a \<noteq> None \<Longrightarrow> n \<le> length (the (B a)) \<Longrightarrow> R (Val (take n (the (B a)))) (B, v, e) \<Longrightarrow>
   run_to V (load_bytes a n) (B, v, e) R"
  using part_rules [where off = 0] by simp_all

lemma payload_part_rules:
  "B a \<noteq> None \<Longrightarrow> 8 + length cs \<le> length (the (B a)) \<Longrightarrow>
   Q (Val ()) (B(a \<mapsto> put_part 8 cs (the (B a))), v, e) \<Longrightarrow> run_to V (store_bytes (a + 8) cs) (B, v, e) Q"
  "B a \<noteq> None \<Longrightarrow> 8 + n \<le> length (the (B a)) \<Longrightarrow> R (Val (take n (drop 8 (the (B a))))) (B, v, e) \<Longrightarrow>
   run_to V (load_bytes (a + 8) n) (B, v, e) R"
  using part_rules [where off = 8] by simp_all

lemma set_structured_rule:
  assumes "documented V packed_header demand os" "B src \<noteq> None" "8 \<le> length (the (B src))"
    "length (the (B src)) = 8 + unat (mlength (read_header (the (B src))))" "pen v (table_of a)"
    "Q (Val 0) (B, v\<lparr>stored := (stored v)(page_of a \<mapsto> the (B src))\<rparr>, e, C)"
  shows "run_to V (syscall os SYS_set_pte_meta [a, 1, src]) (B, v, e, C) Q"
proof -
  have "read_header (take 8 bs) = read_header bs" for bs by (simp add: read_header_def drop_take)
  then show ?thesis using assms(2-) by (auto intro!: run_set [OF assms(1)] simp: opened_def packed_header_def)
qed

lemma run_malloc_laid:
  assumes "malloc_ok V 24 os" "N \<le> 2 ^ 40" "laid os b B"
    and "\<And>p bs. p \<noteq> 0 \<Longrightarrow> length bs = 24 \<Longrightarrow> B p = None \<Longrightarrow> laid os b (B(p \<mapsto> bs)) \<Longrightarrow> p \<noteq> b \<Longrightarrow>
      Q (Val p) (B(p \<mapsto> bs), v, None, C(p \<mapsto> 24), N + 24)"
  shows "run_to V (query (os_malloc os 24)) (B, v, e, C, N) Q"
proof (rule run_malloc [OF assms(1,2)])
  fix p and bs :: "u8 list" assume p: "p \<noteq> 0" "length bs = unat (24 :: u64)" "B p = None"
  then have "laid os b (B(p \<mapsto> bs))" "p \<noteq> b" using assms(3) by (auto simp: laid_def locals_ok_def)
  then show "Q (Val p) (B(p \<mapsto> bs), v, None, C(p \<mapsto> unat (24 :: u64)), N + unat (24 :: u64))"
    using assms(4) p by simp
qed simp_all

lemma test3_message:
  "put_part 8 test3_payload (put_part 0 (header_bytes test3_header) bs) = header_bytes test3_header @ test3_payload"
  if "length bs = 24"
  using that by (simp add: put_part_def test3_payload_def)

lemma test3_lengths [simp]: "length test3_payload = 16" "mlength test3_header = 16"
  by (simp_all add: test3_payload_def test3_header_def)

lemma laid_at: "laid os b B \<Longrightarrow> B b = Some (page_bytes 4096)"
  by (simp add: laid_def)

lemma laid_upd: "laid os b B \<Longrightarrow> B p = None \<Longrightarrow> laid os b (B(p \<mapsto> xs))"
  by (auto simp: laid_def locals_ok_def)

lemma free_rule:
  assumes "free_ok V os" "B a \<noteq> None" "C a = Some (length (the (B a)))" "Q (Val ()) (B(a := None), v, None, C(a := None), N)"
  shows "run_to V (effect (os_free os a)) (B, v, e, C, N) Q"
  using assms by (auto intro!: run_free)

lemma run_test_mdp1:
  assumes "documented V packed_header demand os" "laid os b B" "expanded_only False b v"
    "malloc_ok V 24 os" "free_ok V os" "N \<le> 2 ^ 39"
  shows "run_to V (test_mdp1 os b 4096) (B, v, e, C, N) 
    (\<lambda>r s. \<exists>C'. body_ok os b True C' r s \<and> fst C' b = C b)"
proof -
  note page = laid_at [OF assms(2)]
  have off: "\<not> pen v (table_of b)" using assms(3) by (simp add: expanded_only_def)
  show ?thesis
  unfolding test_mdp1_def Let_def
  apply (rule run_seq run_timed run_call_1 run_enable [OF assms(1)])+
   apply (simp add: off)
  apply simp
  apply (rule run_give, simp)
  apply (rule run_bind run_malloc_laid [OF assms(4) _ assms(2)])+
   apply (use assms(6) in simp)
  apply simp
  apply (rule test_rules payload_part_rules header_part_rules set_structured_rule [OF assms(1)] | simp add: test3_message read_header_bytes page)+
  apply (rule run_malloc_laid [OF assms(4), where b = b])
   apply (use assms(6) in simp)
  apply (rule laid_upd [OF assms(2)], assumption)
  apply (simp only: print_payload_def)
  apply (rule test_rules payload_part_rules header_part_rules get_rule [OF assms(1)] free_rule [OF assms(5)] | simp add: read_header_bytes page split: if_splits)+
  apply (use assms(2,3) in \<open>simp add: body_ok_def expanded_only_def fun_upd_idem\<close>)
  done
qed

lemma run_get_without_expansion:
  assumes "documented V L demand os" "laid os b B" "expanded_only False b v"
  shows "run_to V (test_get_without_expansion os b 4096) (B, v, e, C) (body_ok os b False C)"
  unfolding test_get_without_expansion_def Let_def
  by (rule test_rules run_get_none [OF assms(1)]
     | use assms(2,3) in \<open>simp add: laid_def locals_ok_def expanded_only_def body_ok_def\<close>)+

lemma run_disable_without_enable:
  assumes "documented V L demand os" "laid os b B" "expanded_only False b v"
  shows "run_to V (test_disable_without_enable os b 4096) (B, v, e, C) (body_ok os b False C)"
  unfolding test_disable_without_enable_def Let_def
  by (rule test_rules run_disable [OF assms(1)]
     | use assms(2,3) in \<open>simp add: laid_def locals_ok_def expanded_only_def body_ok_def\<close>)+

lemma run_double_enable:
  assumes "documented V L demand os" "laid os b B" "expanded_only False b v"
  shows "run_to V (test_double_enable_error os b 4096) (B, v, e, C) (body_ok os b False C)"
  unfolding test_double_enable_error_def Let_def
  by (rule test_rules run_enable [OF assms(1)] run_disable [OF assms(1)]
     | use assms(2,3) in \<open>simp add: laid_def locals_ok_def expanded_only_def body_ok_def\<close>)+

lemma run_enable_disable_cycle:
  assumes "documented V L demand os" "laid os b B" "expanded_only False b v"
  shows "run_to V (test_enable_disable_cycle os b 4096) (B, v, e, C) (body_ok os b False C)"
  unfolding test_enable_disable_cycle_def Let_def pfor.simps
  by (rule test_rules run_enable [OF assms(1)] run_disable [OF assms(1)]
     | use assms(2,3) in \<open>simp add: laid_def locals_ok_def expanded_only_def body_ok_def\<close>)+

lemma run_timing_comparison:
  assumes "documented V L True os" "laid os b B" "expanded_only False b v"
  shows "run_to V (test_timing_comparison os b 4096) (B, v, e, C) (body_ok os b True C)"
  unfolding test_timing_comparison_def Let_def
  by (rule test_rules set_direct_rule [OF assms(1)] get_rule [OF assms(1)]
     | use assms(2,3) in \<open>simp add: laid_def locals_ok_def expanded_only_def body_ok_def\<close>)+

lemma run_timing_comparison_fails:
  assumes "documented V L False os" "laid os b B" "expanded_only False b v"
  shows "run_to V (test_timing_comparison os b 4096) (B, v, e, C) (\<lambda>r s. r = Exited 1)"
  unfolding test_timing_comparison_def Let_def
  by (rule test_rules set_direct_rule [OF assms(1)] get_rule [OF assms(1)]
     | use assms(2,3) in \<open>simp add: laid_def locals_ok_def expanded_only_def\<close>)+

lemma run_iteration:
  assumes "documented V L demand os" "laid os b B" "expanded_only True b v"
  shows "run_to V (iteration os b i) (B, v, e, C) (body_ok os b True C)"
  unfolding iteration_def Let_def
  by (rule test_rules set_direct_rule [OF assms(1)] get_rule [OF assms(1)] allI
     | use assms(2,3) in \<open>simp add: laid_def locals_ok_def expanded_only_def body_ok_def opened_def\<close>)+

section \<open>The whole tests\<close>

lemma laid_setup:
  assumes "memalign_ok V where_to 4096 os" "libc_ok V os" "N \<le> 2 ^ 40" "locals_ok os B" "\<forall>t. \<not> pen v t"
    and "\<And>b B' C'. laid os b B' \<Longrightarrow> expanded_only False b v \<Longrightarrow> C' b = Some 4096 \<Longrightarrow>
      run_to V (f b) (B', v, None, C', N + 4096) Q"
  shows "run_to V (pbind (setup_page os chk) f) (B, v, e, C, N) Q"
  by (rule run_bind run_setup_page [OF assms(1,2,3)])+
    (use assms in \<open>simp add: laid_page expanded_only_def\<close>)

text \<open>After the body, a test that expanded the table collapses it, and all release the page.\<close>

lemma run_close:
  assumes "documented V L demand os" "libc_ok V os" "laid os b B" "expanded_only True b v" "C b = Some n"
  shows "run_to V (pseq (disable_timed os b) (pseq (verify_pattern b 4096) (release_page os b)))
    (B, v, e, C, N) passed"
  unfolding disable_timed_def
  by (rule test_rules run_disable [OF assms(1)] run_release_page [OF assms(2)]
     | use assms(3-5) in \<open>simp add: laid_at expanded_only_def passed_def\<close>)+

lemma run_leave:
  assumes "libc_ok V os" "laid os b B" "expanded_only False b v" "C b = Some n"
  shows "run_to V (release_page os b) (B, v, e, C, N) passed"
    "run_to V (pseq (verify_pattern b 4096) (release_page os b)) (B, v, e, C, N) passed"
  by (rule test_rules run_release_page [OF assms(1)]
     | use assms(2-4) in \<open>simp add: laid_at expanded_only_def passed_def\<close>)+

lemma body_then:
  assumes "run_to V p s (body_ok os b on (C, N))"
    and "\<And>B' v' e'. laid os b B' \<Longrightarrow> expanded_only on b v' \<Longrightarrow> run_to V q (B', v', e', C, N) Q"
  shows "run_to V (pseq p q) s Q"
  by (rule run_seq, rule run_mono [OF assms(1)]) (use assms(2) in \<open>auto simp: body_ok_def\<close>)

lemma run_single_page_tests:
  assumes "documented V L demand os" "memalign_ok V where_to 4096 os" "libc_ok V os"
    "N \<le> 2 ^ 38" "locals_ok os B" "\<forall>t. \<not> pen v t"
    and test: "main \<in> {test1_main, test2_main, test4_main, test6_main, test7_main}"
  shows "run_to V (main os) (B, v, e, C, N) passed"
proof -
  have ps: "os_pagesize os = 4096" "free_ok V os" using assms(3) by (simp_all add: libc_ok_def)
  have N: "N \<le> 2 ^ 40" using assms(4) by simp
  note begins = laid_setup [OF assms(2,3) N assms(5,6)]
  note defs = test1_main_def test2_main_def test3_main_def test4_main_def test6_main_def test7_main_def ps(1)
  from test show ?thesis
  proof (elim insertE emptyE)
    assume "main = test1_main"
    then show ?thesis by (auto simp: defs intro!: begins intro: run_leave [OF assms(3)])
  next
    assume "main = test2_main"
    then show ?thesis
      by (auto simp: defs intro!: begins body_then [OF run_test_mdp0 [OF assms(1)]] intro: run_close [OF assms(1,3)])
  next
    assume "main = test4_main"
    then show ?thesis
      by (auto simp: defs intro!: begins body_then [OF run_get_without_expansion [OF assms(1)]] intro: run_leave [OF assms(3)])
  next
    assume "main = test6_main"
    then show ?thesis
      by (auto simp: defs intro!: begins body_then [OF run_enable_disable_cycle [OF assms(1)]]
          body_then [OF run_double_enable [OF assms(1)]] intro: run_leave [OF assms(3)])
  next
    assume "main = test7_main"
    then show ?thesis
      by (auto simp: defs intro!: begins body_then [OF run_disable_without_enable [OF assms(1)]] intro: run_leave [OF assms(3)])
  qed
qed

lemma run_test3:
  assumes "documented V packed_header demand os" "memalign_ok V where_to 4096 os" "malloc_ok V 24 os" "libc_ok V os"
    "N \<le> 2 ^ 38" "locals_ok os B" "\<forall>t. \<not> pen v t"
  shows "run_to V (test3_main os) (B, v, e, C, N) passed"
proof -
  have ps: "os_pagesize os = 4096" "free_ok V os" using assms(4) by (simp_all add: libc_ok_def)
  have N: "N \<le> 2 ^ 40" using assms(5) by simp
  show ?thesis unfolding test3_main_def ps(1)
  proof (rule laid_setup [OF assms(2,4) N assms(6,7)])
    fix b B' and C' :: "u64 \<Rightarrow> nat option"
    assume l: "laid os b B'" "expanded_only False b v" "C' b = Some 4096"
    have "N + 4096 \<le> 2 ^ 39" using assms(5) by simp
    note body = run_test_mdp1 [OF assms(1) l(1,2) assms(3) ps(2) this]
    show "run_to V (pseq (test_mdp1 os b 4096)
        (pseq (disable_timed os b) (pseq (verify_pattern b 4096) (release_page os b)))) (B', v, None, C', N + 4096) passed"
      by (rule run_seq, rule run_mono [OF body]) (use l(3) in \<open>auto simp: body_ok_def intro: run_close [OF assms(1,4)]\<close>)
  qed
qed

text \<open>A kernel that reads the header of the README takes the second half of the payload for the
  length.\<close>

lemma read_beyond:
  assumes "card (dom m) < n" "n \<le> 2 ^ 32"
  shows "read_bytes m a n = None"
proof (rule ccontr)
  assume "read_bytes m a n \<noteq> None"
  then have "area a n \<subseteq> dom m" using read_area by blast
  then have "card (area a n) \<le> card (dom m)" by (rule card_mono [OF finite])
  moreover have "inj_on (\<lambda>k. a + of_nat k) {..<n}"
    using assms(2) small_inj by (intro inj_onI) auto
  then have "card (area a n) = n" by (simp add: area_def card_image)
  ultimately show False using assms(1) by simp
qed

lemma test3_as_readme: "le_value (take 4 (drop 8 (take 16 (header_bytes test3_header @ test3_payload)))) = 0xEFBEADDE"
  by code_simp

lemma run_set_refused:
  assumes "documented V readme_header demand os" "B src = Some (header_bytes test3_header @ test3_payload)"
    and "pen v (table_of a)" "N < 0xEFBEADDE" "Q (Val (- 1)) (B, v, Some 14, C, N)"
  shows "run_to V (syscall os SYS_set_pte_meta [a, 1, src]) (B, v, e, C, N) Q"
proof -
  let ?bs = "header_bytes test3_header @ test3_payload"
  have "user_metadata readme_header m 1 src = None" if "holds m B" "card (dom m) \<le> N" for m
  proof -
    have "read_bytes m src (length ?bs) = Some ?bs" using holds_read [OF that(1) assms(2)] .
    from read_prefix [OF this, of 16] have "read_bytes m src 16 = Some (take 16 ?bs)" by simp
    moreover have "unat (le_value (take 4 (drop 8 (take 16 ?bs)))) = 0xEFBEADDE" by (simp only: test3_as_readme) simp
    moreover have "read_bytes m src (16 + 0xEFBEADDE) = None" using that(2) assms(4) by (intro read_beyond) simp_all
    ultimately show ?thesis by (simp add: user_metadata_def readme_header_def)
  qed
  then have "spec_call readme_header demand 471 [a, 1, src] m v = (- 14, m, v)"
    if "holds m B" "card (dom m) \<le> N" for m
    using assms(3) that by (simp add: spec_call_def spec_set_def)
  from run_call [OF assms(1) this, where e = e and C = "(C, N)" and Q = Q] assms(5) show ?thesis by simp
qed

lemma run_test3_refused:
  assumes "documented V readme_header demand os" "memalign_ok V where_to 4096 os" "malloc_ok V 24 os" "libc_ok V os"
    "N \<le> 2 ^ 31" "locals_ok os B" "\<forall>t. \<not> pen v t"
  shows "run_to V (test3_main os) (B, v, e, C, N) (\<lambda>r s. r = Exited 1)"
proof -
  have ps: "os_pagesize os = 4096" using assms(4) by (simp add: libc_ok_def)
  have N: "N \<le> 2 ^ 40" using assms(5) by simp
  show ?thesis unfolding test3_main_def ps
  proof (rule laid_setup [OF assms(2,4) N assms(6,7)])
    fix b B' and C' :: "u64 \<Rightarrow> nat option"
    assume l: "laid os b B'" "expanded_only False b v"
    have off: "\<not> pen v (table_of b)" using l(2) by (simp add: expanded_only_def)
    show "run_to V (pseq (test_mdp1 os b 4096)
        (pseq (disable_timed os b) (pseq (verify_pattern b 4096) (release_page os b)))) (B', v, None, C', N + 4096)
        (\<lambda>r s. r = Exited 1)"
      unfolding test_mdp1_def Let_def
      apply (rule run_seq run_timed run_call_1 run_enable [OF assms(1)])+
       apply (simp add: off)
      apply simp
      apply (rule run_give, simp)
      apply (rule run_bind run_malloc_laid [OF assms(3) _ l(1)])+
       apply (use assms(5) in simp)
      apply simp
      apply (rule test_rules payload_part_rules header_part_rules | simp add: test3_message)+
      apply (rule run_set_refused [OF assms(1)])
         apply (use assms(5) in \<open>simp_all add: fresh_table_def run_die\<close>)
      done
  qed
qed

lemma run_test8:
  assumes "documented V L True os" "memalign_ok V where_to 4096 os" "libc_ok V os"
    "N \<le> 2 ^ 38" "locals_ok os B" "\<forall>t. \<not> pen v t"
  shows "run_to V (test8_main os) (B, v, e, C, N) passed"
proof -
  have ps: "os_pagesize os = 4096" using assms(3) by (simp add: libc_ok_def)
  have N: "N \<le> 2 ^ 40" using assms(4) by simp
  show ?thesis
    by (auto simp: test8_main_def ps intro!: laid_setup [OF assms(2,3) N assms(5,6)]
        body_then [OF run_timing_comparison [OF assms(1)]] intro: run_close [OF assms(1,3)])
qed

lemma run_test8_fails:
  assumes "documented V L False os" "memalign_ok V where_to 4096 os" "libc_ok V os"
    "N \<le> 2 ^ 38" "locals_ok os B" "\<forall>t. \<not> pen v t"
  shows "run_to V (test8_main os) (B, v, e, C, N) (\<lambda>r s. r = Exited 1)"
proof -
  have ps: "os_pagesize os = 4096" using assms(3) by (simp add: libc_ok_def)
  have N: "N \<le> 2 ^ 40" using assms(4) by simp
  show ?thesis
    unfolding test8_main_def ps
    by (rule laid_setup [OF assms(2,3) N assms(5,6)], rule run_seq,
        rule run_mono [OF run_timing_comparison_fails [OF assms(1)]]) auto
qed

lemma run_print_stats: "Q (Val ()) s \<Longrightarrow> run_to V (print_stats4 w x) s Q"
  "Q (Val ()) s \<Longrightarrow> run_to V (print_summary us vs) s Q"
  unfolding print_stats4_def print_summary_def Let_def
  by (auto intro!: run_seq run_print split: prod.splits)

lemma run_enable_body:
  assumes "documented V L demand os" "laid os b B" "expanded_only False b v"
  shows "run_to V (timed os l (call_or_die_1 os 469 b)) (B, v, e, C) (body_ok os b True C)"
  by (rule test_rules run_enable [OF assms(1)] | use assms(2,3) in \<open>simp add: expanded_only_def body_ok_def\<close>)+

lemma run_test9:
  assumes "documented V L demand os" "memalign_ok V where_to 4096 os" "libc_ok V os"
    "N \<le> 2 ^ 38" "locals_ok os B" "\<forall>t. \<not> pen v t"
  shows "run_to V (test9_main os) (B, v, e, C, N) passed"
proof -
  have ps: "os_pagesize os = 4096" using assms(3) by (simp add: libc_ok_def)
  have N: "N \<le> 2 ^ 40" using assms(4) by simp
  have loop: "run_to V (pbind (pmap (iteration os b) is) f) (B', v', e', C', N') Q"
    if "laid os b B'" "expanded_only True b v'"
      "\<And>ts B'' v'' e''. laid os b B'' \<Longrightarrow> expanded_only True b v'' \<Longrightarrow> run_to V (f ts) (B'', v'', e'', C', N') Q"
    for b B' v' e' C' N' f Q "is"
    by (rule run_bind, rule run_pmap [where I = "\<lambda>(B, v, e, D). laid os b B \<and> expanded_only True b v \<and> D = (C', N')"])
      (use that in \<open>auto simp: body_ok_def intro!: run_mono [OF run_iteration [OF assms(1)]]\<close>)
  show ?thesis
    unfolding test9_main_def ps
  proof (rule laid_setup [OF assms(2,3) N assms(5,6)])
    fix b B' and C' :: "u64 \<Rightarrow> nat option"
    assume l: "laid os b B'" "expanded_only False b v" "C' b = Some 4096"
    show "run_to V (pseq (timed os ''enable_pte_meta'' (call_or_die_1 os 469 b))
        (pbind (pmap (iteration os b) [0..<ITERATIONS]) (\<lambda>ts.
         let set_times = map fst ts; get_times = map snd ts in
         pseq (print_stats4 ''Set PTE Meta '' (calculate_stats set_times))
        (pseq (print_stats4 ''Get PTE Meta '' (calculate_stats get_times))
        (pseq (print_summary set_times get_times)
        (pseq (disable_timed os b) (pseq (verify_pattern b 4096) (release_page os b)))))))) (B', v, None, C', N + 4096) passed"
      unfolding Let_def
      by (rule body_then [OF run_enable_body [OF assms(1) l(1,2)]], rule loop, assumption, assumption,
          (rule run_seq, rule run_print_stats, simp only: then_run_simps)+, rule run_close [OF assms(1,3)], assumption, assumption, rule l(3))
  qed
qed

section \<open>Four pages\<close>

lemma run_weaken: "(\<And>M. rel V s M \<Longrightarrow> rel V s' M) \<Longrightarrow> run_to V p s' Q \<Longrightarrow> run_to V p s Q"
  unfolding run_to_def by blast

lemma read_split:
  assumes "read_bytes m a (length (bs @ cs)) = Some (bs @ cs)"
  shows "read_bytes m a (length bs) = Some bs" "read_bytes m (a + of_nat (length bs)) (length cs) = Some cs"
proof -
  show "read_bytes m a (length bs) = Some bs" using assms by (auto simp: read_bytes_Some nth_append)
  have "m (a + of_nat (length bs + k)) = Some (cs ! k)" if "k < length cs" for k
    using assms that by (auto simp: read_bytes_Some nth_append_length_plus simp del: of_nat_add)
  then show "read_bytes m (a + of_nat (length bs)) (length cs) = Some cs"
    by (simp add: read_bytes_Some add.assoc)
qed

lemma area_split: "area a (n + k) = area a n \<union> area (a + of_nat n) k"
proof -
  have "i < n \<or> i \<in> (\<lambda>i. n + i) ` {..<k}" if "i < n + k" for i
  proof (cases "i < n")
    case False
    then show ?thesis using that by (intro disjI2 image_eqI [of _ _ "i - n"]) auto
  qed simp
  then have "{..<n + k} = {..<n} \<union> (\<lambda>i. n + i) ` {..<k}" by fastforce
  then show ?thesis by (simp add: area_def image_Un image_image add.assoc)
qed

lemma areas_apart:
  assumes "n + k \<le> 2 ^ 32"
  shows "area a n \<inter> area (a + of_nat n) k = {}"
proof -
  have "i = n + j" if "i < n" "j < k" "a + of_nat i = a + of_nat n + (of_nat j :: u64)" for i j
  proof -
    have "a + of_nat i = a + (of_nat (n + j) :: u64)" using that(3) by (simp add: add.assoc)
    then have "(of_nat i :: u64) = of_nat (n + j)" by (rule add_left_imp_eq)
    then show ?thesis using small_inj [of i "n + j"] that assms by simp
  qed
  then show ?thesis by (fastforce simp: area_def)
qed

lemma holds_inner_free:
  assumes "holds m B" "B a = Some (bs @ cs)" "bs \<noteq> []" "cs \<noteq> []"
  shows "B (a + of_nat (length bs)) = None"
proof (rule ccontr)
  let ?c = "a + of_nat (length bs) :: u64"
  assume "B ?c \<noteq> None"
  then obtain ds where ds: "B ?c = Some ds" by auto
  have len: "length bs + length cs \<le> 2 ^ 32"
    using assms(1,2) unfolding holds_def by (metis length_append)
  have "a + of_nat 0 \<in> area a (length bs)" "?c + of_nat 0 \<in> area ?c (length cs)"
    using assms(3,4) unfolding area_def by blast+
  then have c: "a \<noteq> ?c" "?c \<in> area a (length (bs @ cs))" using areas_apart [OF len, of a] by (auto simp: area_split)
  have "?c + of_nat 0 \<in> area ?c (length ds)"
    using assms(1) ds unfolding holds_def area_def by blast
  moreover have "area a (length (bs @ cs)) \<inter> area ?c (length ds) = {}"
    using assms(1,2) ds c(1) unfolding holds_def by metis
  ultimately show False using c(2) by auto
qed

lemma holds_split:
  assumes "holds m B" "B a = Some (bs @ cs)" "bs \<noteq> []" "cs \<noteq> []"
  shows "holds m (B(a \<mapsto> bs, a + of_nat (length bs) \<mapsto> cs))"
proof -
  let ?c = "a + of_nat (length bs) :: u64"
  have len: "length bs + length cs \<le> 2 ^ 32"
    using assms(1,2) unfolding holds_def by (metis length_append)
  note read = read_split [OF holds_read [OF assms(1,2)]]
  have inside: "area a (length bs) \<subseteq> area a (length (bs @ cs))" "area ?c (length cs) \<subseteq> area a (length (bs @ cs))"
    by (auto simp: area_split)
  have "a + of_nat 0 \<in> area a (length bs)" "?c + of_nat 0 \<in> area ?c (length cs)"
    using assms(3,4) unfolding area_def by blast+
  then have ne: "a \<noteq> ?c" using areas_apart [OF len, of a] by auto
  have old: "area a (length (bs @ cs)) \<inter> area b (length ds) = {}" if "B b = Some ds" "b \<noteq> a" for b ds
    using assms(1,2) that unfolding holds_def by metis
  show ?thesis
    unfolding holds_def
  proof (intro conjI allI impI)
    fix b ds assume "(B(a \<mapsto> bs, ?c \<mapsto> cs)) b = Some ds"
    then show "ds \<noteq> []" "length ds \<le> 2 ^ 32" "read_bytes m b (length ds) = Some ds"
      using read assms(1,3,4) len by (auto simp: holds_def split: if_splits)
  next
    fix b ds c es
    assume a: "(B(a \<mapsto> bs, ?c \<mapsto> cs)) b = Some ds" "(B(a \<mapsto> bs, ?c \<mapsto> cs)) c = Some es" "b \<noteq> c"
    have sep: "area a (length bs) \<inter> area b (length ds) = {}" "area ?c (length cs) \<inter> area b (length ds) = {}"
      if "B b = Some ds" "b \<noteq> a" for b ds using old [OF that] inside by blast+
    show "area b (length ds) \<inter> area c (length es) = {}"
      using a areas_apart [OF len, of a] sep [of b ds] sep [of c es] assms(1)
      by (auto simp: holds_def Int_commute split: if_splits)
  qed
qed

text \<open>The four pages of test5, in one block as \<open>posix_memalign\<close> gives them and then each a block
  of its own, the first \<open>n\<close> of them filled.\<close>

abbreviation (input) nth_page :: "u64 \<Rightarrow> nat \<Rightarrow> u64" where "nth_page b i \<equiv> b + of_nat i * 4096"

definition four :: "'k os \<Rightarrow> u64 \<Rightarrow> nat \<Rightarrow> blocks \<Rightarrow> bool" where
  "four os b n B \<longleftrightarrow> locals_ok os B \<and>
     (\<forall>i<4. (\<exists>bs. B (nth_page b i) = Some bs \<and> length bs = 4096 \<and> (i < n \<longrightarrow> bs = page_bytes 4096)) \<and>
        nth_page b i \<noteq> os_local os 0 \<and> nth_page b i \<noteq> os_local os 1 \<and> nth_page b i \<noteq> os_local os 2)"

lemma page_of_eq:
  assumes "take_bit 12 x = 0" "take_bit 12 y = 0"
  shows "page_of x = page_of y \<longleftrightarrow> x = y"
proof
  assume "page_of x = page_of y"
  then have "push_bit 12 (drop_bit 12 x) + take_bit 12 x = push_bit 12 (drop_bit 12 y) + take_bit 12 y"
    using assms by (simp add: page_of_def)
  then show "x = y" by (simp add: bits_ident)
qed simp

lemma page_aligned: "take_bit 12 b = 0 \<Longrightarrow> take_bit 12 (nth_page b i) = (0 :: u64)"
proof -
  assume "take_bit 12 b = 0"
  then have "b = push_bit 12 (drop_bit 12 b)" using bits_ident [of 12 b] by simp
  then have "nth_page b i = push_bit 12 (drop_bit 12 b + of_nat i)"
    by (simp add: push_bit_add) (simp add: push_bit_eq_mult)
  moreover have "take_bit 12 (push_bit 12 x) = (0 :: u64)" for x by (rule bit_word_eqI) (simp add: bit_simps)
  ultimately show ?thesis by simp
qed

lemma nth_page_eq: "i < 4 \<Longrightarrow> j < 4 \<Longrightarrow> nth_page b i = nth_page b j \<longleftrightarrow> i = j"
proof -
  assume "i < 4" "j < 4"
  moreover have "nth_page b i = nth_page b j \<longleftrightarrow> (of_nat (i * 4096) :: u64) = of_nat (j * 4096)" by simp
  ultimately show ?thesis using small_inj [of "i * 4096" "j * 4096"] by simp
qed

lemma run_split:
  assumes "B a = Some (bs @ cs)" "bs \<noteq> []" "cs \<noteq> []"
    "B (a + of_nat (length bs)) = None \<Longrightarrow> run_to V p (B(a \<mapsto> bs, a + of_nat (length bs) \<mapsto> cs), v, e) Q"
  shows "run_to V p (B, v, e) Q"
proof (cases "B (a + of_nat (length bs)) = None")
  case True
  show ?thesis
    by (rule run_weaken [OF _ assms(4) [OF True]])
      (use assms(1-3) in \<open>auto simp: rel_def intro: holds_split\<close>)
next
  case False
  then have "\<not> rel V (B, v, e) M" for M
    using holds_inner_free [where B = B and a = a and bs = bs and cs = cs] assms(1-3) by (cases e) (auto simp: rel_def)
  then show ?thesis by (simp add: run_to_def)
qed

lemma run_split_pages:
  assumes "B b = Some bs" "length bs = 16384"
    and "\<And>w x y z. length w = 4096 \<Longrightarrow> length x = 4096 \<Longrightarrow> length y = 4096 \<Longrightarrow> length z = 4096 \<Longrightarrow>
      B (b + 4096) = None \<Longrightarrow> B (b + 8192) = None \<Longrightarrow> B (b + 12288) = None \<Longrightarrow>
      run_to V p (B(b \<mapsto> w, b + 4096 \<mapsto> x, b + 8192 \<mapsto> y, b + 12288 \<mapsto> z), v, e) Q"
  shows "run_to V p (B, v, e) Q"
proof -
  define w x y z where "w = take 4096 bs" and "x = take 4096 (drop 4096 bs)"
    and "y = take 4096 (drop 8192 bs)" and "z = drop 12288 bs"
  have len: "length w = 4096" "length x = 4096" "length y = 4096" "length z = 4096"
    using assms(2) by (simp_all add: w_def x_def y_def z_def)
  have d: "drop 8192 bs = y @ z" "drop 4096 bs = x @ drop 8192 bs" "bs = w @ drop 4096 bs"
    using append_take_drop_id [of 4096 "drop 8192 bs"] append_take_drop_id [of 4096 "drop 4096 bs"]
      append_take_drop_id [of 4096 bs] by (simp_all add: w_def x_def y_def z_def)
  have bs: "bs = w @ x @ y @ z" using d by simp
  have ne: "w \<noteq> []" "x \<noteq> []" "y \<noteq> []" "z \<noteq> []" using len by auto
  have at: "b + 4096 + 4096 = b + 8192" "b + 8192 + 4096 = b + 12288" by simp_all
  show ?thesis
  proof (rule run_split [where a = b and bs = w and cs = "x @ y @ z"], unfold len of_nat_numeral)
    assume B1: "B (b + 4096) = None"
    show "run_to V p (B(b \<mapsto> w, b + 4096 \<mapsto> x @ y @ z), v, e) Q"
    proof (rule run_split [where a = "b + 4096" and bs = x and cs = "y @ z"], unfold len of_nat_numeral at)
      assume "(B(b \<mapsto> w, b + 4096 \<mapsto> x @ y @ z)) (b + 8192) = None"
      then have B2: "B (b + 8192) = None" by (simp split: if_splits)
      have "run_to V p (B(b \<mapsto> w, b + 4096 \<mapsto> x, b + 8192 \<mapsto> y @ z), v, e) Q"
      proof (rule run_split [where a = "b + 8192" and bs = y and cs = z], unfold len of_nat_numeral at)
        assume "(B(b \<mapsto> w, b + 4096 \<mapsto> x, b + 8192 \<mapsto> y @ z)) (b + 12288) = None"
        then have "B (b + 12288) = None" by (simp split: if_splits)
        then show "run_to V p (B(b \<mapsto> w, b + 4096 \<mapsto> x, b + 8192 \<mapsto> y @ z, b + 8192 \<mapsto> y, b + 12288 \<mapsto> z), v, e) Q"
          using assms(3) [OF len B1 B2] by simp
      qed (simp_all add: ne)
      then show "run_to V p (B(b \<mapsto> w, b + 4096 \<mapsto> x @ y @ z, b + 4096 \<mapsto> x, b + 8192 \<mapsto> y @ z), v, e) Q"
        by simp
    qed (simp_all add: ne)
  qed (simp_all add: assms(1) bs ne)
qed

lemma less_4: "(i :: nat) < 4 \<longleftrightarrow> i = 0 \<or> i = 1 \<or> i = 2 \<or> i = 3"
  by auto

lemma four_start:
  assumes "locals_ok os B" "B b = None" "B (b + 4096) = None" "B (b + 8192) = None" "B (b + 12288) = None"
    "length w = 4096" "length x = 4096" "length y = 4096" "length z = 4096"
  shows "four os b 0 (B(b \<mapsto> w, b + 4096 \<mapsto> x, b + 8192 \<mapsto> y, b + 12288 \<mapsto> z))"
proof -
  have "p \<noteq> os_local os 0 \<and> p \<noteq> os_local os 1 \<and> p \<noteq> os_local os 2" if "B p = None" for p
    using assms(1) that by (auto simp: locals_ok_def)
  from this [OF assms(2)] this [OF assms(3)] this [OF assms(4)] this [OF assms(5)]
  show ?thesis using assms(1,6-9) by (auto simp: four_def locals_ok_def less_4)
qed

lemma four_fill:
  assumes "four os b n B" "n < 4"
  shows "four os b (Suc n) (B(nth_page b n \<mapsto> page_bytes 4096))"
proof -
  have "(B(nth_page b n \<mapsto> page_bytes 4096)) (nth_page b i) =
      (if i = n then Some (page_bytes 4096) else B (nth_page b i))" if "i < 4" for i
    using nth_page_eq [OF that assms(2), of b] by simp
  moreover have "locals_ok os (B(nth_page b n \<mapsto> page_bytes 4096))"
    using assms by (auto simp: four_def locals_ok_def)
  ultimately show ?thesis using assms by (auto simp: four_def less_Suc_eq)
qed

lemma run_fill_pages:
  assumes "four os b 0 B" "os_pagesize os = 4096" "\<And>B'. four os b 4 B' \<Longrightarrow> Q (Val ()) (B', v, e)"
  shows "run_to V (pfor (\<lambda>i. fill (test5_pages os b i) 4096) [0..<4]) (B, v, e) Q"
proof (rule run_pfor [where I = "\<lambda>k (B', v', e'). four os b k B' \<and> v' = v \<and> e' = e"])
  fix k s' assume k: "k < length [0..<4::nat]" and "case s' of (B', v', e') \<Rightarrow> four os b k B' \<and> v' = v \<and> e' = e"
  then obtain B' where s: "s' = (B', v, e)" and f: "four os b k B'" by auto
  obtain bs where bs: "B' (nth_page b k) = Some bs" "length bs = 4096" using f k unfolding four_def by auto
  show "run_to V (fill (test5_pages os b ([0..<4] ! k)) 4096) s'
      (\<lambda>r s''. r = Val () \<and> (case s'' of (B', v', e') \<Rightarrow> four os b (Suc k) B' \<and> v' = v \<and> e' = e))"
    unfolding s using k bs four_fill [OF f] by (auto simp: test5_pages_def assms(2) intro!: run_fill)
qed (use assms in auto)

lemma run_verify_pages:
  assumes "four os b 4 B" "os_pagesize os = 4096" "Q (Val ()) (B, v, e)"
  shows "run_to V (verify_pages (test5_pages os b) 4096) (B, v, e) Q"
  unfolding verify_pages_def
proof (rule run_pfor [where I = "\<lambda>k s. s = (B, v, e)"])
  fix k s' assume k: "k < length [0..<4::nat]" and s: "s' = (B, v, e)"
  have "B (nth_page b k) = Some (page_bytes 4096)" using assms(1) k by (auto simp: four_def)
  then show "run_to V (verify_pattern (test5_pages os b ([0..<4] ! k)) 4096) s' (\<lambda>r s''. r = Val () \<and> s'' = (B, v, e))"
    unfolding s using k by (auto simp: test5_pages_def assms(2) intro!: run_verify)
qed (use assms in auto)

definition set_upto :: "u64 \<Rightarrow> nat \<Rightarrow> kview \<Rightarrow> bool" where
  "set_upto b k v \<longleftrightarrow> (\<forall>j<k. stored v (page_of (nth_page b j)) = Some (le_bytes 8 (page_value j)))"

definition one_table :: "u64 \<Rightarrow> bool" where
  "one_table b \<longleftrightarrow> (\<forall>i<4. table_of (nth_page b i) = table_of b)"

lemma four_simps:
  assumes "four os b 4 B" "i < 4"
  shows "B (nth_page b i) = Some (page_bytes 4096)"
    "nth_page b i \<noteq> os_local os 0" "nth_page b i \<noteq> os_local os 1" "nth_page b i \<noteq> os_local os 2"
  using assms by (auto simp: four_def)

lemma four_local: "four os b 4 B \<Longrightarrow> length xs = 8 \<Longrightarrow> k \<in> {0, 1, 2} \<Longrightarrow> four os b 4 (B(os_local os k \<mapsto> xs))"
  by (auto simp: four_def locals_ok_def)

lemma set_upto_Suc:
  assumes "take_bit 12 b = 0" "set_upto b k v" "k < 4"
  shows "set_upto b (Suc k) (v\<lparr>stored := (stored v)(page_of (nth_page b k) \<mapsto> le_bytes 8 (page_value k))\<rparr>)"
proof -
  have "page_of (nth_page b j) \<noteq> page_of (nth_page b k)" if "j < k" for j
    using page_of_eq [OF page_aligned page_aligned] assms nth_page_eq [of j k b] that by simp
  then show ?thesis using assms(2) by (auto simp: set_upto_def less_Suc_eq)
qed

lemma expanded_update [simp]: "expanded_only on b (v\<lparr>stored := f\<rparr>) = expanded_only on b v"
  by (simp add: expanded_only_def)

definition pages_inv :: "'k os \<Rightarrow> u64 \<Rightarrow> nat \<Rightarrow> (u64 \<Rightarrow> nat option) \<times> nat \<Rightarrow> pstate \<Rightarrow> bool" where
  "pages_inv os b k C = (\<lambda>(B, v, e, C'). four os b 4 B \<and> expanded_only True b v \<and> set_upto b k v \<and>
     (\<forall>j<k. table_of (nth_page b j) = table_of b) \<and> C' = C)"

lemma run_set_page:
  assumes "documented V L demand os" "take_bit 12 b = 0" and ps: "os_pagesize os = 4096"
    and "one_table b \<or> \<not> demand" "pages_inv os b k C s" and k: "k < 4"
  shows "run_to V (set_page os (test5_pages os b) 4096 k) s
     (\<lambda>r s'. r = Val () \<and> pages_inv os b (Suc k) C s' \<or> r = Exited 1 \<and> \<not> one_table b)"
proof -
  obtain B v e where s: "s = (B, v, e, C)" and f: "four os b 4 B" and on: "expanded_only True b v"
    and upto: "set_upto b k v" and tab: "\<forall>j<k. table_of (nth_page b j) = table_of b"
    using assms(5) by (cases s) (auto simp: pages_inv_def)
  let ?B = "B(os_local os 0 \<mapsto> le_bytes 8 (page_value k))"
  have f2: "four os b 4 ?B" by (rule four_local [OF f]) simp_all
  have here: "pen v (table_of (nth_page b k)) \<longleftrightarrow> table_of (nth_page b k) = table_of b"
    and base: "pen v (table_of b)"
    using on by (simp_all add: expanded_only_def)
  have op: "opened (nth_page b k) v = v" if "table_of (nth_page b k) = table_of b"
    using that here by (simp add: opened_def)
  have l0: "B (os_local os 0) \<noteq> None" "length (the (B (os_local os 0))) = 8"
    using f by (simp_all add: four_def locals_ok_def)
  have same: "one_table b \<Longrightarrow> table_of (nth_page b k) = table_of b" using k by (simp add: one_table_def)
  show ?thesis
  proof (cases "table_of (nth_page b k) = table_of b")
    case True
    show ?thesis
      unfolding s set_page_def test5_pages_def ps Let_def
      by (rule test_rules set_direct_rule [OF assms(1)]
        | simp add: l0 four_simps [OF f2 k] f2 op True on here base pages_inv_def set_upto_Suc [OF assms(2) upto k]
            less_Suc_eq tab del: fun_upd_apply | simp)+
  next
    case False
    then have "\<not> one_table b" "\<not> demand" using same assms(4) by auto
    then show ?thesis
      unfolding s set_page_def test5_pages_def ps Let_def
      by - (rule test_rules set_direct_rule [OF assms(1)] | simp add: l0 here False del: fun_upd_apply | simp)+
  qed
qed

lemma run_get_page:
  assumes "documented V L demand os" and ps: "os_pagesize os = 4096" and "pages_inv os b 4 C s" and k: "k < 4"
  shows "run_to V (check_page os (test5_pages os b) 4096 k) s
     (\<lambda>r s'. r = Val () \<and> pages_inv os b 4 C s')"
proof -
  obtain B v e where s: "s = (B, v, e, C)" and f: "four os b 4 B" and on: "expanded_only True b v"
    and upto: "set_upto b 4 v" and tab: "\<forall>j<4. table_of (nth_page b j) = table_of b"
    using assms(3) by (cases s) (auto simp: pages_inv_def)
  let ?B = "B(os_local os 1 \<mapsto> le_bytes 8 (page_value k))"
  have f2: "four os b 4 ?B" by (rule four_local [OF f]) simp_all
  have here: "pen v (table_of (nth_page b k))" using on tab k by (simp add: expanded_only_def)
  have st: "stored v (page_of (nth_page b k)) = Some (le_bytes 8 (page_value k))" using upto k by (simp add: set_upto_def)
  have l1: "B (os_local os 1) \<noteq> None" "length (the (B (os_local os 1))) = 8"
    using f by (simp_all add: four_def locals_ok_def)
  show ?thesis
    unfolding s check_page_def test5_pages_def ps Let_def
    by (rule test_rules get_rule [OF assms(1)]
      | simp add: l1 [unfolded One_nat_def] four_simps [OF f2 k, unfolded One_nat_def] f2 [unfolded One_nat_def] on here st pages_inv_def upto tab del: fun_upd_apply | simp)+
qed

lemma pages_invD:
  assumes "pages_inv os b 4 C (B, v, e, C')"
  shows "four os b 4 B" "expanded_only True b v" "one_table b" "C' = C"
  using assms by (auto simp: pages_inv_def one_table_def)

lemma run_multiple_pages:
  assumes "documented V L demand os" "take_bit 12 b = 0" and ps: "os_pagesize os = 4096"
    and "one_table b \<or> \<not> demand" "four os b 4 B" "expanded_only False b v"
  shows "run_to V (test_multiple_pages os (test5_pages os b) 4096) (B, v, e, C)
    (\<lambda>r s. if one_table b then r = Val () \<and> pages_inv os b 4 C s else r = Exited 1)"
proof -
  have get: "run_to V (pfor (check_page os (test5_pages os b) 4096) [0..<4]) s'
     (\<lambda>r s'. r = Val () \<and> pages_inv os b 4 C s')" if "pages_inv os b 4 C s'" for s'
    by (rule run_pfor [where I = "\<lambda>k. pages_inv os b 4 C"]) (use that run_get_page [OF assms(1) ps] in auto)
  have set: "run_to V (pfor (set_page os (test5_pages os b) 4096) [0..<4]) s'
     (\<lambda>r s'. r = Val () \<and> pages_inv os b 4 C s' \<or> r = Exited 1 \<and> \<not> one_table b)" if "pages_inv os b 0 C s'" for s'
    by (rule run_pfor_exits [where I = "\<lambda>k. pages_inv os b k C"])
      (use that in \<open>auto elim!: run_mono intro: run_mono [OF run_set_page [OF assms(1,2) ps assms(4)]]\<close>)
  have p0: "test5_pages os b 0 = b" by (simp add: test5_pages_def)
  have enable: "run_to V (timed os ''enable_pte_meta'' (call_or_die_1 os 469 b)) (B, v, e, C) (\<lambda>r s. r = Val () \<and> pages_inv os b 0 C s)"
    by (rule test_rules run_enable [OF assms(1)]
      | use assms(5,6) in \<open>simp add: expanded_only_def pages_inv_def set_upto_def\<close>)+
  have one: "pages_inv os b 4 C s' \<Longrightarrow> one_table b" for s' by (cases s') (auto dest: pages_invD(3))
  show ?thesis
    unfolding test_multiple_pages_def p0
    by (rule run_seq, rule run_mono [OF enable], elim conjE, simp only: then_run_simps,
        rule run_seq, rule run_mono [OF set], assumption)
      (auto intro!: run_mono [OF get] dest: one)
qed

lemma run_close_pages:
  assumes "documented V L demand os" "libc_ok V os" "four os b 4 B" "expanded_only True b v" "C b = Some n"
  shows "run_to V (pseq (disable_timed os b) (pseq (verify_pages (test5_pages os b) 4096)
      (pseq (effect (os_munlock os b 16384)) (pseq (effect (os_free os b)) (give 0))))) (B, v, e, C, N) passed"
proof -
  have ps: "os_pagesize os = 4096" "free_ok V os" "\<And>a n. harmless V (os_munlock os a n)"
    using assms(2) by (simp_all add: libc_ok_def)
  show ?thesis
    unfolding disable_timed_def
    by (rule test_rules run_disable [OF assms(1)] run_effect [OF ps(3)] run_forget [where n = n, OF ps(2)]
        run_verify_pages [OF assms(3) ps(1)]
      | use assms(4,5) in \<open>simp add: expanded_only_def passed_def\<close>)+
qed

lemma run_test5_run:
  assumes "documented V L demand os" "libc_ok V os" "four os b 0 B" "expanded_only False b v" "take_bit 12 b = 0"
    "C b = Some n" "one_table b \<or> \<not> demand"
  shows "run_to V (test5_run os b) (B, v, e, C, N) (\<lambda>r s. if one_table b then passed r s else r = Exited 1)"
proof -
  have ps: "os_pagesize os = 4096" "\<And>a n. harmless V (os_mlock os a n)"
    using assms(2) by (simp_all add: libc_ok_def)
  have p0: "test5_pages os b 0 = b" by (simp add: test5_pages_def)
  have sz: "(4096 :: u64) * of_nat 4 = 16384" by simp
  note body = run_multiple_pages [OF assms(1,5) ps(1) assms(7) _ assms(4)]
  show ?thesis
    unfolding test5_run_def Let_def ps(1) sz p0
  proof (rule run_seq, rule run_effect [OF ps(2)], simp only: then_run_simps,
      rule run_seq, rule run_timed, rule run_fill_pages [OF assms(3) ps(1)], simp only: then_run_simps,
      rule run_seq, rule run_verify_pages [OF _ ps(1)], assumption, simp only: then_run_simps,
      rule run_seq, rule run_mono [OF body], assumption)
    fix B' r s' assume "if one_table b then r = Val () \<and> pages_inv os b 4 (C, N) s' else r = Exited 1"
    then show "then_run V (\<lambda>_. pseq (disable_timed os b) (pseq (verify_pages (test5_pages os b) 4096)
        (pseq (effect (os_munlock os b 16384)) (pseq (effect (os_free os b)) (give 0)))))
        (\<lambda>r s. if one_table b then passed r s else r = Exited 1) r s'"
      by (cases s') (auto split: if_splits dest: pages_invD
          intro!: run_close_pages [where V = V and C = C and N = N, OF assms(1,2) _ _ assms(6)])
  qed
qed

lemma run_test5:
  assumes "documented V L demand os" "memalign_ok V where_to 16384 os" "libc_ok V os"
    "N \<le> 2 ^ 38" "locals_ok os B" "\<forall>t. \<not> pen v t"
    and "\<And>b. where_to b \<Longrightarrow> one_table b = ok" and "ok \<or> \<not> demand"
  shows "run_to V (test5_main os) (B, v, e, C, N) (\<lambda>r s. if ok then passed r s else r = Exited 1)"
proof -
  have ps: "os_pagesize os = 4096" using assms(3) by (simp add: libc_ok_def)
  have N: "N \<le> 2 ^ 40" using assms(4) by simp
  have sz: "(4096 :: u64) * of_nat 4 = 16384" by simp
  show ?thesis
    unfolding test5_main_def alloc_pages_def ps sz
  proof (rule run_bind, rule run_timed, rule run_bind, rule run_memalign [OF assms(2) N])
    fix b bs assume b: "where_to b" "take_bit 12 b = 0" "length (bs :: u8 list) = unat (16384 :: u64)" "B b = None"
    have "run_to V (test5_run os b) (B(b \<mapsto> bs), v, None, C(b \<mapsto> 16384), N + 16384)
        (\<lambda>r s. if ok then passed r s else r = Exited 1)"
    proof (rule run_split_pages [where b = b and bs = bs])
      fix w x y z :: "u8 list"
      assume l: "length w = 4096" "length x = 4096" "length y = 4096" "length z = 4096"
        and n: "(B(b \<mapsto> bs)) (b + 4096) = None" "(B(b \<mapsto> bs)) (b + 8192) = None" "(B(b \<mapsto> bs)) (b + 12288) = None"
      have "four os b 0 (B(b \<mapsto> bs, b \<mapsto> w, b + 4096 \<mapsto> x, b + 8192 \<mapsto> y, b + 12288 \<mapsto> z))"
        unfolding fun_upd_upd by (rule four_start [OF assms(5) b(4) _ _ _ l]) (use n in \<open>auto split: if_splits\<close>)
      moreover have "expanded_only False b v" "one_table b \<or> \<not> demand" "one_table b = ok"
        using assms(6,8) assms(7) [OF b(1)] by (auto simp: expanded_only_def)
      ultimately show "run_to V (test5_run os b) (B(b \<mapsto> bs, b \<mapsto> w, b + 4096 \<mapsto> x, b + 8192 \<mapsto> y, b + 12288 \<mapsto> z), v, None,
          C(b \<mapsto> 16384), N + 16384) (\<lambda>r s. if ok then passed r s else r = Exited 1)"
        using run_test5_run [OF assms(1,3) _ _ b(2), where C = "C(b \<mapsto> 16384)" and n = 16384 and N = "N + 16384" and e = None]
        by simp
    qed (use b in simp_all)
    then show "then_run V (\<lambda>(r, base_addr). if r \<noteq> 0 then die 1 else give base_addr)
        (then_run V (test5_run os) (\<lambda>r s. if ok then passed r s else r = Exited 1))
        (Val (0, b)) (B(b \<mapsto> bs), v, None, C(b \<mapsto> unat (16384 :: u64)), N + unat (16384 :: u64))"
      by (simp add: run_give)
  qed simp_all
qed

section \<open>What the tests decide\<close>

text \<open>The process a test starts in: less than \<open>2 ^ 38\<close> bytes mapped, the three local variables in
  separate mapped words, no page table expanded.\<close>

definition process_ok :: "('k \<Rightarrow> kview) \<Rightarrow> 'k os \<Rightarrow> 'k machine \<Rightarrow> bool" where
  "process_ok V os M \<longleftrightarrow> card (dom (mem M)) \<le> 2 ^ 38 \<and> (\<forall>t. \<not> pen (V (kern M)) t) \<and>
     (\<forall>i \<in> {0, 1, 2}. mapped (mem M) (os_local os i) 8) \<and>
     (\<forall>i \<in> {0, 1, 2}. \<forall>j \<in> {0, 1, 2}. i \<noteq> j \<longrightarrow> area (os_local os i) 8 \<inter> area (os_local os j) 8 = {})"

lemma process_rel:
  assumes "process_ok V os M" "card (dom (mem M)) \<le> N"
  obtains B where "locals_ok os B" "rel V (B, V (kern M), None, chunks M, N) M"
proof -
  let ?l = "os_local os"
  define word where "word i = (SOME bs. read_bytes (mem M) (?l i) 8 = Some bs)" for i
  have word: "read_bytes (mem M) (?l i) 8 = Some (word i)" "length (word i) = 8" if "i \<in> {0, 1, 2}" for i
  proof -
    have "mapped (mem M) (?l i) 8" using assms(1) that unfolding process_ok_def by blast
    then have "\<exists>bs. read_bytes (mem M) (?l i) 8 = Some bs" using mapped_read by blast
    then show "read_bytes (mem M) (?l i) 8 = Some (word i)" unfolding word_def by (rule someI_ex)
    then show "length (word i) = 8" by (simp add: read_bytes_Some)
  qed
  have apart: "area (?l i) 8 \<inter> area (?l j) 8 = {}" if "i \<in> {0, 1, 2}" "j \<in> {0, 1, 2}" "i \<noteq> j" for i j
    using assms(1) that unfolding process_ok_def by blast
  have ne: "?l i \<noteq> ?l j" if "i \<in> {0, 1, 2}" "j \<in> {0, 1, 2}" "i \<noteq> j" for i j
  proof
    assume "?l i = ?l j"
    then have "area (?l i) 8 = {}" using apart [OF that] by simp
    moreover have "?l i + of_nat 0 \<in> area (?l i) 8" unfolding area_def by (rule imageI) simp
    ultimately show False by blast
  qed
  define B where "B = [?l 0 \<mapsto> word 0, ?l 1 \<mapsto> word 1, ?l 2 \<mapsto> word 2]"
  have n: "?l 0 \<noteq> ?l 1" "?l 0 \<noteq> ?l 2" "?l 1 \<noteq> ?l 2" by (rule ne; simp)+
  have at: "B (?l i) = Some (word i)" if "i \<in> {0, 1, 2}" for i
    using that n unfolding B_def by (elim insertE emptyE) simp_all
  have B: "\<exists>i \<in> {0, 1, 2}. a = ?l i \<and> bs = word i" if "B a = Some bs" for a bs
    using that unfolding B_def by (simp split: if_splits)
  have "distinct (map ?l [0, 1, 2])" using n by simp
  then have "locals_ok os B" using word(2) at unfolding locals_ok_def by simp
  moreover have "holds (mem M) B"
    unfolding holds_def
  proof (intro conjI allI impI)
    fix a bs assume "B a = Some bs"
    then obtain i where "i \<in> {0, 1, 2}" "a = ?l i" "bs = word i" using B by blast
    then show "bs \<noteq> []" "length bs \<le> 2 ^ 32" "read_bytes (mem M) a (length bs) = Some bs"
      using word [of i] by auto
  next
    fix a bs b cs assume "B a = Some bs" "B b = Some cs" "a \<noteq> b"
    then obtain i j where "i \<in> {0, 1, 2}" "j \<in> {0, 1, 2}" "i \<noteq> j" "a = ?l i" "b = ?l j" "bs = word i" "cs = word j"
      using B by metis
    then show "area a (length bs) \<inter> area b (length cs) = {}"
      using apart [of i j] word(2) [of i] word(2) [of j] by simp
  qed
  ultimately show thesis using that assms by (simp add: rel_def process_ok_def)
qed

lemma process_start:
  assumes "process_ok V os M" "card (dom (mem M)) \<le> N"
    and "\<And>B. locals_ok os B \<Longrightarrow> run_to V p (B, V (kern M), None, chunks M, N) Q"
  obtains r s M' where "p M = (r, M')" "rel V s M'" "Q r s"
proof -
  obtain B where "locals_ok os B" "rel V (B, V (kern M), None, chunks M, N) M"
    by (rule process_rel [OF assms(1,2)])
  then have "\<exists>r s M'. p M = (r, M') \<and> rel V s M' \<and> Q r s"
    using assms(3) [of B] unfolding run_to_def by blast
  then show thesis using that by blast
qed

lemma process_bound: "process_ok V os M \<Longrightarrow> card (dom (mem M)) \<le> 2 ^ 38"
  by (simp add: process_ok_def)

lemma passed_exit:
  assumes "process_ok V os M" "\<And>B. locals_ok os B \<Longrightarrow> run_to V p (B, V (kern M), None, chunks M, 2 ^ 38) passed"
  shows "\<exists>M'. p M = (Val 0, M') \<and> (\<forall>t. \<not> pen (V (kern M')) t)"
proof -
  obtain r s M' where "p M = (r, M')" "rel V s M'" "passed r s" by (rule process_start [OF assms(1) process_bound [OF assms(1)] assms(2)])
  then show ?thesis by (cases s) (auto simp: passed_def rel_def)
qed

text \<open>C1: On a kernel that behaves as the README documents, the tests 1, 2, 4, 6, 7 and 9 end with
  exit status 0, whatever the layout of structured metadata and whether or not setting
  expands a table on demand, and leave no page table expanded.\<close>

theorem pte_tests_pass:
  assumes "documented V L demand os" "libc_ok V os" "memalign_ok V (\<lambda>_. True) 4096 os"
    and "process_ok V os M"
    and "main \<in> {test1_main, test2_main, test4_main, test6_main, test7_main, test9_main}"
  shows "\<exists>M'. main os M = (Val 0, M') \<and> (\<forall>t. \<not> pen (V (kern M')) t)"
proof (rule passed_exit [OF assms(4)])
  fix B assume l: "locals_ok os B"
  have off: "\<forall>t. \<not> pen (V (kern M)) t" using assms(4) by (simp add: process_ok_def)
  show "run_to V (main os) (B, V (kern M), None, chunks M, 2 ^ 38) passed"
    using assms(5) run_single_page_tests [OF assms(1,3,2) _ l off] run_test9 [OF assms(1,3,2) _ l off] by auto
qed

text \<open>C4: test3 writes the packed header its own file declares.  It passes on a kernel that reads such
  headers; a kernel that reads the header of the README takes half of the payload for a length
  of 4022250974 bytes, so the first set fails and test3 exits with 1, unless the process has
  mapped that much memory.\<close>

theorem test3_verdict:
  assumes "documented V L demand os" "libc_ok V os" "malloc_ok V 24 os" "memalign_ok V (\<lambda>_. True) 4096 os"
    and "process_ok V os M" "card (dom (mem M)) \<le> 2 ^ 31" "L \<in> {packed_header, readme_header}"
  shows "\<exists>M'. test3_main os M = (if L = packed_header then Val 0 else Exited 1, M')"
proof -
  have off: "\<forall>t. \<not> pen (V (kern M)) t" using assms(5) by (simp add: process_ok_def)
  have ne: "readme_header \<noteq> packed_header" by (simp add: readme_header_def packed_header_def)
  have "run_to V (test3_main os) (B, V (kern M), None, chunks M, 2 ^ 31)
      (\<lambda>r s. r = (if L = packed_header then Val 0 else Exited 1))" if l: "locals_ok os B" for B
    using assms(1,7) ne run_mono [OF run_test3 [OF _ assms(4,3,2) _ l off]] run_test3_refused [OF _ assms(4,3,2) _ l off]
    by (auto simp: passed_def)
  from process_start [OF assms(5,6) this] show ?thesis by metis
qed

text \<open>C27: test8, which sets metadata without enabling the table first, passes exactly on the kernels
  whose set expands the table on demand; on the others its first set fails and it exits with 1.\<close>

theorem test8_verdict:
  assumes "documented V L demand os" "libc_ok V os" "memalign_ok V (\<lambda>_. True) 4096 os" "process_ok V os M"
  shows "\<exists>M'. test8_main os M = (if demand then Val 0 else Exited 1, M')"
proof -
  have off: "\<forall>t. \<not> pen (V (kern M)) t" using assms(4) by (simp add: process_ok_def)
  have "run_to V (test8_main os) (B, V (kern M), None, chunks M, 2 ^ 38)
      (\<lambda>r s. r = (if demand then Val 0 else Exited 1))" if l: "locals_ok os B" for B
    using assms(1) run_mono [OF run_test8 [OF _ assms(3,2) _ l off]] run_test8_fails [OF _ assms(3,2) _ l off]
    by (cases demand) (auto simp: passed_def)
  from process_start [OF assms(4) process_bound [OF assms(4)] this] show ?thesis by metis
qed

text \<open>C16: test5 takes four pages that need only be page aligned for pages of one page table: when
  they lie in one table it passes, and on a kernel that expands tables only by enable it exits
  with 1 when they straddle two.\<close>

theorem test5_verdict:
  assumes "documented V L demand os" "libc_ok V os" "memalign_ok V (\<lambda>b. one_table b = same) 16384 os"
    and "process_ok V os M" "same \<or> \<not> demand"
  shows "\<exists>M'. test5_main os M = (if same then Val 0 else Exited 1, M')"
proof -
  have off: "\<forall>t. \<not> pen (V (kern M)) t" using assms(4) by (simp add: process_ok_def)
  have "run_to V (test5_main os) (B, V (kern M), None, chunks M, 2 ^ 38)
      (\<lambda>r s. r = (if same then Val 0 else Exited 1))" if l: "locals_ok os B" for B
    by (rule run_mono [OF run_test5 [OF assms(1,3,2) _ l off _ assms(5)]]) (auto simp: passed_def split: if_splits)
  from process_start [OF assms(4) process_bound [OF assms(4)] this] show ?thesis by metis
qed

section \<open>A kernel that meets the hypotheses\<close>

text \<open>The kernel is the documented interface itself.  Memory is given out at the first free
  address \<open>q * 2 ^ 21 + off\<close>.\<close>

definition sample_places :: "u64 \<Rightarrow> u64 list" where
  "sample_places off = map (\<lambda>q. push_bit 21 (of_nat q) + off) [0..<2 ^ 42]"

definition sample_base :: "u64 \<Rightarrow> nat \<Rightarrow> memory \<Rightarrow> u64" where
  "sample_base off n m =
     (case List.find (\<lambda>b. \<forall>k \<in> {..<n}. m (b + of_nat k) = None) (sample_places off) of
        Some b \<Rightarrow> b | None \<Rightarrow> 0)"

definition sample_alloc :: "u64 \<Rightarrow> u64 \<Rightarrow> kview machine \<Rightarrow> u64 \<times> kview machine" where
  "sample_alloc off n M =
     (let b = sample_base off (unat n) (mem M)
      in (b, M\<lparr>mem := write_bytes (mem M) b (replicate (unat n) 0), chunks := (chunks M)(b \<mapsto> unat n)\<rparr>))"

definition sample_call :: "header_layout \<Rightarrow> bool \<Rightarrow> nat \<Rightarrow> u64 list \<Rightarrow> kview machine \<Rightarrow> int \<times> kview machine" where
  "sample_call L demand nr args M =
     (case spec_call L demand nr args (mem M) (kern M) of (r, m', v') \<Rightarrow>
        if r < 0 then (- 1, M\<lparr>kern := v', errnum := - r\<rparr>) else (r, M\<lparr>mem := m', kern := v'\<rparr>))"

definition sample_free :: "u64 \<Rightarrow> kview machine \<Rightarrow> kview machine" where
  "sample_free a M =
     (case chunks M a of None \<Rightarrow> M
      | Some n \<Rightarrow> M\<lparr>mem := (\<lambda>x. if unat (x - a) < n then None else mem M x), chunks := (chunks M)(a := None)\<rparr>)"

definition sample_os :: "header_layout \<Rightarrow> bool \<Rightarrow> u64 \<Rightarrow> kview os" where
  "sample_os L demand off =
     \<lparr>os_syscall = sample_call L demand,
      os_memalign = (\<lambda>_ n M. case sample_alloc off n M of (b, M') \<Rightarrow> ((0, b), M')),
      os_malloc = sample_alloc 4096, os_free = sample_free,
      os_mlock = (\<lambda>_ _ M. M), os_munlock = (\<lambda>_ _ M. M), os_pagesize = 4096,
      os_clock = (\<lambda>n. \<lparr>tv_sec = int n, tv_nsec = 0\<rparr>), os_local = (\<lambda>i. 8 * of_nat i)\<rparr>"

definition sample_machine :: "kview machine" where
  "sample_machine = \<lparr>mem = write_bytes Map.empty 0 (replicate 24 0),
     kern = \<lparr>pen = (\<lambda>_. False), stored = (\<lambda>_. None)\<rparr>, errnum = 0, chunks = Map.empty,
     clock_reads = 0, timings = []\<rparr>"

lemma table_of_place:
  assumes "q < 2 ^ 43" "k < 2 ^ 21"
  shows "table_of (push_bit 21 (of_nat q) + of_nat k) = of_nat q"
proof -
  have restore: "of_nat (unat x) = x" for x :: u64 by simp
  have "unat (of_nat (q * 2 ^ 21 + k) :: u64) = q * 2 ^ 21 + k"
    by (rule unat_of_nat_small) (use assms in simp)
  moreover have "unat (drop_bit 21 x) = unat x div 2 ^ 21" for x :: u64
    unfolding unat_drop_bit_eq by (rule drop_bit_eq_div)
  ultimately have "unat (drop_bit 21 (of_nat (q * 2 ^ 21 + k) :: u64)) = q"
    using assms(2) by simp
  then have "(of_nat q :: u64) = drop_bit 21 (of_nat (q * 2 ^ 21 + k))"
    using restore [of "drop_bit 21 (of_nat (q * 2 ^ 21 + k))"] by simp
  also have "of_nat (q * 2 ^ 21 + k) = (push_bit 21 (of_nat q) + of_nat k :: u64)"
    by (simp add: push_bit_eq_mult)
  finally show ?thesis by (simp add: table_of_def)
qed

lemma dom_write_bytes: "dom (write_bytes m a bs) = dom m \<union> area a (length bs)"
proof -
  have "dom (fold (\<lambda>k m. m(a + of_nat k \<mapsto> f k)) xs m) = dom m \<union> (\<lambda>k. a + of_nat k) ` set xs"
    for xs f and m :: memory
    by (induction xs arbitrary: m) auto
  then show ?thesis by (simp add: write_bytes_def area_def atLeast0LessThan)
qed

lemma image_upt: "x \<in> f ` set [0..<n] \<longleftrightarrow> (\<exists>q. q < n \<and> x = f q)"
  by auto

lemma find_Some_prop: "List.find P xs = Some x \<Longrightarrow> P x \<and> x \<in> set xs"
  by (auto simp: find_Some_iff)

lemma card_words: "n \<le> 2 ^ 64 \<Longrightarrow> card (of_nat ` {..<n} :: u64 set) = n"
proof -
  assume n: "n \<le> 2 ^ 64"
  have inv: "unat (of_nat x :: u64) = x" if "x < n" for x by (rule unat_of_nat_small) (use that n in simp)
  have "inj_on (of_nat :: nat \<Rightarrow> u64) {..<n}"
    by (rule inj_on_inverseI [where g = unat]) (simp add: inv)
  then show ?thesis by (simp only: card_image card_lessThan)
qed

text \<open>Fewer than \<open>2 ^ 42\<close> mapped bytes cannot touch all the places.\<close>

lemma sample_base_free:
  assumes "card (dom m) \<le> 2 ^ 40" "n \<le> 2 ^ 21"
  obtains q where "q < 2 ^ 42" "sample_base off n m = push_bit 21 (of_nat q) + off"
    "area (sample_base off n m) n \<inter> dom m = {}"
proof -
  let ?b = "\<lambda>q. push_bit 21 (of_nat q) + off"
  let ?free = "\<lambda>b. \<forall>k \<in> {..<n}. m (b + of_nat k) = None"
  have "\<exists>q < 2 ^ 42. ?free (?b q)"
  proof (rule ccontr)
    assume "\<not> (\<exists>q < 2 ^ 42. ?free (?b q))"
    then have all: "\<exists>k<n. ?b q + of_nat k \<in> dom m" if "q < 2 ^ 42" for q using that by fastforce
    have "of_nat q \<in> (\<lambda>x. table_of (x - off)) ` dom m" if q: "q < 2 ^ 42" for q
    proof -
      obtain k where k: "k < n" "?b q + of_nat k \<in> dom m" using all [OF q] by blast
      have "table_of (?b q + of_nat k - off) = of_nat q"
        using table_of_place [of q k] q k(1) assms(2) by (simp add: algebra_simps)
      then show ?thesis using k(2) by (metis image_eqI)
    qed
    then have "of_nat ` {..<2 ^ 42 :: nat} \<subseteq> (\<lambda>x. table_of (x - off)) ` dom m" by blast
    then have "card (of_nat ` {..<2 ^ 42 :: nat} :: u64 set) \<le> card (dom m)"
      by (meson card_image_le card_mono finite finite_imageI order_trans)
    moreover have "card (of_nat ` {..<2 ^ 42 :: nat} :: u64 set) = 2 ^ 42" by (rule card_words) simp
    ultimately have "2 ^ 42 \<le> card (dom m)" by (simp only:)
    then show False using assms(1) by simp
  qed
  then obtain q where q: "q < 2 ^ 42" "?free (?b q)" by blast
  have mem: "x \<in> set (sample_places off) \<longleftrightarrow> (\<exists>q. q < 2 ^ 42 \<and> x = ?b q)" for x
    unfolding sample_places_def set_map by (rule image_upt)
  obtain b where b: "List.find ?free (sample_places off) = Some b"
  proof (cases "List.find ?free (sample_places off)")
    case None
    then show ?thesis using q mem [of "?b q"] unfolding find_None_iff by blast
  qed blast
  have at: "?free b" "b \<in> set (sample_places off)" by (rule conjunct1 [OF find_Some_prop [OF b]], rule conjunct2 [OF find_Some_prop [OF b]])
  obtain r where r: "r < 2 ^ 42" "b = ?b r" using at(2) unfolding mem by (elim exE conjE)
  have eq: "sample_base off n m = b" using b by (simp add: sample_base_def)
  have "x \<notin> dom m" if "x \<in> area b n" for x
    using that at(1) unfolding area_def dom_def by (elim imageE) simp
  then have "area (sample_base off n m) n \<inter> dom m = {}" unfolding eq by blast
  moreover have "sample_base off n m = ?b r" by (rule trans [OF eq r(2)])
  ultimately show thesis using that r(1) by blast
qed

lemma sample_alloc_block:
  assumes "card (dom (mem M)) \<le> 2 ^ 40" "unat n \<le> 2 ^ 21" "sample_alloc off n M = (b, M')"
  shows "fresh_block (mem M) (mem M') b (unat n)" "kern M' = kern M" "chunks M' = (chunks M)(b \<mapsto> unat n)"
    "\<exists>q < 2 ^ 42. b = push_bit 21 (of_nat q) + off"
proof -
  obtain q where q: "q < 2 ^ 42" "sample_base off (unat n) (mem M) = push_bit 21 (of_nat q) + off"
    "area (sample_base off (unat n) (mem M)) (unat n) \<inter> dom (mem M) = {}"
    using sample_base_free [OF assms(1,2)] .
  have b: "b = sample_base off (unat n) (mem M)" "mem M' = write_bytes (mem M) b (replicate (unat n) 0)"
    "kern M' = kern M" "chunks M' = (chunks M)(b \<mapsto> unat n)"
    using assms(3) by (auto simp: sample_alloc_def Let_def)
  show "kern M' = kern M" "chunks M' = (chunks M)(b \<mapsto> unat n)" by (fact b(3), fact b(4))
  show "\<exists>q < 2 ^ 42. b = push_bit 21 (of_nat q) + off" using q(1,2) b(1) by auto
  have "write_bytes (mem M) b (replicate (unat n) 0) x = mem M x" if "x \<in> dom (mem M)" for x
    using q(3) that b(1) by (intro write_bytes_other) auto
  then show "fresh_block (mem M) (mem M') b (unat n)"
    using q(3) b(1,2) by (simp add: fresh_block_def dom_write_bytes)
qed

lemma sample_documented: "documented id L demand (sample_os L demand off)"
  by (auto simp: documented_def sample_os_def sample_call_def split: prod.splits)

lemma sample_libc: "libc_ok id (sample_os L demand off)"
proof -
  have "x = a + of_nat (unat (x - a))" for x a :: u64 by simp
  then have "x \<in> area a n" if "unat (x - a) < n" for x a n using that unfolding area_def by blast
  then show ?thesis
    by (auto simp: libc_ok_def free_ok_def harmless_def sample_os_def sample_free_def split: if_splits)
qed

lemma sample_malloc: "malloc_ok id 24 (sample_os L demand off)"
  unfolding malloc_ok_def
proof (intro allI impI)
  fix M :: "kview machine" assume M: "card (dom (mem M)) \<le> 2 ^ 40"
  obtain b M' where e: "sample_alloc 4096 24 M = (b, M')" by fastforce
  note block = sample_alloc_block [OF M _ e]
  obtain q where "b = push_bit 21 (of_nat q) + 4096" using block(4) by auto
  moreover have "push_bit 21 (of_nat q :: u64) + 4096 \<noteq> 0"
  proof
    assume "push_bit 21 (of_nat q :: u64) + 4096 = 0"
    then have "push_bit 21 (of_nat q :: u64) = - 4096" by (simp add: eq_neg_iff_add_eq_0)
    then have "take_bit 21 (push_bit 21 (of_nat q :: u64)) = take_bit 21 (- 4096)" by simp
    moreover have "take_bit 21 (push_bit 21 x) = (0 :: u64)" for x by (rule bit_word_eqI) (simp add: bit_simps)
    ultimately show False by simp
  qed
  ultimately have "b \<noteq> 0" by simp
  then show "\<exists>b M'. os_malloc (sample_os L demand off) 24 M = (b, M') \<and> b \<noteq> 0 \<and>
      fresh_block (mem M) (mem M') b (unat (24 :: u64)) \<and> id (kern M') = id (kern M) \<and>
      chunks M' = (chunks M)(b \<mapsto> unat (24 :: u64))"
    using block e by (intro exI [of _ b] exI [of _ M']) (simp add: sample_os_def)
qed

lemma place_aligned: "take_bit 12 (push_bit 21 q + push_bit 12 d) = (0 :: u64)"
proof -
  have "push_bit 21 q + push_bit 12 d = push_bit 12 (push_bit 9 q + d)" by (simp add: push_bit_add)
  moreover have "take_bit 12 (push_bit 12 x) = (0 :: u64)" for x by (rule bit_word_eqI) (simp add: bit_simps)
  ultimately show ?thesis by simp
qed

lemma sample_memalign:
  assumes "off = push_bit 12 d" "\<And>q. q < 2 ^ 42 \<Longrightarrow> where_to (push_bit 21 (of_nat q) + off)" "unat n \<le> 2 ^ 21"
  shows "memalign_ok id where_to n (sample_os L demand off)"
  unfolding memalign_ok_def
proof (intro allI impI)
  fix M :: "kview machine" assume M: "card (dom (mem M)) \<le> 2 ^ 40"
  obtain b M' where e: "sample_alloc off n M = (b, M')" by fastforce
  note block = sample_alloc_block [OF M assms(3) e]
  have "where_to b" "take_bit 12 b = 0" using block(4) assms(2) place_aligned unfolding assms(1) by auto
  then show "\<exists>b M'. os_memalign (sample_os L demand off) 4096 n M = ((0, b), M') \<and> where_to b \<and> take_bit 12 b = 0 \<and>
      fresh_block (mem M) (mem M') b (unat n) \<and> id (kern M') = id (kern M) \<and> chunks M' = (chunks M)(b \<mapsto> unat n)"
    using block e by (intro exI [of _ b] exI [of _ M']) (simp add: sample_os_def)
qed

lemma place_in_one_table: "q < 2 ^ 42 \<Longrightarrow> one_table (push_bit 21 (of_nat q) + 0)"
proof -
  assume q: "q < 2 ^ 42"
  have "table_of (push_bit 21 (of_nat q) + of_nat (i * 4096)) = of_nat q" if "i < 4" for i
    using q that by (intro table_of_place) auto
  then show ?thesis using table_of_place [of q 0] q by (simp add: one_table_def)
qed

lemma place_straddles: "q < 2 ^ 42 \<Longrightarrow> \<not> one_table (push_bit 21 (of_nat q) + 2093056)"
proof
  assume q: "q < 2 ^ 42" and one: "one_table (push_bit 21 (of_nat q) + 2093056)"
  have "table_of (push_bit 21 (of_nat q) + of_nat 2093056) = of_nat q" by (rule table_of_place) (use q in auto)
  moreover have "push_bit 21 (of_nat q) + 2093056 + of_nat 1 * 4096 = push_bit 21 (of_nat (q + 1)) + (of_nat 0 :: u64)"
    by (simp add: push_bit_eq_mult algebra_simps)
  moreover have "table_of (push_bit 21 (of_nat (q + 1)) + of_nat 0) = of_nat (q + 1)"
    by (rule table_of_place) (use q in auto)
  moreover have "table_of (push_bit 21 (of_nat q) + 2093056 + of_nat 1 * 4096) = table_of (push_bit 21 (of_nat q) + 2093056)"
    using one unfolding one_table_def by (metis numeral_less_iff one_less_numeral_iff semiring_norm(76))
  ultimately have "(of_nat (q + 1) :: u64) = of_nat q" by simp
  then show False by simp
qed

lemma sample_size: "card (dom (mem sample_machine)) \<le> 24"
proof -
  have "card (area 0 24) \<le> 24" unfolding area_def by (metis card_image_le card_lessThan finite_lessThan)
  then show ?thesis by (simp add: sample_machine_def dom_write_bytes)
qed

lemma sample_process: "process_ok id (sample_os L demand off) sample_machine"
proof -
  note len = sample_size
  have map: "mapped (mem sample_machine) (8 * of_nat i) 8" if "i < 3" for i
  proof -
    have "8 * of_nat i + of_nat k \<in> dom (mem sample_machine)" if "k < 8" for k
    proof -
      have "0 + (of_nat (8 * i + k) :: u64) \<in> area 0 24" unfolding area_def using \<open>i < 3\<close> \<open>k < 8\<close> by (intro imageI) simp
      then show ?thesis by (simp add: sample_machine_def dom_write_bytes)
    qed
    then show ?thesis by (auto simp: mapped_def)
  qed
  have apart: "area (8 * of_nat i) 8 \<inter> area (8 * of_nat j) 8 = {}" if "i < 3" "j < 3" "i \<noteq> j" for i j
  proof -
    have "8 * i + k = 8 * j + l" if "k < 8" "l < 8" "8 * of_nat i + of_nat k = 8 * of_nat j + (of_nat l :: u64)" for k l
      using small_inj [of "8 * i + k" "8 * j + l"] that \<open>i < 3\<close> \<open>j < 3\<close> by simp
    then show ?thesis using that by (fastforce simp: area_def)
  qed
  show ?thesis
    using len map [of 0] map [of 1] map [of 2] apart [of 0 1] apart [of 0 2] apart [of 1 2]
      apart [of 1 0] apart [of 2 0] apart [of 2 1]
    by (simp add: process_ok_def sample_os_def sample_machine_def)
qed

text \<open>The hypotheses hold of this kernel and process, so the tests run on it as the properties
  say.\<close>

theorem pte_tests_pass_witness:
  "\<exists>M'. test6_main (sample_os packed_header False 0) sample_machine = (Val 0, M') \<and> (\<forall>t. \<not> pen (id (kern M')) t)"
  by (rule pte_tests_pass [OF sample_documented sample_libc sample_memalign [where d = 0] sample_process]) simp_all

lemma sample_small: "card (dom (mem sample_machine)) \<le> 2 ^ 31"
  using sample_size by simp

theorem test3_verdict_witness:
  "\<exists>M'. test3_main (sample_os readme_header False 0) sample_machine = (Exited 1, M')"
proof -
  have "readme_header \<noteq> packed_header" by (simp add: readme_header_def packed_header_def)
  then show ?thesis
    using test3_verdict [OF sample_documented [where L = readme_header and demand = False and off = 0] sample_libc sample_malloc sample_memalign [where d = 0] sample_process
        sample_small] by simp
qed

theorem test8_verdict_witness: "\<exists>M'. test8_main (sample_os packed_header False 0) sample_machine = (Exited 1, M')"
  using test8_verdict [OF sample_documented [where L = packed_header and demand = False and off = 0] sample_libc sample_memalign [where d = 0] sample_process] by simp

theorem test5_verdict_witness: "\<exists>M'. test5_main (sample_os packed_header False 2093056) sample_machine = (Exited 1, M')"
  using test5_verdict [OF sample_documented [where L = packed_header and demand = False and off = 2093056] sample_libc sample_memalign [where d = 511] sample_process,
      where same = False] place_straddles by simp

end
