(* ===== verification/PteStats.thy ===== *)
theory PteStats
  imports PteTests
begin

text \<open>
  The statistics test9 prints (\<open>calculate_stats\<close>): the running minimum, maximum, sum and sum of
  squares against the usual definitions over the list of times, in real arithmetic.
\<close>

definition mean_of :: "real list \<Rightarrow> real" where
  "mean_of ts = sum_list ts / real (length ts)"

definition variance_of :: "real list \<Rightarrow> real" where
  "variance_of ts = (\<Sum>t\<leftarrow>ts. (t - mean_of ts)\<^sup>2) / real (length ts)"

lemma foldl_stats:
  "foldl stats_step (a, q, l, h) ts =
     (a + sum_list ts, q + (\<Sum>t\<leftarrow>ts. t * t), Min (insert l (set ts)), Max (insert h (set ts)))"
proof (induction ts arbitrary: a q l h)
  case (Cons t ts)
  have step: "stats_step (a, q, l, h) t = (a + t, q + t * t, min l t, max h t)"
    by (auto simp: stats_step_def)
  have "Min (insert (min l t) (set ts)) = Min (insert l (insert t (set ts)))"
    by (cases "set ts = {}") (simp_all add: min.assoc)
  moreover have "Max (insert (max h t) (set ts)) = Max (insert h (insert t (set ts)))"
    by (cases "set ts = {}") (simp_all add: max.assoc)
  ultimately show ?case by (simp add: step Cons.IH)
qed simp

lemma sum_squares:
  "(\<Sum>t\<leftarrow>ts. (t - m)\<^sup>2) = (\<Sum>t\<leftarrow>ts. t * t) - 2 * m * sum_list ts + real (length ts) * m\<^sup>2" for m :: real
  by (induction ts) (simp_all add: power2_eq_square algebra_simps)

lemma variance_shortcut:
  assumes "ts \<noteq> []"
  shows "(\<Sum>t\<leftarrow>ts. t * t) / real (length ts) - mean_of ts * mean_of ts = variance_of ts"
proof -
  define n where "n = real (length ts)"
  have n: "n > 0" using assms by (simp add: n_def)
  have s: "sum_list ts = n * mean_of ts" using n by (simp add: mean_of_def n_def)
  have "variance_of ts = ((\<Sum>t\<leftarrow>ts. t * t) - n * (mean_of ts)\<^sup>2) / n"
    unfolding variance_of_def sum_squares n_def [symmetric] s by (simp add: power2_eq_square algebra_simps)
  also have "\<dots> = (\<Sum>t\<leftarrow>ts. t * t) / n - mean_of ts * mean_of ts"
    using n by (simp add: diff_divide_distrib power2_eq_square)
  finally show ?thesis by (simp add: n_def)
qed

lemma mean_bounds:
  assumes "ts \<noteq> []" "\<forall>t \<in> set ts. l \<le> t \<and> t \<le> h"
  shows "l \<le> mean_of ts" "mean_of ts \<le> h"
proof -
  have "real (length ts) * l \<le> sum_list ts \<and> sum_list ts \<le> real (length ts) * h"
    using assms(2) by (induction ts) (auto simp: algebra_simps)
  then show "l \<le> mean_of ts" "mean_of ts \<le> h"
    using assms(1) by (simp_all add: mean_of_def field_simps)
qed

lemma variance_bound:
  assumes "ts \<noteq> []" "\<forall>t \<in> set ts. l \<le> t \<and> t \<le> h"
  shows "variance_of ts \<le> ((h - l) / 2)\<^sup>2"
proof -
  define n where "n = real (length ts)"
  define m where "m = mean_of ts"
  have n: "n > 0" using assms(1) by (simp add: n_def)
  have s: "sum_list ts = n * m" using n by (simp add: m_def mean_of_def n_def)
  have "(\<Sum>t\<leftarrow>ts. t * t) \<le> (l + h) * sum_list ts - real (length ts) * (l * h)"
    using assms(2)
  proof (induction ts)
    case (Cons t ts)
    have "0 \<le> (t - l) * (h - t)" using Cons.prems by simp
    then show ?case using Cons by (simp add: algebra_simps)
  qed simp
  then have "(\<Sum>t\<leftarrow>ts. t * t) \<le> n * ((l + h) * m - l * h)" by (simp add: s n_def [symmetric] algebra_simps)
  then have "(\<Sum>t\<leftarrow>ts. t * t) / n \<le> (l + h) * m - l * h" using n by (simp add: field_simps)
  then have "variance_of ts \<le> (l + h) * m - l * h - m * m"
    using variance_shortcut [OF assms(1)] by (simp add: m_def n_def)
  also have "\<dots> = ((h - l) / 2)\<^sup>2 - (m - (l + h) / 2)\<^sup>2" by (simp add: power2_eq_square field_simps)
  finally show ?thesis using zero_le_power2 [of "m - (l + h) / 2"] by linarith
qed

text \<open>On a nonempty array \<open>calculate_stats\<close> gives the minimum, the maximum, the mean, which lies
  between them, and the population standard deviation: its shortcut through the sum of squares is
  the root of the mean squared deviation, and is at most half the range.\<close>

theorem calculate_stats_correct:
  assumes "ts \<noteq> []"
  shows "calculate_stats ts = (Min (set ts), Max (set ts), mean_of ts, sqrt (variance_of ts)) \<and>
    Min (set ts) \<le> mean_of ts \<and> mean_of ts \<le> Max (set ts) \<and>
    0 \<le> variance_of ts \<and> sqrt (variance_of ts) \<le> (Max (set ts) - Min (set ts)) / 2"
proof -
  have first: "insert (ts ! 0) (set ts) = set ts" using assms by (simp add: insert_absorb)
  have b: "\<forall>t \<in> set ts. Min (set ts) \<le> t \<and> t \<le> Max (set ts)" by simp
  have "calculate_stats ts = (Min (set ts), Max (set ts), mean_of ts, sqrt (variance_of ts))"
    unfolding calculate_stats_def foldl_stats first prod.case Let_def
    using variance_shortcut [OF assms] by (simp add: mean_of_def)
  moreover have "Min (set ts) \<le> Max (set ts)" using assms by simp
  then have "sqrt (variance_of ts) \<le> (Max (set ts) - Min (set ts)) / 2"
    using variance_bound [OF assms b] by (intro real_le_lsqrt) auto
  moreover have "0 \<le> variance_of ts"
    unfolding variance_of_def by (intro divide_nonneg_nonneg sum_list_nonneg) auto
  ultimately show ?thesis using mean_bounds [OF assms b] by blast
qed

theorem calculate_stats_correct_witness: "calculate_stats [2, 4, 6] = (2, 6, 4, sqrt (8 / 3))"
proof -
  have "variance_of [2, 4, 6] = 8 / 3" "mean_of [2, 4, 6] = 4" "Min (set [2, 4, 6 :: real]) = 2" "Max (set [2, 4, 6 :: real]) = 6"
    by (simp_all add: variance_of_def mean_of_def)
  then show ?thesis using calculate_stats_correct [of "[2, 4, 6]"] by (simp only: list.distinct simp_thms)
qed

end
