(* ===== verification/MemTest.thy ===== *)
theory MemTest
  imports Sysbench PteProps "HOL-Library.Signed_Division"
begin

text \<open>
  The memory benchmark with PTE metadata (\<open>tests/memory/sb_memory.c\<close>, \<open>pte_meta_syscalls.h\<close>):
  the options, the buffers, the events that read or write a buffer word by word, with a
  system call for every word when metadata are on, and the reports.

  The static variables of the file are the record \<open>mem_test\<close>, which is the test's part of the
  state of a run; the memory, the kernel and the C library are the machine of \<open>PteTests\<close>.
  \<open>mem_dead\<close> is set when an access to memory fails or the process exits inside the test;
  nothing happens on the machine afterwards.
\<close>

section \<open>State\<close>

datatype mem_op = SB_MEM_OP_NONE | SB_MEM_OP_READ | SB_MEM_OP_WRITE
datatype mem_scope = SB_MEM_SCOPE_GLOBAL | SB_MEM_SCOPE_LOCAL

record 'k mem_test =
  machine :: "'k machine"
  memory_block_size :: int
  memory_total_size :: int
  memory_scope :: mem_scope
  memory_oper :: mem_op
  memory_access_rnd :: bool
  memory_hugetlb :: bool
  pte_meta_enabled :: bool
  pte_meta_type :: int
  max_offset :: int
  buffers :: "u64 list"
  thread_counters :: "u64 list"
  mem_dead :: bool

type_synonym 'k mem_state = "'k mem_test ev_state"

text \<open>What the test gets from outside: the system, the texts of \<open>printf\<close> and of \<open>log_errno\<close>,
  whether \<open>SHM_HUGETLB\<close> exists, the calls of System V shared memory, the success of the two
  calls of \<open>malloc\<close> for the arrays, and the parameters of the random numbers.\<close>

record 'k mem_env =
  me_os :: "'k os"
  me_fmt :: sprintf
  me_errno :: string
  me_large_pages :: bool
  me_shmget :: "u64 \<Rightarrow> 'k machine \<Rightarrow> int \<times> 'k machine"
  me_shmat :: "int \<Rightarrow> 'k machine \<Rightarrow> u64 \<times> 'k machine"
  me_counters_ok :: bool
  me_buffers_ok :: bool
  me_rand :: rand_params

definition tset :: "('k mem_test \<Rightarrow> 'k mem_test) \<Rightarrow> 'k mem_state \<Rightarrow> 'k mem_state" where
  "tset f s = s\<lparr>v_test := f (v_test s)\<rparr>"

text \<open>A part of the test that works on the machine; \<open>None\<close> when the process has died.\<close>

definition on_machine :: "('k, 'a) pgm \<Rightarrow> 'k mem_state \<Rightarrow> 'k mem_state \<times> 'a option" where
  "on_machine p s =
     (if mem_dead (v_test s) then (s, None)
      else case p (machine (v_test s)) of
        (Val x, M) \<Rightarrow> (tset (\<lambda>t. t\<lparr>machine := M\<rparr>) s, Some x)
      | (_, M) \<Rightarrow> (tset (\<lambda>t. t\<lparr>machine := M, mem_dead := True\<rparr>) s, None))"

definition memory_args :: "bool \<Rightarrow> sb_arg list" where
  "memory_args large_pages =
     [SB_OPT ''memory-block-size'' ''size of memory block for test'' (Some ''1K'') SB_ARG_TYPE_SIZE,
      SB_OPT ''memory-total-size'' ''total size of data to transfer'' (Some ''100G'') SB_ARG_TYPE_SIZE,
      SB_OPT ''memory-scope'' ''memory access scope {global,local}'' (Some ''global'') SB_ARG_TYPE_STRING] @
     (if large_pages
      then [SB_OPT ''memory-hugetlb'' ''allocate memory from HugeTLB pool'' (Some ''off'') SB_ARG_TYPE_BOOL]
      else []) @
     [SB_OPT ''memory-oper'' ''type of memory operations {read, write, none}'' (Some ''write'') SB_ARG_TYPE_STRING,
      SB_OPT ''memory-access-mode'' ''memory access mode {seq,rnd}'' (Some ''seq'') SB_ARG_TYPE_STRING,
      SB_OPT ''memory-pte-meta'' ''enable PTE metadata syscalls'' (Some ''off'') SB_ARG_TYPE_BOOL,
      SB_OPT ''memory-pte-meta-type'' ''PTE metadata type (0 or 1)'' (Some ''0'') SB_ARG_TYPE_INT]"

section \<open>The system calls\<close>

definition enable_pte_meta :: "'k os \<Rightarrow> u64 \<Rightarrow> ('k, int) pgm" where
  "enable_pte_meta os addr = syscall os SYS_enable_pte_meta [addr]"

definition disable_pte_meta :: "'k os \<Rightarrow> u64 \<Rightarrow> ('k, int) pgm" where
  "disable_pte_meta os addr = syscall os SYS_disable_pte_meta [addr]"

definition set_pte_meta :: "'k os \<Rightarrow> u64 \<Rightarrow> u64 \<Rightarrow> u64 \<Rightarrow> ('k, int) pgm" where
  "set_pte_meta os addr mdp meta_ptr = syscall os SYS_set_pte_meta [addr, mdp, meta_ptr]"

definition get_pte_meta :: "'k os \<Rightarrow> u64 \<Rightarrow> u64 \<Rightarrow> ('k, int) pgm" where
  "get_pte_meta os addr buffer = syscall os SYS_get_pte_meta [addr, buffer]"

text \<open>Every thread has a word and a buffer of 80 bytes on its stack that it hands to the kernel.\<close>

definition stack_word :: "'k os \<Rightarrow> nat \<Rightarrow> u64" where
  "stack_word os wid = os_local os (2 * wid)"

definition stack_buffer :: "'k os \<Rightarrow> nat \<Rightarrow> u64" where
  "stack_buffer os wid = os_local os (2 * wid + 1)"

definition set_pte_meta_direct :: "'k os \<Rightarrow> nat \<Rightarrow> u64 \<Rightarrow> u64 \<Rightarrow> ('k, int) pgm" where
  "set_pte_meta_direct os wid addr w =
     pseq (store_u64 (stack_word os wid) w) (set_pte_meta os addr 0 (stack_word os wid))"

text \<open>The header of \<open>pte_meta_syscalls.h\<close>: four fields of 32 bits.\<close>

definition wide_header :: "u32 \<Rightarrow> u32 \<Rightarrow> u32 \<Rightarrow> u8 list" where
  "wide_header ver ty len = le_bytes 4 (ucast ver) @ le_bytes 4 (ucast ty) @ le_bytes 4 (ucast len) @ le_bytes 4 0"

definition set_pte_meta_structured :: "'k os \<Rightarrow> u64 \<Rightarrow> u32 \<Rightarrow> u32 \<Rightarrow> u8 list \<Rightarrow> ('k, int) pgm" where
  "set_pte_meta_structured os addr ver ty payload =
     pbind (query (os_malloc os (16 + of_nat (length payload)))) (\<lambda>meta_buffer.
       if meta_buffer = 0 then give (- 1)
       else
         pseq (store_bytes meta_buffer (wide_header ver ty (of_nat (length payload))))
        (pseq (if payload \<noteq> [] then store_bytes (meta_buffer + 16) payload else give ())
        (pbind (set_pte_meta os addr 1 meta_buffer) (\<lambda>result.
           pseq (effect (os_free os meta_buffer)) (give result)))))"

section \<open>Allocation\<close>

definition LARGE_PAGE_SIZE :: u64 where "LARGE_PAGE_SIZE = 4 * 1024 * 1024"

text \<open>The size \<open>hugetlb_alloc\<close> asks for, meant to be the block size rounded up to large pages.\<close>

definition hugetlb_size :: "u64 \<Rightarrow> u64" where
  "hugetlb_size n = ((n - 1) AND NOT LARGE_PAGE_SIZE) + LARGE_PAGE_SIZE"

definition hugetlb_alloc :: "'k mem_env \<Rightarrow> u64 \<Rightarrow> 'k mem_state \<Rightarrow> 'k mem_state \<times> u64 option" where
  "hugetlb_alloc env n s =
     (case on_machine (query (me_shmget env (hugetlb_size n))) s of
        (s, None) \<Rightarrow> (s, None)
      | (s, Some shmid) \<Rightarrow>
          if shmid < 0
          then (verrno (me_errno env) LOG_FATAL
                  (me_fmt env ''Failed to allocate %zd bytes from HugeTLB memory.'' [A_int (uint (hugetlb_size n))]) s, None)
          else
            (case on_machine (query (me_shmat env shmid)) s of
               (s, None) \<Rightarrow> (s, None)
             | (s, Some ptr) \<Rightarrow>
                 if ptr = - 1
                 then (verrno (me_errno env) LOG_FATAL ''Failed to attach shared memory segment,'' s, None)
                 else (s, Some ptr)))"

text \<open>A buffer of the block size from either allocator, zeroed, with metadata enabled for it when
  they are wanted.  \<open>sb_memalign\<close> gives NULL on failure.\<close>

definition memory_alloc :: "'k mem_env \<Rightarrow> 'k mem_state \<Rightarrow> 'k mem_state \<times> u64 option" where
  "memory_alloc env s =
     (let n = word_of_int (memory_block_size (v_test s)); os = me_os env
      in if me_large_pages env \<and> memory_hugetlb (v_test s) then hugetlb_alloc env n s
         else case on_machine (query (os_memalign os (os_pagesize os) n)) s of
             (s, None) \<Rightarrow> (s, None)
           | (s, Some (ret, buf)) \<Rightarrow> (s, if ret \<noteq> 0 \<or> buf = 0 then None else Some buf))"

definition memory_ready :: "'k mem_env \<Rightarrow> u64 \<Rightarrow> string \<Rightarrow> string \<Rightarrow> 'k mem_state \<Rightarrow> 'k mem_state" where
  "memory_ready env buf failed enabled s =
     (let s = fst (on_machine (store_bytes buf (replicate (nat (memory_block_size (v_test s))) 0)) s)
      in if pte_meta_enabled (v_test s) then
           (case on_machine (enable_pte_meta (me_os env) buf) s of
              (s, None) \<Rightarrow> s
            | (s, Some r) \<Rightarrow> if r \<noteq> 0 then vsay LOG_WARNING failed s else vsay LOG_INFO enabled s)
         else s)"

section \<open>Initialisation\<close>

text \<open>The options; \<open>None\<close> when \<open>strcmp\<close> gets the NULL of an option that is not registered, or when
  \<open>sb_get_value_int\<close> ends the process.\<close>

definition memory_settings ::
  "'k mem_env \<Rightarrow> 'k mem_state \<Rightarrow> ('k mem_state \<times> bool) option" where
  "memory_settings env s =
     (let opts = l_opts (p_log (v_prog s));
          fail = (\<lambda>t s. Some (vsay LOG_FATAL t s, False));
          block = sint (sb_get_value_size opts ''memory-block-size'');
          s = tset (\<lambda>t. t\<lparr>memory_block_size := block\<rparr>) s
      in if block < 8 \<or> block AND (block - 1) \<noteq> 0
         then fail (''Invalid value for memory-block-size: '' @
                (case sb_get_value_string opts ''memory-block-size'' of None \<Rightarrow> ''(null)'' | Some v \<Rightarrow> v)) s
         else
           let s = tset (\<lambda>t. t\<lparr>max_offset := block div 8 - 1,
                          memory_total_size := sint (sb_get_value_size opts ''memory-total-size'')\<rparr>) s
           in case sb_get_value_string opts ''memory-scope'' of
             None \<Rightarrow> None
           | Some sc \<Rightarrow>
             if sc \<noteq> ''global'' \<and> sc \<noteq> ''local'' then fail (''Invalid value for memory-scope: '' @ sc) s
             else
               let s = tset (\<lambda>t. t\<lparr>memory_scope := (if sc = ''global'' then SB_MEM_SCOPE_GLOBAL else SB_MEM_SCOPE_LOCAL),
                              memory_hugetlb := me_large_pages env \<and> sb_get_value_flag opts ''memory-hugetlb'',
                              pte_meta_enabled := sb_get_value_flag opts ''memory-pte-meta''\<rparr>) s
               in case sb_get_value_int opts ''memory-pte-meta-type'' of
                 None \<Rightarrow> None
               | Some ty \<Rightarrow>
                 let s = tset (\<lambda>t. t\<lparr>pte_meta_type := ty\<rparr>) s
                 in if ty \<noteq> 0 \<and> ty \<noteq> 1
                    then fail (me_fmt env ''Invalid value for memory-pte-meta-type: %d (must be 0 or 1)'' [A_int ty]) s
                    else case sb_get_value_string opts ''memory-oper'' of
                      None \<Rightarrow> None
                    | Some oper \<Rightarrow>
                      if oper \<notin> {''write'', ''read'', ''none''} then fail (''Invalid value for memory-oper: '' @ oper) s
                      else
                        let s = tset (\<lambda>t. t\<lparr>memory_oper := (if oper = ''write'' then SB_MEM_OP_WRITE
                                  else if oper = ''read'' then SB_MEM_OP_READ else SB_MEM_OP_NONE)\<rparr>) s
                        in case sb_get_value_string opts ''memory-access-mode'' of
                          None \<Rightarrow> None
                        | Some m \<Rightarrow>
                          if m \<noteq> ''seq'' \<and> m \<noteq> ''rnd''
                          then fail (''Invalid value for memory-access-mode: '' @ m) s
                          else Some (tset (\<lambda>t. t\<lparr>memory_access_rnd := (m = ''rnd'')\<rparr>) s, True))"

text \<open>The share of a thread; the division of C truncates.\<close>

definition thread_share :: "'k mem_test \<Rightarrow> u32 \<Rightarrow> u64" where
  "thread_share t threads_used =
     word_of_int ((memory_total_size t sdiv memory_block_size t) sdiv uint threads_used)"

text \<open>The loop over the threads; \<open>shared\<close> is the global buffer.  The last call of \<open>log_text\<close> prints
  the pointer with \<open>%p\<close>.\<close>

fun memory_threads :: "'k mem_env \<Rightarrow> u64 option \<Rightarrow> nat list \<Rightarrow> 'k mem_state \<Rightarrow> 'k mem_state \<times> bool" where
  "memory_threads env shared [] s = (s, True)"
| "memory_threads env shared (i # is) s =
     (case (case shared of
              Some buf \<Rightarrow> (s, Some buf)
            | None \<Rightarrow>
                (case memory_alloc env s of
                   (s, None) \<Rightarrow>
                     (vsay LOG_FATAL (me_fmt env ''Failed to allocate buffer for thread #%d!'' [A_int (int i)]) s, None)
                 | (s, Some buf) \<Rightarrow>
                     (memory_ready env buf
                        (me_fmt env ''Failed to enable PTE metadata for buffer %d'' [A_int (int i)])
                        (me_fmt env ''PTE metadata enabled for buffer %d at %p'' [A_int (int i), A_int (uint buf)]) s,
                      Some buf))) of
        (s, None) \<Rightarrow> (s, False)
      | (s, Some buf) \<Rightarrow>
          memory_threads env shared is
            (tset (\<lambda>t. t\<lparr>buffers := (buffers t)[i := buf],
                     thread_counters := (thread_counters t)[i := thread_share t (g_threads (vglob s))]\<rparr>) s))"

text \<open>The shared buffer: nothing in local scope, else the buffer if there is one.\<close>

definition memory_shared :: "'k mem_env \<Rightarrow> 'k mem_state \<Rightarrow> 'k mem_state \<times> u64 option \<times> bool" where
  "memory_shared env s =
     (if memory_scope (v_test s) = SB_MEM_SCOPE_LOCAL then (s, None, True)
      else case memory_alloc env s of
        (s, None) \<Rightarrow> (vsay LOG_FATAL ''Failed to allocate buffer!'' s, None, False)
      | (s, Some buf) \<Rightarrow>
          (memory_ready env buf ''Failed to enable PTE metadata for global buffer''
             (me_fmt env ''PTE metadata enabled for global buffer at %p'' [A_int (uint buf)]) s, Some buf, True))"

definition memory_init :: "'k mem_env \<Rightarrow> 'k mem_state \<Rightarrow> 'k mem_state \<times> int" where
  "memory_init env s =
     (case memory_settings env s of
        None \<Rightarrow> (tset (\<lambda>t. t\<lparr>mem_dead := True\<rparr>) s, 1)
      | Some (s, ok) \<Rightarrow>
          if \<not> ok then (s, 1)
          else
            let (s, shared, ok) = memory_shared env s
            in if \<not> ok then (s, 1)
               else if \<not> me_counters_ok env \<or> \<not> me_buffers_ok env
               then (vsay LOG_FATAL ''Failed to allocate thread-local memory!'' s, 1)
               else
                 let n = unat (g_threads (vglob s));
                     s = tset (\<lambda>t. t\<lparr>buffers := replicate n 0, thread_counters := replicate n 0\<rparr>) s;
                     (s, ok) = memory_threads env shared [0..<n] s
                 in if \<not> ok then (s, 1)
                    else (vset (\<lambda>g. g\<lparr>g_max_events := 0\<rparr>) s, 0))"

section \<open>Events\<close>

definition memory_next_event :: "nat \<Rightarrow> 'k mem_state \<Rightarrow> 'k mem_state \<times> unit option" where
  "memory_next_event wid s =
     (let t = v_test s
      in if memory_total_size t > 0 then
           let n = thread_counters t ! wid;
               s = tset (\<lambda>t. t\<lparr>thread_counters := (thread_counters t)[wid := n - 1]\<rparr>) s
           in (s, if n = 0 then None else Some ())
         else (s, Some ()))"

text \<open>One word: the system call when metadata are on, then the access.\<close>

definition read_word :: "'k mem_env \<Rightarrow> nat \<Rightarrow> u64 \<Rightarrow> 'k mem_state \<Rightarrow> 'k mem_state" where
  "read_word env wid addr s =
     (let os = me_os env;
          s = (if pte_meta_enabled (v_test s) then
                 fst (on_machine (get_pte_meta os addr
                        (if pte_meta_type (v_test s) = 0 then stack_word os wid else stack_buffer os wid)) s)
               else s)
      in fst (on_machine (load_u64 addr) s))"

definition set_word_meta :: "'k mem_env \<Rightarrow> nat \<Rightarrow> u64 \<Rightarrow> u64 \<Rightarrow> 'k mem_state \<Rightarrow> 'k mem_state" where
  "set_word_meta env wid addr w s =
     (let direct = (pte_meta_type (v_test s) = 0)
      in case on_machine (if direct then set_pte_meta_direct (me_os env) wid addr w
                          else set_pte_meta_structured (me_os env) addr 1 0x1234 (le_bytes 8 w)) s of
           (s, None) \<Rightarrow> s
         | (s, Some r) \<Rightarrow>
             if r \<noteq> 0
             then vsay LOG_DEBUG (me_fmt env (if direct then ''set_pte_meta_direct failed for addr %lx''
                    else ''set_pte_meta_structured failed for addr %lx'') [A_int (uint addr)]) s
             else s)"

definition write_word :: "'k mem_env \<Rightarrow> nat \<Rightarrow> u64 \<Rightarrow> u64 \<Rightarrow> u64 \<Rightarrow> 'k mem_state \<Rightarrow> 'k mem_state" where
  "write_word env wid addr meta w s =
     (let s = (if pte_meta_enabled (v_test s) then set_word_meta env wid addr meta s else s)
      in fst (on_machine (store_u64 addr w) s))"

definition word_addr :: "nat \<Rightarrow> 'k mem_state \<Rightarrow> nat \<Rightarrow> u64" where
  "word_addr wid s i = buffers (v_test s) ! wid + 8 * of_nat i"

text \<open>A random offset; \<open>None\<close> from the generator is undefined behaviour there.\<close>

definition random_offset :: "'k mem_env \<Rightarrow> nat \<Rightarrow> 'k mem_state \<Rightarrow> 'k mem_state \<times> nat" where
  "random_offset env wid s =
     (case sb_rand_default (me_rand env) 0 (word_of_int (max_offset (v_test s))) (v_rng s wid) of
        None \<Rightarrow> (tset (\<lambda>t. t\<lparr>mem_dead := True\<rparr>) s, 0)
      | Some (rng, x) \<Rightarrow> (s\<lparr>v_rng := (v_rng s)(wid := rng)\<rparr>, unat x))"

definition event_rnd_none :: "'k mem_env \<Rightarrow> nat \<Rightarrow> 'k mem_state \<Rightarrow> 'k mem_state \<times> int" where
  "event_rnd_none env wid s =
     (fold (\<lambda>i s. fst (random_offset env wid s)) [0..<nat (max_offset (v_test s) + 1)] s, 0)"

definition event_rnd_read :: "'k mem_env \<Rightarrow> nat \<Rightarrow> 'k mem_state \<Rightarrow> 'k mem_state \<times> int" where
  "event_rnd_read env wid s =
     (fold (\<lambda>i s. let (s, offset) = random_offset env wid s in read_word env wid (word_addr wid s offset) s)
        [0..<nat (max_offset (v_test s) + 1)] s, 0)"

definition event_rnd_write :: "'k mem_env \<Rightarrow> nat \<Rightarrow> 'k mem_state \<Rightarrow> 'k mem_state \<times> int" where
  "event_rnd_write env wid s =
     (fold (\<lambda>i s. let (s, offset) = random_offset env wid s
                 in write_word env wid (word_addr wid s offset) (of_nat i) (of_nat i) s)
        [0..<nat (max_offset (v_test s) + 1)] s, 0)"

text \<open>The sequential loops stop before the address \<open>buf + max_offset\<close>, the one without memory
  operations after it; that one has no effect.\<close>

definition event_seq_none :: "nat \<Rightarrow> 'k mem_state \<Rightarrow> 'k mem_state \<times> int" where
  "event_seq_none wid s = (s, 0)"

definition event_seq_read :: "'k mem_env \<Rightarrow> nat \<Rightarrow> 'k mem_state \<Rightarrow> 'k mem_state \<times> int" where
  "event_seq_read env wid s =
     (fold (\<lambda>i s. read_word env wid (word_addr wid s i) s) [0..<nat (max_offset (v_test s))] s, 0)"

definition event_seq_write :: "'k mem_env \<Rightarrow> nat \<Rightarrow> 'k mem_state \<Rightarrow> 'k mem_state \<times> int" where
  "event_seq_write env wid s =
     (fold (\<lambda>i s. write_word env wid (word_addr wid s i) (of_nat i) (of_nat wid) s)
        [0..<nat (max_offset (v_test s))] s, 0)"

text \<open>\<open>memory_init\<close> stores the operation for the settings in the table.\<close>

definition memory_execute_event :: "'k mem_env \<Rightarrow> nat \<Rightarrow> 'k mem_state \<Rightarrow> 'k mem_state \<times> int" where
  "memory_execute_event env wid s =
     (let rnd = memory_access_rnd (v_test s)
      in case memory_oper (v_test s) of
           SB_MEM_OP_NONE \<Rightarrow> if rnd then event_rnd_none env wid s else event_seq_none wid s
         | SB_MEM_OP_READ \<Rightarrow> if rnd then event_rnd_read env wid s else event_seq_read env wid s
         | SB_MEM_OP_WRITE \<Rightarrow> if rnd then event_rnd_write env wid s else event_seq_write env wid s)"

section \<open>Reports\<close>

definition memory_print_mode :: "'k mem_env \<Rightarrow> 'k mem_state \<Rightarrow> 'k mem_state" where
  "memory_print_mode env s =
     (let t = v_test s; note = (\<lambda>f x. vsay LOG_NOTICE (me_fmt env f [A_int x]));
          s = vsay LOG_NOTICE ''Running memory speed test with the following options:'' s;
          s = note ''  block size: %ldKiB'' (memory_block_size t sdiv 1024) s;
          s = note ''  total size: %ldMiB'' (memory_total_size t sdiv 1024 sdiv 1024) s;
          s = vsay LOG_NOTICE (''  operation: '' @ (case memory_oper t of SB_MEM_OP_READ \<Rightarrow> ''read''
                | SB_MEM_OP_WRITE \<Rightarrow> ''write'' | SB_MEM_OP_NONE \<Rightarrow> ''none'')) s;
          s = vsay LOG_NOTICE (''  scope: '' @ (case memory_scope t of SB_MEM_SCOPE_GLOBAL \<Rightarrow> ''global''
                | SB_MEM_SCOPE_LOCAL \<Rightarrow> ''local'')) s;
          s = (if pte_meta_enabled t then note ''  PTE metadata: enabled (type=%d)'' (pte_meta_type t) s
               else vsay LOG_NOTICE ''  PTE metadata: disabled'' s)
      in vsay LOG_NOTICE [] s)"

text \<open>The product of the number of events and the block size is an unsigned 64-bit one.\<close>

definition transferred :: "sb_stat_t \<Rightarrow> 'k mem_test \<Rightarrow> real" where
  "transferred st t = real (unat (st_events st * word_of_int (memory_block_size t))) / (1024 * 1024)"

definition memory_report_intermediate :: "sprintf \<Rightarrow> 'k mem_test \<Rightarrow> sb_stat_t \<Rightarrow> prog \<Rightarrow> prog" where
  "memory_report_intermediate fmt t st =
     stamp fmt (st_time_total st) (fmt ''%4.2f MiB/sec'' [A_real (transferred st t / st_time_interval st)])"

definition memory_report_cumulative :: "sprintf \<Rightarrow> timespec \<Rightarrow> 'k mem_test \<Rightarrow> sb_stat_t \<Rightarrow> prog \<Rightarrow> prog" where
  "memory_report_cumulative fmt now t st p =
     (let p = say LOG_NOTICE (fmt (''Total operations: %lu (%8.2f per second)'' @ [CHR 0x0A])
            [A_int (uint (st_events st)), A_real (real (unat (st_events st)) / st_time_interval st)]) p;
          mb = transferred st t;
          p = (if memory_oper t \<noteq> SB_MEM_OP_NONE
               then say LOG_NOTICE (fmt (''%4.2f MiB transferred (%4.2f MiB/sec)'' @ [CHR 0x0A])
                      [A_real mb, A_real (mb / st_time_interval st)]) p
               else p)
      in sb_report_cumulative fmt now st p)"

text \<open>The table of operations and the test; \<open>now\<close> is the reading of the clock by the report.\<close>

definition memory_ops :: "'k mem_env \<Rightarrow> timespec \<Rightarrow> ('k mem_test, unit) sb_operations" where
  "memory_ops env now =
     \<lparr>op_init = Some (memory_init env), op_prepare = None, op_thread_init = None,
      op_print_mode = Some (memory_print_mode env), op_next_event = memory_next_event,
      op_execute_event = (\<lambda>_. memory_execute_event env),
      op_report_intermediate = (\<lambda>t. Some (memory_report_intermediate (me_fmt env) t)),
      op_report_cumulative = (\<lambda>t. Some (memory_report_cumulative (me_fmt env) now t)),
      op_thread_run = None, op_thread_done = None, op_cleanup = None, op_done = None\<rparr>"

definition memory_test :: "'k mem_env \<Rightarrow> timespec \<Rightarrow> ('k mem_test, unit) sb_test" where
  "memory_test env now =
     \<lparr>t_sname = ''memory'', t_lname = ''Memory functions speed test'', t_ops = memory_ops env now,
      t_help = None, t_prepare = None, t_run = None, t_cleanup = None,
      t_args = Some (memory_args (me_large_pages env))\<rparr>"

end
