(* ===== verification/MemProps.thy ===== *)
theory MemProps
  imports MemTest RandProps
begin

text \<open>
  The memory benchmark: the rounding of \<open>hugetlb_alloc\<close>, what a successful initialisation leaves
  behind, the number of events a worker executes, and the events themselves on the
  documented kernel.
\<close>

section \<open>Sizes\<close>

text \<open>For a block size that is a power of two, \<open>hugetlb_alloc\<close> asks for one byte less than the size
  plus a large page when the block is at most a large page of 4 MB, and for one byte less than
  the block itself when the block is larger: the size is never rounded up to large pages.\<close>

theorem hugetlb_size_pow2:
  assumes "k < 64"
  shows "hugetlb_size (2 ^ k) = (if k \<le> 22 then 2 ^ k + LARGE_PAGE_SIZE - 1 else 2 ^ k - 1)"
proof -
  have pred: "2 ^ k - 1 = (mask k :: u64)" by (simp add: mask_eq_exp_minus_1)
  have large: "bit LARGE_PAGE_SIZE n \<longleftrightarrow> n = 22" for n
  proof -
    have "LARGE_PAGE_SIZE = 2 ^ 22" by (simp add: LARGE_PAGE_SIZE_def)
    moreover have "bit (2 ^ 22 :: u64) n \<longleftrightarrow> n = 22" by (subst bit_exp_iff) auto
    ultimately show ?thesis by metis
  qed
  show ?thesis
  proof (cases "k \<le> 22")
    case True
    then have "mask k AND NOT LARGE_PAGE_SIZE = (mask k :: u64)"
      by (intro bit_eqI) (auto simp: bit_simps large)
    moreover have "2 ^ k + LARGE_PAGE_SIZE - 1 = (2 ^ k - 1) + LARGE_PAGE_SIZE" by simp
    ultimately show ?thesis using True by (simp only: hugetlb_size_def pred if_True)
  next
    case False
    have "(mask k AND NOT LARGE_PAGE_SIZE) + LARGE_PAGE_SIZE = (mask k AND NOT LARGE_PAGE_SIZE) OR LARGE_PAGE_SIZE"
      by (rule disjunctive_add) (simp add: bit_simps)
    also have "\<dots> = mask k"
      by (rule bit_eqI) (use False assms in \<open>auto simp: bit_simps large\<close>)
    finally show ?thesis using False by (simp add: hugetlb_size_def pred)
  qed
qed

theorem hugetlb_size_pow2_witness: "hugetlb_size (2 ^ 23) = 2 ^ 23 - 1"
  using hugetlb_size_pow2 [of 23] by simp

section \<open>Initialisation\<close>

definition power_of_two :: "int \<Rightarrow> bool" where
  "power_of_two b \<longleftrightarrow> (\<exists>k. b = 2 ^ k)"

lemma and_pred_zero:
  assumes "0 < b"
  shows "b AND (b - 1) = 0 \<longleftrightarrow> power_of_two (b :: int)"
  using assms
proof (induction "nat b" arbitrary: b rule: less_induct)
  case less
  show ?case
  proof (cases "even b")
    case True
    then obtain c where c: "b = 2 * c" ..
    then have "0 < c" "nat c < nat b" using less.prems by auto
    moreover have "b AND (b - 1) = 2 * (c AND (c - 1))"
    proof -
      have "(2 * c - 1) div 2 = c - 1" by simp
      then show ?thesis using c and_rec [of b "b - 1"] by simp
    qed
    moreover have "power_of_two b \<longleftrightarrow> power_of_two c"
    proof
      assume "power_of_two b"
      then obtain k where "b = 2 ^ k" by (auto simp: power_of_two_def)
      then show "power_of_two c" using c less.prems True by (cases k) (auto simp: power_of_two_def)
    next
      assume "power_of_two c"
      then obtain k where "c = 2 ^ k" by (auto simp: power_of_two_def)
      then have "b = 2 ^ Suc k" using c by simp
      then show "power_of_two b" unfolding power_of_two_def by blast
    qed
    ultimately show ?thesis using less.hyps [of c] by simp
  next
    case False
    then have "(b - 1) div 2 = b div 2" by presburger
    with False have "b AND (b - 1) = 2 * (b div 2)" using and_rec [of b "b - 1"] by simp
    moreover have "power_of_two b \<longleftrightarrow> b = 1"
    proof
      assume "power_of_two b"
      then obtain k where "b = 2 ^ k" by (auto simp: power_of_two_def)
      then show "b = 1" using False by (cases k) auto
    next
      assume "b = 1"
      then show "power_of_two b" unfolding power_of_two_def by (metis power_0)
    qed
    ultimately show ?thesis using less.prems by (auto elim!: oddE)
  qed
qed

lemma tset_simps [simp]:
  "v_test (tset f s) = f (v_test s)" "v_prog (tset f s) = v_prog s" "v_rng (tset f s) = v_rng s"
  "v_test (vsay p t s) = v_test s" "v_test (vset g s) = v_test s"
  by (simp_all add: tset_def vsay_def vset_def)

text \<open>What neither the machine nor the messages change: the settings, and the globals of the run.\<close>

definition settings :: "'k mem_state \<Rightarrow> 'k mem_test" where
  "settings s = (v_test s)\<lparr>machine := undefined, buffers := [], thread_counters := [], mem_dead := False\<rparr>"

definition arrays :: "'k mem_state \<Rightarrow> u64 list \<times> u64 list" where
  "arrays s = (buffers (v_test s), thread_counters (v_test s))"

definition quiet_change :: "'k mem_state \<Rightarrow> 'k mem_state \<Rightarrow> bool" where
  "quiet_change s s' \<longleftrightarrow> settings s' = settings s \<and> arrays s' = arrays s \<and> vglob s' = vglob s \<and>
     p_counters (v_prog s') = p_counters (v_prog s)"

lemma quiet_trans: "quiet_change s t \<Longrightarrow> quiet_change t u \<Longrightarrow> quiet_change s u"
  by (simp add: quiet_change_def)

lemma quiet_refl [simp]: "quiet_change s s"
  by (simp add: quiet_change_def)

lemma quiet_say [simp]: "quiet_change s (vsay p t s)"
  by (simp add: quiet_change_def settings_def arrays_def vsay_def say_def)

lemma quiet_errno [simp]: "quiet_change s (verrno e p t s)"
  by (auto simp: quiet_change_def settings_def arrays_def verrno_def log_errno_def Let_def split: option.splits)

lemma quiet_dead [simp]: "quiet_change s (tset (\<lambda>t. t\<lparr>mem_dead := b\<rparr>) s)"
  by (simp add: quiet_change_def settings_def arrays_def)

lemma quiet_rng [simp]: "quiet_change s (s\<lparr>v_rng := r\<rparr>)"
  by (simp add: quiet_change_def settings_def arrays_def)

lemma quiet_machine [simp]: "quiet_change s (fst (on_machine p s))"
  by (auto simp: quiet_change_def settings_def arrays_def on_machine_def split: prod.splits outcome.splits)

lemma quiet_machine_eq: "on_machine p s = (s', r) \<Longrightarrow> quiet_change s s'"
  using quiet_machine [of s p] by simp

lemma quiet_alloc: "memory_alloc env s = (s', r) \<Longrightarrow> quiet_change s s'"
  by (auto simp: memory_alloc_def hugetlb_alloc_def Let_def split: prod.splits option.splits if_splits
      dest!: quiet_machine_eq intro: quiet_trans)

lemma quiet_ready [simp]: "quiet_change s (memory_ready env b f e s)"
proof -
  let ?s = "fst (on_machine (store_bytes b (replicate (nat (memory_block_size (v_test s))) 0)) s)"
  let ?e = "on_machine (enable_pte_meta (me_os env) b) ?s"
  have "quiet_change s (fst ?e)" by (rule quiet_trans [of s ?s]) simp_all
  moreover have "memory_ready env b f e s \<in> {?s, fst ?e, vsay LOG_WARNING f (fst ?e), vsay LOG_INFO e (fst ?e)}"
    by (auto simp: memory_ready_def Let_def split: prod.splits option.splits)
  ultimately show ?thesis by (auto intro: quiet_trans)
qed

lemma settings_parts:
  assumes "settings s' = settings s"
  shows "memory_block_size (v_test s') = memory_block_size (v_test s)" "memory_total_size (v_test s') = memory_total_size (v_test s)"
    "max_offset (v_test s') = max_offset (v_test s)" "pte_meta_enabled (v_test s') = pte_meta_enabled (v_test s)"
    "pte_meta_type (v_test s') = pte_meta_type (v_test s)" "memory_oper (v_test s') = memory_oper (v_test s)"
    "memory_access_rnd (v_test s') = memory_access_rnd (v_test s)" "memory_scope (v_test s') = memory_scope (v_test s)"
  using assms by (auto simp: settings_def dest: arg_cong [where f = memory_block_size]
      arg_cong [where f = memory_total_size] arg_cong [where f = max_offset] arg_cong [where f = pte_meta_enabled]
      arg_cong [where f = pte_meta_type] arg_cong [where f = memory_oper] arg_cong [where f = memory_access_rnd]
      arg_cong [where f = memory_scope])

lemma quiet_parts:
  assumes "quiet_change s s'"
  shows "settings s' = settings s" "buffers (v_test s') = buffers (v_test s)"
    "thread_counters (v_test s') = thread_counters (v_test s)" "vglob s' = vglob s"
    "p_counters (v_prog s') = p_counters (v_prog s)"
  using assms by (simp_all add: quiet_change_def arrays_def)

lemma memory_threads_spec:
  assumes "memory_threads env shared is s = (s', True)" "length (thread_counters (v_test s)) = n"
    "length (buffers (v_test s)) = n" "\<forall>i \<in> set is. i < n" "distinct is"
  shows "settings s' = settings s \<and> vglob s' = vglob s \<and> length (buffers (v_test s')) = n \<and>
    length (thread_counters (v_test s')) = n \<and>
    (\<forall>i < n. i \<in> set is \<longrightarrow> thread_counters (v_test s') ! i = thread_share (v_test s) (g_threads (vglob s)) \<and>
       (\<forall>b. shared = Some b \<longrightarrow> buffers (v_test s') ! i = b)) \<and>
    (\<forall>i < n. i \<notin> set is \<longrightarrow> thread_counters (v_test s') ! i = thread_counters (v_test s) ! i \<and>
       buffers (v_test s') ! i = buffers (v_test s) ! i)"
  using assms
proof (induction "is" arbitrary: s)
  case (Cons i "is")
  obtain t b where t: "quiet_change s t" "\<forall>c. shared = Some c \<longrightarrow> b = c"
    and run: "memory_threads env shared is
      (tset (\<lambda>t'. t'\<lparr>buffers := (buffers t')[i := b],
         thread_counters := (thread_counters t')[i := thread_share t' (g_threads (vglob t))]\<rparr>) t) = (s', True)"
  proof (cases shared)
    case None
    then obtain x b where a: "memory_alloc env s = (x, Some b)"
      using Cons.prems(1) by (cases "memory_alloc env s"; cases "snd (memory_alloc env s)") auto
    let ?t = "memory_ready env b (me_fmt env ''Failed to enable PTE metadata for buffer %d'' [A_int (int i)])
        (me_fmt env ''PTE metadata enabled for buffer %d at %p'' [A_int (int i), A_int (uint b)]) x"
    have "quiet_change s ?t" using quiet_trans [OF quiet_alloc [OF a] quiet_ready] .
    then show thesis using Cons.prems(1) that [of ?t b] by (simp add: None a)
  next
    case (Some b)
    then show thesis using Cons.prems(1) that [of s b] by simp
  qed
  let ?u = "tset (\<lambda>t'. t'\<lparr>buffers := (buffers t')[i := b],
         thread_counters := (thread_counters t')[i := thread_share t' (g_threads (vglob t))]\<rparr>) t"
  note q = quiet_parts [OF t(1)]
  have share: "thread_share (v_test t) (g_threads (vglob t)) = thread_share (v_test s) (g_threads (vglob s))"
    "thread_share (v_test ?u) (g_threads (vglob ?u)) = thread_share (v_test s) (g_threads (vglob s))"
    by (simp_all add: thread_share_def q settings_parts [OF q(1)])
  have u: "settings ?u = settings s" "vglob ?u = vglob s"
    using t(1) by (simp_all add: quiet_change_def settings_def)
  have len: "length (thread_counters (v_test ?u)) = n" "length (buffers (v_test ?u)) = n"
    using Cons.prems(2,3) by (simp_all add: q)
  from Cons.IH [OF run len] Cons.prems(4,5) u q share t(2) Cons.prems(2,3) show ?case
    by (auto simp: nth_list_update)
qed simp

lemma memory_settings_spec:
  assumes "memory_settings env s = Some (s', True)"
  shows "8 \<le> memory_block_size (v_test s') \<and> power_of_two (memory_block_size (v_test s')) \<and>
    memory_block_size (v_test s') < 2 ^ 63 \<and>
    max_offset (v_test s') = memory_block_size (v_test s') div 8 - 1 \<and> pte_meta_type (v_test s') \<in> {0, 1} \<and>
    vglob s' = vglob s \<and> p_counters (v_prog s') = p_counters (v_prog s) \<and> mem_dead (v_test s') = mem_dead (v_test s) \<and>
    machine (v_test s') = machine (v_test s)"
proof -
  let ?o = "l_opts (p_log (v_prog s))"
  let ?b = "sint (sb_get_value_size ?o ''memory-block-size'')"
  have b: "8 \<le> ?b" "?b AND (?b - 1) = 0"
    using assms by (simp_all add: memory_settings_def Let_def split: if_splits)
  then have pow: "power_of_two ?b" using and_pred_zero [of ?b] by simp
  have top: "?b < 2 ^ 63" using sint_less [of "sb_get_value_size ?o ''memory-block-size''"] by simp
  note eq = assms [unfolded memory_settings_def Let_def]
  obtain sc where sc: "sb_get_value_string ?o ''memory-scope'' = Some sc" "sc = ''global'' \<or> sc = ''local''"
    using eq b by (cases "sb_get_value_string ?o ''memory-scope''") (simp_all split: if_splits)
  obtain ty where ty: "sb_get_value_int ?o ''memory-pte-meta-type'' = Some ty" "ty = 0 \<or> ty = 1"
    using eq b sc by (cases "sb_get_value_int ?o ''memory-pte-meta-type''") (simp_all split: if_splits)
  obtain oper where oper: "sb_get_value_string ?o ''memory-oper'' = Some oper" "oper \<in> {''write'', ''read'', ''none''}"
    using eq b sc ty by (cases "sb_get_value_string ?o ''memory-oper''") (simp_all split: if_splits)
  obtain m where m: "sb_get_value_string ?o ''memory-access-mode'' = Some m" "m = ''seq'' \<or> m = ''rnd''"
    using eq b sc ty oper by (cases "sb_get_value_string ?o ''memory-access-mode''") (simp_all split: if_splits)
  have legal: "(sc \<noteq> ''global'' \<and> sc \<noteq> ''local'') = False" "(ty \<noteq> 0 \<and> ty \<noteq> 1) = False"
    "(oper \<notin> {''write'', ''read'', ''none''}) = False" "(m \<noteq> ''seq'' \<and> m \<noteq> ''rnd'') = False"
    "(?b < 8 \<or> ?b AND (?b - 1) \<noteq> 0) = False"
    using sc(2) ty(2) oper(2) m(2) b by auto
  note eq = eq [unfolded legal if_False tset_simps sc(1) ty(1) oper(1) m(1) option.case]
  from eq [symmetric] show ?thesis
    using b(1) pow top ty(2) by (simp add: legal sc(1) ty(1) oper(1) m(1))
qed

lemma quiet_shared: "memory_shared env s = (s', sh, ok) \<Longrightarrow> quiet_change s s'"
  by (auto simp: memory_shared_def split: if_splits prod.splits option.splits
      dest: quiet_alloc intro: quiet_trans)

lemma shared_scope:
  "memory_shared env s = (s', sh, True) \<Longrightarrow> memory_scope (v_test s) = SB_MEM_SCOPE_GLOBAL \<Longrightarrow> \<exists>b. sh = Some b"
  by (auto simp: memory_shared_def split: if_splits prod.splits option.splits)

text \<open>Initialisation that succeeds has found a block size that is a power of two of at least 8
  bytes and a metadata type 0 or 1, has given every thread a buffer, the same one in global
  scope, and an equal share of the blocks to transfer, and has switched the runner's own limit
  on the number of events off.\<close>

theorem memory_init_ready:
  assumes "memory_init env s = (s', 0)"
  defines "t \<equiv> v_test s'" and "n \<equiv> unat (g_threads (vglob s))"
  shows "8 \<le> memory_block_size t \<and> power_of_two (memory_block_size t) \<and>
    max_offset t = memory_block_size t div 8 - 1 \<and> pte_meta_type t \<in> {0, 1} \<and>
    length (buffers t) = n \<and> length (thread_counters t) = n \<and>
    (\<forall>i < n. thread_counters t ! i = word_of_int ((memory_total_size t sdiv memory_block_size t) sdiv int n)) \<and>
    (memory_scope t = SB_MEM_SCOPE_GLOBAL \<longrightarrow> (\<forall>i < n. \<forall>j < n. buffers t ! i = buffers t ! j)) \<and>
    vglob s' = (vglob s)\<lparr>g_max_events := 0\<rparr>"
proof -
  obtain a where a: "memory_settings env s = Some (a, True)"
    using assms(1) by (auto simp: memory_init_def split: option.splits if_splits)
  note set = memory_settings_spec [OF a]
  obtain c sh where c: "memory_shared env a = (c, sh, True)"
    using assms(1) a by (cases "memory_shared env a") (auto simp: memory_init_def split: if_splits)
  note qc = quiet_shared [OF c]
  note q = quiet_parts [OF qc]
  let ?z = "tset (\<lambda>t. t\<lparr>buffers := replicate n 0, thread_counters := replicate n 0\<rparr>) c"
  have nn: "unat (g_threads (vglob c)) = n" using q(4) set by (simp add: n_def)
  obtain d where d: "memory_threads env sh [0..<n] ?z = (d, True)" "s' = vset (\<lambda>g. g\<lparr>g_max_events := 0\<rparr>) d"
    using assms(1) a c nn by (auto simp: memory_init_def Let_def split: if_splits prod.splits)
  have "settings d = settings ?z \<and> vglob d = vglob ?z \<and> length (buffers (v_test d)) = n \<and>
    length (thread_counters (v_test d)) = n \<and>
    (\<forall>i < n. thread_counters (v_test d) ! i = thread_share (v_test ?z) (g_threads (vglob ?z)) \<and>
       (\<forall>b. sh = Some b \<longrightarrow> buffers (v_test d) ! i = b))"
    using memory_threads_spec [OF d(1), of n] by auto
  moreover have za: "settings ?z = settings a" using q(1) by (simp add: settings_def)
  ultimately have sd: "settings d = settings a" and rest: "vglob d = vglob s"
    "length (buffers (v_test d)) = n" "length (thread_counters (v_test d)) = n"
    "\<forall>i < n. thread_counters (v_test d) ! i = thread_share (v_test ?z) (g_threads (vglob ?z))"
    "\<forall>b. sh = Some b \<longrightarrow> (\<forall>i < n. buffers (v_test d) ! i = b)"
    using set q(4) by simp_all
  have "uint (g_threads (vglob ?z)) = int n" using set q(4) by (simp add: n_def)
  then have share: "thread_share (v_test ?z) (g_threads (vglob ?z)) =
      word_of_int ((memory_total_size (v_test a) sdiv memory_block_size (v_test a)) sdiv int n)"
    by (simp only: thread_share_def settings_parts [OF za])
  have same: "memory_scope (v_test a) = SB_MEM_SCOPE_GLOBAL \<Longrightarrow> \<forall>i < n. \<forall>j < n. buffers (v_test d) ! i = buffers (v_test d) ! j"
    using shared_scope [OF c] rest(5) by metis
  have counters: "\<forall>i < n. thread_counters (v_test d) ! i =
      word_of_int ((memory_total_size (v_test a) sdiv memory_block_size (v_test a)) sdiv int n)"
    using rest(4) share by simp
  have fin: "v_test s' = v_test d" "vglob s' = (vglob s)\<lparr>g_max_events := 0\<rparr>" by (simp_all add: d(2) rest(1))
  show ?thesis
    unfolding t_def fin settings_parts [OF sd] using set counters same rest(2,3) by blast
qed

section \<open>How many events a worker executes\<close>

lemma quiet_read [simp]: "quiet_change s (read_word env w a s)"
  by (auto simp: read_word_def Let_def intro: quiet_trans [OF _ quiet_machine])

lemma quiet_meta [simp]: "quiet_change s (set_word_meta env w a x s)"
  by (auto simp: set_word_meta_def Let_def split: prod.splits option.splits dest!: quiet_machine_eq intro: quiet_trans)

lemma quiet_write [simp]: "quiet_change s (write_word env w a m x s)"
  by (auto simp: write_word_def Let_def intro: quiet_trans [OF _ quiet_machine])

lemma quiet_random: "quiet_change s (fst (random_offset env w s))"
  by (auto simp: random_offset_def split: option.splits)

lemma quiet_fold: "(\<And>i s. quiet_change s (f i s)) \<Longrightarrow> quiet_change s (fold f is s)"
  by (induction "is" arbitrary: s) (auto intro: quiet_trans)

lemma quiet_event: "quiet_change s (fst (memory_execute_event env w s))" "snd (memory_execute_event env w s) = 0"
  by (auto simp: memory_execute_event_def event_rnd_none_def event_rnd_read_def event_rnd_write_def event_seq_none_def
      event_seq_read_def event_seq_write_def Let_def case_prod_beta split: mem_op.splits
      intro!: quiet_fold quiet_trans [OF quiet_random quiet_read] quiet_trans [OF quiet_random quiet_write]
      intro: quiet_random)

definition event_count :: "nat \<Rightarrow> 't ev_state \<Rightarrow> u64 option" where
  "event_count w s = map_option (\<lambda>r. sb_counter_val r w (cnt_index SB_CNT_EVENT)) (sb_counters (p_counters (v_prog s)))"

definition counted :: "nat \<Rightarrow> 't ev_state \<Rightarrow> bool" where
  "counted w s \<longleftrightarrow> (\<exists>r. sb_counters (p_counters (v_prog s)) = Some r \<and> w < length r \<and> cnt_index SB_CNT_EVENT < length (r ! w))"

lemma event_stop_counts:
  assumes "counted w s"
  shows "counted w (sb_event_stop w s)" "event_count w (sb_event_stop w s) = map_option (\<lambda>n. n + 1) (event_count w s)"
  using assms by (auto simp: counted_def event_count_def stop_stats(2) sb_counter_inc_def sb_counter_add_def sb_counter_val_def)

lemma worker_loop:
  assumes "unlimited s" "0 < memory_total_size (v_test s)" "wid < length (thread_counters (v_test s))" "counted wid s"
    and "unat (thread_counters (v_test s) ! wid) < fuel"
  shows "\<exists>s'. thread_run (memory_ops env now) others wid k fuel 0 s = Some (s', Returned 0) \<and>
    event_count wid s' = map_option (\<lambda>n. n + thread_counters (v_test s) ! wid) (event_count wid s)"
  using assms
proof (induction fuel arbitrary: s k)
  case (Suc fuel)
  note more = unlimited_more [OF Suc.prems(1)]
  let ?n = "thread_counters (v_test s) ! wid"
  let ?t = "tset (\<lambda>t. t\<lparr>thread_counters := (thread_counters t)[wid := ?n - 1]\<rparr>) s"
  have next_ev: "memory_next_event wid s = (?t, if ?n = 0 then None else Some ())"
    using Suc.prems(2) by (simp add: memory_next_event_def Let_def)
  show ?case
  proof (cases "?n = 0")
    case True
    have "event_count wid ?t = event_count wid s" by (simp add: event_count_def)
    then show ?thesis using True more next_ev
      by (simp add: memory_ops_def option.map_ident)
  next
    case False
    let ?u = "sb_event_start wid ?t"
    let ?e = "fst (memory_execute_event env wid ?u)"
    let ?v = "sb_event_stop wid ?e"
    note q = quiet_parts [OF quiet_event(1) [of ?u env wid]]
    have ct: "counted wid ?e" "event_count wid ?e = event_count wid s"
      using Suc.prems(4) by (simp_all add: counted_def event_count_def q)
    have g: "unlimited ?v" using Suc.prems(1) unlimited_cong [of ?e s] q(4) by simp
    have n: "thread_counters (v_test ?v) ! wid = ?n - 1" "wid < length (thread_counters (v_test ?v))"
      using Suc.prems(3) by (simp_all add: q)
    have tot: "memory_total_size (v_test ?v) = memory_total_size (v_test s)"
      by (simp add: settings_parts [OF q(1)])
    have "unat (?n - 1) < fuel" 
    proof -
      have "unat ?n \<noteq> 0" using False by (simp only: unat_eq_zero simp_thms)
      then show ?thesis using Suc.prems(5) False by (simp add: unat_minus_one)
    qed
    then have "\<exists>s'. thread_run (memory_ops env now) others wid (k + 1) fuel 0 ?v = Some (s', Returned 0) \<and>
        event_count wid s' = map_option (\<lambda>n. n + (?n - 1)) (event_count wid ?v)"
      using Suc.IH [of ?v "k + 1"] Suc.prems g n tot event_stop_counts(1) [OF ct(1)] by simp
    moreover have "map_option (\<lambda>n. n + (?n - 1)) (event_count wid ?v) = map_option (\<lambda>n. n + ?n) (event_count wid s)"
      unfolding event_stop_counts(2) [OF ct(1)] ct(2) by (simp add: option.map_comp comp_def)
    moreover have "thread_run (memory_ops env now) others wid k (Suc fuel) 0 s =
        thread_run (memory_ops env now) others wid (k + 1) fuel 0 ?v"
      using False more next_ev quiet_event(2) [of env wid ?u]
      by (simp add: memory_ops_def Let_def case_prod_beta)
    ultimately show ?thesis by simp
  qed
qed simp

text \<open>Without a time limit, an error or a rate, a worker of the memory test executes exactly as
  many events as its share, whatever the options of the test, counts every one of them and
  returns 0.\<close>

theorem memory_worker_events:
  assumes "unlimited s" "0 < memory_total_size (v_test s)" "wid < length (thread_counters (v_test s))" "counted wid s"
    and "unat (thread_counters (v_test s) ! wid) < fuel"
  shows "\<exists>s'. thread_run (memory_ops env now) others wid 0 fuel 0 s = Some (s', Returned 0) \<and>
    event_count wid s' = map_option (\<lambda>n. n + thread_counters (v_test s) ! wid) (event_count wid s)"
  by (rule worker_loop [OF assms])

section \<open>The events on the documented kernel\<close>

lemma on_machine_run:
  assumes "run_to V p st Q" "rel V st (machine (v_test s))" "\<not> mem_dead (v_test s)"
    and "\<And>r st'. Q r st' \<Longrightarrow> \<exists>x. r = Val x"
  obtains x st' M where "on_machine p s = (tset (\<lambda>t. t\<lparr>machine := M\<rparr>) s, Some x)" "rel V st' M" "Q (Val x) st'"
proof -
  obtain r st' M where "p (machine (v_test s)) = (r, M)" "rel V st' M" "Q r st'"
    using assms(1,2) unfolding run_to_def by blast
  then show thesis using assms(3) assms(4) [of r st'] that by (fastforce simp: on_machine_def)
qed

text \<open>What a thread \<open>wid\<close> finds and keeps: its buffer of \<open>n\<close> words at \<open>b\<close> holding \<open>bs\<close> and its word
  on the stack as separate blocks, beside the other blocks \<open>B\<close>.\<close>

definition mem_holds ::
  "('k \<Rightarrow> kview) \<Rightarrow> 'k os \<Rightarrow> nat \<Rightarrow> u64 \<Rightarrow> blocks \<Rightarrow> u8 list \<Rightarrow> kview \<Rightarrow> 'k mem_state \<Rightarrow> bool" where
  "mem_holds V os wid b B bs v s \<longleftrightarrow> \<not> mem_dead (v_test s) \<and>
     (\<exists>w e C. rel V (B(b \<mapsto> bs, stack_word os wid \<mapsto> w), v, e, C) (machine (v_test s)) \<and> length w = 8) \<and>
     b \<noteq> stack_word os wid"

lemma mem_holdsI:
  assumes "rel V (B(b \<mapsto> bs, stack_word os wid \<mapsto> w), v, e, C) (machine (v_test s))" "\<not> mem_dead (v_test s)"
    and "length w = 8" "b \<noteq> stack_word os wid"
  shows "mem_holds V os wid b B bs v s"
  using assms unfolding mem_holds_def by blast

lemma run_direct:
  assumes "documented V L demand os" "pen v (table_of addr)" "length w = 8" "b \<noteq> stack_word os wid"
  shows "run_to V (set_pte_meta_direct os wid addr x) (B(b \<mapsto> bs, stack_word os wid \<mapsto> w), v, e, C)
    (\<lambda>r st. r = Val 0 \<and> st = (B(b \<mapsto> bs, stack_word os wid \<mapsto> le_bytes 8 x),
       v\<lparr>stored := (stored v)(page_of addr \<mapsto> le_bytes 8 x)\<rparr>, e, C))"
  unfolding set_pte_meta_direct_def set_pte_meta_def
  by (rule run_seq, rule run_store_u64 [where bs = w])
    (use assms in \<open>auto intro!: run_set [OF assms(1)] simp: opened_def\<close>)

lemma set_direct_holds:
  assumes "documented V L demand (me_os env)" "pen v (table_of addr)" "pte_meta_type (v_test s) = 0"
    and "mem_holds V (me_os env) wid b B bs v s"
  shows "mem_holds V (me_os env) wid b B bs (v\<lparr>stored := (stored v)(page_of addr \<mapsto> le_bytes 8 x)\<rparr>)
    (set_word_meta env wid addr x s)"
proof -
  obtain w e C where h: "\<not> mem_dead (v_test s)" "length w = 8" "b \<noteq> stack_word (me_os env) wid"
    "rel V (B(b \<mapsto> bs, stack_word (me_os env) wid \<mapsto> w), v, e, C) (machine (v_test s))"
    using assms(4) by (auto simp: mem_holds_def)
  obtain M where M: "on_machine (set_pte_meta_direct (me_os env) wid addr x) s = (tset (\<lambda>t. t\<lparr>machine := M\<rparr>) s, Some 0)"
    "rel V (B(b \<mapsto> bs, stack_word (me_os env) wid \<mapsto> le_bytes 8 x), v\<lparr>stored := (stored v)(page_of addr \<mapsto> le_bytes 8 x)\<rparr>, e, C) M"
    by (rule on_machine_run [OF run_direct [OF assms(1,2) h(2,3)] h(4,1)]) auto
  have s: "set_word_meta env wid addr x s = tset (\<lambda>t. t\<lparr>machine := M\<rparr>) s"
    using M(1) assms(3) by (simp add: set_word_meta_def Let_def)
  show ?thesis unfolding s by (rule mem_holdsI [where w = "le_bytes 8 x"]) (use M(2) h in simp_all)
qed

lemma store_word_holds:
  assumes "mem_holds V os wid b B bs v s" "8 * i + 8 \<le> length bs"
  shows "mem_holds V os wid b B (put_part (8 * i) (le_bytes 8 x) bs) v (fst (on_machine (store_u64 (b + 8 * of_nat i) x) s))"
proof -
  obtain w e C where h: "\<not> mem_dead (v_test s)" "length w = 8" "b \<noteq> stack_word os wid"
    "rel V (B(b \<mapsto> bs, stack_word os wid \<mapsto> w), v, e, C) (machine (v_test s))"
    using assms(1) by (auto simp: mem_holds_def)
  have "run_to V (store_u64 (b + of_nat (8 * i)) x) (B(b \<mapsto> bs, stack_word os wid \<mapsto> w), v, e, C)
      (\<lambda>r st. r = Val () \<and> st = (B(b \<mapsto> put_part (8 * i) (le_bytes 8 x) bs, stack_word os wid \<mapsto> w), v, e, C))"
    unfolding store_u64_def
    by (rule run_store_part [where bs = bs]) (use h(3) assms(2) in \<open>auto simp: fun_upd_twist\<close>)
  then have run: "run_to V (store_u64 (b + 8 * of_nat i) x) (B(b \<mapsto> bs, stack_word os wid \<mapsto> w), v, e, C)
      (\<lambda>r st. r = Val () \<and> st = (B(b \<mapsto> put_part (8 * i) (le_bytes 8 x) bs, stack_word os wid \<mapsto> w), v, e, C))"
    by simp
  obtain M where M: "on_machine (store_u64 (b + 8 * of_nat i) x) s = (tset (\<lambda>t. t\<lparr>machine := M\<rparr>) s, Some ())"
    "rel V (B(b \<mapsto> put_part (8 * i) (le_bytes 8 x) bs, stack_word os wid \<mapsto> w), v, e, C) M"
    by (rule on_machine_run [OF run h(4,1)]) auto
  have s: "fst (on_machine (store_u64 (b + 8 * of_nat i) x) s) = tset (\<lambda>t. t\<lparr>machine := M\<rparr>) s" by (simp add: M(1))
  show ?thesis unfolding s by (rule mem_holdsI) (use M(2) h in simp_all)
qed

text \<open>A buffer whose first \<open>k\<close> words hold \<open>x\<close> and whose metadata are those of the last of these words in
  every page.\<close>

definition filled :: "nat \<Rightarrow> u64 \<Rightarrow> u8 list \<Rightarrow> u8 list" where
  "filled k x bs = concat (replicate k (le_bytes 8 x)) @ drop (8 * k) bs"

definition page_marks :: "u64 \<Rightarrow> nat \<Rightarrow> (u64 \<Rightarrow> u8 list option) \<Rightarrow> u64 \<Rightarrow> u8 list option" where
  "page_marks b k st = fold (\<lambda>i st. st(page_of (b + 8 * of_nat i) \<mapsto> le_bytes 8 (of_nat i))) [0..<k] st"

lemma length_filled: "8 * k \<le> length bs \<Longrightarrow> length (filled k x bs) = length bs"
  by (simp add: filled_def length_concat sum_list_replicate)

lemma filled_Suc:
  assumes "8 * k + 8 \<le> length bs"
  shows "put_part (8 * k) (le_bytes 8 x) (filled k x bs) = filled (Suc k) x bs"
proof -
  have len: "length (concat (replicate k (le_bytes 8 x))) = 8 * k" by (simp add: length_concat sum_list_replicate)
  have "concat (replicate (Suc k) (le_bytes 8 x)) = concat (replicate k (le_bytes 8 x)) @ le_bytes 8 x"
  proof -
    have "replicate (Suc k) (le_bytes 8 x) = replicate k (le_bytes 8 x) @ [le_bytes 8 x]"
      by (simp add: replicate_append_same)
    then show ?thesis by simp
  qed
  then show ?thesis using len by (simp add: put_part_def filled_def add.commute del: replicate_Suc)
qed

lemma seq_write_step:
  assumes "documented V L demand (me_os env)" "\<forall>i < n. pen v (table_of (b + 8 * of_nat i))" "8 * n \<le> length bs"
    and "k < n" "pte_meta_enabled (v_test s)" "pte_meta_type (v_test s) = 0" "buffers (v_test s) ! wid = b"
    and "mem_holds V (me_os env) wid b B (filled k x bs) (v\<lparr>stored := page_marks b k (stored v)\<rparr>) s"
  shows "mem_holds V (me_os env) wid b B (filled (Suc k) x bs) (v\<lparr>stored := page_marks b (Suc k) (stored v)\<rparr>)
    (write_word env wid (word_addr wid s k) (of_nat k) x s)"
proof -
  let ?a = "b + 8 * of_nat k"
  let ?s = "set_word_meta env wid ?a (of_nat k) s"
  have "pen (v\<lparr>stored := page_marks b k (stored v)\<rparr>) (table_of ?a)" using assms(2,4) by simp
  from set_direct_holds [OF assms(1) this assms(6,8)]
  have "mem_holds V (me_os env) wid b B (filled k x bs) (v\<lparr>stored := page_marks b (Suc k) (stored v)\<rparr>) ?s"
    by (simp add: page_marks_def)
  from store_word_holds [OF this, of k x] show ?thesis
    using assms(3,4,5,7) by (simp add: write_word_def Let_def word_addr_def length_filled filled_Suc)
qed

lemma seq_write_loop:
  assumes "documented V L demand (me_os env)" "\<forall>i < n. pen v (table_of (b + 8 * of_nat i))" "8 * n \<le> length bs"
    and "k \<le> n" "pte_meta_enabled (v_test s)" "pte_meta_type (v_test s) = 0" "buffers (v_test s) ! wid = b"
    and "mem_holds V (me_os env) wid b B bs v s"
  shows "mem_holds V (me_os env) wid b B (filled k x bs) (v\<lparr>stored := page_marks b k (stored v)\<rparr>)
    (fold (\<lambda>i s. write_word env wid (word_addr wid s i) (of_nat i) x s) [0..<k] s)"
  using assms(4)
proof (induction k)
  case 0 then show ?case using assms(8) by (simp add: filled_def page_marks_def)
next
  case (Suc k)
  let ?t = "fold (\<lambda>i s. write_word env wid (word_addr wid s i) (of_nat i) x s) [0..<k] s"
  note q = quiet_parts [OF quiet_fold [of "\<lambda>i s. write_word env wid (word_addr wid s i) (of_nat i) x s" s "[0..<k]", OF quiet_write]]
  have "pte_meta_enabled (v_test ?t)" "pte_meta_type (v_test ?t) = 0" "buffers (v_test ?t) ! wid = b"
    using assms(5-7) by (simp_all add: q(2) settings_parts [OF q(1)])
  from seq_write_step [OF assms(1-3) _ this Suc.IH] Suc.prems show ?case by simp
qed

lemma page_marks_last:
  assumes "i < k" "\<forall>j. i < j \<and> j < k \<longrightarrow> page_of (b + 8 * of_nat j) \<noteq> page_of (b + 8 * of_nat i)"
  shows "page_marks b k st (page_of (b + 8 * of_nat i)) = Some (le_bytes 8 (of_nat i))"
  using assms
proof (induction k)
  case (Suc k)
  show ?case
  proof (cases "i = k")
    case False
    with Suc.prems(1) have k: "i < k" by simp
    then have "page_of (b + 8 * of_nat k) \<noteq> page_of (b + 8 * of_nat i)" using Suc.prems(2) by blast
    then show ?thesis using Suc.IH [OF k] Suc.prems(2) by (auto simp: page_marks_def)
  qed (simp add: page_marks_def)
qed simp

lemma page_marks_other:
  "\<forall>i < k. page_of (b + 8 * of_nat i) \<noteq> p \<Longrightarrow> page_marks b k st p = st p"
  by (induction k) (auto simp: page_marks_def)

text \<open>C2: A sequential write with direct metadata on the documented kernel, in a buffer all of whose
  tables are enabled, ends with 0 and has stored the number of the thread in every word of the
  block but the last, which no event ever reaches, and in every page of these words the index
  of the last of them as metadata; the metadata of other pages and all other memory are
  unchanged.\<close>

theorem memory_seq_write_direct:
  assumes "documented V L demand (me_os env)" "\<forall>i < n. pen v (table_of (b + 8 * of_nat i))"
    and "memory_oper (v_test s) = SB_MEM_OP_WRITE" "\<not> memory_access_rnd (v_test s)"
    and "pte_meta_enabled (v_test s)" "pte_meta_type (v_test s) = 0"
    and "max_offset (v_test s) = int n" "buffers (v_test s) ! wid = b" "length bs = 8 * (n + 1)"
    and "mem_holds V (me_os env) wid b B bs v s"
  shows "\<exists>s' st'. memory_execute_event env wid s = (s', 0) \<and>
    mem_holds V (me_os env) wid b B (concat (replicate n (le_bytes 8 (of_nat wid))) @ drop (8 * n) bs) (v\<lparr>stored := st'\<rparr>) s' \<and>
    (\<forall>i < n. (\<forall>j. i < j \<and> j < n \<longrightarrow> page_of (b + 8 * of_nat j) \<noteq> page_of (b + 8 * of_nat i)) \<longrightarrow>
       st' (page_of (b + 8 * of_nat i)) = Some (le_bytes 8 (of_nat i))) \<and>
    (\<forall>p. (\<forall>i < n. page_of (b + 8 * of_nat i) \<noteq> p) \<longrightarrow> st' p = stored v p)"
proof -
  let ?s = "fold (\<lambda>i s. write_word env wid (word_addr wid s i) (of_nat i) (of_nat wid) s) [0..<n] s"
  have len: "8 * n \<le> length bs" using assms(9) by simp
  have "memory_execute_event env wid s = (?s, 0)"
    using assms(3,4,7) by (simp add: memory_execute_event_def event_seq_write_def)
  moreover note seq_write_loop [OF assms(1,2) len order_refl assms(5,6,8,10), where x = "of_nat wid", unfolded filled_def]
  ultimately show ?thesis using page_marks_last [of _ n b "stored v"] page_marks_other [of n b _ "stored v"]
    by (intro exI [of _ ?s] exI [of _ "page_marks b n (stored v)"]) simp
qed

text \<open>For the safety of all six operations less is needed: every metadata entry is a word.\<close>

definition direct_only :: "kview \<Rightarrow> bool" where
  "direct_only v \<longleftrightarrow> (\<forall>p m. stored v p = Some m \<longrightarrow> length m = 8)"

definition mem_safe :: "('k \<Rightarrow> kview) \<Rightarrow> 'k mem_env \<Rightarrow> nat \<Rightarrow> u64 \<Rightarrow> blocks \<Rightarrow> nat \<Rightarrow> 'k mem_state \<Rightarrow> bool" where
  "mem_safe V env wid b B n s \<longleftrightarrow> pte_meta_type (v_test s) = 0 \<and> max_offset (v_test s) = int n \<and>
     buffers (v_test s) ! wid = b \<and>
     (\<exists>bs v. mem_holds V (me_os env) wid b B bs v s \<and> length bs = 8 * (n + 1) \<and> direct_only v)"

text \<open>A program that only changes the word on the stack, the kernel's metadata and the error number.\<close>

definition touches_word :: "('k \<Rightarrow> kview) \<Rightarrow> 'k os \<Rightarrow> nat \<Rightarrow> u64 \<Rightarrow> blocks \<Rightarrow> ('k, int) pgm \<Rightarrow> bool" where
  "touches_word V os wid b B p \<longleftrightarrow> (\<forall>bs w v e C. length w = 8 \<longrightarrow> direct_only v \<longrightarrow> b \<noteq> stack_word os wid \<longrightarrow>
     run_to V p (B(b \<mapsto> bs, stack_word os wid \<mapsto> w), v, e, C)
       (\<lambda>r st. \<exists>x w' v' e'. r = Val x \<and> st = (B(b \<mapsto> bs, stack_word os wid \<mapsto> w'), v', e', C) \<and> length w' = 8 \<and> direct_only v'))"

lemma touches_get:
  assumes "documented V L demand os"
  shows "touches_word V os wid b B (get_pte_meta os addr (stack_word os wid))"
  unfolding touches_word_def
proof (intro allI impI)
  fix bs w :: "u8 list" and v and e :: "int option" and C :: "(u64 \<Rightarrow> nat option) \<times> nat"
  assume a: "length w = 8" "direct_only v" "b \<noteq> stack_word os wid"
  let ?Q = "\<lambda>r st. \<exists>x w' v' e'. r = Val x \<and> st = (B(b \<mapsto> bs, stack_word os wid \<mapsto> w'), v', e', C) \<and> length w' = 8 \<and> direct_only v'"
  have "run_to V (get_into os addr (stack_word os wid)) (B(b \<mapsto> bs, stack_word os wid \<mapsto> w), v, e, C) ?Q"
  proof (cases "pen v (table_of addr) \<and> stored v (page_of addr) \<noteq> None")
    case True
    then obtain m where m: "stored v (page_of addr) = Some m" "length m = 8" using a(2) by (auto simp: direct_only_def)
    show ?thesis
      by (rule run_get [OF assms _ m(1), where cs = w])
        (use True a m in \<open>auto intro!: exI [of _ m] exI [of _ v] exI [of _ e]\<close>)
  next
    case False
    show ?thesis
      by (rule run_get_none [OF assms])
        (use False a in \<open>auto intro!: exI [of _ w] exI [of _ v] exI [of _ "Some ENODATA"]\<close>)
  qed
  then show "run_to V (get_pte_meta os addr (stack_word os wid)) (B(b \<mapsto> bs, stack_word os wid \<mapsto> w), v, e, C) ?Q"
    by (simp add: get_pte_meta_def get_into_def)
qed

lemma touches_direct:
  assumes "documented V L demand os"
  shows "touches_word V os wid b B (set_pte_meta_direct os wid addr x)"
  unfolding touches_word_def
proof (intro allI impI)
  fix bs w :: "u8 list" and v and e :: "int option" and C :: "(u64 \<Rightarrow> nat option) \<times> nat"
  assume a: "length w = 8" "direct_only v" "b \<noteq> stack_word os wid"
  let ?w = "le_bytes 8 x"
  have o: "direct_only ((opened addr v)\<lparr>stored := (stored (opened addr v))(page_of addr \<mapsto> ?w)\<rparr>)"
    using a(2) by (auto simp: direct_only_def opened_def fresh_table_def)
  show "run_to V (set_pte_meta_direct os wid addr x) (B(b \<mapsto> bs, stack_word os wid \<mapsto> w), v, e, C)
     (\<lambda>r st. \<exists>x w' v' e'. r = Val x \<and> st = (B(b \<mapsto> bs, stack_word os wid \<mapsto> w'), v', e', C) \<and> length w' = 8 \<and> direct_only v')"
    unfolding set_pte_meta_direct_def set_pte_meta_def
    by (rule run_seq, rule run_store_u64 [where bs = w])
      (use a o in \<open>auto intro!: run_set [OF assms, where bs = ?w] exI [of _ ?w]\<close>)
qed

lemma safe_machine:
  assumes "touches_word V (me_os env) wid b B p" "mem_safe V env wid b B n s"
  shows "mem_safe V env wid b B n (fst (on_machine p s))" "\<exists>x. snd (on_machine p s) = Some x"
proof -
  obtain bs v w e C where h: "\<not> mem_dead (v_test s)" "length w = 8" "b \<noteq> stack_word (me_os env) wid"
    "rel V (B(b \<mapsto> bs, stack_word (me_os env) wid \<mapsto> w), v, e, C) (machine (v_test s))"
    "length bs = 8 * (n + 1)" "direct_only v"
    using assms(2) unfolding mem_safe_def mem_holds_def by blast
  note run = assms(1) [unfolded touches_word_def, rule_format, OF h(2,6,3)]
  obtain x w' v' e' M where M: "on_machine p s = (tset (\<lambda>t. t\<lparr>machine := M\<rparr>) s, Some x)"
    "rel V (B(b \<mapsto> bs, stack_word (me_os env) wid \<mapsto> w'), v', e', C) M" "length w' = 8" "direct_only v'"
    by (rule on_machine_run [OF run h(4,1)]) auto
  have "mem_holds V (me_os env) wid b B bs v' (tset (\<lambda>t. t\<lparr>machine := M\<rparr>) s)"
    by (rule mem_holdsI [where w = w']) (use M h in simp_all)
  then show "mem_safe V env wid b B n (fst (on_machine p s))" "\<exists>x. snd (on_machine p s) = Some x"
    using assms(2) M(1,4) h(5) by (auto simp: mem_safe_def)
qed

lemma safe_cong:
  "quiet_change s s' \<Longrightarrow> machine (v_test s') = machine (v_test s) \<Longrightarrow> mem_dead (v_test s') = mem_dead (v_test s) \<Longrightarrow>
   mem_safe V env wid b B n s' = mem_safe V env wid b B n s"
  by (simp add: mem_safe_def mem_holds_def quiet_parts(2) settings_parts [OF quiet_parts(1)])

lemma safe_say [simp]: "mem_safe V env wid b B n (vsay p t s) = mem_safe V env wid b B n s"
  by (rule safe_cong) simp_all

lemma mem_safe_step:
  assumes "mem_safe V env wid b B n s" "quiet_change s s'" "mem_holds V (me_os env) wid b B bs v s'"
    "length bs = 8 * (n + 1)" "direct_only v"
  shows "mem_safe V env wid b B n s'"
proof -
  note q = quiet_parts [OF assms(2)]
  have "pte_meta_type (v_test s') = 0" "max_offset (v_test s') = int n" "buffers (v_test s') ! wid = b"
    using assms(1) by (simp_all add: mem_safe_def q(2) settings_parts [OF q(1)])
  then show ?thesis unfolding mem_safe_def using assms(3-5) by blast
qed

lemma safe_set_meta:
  assumes "documented V L demand (me_os env)" "mem_safe V env wid b B n s"
  shows "mem_safe V env wid b B n (set_word_meta env wid addr x s)"
proof -
  have "pte_meta_type (v_test s) = 0" using assms(2) by (simp add: mem_safe_def)
  then have "set_word_meta env wid addr x s =
      (case on_machine (set_pte_meta_direct (me_os env) wid addr x) s of
           (s, None) \<Rightarrow> s
         | (s, Some r) \<Rightarrow> if r \<noteq> 0 then vsay LOG_DEBUG (me_fmt env ''set_pte_meta_direct failed for addr %lx'' [A_int (uint addr)]) s else s)"
    by (simp add: set_word_meta_def)
  then show ?thesis using safe_machine [OF touches_direct [OF assms(1)] assms(2), of addr x]
    by (auto split: prod.splits option.splits)
qed

lemma safe_write:
  assumes "documented V L demand (me_os env)" "mem_safe V env wid b B n s" "i \<le> n"
  shows "mem_safe V env wid b B n (write_word env wid (word_addr wid s i) m x s)"
proof -
  let ?s = "if pte_meta_enabled (v_test s) then set_word_meta env wid (word_addr wid s i) m s else s"
  have s: "mem_safe V env wid b B n ?s" using safe_set_meta [OF assms(1,2)] assms(2) by simp
  then obtain bs v where h: "mem_holds V (me_os env) wid b B bs v ?s" "length bs = 8 * (n + 1)" "direct_only v"
    unfolding mem_safe_def by blast
  have a: "word_addr wid s i = b + 8 * of_nat i" using assms(2) by (simp add: word_addr_def mem_safe_def)
  have le: "8 * i + 8 \<le> length bs" using h(2) assms(3) by simp
  have "mem_safe V env wid b B n (fst (on_machine (store_u64 (b + 8 * of_nat i) x) ?s))"
    by (rule mem_safe_step [OF s quiet_machine store_word_holds [OF h(1) le]]) (use le h(2,3) in simp_all)
  then show ?thesis by (simp add: write_word_def Let_def a split: if_splits)
qed

lemma load_word_holds:
  assumes "mem_holds V os wid b B bs v s" "8 * i + 8 \<le> length bs"
  shows "mem_holds V os wid b B bs v (fst (on_machine (load_u64 (b + 8 * of_nat i)) s))"
proof -
  obtain w e C where h: "\<not> mem_dead (v_test s)" "length w = 8" "b \<noteq> stack_word os wid"
    "rel V (B(b \<mapsto> bs, stack_word os wid \<mapsto> w), v, e, C) (machine (v_test s))"
    using assms(1) by (auto simp: mem_holds_def)
  have "run_to V (load_u64 (b + of_nat (8 * i))) (B(b \<mapsto> bs, stack_word os wid \<mapsto> w), v, e, C)
      (\<lambda>r st. \<exists>x. r = Val x \<and> st = (B(b \<mapsto> bs, stack_word os wid \<mapsto> w), v, e, C))"
    unfolding load_u64_def
    by (rule run_bind, rule run_load_part [where bs = bs]) (use h(3) assms(2) in \<open>auto intro!: run_give\<close>)
  then have run: "run_to V (load_u64 (b + 8 * of_nat i)) (B(b \<mapsto> bs, stack_word os wid \<mapsto> w), v, e, C)
      (\<lambda>r st. \<exists>x. r = Val x \<and> st = (B(b \<mapsto> bs, stack_word os wid \<mapsto> w), v, e, C))"
    by simp
  obtain x M where M: "on_machine (load_u64 (b + 8 * of_nat i)) s = (tset (\<lambda>t. t\<lparr>machine := M\<rparr>) s, Some x)"
    "rel V (B(b \<mapsto> bs, stack_word os wid \<mapsto> w), v, e, C) M"
    by (rule on_machine_run [OF run h(4,1)]) auto
  have s: "fst (on_machine (load_u64 (b + 8 * of_nat i)) s) = tset (\<lambda>t. t\<lparr>machine := M\<rparr>) s" by (simp add: M(1))
  show ?thesis unfolding s by (rule mem_holdsI) (use M(2) h in simp_all)
qed

lemma safe_read:
  assumes "documented V L demand (me_os env)" "mem_safe V env wid b B n s" "i \<le> n"
  shows "mem_safe V env wid b B n (read_word env wid (word_addr wid s i) s)"
proof -
  let ?s = "if pte_meta_enabled (v_test s)
    then fst (on_machine (get_pte_meta (me_os env) (word_addr wid s i) (stack_word (me_os env) wid)) s) else s"
  have s: "mem_safe V env wid b B n ?s" using safe_machine(1) [OF touches_get [OF assms(1)] assms(2)] assms(2) by simp
  then obtain bs v where h: "mem_holds V (me_os env) wid b B bs v ?s" "length bs = 8 * (n + 1)" "direct_only v"
    unfolding mem_safe_def by blast
  have a: "word_addr wid s i = b + 8 * of_nat i" "pte_meta_type (v_test s) = 0"
    using assms(2) by (simp_all add: word_addr_def mem_safe_def)
  have le: "8 * i + 8 \<le> length bs" using h(2) assms(3) by simp
  have "mem_safe V env wid b B n (fst (on_machine (load_u64 (b + 8 * of_nat i)) ?s))"
    by (rule mem_safe_step [OF s quiet_machine load_word_holds [OF h(1) le]]) (use h(2,3) in simp_all)
  then show ?thesis by (simp add: read_word_def Let_def a split: if_splits)
qed

lemma safe_fold:
  assumes "\<And>i s. i \<in> set is \<Longrightarrow> mem_safe V env wid b B n s \<Longrightarrow> mem_safe V env wid b B n (f i s)"
  shows "mem_safe V env wid b B n s \<Longrightarrow> mem_safe V env wid b B n (fold f is s)"
  using assms by (induction "is" arbitrary: s) auto

lemma random_in_block:
  assumes "rand_type (me_rand env) = DIST_TYPE_UNIFORM" "n < 2 ^ 32 - 1" "mem_safe V env wid b B n s"
  shows "mem_safe V env wid b B n (fst (random_offset env wid s))" "snd (random_offset env wid s) \<le> n"
proof -
  have m: "max_offset (v_test s) = int n" using assms(3) by (simp add: mem_safe_def)
  define w where "w = (word_of_int (int n) :: u32)"
  have w: "unat w = n" using assms(2) by (simp add: w_def unat_of_nat_small)
  have "w < 0xffffffff" using w assms(2) by (simp add: word_less_nat_alt)
  moreover have "bitlen (unat w + 1) \<le> bitlen (unat (w - 0 + 1))"
  proof -
    have "unat (w + 1) = n + 1"
      using w assms(2) by (subst unat_add_lem [THEN iffD1]) simp_all
    then show ?thesis using w by simp
  qed
  ultimately have "snd (sb_rand_uniform 0 w (v_rng s wid)) \<le> w" using sb_rand_uniform_in [of 0 w] by simp
  then have le: "unat (snd (sb_rand_uniform 0 w (v_rng s wid))) \<le> n" using w by (simp add: word_le_nat_alt)
  have r: "random_offset env wid s = (s\<lparr>v_rng := (v_rng s)(wid := fst (sb_rand_uniform 0 w (v_rng s wid)))\<rparr>,
      unat (snd (sb_rand_uniform 0 w (v_rng s wid))))"
    using assms(1) by (simp add: random_offset_def sb_rand_default_def m w_def case_prod_beta)
  show "snd (random_offset env wid s) \<le> n" using le by (simp add: r)
  show "mem_safe V env wid b B n (fst (random_offset env wid s))"
    using assms(3) by (simp add: r mem_safe_def mem_holds_def)
qed


section \<open>Structured metadata\<close>

text \<open>The structured metadata of the benchmark have the header of the README: a kernel that reads
  that header takes exactly the 24 bytes of the message, while a kernel that reads the packed
  header of test3 takes the type for the length and copies 4668 bytes, most of them from
  outside the message.\<close>

theorem structured_layouts:
  assumes "read_bytes m a 24 = Some (wide_header 1 0x1234 8 @ le_bytes 8 x)"
  shows "user_metadata readme_header m 1 a = Some (wide_header 1 0x1234 8 @ le_bytes 8 x) \<and>
    (\<forall>bs. user_metadata packed_header m 1 a = Some bs \<longrightarrow> length bs = 4668)"
proof -
  let ?h = "wide_header 1 0x1234 8"
  have len: "length ?h = 16" by (simp add: wide_header_def)
  have lens: "unat (le_value (take 4 (drop 8 ?h))) = 8" "unat (mlength (read_header (take 8 ?h))) = 4660"
    by code_simp+
  have "read_bytes m a 16 = Some ?h" using read_prefix [OF assms, of 16] len by simp
  then have "user_metadata readme_header m 1 a = Some (?h @ le_bytes 8 x)"
    using assms lens(1) by (simp add: user_metadata_def readme_header_def)
  moreover have "read_bytes m a 8 = Some (take 8 ?h)" using read_prefix [OF assms, of 8] len by simp
  then have "user_metadata packed_header m 1 a = read_bytes m a 4668"
    using lens(2) by (simp add: user_metadata_def packed_header_def)
  ultimately show ?thesis by (simp add: read_bytes_Some)
qed

section \<open>Concrete runs\<close>

definition sample_opt :: "string \<Rightarrow> sb_arg_type \<Rightarrow> string \<Rightarrow> option_t" where
  "sample_opt n ty v = \<lparr>opt_name = n, opt_type = ty, opt_values = [\<lparr>data = v, val_ignore = False\<rparr>],
     opt_ignore = False, opt_validate = None\<rparr>"

definition sample_mem_opts :: options where
  "sample_mem_opts = [sample_opt ''memory-block-size'' SB_ARG_TYPE_SIZE ''16'',
     sample_opt ''memory-total-size'' SB_ARG_TYPE_SIZE ''1K'',
     sample_opt ''memory-scope'' SB_ARG_TYPE_STRING ''local'',
     sample_opt ''memory-oper'' SB_ARG_TYPE_STRING ''write'',
     sample_opt ''memory-access-mode'' SB_ARG_TYPE_STRING ''seq'',
     sample_opt ''memory-pte-meta-type'' SB_ARG_TYPE_INT ''0'']"

definition sample_mem_state :: "'k mem_test \<Rightarrow> 'k mem_state" where
  "sample_mem_state t = \<lparr>v_prog = sample_prog\<lparr>p_log := (p_log sample_prog)\<lparr>l_opts := sample_mem_opts\<rparr>\<rparr>,
     v_ring = v_ring (sample_ev id), v_rbuf = [], v_queue_array = [], v_rng = \<lambda>_. (1, 2),
     v_clock = v_clock (sample_ev id), v_ticks = 0, v_test = t\<rparr>"

definition sample_vars :: "'k machine \<Rightarrow> 'k mem_test" where
  "sample_vars M = \<lparr>machine = M, memory_block_size = 16, memory_total_size = 32, memory_scope = SB_MEM_SCOPE_LOCAL,
     memory_oper = SB_MEM_OP_WRITE, memory_access_rnd = False, memory_hugetlb = False, pte_meta_enabled = True,
     pte_meta_type = 0, max_offset = 1, buffers = [8], thread_counters = [2], mem_dead = False\<rparr>"

definition sample_mem_env :: "'k os \<Rightarrow> 'k mem_env" where
  "sample_mem_env os = \<lparr>me_os = os, me_fmt = (\<lambda>f _. f), me_errno = [], me_large_pages = False,
     me_shmget = (\<lambda>_ M. (0, M)), me_shmat = (\<lambda>_ M. (0, M)), me_counters_ok = True, me_buffers_ok = True,
     me_rand = \<lparr>rand_type = DIST_TYPE_UNIFORM, rand_iter = 12, rand_pct = 1, rand_res = 75, pareto_h = 0,
       pareto_power = 0, zipf_exp = 0, zipf_s = 0, zipf_hIntegralX1 = 0\<rparr>\<rparr>"

text \<open>A system that gives out the address 8 in a memory that is mapped everywhere.\<close>

definition easy_os :: "unit os" where
  "easy_os = \<lparr>os_syscall = \<lambda>_ _ M. (0, M), os_memalign = \<lambda>_ _ M. ((0, 8), M), os_malloc = \<lambda>_ M. (8, M),
     os_free = \<lambda>_ M. M, os_mlock = \<lambda>_ _ M. M, os_munlock = \<lambda>_ _ M. M, os_pagesize = 4096,
     os_clock = \<lambda>_. \<lparr>tv_sec = 0, tv_nsec = 0\<rparr>, os_local = \<lambda>_. 0\<rparr>"

definition easy_machine :: "unit machine" where
  "easy_machine = \<lparr>mem = \<lambda>_. Some 0, kern = (), errnum = 0, chunks = \<lambda>_. None, clock_reads = 0, timings = []\<rparr>"

lemma sample_mem_values:
  "sb_get_value_size sample_mem_opts ''memory-block-size'' = 16"
  "sb_get_value_size sample_mem_opts ''memory-total-size'' = 1024"
  "sb_get_value_string sample_mem_opts ''memory-scope'' = Some ''local''"
  "sb_get_value_string sample_mem_opts ''memory-oper'' = Some ''write''"
  "sb_get_value_string sample_mem_opts ''memory-access-mode'' = Some ''seq''"
  "sb_get_value_int sample_mem_opts ''memory-pte-meta-type'' = Some 0"
  "sb_get_value_flag sample_mem_opts ''memory-pte-meta'' = False"
  by code_simp+

lemma sample_mem_fields:
  "l_opts (p_log (v_prog (sample_mem_state t))) = sample_mem_opts" "g_threads (vglob (sample_mem_state t)) = 1"
  "v_test (sample_mem_state t) = t" "sb_counters (p_counters (v_prog (sample_mem_state t))) = Some [zero_row, zero_row]"
  by (simp_all add: sample_mem_state_def sample_prog_def sample_log_def sb_counters_init_def counters_static_def)

lemma easy_init: "snd (memory_init (sample_mem_env easy_os) (sample_mem_state (sample_vars easy_machine))) = 0"
proof -
  have "sint (16 :: u64) = 16" by simp
  then show ?thesis
    by (simp add: memory_init_def memory_settings_def memory_shared_def memory_alloc_def memory_ready_def on_machine_def
        query_def sample_mem_env_def easy_os_def sample_vars_def sample_mem_fields sample_mem_values Let_def)
qed

theorem memory_init_ready_witness:
  "thread_counters (v_test (fst (memory_init (sample_mem_env easy_os) (sample_mem_state (sample_vars easy_machine))))) ! 0 =
   word_of_int ((memory_total_size (v_test (fst (memory_init (sample_mem_env easy_os) (sample_mem_state (sample_vars easy_machine))))) sdiv
     memory_block_size (v_test (fst (memory_init (sample_mem_env easy_os) (sample_mem_state (sample_vars easy_machine)))))) sdiv 1)"
proof -
  let ?r = "memory_init (sample_mem_env easy_os) (sample_mem_state (sample_vars easy_machine))"
  have "?r = (fst ?r, 0)" using easy_init by (simp add: prod_eq_iff)
  from memory_init_ready [OF this] show ?thesis by (simp add: sample_mem_fields)
qed

theorem memory_worker_events_witness:
  "\<exists>s'. thread_run (memory_ops (sample_mem_env easy_os) zero_timespec) (\<lambda>_. (id, [])) 0 0 3 0
      (sample_mem_state (sample_vars easy_machine)) = Some (s', Returned 0) \<and> event_count 0 s' = Some 2"
proof -
  let ?s = "sample_mem_state (sample_vars easy_machine)"
  have c: "counted 0 ?s" "event_count 0 ?s = Some 0"
    by (simp_all add: counted_def event_count_def sample_mem_fields zero_row_def SB_CNT_MAX_def sb_counter_val_def)
  have g: "unlimited ?s"
    by (simp add: unlimited_def sample_mem_state_def sample_prog_def sample_log_def globals_static_def)
  have t: "0 < memory_total_size (v_test ?s)" "0 < length (thread_counters (v_test ?s))"
    "thread_counters (v_test ?s) ! 0 = 2" by (simp_all add: sample_mem_fields sample_vars_def)
  have "unat (thread_counters (v_test ?s) ! 0) < 3" by (simp add: t(3))
  from memory_worker_events [OF g t(1,2) c(1) this, of "sample_mem_env easy_os" zero_timespec "\<lambda>_. (id, [])"]
  show ?thesis by (simp add: c(2) t(3))
qed

text \<open>The documented kernel with a process of 24 mapped bytes: the word on the stack and a block of two
  words at the address 8, with the tables enabled.\<close>

definition open_machine :: "kview machine" where
  "open_machine = sample_machine\<lparr>kern := \<lparr>pen = \<lambda>_. True, stored = \<lambda>_. None\<rparr>\<rparr>"

abbreviation open_env :: "kview mem_env" where
  "open_env \<equiv> sample_mem_env (sample_os readme_header False 0)"

abbreviation open_state :: "kview mem_state" where
  "open_state \<equiv> sample_mem_state (sample_vars open_machine)"

lemma open_env_os: "documented id readme_header False (me_os open_env)" "stack_word (me_os open_env) 0 = 0"
  using sample_documented [of readme_header False 0]
  by (simp_all add: sample_mem_env_def stack_word_def sample_os_def)

lemma open_memory: "k < 24 \<Longrightarrow> mem open_machine (of_nat k) = Some 0"
proof -
  have "read_bytes (mem sample_machine) 0 (length (replicate 24 (0 :: u8))) = Some (replicate 24 0)"
    unfolding sample_machine_def by (simp only: machine.simps) (rule read_write_same, simp)
  then show "k < 24 \<Longrightarrow> ?thesis" by (auto simp: read_bytes_Some open_machine_def)
qed

lemma sample_holds: "mem_holds id (me_os open_env) 0 8 (\<lambda>_. None) (replicate 16 0) (kern open_machine) open_state"
proof -
  let ?B = "(\<lambda>_. None)(8 \<mapsto> replicate 16 0, (0 :: u64) \<mapsto> replicate 8 (0 :: u8))"
  have r: "read_bytes (mem open_machine) 0 8 = Some (replicate 8 0)" "read_bytes (mem open_machine) 8 16 = Some (replicate 16 0)"
  proof -
    show "read_bytes (mem open_machine) 0 8 = Some (replicate 8 0)" by (simp add: read_bytes_Some open_memory)
    have "mem open_machine (8 + of_nat k) = Some 0" if "k < 16" for k
      using open_memory [of "8 + k"] that by simp
    then show "read_bytes (mem open_machine) 8 16 = Some (replicate 16 0)" by (simp add: read_bytes_Some)
  qed
  have apart: "area 0 8 \<inter> area 8 16 = {}"
  proof -
    have "(of_nat k :: u64) \<noteq> of_nat (8 + l)" if "k < 8" "l < 16" for k l
      using small_inj [of k "8 + l"] that by simp
    then show ?thesis by (auto simp: area_def)
  qed
  have "holds (mem open_machine) ?B"
    unfolding holds_def using r apart by (auto split: if_splits)
  moreover have "card (dom (mem open_machine)) \<le> 24" using sample_size by (simp add: open_machine_def)
  ultimately have "rel id (?B, kern open_machine, None, Map.empty, 24) open_machine"
    by (simp add: rel_def open_machine_def sample_machine_def)
  then show ?thesis
    by (intro mem_holdsI [where w = "replicate 8 0"])
      (simp_all add: open_env_os sample_mem_fields sample_vars_def)
qed

theorem memory_seq_write_direct_witness:
  "\<exists>s' st'. memory_execute_event open_env 0 open_state = (s', 0) \<and> st' (page_of 8) = Some (le_bytes 8 0) \<and>
    mem_holds id (me_os open_env) 0 8 (\<lambda>_. None) (le_bytes 8 0 @ replicate 8 0) ((kern open_machine)\<lparr>stored := st'\<rparr>) s'"
proof -
  have t: "memory_oper (v_test open_state) = SB_MEM_OP_WRITE" "\<not> memory_access_rnd (v_test open_state)"
    "pte_meta_enabled (v_test open_state)" "pte_meta_type (v_test open_state) = 0"
    "max_offset (v_test open_state) = int 1" "buffers (v_test open_state) ! 0 = 8"
    "length (replicate 16 (0 :: u8)) = 8 * (1 + 1)"
    by (simp_all add: sample_mem_fields sample_vars_def)
  have p: "\<forall>i < 1. pen (kern open_machine) (table_of (8 + 8 * of_nat i))" by (simp add: open_machine_def)
  from memory_seq_write_direct [OF open_env_os(1) p t sample_holds] show ?thesis by (auto simp: drop_replicate)
qed


theorem structured_layouts_witness:
  "user_metadata readme_header (write_bytes Map.empty 0 (wide_header 1 0x1234 8 @ le_bytes 8 5)) 1 0 =
    Some (wide_header 1 0x1234 8 @ le_bytes 8 5)"
proof -
  let ?bs = "wide_header 1 0x1234 8 @ le_bytes 8 5"
  have len: "length ?bs = 24" by (simp add: wide_header_def)
  then have "length ?bs \<le> 2 ^ 32" by simp
  from read_write_same [OF this, of Map.empty 0, unfolded len]
  have "read_bytes (write_bytes Map.empty 0 ?bs) 0 24 = Some ?bs" .
  from structured_layouts [OF this] show ?thesis by blast
qed

end
