(* ===== verification/Workloads.thy ===== *)
theory Workloads
  imports Sysbench RandProps
begin

text \<open>
  The three small built-in tests: prime numbers (\<open>tests/cpu/sb_cpu.c\<close>), mutexes
  (\<open>tests/mutex/sb_mutex.c\<close>) and the scheduler (\<open>tests/threads/sb_threads.c\<close>), as operations
  of the runner on their static variables.
\<close>

section \<open>cpu\<close>

record cpu_test =
  max_prime :: u32

definition cpu_args :: "sb_arg list" where
  "cpu_args = [SB_OPT ''cpu-max-prime'' ''upper limit for primes generator'' (Some ''10000'') SB_ARG_TYPE_INT]"

text \<open>\<open>sb_get_value_int\<close> may end the process; then the outcome of the initialisation is 1 as well.\<close>

definition cpu_init :: "sprintf \<Rightarrow> cpu_test ev_state \<Rightarrow> cpu_test ev_state \<times> int" where
  "cpu_init fmt s =
     (case sb_get_value_int (l_opts (p_log (v_prog s))) ''cpu-max-prime'' of
        None \<Rightarrow> (s, 1)
      | Some prime_option \<Rightarrow>
          if prime_option \<le> 0
          then (vsay LOG_FATAL (fmt ''Invalid value of cpu-max-prime: %d.'' [A_int prime_option]) s, 1)
          else (s\<lparr>v_test := \<lparr>max_prime = word_of_int prime_option\<rparr>\<rparr>, 0))"

text \<open>The inner loop from \<open>l\<close> on: the divisor at which it breaks off, or the first number above \<open>t\<close>.\<close>

function trial :: "real \<Rightarrow> nat \<Rightarrow> nat \<Rightarrow> nat" where
  "trial t c l = (if real l \<le> t then if c mod l = 0 then l else trial t c (l + 1) else l)"
  by auto
termination
  by (relation "measure (\<lambda>(t, c, l). nat (\<lfloor>t\<rfloor> + 1) - l)") (auto simp: le_floor_iff, linarith)

declare trial.simps [simp del]

text \<open>The outer loop: the variable \<open>n\<close>; \<open>fsqrt\<close> is \<open>sqrt\<close> of the C library on doubles.\<close>

definition cpu_primes :: "(nat \<Rightarrow> real) \<Rightarrow> u32 \<Rightarrow> nat" where
  "cpu_primes fsqrt m =
     fold (\<lambda>c n. if real (trial (fsqrt c) c 2) > fsqrt c then n + 1 else n) [3..<unat m] 0"

text \<open>The event drops the number it has computed.\<close>

definition cpu_execute_event :: "(nat \<Rightarrow> real) \<Rightarrow> nat \<Rightarrow> cpu_test ev_state \<Rightarrow> cpu_test ev_state \<times> int" where
  "cpu_execute_event fsqrt wid s = (let n = cpu_primes fsqrt (max_prime (v_test s)) in (s, 0))"

definition cpu_print_mode :: "sprintf \<Rightarrow> cpu_test ev_state \<Rightarrow> cpu_test ev_state" where
  "cpu_print_mode fmt s =
     (let s = vsay LOG_INFO (''Doing CPU performance benchmark'' @ [CHR 0x0A]) s
      in vsay LOG_NOTICE (fmt (''Prime numbers limit: %d'' @ [CHR 0x0A]) [A_int (sint (max_prime (v_test s)))]) s)"

definition cpu_report_cumulative :: "sprintf \<Rightarrow> timespec \<Rightarrow> sb_stat_t \<Rightarrow> prog \<Rightarrow> prog" where
  "cpu_report_cumulative fmt now st p =
     (let p = say LOG_NOTICE ''CPU speed:'' p;
          p = say LOG_NOTICE (fmt ''    events per second: %8.2f''
                [A_real (real (unat (st_events st)) / st_time_interval st)]) p
      in sb_report_cumulative fmt now st p)"

definition cpu_ops :: "sprintf \<Rightarrow> (nat \<Rightarrow> real) \<Rightarrow> timespec \<Rightarrow> (cpu_test, unit) sb_operations" where
  "cpu_ops fmt fsqrt now =
     \<lparr>op_init = Some (cpu_init fmt), op_prepare = None, op_thread_init = None,
      op_print_mode = Some (cpu_print_mode fmt), op_next_event = (\<lambda>_ s. (s, Some ())),
      op_execute_event = (\<lambda>_. cpu_execute_event fsqrt), op_report_intermediate = (\<lambda>_. None),
      op_report_cumulative = (\<lambda>_. Some (cpu_report_cumulative fmt now)), op_thread_run = None,
      op_thread_done = None, op_cleanup = None, op_done = Some (\<lambda>s. (s, 0))\<rparr>"

section \<open>mutex\<close>

text \<open>\<open>mx_locked\<close> counts how often each mutex has been taken, \<open>None\<close> when the array is not
  allocated; \<open>tls_counter\<close> is one variable per thread.  \<open>mx_fault\<close> is set by an access outside
  the array.\<close>

record mutex_test =
  mx_locked :: "nat list option"
  mutex_num :: u32
  mutex_loops :: u32
  mutex_locks :: u32
  global_var :: u32
  tls_counter :: "nat \<Rightarrow> u32"
  mx_fault :: bool

record sb_mutex_request =
  nlocks :: u32
  nloops :: u32

definition mutex_args :: "sb_arg list" where
  "mutex_args =
     [SB_OPT ''mutex-num'' ''total size of mutex array'' (Some ''4096'') SB_ARG_TYPE_INT,
      SB_OPT ''mutex-locks'' ''number of mutex locks to do per thread'' (Some ''50000'') SB_ARG_TYPE_INT,
      SB_OPT ''mutex-loops'' ''number of empty loops to do outside mutex lock'' (Some ''10000'') SB_ARG_TYPE_INT]"

definition mutex_init :: "bool \<Rightarrow> mutex_test ev_state \<Rightarrow> mutex_test ev_state \<times> int" where
  "mutex_init malloc_ok s =
     (let opts = l_opts (p_log (v_prog s))
      in case (sb_get_value_int opts ''mutex-num'', sb_get_value_int opts ''mutex-loops'', sb_get_value_int opts ''mutex-locks'') of
           (Some num, Some loops, Some locks) \<Rightarrow>
             let s = s\<lparr>v_test := (v_test s)\<lparr>mutex_num := word_of_int num, mutex_loops := word_of_int loops,
                        mutex_locks := word_of_int locks\<rparr>\<rparr>
             in if \<not> malloc_ok then (vsay LOG_FATAL ''Memory allocation failure!'' s, 1)
                else (s\<lparr>v_test := (v_test s)\<lparr>mx_locked := Some (replicate (unat (mutex_num (v_test s))) 0)\<rparr>\<rparr>, 0)
         | _ \<Rightarrow> (s, 1))"

definition mutex_done :: "mutex_test ev_state \<Rightarrow> mutex_test ev_state \<times> int" where
  "mutex_done s = (s\<lparr>v_test := (v_test s)\<lparr>mx_locked := None\<rparr>\<rparr>, 0)"

definition mutex_next_event :: "nat \<Rightarrow> mutex_test ev_state \<Rightarrow> mutex_test ev_state \<times> sb_mutex_request option" where
  "mutex_next_event wid s =
     (let t = v_test s; n = tls_counter t wid;
          s = s\<lparr>v_test := t\<lparr>tls_counter := (tls_counter t)(wid := n + 1)\<rparr>\<rparr>
      in (s, if sint n > 0 then None else Some \<lparr>nlocks = mutex_locks t, nloops = mutex_loops t\<rparr>))"

text \<open>One round of the loop: a random mutex is taken, the shared variable incremented, the mutex
  released.\<close>

definition mutex_round :: "nat \<Rightarrow> mutex_test ev_state \<Rightarrow> mutex_test ev_state" where
  "mutex_round wid s =
     (let t = v_test s;
          (rng, w) = sb_rand_uniform 0 (mutex_num t - 1) (v_rng s wid);
          s = s\<lparr>v_rng := (v_rng s)(wid := rng)\<rparr>;
          i = unat w
      in case mx_locked t of
           Some ls \<Rightarrow>
             if i < length ls
             then s\<lparr>v_test := t\<lparr>mx_locked := Some (ls[i := ls ! i + 1]), global_var := global_var t + 1\<rparr>\<rparr>
             else s\<lparr>v_test := t\<lparr>mx_fault := True\<rparr>\<rparr>
         | None \<Rightarrow> s\<lparr>v_test := t\<lparr>mx_fault := True\<rparr>\<rparr>)"

text \<open>The loop is a \<open>do while\<close>: the number of locks is decremented before it is compared with 0.\<close>

function mutex_rounds :: "nat \<Rightarrow> u32 \<Rightarrow> mutex_test ev_state \<Rightarrow> mutex_test ev_state" where
  "mutex_rounds wid n s =
     (let s = mutex_round wid s in if n - 1 > 0 then mutex_rounds wid (n - 1) s else s)"
  by auto
termination
proof (relation "measure (\<lambda>(wid, n, s). unat (n - 1))")
  fix wid and n :: u32 and s x :: "mutex_test ev_state"
  assume "n - 1 > 0"
  then have "n - 1 \<noteq> 0" "unat (n - 1) \<noteq> 0" by (simp_all add: word_gt_0 unat_eq_zero)
  then show "((wid, n - 1, x), wid, n, s) \<in> measure (\<lambda>(wid, n, s). unat (n - 1))"
    using unat_minus_one [of "n - 1"] by simp
qed simp

declare mutex_rounds.simps [simp del]

definition mutex_execute_event :: "sb_mutex_request \<Rightarrow> nat \<Rightarrow> mutex_test ev_state \<Rightarrow> mutex_test ev_state \<times> int" where
  "mutex_execute_event e wid s = (mutex_rounds wid (nlocks e) s, 0)"

definition mutex_ops :: "bool \<Rightarrow> (mutex_test, sb_mutex_request) sb_operations" where
  "mutex_ops malloc_ok =
     \<lparr>op_init = Some (mutex_init malloc_ok), op_prepare = None, op_thread_init = None,
      op_print_mode = Some (vsay LOG_INFO ''Doing mutex performance test''), op_next_event = mutex_next_event,
      op_execute_event = mutex_execute_event, op_report_intermediate = (\<lambda>_. None),
      op_report_cumulative = (\<lambda>_. None), op_thread_run = None, op_thread_done = None, op_cleanup = None,
      op_done = Some mutex_done\<rparr>"

section \<open>threads\<close>

text \<open>The locks and unlocks threads make are kept in the order they are made; \<open>test_mutexes\<close> is the
  number of mutexes, \<open>None\<close> when there is no array.  \<open>th_fault\<close> is set by a division by 0 and by
  an access outside the array.\<close>

datatype lock_call = Lock nat | Unlock nat

record threads_test =
  thread_yields :: u32
  thread_locks :: u32
  test_mutexes :: "nat option"
  req_performed :: u32
  lock_log :: "lock_call list"
  th_fault :: bool

definition threads_args :: "sb_arg list" where
  "threads_args =
     [SB_OPT ''thread-yields'' ''number of yields to do per request'' (Some ''1000'') SB_ARG_TYPE_INT,
      SB_OPT ''thread-locks'' ''number of locks per thread'' (Some ''8'') SB_ARG_TYPE_INT]"

definition threads_init :: "threads_test ev_state \<Rightarrow> threads_test ev_state \<times> int" where
  "threads_init s =
     (let opts = l_opts (p_log (v_prog s))
      in case (sb_get_value_int opts ''thread-yields'', sb_get_value_int opts ''thread-locks'') of
           (Some yields, Some locks) \<Rightarrow>
             (s\<lparr>v_test := (v_test s)\<lparr>thread_yields := word_of_int yields, thread_locks := word_of_int locks,
                 req_performed := 0\<rparr>\<rparr>, 0)
         | _ \<Rightarrow> (s, 1))"

definition threads_prepare :: "bool \<Rightarrow> threads_test ev_state \<Rightarrow> threads_test ev_state \<times> int" where
  "threads_prepare malloc_ok s =
     (if \<not> malloc_ok then (vsay LOG_FATAL ''Memory allocation failure!'' s, 1)
      else (s\<lparr>v_test := (v_test s)\<lparr>test_mutexes := Some (unat (thread_locks (v_test s)))\<rparr>\<rparr>, 0))"

definition threads_cleanup :: "threads_test ev_state \<Rightarrow> threads_test ev_state \<times> int" where
  "threads_cleanup s = (s\<lparr>v_test := (v_test s)\<lparr>test_mutexes := None\<rparr>\<rparr>, 0)"

text \<open>An event is the number of the lock.\<close>

definition threads_next_event :: "nat \<Rightarrow> threads_test ev_state \<Rightarrow> threads_test ev_state \<times> u32 option" where
  "threads_next_event wid s =
     (let t = v_test s
      in (s\<lparr>v_test := t\<lparr>req_performed := req_performed t + 1, th_fault := (th_fault t \<or> thread_locks t = 0)\<rparr>\<rparr>,
          Some (req_performed t mod thread_locks t)))"

text \<open>One round of the loop: the mutex is locked, the processor yielded, the mutex unlocked.  Others
  wait meanwhile, so the two calls stay together in the order of that mutex.\<close>

definition threads_round :: "u32 \<Rightarrow> threads_test \<Rightarrow> threads_test" where
  "threads_round lock_num t =
     (let i = unat lock_num
      in case test_mutexes t of
           Some n \<Rightarrow> if i < n then t\<lparr>lock_log := lock_log t @ [Lock i, Unlock i]\<rparr> else t\<lparr>th_fault := True\<rparr>
         | None \<Rightarrow> t\<lparr>th_fault := True\<rparr>)"

definition threads_execute_event :: "u32 \<Rightarrow> nat \<Rightarrow> threads_test ev_state \<Rightarrow> threads_test ev_state \<times> int" where
  "threads_execute_event lock_num wid s =
     (s\<lparr>v_test := (threads_round lock_num ^^ unat (thread_yields (v_test s))) (v_test s)\<rparr>, 0)"

definition threads_print_mode :: "sprintf \<Rightarrow> threads_test ev_state \<Rightarrow> threads_test ev_state" where
  "threads_print_mode fmt s =
     (let s = vsay LOG_INFO ''Doing thread subsystem performance test'' s
      in vsay LOG_INFO (fmt ''Thread yields per test: %d Locks used: %d''
           [A_int (sint (thread_yields (v_test s))), A_int (sint (thread_locks (v_test s)))]) s)"

definition threads_ops :: "sprintf \<Rightarrow> bool \<Rightarrow> (threads_test, u32) sb_operations" where
  "threads_ops fmt malloc_ok =
     \<lparr>op_init = Some threads_init, op_prepare = Some (threads_prepare malloc_ok), op_thread_init = None,
      op_print_mode = Some (threads_print_mode fmt), op_next_event = threads_next_event,
      op_execute_event = threads_execute_event, op_report_intermediate = (\<lambda>_. None),
      op_report_cumulative = (\<lambda>_. None), op_thread_run = None, op_thread_done = None,
      op_cleanup = Some threads_cleanup, op_done = None\<rparr>"

section \<open>The primes\<close>

lemma trial_spec:
  "l \<le> trial t c l \<and> (\<forall>d. l \<le> d \<and> d < trial t c l \<longrightarrow> \<not> d dvd c) \<and>
   (real (trial t c l) \<le> t \<longrightarrow> trial t c l dvd c)"
proof (induction t c l rule: trial.induct)
  case (1 t c l)
  show ?case
  proof (cases "real l \<le> t \<and> \<not> l dvd c")
    case True
    then have "trial t c l = trial t c (l + 1)" by (subst trial.simps) (auto simp: mod_eq_0_iff_dvd)
    moreover have "l + 1 \<le> d" if "l \<le> d" "d dvd c" for d using that True by (cases "d = l") auto
    ultimately show ?thesis using 1 [OF _ _] True by (auto simp: mod_eq_0_iff_dvd)
  next
    case False
    then have "trial t c l = l" by (subst trial.simps) (auto simp: mod_eq_0_iff_dvd)
    then show ?thesis using False by auto
  qed
qed

lemma trial_above: "t < real (trial t c l) \<longleftrightarrow> (\<forall>d. l \<le> d \<and> real d \<le> t \<longrightarrow> \<not> d dvd c)"
  using trial_spec [of l t c] by (meson le_less_trans not_le of_nat_less_iff order_trans linorder_not_less)

text \<open>What is relied on of \<open>sqrt\<close>: exact on squares, and a relative error of at most \<open>2 ^ -53\<close>, as
  IEEE 754 has it.\<close>

definition sqrt_ok :: "(nat \<Rightarrow> real) \<Rightarrow> bool" where
  "sqrt_ok f \<longleftrightarrow> (\<forall>l. f (l * l) = real l) \<and> (\<forall>c. \<bar>f c - sqrt (real c)\<bar> \<le> sqrt (real c) / 2 ^ 53)"

lemma sqrt_ok_le:
  assumes "sqrt_ok f" "c < 2 ^ 32"
  shows "real l \<le> f c \<longleftrightarrow> l * l \<le> c"
proof -
  let ?e = "1 / 2 ^ 53 :: real"
  let ?s = "sqrt (real c)"
  have err: "f c \<le> ?s * (1 + ?e)" "?s * (1 - ?e) \<le> f c"
  proof -
    have "\<bar>f c - ?s\<bar> \<le> ?s * ?e" using assms(1) by (simp add: sqrt_ok_def)
    then have "f c - ?s \<le> ?s * ?e" "?s - f c \<le> ?s * ?e" by linarith+
    then show "f c \<le> ?s * (1 + ?e)" "?s * (1 - ?e) \<le> f c" unfolding distrib_left right_diff_distrib by linarith+
  qed
  have cb: "real c < 2 ^ 32" using assms(2) by (metis of_nat_less_iff of_nat_numeral of_nat_power)
  have sq: "(?s * x) * (?s * x) = real c * (x * x)" for x by (simp add: algebra_simps flip: real_sqrt_mult)
  show ?thesis
  proof
    assume le: "real l \<le> f c"
    then have "real l \<le> ?s * (1 + ?e)" using err(1) by linarith
    then have "real l * real l \<le> (?s * (1 + ?e)) * (?s * (1 + ?e))" by (intro mult_mono) auto
    then have "real l * real l \<le> real c * ((1 + ?e) * (1 + ?e))" by (simp only: sq)
    moreover have "real c * ((1 + ?e) * (1 + ?e)) < real c + 1" using cb by (simp add: field_simps)
    ultimately have "real (l * l) < real (c + 1)" by simp
    then show "l * l \<le> c" by (simp only: of_nat_less_iff)
  next
    assume le: "l * l \<le> c"
    show "real l \<le> f c"
    proof (cases "l * l = c")
      case True then show ?thesis using assms(1) by (auto simp: sqrt_ok_def)
    next
      case False
      have "real c - 1 < real c * ((1 - ?e) * (1 - ?e))" using cb by (simp add: field_simps)
      also have "\<dots> = (?s * (1 - ?e)) * (?s * (1 - ?e))" by (simp only: sq)
      also have "\<dots> \<le> f c * f c" by (intro mult_mono err(2) order_trans [OF _ err(2)]) simp_all
      finally have "real (l * l) < f c * f c" using le False by (simp flip: of_nat_mult)
      moreover have "0 \<le> ?s * (1 - ?e)" by simp
      then have "0 \<le> f c" using err(2) by (rule order_trans)
      ultimately show ?thesis by (metis not_le mult_strict_mono' of_nat_0_le_iff of_nat_mult order_less_asym)
    qed
  qed
qed

lemma trial_prime:
  assumes "sqrt_ok f" "c < 2 ^ 32" "2 \<le> c"
  shows "f c < real (trial (f c) c 2) \<longleftrightarrow> is_prime c"
proof -
  have "f c < real (trial (f c) c 2) \<longleftrightarrow> (\<forall>d. 2 \<le> d \<and> d * d \<le> c \<longrightarrow> \<not> d dvd c)"
    unfolding trial_above sqrt_ok_le [OF assms(1,2)] ..
  also have "\<dots> \<longleftrightarrow> is_prime c"
  proof
    assume none: "\<forall>d. 2 \<le> d \<and> d * d \<le> c \<longrightarrow> \<not> d dvd c"
    show "is_prime c"
    proof (rule ccontr)
      assume "\<not> is_prime c"
      then obtain r where "is_prime r" "r dvd c" "r * r \<le> c" using small_prime_divisor [of c] assms(3) by auto
      moreover have "2 \<le> r" using calculation(1) by (simp add: is_prime_def)
      ultimately show False using none by blast
    qed
  next
    assume p: "is_prime c"
    show "\<forall>d. 2 \<le> d \<and> d * d \<le> c \<longrightarrow> \<not> d dvd c"
    proof (intro allI impI)
      fix d assume d: "2 \<le> d \<and> d * d \<le> c"
      then have "d * 2 \<le> d * d" by (intro mult_le_mono2) simp
      with d have "d < c" by linarith
      then show "\<not> d dvd c" using p d by (auto simp: is_prime_def)
    qed
  qed
  finally show ?thesis .
qed

lemma count_fold: "fold (\<lambda>c n. if P c then n + 1 else n) xs k = k + length (filter P xs)"
  by (induction xs arbitrary: k) auto

text \<open>The number an event of the cpu test computes is the number of primes from 3 to below the
  limit: trial division up to a square root in floating point, of which it is only used that
  it is exact on squares and has a relative error of at most \<open>2 ^ -53\<close>, decides primality of
  every number of the range.\<close>

theorem cpu_primes_correct:
  assumes "sqrt_ok f"
  shows "cpu_primes f m = card {p. is_prime p \<and> 3 \<le> p \<and> p < unat m}"
proof -
  have "cpu_primes f m = length (filter (\<lambda>c. f c < real (trial (f c) c 2)) [3..<unat m])"
    by (simp only: cpu_primes_def count_fold add_0)
  also have "filter (\<lambda>c. f c < real (trial (f c) c 2)) [3..<unat m] = filter is_prime [3..<unat m]"
  proof (rule filter_cong [OF refl])
    fix c assume "c \<in> set [3..<unat m]"
    then have c: "3 \<le> c" "c < unat m" by auto
    have "unat m < 2 ^ 32" using unsigned_less [of m] by simp
    then have "c < 2 ^ 32" using c(2) by (rule less_trans [rotated])
    then show "(f c < real (trial (f c) c 2)) = is_prime c" using trial_prime [OF assms] c(1) by simp
  qed
  also have "length (filter is_prime [3..<unat m]) = card (set (filter is_prime [3..<unat m]))"
    by (rule distinct_card [symmetric]) (rule distinct_filter [OF distinct_upt])
  also have "set (filter is_prime [3..<unat m]) = {p. is_prime p \<and> 3 \<le> p \<and> p < unat m}" by auto
  finally show ?thesis .
qed

theorem cpu_primes_correct_witness: "cpu_primes (\<lambda>c. sqrt (real c)) 10 = card {p. is_prime p \<and> 3 \<le> p \<and> p < 10}"
proof -
  have "sqrt_ok (\<lambda>c. sqrt (real c))" by (simp add: sqrt_ok_def)
  from cpu_primes_correct [OF this, of 10] show ?thesis by simp
qed

section \<open>The mutexes\<close>

definition locks_ok :: "mutex_test \<Rightarrow> bool" where
  "locks_ok t \<longleftrightarrow> 0 < mutex_num t \<and> \<not> mx_fault t \<and>
     (\<exists>ls. mx_locked t = Some ls \<and> length ls = unat (mutex_num t))"

definition times_locked :: "mutex_test \<Rightarrow> nat" where
  "times_locked t = (case mx_locked t of None \<Rightarrow> 0 | Some ls \<Rightarrow> sum_list ls)"

text \<open>What rounds change beside the random state: \<open>n\<close> more locks, \<open>n\<close> more increments.\<close>

definition advanced :: "nat \<Rightarrow> mutex_test ev_state \<Rightarrow> mutex_test ev_state \<Rightarrow> bool" where
  "advanced n s s' \<longleftrightarrow> locks_ok (v_test s') \<and> v_prog s' = v_prog s \<and> tls_counter (v_test s') = tls_counter (v_test s) \<and>
     mutex_locks (v_test s') = mutex_locks (v_test s) \<and> global_var (v_test s') = global_var (v_test s) + of_nat n \<and>
     times_locked (v_test s') = times_locked (v_test s) + n"

lemma round_advances:
  assumes "locks_ok (v_test s)"
  shows "advanced 1 s (mutex_round wid s)"
proof -
  let ?t = "v_test s"
  let ?r = "sb_rand_uniform 0 (mutex_num ?t - 1) (v_rng s wid)"
  obtain ls where ls: "mx_locked ?t = Some ls" "length ls = unat (mutex_num ?t)" "0 < mutex_num ?t" "\<not> mx_fault ?t"
    using assms by (auto simp: locks_ok_def)
  have pred: "unat (mutex_num ?t - 1) = unat (mutex_num ?t) - 1" "0 < unat (mutex_num ?t)"
  proof -
    have "mutex_num ?t \<noteq> 0" using ls(3) by (simp add: word_gt_0)
    then show "unat (mutex_num ?t - 1) = unat (mutex_num ?t) - 1" by (rule unat_minus_one)
    show "0 < unat (mutex_num ?t)" using ls(3) by (simp add: word_less_nat_alt)
  qed
  have "unat (mutex_num ?t) < 2 ^ 32" using unsigned_less [of "mutex_num ?t"] by simp
  with pred have "mutex_num ?t - 1 < 0xffffffff" by (simp add: word_less_nat_alt)
  moreover have "bitlen (unat (mutex_num ?t - 1) + 1) \<le> bitlen (unat (mutex_num ?t - 1 - 0 + 1))"
    using pred by simp
  ultimately have "snd ?r \<le> mutex_num ?t - 1" using sb_rand_uniform_in [of 0 "mutex_num ?t - 1"] by simp
  then have "unat (snd ?r) \<le> unat (mutex_num ?t - 1)" by (simp add: word_le_nat_alt)
  then have i: "unat (snd ?r) < length ls" using ls(2) pred by linarith
  then have "sum_list (ls[unat (snd ?r) := ls ! unat (snd ?r) + 1]) = sum_list ls + 1"
    by (simp add: sum_list_update)
  then show ?thesis using ls i
    by (simp add: advanced_def mutex_round_def case_prod_beta Let_def locks_ok_def times_locked_def)
qed

lemma advanced_trans: "advanced m s t \<Longrightarrow> advanced n t u \<Longrightarrow> advanced (m + n) s u"
  by (simp add: advanced_def algebra_simps)

text \<open>How many rounds the loop makes.\<close>

definition round_count :: "u32 \<Rightarrow> nat" where
  "round_count n = (if n = 0 then 2 ^ 32 else unat n)"

lemma rounds_advance:
  assumes "locks_ok (v_test s)"
  shows "advanced (round_count n) s (mutex_rounds wid n s)"
  using assms
proof (induction wid n s rule: mutex_rounds.induct)
  case (1 wid n s)
  let ?s = "mutex_round wid s"
  note a = round_advances [OF 1(2), of wid]
  have count: "round_count n = Suc (if n - 1 > 0 then round_count (n - 1) else 0)"
  proof (cases "n = 0")
    case True
    then have "unat (n - 1) = 2 ^ 32 - 1" "n - 1 \<noteq> 0" by (simp_all add: unsigned_minus_1_eq_mask mask_eq_exp_minus_1)
    then show ?thesis using True by (simp add: round_count_def word_gt_0)
  next
    case False
    then have "unat (n - 1) = unat n - 1" "unat n \<noteq> 0" by (simp_all add: unat_minus_one unat_eq_zero)
    then show ?thesis using False by (cases "n = 1") (auto simp: round_count_def word_gt_0)
  qed
  show ?case
  proof (cases "n - 1 > 0")
    case True
    have "locks_ok (v_test ?s)" using a by (simp add: advanced_def)
    from advanced_trans [OF a 1(1) [OF refl True this]] show ?thesis
      using True count by (subst mutex_rounds.simps) (simp add: Let_def)
  next
    case False
    then show ?thesis using a count by (subst mutex_rounds.simps) (simp add: Let_def)
  qed
qed

text \<open>Without limits, a worker of the mutex test executes exactly one event and returns 0; every
  lock it takes lies in the array, and it takes as many locks, and increments the shared
  variable as often, as \<open>mutex-locks\<close> says, or \<open>2 ^ 32\<close> times when that option is 0.\<close>

theorem mutex_worker_once:
  assumes "unlimited s" "locks_ok (v_test s)" "tls_counter (v_test s) wid = 0"
  shows "\<exists>s'. thread_run (mutex_ops malloc_ok) others wid 0 2 0 s = Some (s', Returned 0) \<and>
    locks_ok (v_test s') \<and>
    times_locked (v_test s') = times_locked (v_test s) + round_count (mutex_locks (v_test s)) \<and>
    global_var (v_test s') = global_var (v_test s) + mutex_locks (v_test s)"
proof -
  let ?e = "\<lparr>nlocks = mutex_locks (v_test s), nloops = mutex_loops (v_test s)\<rparr>"
  define s1 where "s1 = fst (mutex_next_event wid s)"
  have n1: "mutex_next_event wid s = (s1, Some ?e)"
    using assms(3) by (simp add: s1_def mutex_next_event_def Let_def)
  have t1: "v_test s1 = (v_test s)\<lparr>tls_counter := (tls_counter (v_test s))(wid := 1)\<rparr>" "vglob s1 = vglob s"
    using assms(3) by (simp_all add: s1_def mutex_next_event_def Let_def)
  define s2 where "s2 = mutex_rounds wid (mutex_locks (v_test s)) (sb_event_start wid s1)"
  define s3 where "s3 = sb_event_stop wid s2"
  have "locks_ok (v_test (sb_event_start wid s1))" using assms(2) by (simp add: t1 locks_ok_def)
  from rounds_advance [OF this, of "mutex_locks (v_test s)" wid]
  have a: "advanced (round_count (mutex_locks (v_test s))) (sb_event_start wid s1) s2" by (simp add: s2_def)
  have "unlimited s3" using assms(1) a t1(2) unlimited_cong [of s2 s] by (simp add: s3_def advanced_def)
  note more = unlimited_more [OF assms(1)] unlimited_more [OF this]
  have tls: "tls_counter (v_test s3) wid = 1" using a by (simp add: advanced_def s3_def t1)
  define s4 where "s4 = fst (mutex_next_event wid s3)"
  have n3: "mutex_next_event wid s3 = (s4, None)"
    using tls by (simp add: s4_def mutex_next_event_def Let_def)
  let ?s = s4
  have run: "thread_run (mutex_ops malloc_ok) others wid 0 2 0 s = Some (?s, Returned 0)"
    unfolding numeral_2_eq_2 thread_run.simps more
    using n1 n3 by (simp add: mutex_ops_def mutex_execute_event_def more flip: s2_def s3_def)
  have keep: "times_locked (v_test ?s) = times_locked (v_test s2)" "global_var (v_test ?s) = global_var (v_test s2)"
    "locks_ok (v_test ?s) = locks_ok (v_test s2)"
    by (simp_all add: s4_def mutex_next_event_def Let_def s3_def times_locked_def locks_ok_def)
  have "of_nat (round_count w) = w" for w by (simp add: round_count_def)
  moreover have "times_locked (v_test (sb_event_start wid s1)) = times_locked (v_test s)"
    "global_var (v_test (sb_event_start wid s1)) = global_var (v_test s)"
    by (simp_all add: t1 times_locked_def)
  ultimately show ?thesis using run a
    by (intro exI [of _ ?s]) (simp add: keep advanced_def)
qed

definition sample_mutex :: "mutex_test ev_state" where
  "sample_mutex = \<lparr>v_prog = v_prog (sample_ev id), v_ring = v_ring (sample_ev id), v_rbuf = [], v_queue_array = [],
     v_rng = \<lambda>_. (1, 2), v_clock = v_clock (sample_ev id), v_ticks = 0,
     v_test = \<lparr>mx_locked = Some [0, 0], mutex_num = 2, mutex_loops = 1, mutex_locks = 3, global_var = 0,
       tls_counter = \<lambda>_. 0, mx_fault = False\<rparr>\<rparr>"

theorem mutex_worker_once_witness:
  "\<exists>s'. thread_run (mutex_ops True) (\<lambda>_. (id, [])) 0 0 2 0 sample_mutex = Some (s', Returned 0) \<and>
    times_locked (v_test s') = 3 \<and> global_var (v_test s') = 3"
proof -
  have "unlimited sample_mutex" "locks_ok (v_test sample_mutex)" "tls_counter (v_test sample_mutex) 0 = 0"
    by (simp_all add: sample_mutex_def unlimited_def sample_ev_def set_globals_def sample_prog_def sample_log_def
        globals_static_def locks_ok_def word_less_nat_alt)
  from mutex_worker_once [OF this, of True "\<lambda>_. (id, [])"] show ?thesis
    by (auto simp: sample_mutex_def times_locked_def round_count_def)
qed

section \<open>The scheduler\<close>

definition sample_threads :: "u32 \<Rightarrow> u32 \<Rightarrow> threads_test ev_state" where
  "sample_threads n k = \<lparr>v_prog = v_prog (sample_ev id), v_ring = v_ring (sample_ev id), v_rbuf = [], v_queue_array = [],
     v_rng = \<lambda>_. (1, 2), v_clock = v_clock (sample_ev id), v_ticks = 0,
     v_test = \<lparr>thread_yields = 2, thread_locks = n, test_mutexes = Some (unat n), req_performed = k,
       lock_log = [], th_fault = False\<rparr>\<rparr>"

text \<open>Requests go round the locks in turn while the counter does not wrap around, and an event
  locks and unlocks its own mutex as often as \<open>thread-yields\<close> says, without touching another.\<close>

lemma threads_round_robin:
  "snd (threads_next_event wid s) = Some (req_performed (v_test s) mod thread_locks (v_test s))"
  "req_performed (v_test (fst (threads_next_event wid s))) = req_performed (v_test s) + 1"
  by (simp_all add: threads_next_event_def Let_def)

lemma threads_rounds:
  assumes "test_mutexes t = Some n" "unat k < n"
  shows "(threads_round k ^^ m) t = t\<lparr>lock_log := lock_log t @ concat (replicate m [Lock (unat k), Unlock (unat k)])\<rparr>"
proof (induction m)
  case (Suc m)
  then show ?case using assms
    by (simp add: threads_round_def Let_def flip: replicate_append_same)
qed simp

text \<open>When the test has been prepared with a positive number of locks, the next request of the
  threads test is for a lock of the array, and executing it locks and unlocks just that lock
  \<open>thread-yields\<close> times, each lock followed by its unlock, and faults nowhere; without locks the
  request divides by 0.\<close>

theorem threads_event_correct:
  assumes "test_mutexes (v_test s) = Some (unat (thread_locks (v_test s)))" "\<not> th_fault (v_test s)"
    "threads_next_event wid s = (s1, Some k)"
  shows "if thread_locks (v_test s) = 0 then th_fault (v_test s1)
    else k < thread_locks (v_test s) \<and>
      (\<exists>s2. threads_execute_event k wid s1 = (s2, 0) \<and> \<not> th_fault (v_test s2) \<and>
        lock_log (v_test s2) = lock_log (v_test s) @
          concat (replicate (unat (thread_yields (v_test s))) [Lock (unat k), Unlock (unat k)]))"
proof (cases "thread_locks (v_test s) = 0")
  case True
  then show ?thesis using assms(3) by (auto simp: threads_next_event_def Let_def)
next
  case False
  have k: "k = req_performed (v_test s) mod thread_locks (v_test s)"
    using assms(3) by (simp add: threads_next_event_def Let_def)
  have s1: "test_mutexes (v_test s1) = test_mutexes (v_test s)" "thread_yields (v_test s1) = thread_yields (v_test s)"
    "lock_log (v_test s1) = lock_log (v_test s)" "\<not> th_fault (v_test s1)"
    using assms(2, 3) False by (auto simp: threads_next_event_def Let_def)
  have less: "k < thread_locks (v_test s)"
    using False unfolding k by (simp add: word_gt_0 word_mod_less_divisor)
  then have "unat k < unat (thread_locks (v_test s))" by (simp add: word_less_nat_alt)
  from threads_rounds [OF trans [OF s1(1) assms(1)] this] show ?thesis
    using False less s1 by (simp add: threads_execute_event_def)
qed

theorem threads_event_correct_witness:
  "\<exists>s1 k s2. threads_next_event 0 (sample_threads 8 7) = (s1, Some k) \<and>
    threads_execute_event k 0 s1 = (s2, 0) \<and> lock_log (v_test s2) = [Lock 7, Unlock 7, Lock 7, Unlock 7]"
proof -
  obtain s1 where s1: "threads_next_event 0 (sample_threads 8 7) = (s1, Some 7)"
    by (simp add: threads_next_event_def sample_threads_def Let_def)
  let ?t = "v_test (sample_threads 8 7)"
  have t: "thread_locks ?t = 8" "test_mutexes ?t = Some (unat (8 :: u32))" "\<not> th_fault ?t"
    "lock_log ?t = []" "thread_yields ?t = 2" by (simp_all add: sample_threads_def)
  have two: "replicate 2 x = [x, x]" for x :: "lock_call list" by (simp add: numeral_2_eq_2)
  have "test_mutexes ?t = Some (unat (thread_locks ?t))" using t by simp
  from threads_event_correct [OF this t(3) s1] t obtain s2 where
    "threads_execute_event 7 0 s1 = (s2, 0)" "lock_log (v_test s2) = concat (replicate 2 [Lock 7, Unlock 7])"
    by auto
  with s1 show ?thesis by (simp only: two concat.simps append_Cons append_Nil) blast
qed

end
