(* ===== verification/LuaGlue.thy ===== *)
theory LuaGlue
  imports Reports Rand "HOL-Library.Monad_Syntax"
begin

text \<open>
  The part of the program that runs Lua scripts (\<open>sb_lua.c\<close>): it creates interpreters, exports
  the options and the version to them, finds out which functions a script defines, and runs
  commands, the functions of a test and the reporting hooks.

  The interpreter is the record \<open>lua_lib\<close> of functions on a state of its own.  Its stack, the
  only part the C code works on directly, is explicit: a list per interpreter with the top
  first.  \<open>None\<close> is a run that does not return: an error outside \<open>lua_pcall\<close>, which ends the
  process, the use of an interpreter that is not there, or a wrong use of the stack.
\<close>

section \<open>Values and the interpreter\<close>

datatype lua_value =
    LNil | LBool bool | LNum real | LStr string | LTable nat | LFunction nat | LOther nat

text \<open>What a script changes in the C program when it calls its functions: the log with the globals and
  options, and \<open>args\<close> of the test.\<close>

record lua_host =
  lh_log :: log_state
  lh_args :: "sb_arg list option"

text \<open>The interpreter: \<open>lib_index\<close> and \<open>lib_setindex\<close> may call metamethods and fail; \<open>lib_load\<close> gives the
  function, or the message of an error; \<open>lib_call\<close> the results of a function, or the error it
  raises.\<close>

record 'w lua_lib =
  lib_newstate :: "nat \<Rightarrow> 'w \<Rightarrow> 'w \<times> bool"
  lib_openlibs :: "nat \<Rightarrow> 'w \<Rightarrow> 'w"
  lib_close :: "nat \<Rightarrow> 'w \<Rightarrow> 'w"
  lib_globals :: "nat \<Rightarrow> lua_value"
  lib_registry :: "nat \<Rightarrow> lua_value"
  lib_index :: "nat \<Rightarrow> lua_value \<Rightarrow> lua_value \<Rightarrow> 'w \<Rightarrow> ('w \<times> lua_value) option"
  lib_setindex :: "nat \<Rightarrow> lua_value \<Rightarrow> lua_value \<Rightarrow> lua_value \<Rightarrow> 'w \<Rightarrow> 'w option"
  lib_rawset :: "nat \<Rightarrow> lua_value \<Rightarrow> lua_value \<Rightarrow> lua_value \<Rightarrow> 'w \<Rightarrow> 'w"
  lib_newtable :: "nat \<Rightarrow> 'w \<Rightarrow> 'w \<times> lua_value"
  lib_newmetatable :: "nat \<Rightarrow> string \<Rightarrow> 'w \<Rightarrow> 'w \<times> lua_value"
  lib_load :: "nat \<Rightarrow> string \<Rightarrow> string \<Rightarrow> 'w \<Rightarrow> 'w \<times> (lua_value + lua_value)"
  lib_loadfile :: "nat \<Rightarrow> string option \<Rightarrow> 'w \<Rightarrow> 'w \<times> int \<times> lua_value"
  lib_call :: "nat \<Rightarrow> lua_value \<Rightarrow> lua_value list \<Rightarrow> 'w \<times> lua_host \<Rightarrow> ('w \<times> lua_host) \<times> (lua_value + lua_value list)"
  lib_err_file :: int
  lib_num_text :: "real \<Rightarrow> string"

section \<open>State\<close>

text \<open>The reports of a test: those of the database layer, or a hook of the script.\<close>

datatype lua_report = Db_report | Lua_hook

record lua_ops_t =
  lo_thread_run :: bool
  lo_report_intermediate :: lua_report
  lo_report_cumulative :: lua_report

text \<open>The variables of the file: \<open>sbtest\<close> in the fields from \<open>ls_sname\<close> to \<open>ls_ops\<close>, \<open>ls_states\<close>, \<open>ls_gstate\<close>,
  \<open>ls_command\<close>; \<open>ls_tls\<close> is \<open>tls_lua_ctxt.L\<close> of each thread, \<open>ls_rng\<close> its random number generator.\<close>

record 'w lua_sys =
  ls_world :: 'w
  ls_host :: lua_host
  ls_stack :: "nat \<Rightarrow> lua_value list option"
  ls_fresh :: nat
  ls_states :: "nat option list option"
  ls_gstate :: "nat option"
  ls_tls :: "nat \<Rightarrow> nat option"
  ls_rng :: "nat \<Rightarrow> sb_rng_state_t"
  ls_command :: "string option"
  ls_sname :: "string option"
  ls_lname :: "string option"
  ls_prepare :: bool
  ls_cleanup :: bool
  ls_help :: bool
  ls_ops :: "lua_ops_t option"

text \<open>What does not change: the interpreter, \<open>strtod\<close>, the environment variables, the constants of the
  build, the internal scripts with their names, the results of system calls, the draws that
  seed the generator of each thread, and the order in which the workers of a command run.\<close>

record 'w lua_env =
  le_lib :: "'w lua_lib"
  le_strtod :: "string \<Rightarrow> real"
  le_getenv :: "string \<Rightarrow> string option"
  le_dlext :: string
  le_datadir :: string
  le_libdir :: string
  le_version :: string
  le_version_string :: string
  le_scripts :: "(string \<times> string) list"
  le_calloc :: bool
  le_random :: "nat \<Rightarrow> u64 list"
  le_create :: "nat \<Rightarrow> int \<times> pthread_t"
  le_join :: "pthread_t \<Rightarrow> int"
  le_threads :: "sb_thread_ctxt list"
  le_order :: "nat list \<Rightarrow> nat list"

definition lua_globals :: "'w lua_sys \<Rightarrow> sb_globals" where
  "lua_globals s = l_globals (lh_log (ls_host s))"

definition lua_log :: "log_msg_priority_t \<Rightarrow> string \<Rightarrow> 'w lua_sys \<Rightarrow> 'w lua_sys" where
  "lua_log p t s = s\<lparr>ls_host := (ls_host s)\<lparr>lh_log := log_text p (Some t) (lh_log (ls_host s))\<rparr>\<rparr>"

section \<open>The stack\<close>

definition set_stack :: "nat \<Rightarrow> lua_value list \<Rightarrow> 'w lua_sys \<Rightarrow> 'w lua_sys" where
  "set_stack L st s = s\<lparr>ls_stack := (ls_stack s)(L \<mapsto> st)\<rparr>"

definition set_world :: "'w \<Rightarrow> 'w lua_sys \<Rightarrow> 'w lua_sys" where
  "set_world w s = s\<lparr>ls_world := w\<rparr>"

definition lua_push :: "nat \<Rightarrow> lua_value \<Rightarrow> 'w lua_sys \<Rightarrow> 'w lua_sys option" where
  "lua_push L v s = do { st \<leftarrow> ls_stack s L; Some (set_stack L (v # st) s) }"

definition lua_pop :: "nat \<Rightarrow> nat \<Rightarrow> 'w lua_sys \<Rightarrow> 'w lua_sys option" where
  "lua_pop L n s = do { st \<leftarrow> ls_stack s L; if n \<le> length st then Some (set_stack L (drop n st) s) else None }"

text \<open>The element at the index \<open>-1 - k\<close>, and the removal of the one below the top.\<close>

definition lua_at :: "nat \<Rightarrow> nat \<Rightarrow> 'w lua_sys \<Rightarrow> lua_value" where
  "lua_at L k s = (case ls_stack s L of None \<Rightarrow> LNil | Some st \<Rightarrow> if k < length st then st ! k else LNil)"

definition lua_remove :: "nat \<Rightarrow> 'w lua_sys \<Rightarrow> 'w lua_sys option" where
  "lua_remove L s =
     do { st \<leftarrow> ls_stack s L; case st of a # b # st \<Rightarrow> Some (set_stack L (a # st) s) | _ \<Rightarrow> None }"

definition lua_pushstring :: "nat \<Rightarrow> string option \<Rightarrow> 'w lua_sys \<Rightarrow> 'w lua_sys option" where
  "lua_pushstring L t = lua_push L (case t of None \<Rightarrow> LNil | Some t \<Rightarrow> LStr t)"

definition lua_newtable :: "'w lua_lib \<Rightarrow> nat \<Rightarrow> 'w lua_sys \<Rightarrow> 'w lua_sys option" where
  "lua_newtable lib L s = (let (w, t) = lib_newtable lib L (ls_world s) in lua_push L t (set_world w s))"

definition lua_index :: "'w lua_lib \<Rightarrow> nat \<Rightarrow> lua_value \<Rightarrow> lua_value \<Rightarrow> 'w lua_sys \<Rightarrow> 'w lua_sys option" where
  "lua_index lib L t k s = do { (w, v) \<leftarrow> lib_index lib L t k (ls_world s); lua_push L v (set_world w s) }"

definition lua_getglobal :: "'w lua_lib \<Rightarrow> nat \<Rightarrow> string \<Rightarrow> 'w lua_sys \<Rightarrow> 'w lua_sys option" where
  "lua_getglobal lib L n = lua_index lib L (lib_globals lib L) (LStr n)"

text \<open>A field of the value on the top, which stays.\<close>

definition lua_getfield :: "'w lua_lib \<Rightarrow> nat \<Rightarrow> string \<Rightarrow> 'w lua_sys \<Rightarrow> 'w lua_sys option" where
  "lua_getfield lib L n s = lua_index lib L (lua_at L 0 s) (LStr n) s"

text \<open>\<open>lua_gettable\<close> at \<open>-2\<close>: the key on the top is replaced by the value.\<close>

definition lua_gettable :: "'w lua_lib \<Rightarrow> nat \<Rightarrow> 'w lua_sys \<Rightarrow> 'w lua_sys option" where
  "lua_gettable lib L s = do { s' \<leftarrow> lua_pop L 1 s; lua_index lib L (lua_at L 1 s) (lua_at L 0 s) s' }"

text \<open>\<open>lua_settable\<close> at \<open>-3\<close>, \<open>lua_setfield\<close> of the table below the top, \<open>lua_setglobal\<close> and \<open>lua_rawseti\<close> at
  \<open>-2\<close>.\<close>

definition lua_settable :: "'w lua_lib \<Rightarrow> nat \<Rightarrow> 'w lua_sys \<Rightarrow> 'w lua_sys option" where
  "lua_settable lib L s =
     do { w \<leftarrow> lib_setindex lib L (lua_at L 2 s) (lua_at L 1 s) (lua_at L 0 s) (ls_world s); lua_pop L 2 (set_world w s) }"

definition lua_setfield :: "'w lua_lib \<Rightarrow> nat \<Rightarrow> string \<Rightarrow> 'w lua_sys \<Rightarrow> 'w lua_sys option" where
  "lua_setfield lib L n s =
     do { w \<leftarrow> lib_setindex lib L (lua_at L 1 s) (LStr n) (lua_at L 0 s) (ls_world s); lua_pop L 1 (set_world w s) }"

definition lua_setglobal :: "'w lua_lib \<Rightarrow> nat \<Rightarrow> string \<Rightarrow> 'w lua_sys \<Rightarrow> 'w lua_sys option" where
  "lua_setglobal lib L n s =
     do { w \<leftarrow> lib_setindex lib L (lib_globals lib L) (LStr n) (lua_at L 0 s) (ls_world s); lua_pop L 1 (set_world w s) }"

definition lua_rawseti :: "'w lua_lib \<Rightarrow> nat \<Rightarrow> nat \<Rightarrow> 'w lua_sys \<Rightarrow> 'w lua_sys option" where
  "lua_rawseti lib L i s =
     lua_pop L 1 (set_world (lib_rawset lib L (lua_at L 1 s) (LNum (real i)) (lua_at L 0 s) (ls_world s)) s)"

definition lua_isfunction :: "nat \<Rightarrow> 'w lua_sys \<Rightarrow> bool" where
  "lua_isfunction L s = (case lua_at L 0 s of LFunction _ \<Rightarrow> True | _ \<Rightarrow> False)"

definition lua_toboolean :: "nat \<Rightarrow> 'w lua_sys \<Rightarrow> bool" where
  "lua_toboolean L s \<longleftrightarrow> lua_at L 0 s \<notin> {LNil, LBool False}"

definition lua_tostring :: "'w lua_lib \<Rightarrow> lua_value \<Rightarrow> string option" where
  "lua_tostring lib v = (case v of LStr t \<Rightarrow> Some t | LNum x \<Rightarrow> Some (lib_num_text lib x) | _ \<Rightarrow> None)"

text \<open>\<open>lua_pcall\<close> with \<open>n\<close> arguments and \<open>m\<close> results: whether the call failed; the function and its
  arguments are replaced by the results, or by the error.\<close>

definition lua_pcall :: "'w lua_lib \<Rightarrow> nat \<Rightarrow> nat \<Rightarrow> nat \<Rightarrow> 'w lua_sys \<Rightarrow> ('w lua_sys \<times> bool) option" where
  "lua_pcall lib L n m s =
     do { st \<leftarrow> ls_stack s L;
          if length st \<le> n then None
          else (case lib_call lib L (st ! n) (rev (take n st)) (ls_world s, ls_host s) of
                  ((w, h), Inl err) \<Rightarrow> Some (set_stack L (err # drop (n + 1) st) (s\<lparr>ls_world := w, ls_host := h\<rparr>), True)
                | ((w, h), Inr vs) \<Rightarrow>
                    Some (set_stack L (rev (take m (vs @ replicate m LNil)) @ drop (n + 1) st)
                       (s\<lparr>ls_world := w, ls_host := h\<rparr>), False)) }"

text \<open>\<open>lua_call\<close>: an error ends the process.\<close>

definition lua_call :: "'w lua_lib \<Rightarrow> nat \<Rightarrow> nat \<Rightarrow> nat \<Rightarrow> 'w lua_sys \<Rightarrow> 'w lua_sys option" where
  "lua_call lib L n m s = do { (s, failed) \<leftarrow> lua_pcall lib L n m s; if failed then None else Some s }"

section \<open>Errors\<close>

definition shown_error :: "string option \<Rightarrow> string" where
  "shown_error t = (case t of None \<Rightarrow> ''(not a string)'' | Some t \<Rightarrow> t)"

definition call_error :: "'w lua_lib \<Rightarrow> nat \<Rightarrow> string \<Rightarrow> 'w lua_sys \<Rightarrow> 'w lua_sys option" where
  "call_error lib L name s =
     lua_pop L 1 (lua_log LOG_FATAL ([CHR 0x60] @ name @ [CHR 0x27] @ '' function failed: '' @
       shown_error (lua_tostring lib (lua_at L 0 s))) s)"

definition report_error :: "'w lua_lib \<Rightarrow> nat \<Rightarrow> 'w lua_sys \<Rightarrow> 'w lua_sys option" where
  "report_error lib L s = lua_pop L 1 (lua_log LOG_FATAL (shown_error (lua_tostring lib (lua_at L 0 s))) s)"

definition func_available :: "'w lua_lib \<Rightarrow> nat \<Rightarrow> string \<Rightarrow> 'w lua_sys \<Rightarrow> ('w lua_sys \<times> bool) option" where
  "func_available lib L func s =
     do { s \<leftarrow> lua_getglobal lib L func s; s' \<leftarrow> lua_pop L 1 s; Some (s', lua_isfunction L s) }"

section \<open>Options\<close>

fun push_list :: "'w lua_lib \<Rightarrow> nat \<Rightarrow> nat \<Rightarrow> string list \<Rightarrow> 'w lua_sys \<Rightarrow> 'w lua_sys option" where
  "push_list lib L i [] s = Some s"
| "push_list lib L i (x # xs) s =
     do { s \<leftarrow> lua_push L (LStr x) s; s \<leftarrow> lua_rawseti lib L i s; push_list lib L (i + 1) xs s }"

text \<open>The \<open>switch\<close> of \<open>do_export_options\<close>.\<close>

definition push_option :: "'w lua_env \<Rightarrow> nat \<Rightarrow> option_t \<Rightarrow> 'w lua_sys \<Rightarrow> 'w lua_sys option" where
  "push_option env L opt s =
     (case opt_type opt of
        SB_ARG_TYPE_BOOL \<Rightarrow> lua_push L (LBool (sb_opt_to_flag opt)) s
      | SB_ARG_TYPE_INT \<Rightarrow> do { i \<leftarrow> sb_opt_to_int opt; lua_push L (LNum (of_int i)) s }
      | SB_ARG_TYPE_DOUBLE \<Rightarrow> lua_push L (LNum (sb_opt_to_double (le_strtod env) opt)) s
      | SB_ARG_TYPE_SIZE \<Rightarrow> lua_push L (LNum (real (unat (sb_opt_to_size opt)))) s
      | SB_ARG_TYPE_STRING \<Rightarrow> lua_push L (LStr (case sb_opt_to_string opt of None \<Rightarrow> [] | Some t \<Rightarrow> t)) s
      | SB_ARG_TYPE_LIST \<Rightarrow> do { s \<leftarrow> lua_newtable (le_lib env) L s; push_list (le_lib env) L 1 (sb_opt_to_list opt) s }
      | SB_ARG_TYPE_FILE \<Rightarrow> lua_push L LNil s
      | _ \<Rightarrow> lua_push L LNil (lua_log LOG_WARNING (''Global option '' @ [CHR 0x27] @ opt_name opt @ [CHR 0x27] @
               '' will not be exported, because the type is unknown'') s))"

fun export_each :: "'w lua_env \<Rightarrow> nat \<Rightarrow> bool \<Rightarrow> option_t list \<Rightarrow> 'w lua_sys \<Rightarrow> 'w lua_sys option" where
  "export_each env L global [] s = Some s"
| "export_each env L global (opt # opts) s =
     (if global then
        do { s \<leftarrow> lua_getglobal (le_lib env) L (opt_name opt) s;
             s' \<leftarrow> lua_pop L 1 s;
             if lua_isfunction L s then export_each env L global opts s'
             else do { s \<leftarrow> push_option env L opt s'; s \<leftarrow> lua_setglobal (le_lib env) L (opt_name opt) s;
                       export_each env L global opts s } }
      else
        do { s \<leftarrow> lua_push L (LStr (opt_name opt)) s; s \<leftarrow> push_option env L opt s;
             s \<leftarrow> lua_settable (le_lib env) L s; export_each env L global opts s })"

definition do_export_options :: "'w lua_env \<Rightarrow> nat \<Rightarrow> bool \<Rightarrow> 'w lua_sys \<Rightarrow> ('w lua_sys \<times> int) option" where
  "do_export_options env L global s =
     (let lib = le_lib env; opts = l_opts (lh_log (ls_host s))
      in do { s \<leftarrow> (if global then Some s
                   else do { s \<leftarrow> lua_getglobal lib L ''sysbench'' s; s \<leftarrow> lua_push L (LStr ''opt'') s; lua_newtable lib L s });
              s \<leftarrow> export_each env L global opts s;
              s \<leftarrow> (if global then Some s else lua_settable lib L s);
              Some (s, 0) })"

definition export_options :: "'w lua_env \<Rightarrow> nat \<Rightarrow> 'w lua_sys \<Rightarrow> ('w lua_sys \<times> int) option" where
  "export_options env L s =
     do { (s, rc) \<leftarrow> do_export_options env L False s; Some (s, if rc \<noteq> 0 then 1 else 0) }"

section \<open>Preparing an interpreter\<close>

text \<open>\<open>luaL_gsub\<close>: all occurrences of \<open>p\<close> from the left.\<close>

function lua_gsub :: "string \<Rightarrow> string \<Rightarrow> string \<Rightarrow> string" where
  "lua_gsub p r [] = []"
| "lua_gsub p r (c # cs) =
     (if p \<noteq> [] \<and> take (length p) (c # cs) = p then r @ lua_gsub p r (drop (length p) (c # cs))
      else c # lua_gsub p r cs)"
  by pat_completeness auto
termination
  by (relation "measure (\<lambda>(p, r, cs). length cs)") auto

text \<open>The path of a variable: the two semicolons stand for the default path.\<close>

definition search_path :: "(string \<Rightarrow> string option) \<Rightarrow> string \<Rightarrow> string \<Rightarrow> string" where
  "search_path getenv var standard =
     (case getenv var of
        None \<Rightarrow> standard
      | Some p \<Rightarrow> lua_gsub [CHR 0x01] standard (lua_gsub '';;'' ('';'' @ [CHR 0x01] @ '';'') p))"

definition default_path :: "'w lua_env \<Rightarrow> string" where
  "default_path env =
     ''./?.lua;'' @ ''./?/init.lua;'' @ ''./src/lua/?.lua;'' @
     (case le_getenv env ''HOME'' of
        None \<Rightarrow> []
      | Some home \<Rightarrow>
          home @ ''/.luarocks/share/lua/5.1/?.lua;'' @ home @ ''/.luarocks/share/lua/5.1/?/init.lua;'' @
          home @ ''/.luarocks/share/lua/?.lua;'' @ home @ ''/.luarocks/share/lua/?/init.lua;'') @
     ''/usr/local/share/lua/5.1/?.lua;'' @ ''/usr/share/lua/5.1/?.lua;'' @ le_datadir env @ ''/?.lua;''"

definition default_cpath :: "'w lua_env \<Rightarrow> string" where
  "default_cpath env =
     ''./?'' @ le_dlext env @ '';'' @
     (case le_getenv env ''HOME'' of
        None \<Rightarrow> []
      | Some home \<Rightarrow>
          home @ ''/.luarocks/lib/lua/5.1/?'' @ le_dlext env @ '';'' @ home @ ''/.luarocks/lib/lua/?'' @ le_dlext env @ '';'') @
     ''/usr/local/lib/lua/5.1/?'' @ le_dlext env @ '';'' @ ''/usr/lib/lua/5.1/?'' @ le_dlext env @ '';'' @
     le_libdir env @ '';''"

definition sb_lua_set_paths :: "'w lua_env \<Rightarrow> nat \<Rightarrow> 'w lua_sys \<Rightarrow> 'w lua_sys option" where
  "sb_lua_set_paths env L s =
     (let lib = le_lib env
      in do { s \<leftarrow> lua_getglobal lib L ''package'' s;
              s \<leftarrow> lua_push L (LStr (search_path (le_getenv env) ''LUA_PATH'' (default_path env))) s;
              s \<leftarrow> lua_setfield lib L ''path'' s;
              s \<leftarrow> lua_push L (LStr (search_path (le_getenv env) ''LUA_CPATH'' (default_cpath env))) s;
              s \<leftarrow> lua_setfield lib L ''cpath'' s;
              lua_pop L 1 s })"

definition sb_lua_var_number :: "'w lua_lib \<Rightarrow> nat \<Rightarrow> string \<Rightarrow> real \<Rightarrow> 'w lua_sys \<Rightarrow> 'w lua_sys option" where
  "sb_lua_var_number lib L name n s =
     do { s \<leftarrow> lua_push L (LStr name) s; s \<leftarrow> lua_push L (LNum n) s; lua_settable lib L s }"

definition sb_lua_var_string :: "'w lua_lib \<Rightarrow> nat \<Rightarrow> string \<Rightarrow> string option \<Rightarrow> 'w lua_sys \<Rightarrow> 'w lua_sys option" where
  "sb_lua_var_string lib L name t s =
     do { s \<leftarrow> lua_push L (LStr name) s; s \<leftarrow> lua_pushstring L t s; lua_settable lib L s }"

text \<open>The internal scripts; a message without a string is shown as \<open>(null)\<close>.\<close>

fun load_internal_scripts :: "'w lua_lib \<Rightarrow> nat \<Rightarrow> (string \<times> string) list \<Rightarrow> 'w lua_sys \<Rightarrow> ('w lua_sys \<times> int) option" where
  "load_internal_scripts lib L [] s = Some (s, 0)"
| "load_internal_scripts lib L ((name, source) # scripts) s =
     (case lib_load lib L source name (ls_world s) of
        (w, Inl err) \<Rightarrow>
          do { s \<leftarrow> lua_push L err (set_world w s);
               s \<leftarrow> lua_pop L 1 (lua_log LOG_FATAL (''failed to load internal module '' @ [CHR 0x27] @ name @ [CHR 0x27] @ '': '' @
                      (case lua_tostring lib err of None \<Rightarrow> ''(null)'' | Some t \<Rightarrow> t)) s);
               Some (s, 1) }
      | (w, Inr f) \<Rightarrow>
          do { s \<leftarrow> lua_push L f (set_world w s); s \<leftarrow> lua_call lib L 0 0 s; load_internal_scripts lib L scripts s })"

text \<open>The arguments of a LuaJIT command, separated by commas, an empty one being nil.\<close>

function jit_args :: "string \<Rightarrow> lua_value list" where
  "jit_args opt =
     (let p = takeWhile (\<lambda>c. c \<noteq> CHR '','') opt; v = (if p = [] then LNil else LStr p)
      in case dropWhile (\<lambda>c. c \<noteq> CHR '','') opt of [] \<Rightarrow> [v] | _ # opt \<Rightarrow> v # jit_args opt)"
  by pat_completeness auto
termination
proof (relation "measure length", goal_cases)
  case (2 opt p v c rest)
  then show ?case using length_dropWhile_le [of "\<lambda>c. c \<noteq> CHR '',''" opt] by simp
qed simp

declare jit_args.simps [simp del]

fun push_all :: "nat \<Rightarrow> lua_value list \<Rightarrow> 'w lua_sys \<Rightarrow> 'w lua_sys option" where
  "push_all L [] s = Some s"
| "push_all L (v # vs) s = do { s \<leftarrow> lua_push L v s; push_all L vs s }"

definition has_prefix :: "string \<Rightarrow> string \<Rightarrow> bool" where
  "has_prefix p t \<longleftrightarrow> take (length p) t = p"

text \<open>The first part leaves the function of the command on the stack, or ends with 1.\<close>

definition jit_function :: "'w lua_env \<Rightarrow> nat \<Rightarrow> string \<Rightarrow> 'w lua_sys \<Rightarrow> ('w lua_sys \<times> bool) option" where
  "jit_function env L name s =
     (let lib = le_lib env;
          nomodule = (\<lambda>s. Some (lua_log LOG_FATAL ''unknown luaJIT command or jit.* modules not installed'' s, False))
      in do { s \<leftarrow> lua_push L (LStr name) s;
              s \<leftarrow> lua_index lib L (lib_registry lib L) (LStr ''_LOADED'') s;
              s \<leftarrow> lua_getfield lib L ''jit'' s;
              s \<leftarrow> lua_remove L s;
              s \<leftarrow> lua_push L (lua_at L 1 s) s;
              s \<leftarrow> lua_gettable lib L s;
              if \<not> lua_isfunction L s then
                do { s \<leftarrow> lua_pop L 2 s;
                     s \<leftarrow> lua_getglobal lib L ''require'' s;
                     s \<leftarrow> lua_push L (LStr (''jit.'' @ name)) s;
                     (s, failed) \<leftarrow> lua_pcall lib L 1 1 s;
                     if failed then
                       (case lua_tostring lib (lua_at L 0 s) of
                          Some msg \<Rightarrow>
                            if has_prefix ''module '' msg then nomodule s
                            else do { s \<leftarrow> call_error lib L ''require'' s; Some (s, False) }
                        | None \<Rightarrow> do { s \<leftarrow> call_error lib L ''require'' s; Some (s, False) })
                     else
                       do { s \<leftarrow> lua_getfield lib L ''start'' s;
                            if lua_at L 0 s = LNil then nomodule s
                            else do { s \<leftarrow> lua_remove L s; s \<leftarrow> lua_remove L s; Some (s, True) } } }
              else do { s \<leftarrow> lua_remove L s; s \<leftarrow> lua_remove L s; Some (s, True) } })"

definition sb_lua_do_jitcmd :: "'w lua_env \<Rightarrow> nat \<Rightarrow> string \<Rightarrow> 'w lua_sys \<Rightarrow> ('w lua_sys \<times> int) option" where
  "sb_lua_do_jitcmd env L cmd s =
     (let lib = le_lib env;
          name = takeWhile (\<lambda>c. c \<noteq> CHR ''='') cmd;
          opt = drop (length name + 1) cmd;
          args = (if opt = [] then [] else jit_args opt)
      in do { (s, found) \<leftarrow> jit_function env L name s;
              if \<not> found then Some (s, 1)
              else do { s \<leftarrow> push_all L args s;
                        (s, failed) \<leftarrow> lua_pcall lib L (length args) 0 s;
                        if failed then do { s \<leftarrow> call_error lib L ''lua_pcall'' s; Some (s, 1) } else Some (s, 0) } })"

fun push_argv :: "'w lua_lib \<Rightarrow> nat \<Rightarrow> nat \<Rightarrow> string option list \<Rightarrow> 'w lua_sys \<Rightarrow> 'w lua_sys option" where
  "push_argv lib L i [] s = Some s"
| "push_argv lib L i (a # as) s =
     do { s \<leftarrow> lua_pushstring L a s; s \<leftarrow> lua_rawseti lib L i s; push_argv lib L (i + 1) as s }"

text \<open>The table \<open>sysbench\<close> of a new interpreter; \<open>SB_LUA_ERROR_NONE\<close> is 0, \<open>SB_LUA_ERROR_RESTART_EVENT\<close> 1.\<close>

definition export_sysbench :: "'w lua_env \<Rightarrow> nat \<Rightarrow> int \<Rightarrow> 'w lua_sys \<Rightarrow> 'w lua_sys option" where
  "export_sysbench env L ident s =
     (let lib = le_lib env; g = lua_globals s
      in do { s \<leftarrow> lua_newtable lib L s;
              s \<leftarrow> sb_lua_var_number lib L ''tid'' (of_int ident) s;
              s \<leftarrow> lua_push L (LStr ''error'') s;
              s \<leftarrow> lua_newtable lib L s;
              s \<leftarrow> sb_lua_var_number lib L ''NONE'' 0 s;
              s \<leftarrow> sb_lua_var_number lib L ''RESTART_EVENT'' 1 s;
              s \<leftarrow> lua_settable lib L s;
              s \<leftarrow> sb_lua_var_string lib L ''version'' (Some (le_version env)) s;
              s \<leftarrow> sb_lua_var_string lib L ''version_string'' (Some (le_version_string env)) s;
              s \<leftarrow> lua_push L (LStr ''cmdline'') s;
              s \<leftarrow> lua_newtable lib L s;
              s \<leftarrow> lua_push L (LStr ''argv'') s;
              s \<leftarrow> lua_newtable lib L s;
              s \<leftarrow> push_argv lib L 0 (g_argv g) s;
              s \<leftarrow> lua_settable lib L s;
              s \<leftarrow> (case g_cmdname g of None \<Rightarrow> Some s | Some c \<Rightarrow> sb_lua_var_string lib L ''command'' (Some c) s);
              s \<leftarrow> sb_lua_var_string lib L ''script_path'' (ls_lname s) s;
              s \<leftarrow> lua_settable lib L s;
              lua_setglobal lib L ''sysbench'' s })"

definition lua_newmetatable :: "'w lua_lib \<Rightarrow> nat \<Rightarrow> string \<Rightarrow> 'w lua_sys \<Rightarrow> 'w lua_sys option" where
  "lua_newmetatable lib L name s = (let (w, t) = lib_newmetatable lib L name (ls_world s) in lua_push L t (set_world w s))"

text \<open>The script of the test, or a module of that name; \<open>False\<close> after a message.\<close>

definition load_script :: "'w lua_env \<Rightarrow> nat \<Rightarrow> 'w lua_sys \<Rightarrow> ('w lua_sys \<times> bool) option" where
  "load_script env L s =
     (let lib = le_lib env;
          loaderr = (\<lambda>s. do { s \<leftarrow> report_error lib L s; Some (s, False) });
          (w, rc, v) = lib_loadfile lib L (ls_lname s) (ls_world s)
      in do { s \<leftarrow> lua_push L v (set_world w s);
              if rc \<noteq> 0 then
                if rc \<noteq> lib_err_file lib then loaderr s
                else
                  do { s \<leftarrow> lua_getglobal lib L ''require'' s;
                       s \<leftarrow> lua_pushstring L (ls_lname s) s;
                       (s, failed) \<leftarrow> lua_pcall lib L 1 1 s;
                       if failed then
                         (case lua_tostring lib (lua_at L 0 s) of
                            Some msg \<Rightarrow> if \<not> has_prefix ''module '' msg then loaderr s
                                        else Some (lua_log LOG_FATAL (''Cannot find benchmark '' @ [CHR 0x27] @
                                          (case ls_lname s of None \<Rightarrow> ''(null)'' | Some t \<Rightarrow> t) @ [CHR 0x27] @
                                          '': no such built-in test, file or module'') s, False)
                          | None \<Rightarrow> Some (lua_log LOG_FATAL (''Cannot find benchmark '' @ [CHR 0x27] @
                                          (case ls_lname s of None \<Rightarrow> ''(null)'' | Some t \<Rightarrow> t) @ [CHR 0x27] @
                                          '': no such built-in test, file or module'') s, False))
                       else Some (s, True) }
              else
                do { (s, failed) \<leftarrow> lua_pcall lib L 0 0 s;
                     if failed then loaderr s else Some (s, True) } })"

text \<open>\<open>sb_lua_new_state\<close> in the thread \<open>me\<close> with the identifier \<open>ident\<close>.  A failure leaves the new interpreter
  open.\<close>

definition sb_lua_new_state :: "'w lua_env \<Rightarrow> nat \<Rightarrow> int \<Rightarrow> 'w lua_sys \<Rightarrow> ('w lua_sys \<times> nat option) option" where
  "sb_lua_new_state env me ident s =
     (let lib = le_lib env; L = ls_fresh s; (w, ok) = lib_newstate lib L (ls_world s)
      in if \<not> ok then None
         else
           let s = set_stack L [] (s\<lparr>ls_world := lib_openlibs lib L w, ls_fresh := L + 1\<rparr>)
           in do { (s, rc) \<leftarrow> (case g_luajit_cmd (lua_globals s) of
                                None \<Rightarrow> Some (s, 0) | Some cmd \<Rightarrow> sb_lua_do_jitcmd env L cmd s);
                   if rc \<noteq> 0 then Some (s, None)
                   else
                     do { s \<leftarrow> sb_lua_set_paths env L s;
                          s \<leftarrow> export_sysbench env L ident s;
                          s \<leftarrow> lua_newmetatable lib L ''sysbench.stmt'' s;
                          s \<leftarrow> lua_newmetatable lib L ''sysbench.rs'' s;
                          (s, rc) \<leftarrow> load_internal_scripts lib L (le_scripts env) s;
                          if rc \<noteq> 0 then Some (s, None)
                          else
                            do { (s, ok) \<leftarrow> load_script env L s;
                                 if \<not> ok then Some (s, None)
                                 else Some (s\<lparr>ls_tls := (ls_tls s)(me \<mapsto> L)\<rparr>, Some L) } } })"

text \<open>Closing an interpreter twice is a wrong access.\<close>

definition sb_lua_close_state :: "'w lua_env \<Rightarrow> nat \<Rightarrow> nat option \<Rightarrow> 'w lua_sys \<Rightarrow> 'w lua_sys option" where
  "sb_lua_close_state env me state s =
     do { s \<leftarrow> (case state of
                  None \<Rightarrow> Some s
                | Some L \<Rightarrow>
                    if ls_stack s L = None then None
                    else Some (s\<lparr>ls_world := lib_close (le_lib env) L (ls_world s), ls_stack := (ls_stack s)(L := None)\<rparr>));
          Some (s\<lparr>ls_tls := (ls_tls s)(me := None)\<rparr>) }"

section \<open>Loading and unloading a test\<close>

text \<open>The copy of the arguments a script defines, called by the script.\<close>

definition sb_lua_set_test_args :: "sb_arg list \<Rightarrow> lua_host \<Rightarrow> lua_host \<times> int" where
  "sb_lua_set_test_args args h = (h\<lparr>lh_args := Some args\<rparr>, 0)"

text \<open>A function of the table \<open>sysbench.cmdline\<close> is put on the stack; \<open>False\<close> after a warning when it is not a
  function.\<close>

definition cmdline_function :: "'w lua_lib \<Rightarrow> nat \<Rightarrow> string \<Rightarrow> string \<Rightarrow> 'w lua_sys \<Rightarrow> ('w lua_sys \<times> bool) option" where
  "cmdline_function lib L name warning s =
     do { s \<leftarrow> lua_getglobal lib L ''sysbench'' s;
          s \<leftarrow> lua_getfield lib L ''cmdline'' s;
          s \<leftarrow> lua_getfield lib L name s;
          if \<not> lua_isfunction L s
          then do { s \<leftarrow> lua_pop L 3 (lua_log LOG_WARNING warning s); Some (s, False) }
          else Some (s, True) }"

text \<open>What follows: the call with \<open>n\<close> arguments and the truth of its result; a failure counts as \<open>broken\<close>.\<close>

definition cmdline_result :: "'w lua_lib \<Rightarrow> nat \<Rightarrow> nat \<Rightarrow> string \<Rightarrow> 'w lua_sys \<Rightarrow> ('w lua_sys \<times> bool option) option" where
  "cmdline_result lib L n name s =
     do { (s, failed) \<leftarrow> lua_pcall lib L n 1 s;
          if failed then do { s \<leftarrow> call_error lib L (''sysbench.cmdline.'' @ name) s; s \<leftarrow> lua_pop L 2 s; Some (s, None) }
          else do { s' \<leftarrow> lua_pop L 3 s; Some (s', Some (lua_toboolean L s)) } }"

definition read_cmdline_options :: "'w lua_env \<Rightarrow> nat \<Rightarrow> 'w lua_sys \<Rightarrow> ('w lua_sys \<times> int) option" where
  "read_cmdline_options env L s =
     (let lib = le_lib env
      in do { (s, found) \<leftarrow> cmdline_function lib L ''read_cmdline_options''
                ''Cannot find sysbench.cmdline.read_cmdline_options()'' s;
              if \<not> found then Some (s, 1)
              else do { (s, r) \<leftarrow> cmdline_result lib L 0 ''read_cmdline_options'' s;
                        Some (s, if r = Some True then 0 else 1) } })"

definition sb_lua_hook_defined :: "'w lua_lib \<Rightarrow> nat option \<Rightarrow> string \<Rightarrow> 'w lua_sys \<Rightarrow> ('w lua_sys \<times> bool) option" where
  "sb_lua_hook_defined lib state name s =
     (case state of
        None \<Rightarrow> Some (s, False)
      | Some L \<Rightarrow>
          do { s \<leftarrow> lua_getglobal lib L ''sysbench'' s;
               s \<leftarrow> lua_getfield lib L ''hooks'' s;
               s \<leftarrow> lua_getfield lib L name s;
               s' \<leftarrow> lua_pop L 3 s;
               Some (s', lua_isfunction L s) })"

definition sb_lua_hook_push :: "'w lua_lib \<Rightarrow> nat option \<Rightarrow> string \<Rightarrow> 'w lua_sys \<Rightarrow> ('w lua_sys \<times> bool) option" where
  "sb_lua_hook_push lib state name s =
     (case state of
        None \<Rightarrow> Some (s, False)
      | Some L \<Rightarrow>
          do { s \<leftarrow> lua_getglobal lib L ''sysbench'' s;
               s \<leftarrow> lua_getfield lib L ''hooks'' s;
               s \<leftarrow> lua_getfield lib L name s;
               if \<not> lua_isfunction L s then do { s \<leftarrow> lua_pop L 3 s; Some (s, False) }
               else do { s \<leftarrow> lua_remove L s; s \<leftarrow> lua_remove L s; Some (s, True) } })"

definition sb_lua_loaded :: "'w lua_sys \<Rightarrow> bool" where
  "sb_lua_loaded s \<longleftrightarrow> ls_gstate s \<noteq> None"

definition sb_lua_done :: "'w lua_env \<Rightarrow> nat \<Rightarrow> 'w lua_sys \<Rightarrow> 'w lua_sys option" where
  "sb_lua_done env me s =
     do { s \<leftarrow> sb_lua_close_state env me (ls_gstate s) s;
          Some (s\<lparr>ls_gstate := None, ls_states := None, ls_host := (ls_host s)\<lparr>lh_args := None\<rparr>,
                  ls_sname := None, ls_lname := None\<rparr>) }"

definition basename :: "string \<Rightarrow> string" where
  "basename path =
     (let t = dropWhile (\<lambda>c. c = CHR ''/'') (rev path)
      in if path = [] then ''.'' else if t = [] then ''/'' else rev (takeWhile (\<lambda>c. c \<noteq> CHR ''/'') t))"

definition lua_ops :: lua_ops_t where
  "lua_ops = \<lparr>lo_thread_run = False, lo_report_intermediate = Db_report, lo_report_cumulative = Db_report\<rparr>"

text \<open>\<open>sb_load_lua\<close> in the main thread, whose identifier is \<open>ident\<close>: whether there is a test.\<close>

definition sb_load_lua :: "'w lua_env \<Rightarrow> nat \<Rightarrow> int \<Rightarrow> string option \<Rightarrow> 'w lua_sys \<Rightarrow> ('w lua_sys \<times> bool) option" where
  "sb_load_lua env me ident testname s =
     (let lib = le_lib env;
          failed = (\<lambda>s. do { s \<leftarrow> sb_lua_done env me s; Some (s, False) });
          s = (case testname of
                 Some n \<Rightarrow> s\<lparr>ls_sname := Some (basename n), ls_lname := Some n\<rparr>
               | None \<Rightarrow> s\<lparr>ls_sname := Some ''<stdin>'', ls_lname := None\<rparr>)
      in do { (s, state) \<leftarrow> sb_lua_new_state env me ident s;
              let s = s\<lparr>ls_gstate := state\<rparr>;
              case state of
                None \<Rightarrow> failed s
              | Some L \<Rightarrow>
                  do { (s, rc) \<leftarrow> read_cmdline_options env L s;
                       if rc \<noteq> 0 then failed s
                       else
                         do { (s, prepare) \<leftarrow> func_available lib L ''prepare'' s;
                              (s, cleanup) \<leftarrow> func_available lib L ''cleanup'' s;
                              (s, help) \<leftarrow> func_available lib L ''help'' s;
                              (s, run) \<leftarrow> func_available lib L ''thread_run'' s;
                              (s, intermediate) \<leftarrow> sb_lua_hook_defined lib (Some L) ''report_intermediate'' s;
                              (s, cumulative) \<leftarrow> sb_lua_hook_defined lib (Some L) ''report_cumulative'' s;
                              let s = s\<lparr>ls_prepare := ls_prepare s \<or> prepare, ls_cleanup := ls_cleanup s \<or> cleanup,
                                        ls_help := ls_help s \<or> help,
                                        ls_ops := Some \<lparr>lo_thread_run = run,
                                          lo_report_intermediate = (if intermediate then Lua_hook else lo_report_intermediate lua_ops),
                                          lo_report_cumulative = (if cumulative then Lua_hook else lo_report_cumulative lua_ops)\<rparr>\<rparr>;
                              if le_calloc env
                              then Some (s\<lparr>ls_states := Some (replicate (unat (g_threads (lua_globals s))) None)\<rparr>, True)
                              else failed s } } })"

section \<open>The functions of a test\<close>

text \<open>A function of the script, called when it is defined; \<open>m\<close> results are asked for.\<close>

definition call_if_defined ::
  "'w lua_lib \<Rightarrow> nat \<Rightarrow> string \<Rightarrow> lua_value list \<Rightarrow> nat \<Rightarrow> 'w lua_sys \<Rightarrow> ('w lua_sys \<times> bool) option" where
  "call_if_defined lib L func args m s =
     do { s \<leftarrow> lua_getglobal lib L func s;
          if lua_at L 0 s = LNil then Some (s, True)
          else do { s \<leftarrow> push_all L args s;
                    (s, failed) \<leftarrow> lua_pcall lib L (length args) m s;
                    if failed then do { s \<leftarrow> call_error lib L func s; Some (s, False) } else Some (s, True) } }"

definition sb_lua_op_init :: "'w lua_env \<Rightarrow> 'w lua_sys \<Rightarrow> ('w lua_sys \<times> int) option" where
  "sb_lua_op_init env s =
     (let lib = le_lib env
      in do { L \<leftarrow> ls_gstate s;
              (s, rc) \<leftarrow> export_options env L s;
              if rc \<noteq> 0 then Some (s, 1)
              else
                do { (s, ok) \<leftarrow> call_if_defined lib L ''init'' [] 0 s;
                     if \<not> ok then Some (s, 1)
                     else
                       do { (s, event) \<leftarrow> func_available lib L ''event'' s;
                            if \<not> event
                            then Some (lua_log LOG_FATAL (''cannot find the event() function in '' @
                                   (case ls_sname s of None \<Rightarrow> ''(null)'' | Some t \<Rightarrow> t)) s, 1)
                            else Some (s, 0) } } })"

text \<open>The interpreter of the worker \<open>i\<close>, which must have one.\<close>

definition state_of :: "nat \<Rightarrow> 'w lua_sys \<Rightarrow> nat option" where
  "state_of i s = do { states \<leftarrow> ls_states s; if i < length states then states ! i else None }"

definition sb_lua_op_thread_init :: "'w lua_env \<Rightarrow> nat \<Rightarrow> nat \<Rightarrow> 'w lua_sys \<Rightarrow> ('w lua_sys \<times> int) option" where
  "sb_lua_op_thread_init env me i s =
     do { (s, state) \<leftarrow> sb_lua_new_state env me (int i) s;
          case state of
            None \<Rightarrow> Some (s, 1)
          | Some L \<Rightarrow>
              do { states \<leftarrow> ls_states s;
                   if i \<ge> length states then None
                   else
                     do { (s, rc) \<leftarrow> export_options env L (s\<lparr>ls_states := Some (states[i := Some L])\<rparr>);
                          if rc \<noteq> 0 then Some (s, 1)
                          else do { (s, ok) \<leftarrow> call_if_defined (le_lib env) L ''thread_init'' [LNum (real i)] 1 s;
                                    Some (s, if ok then 0 else 1) } } } }"

definition sb_lua_op_thread_run :: "'w lua_env \<Rightarrow> nat \<Rightarrow> 'w lua_sys \<Rightarrow> ('w lua_sys \<times> int) option" where
  "sb_lua_op_thread_run env i s =
     (let lib = le_lib env
      in do { L \<leftarrow> state_of i s;
              s \<leftarrow> lua_getglobal lib L ''thread_run'' s;
              s \<leftarrow> lua_push L (LNum (real i)) s;
              (s, failed) \<leftarrow> lua_pcall lib L 1 1 s;
              if failed then do { s \<leftarrow> call_error lib L ''thread_run'' s; Some (s, 1) } else Some (s, 0) })"

definition sb_lua_op_thread_done :: "'w lua_env \<Rightarrow> nat \<Rightarrow> nat \<Rightarrow> 'w lua_sys \<Rightarrow> ('w lua_sys \<times> int) option" where
  "sb_lua_op_thread_done env me i s =
     do { L \<leftarrow> state_of i s;
          (s, ok) \<leftarrow> call_if_defined (le_lib env) L ''thread_done'' [LNum (real i)] 1 s;
          s \<leftarrow> sb_lua_close_state env me (Some L) s;
          Some (s, if ok then 0 else 1) }"

definition sb_lua_op_done :: "'w lua_env \<Rightarrow> nat \<Rightarrow> 'w lua_sys \<Rightarrow> ('w lua_sys \<times> int) option" where
  "sb_lua_op_done env me s =
     do { L \<leftarrow> ls_gstate s;
          (s, ok) \<leftarrow> call_if_defined (le_lib env) L ''done'' [] 0 s;
          if \<not> ok then Some (s, 1) else do { s \<leftarrow> sb_lua_done env me s; Some (s, 0) } }"

section \<open>Commands\<close>

definition execute_command :: "'w lua_env \<Rightarrow> string \<Rightarrow> 'w lua_sys \<Rightarrow> ('w lua_sys \<times> int) option" where
  "execute_command env cmd s =
     (let lib = le_lib env
      in do { L \<leftarrow> ls_gstate s;
              (s, rc) \<leftarrow> export_options env L s;
              if rc \<noteq> 0 then Some (s, 1)
              else
                do { s \<leftarrow> lua_getglobal lib L cmd s;
                     (s, failed) \<leftarrow> lua_pcall lib L 0 1 s;
                     if failed then do { s \<leftarrow> call_error lib L cmd s; Some (s, 1) }
                     else do { s \<leftarrow> lua_pop L 1 s; Some (s, 0) } } })"

definition sb_lua_cmd_prepare :: "'w lua_env \<Rightarrow> 'w lua_sys \<Rightarrow> ('w lua_sys \<times> int) option" where
  "sb_lua_cmd_prepare env = execute_command env ''prepare''"

definition sb_lua_cmd_cleanup :: "'w lua_env \<Rightarrow> 'w lua_sys \<Rightarrow> ('w lua_sys \<times> int) option" where
  "sb_lua_cmd_cleanup env = execute_command env ''cleanup''"

definition sb_lua_cmd_help :: "'w lua_env \<Rightarrow> 'w lua_sys \<Rightarrow> ('w lua_sys \<times> int) option" where
  "sb_lua_cmd_help env = execute_command env ''help''"

text \<open>A function of \<open>sysbench.cmdline\<close> that takes the name of a command: when it is not there or fails, the
  answer is yes.\<close>

definition command_property :: "'w lua_env \<Rightarrow> string \<Rightarrow> string \<Rightarrow> 'w lua_sys \<Rightarrow> ('w lua_sys \<times> bool) option" where
  "command_property env func name s =
     (let lib = le_lib env
      in do { L \<leftarrow> ls_gstate s;
              (s, found) \<leftarrow> cmdline_function lib L func (''Cannot find the sysbench.cmdline.'' @ func @ '' function'') s;
              if \<not> found then Some (s, True)
              else do { s \<leftarrow> lua_push L (LStr name) s;
                        (s, r) \<leftarrow> cmdline_result lib L 1 func s;
                        Some (s, case r of None \<Rightarrow> True | Some b \<Rightarrow> b) } })"

definition sb_lua_custom_command_defined :: "'w lua_env \<Rightarrow> string \<Rightarrow> 'w lua_sys \<Rightarrow> ('w lua_sys \<times> bool) option" where
  "sb_lua_custom_command_defined env = command_property env ''command_defined''"

definition sb_lua_custom_command_parallel :: "'w lua_env \<Rightarrow> string \<Rightarrow> 'w lua_sys \<Rightarrow> ('w lua_sys \<times> bool) option" where
  "sb_lua_custom_command_parallel env = command_property env ''command_parallel''"

definition call_custom_command :: "'w lua_env \<Rightarrow> nat \<Rightarrow> 'w lua_sys \<Rightarrow> ('w lua_sys \<times> int) option" where
  "call_custom_command env L s =
     (let lib = le_lib env
      in do { (s, rc) \<leftarrow> export_options env L s;
              if rc \<noteq> 0 then Some (s, 1)
              else
                do { (s, found) \<leftarrow> cmdline_function lib L ''call_command'' ''Cannot find the sysbench.cmdline.call_command function'' s;
                     if \<not> found then Some (s, 1)
                     else do { s \<leftarrow> lua_pushstring L (ls_command s) s;
                               (s, r) \<leftarrow> cmdline_result lib L 1 ''call_command'' s;
                               Some (s, if r = Some True then 0 else 1) } } })"

text \<open>A worker of a parallel command: the result of the command is dropped.\<close>

definition cmd_worker_thread :: "'w lua_env \<Rightarrow> nat \<Rightarrow> 'w lua_sys \<Rightarrow> 'w lua_sys option" where
  "cmd_worker_thread env i s =
     do { (s, state) \<leftarrow> sb_lua_new_state env (Suc i) (int i)
            (s\<lparr>ls_rng := (ls_rng s)(Suc i := sb_rand_thread_init (le_random env i))\<rparr>);
          case state of
            None \<Rightarrow> Some (lua_log LOG_FATAL ''failed to create a thread to execute command'' s)
          | Some L \<Rightarrow> do { (s, rc) \<leftarrow> call_custom_command env L s; sb_lua_close_state env (Suc i) (Some L) s } }"

fun run_workers :: "'w lua_env \<Rightarrow> nat list \<Rightarrow> 'w lua_sys \<Rightarrow> 'w lua_sys option" where
  "run_workers env [] s = Some s"
| "run_workers env (i # is) s = do { s \<leftarrow> cmd_worker_thread env i s; run_workers env is s }"

text \<open>A custom command.  Thread 0 is the main thread and thread \<open>i + 1\<close> worker \<open>i\<close>; the workers that were
  started run one after the other, in the order of \<open>le_order\<close>, also when not all could be
  started, which nobody waits for then.\<close>

definition sb_lua_call_custom_command :: "'w lua_env \<Rightarrow> string \<Rightarrow> 'w lua_sys \<Rightarrow> ('w lua_sys \<times> int) option" where
  "sb_lua_call_custom_command env name s =
     do { (s, parallel) \<leftarrow> sb_lua_custom_command_parallel env name (s\<lparr>ls_command := Some name\<rparr>);
          if parallel \<and> g_threads (lua_globals s) > 1 then
            (let (cs, started, l, err) = sb_thread_create_workers (le_create env) (le_threads env) (lh_log (ls_host s));
                 s = s\<lparr>ls_host := (ls_host s)\<lparr>lh_log := l\<rparr>\<rparr>
             in do { s \<leftarrow> run_workers env (le_order env started) s;
                     if err \<noteq> 0 then Some (s, int err)
                     else (let (l, rc) = sb_thread_join_workers (le_join env) cs (lh_log (ls_host s))
                           in Some (s\<lparr>ls_host := (ls_host s)\<lparr>lh_log := l\<rparr>\<rparr>, int rc)) })
          else do { L \<leftarrow> ls_gstate s; call_custom_command env L s } }"

section \<open>Reports\<close>

fun push_numbers :: "'w lua_lib \<Rightarrow> nat \<Rightarrow> (string \<times> real) list \<Rightarrow> 'w lua_sys \<Rightarrow> 'w lua_sys option" where
  "push_numbers lib L [] s = Some s"
| "push_numbers lib L ((n, x) # xs) s = do { s \<leftarrow> sb_lua_var_number lib L n x s; push_numbers lib L xs s }"

definition common_stats :: "sb_stat_t \<Rightarrow> (string \<times> real) list" where
  "common_stats stat =
     [(''threads_running'', real (unat (st_threads_running stat))), (''time_interval'', st_time_interval stat),
      (''time_total'', st_time_total stat), (''latency_pct'', st_latency_pct stat),
      (''events'', real (unat (st_events stat))), (''reads'', real (unat (st_reads stat))),
      (''writes'', real (unat (st_writes stat))), (''other'', real (unat (st_other stat))),
      (''errors'', real (unat (st_errors stat))), (''reconnects'', real (unat (st_reconnects stat)))]"

definition stat_to_lua_table :: "'w lua_lib \<Rightarrow> nat \<Rightarrow> sb_stat_t \<Rightarrow> 'w lua_sys \<Rightarrow> 'w lua_sys option" where
  "stat_to_lua_table lib L stat s = do { s \<leftarrow> lua_newtable lib L s; push_numbers lib L (common_stats stat) s }"

definition intermediate_stats :: "sb_stat_t \<Rightarrow> (string \<times> real) list" where
  "intermediate_stats stat =
     [(''queue_length'', real (unat (st_queue_length stat))), (''concurrency'', real (unat (st_concurrency stat)))]"

definition cumulative_stats :: "sb_stat_t \<Rightarrow> (string \<times> real) list" where
  "cumulative_stats stat =
     [(''latency_min'', st_latency_min stat), (''latency_max'', st_latency_max stat), (''latency_avg'', st_latency_avg stat),
      (''latency_sum'', st_latency_sum stat)]"

text \<open>The call of a hook with the statistics and those only this report has.\<close>

definition call_hook ::
  "'w lua_lib \<Rightarrow> nat option \<Rightarrow> string \<Rightarrow> sb_stat_t \<Rightarrow> (string \<times> real) list \<Rightarrow> 'w lua_sys \<Rightarrow> 'w lua_sys option" where
  "call_hook lib state name stat extra s =
     do { (s, pushed) \<leftarrow> sb_lua_hook_push lib state name s;
          case state of
            Some L \<Rightarrow>
              if \<not> pushed then Some s
              else do { s \<leftarrow> stat_to_lua_table lib L stat s;
                        s \<leftarrow> push_numbers lib L extra s;
                        (s, failed) \<leftarrow> lua_pcall lib L 1 0 s;
                        if failed then call_error lib L name s else Some s }
          | None \<Rightarrow> Some s }"

definition sb_lua_report_intermediate :: "'w lua_env \<Rightarrow> nat \<Rightarrow> sb_stat_t \<Rightarrow> 'w lua_sys \<Rightarrow> 'w lua_sys option" where
  "sb_lua_report_intermediate env me stat s =
     call_hook (le_lib env) (ls_tls s me) ''report_intermediate'' stat (intermediate_stats stat) s"

definition sb_lua_report_cumulative :: "'w lua_env \<Rightarrow> nat \<Rightarrow> sb_stat_t \<Rightarrow> 'w lua_sys \<Rightarrow> 'w lua_sys option" where
  "sb_lua_report_cumulative env me stat s =
     (let state = ls_tls s me
      in do { s \<leftarrow> (if state = ls_gstate s then do { L \<leftarrow> state; (s, rc) \<leftarrow> export_options env L s; Some s } else Some s);
              call_hook (le_lib env) state ''report_cumulative'' stat (cumulative_stats stat) s })"

text \<open>A reporting thread makes an interpreter of its own.\<close>

definition sb_lua_report_thread_init :: "'w lua_env \<Rightarrow> nat \<Rightarrow> int \<Rightarrow> 'w lua_sys \<Rightarrow> ('w lua_sys \<times> int) option" where
  "sb_lua_report_thread_init env me ident s =
     (if ls_tls s me = None then
        do { (s, state) \<leftarrow> sb_lua_new_state env me ident s;
             L \<leftarrow> ls_tls s me;
             (s, rc) \<leftarrow> export_options env L s;
             Some (s, 0) }
      else Some (s, 0))"

definition sb_lua_report_thread_done :: "'w lua_env \<Rightarrow> nat \<Rightarrow> 'w lua_sys \<Rightarrow> 'w lua_sys option" where
  "sb_lua_report_thread_done env me s =
     (if sb_lua_loaded s then sb_lua_close_state env me (ls_tls s me) s else Some s)"

end
