(* ===== verification/LuaProps.thy ===== *)
theory LuaProps
  imports LuaGlue CmdLine
begin

text \<open>
  Properties of the Lua part: what every function leaves on the stack of an interpreter, that
  interpreters are opened and closed once, what a script sees of the options, and what becomes of
  the result of a command.
\<close>

section \<open>Counting the stack\<close>

text \<open>What holds after a run that returns.\<close>

definition returns :: "('a \<Rightarrow> bool) \<Rightarrow> 'a option \<Rightarrow> bool" where
  "returns P m \<longleftrightarrow> (\<forall>x. m = Some x \<longrightarrow> P x)"

lemma returns_Some [simp]: "returns P (Some x) = P x" and returns_None [simp]: "returns P None"
  by (simp_all add: returns_def)

lemma returnsD: "returns P m \<Longrightarrow> m = Some x \<Longrightarrow> P x"
  by (simp add: returns_def)

lemma returns_bind: "returns Q m \<Longrightarrow> (\<And>x. Q x \<Longrightarrow> returns P (f x)) \<Longrightarrow> returns P (Option.bind m f)"
  by (cases m) (simp_all add: returns_def)

lemma returns_bind2:
  "returns (\<lambda>(x, y). Q x y) m \<Longrightarrow> (\<And>x y. Q x y \<Longrightarrow> returns P (f x y)) \<Longrightarrow> returns P (Option.bind m (\<lambda>(x, y). f x y))"
  by (cases m) (auto simp: returns_def)

lemma returns_if: "(c \<Longrightarrow> returns P a) \<Longrightarrow> (\<not> c \<Longrightarrow> returns P b) \<Longrightarrow> returns P (if c then a else b)"
  by simp

lemma returns_weaken: "returns P m \<Longrightarrow> (\<And>x. P x \<Longrightarrow> Q x) \<Longrightarrow> returns Q m"
  by (auto simp: returns_def)

text \<open>Since \<open>s0\<close> only the interpreter \<open>L\<close> with its stack, the world and the host have changed.\<close>

definition with_stack :: "'w lua_sys \<Rightarrow> nat \<Rightarrow> lua_value list \<Rightarrow> 'w lua_sys \<Rightarrow> bool" where
  "with_stack s0 L st s \<longleftrightarrow>
     s = s0\<lparr>ls_world := ls_world s, ls_host := ls_host s, ls_stack := (ls_stack s0)(L \<mapsto> st)\<rparr>"

lemma with_stack_start: "ls_stack s L = Some st \<Longrightarrow> with_stack s L st s"
  by (simp add: with_stack_def map_upd_triv)

lemma with_stackD:
  assumes "with_stack s0 L st s"
  shows "ls_stack s = (ls_stack s0)(L \<mapsto> st)" "ls_fresh s = ls_fresh s0" "ls_states s = ls_states s0"
    "ls_gstate s = ls_gstate s0" "ls_tls s = ls_tls s0" "ls_command s = ls_command s0" "ls_lname s = ls_lname s0"
    "ls_sname s = ls_sname s0"
  using arg_cong [OF assms [unfolded with_stack_def], of ls_stack] arg_cong [OF assms [unfolded with_stack_def], of ls_fresh]
    arg_cong [OF assms [unfolded with_stack_def], of ls_states] arg_cong [OF assms [unfolded with_stack_def], of ls_gstate]
    arg_cong [OF assms [unfolded with_stack_def], of ls_tls] arg_cong [OF assms [unfolded with_stack_def], of ls_command]
    arg_cong [OF assms [unfolded with_stack_def], of ls_lname] arg_cong [OF assms [unfolded with_stack_def], of ls_sname]
  by simp_all

lemma with_stack_changes:
  assumes "with_stack s0 L st s"
  shows "with_stack s0 L st (set_world w s)" "with_stack s0 L st (lua_log p t s)"
    "with_stack s0 L st' (set_stack L st' s)" "with_stack s0 L st (s\<lparr>ls_world := w, ls_host := h\<rparr>)"
proof -
  obtain w0 h0 where "s = s0\<lparr>ls_world := w0, ls_host := h0, ls_stack := (ls_stack s0)(L \<mapsto> st)\<rparr>"
    using assms unfolding with_stack_def by blast
  then show "with_stack s0 L st (set_world w s)" "with_stack s0 L st (lua_log p t s)"
    "with_stack s0 L st' (set_stack L st' s)" "with_stack s0 L st (s\<lparr>ls_world := w, ls_host := h\<rparr>)"
    by (simp_all add: with_stack_def set_world_def lua_log_def set_stack_def)
qed

text \<open>There are \<open>k\<close> values on top of \<open>st\<close>.\<close>

definition tops :: "'w lua_sys \<Rightarrow> nat \<Rightarrow> lua_value list \<Rightarrow> nat \<Rightarrow> 'w lua_sys \<Rightarrow> bool" where
  "tops s0 L st k s \<longleftrightarrow> (\<exists>vs. length vs = k \<and> with_stack s0 L (vs @ st) s)"

lemma tops_changes:
  assumes "tops s0 L st k s"
  shows "tops s0 L st k (set_world w s)" "tops s0 L st k (lua_log p t s)" "tops s0 L st k (s\<lparr>ls_world := w, ls_host := h\<rparr>)"
  using assms by (auto simp: tops_def dest: with_stack_changes)

lemma tops_push: "tops s0 L st k s \<Longrightarrow> returns (tops s0 L st (Suc k)) (lua_push L v s)"
  by (auto simp: tops_def lua_push_def with_stackD intro!: exI [of _ "v # _"] with_stack_changes)

lemma tops_pop:
  assumes "tops s0 L st k s" "n \<le> k"
  shows "returns (tops s0 L st (k - n)) (lua_pop L n s)"
proof -
  obtain vs where "length vs = k" "with_stack s0 L (vs @ st) s" using assms(1) by (auto simp: tops_def)
  with assms(2) show ?thesis
    by (auto simp: tops_def lua_pop_def with_stackD intro!: exI [of _ "drop n vs"] with_stack_changes)
qed

lemma tops_pop1: "tops s0 L st (Suc k) s \<Longrightarrow> returns (tops s0 L st k) (lua_pop L 1 s)"
  using tops_pop [of s0 L st "Suc k" s 1] by simp

lemma tops_pop2: "tops s0 L st (Suc (Suc k)) s \<Longrightarrow> returns (tops s0 L st k) (lua_pop L 2 s)"
  using tops_pop [of s0 L st "Suc (Suc k)" s 2] by simp

lemma tops_pop3: "tops s0 L st (Suc (Suc (Suc k))) s \<Longrightarrow> returns (tops s0 L st k) (lua_pop L 3 s)"
  using tops_pop [of s0 L st "Suc (Suc (Suc k))" s 3] by simp

lemma tops_remove:
  assumes "tops s0 L st (Suc (Suc k)) s"
  shows "returns (tops s0 L st (Suc k)) (lua_remove L s)"
proof -
  obtain a b vs where "length vs = k" "with_stack s0 L (a # b # vs @ st) s"
    using assms by (auto simp: tops_def length_Suc_conv)
  then show ?thesis
    by (auto simp: tops_def lua_remove_def with_stackD intro!: exI [of _ "a # vs"] with_stack_changes)
qed

lemma tops_index: "tops s0 L st k s \<Longrightarrow> returns (tops s0 L st (Suc k)) (lua_index lib L t n s)"
  unfolding lua_index_def by (rule returns_bind2 [where Q = "\<lambda>_ _. True"]) (simp add: returns_def, intro tops_push tops_changes)

lemma tops_getglobal: "tops s0 L st k s \<Longrightarrow> returns (tops s0 L st (Suc k)) (lua_getglobal lib L n s)"
  by (simp add: lua_getglobal_def tops_index)

lemma tops_getfield: "tops s0 L st k s \<Longrightarrow> returns (tops s0 L st (Suc k)) (lua_getfield lib L n s)"
  by (simp add: lua_getfield_def tops_index)

lemma tops_gettable: "tops s0 L st (Suc k) s \<Longrightarrow> returns (tops s0 L st (Suc k)) (lua_gettable lib L s)"
  unfolding lua_gettable_def by (rule returns_bind, erule tops_pop1, erule tops_index)

lemma tops_newtable: "tops s0 L st k s \<Longrightarrow> returns (tops s0 L st (Suc k)) (lua_newtable lib L s)"
  unfolding lua_newtable_def by (simp add: case_prod_beta tops_push tops_changes)

lemma tops_newmetatable: "tops s0 L st k s \<Longrightarrow> returns (tops s0 L st (Suc k)) (lua_newmetatable lib L n s)"
  unfolding lua_newmetatable_def by (simp add: case_prod_beta tops_push tops_changes)

lemma tops_pushstring: "tops s0 L st k s \<Longrightarrow> returns (tops s0 L st (Suc k)) (lua_pushstring L t s)"
  by (simp add: lua_pushstring_def tops_push)

lemma tops_settable: "tops s0 L st (Suc (Suc k)) s \<Longrightarrow> returns (tops s0 L st k) (lua_settable lib L s)"
  unfolding lua_settable_def by (rule returns_bind [where Q = "\<lambda>_. True"]) (simp add: returns_def, intro tops_pop2 tops_changes)

lemma tops_setfield: "tops s0 L st (Suc k) s \<Longrightarrow> returns (tops s0 L st k) (lua_setfield lib L n s)"
  unfolding lua_setfield_def by (rule returns_bind [where Q = "\<lambda>_. True"]) (simp add: returns_def, intro tops_pop1 tops_changes)

lemma tops_setglobal: "tops s0 L st (Suc k) s \<Longrightarrow> returns (tops s0 L st k) (lua_setglobal lib L n s)"
  unfolding lua_setglobal_def by (rule returns_bind [where Q = "\<lambda>_. True"]) (simp add: returns_def, intro tops_pop1 tops_changes)

lemma tops_rawseti: "tops s0 L st (Suc k) s \<Longrightarrow> returns (tops s0 L st k) (lua_rawseti lib L i s)"
  unfolding lua_rawseti_def by (intro tops_pop1 tops_changes)

lemma tops_call_error: "tops s0 L st (Suc k) s \<Longrightarrow> returns (tops s0 L st k) (call_error lib L n s)"
  unfolding call_error_def by (intro tops_pop1 tops_changes)

lemma tops_report_error: "tops s0 L st (Suc k) s \<Longrightarrow> returns (tops s0 L st k) (report_error lib L s)"
  unfolding report_error_def by (intro tops_pop1 tops_changes)

text \<open>A call takes the function and its arguments away.\<close>

lemma tops_pcall:
  assumes "tops s0 L st (Suc n + k) s"
  shows "returns (\<lambda>(s, failed). tops s0 L st (if failed then Suc k else m + k) s) (lua_pcall lib L n m s)"
proof -
  obtain vs where vs: "length vs = Suc n + k" "with_stack s0 L (vs @ st) s" using assms by (auto simp: tops_def)
  have "tops s0 L st (Suc k) (set_stack L (e # drop (n + 1) (vs @ st)) (s\<lparr>ls_world := w, ls_host := h\<rparr>))" for e w h
    unfolding tops_def using vs by (intro exI [of _ "e # drop (n + 1) vs"]) (auto intro: with_stack_changes)
  moreover have "tops s0 L st (m + k) (set_stack L (rev (take m (rs @ replicate m LNil)) @ drop (n + 1) (vs @ st))
      (s\<lparr>ls_world := w, ls_host := h\<rparr>))" for rs w h
    unfolding tops_def using vs
    by (intro exI [of _ "rev (take m (rs @ replicate m LNil)) @ drop (n + 1) vs"]) (auto intro: with_stack_changes)
  ultimately show ?thesis
    using vs by (auto simp: lua_pcall_def with_stackD split: prod.splits sum.splits)
qed

lemma tops_call: "tops s0 L st (Suc n + k) s \<Longrightarrow> returns (tops s0 L st (m + k)) (lua_call lib L n m s)"
  unfolding lua_call_def by (rule returns_bind2, erule tops_pcall) (simp split: if_splits)

text \<open>The rules for the primitive operations, for elimination.\<close>

lemmas tops_rules = tops_push tops_pop1 tops_pop2 tops_pop3 tops_remove tops_getglobal tops_getfield tops_gettable
  tops_newtable tops_newmetatable tops_pushstring tops_settable tops_setfield tops_setglobal tops_rawseti tops_call_error
  tops_report_error

text \<open>Calls with no argument and with one.\<close>

lemma tops_pcall_args:
  "tops s0 L st (n + Suc k) s \<Longrightarrow> returns (\<lambda>(s, failed). tops s0 L st (if failed then Suc k else m + k) s) (lua_pcall lib L n m s)"
  using tops_pcall [of s0 L st n k s] by simp

lemma tops_pcall_0:
  "tops s0 L st (Suc k) s \<Longrightarrow> returns (\<lambda>(s, failed). tops s0 L st (if failed then Suc k else m + k) s) (lua_pcall lib L 0 m s)"
  using tops_pcall [of s0 L st 0] by simp

lemma tops_pcall_1:
  "tops s0 L st (Suc (Suc k)) s \<Longrightarrow> returns (\<lambda>(s, failed). tops s0 L st (if failed then Suc k else m + k) s) (lua_pcall lib L 1 m s)"
  using tops_pcall [of s0 L st 1] by simp

section \<open>What the functions leave on the stack\<close>

lemma tops_func_available:
  "tops s0 L st k s \<Longrightarrow> returns (\<lambda>(s, b). tops s0 L st k s) (func_available lib L f s)"
  unfolding func_available_def by (rule returns_bind, erule tops_rules)+ simp

lemma tops_push_list: "tops s0 L st (Suc k) s \<Longrightarrow> returns (tops s0 L st (Suc k)) (push_list lib L i xs s)"
proof (induction xs arbitrary: i s)
  case (Cons x xs)
  show ?case unfolding push_list.simps
    by (rule returns_bind, rule tops_push [OF Cons.prems], rule returns_bind, erule tops_rawseti, erule Cons.IH)
qed simp

lemma tops_push_argv: "tops s0 L st (Suc k) s \<Longrightarrow> returns (tops s0 L st (Suc k)) (push_argv lib L i xs s)"
proof (induction xs arbitrary: i s)
  case (Cons x xs)
  show ?case unfolding push_argv.simps
    by (rule returns_bind, rule tops_pushstring [OF Cons.prems], rule returns_bind, erule tops_rawseti, erule Cons.IH)
qed simp

lemma tops_push_all: "tops s0 L st k s \<Longrightarrow> returns (tops s0 L st (length vs + k)) (push_all L vs s)"
proof (induction vs arbitrary: k s)
  case (Cons v vs)
  have "returns (tops s0 L st (length (v # vs) + k)) (push_all L vs s')" if "tops s0 L st (Suc k) s'" for s'
    using Cons.IH [OF that] by simp
  then show ?case unfolding push_all.simps by (rule returns_bind [OF tops_push [OF Cons.prems]])
qed simp

lemma tops_push_option: "tops s0 L st k s \<Longrightarrow> returns (tops s0 L st (Suc k)) (push_option env L opt s)"
proof (cases "opt_type opt")
  case SB_ARG_TYPE_INT
  assume "tops s0 L st k s"
  with SB_ARG_TYPE_INT show ?thesis by (cases "sb_opt_to_int opt") (simp_all add: push_option_def tops_push)
next
  case SB_ARG_TYPE_LIST
  assume "tops s0 L st k s"
  then have "returns (tops s0 L st (Suc k)) (do { s \<leftarrow> lua_newtable (le_lib env) L s;
      push_list (le_lib env) L 1 (sb_opt_to_list opt) s })"
    by (rule returns_bind [OF tops_newtable tops_push_list])
  with SB_ARG_TYPE_LIST show ?thesis by (simp add: push_option_def)
qed (simp_all add: push_option_def tops_push tops_changes)

lemma tops_export_each: "tops s0 L st (Suc k) s \<Longrightarrow> returns (tops s0 L st (Suc k)) (export_each env L False opts s)"
proof (induction opts arbitrary: s)
  case (Cons opt opts)
  show ?case unfolding export_each.simps if_False
    by (rule returns_bind, rule tops_push [OF Cons.prems], rule returns_bind, erule tops_push_option,
        rule returns_bind, erule tops_settable, erule Cons.IH)
qed simp

lemma tops_export_options:
  "tops s0 L st k s \<Longrightarrow> returns (\<lambda>(s, rc). rc = 0 \<and> tops s0 L st (Suc k) s) (export_options env L s)"
proof -
  assume t: "tops s0 L st k s"
  have "returns (\<lambda>(s, rc). rc = 0 \<and> tops s0 L st (Suc k) s) (do_export_options env L False s)"
    unfolding do_export_options_def Let_def if_False
    by (rule returns_bind, rule returns_bind, rule tops_getglobal [OF t], rule returns_bind, erule tops_push, erule tops_newtable,
        rule returns_bind, erule tops_export_each, rule returns_bind, erule tops_settable) simp
  then show ?thesis unfolding export_options_def by (rule returns_bind2) simp
qed

lemma tops_cmdline_function:
  "tops s0 L st k s \<Longrightarrow>
     returns (\<lambda>(s, found). tops s0 L st (if found then Suc (Suc (Suc k)) else k) s) (cmdline_function lib L name w s)"
  unfolding cmdline_function_def
  by ((rule returns_bind, erule tops_rules)+, rule returns_if, rule returns_bind, rule tops_pop3, erule tops_changes) simp_all

lemma tops_cmdline_result:
  assumes "tops s0 L st (Suc n + Suc (Suc k)) s"
  shows "returns (\<lambda>(s, r). tops s0 L st k s) (cmdline_result lib L n name s)"
proof -
  have "returns (\<lambda>(s, failed). tops s0 L st (Suc (Suc (Suc k))) s) (lua_pcall lib L n 1 s)"
    by (rule returns_weaken [OF tops_pcall [OF assms]]) (auto split: if_splits)
  then show ?thesis unfolding cmdline_result_def
    by (rule returns_bind2, intro returns_if)
      ((rule returns_bind, erule tops_rules)+, simp, rule returns_bind, erule tops_rules, simp)
qed

lemma tops_read_cmdline_options:
  "tops s0 L st k s \<Longrightarrow> returns (\<lambda>(s, rc). tops s0 L st k s) (read_cmdline_options env L s)"
  unfolding read_cmdline_options_def Let_def
  by (rule returns_bind2, erule tops_cmdline_function, rule returns_if, simp, rule returns_bind2, rule tops_cmdline_result) simp_all

lemma tops_hook_defined:
  "tops s0 L st k s \<Longrightarrow> returns (\<lambda>(s, b). tops s0 L st k s) (sb_lua_hook_defined lib (Some L) name s)"
  unfolding sb_lua_hook_defined_def by simp ((rule returns_bind, erule tops_rules)+, simp)

lemma tops_hook_push:
  "tops s0 L st k s \<Longrightarrow> returns (\<lambda>(s, b). tops s0 L st (if b then Suc k else k) s) (sb_lua_hook_push lib (Some L) name s)"
  unfolding sb_lua_hook_push_def option.simps
  by ((rule returns_bind, erule tops_rules)+, rule returns_if, rule returns_bind, erule tops_rules, simp,
      (rule returns_bind, erule tops_rules)+, simp)

lemma tops_var_number: "tops s0 L st (Suc k) s \<Longrightarrow> returns (tops s0 L st (Suc k)) (sb_lua_var_number lib L n x s)"
  unfolding sb_lua_var_number_def by ((rule returns_bind, erule tops_rules)+, erule tops_rules)

lemma tops_var_string: "tops s0 L st (Suc k) s \<Longrightarrow> returns (tops s0 L st (Suc k)) (sb_lua_var_string lib L n x s)"
  unfolding sb_lua_var_string_def by ((rule returns_bind, erule tops_rules)+, erule tops_rules)

lemma tops_push_numbers: "tops s0 L st (Suc k) s \<Longrightarrow> returns (tops s0 L st (Suc k)) (push_numbers lib L xs s)"
proof (induction xs arbitrary: s)
  case (Cons x xs)
  show ?case by (cases x) (simp, rule returns_bind, rule tops_var_number [OF Cons.prems], erule Cons.IH)
qed simp

lemma tops_stat_table:
  "tops s0 L st k s \<Longrightarrow> returns (tops s0 L st (Suc k)) (stat_to_lua_table lib L stat s)"
  unfolding stat_to_lua_table_def by (rule returns_bind, erule tops_newtable, erule tops_push_numbers)

lemma tops_call_hook:
  assumes "tops s0 L st k s"
  shows "returns (tops s0 L st k) (call_hook lib (Some L) name stat extra s)"
proof -
  have run: "returns (tops s0 L st k)
      (do { s \<leftarrow> stat_to_lua_table lib L stat s; s \<leftarrow> push_numbers lib L extra s; (s, failed) \<leftarrow> lua_pcall lib L 1 0 s;
            if failed then call_error lib L name s else Some s })" if t: "tops s0 L st (Suc k) s" for s
    by (rule returns_bind, rule tops_stat_table [OF t], rule returns_bind, erule tops_push_numbers, rule returns_bind2,
        erule tops_pcall_1, rule returns_if, simp add: tops_call_error, simp)
  show ?thesis unfolding call_hook_def option.simps
    by (rule returns_bind2, rule tops_hook_push [OF assms], rule returns_if, simp, rule run) simp
qed

lemma tops_call_if_defined:
  assumes "tops s0 L st k s"
  shows "returns (\<lambda>(s, b). \<exists>d\<le>Suc m. tops s0 L st (d + k) s) (call_if_defined lib L func args m s)"
proof -
  have run: "returns (\<lambda>(s, b). \<exists>d\<le>Suc m. tops s0 L st (d + k) s)
      (do { s \<leftarrow> push_all L args s; (s, failed) \<leftarrow> lua_pcall lib L (length args) m s;
            if failed then do { s \<leftarrow> call_error lib L func s; Some (s, False) } else Some (s, True) })"
    if t: "tops s0 L st (Suc k) s" for s
  proof -
    have fail: "returns (\<lambda>(s, b). \<exists>d\<le>Suc m. tops s0 L st (d + k) s) (do { s \<leftarrow> call_error lib L func s; Some (s, False) })"
      if "tops s0 L st (Suc k) s" for s by (rule returns_bind, rule tops_call_error [OF that]) (auto intro: exI [of _ 0])
    show ?thesis
      by (rule returns_bind, rule tops_push_all [OF t], rule returns_bind2, erule tops_pcall_args, rule returns_if)
        (auto intro: fail exI [of _ m])
  qed
  show ?thesis unfolding call_if_defined_def
    by (rule returns_bind, rule tops_getglobal [OF assms], rule returns_if) (auto intro: run exI [of _ 1])
qed

lemma tops_load_scripts:
  "tops s0 L st k s \<Longrightarrow> returns (\<lambda>(s, rc). tops s0 L st k s) (load_internal_scripts lib L scripts s)"
proof (induction scripts arbitrary: s)
  case (Cons script scripts)
  obtain name source where script: "script = (name, source)" by fastforce
  note t = tops_changes(1) [OF Cons.prems]
  obtain w r where l: "lib_load lib L source name (ls_world s) = (w, r)" by fastforce
  show ?case
  proof (cases r)
    case (Inl err)
    show ?thesis unfolding script load_internal_scripts.simps l Inl prod.case sum.case
      by (rule returns_bind, rule tops_push [OF t], rule returns_bind, rule tops_pop1, erule tops_changes) simp
  next
    case (Inr f)
    show ?thesis unfolding script load_internal_scripts.simps l Inr prod.case sum.case
      by (rule returns_bind, rule tops_push [OF t], rule returns_bind, rule tops_call [where n = 0], simp, rule Cons.IH, simp)
  qed
qed simp

lemma tops_set_paths: "tops s0 L st k s \<Longrightarrow> returns (tops s0 L st k) (sb_lua_set_paths env L s)"
  unfolding sb_lua_set_paths_def Let_def by ((rule returns_bind, erule tops_rules)+, erule tops_rules)

lemma tops_command:
  "tops s0 L st (Suc k) s \<Longrightarrow> returns (tops s0 L st (Suc k))
     (case cmd of None \<Rightarrow> Some s | Some c \<Rightarrow> sb_lua_var_string lib L n (Some c) s)"
  by (simp add: tops_var_string split: option.split)

lemma tops_export_sysbench: "tops s0 L st k s \<Longrightarrow> returns (tops s0 L st k) (export_sysbench env L ident s)"
  unfolding export_sysbench_def Let_def
  by (rule returns_bind,
      (erule tops_rules | erule tops_var_number | erule tops_var_string | erule tops_push_argv | erule tops_command))+
    (erule tops_setglobal)

lemma tops_load_script:
  assumes "tops s0 L st k s"
  shows "returns (\<lambda>(s, b). \<exists>k. tops s0 L st k s) (load_script env L s)"
proof -
  obtain w rc v where l: "lib_loadfile (le_lib env) L (ls_lname s) (ls_world s) = (w, rc, v)" using prod_cases3 by blast
  have err: "returns (\<lambda>(s, b). \<exists>k. tops s0 L st k s) (do { s \<leftarrow> report_error (le_lib env) L s; Some (s, False) })"
    if "tops s0 L st (Suc k) s" for k s by (rule returns_bind, rule tops_report_error [OF that]) auto
  have module: "returns (\<lambda>(s, b). \<exists>k. tops s0 L st k s)
      (case m of None \<Rightarrow> Some (lua_log p (t None) s, False)
       | Some msg \<Rightarrow> if c msg then do { s \<leftarrow> report_error (le_lib env) L s; Some (s, False) } else Some (lua_log p (t None) s, False))"
    if "tops s0 L st (Suc k) s" for k s m c p and t :: "string option \<Rightarrow> string"
    using that err [OF that] by (auto split: option.split intro: exI [of _ "Suc k"] tops_changes)
  have failed: "tops s0 L st (Suc k) s" if "tops s0 L st (if b then Suc k else 1 + k) s" for k s b
    using that by (cases b) simp_all
  show ?thesis unfolding load_script_def Let_def l prod.case
    by (rule returns_bind, rule tops_push, rule tops_changes, rule assms, rule returns_if, rule returns_if, erule err,
        rule returns_bind, erule tops_getglobal, rule returns_bind, erule tops_pushstring, rule returns_bind2, erule tops_pcall_1,
        rule returns_if, rule module, erule failed, simp, blast,
        rule returns_bind2, erule tops_pcall_0, rule returns_if, rule err, simp, simp, blast)
qed

lemma tops_jit_function:
  assumes "tops s0 L st k s"
  shows "returns (\<lambda>(s, found). \<exists>d. tops s0 L st d s \<and> (found \<longrightarrow> d = Suc k)) (jit_function env L name s)"
proof -
  let ?P = "\<lambda>(s, found). \<exists>d. tops s0 L st d s \<and> (found \<longrightarrow> d = Suc k)"
  have no: "returns ?P (Some (lua_log p t s, False))" if "tops s0 L st d s" for p t s d
    using tops_changes(2) [OF that] by auto
  have err: "returns ?P (do { s \<leftarrow> call_error (le_lib env) L ''require'' s; Some (s, False) })"
    if "tops s0 L st (Suc d) s" for s d by (rule returns_bind, rule tops_call_error [OF that]) auto
  have yes: "returns ?P (do { s \<leftarrow> lua_remove L s; s \<leftarrow> lua_remove L s; Some (s, True) })"
    if "tops s0 L st (Suc (Suc (Suc k))) s" for s
    by (rule returns_bind, rule tops_remove [OF that], rule returns_bind, erule tops_remove) simp
  have failed: "returns ?P (case m of None \<Rightarrow> do { s \<leftarrow> call_error (le_lib env) L ''require'' s; Some (s, False) }
      | Some msg \<Rightarrow> if c msg then Some (lua_log p t s, False)
                   else do { s \<leftarrow> call_error (le_lib env) L ''require'' s; Some (s, False) })"
    if "tops s0 L st (Suc d) s" for m c s d p t
    using no [OF that] err [OF that] by (simp split: option.split)
  have pcall: "tops s0 L st (Suc d) s" if "tops s0 L st (if b then Suc d else 1 + d) s" for d s b
    using that by (cases b) simp_all
  show ?thesis unfolding jit_function_def Let_def
    by (rule returns_bind, rule tops_push [OF assms], rule returns_bind, erule tops_index, rule returns_bind, erule tops_getfield,
        rule returns_bind, erule tops_remove, rule returns_bind, erule tops_push, rule returns_bind, erule tops_gettable,
        rule returns_if, rule returns_bind, erule tops_pop2, rule returns_bind, erule tops_getglobal,
        rule returns_bind, erule tops_push, rule returns_bind2, erule tops_pcall_1, rule returns_if, rule failed, erule pcall,
        rule returns_bind, rule tops_getfield, erule pcall, rule returns_if, erule no, erule yes, erule yes)
qed

lemma tops_jitcmd:
  assumes "tops s0 L st k s"
  shows "returns (\<lambda>(s, rc). \<exists>d. tops s0 L st d s \<and> (rc = 0 \<longrightarrow> d = k)) (sb_lua_do_jitcmd env L cmd s)"
proof -
  let ?P = "\<lambda>(s, rc). \<exists>d. tops s0 L st d s \<and> (rc = (0 :: int) \<longrightarrow> d = k)"
  have run: "returns ?P (do { s \<leftarrow> push_all L args s; (s, failed) \<leftarrow> lua_pcall (le_lib env) L (length args) 0 s;
      if failed then do { s \<leftarrow> call_error (le_lib env) L n s; Some (s, 1) } else Some (s, 0) })"
    if t: "tops s0 L st (Suc k) s" for s args n
  proof -
    show ?thesis
      by (rule returns_bind, rule tops_push_all [OF t], rule returns_bind2, erule tops_pcall_args, rule returns_if, rule returns_bind,
          simp, erule tops_call_error) auto
  qed
  show ?thesis unfolding sb_lua_do_jitcmd_def Let_def
    by (rule returns_bind2, rule tops_jit_function [OF assms], rule returns_if, force, rule run, simp)
qed

section \<open>Interpreters\<close>

definition lua_open :: "'w lua_sys \<Rightarrow> nat set" where
  "lua_open s = dom (ls_stack s)"

definition lua_wf :: "'w lua_sys \<Rightarrow> bool" where
  "lua_wf s \<longleftrightarrow> (\<forall>L\<ge>ls_fresh s. ls_stack s L = None)"

lemma topsD:
  assumes "tops s0 L st k s"
  shows "\<exists>vs. length vs = k \<and> ls_stack s = (ls_stack s0)(L \<mapsto> vs @ st)" "ls_fresh s = ls_fresh s0" "ls_states s = ls_states s0"
    "ls_gstate s = ls_gstate s0" "ls_tls s = ls_tls s0" "ls_command s = ls_command s0"
proof -
  obtain vs where vs: "length vs = k" "with_stack s0 L (vs @ st) s" using assms by (auto simp: tops_def)
  note d = with_stackD [OF vs(2)]
  show "\<exists>vs. length vs = k \<and> ls_stack s = (ls_stack s0)(L \<mapsto> vs @ st)" by (intro exI [of _ vs]) (simp add: vs(1) d(1))
  show "ls_fresh s = ls_fresh s0" "ls_states s = ls_states s0" "ls_gstate s = ls_gstate s0" "ls_tls s = ls_tls s0"
    "ls_command s = ls_command s0" by (simp_all add: d)
qed

lemma tops_start: "ls_stack s L = Some st \<Longrightarrow> tops s L st 0 s"
  by (simp add: tops_def with_stack_start)

lemma lua_open_tops: "tops s0 L st k s \<Longrightarrow> lua_open s = insert L (lua_open s0)"
  using topsD(1) [of s0 L st k s] by (auto simp: lua_open_def)

lemma lua_wf_tops: "tops s0 L st k s \<Longrightarrow> L < ls_fresh s0 \<Longrightarrow> lua_wf s0 \<Longrightarrow> lua_wf s"
  using topsD(1,2) [of s0 L st k s] by (auto simp: lua_wf_def)

text \<open>A new interpreter: every failure leaves it open.\<close>

lemma new_state_opens:
  "returns (\<lambda>(s', r). lua_open s' = insert (ls_fresh s) (lua_open s) \<and> (lua_wf s \<longrightarrow> lua_wf s') \<and>
       ls_states s' = ls_states s \<and> ls_gstate s' = ls_gstate s \<and> ls_fresh s' = ls_fresh s + 1 \<and>
       (r = None \<and> ls_tls s' = ls_tls s \<or> r = Some (ls_fresh s) \<and> ls_tls s' = (ls_tls s)(me \<mapsto> ls_fresh s)))
     (sb_lua_new_state env me ident s)"
proof -
  let ?L = "ls_fresh s" and ?lib = "le_lib env"
  obtain w ok where n: "lib_newstate ?lib ?L (ls_world s) = (w, ok)" by fastforce
  define s1 where "s1 = set_stack ?L [] (s\<lparr>ls_world := lib_openlibs ?lib ?L w, ls_fresh := ?L + 1\<rparr>)"
  let ?P = "\<lambda>(s', r). lua_open s' = insert ?L (lua_open s) \<and> (lua_wf s \<longrightarrow> lua_wf s') \<and>
      ls_states s' = ls_states s \<and> ls_gstate s' = ls_gstate s \<and> ls_fresh s' = ls_fresh s + 1 \<and>
      (r = None \<and> ls_tls s' = ls_tls s \<or> r = Some ?L \<and> ls_tls s' = (ls_tls s)(me \<mapsto> ?L))"
  have s1: "tops s1 ?L [] 0 s1" by (rule tops_start) (simp add: s1_def set_stack_def)
  have fields: "lua_open s1 = insert ?L (lua_open s)" "ls_states s1 = ls_states s" "ls_gstate s1 = ls_gstate s"
    "ls_tls s1 = ls_tls s" "ls_fresh s1 = ls_fresh s + 1" "lua_wf s \<Longrightarrow> lua_wf s1"
    by (auto simp: s1_def set_stack_def lua_open_def lua_wf_def)
  have none: "returns ?P (Some (s2, None))" if "tops s1 ?L [] k s2" for s2 k
    using lua_open_tops [OF that] lua_wf_tops [OF that] topsD(2-5) [OF that] fields by auto
  have fin: "returns ?P (Some (s2\<lparr>ls_tls := (ls_tls s2)(me \<mapsto> ?L)\<rparr>, Some ?L))" if "tops s1 ?L [] k s2" for s2 k
    using lua_open_tops [OF that] lua_wf_tops [OF that] topsD(2-5) [OF that] fields by (auto simp: lua_open_def lua_wf_def)
  have jit: "returns (\<lambda>(s', rc). \<exists>d. tops s1 ?L [] d s' \<and> (rc = 0 \<longrightarrow> d = 0))
      (case cmd of None \<Rightarrow> Some (s1, 0) | Some c \<Rightarrow> sb_lua_do_jitcmd env ?L c s1)" for cmd
    using tops_jitcmd [OF s1] s1 by (auto split: option.split)
  have script: "returns ?P (do { (s, ok) \<leftarrow> load_script env ?L s2; if \<not> ok then Some (s, None)
      else Some (s\<lparr>ls_tls := (ls_tls s)(me \<mapsto> ?L)\<rparr>, Some ?L) })" if "tops s1 ?L [] k s2" for s2 k
    by (rule returns_bind2, rule tops_load_script [OF that], rule returns_if) (use none fin in blast)+
  show ?thesis unfolding sb_lua_new_state_def Let_def n prod.case s1_def [symmetric]
  proof (rule returns_if, simp, rule returns_bind2, rule jit, rule returns_if, goal_cases)
    case (1 s2 rc)
    then show ?case using none by auto
  next
    case (2 s2 rc)
    then have t: "tops s1 ?L [] 0 s2" by simp
    show ?case
      by (rule returns_bind, rule tops_set_paths [OF t], rule returns_bind, erule tops_export_sysbench, rule returns_bind,
          erule tops_newmetatable, rule returns_bind, erule tops_newmetatable, rule returns_bind2, erule tops_load_scripts,
          rule returns_if, erule none, erule script)
  qed
qed

text \<open>What the operations on an open interpreter do to the set of open ones, and to the other variables.\<close>

definition same_lua :: "'w lua_sys \<Rightarrow> 'w lua_sys \<Rightarrow> bool" where
  "same_lua s s' \<longleftrightarrow> lua_open s' = lua_open s \<and> (lua_wf s \<longrightarrow> lua_wf s') \<and> ls_states s' = ls_states s \<and>
     ls_gstate s' = ls_gstate s \<and> ls_tls s' = ls_tls s \<and> ls_fresh s' = ls_fresh s"

lemma same_lua_tops:
  assumes "tops s L st k s'" "L \<in> lua_open s"
  shows "same_lua s s'"
  using topsD [OF assms(1)] assms(2) by (auto simp: same_lua_def lua_open_def lua_wf_def split: if_splits)

lemma same_lua_trans: "same_lua s s' \<Longrightarrow> same_lua s' s'' \<Longrightarrow> same_lua s s''"
  by (simp add: same_lua_def)

lemma same_lua_none:
  assumes "L \<notin> lua_open s"
  shows "lua_push L v s = None" "lua_index lib L t k s = None"
proof -
  have none: "ls_stack s L = None" using assms by (simp add: lua_open_def domIff)
  then show "lua_push L v s = None" by (simp add: lua_push_def)
  show "lua_index lib L t k s = None" using none
    by (cases "lib_index lib L t k (ls_world s)") (auto simp: lua_push_def lua_index_def set_world_def)
qed

lemma call_if_defined_same: "returns (\<lambda>(s', b). same_lua s s' \<and> L \<in> lua_open s) (call_if_defined lib L func args m s)"
proof (cases "L \<in> lua_open s")
  case True
  then obtain st where "ls_stack s L = Some st" by (auto simp: lua_open_def)
  then show ?thesis
    by (intro returns_weaken [OF tops_call_if_defined [OF tops_start]]) (auto intro: same_lua_tops True)
qed (simp add: call_if_defined_def lua_getglobal_def same_lua_none)

lemma export_options_same: "returns (\<lambda>(s', rc). rc = 0 \<and> same_lua s s' \<and> L \<in> lua_open s) (export_options env L s)"
proof (cases "L \<in> lua_open s")
  case True
  then obtain st where "ls_stack s L = Some st" by (auto simp: lua_open_def)
  then show ?thesis
    by (intro returns_weaken [OF tops_export_options [OF tops_start]]) (auto intro: same_lua_tops True)
qed (simp add: export_options_def do_export_options_def lua_getglobal_def same_lua_none Let_def)

lemma func_available_same: "returns (\<lambda>(s', b). same_lua s s' \<and> L \<in> lua_open s) (func_available lib L f s)"
proof (cases "L \<in> lua_open s")
  case True
  then obtain st where "ls_stack s L = Some st" by (auto simp: lua_open_def)
  then show ?thesis
    by (intro returns_weaken [OF tops_func_available [OF tops_start]]) (auto intro: same_lua_tops True)
qed (simp add: func_available_def lua_getglobal_def same_lua_none)

section \<open>A session\<close>

text \<open>What the runner calls: \<open>init\<close> in the main thread, in the thread of worker \<open>i\<close> its functions, and in a
  reporting thread (the intermediate reports, the checkpoints) the two calls around its loop.\<close>

datatype lua_act =
  Act_init | Act_thread_init nat | Act_thread_run nat | Act_thread_done nat
| Act_report_init nat int | Act_report_done nat

text \<open>Who has an interpreter to close: the main thread, a worker, a reporting thread.\<close>

datatype holder = Main | Worker nat | Reporter nat

definition holder_of :: "'w lua_sys \<Rightarrow> holder \<Rightarrow> nat option" where
  "holder_of s h = (case h of Main \<Rightarrow> ls_gstate s | Worker i \<Rightarrow> state_of i s | Reporter t \<Rightarrow> ls_tls s t)"

definition nworkers :: "'w lua_sys \<Rightarrow> nat" where
  "nworkers s = (case ls_states s of None \<Rightarrow> 0 | Some states \<Rightarrow> length states)"

text \<open>A run of calls by any number of threads, in any order.  The main thread has number 0, worker \<open>i\<close> the
  number \<open>i + 1\<close>, the reporting threads later ones.  A worker that is initialised runs and ends at most
  once before it is initialised again; one whose initialisation fails never runs, and the
  interpreter made for it is lost.  The sets hold the threads that have an interpreter to close
  and the interpreters that are lost.\<close>

fun lua_session ::
  "'w lua_env \<Rightarrow> lua_act list \<Rightarrow> holder set \<Rightarrow> nat set \<Rightarrow> 'w lua_sys \<Rightarrow> (holder set \<times> nat set \<times> 'w lua_sys) option" where
  "lua_session env [] hs lost s = Some (hs, lost, s)"
| "lua_session env (Act_init # as) hs lost s =
     do { (s, rc) \<leftarrow> sb_lua_op_init env s; lua_session env as hs lost s }"
| "lua_session env (Act_thread_init i # as) hs lost s =
     (if Worker i \<in> hs then None
      else do { (s', rc) \<leftarrow> sb_lua_op_thread_init env (Suc i) i s;
                if rc = 0 then lua_session env as (insert (Worker i) hs) lost s'
                else lua_session env as hs (insert (ls_fresh s) lost) s' })"
| "lua_session env (Act_thread_run i # as) hs lost s =
     (if Worker i \<notin> hs then None
      else do { (s, rc) \<leftarrow> sb_lua_op_thread_run env i s; lua_session env as hs lost s })"
| "lua_session env (Act_thread_done i # as) hs lost s =
     (if Worker i \<notin> hs then None
      else do { (s, rc) \<leftarrow> sb_lua_op_thread_done env (Suc i) i s; lua_session env as (hs - {Worker i}) lost s })"
| "lua_session env (Act_report_init t ident # as) hs lost s =
     (if t \<le> nworkers s \<or> Reporter t \<in> hs then None
      else do { (s, rc) \<leftarrow> sb_lua_report_thread_init env t ident s;
                lua_session env as (insert (Reporter t) hs) lost s })"
| "lua_session env (Act_report_done t # as) hs lost s =
     (if Reporter t \<notin> hs then None
      else do { s \<leftarrow> sb_lua_report_thread_done env t s; lua_session env as (hs - {Reporter t}) lost s })"

text \<open>The interpreters that are open are those of the holders, one each, and the lost ones.\<close>

definition held_inv :: "holder set \<Rightarrow> nat set \<Rightarrow> 'w lua_sys \<Rightarrow> bool" where
  "held_inv hs lost s \<longleftrightarrow> None \<notin> holder_of s ` hs \<and> inj_on (holder_of s) hs \<and>
     Some ` lua_open s = holder_of s ` hs \<union> Some ` lost \<and> holder_of s ` hs \<inter> Some ` lost = {}"

definition session_inv :: "holder set \<Rightarrow> nat set \<Rightarrow> 'w lua_sys \<Rightarrow> bool" where
  "session_inv hs lost s \<longleftrightarrow> lua_wf s \<and> held_inv hs lost s \<and> Main \<in> hs \<and> ls_states s \<noteq> None \<and>
     (\<forall>t. Reporter t \<in> hs \<longrightarrow> nworkers s < t) \<and> (\<forall>t>nworkers s. Reporter t \<notin> hs \<longrightarrow> ls_tls s t = None)"

lemma session_inv_same: "session_inv hs lost s \<Longrightarrow> same_lua s s' \<Longrightarrow> session_inv hs lost s'"
proof -
  assume a: "session_inv hs lost s" "same_lua s s'"
  then have "holder_of s' = holder_of s" "nworkers s' = nworkers s"
    by (auto simp: same_lua_def holder_of_def state_of_def nworkers_def split: holder.split)
  with a show ?thesis by (simp add: session_inv_def held_inv_def same_lua_def)
qed

text \<open>A thread gets a new interpreter, loses it, or closes its own.\<close>

lemma held_add:
  assumes "held_inv hs lost s" "L \<notin> lua_open s" "h \<notin> hs"
    and "lua_open s' = insert L (lua_open s)" "holder_of s' h = Some L" "\<forall>k\<in>hs. holder_of s' k = holder_of s k"
  shows "held_inv (insert h hs) lost s'"
proof -
  have img: "holder_of s' ` hs = holder_of s ` hs" using assms(6) by (intro image_cong) auto
  have new: "Some L \<notin> holder_of s ` hs \<union> Some ` lost"
    using assms(1,2) unfolding held_inv_def by (metis image_iff option.inject)
  have "inj_on (holder_of s') hs" using assms(1,6) by (simp add: held_inv_def inj_on_def)
  then show ?thesis using assms(1,3,4,5) new img by (auto simp: held_inv_def)
qed

lemma held_lose:
  assumes "held_inv hs lost s" "L \<notin> lua_open s"
    and "lua_open s' = insert L (lua_open s)" "\<forall>k\<in>hs. holder_of s' k = holder_of s k"
  shows "held_inv hs (insert L lost) s'"
proof -
  have img: "holder_of s' ` hs = holder_of s ` hs" using assms(4) by (intro image_cong) auto
  have new: "Some L \<notin> holder_of s ` hs \<union> Some ` lost"
    using assms(1,2) unfolding held_inv_def by (metis image_iff option.inject)
  have "inj_on (holder_of s') hs" using assms(1,4) by (simp add: held_inv_def inj_on_def)
  then show ?thesis using assms(1,3) new img by (auto simp: held_inv_def)
qed

lemma held_close:
  assumes "held_inv hs lost s" "h \<in> hs" "holder_of s h = Some L"
    and "lua_open s' = lua_open s - {L}" "\<forall>k\<in>hs - {h}. holder_of s' k = holder_of s k"
  shows "held_inv (hs - {h}) lost s'"
proof -
  have img: "holder_of s' ` (hs - {h}) = holder_of s ` (hs - {h})" using assms(5) by (intro image_cong) auto
  have "inj_on (holder_of s) (hs - {h})" using assms(1) by (auto simp: held_inv_def intro: inj_on_diff)
  then have inj: "inj_on (holder_of s') (hs - {h})" using assms(5) by (simp add: inj_on_def)
  have H: "holder_of s ` (hs - {h}) = holder_of s ` hs - {Some L}"
    using assms(1-3) inj_on_image_set_diff [of "holder_of s" hs hs "{h}"] by (simp add: held_inv_def)
  have A: "Some ` lua_open s' = Some ` lua_open s - {Some L}" using assms(4) by auto
  have L: "Some L \<in> holder_of s ` hs" using assms(2,3) by (metis image_eqI)
  have inv: "None \<notin> holder_of s ` hs" "Some ` lua_open s = holder_of s ` hs \<union> Some ` lost"
    "holder_of s ` hs \<inter> Some ` lost = {}" using assms(1) by (simp_all add: held_inv_def)
  show ?thesis unfolding held_inv_def img H A inv(2)
    using inv(1,3) inj L by (intro conjI; blast)
qed

lemma nworkers_upd [simp]: "nworkers (s\<lparr>ls_states := Some (states[i := x])\<rparr>) = length states"
  by (simp add: nworkers_def)

lemma op_init_same: "returns (\<lambda>(s', rc). same_lua s s') (sb_lua_op_init env s)"
proof (cases "ls_gstate s")
  case (Some L)
  have log: "same_lua s (lua_log p t s')" if "same_lua s s'" for p t s'
    using that by (simp add: same_lua_def lua_log_def lua_open_def lua_wf_def)
  have ev: "returns (\<lambda>(s', rc). same_lua s s') (do { (s, event) \<leftarrow> func_available (le_lib env) L ''event'' s2;
      if \<not> event then Some (lua_log LOG_FATAL (m s) s, 1) else Some (s, 0) })"
    if "same_lua s s2" for s2 m
    by (rule returns_bind2, rule func_available_same) (auto intro: log same_lua_trans [OF that])
  show ?thesis unfolding sb_lua_op_init_def Let_def Some Option.bind.simps
    by (rule returns_bind2, rule export_options_same, rule returns_if, simp, rule returns_bind2, rule call_if_defined_same,
        rule returns_if, simp, blast intro: same_lua_trans, rule ev, blast intro: same_lua_trans)
qed (simp add: sb_lua_op_init_def)

lemma thread_run_same: "returns (\<lambda>(s', rc). same_lua s s') (sb_lua_op_thread_run env i s)"
proof (cases "state_of i s")
  case (Some L)
  show ?thesis
  proof (cases "L \<in> lua_open s")
    case True
    then obtain st where t: "tops s L st 0 s" by (auto simp: lua_open_def intro: tops_start)
    have "returns (\<lambda>(s', rc). \<exists>k. tops s L st k s') (sb_lua_op_thread_run env i s)"
      unfolding sb_lua_op_thread_run_def Let_def Some Option.bind.simps
      by (rule returns_bind, rule tops_getglobal [OF t], rule returns_bind, erule tops_push, rule returns_bind2, erule tops_pcall_1,
          rule returns_if, rule returns_bind, simp, erule tops_call_error) auto
    then show ?thesis by (rule returns_weaken) (auto intro: same_lua_tops True)
  qed (simp add: sb_lua_op_thread_run_def Some lua_getglobal_def same_lua_none)
qed (simp add: sb_lua_op_thread_run_def)

lemma close_state_closes:
  "returns (\<lambda>s'. lua_open s' = lua_open s - {L} \<and> L \<in> lua_open s \<and> (lua_wf s \<longrightarrow> lua_wf s') \<and> ls_states s' = ls_states s \<and>
     ls_gstate s' = ls_gstate s \<and> ls_tls s' = (ls_tls s)(me := None)) (sb_lua_close_state env me (Some L) s)"
  by (auto simp: sb_lua_close_state_def lua_open_def lua_wf_def)

lemma fresh_closed: "lua_wf s \<Longrightarrow> ls_fresh s \<notin> lua_open s"
  by (auto simp: lua_wf_def lua_open_def)

text \<open>A worker's initialisation, in every outcome.\<close>

lemma thread_init_inv:
  assumes "session_inv hs lost s" "Worker i \<notin> hs"
  shows "returns (\<lambda>(s', rc). if rc = 0 then session_inv (insert (Worker i) hs) lost s'
      else session_inv hs (insert (ls_fresh s) lost) s') (sb_lua_op_thread_init env (Suc i) i s)"
proof -
  obtain states where inv: "lua_wf s" "held_inv hs lost s" "Main \<in> hs" "ls_states s = Some states"
    "\<forall>t. Reporter t \<in> hs \<longrightarrow> length states < t" "\<forall>t>length states. Reporter t \<notin> hs \<longrightarrow> ls_tls s t = None"
    using assms(1) by (auto simp: session_inv_def nworkers_def)
  let ?L = "ls_fresh s"
  note fresh = fresh_closed [OF inv(1)]
  have both: "session_inv (insert (Worker i) hs) lost s'" "session_inv hs (insert ?L lost) s'"
    if "i < length states" "lua_open s' = insert ?L (lua_open s)" "lua_wf s'" "ls_gstate s' = ls_gstate s"
      "ls_states s' = Some (states[i := Some ?L])" "ls_tls s' = (ls_tls s)(Suc i \<mapsto> ?L)" for s'
  proof -
    have "holder_of s' k = holder_of s k" if "k \<in> hs" for k
      using that assms(2) inv(4,5) \<open>i < length states\<close> that(1) \<open>ls_gstate s' = _\<close> \<open>ls_states s' = _\<close> \<open>ls_tls s' = _\<close>
      by (auto simp: holder_of_def state_of_def nth_list_update split: holder.split)
    then have eq: "\<forall>k\<in>hs. holder_of s' k = holder_of s k" by blast
    have "holder_of s' (Worker i) = Some ?L" using that(1,5) by (simp add: holder_of_def state_of_def)
    from held_add [OF inv(2) fresh assms(2) that(2) this eq] held_lose [OF inv(2) fresh that(2) eq] that inv(3,5,6)
    show "session_inv (insert (Worker i) hs) lost s'" "session_inv hs (insert ?L lost) s'"
      by (auto simp: session_inv_def nworkers_def)
  qed
  have failed: "session_inv hs (insert ?L lost) s'"
    if "lua_open s' = insert ?L (lua_open s)" "lua_wf s'" "ls_gstate s' = ls_gstate s" "ls_states s' = ls_states s"
      "ls_tls s' = ls_tls s" for s'
  proof -
    have "\<forall>k\<in>hs. holder_of s' k = holder_of s k"
      using that by (auto simp: holder_of_def state_of_def split: holder.split)
    from held_lose [OF inv(2) fresh that(1) this] that inv(3-6) show ?thesis
      by (auto simp: session_inv_def nworkers_def)
  qed
  show ?thesis unfolding sb_lua_op_thread_init_def
  proof (rule returns_bind2, rule new_state_opens, goal_cases)
    case (1 s1 r)
    show ?case
    proof (cases r)
      case None
      then show ?thesis using 1 inv(1) failed [of s1] by auto
    next
      case (Some L)
      have L: "L = ?L" and s1: "ls_states s1 = Some states" "ls_gstate s1 = ls_gstate s" "lua_open s1 = insert ?L (lua_open s)"
        "lua_wf s1" "ls_tls s1 = (ls_tls s)(Suc i \<mapsto> ?L)" using 1 Some inv(1,4) by auto
      let ?s = "s1\<lparr>ls_states := Some (states[i := Some ?L])\<rparr>"
      have base: "session_inv (insert (Worker i) hs) lost ?s \<and> session_inv hs (insert ?L lost) ?s" if "i < length states"
        using both [OF that, of ?s] s1 by (simp add: lua_open_def lua_wf_def)
      show ?thesis unfolding Some option.simps s1 Option.bind.simps L
      proof (rule returns_if, simp, rule returns_bind2, rule export_options_same, rule returns_if, simp, rule returns_bind2,
          rule call_if_defined_same, goal_cases)
        case (1 s2 rc s3 b)
        then have "session_inv (insert (Worker i) hs) lost s3 \<and> session_inv hs (insert ?L lost) s3"
          using session_inv_same base same_lua_trans by (metis not_le)
        then show ?case by simp
      qed
    qed
  qed
qed

lemma thread_done_inv:
  assumes "session_inv hs lost s" "Worker i \<in> hs"
  shows "returns (\<lambda>(s', rc). session_inv (hs - {Worker i}) lost s') (sb_lua_op_thread_done env (Suc i) i s)"
proof -
  have "holder_of s (Worker i) \<noteq> None" using assms unfolding session_inv_def held_inv_def by (metis image_eqI)
  then obtain L where L: "state_of i s = Some L" by (auto simp: holder_of_def)
  have closed: "session_inv (hs - {Worker i}) lost s'"
    if "session_inv hs lost s2" "ls_states s2 = ls_states s" "lua_open s' = lua_open s2 - {L}" "lua_wf s'"
      "ls_states s' = ls_states s2" "ls_gstate s' = ls_gstate s2" "ls_tls s' = (ls_tls s2)(Suc i := None)" for s2 s'
  proof -
    have small: "Suc i \<le> nworkers s2" using L that(2) by (auto simp: state_of_def nworkers_def bind_eq_Some_conv split: if_splits)
    have "holder_of s' k = holder_of s2 k" if "k \<in> hs" for k
      using that small \<open>session_inv hs lost s2\<close> \<open>ls_states s' = _\<close> \<open>ls_gstate s' = _\<close> \<open>ls_tls s' = _\<close>
      by (auto simp: holder_of_def state_of_def session_inv_def split: holder.split)
    then have eq: "\<forall>k\<in>hs - {Worker i}. holder_of s' k = holder_of s2 k" by blast
    have h: "holder_of s2 (Worker i) = Some L" using L that(2) by (simp add: holder_of_def state_of_def)
    have n: "nworkers s' = nworkers s2" using that(5) by (simp add: nworkers_def)
    from held_close [OF _ assms(2) h that(3) eq] that small show ?thesis
      by (auto simp: session_inv_def n)
  qed
  show ?thesis unfolding sb_lua_op_thread_done_def L Option.bind.simps
  proof (rule returns_bind2, rule call_if_defined_same, rule returns_bind, rule close_state_closes, goal_cases)
    case (1 s2 b s3)
    then have "session_inv hs lost s2" using session_inv_same [OF assms(1)] by blast
    moreover have "lua_wf s2" using calculation by (simp add: session_inv_def)
    ultimately have "session_inv (hs - {Worker i}) lost s3" using 1 closed [of s2 s3] by (auto simp: same_lua_def)
    then show ?case by simp
  qed
qed

lemma report_init_inv:
  assumes "session_inv hs lost s" "nworkers s < t" "Reporter t \<notin> hs"
  shows "returns (\<lambda>(s', rc). session_inv (insert (Reporter t) hs) lost s') (sb_lua_report_thread_init env t ident s)"
proof -
  have inv: "lua_wf s" "held_inv hs lost s" "Main \<in> hs" "ls_tls s t = None"
    "\<forall>u. Reporter u \<in> hs \<longrightarrow> nworkers s < u" "\<forall>u>nworkers s. Reporter u \<notin> hs \<longrightarrow> ls_tls s u = None"
    using assms by (auto simp: session_inv_def)
  let ?L = "ls_fresh s"
  have opened: "session_inv (insert (Reporter t) hs) lost s'"
    if "lua_open s' = insert ?L (lua_open s)" "lua_wf s'" "ls_gstate s' = ls_gstate s" "ls_states s' = ls_states s"
      "ls_tls s' = (ls_tls s)(t \<mapsto> ?L)" for s'
  proof -
    have eq: "\<forall>k\<in>hs. holder_of s' k = holder_of s k"
      using that assms(3) by (auto simp: holder_of_def state_of_def split: holder.split)
    have h: "holder_of s' (Reporter t) = Some ?L" using that(5) by (simp add: holder_of_def)
    have n: "nworkers s' = nworkers s" using that(4) by (simp add: nworkers_def)
    from held_add [OF inv(2) fresh_closed [OF inv(1)] assms(3) that(1) h eq] that inv assms(1,2) show ?thesis
      by (auto simp: session_inv_def n)
  qed
  show ?thesis unfolding sb_lua_report_thread_init_def inv(4)
  proof (rule returns_if, rule returns_bind2, rule new_state_opens, goal_cases)
    case (1 s1 r)
    show ?case
    proof (cases r)
      case None
      then show ?thesis using 1 inv(4) by simp
    next
      case (Some L)
      then have s1: "session_inv (insert (Reporter t) hs) lost s1" "ls_tls s1 t = Some ?L"
        using 1 inv(1) opened [of s1] by auto
      show ?thesis unfolding s1(2) Option.bind.simps
        by (rule returns_bind2, rule export_options_same) (auto intro: session_inv_same [OF s1(1)])
    qed
  qed simp
qed

lemma report_done_inv:
  assumes "session_inv hs lost s" "Reporter t \<in> hs"
  shows "returns (session_inv (hs - {Reporter t}) lost) (sb_lua_report_thread_done env t s)"
proof -
  have inv: "held_inv hs lost s" "Main \<in> hs" "nworkers s < t" "lua_wf s" using assms by (auto simp: session_inv_def)
  have "holder_of s Main \<noteq> None" "holder_of s (Reporter t) \<noteq> None"
    using inv(1,2) assms(2) unfolding held_inv_def by (metis image_eqI)+
  then obtain L where L: "ls_tls s t = Some L" and g: "sb_lua_loaded s" by (auto simp: holder_of_def sb_lua_loaded_def)
  show ?thesis unfolding sb_lua_report_thread_done_def L
  proof (rule returns_if, rule returns_weaken, rule close_state_closes, goal_cases)
    case (1 s')
    then have eq: "\<forall>k\<in>hs - {Reporter t}. holder_of s' k = holder_of s k"
      by (auto simp: holder_of_def state_of_def split: holder.split)
    have h: "holder_of s (Reporter t) = Some L" using L by (simp add: holder_of_def)
    have n: "nworkers s' = nworkers s" using 1 by (simp add: nworkers_def)
    have o: "lua_open s' = lua_open s - {L}" using 1 by simp
    from held_close [OF inv(1) assms(2) h o eq] 1 inv assms show ?case by (auto simp: session_inv_def n)
  qed (use g in simp)
qed

lemma session_keeps:
  assumes "session_inv hs lost s" "lua_session env as hs lost s = Some (hs', lost', s')"
  shows "session_inv hs' lost' s'"
  using assms
proof (induction env as hs lost s rule: lua_session.induct)
  case (2 env as hs lost s)
  then obtain s1 rc where r: "sb_lua_op_init env s = Some (s1, rc)" "lua_session env as hs lost s1 = Some (hs', lost', s')"
    by (auto simp: bind_eq_Some_conv)
  have "same_lua s s1" using returnsD [OF op_init_same r(1)] by simp
  with 2(1) [OF r(1) refl] r(2) session_inv_same [OF 2(2)] show ?case by blast
next
  case (3 env i as hs lost s)
  then have i: "Worker i \<notin> hs" by (auto split: if_splits)
  from 3(4) i obtain s1 rc where r: "sb_lua_op_thread_init env (Suc i) i s = Some (s1, rc)"
    "if rc = 0 then lua_session env as (insert (Worker i) hs) lost s1 = Some (hs', lost', s')
     else lua_session env as hs (insert (ls_fresh s) lost) s1 = Some (hs', lost', s')"
    by (auto simp: bind_eq_Some_conv split: if_splits)
  have "if rc = 0 then session_inv (insert (Worker i) hs) lost s1 else session_inv hs (insert (ls_fresh s) lost) s1"
    using returnsD [OF thread_init_inv [OF 3(3) i] r(1)] by simp
  with 3(1,2) [OF i r(1) refl] r(2) show ?case by (auto split: if_splits)
next
  case (4 env i as hs lost s)
  then have i: "Worker i \<in> hs" by (auto split: if_splits)
  from 4(3) obtain s1 rc where r: "sb_lua_op_thread_run env i s = Some (s1, rc)" "lua_session env as hs lost s1 = Some (hs', lost', s')"
    using i by (auto simp: bind_eq_Some_conv)
  have "same_lua s s1" using returnsD [OF thread_run_same r(1)] by simp
  with 4(1) [OF _ r(1) refl] i r(2) session_inv_same [OF 4(2)] show ?case by blast
next
  case (5 env i as hs lost s)
  then have i: "Worker i \<in> hs" by (auto split: if_splits)
  from 5(3) obtain s1 rc where r: "sb_lua_op_thread_done env (Suc i) i s = Some (s1, rc)"
    "lua_session env as (hs - {Worker i}) lost s1 = Some (hs', lost', s')"
    using i by (auto simp: bind_eq_Some_conv)
  have "session_inv (hs - {Worker i}) lost s1" using returnsD [OF thread_done_inv [OF 5(2) i] r(1)] by simp
  with 5(1) [OF _ r(1) refl] i r(2) show ?case by blast
next
  case (6 env t ident as hs lost s)
  then have t: "\<not> (t \<le> nworkers s \<or> Reporter t \<in> hs)" by (auto split: if_splits)
  from 6(3) obtain s1 rc where r: "sb_lua_report_thread_init env t ident s = Some (s1, rc)"
    "lua_session env as (insert (Reporter t) hs) lost s1 = Some (hs', lost', s')"
    using t by (auto simp: bind_eq_Some_conv)
  have "session_inv (insert (Reporter t) hs) lost s1" using returnsD [OF report_init_inv [OF 6(2)] r(1)] t by simp
  with 6(1) [OF t r(1) refl] r(2) show ?case by blast
next
  case (7 env t as hs lost s)
  then have t: "Reporter t \<in> hs" by (auto split: if_splits)
  from 7(3) obtain s1 where r: "sb_lua_report_thread_done env t s = Some s1"
    "lua_session env as (hs - {Reporter t}) lost s1 = Some (hs', lost', s')"
    using t by (auto simp: bind_eq_Some_conv)
  have "session_inv (hs - {Reporter t}) lost s1" using returnsD [OF report_done_inv [OF 7(2) t] r(1)] .
  with 7(1) [OF _ r(1)] t r(2) show ?case by blast
qed simp

text \<open>After the script is loaded only its interpreter is open.\<close>

lemma load_opens:
  assumes "lua_open s = {}" "\<forall>t. ls_tls s t = None"
  shows "returns (\<lambda>(s', b). b \<longrightarrow> session_inv {Main} {} s') (sb_load_lua env 0 ident name s)"
proof -
  let ?P = "\<lambda>(s', b). b \<longrightarrow> session_inv {Main} {} s'" and ?lib = "le_lib env"
  define sn where "sn = (case name of Some n \<Rightarrow> s\<lparr>ls_sname := Some (basename n), ls_lname := Some n\<rparr>
      | None \<Rightarrow> s\<lparr>ls_sname := Some ''<stdin>'', ls_lname := None\<rparr>)"
  have "ls_stack sn = ls_stack s" "ls_tls sn = ls_tls s" by (simp_all add: sn_def split: option.split)
  then have sn: "lua_open sn = {}" "lua_wf sn" "\<forall>t. ls_tls sn t = None"
    using assms by (auto simp: lua_open_def lua_wf_def)
  have failed: "returns ?P (do { s \<leftarrow> sb_lua_done env 0 s'; Some (s, False) })" for s'
    by (rule returns_bind [where Q = "\<lambda>_. True"]) (simp_all add: returns_def)
  have loaded: "session_inv {Main} {} (s'\<lparr>ls_prepare := p, ls_cleanup := c, ls_help := h, ls_ops := Some opr,
      ls_states := Some (replicate n None)\<rparr>)"
    if "tops s2 L st 0 s'" "lua_open s2 = {L}" "lua_wf s2" "ls_gstate s2 = Some L" "\<forall>t>0. ls_tls s2 t = None"
    for s' s2 L st p c h opr n
    using lua_open_tops [OF that(1)] topsD(4,5) [OF that(1)] that(2-5) same_lua_tops [OF that(1)]
    by (auto simp: session_inv_def held_inv_def holder_of_def lua_open_def lua_wf_def same_lua_def)
  have rest: "returns ?P
      (do { (s, rc) \<leftarrow> read_cmdline_options env L s2;
            if rc \<noteq> 0 then do { s \<leftarrow> sb_lua_done env 0 s; Some (s, False) }
            else do { (s, prepare) \<leftarrow> func_available ?lib L ''prepare'' s;
                      (s, cleanup) \<leftarrow> func_available ?lib L ''cleanup'' s;
                      (s, help) \<leftarrow> func_available ?lib L ''help'' s;
                      (s, run) \<leftarrow> func_available ?lib L ''thread_run'' s;
                      (s, intermediate) \<leftarrow> sb_lua_hook_defined ?lib (Some L) ''report_intermediate'' s;
                      (s, cumulative) \<leftarrow> sb_lua_hook_defined ?lib (Some L) ''report_cumulative'' s;
                      f s prepare cleanup help run intermediate cumulative } })"
    if "tops s2 L st 0 s2" and f: "\<And>s a b c d e g. tops s2 L st 0 s \<Longrightarrow> returns ?P (f s a b c d e g)" for s2 L st f
    by (rule returns_bind2, rule tops_read_cmdline_options [OF that(1)], rule returns_if, rule failed,
        (rule returns_bind2, erule tops_func_available)+, (rule returns_bind2, erule tops_hook_defined)+, erule f)
  show ?thesis unfolding sb_load_lua_def Let_def sn_def [symmetric]
  proof (rule returns_bind2, rule new_state_opens, goal_cases)
    case (1 s1 r)
    show ?case
    proof (cases r)
      case None
      then show ?thesis using failed by simp
    next
      case (Some L)
      define s2 where "s2 = s1\<lparr>ls_gstate := Some L\<rparr>"
      have s2: "lua_open s2 = {L}" "lua_wf s2" "ls_gstate s2 = Some L" "\<forall>t>0. ls_tls s2 t = None"
        using 1 Some sn by (auto simp: s2_def lua_open_def lua_wf_def)
      from s2(1) obtain st where "ls_stack s2 L = Some st" by (auto simp: lua_open_def)
      then have t: "tops s2 L st 0 s2" by (rule tops_start)
      show ?thesis unfolding Some option.simps s2_def [symmetric]
      proof (rule rest [OF t], rule returns_if, goal_cases)
        case (1 s a b c d e g)
        then show ?case using loaded [OF _ s2] by simp
      qed (rule failed)
    qed
  qed
qed

section \<open>A sample interpreter\<close>

text \<open>The functions of a script return true, but the one that calls a command fails; tables are not kept.\<close>

definition sample_lua_lib :: "unit lua_lib" where
  "sample_lua_lib = \<lparr>lib_newstate = (\<lambda>L w. (w, True)), lib_openlibs = (\<lambda>L w. w), lib_close = (\<lambda>L w. w),
     lib_globals = (\<lambda>L. LTable 0), lib_registry = (\<lambda>L. LTable 1),
     lib_index = (\<lambda>L t k w. Some (w, LFunction (if k = LStr ''call_command'' then 1 else 0))),
     lib_setindex = (\<lambda>L t k v w. Some w), lib_rawset = (\<lambda>L t k v w. w), lib_newtable = (\<lambda>L w. (w, LTable 2)),
     lib_newmetatable = (\<lambda>L n w. (w, LTable 3)), lib_load = (\<lambda>L t n w. (w, Inr (LFunction 0))),
     lib_loadfile = (\<lambda>L n w. (w, 0, LFunction 0)),
     lib_call = (\<lambda>L f args wh. (wh, if f = LFunction 1 then Inl (LStr ''no'') else Inr [LBool True])),
     lib_err_file = 6, lib_num_text = (\<lambda>x. [])\<rparr>"

text \<open>Tables that are kept: the number of the next table and what is in them.\<close>

definition table_lib :: "(nat \<times> (nat \<Rightarrow> lua_value \<Rightarrow> lua_value)) lua_lib" where
  "table_lib = \<lparr>lib_newstate = (\<lambda>L w. (w, True)), lib_openlibs = (\<lambda>L w. w), lib_close = (\<lambda>L w. w),
     lib_globals = (\<lambda>L. LTable 0), lib_registry = (\<lambda>L. LTable 1),
     lib_index = (\<lambda>L t k w. case t of LTable t \<Rightarrow> Some (w, snd w t k) | _ \<Rightarrow> None),
     lib_setindex = (\<lambda>L t k v w. case t of LTable t \<Rightarrow> Some (fst w, (snd w)(t := (snd w t)(k := v))) | _ \<Rightarrow> None),
     lib_rawset = (\<lambda>L t k v w. case t of LTable t \<Rightarrow> (fst w, (snd w)(t := (snd w t)(k := v))) | _ \<Rightarrow> w),
     lib_newtable = (\<lambda>L w. ((fst w + 1, (snd w)(fst w := \<lambda>_. LNil)), LTable (fst w))),
     lib_newmetatable = (\<lambda>L n w. (w, LNil)), lib_load = (\<lambda>L t n w. (w, Inr (LFunction 0))),
     lib_loadfile = (\<lambda>L n w. (w, 0, LFunction 0)), lib_call = (\<lambda>L f args wh. (wh, Inr [])),
     lib_err_file = 6, lib_num_text = (\<lambda>x. [])\<rparr>"

definition sample_lua_env :: "'w lua_lib \<Rightarrow> 'w lua_env" where
  "sample_lua_env lib = \<lparr>le_lib = lib, le_strtod = (\<lambda>t. 0), le_getenv = (\<lambda>n. None), le_dlext = ''.so'',
     le_datadir = ''/d'', le_libdir = ''/l'', le_version = ''1'', le_version_string = ''s 1'', le_scripts = [],
     le_calloc = True, le_random = (\<lambda>i. []), le_create = (\<lambda>i. (0, i)), le_join = (\<lambda>t. 0),
     le_threads = replicate 2 raw_ctxt, le_order = rev\<rparr>"

definition sample_lua :: "'w \<Rightarrow> option_t list \<Rightarrow> nat option \<Rightarrow> 'w lua_sys" where
  "sample_lua w opts g =
     \<lparr>ls_world = w, ls_host = \<lparr>lh_log = sample_log\<lparr>l_globals := globals_static\<lparr>g_threads := 2\<rparr>, l_opts := opts\<rparr>, lh_args = None\<rparr>,
      ls_stack = (case g of None \<Rightarrow> (\<lambda>L. None) | Some L \<Rightarrow> [L \<mapsto> []]), ls_fresh = 1, ls_states = None, ls_gstate = g,
      ls_tls = (\<lambda>i. None), ls_rng = (\<lambda>i. (0, 0)), ls_command = None, ls_sname = None, ls_lname = None, ls_prepare = False,
      ls_cleanup = False, ls_help = False, ls_ops = None\<rparr>"

text \<open>The definitions a concrete run goes through.\<close>

lemmas lua_run = lua_push_def lua_pop_def lua_at_def lua_remove_def lua_pushstring_def lua_newtable_def lua_index_def
  lua_getglobal_def lua_getfield_def lua_gettable_def lua_settable_def lua_setfield_def lua_setglobal_def lua_rawseti_def
  lua_isfunction_def lua_toboolean_def lua_pcall_def set_stack_def set_world_def lua_globals_def sb_lua_var_number_def
  sb_lua_var_string_def lua_newmetatable_def export_options_def do_export_options_def cmdline_function_def cmdline_result_def
  command_property_def call_custom_command_def call_error_def lua_log_def Let_def sample_lua_def sample_lua_env_def
  sample_lua_lib_def sample_log_def globals_static_def

lemmas lua_new_run = sb_lua_new_state_def sb_lua_set_paths_def export_sysbench_def load_script_def sb_lua_close_state_def
  func_available_def



section \<open>What a script sees of the options\<close>

text \<open>Tables without metamethods: \<open>get\<close> reads a table, \<open>used\<close> are the tables made so far.\<close>

definition plain_tables ::
  "'w lua_lib \<Rightarrow> nat \<Rightarrow> ('w \<Rightarrow> nat \<Rightarrow> lua_value \<Rightarrow> lua_value) \<Rightarrow> ('w \<Rightarrow> nat set) \<Rightarrow> bool" where
  "plain_tables lib L get used \<longleftrightarrow>
     (\<forall>t k w. lib_index lib L (LTable t) k w = Some (w, get w t k)) \<and>
     (\<forall>t k v w w'. lib_setindex lib L (LTable t) k v w = Some w' \<longrightarrow>
        get w' = (get w)(t := (get w t)(k := v)) \<and> used w' = used w) \<and>
     (\<forall>t k v w. get (lib_rawset lib L (LTable t) k v w) = (get w)(t := (get w t)(k := v)) \<and>
        used (lib_rawset lib L (LTable t) k v w) = used w) \<and>
     (\<forall>w. \<exists>w' t. lib_newtable lib L w = (w', LTable t) \<and> t \<notin> used w \<and> used w' = insert t (used w) \<and>
        get w' = (get w)(t := \<lambda>_. LNil))"

text \<open>The value a script sees for an option; for a list, a table of its own.\<close>

definition shows_option ::
  "'w lua_env \<Rightarrow> (nat \<Rightarrow> lua_value \<Rightarrow> lua_value) \<Rightarrow> nat set \<Rightarrow> option_t \<Rightarrow> lua_value \<Rightarrow> bool" where
  "shows_option env tbl own opt v \<longleftrightarrow>
     (case opt_type opt of
        SB_ARG_TYPE_BOOL \<Rightarrow> v = LBool (sb_opt_to_flag opt)
      | SB_ARG_TYPE_INT \<Rightarrow> (\<exists>i. sb_opt_to_int opt = Some i \<and> v = LNum (of_int i))
      | SB_ARG_TYPE_DOUBLE \<Rightarrow> v = LNum (sb_opt_to_double (le_strtod env) opt)
      | SB_ARG_TYPE_SIZE \<Rightarrow> v = LNum (real (unat (sb_opt_to_size opt)))
      | SB_ARG_TYPE_STRING \<Rightarrow> v = LStr (case sb_opt_to_string opt of None \<Rightarrow> [] | Some t \<Rightarrow> t)
      | SB_ARG_TYPE_LIST \<Rightarrow> (\<exists>t\<in>own. v = LTable t \<and>
          (\<forall>i<length (sb_opt_to_list opt). tbl t (LNum (real (i + 1))) = LStr (sb_opt_to_list opt ! i)) \<and>
          (\<forall>i>length (sb_opt_to_list opt). tbl t (LNum (real i)) = LNil))
      | _ \<Rightarrow> v = LNil)"

lemma exact_push:
  "with_stack s0 L st s \<Longrightarrow> returns (\<lambda>s'. with_stack s0 L (v # st) s' \<and> ls_world s' = ls_world s) (lua_push L v s)"
  by (auto simp: lua_push_def with_stackD intro: with_stack_changes) (simp_all add: set_stack_def)

lemma exact_pop:
  "with_stack s0 L (vs @ st) s \<Longrightarrow> n = length vs \<Longrightarrow>
     returns (\<lambda>s'. with_stack s0 L st s' \<and> ls_world s' = ls_world s) (lua_pop L n s)"
  by (auto simp: lua_pop_def with_stackD intro: with_stack_changes) (simp_all add: set_stack_def)

lemma exact_newtable:
  assumes "with_stack s0 L st s" "lib_newtable lib L (ls_world s) = (w, t)"
  shows "returns (\<lambda>s'. with_stack s0 L (t # st) s' \<and> ls_world s' = w) (lua_newtable lib L s)"
  using exact_push [OF with_stack_changes(1) [OF assms(1)], of t w] assms(2) by (simp add: lua_newtable_def set_world_def)

lemma exact_getglobal:
  assumes "with_stack s0 L st s" "lib_index lib L (lib_globals lib L) (LStr n) (ls_world s) = Some (w, v)"
  shows "returns (\<lambda>s'. with_stack s0 L (v # st) s' \<and> ls_world s' = w) (lua_getglobal lib L n s)"
  using exact_push [OF with_stack_changes(1) [OF assms(1)], of v w] assms(2)
  by (simp add: lua_getglobal_def lua_index_def set_world_def)

lemma exact_rawseti:
  assumes "with_stack s0 L (v # t # st) s"
  shows "returns (\<lambda>s'. with_stack s0 L (t # st) s' \<and> ls_world s' = lib_rawset lib L t (LNum (real i)) v (ls_world s))
    (lua_rawseti lib L i s)"
proof -
  have "lua_at L 1 s = t" "lua_at L 0 s = v" using with_stackD(1) [OF assms] by (simp_all add: lua_at_def)
  then show ?thesis
    using exact_pop [of s0 L "[v]" "t # st" "set_world (lib_rawset lib L t (LNum (real i)) v (ls_world s)) s" 1]
      with_stack_changes(1) [OF assms] by (simp add: lua_rawseti_def set_world_def)
qed

lemma exact_settable:
  assumes "with_stack s0 L (v # k # t # st) s"
  shows "returns (\<lambda>s'. with_stack s0 L (t # st) s' \<and> lib_setindex lib L t k v (ls_world s) = Some (ls_world s'))
    (lua_settable lib L s)"
proof -
  have "lua_at L 2 s = t" "lua_at L 1 s = k" "lua_at L 0 s = v" using with_stackD(1) [OF assms] by (simp_all add: lua_at_def)
  then show ?thesis
    using exact_pop [of s0 L "[v, k]" "t # st" "set_world w s" 2 for w] with_stack_changes(1) [OF assms]
    by (cases "lib_setindex lib L t k v (ls_world s)") (auto simp: lua_settable_def set_world_def returns_def numeral_2_eq_2)
qed

lemma exact_push_list:
  assumes "plain_tables lib L get used" "with_stack s0 L (LTable t # st) s"
  shows "returns (\<lambda>s'. with_stack s0 L (LTable t # st) s' \<and> used (ls_world s') = used (ls_world s) \<and>
      (\<forall>u. u \<noteq> t \<longrightarrow> get (ls_world s') u = get (ls_world s) u) \<and>
      (\<forall>j<length xs. get (ls_world s') t (LNum (real (i + j))) = LStr (xs ! j)) \<and>
      (\<forall>k. (\<forall>j<length xs. k \<noteq> LNum (real (i + j))) \<longrightarrow> get (ls_world s') t k = get (ls_world s) t k))
    (push_list lib L i xs s)"
  using assms(2)
proof (induction xs arbitrary: i s)
  case (Cons x xs)
  show ?case unfolding push_list.simps
  proof (rule returns_bind, rule exact_push [OF Cons.prems], rule returns_bind, erule conjE, erule exact_rawseti, goal_cases)
    case (1 s1 s2)
    have w: "get (ls_world s2) = (get (ls_world s))(t := (get (ls_world s) t)(LNum (real i) := LStr x))"
      "used (ls_world s2) = used (ls_world s)" using 1 assms(1) by (simp_all add: plain_tables_def)
    show ?case
    proof (rule returns_weaken [OF Cons.IH], use 1 in simp, goal_cases)
      case (1 s3)
      have "get (ls_world s3) t (LNum (real (i + j))) = LStr ((x # xs) ! j)" if "j < length (x # xs)" for j
        using 1 that w(1) by (cases j) auto
      moreover have "get (ls_world s3) t k = get (ls_world s) t k" if k: "\<forall>j<length (x # xs). k \<noteq> LNum (real (i + j))" for k
      proof -
        have "k \<noteq> LNum (real i)" using k [rule_format, of 0] by simp
        moreover have "k \<noteq> LNum (real (i + 1 + j))" if "j < length xs" for j using k [rule_format, of "Suc j"] that by simp
        ultimately show ?thesis using 1 w(1) by simp
      qed
      ultimately show ?case using 1 w by simp
    qed
  qed
qed simp

text \<open>One option: only tables made meanwhile change.\<close>

lemma exact_push_option:
  assumes "plain_tables (le_lib env) L get used" "with_stack s0 L st s"
  shows "returns (\<lambda>s'. \<exists>v. with_stack s0 L (v # st) s' \<and> used (ls_world s) \<subseteq> used (ls_world s') \<and>
      (\<forall>u\<in>used (ls_world s). get (ls_world s') u = get (ls_world s) u) \<and>
      shows_option env (get (ls_world s')) (used (ls_world s') - used (ls_world s)) opt v)
    (push_option env L opt s)"
proof -
  have simple: "returns (\<lambda>s'. \<exists>v. with_stack s0 L (v # st) s' \<and> used (ls_world s) \<subseteq> used (ls_world s') \<and>
      (\<forall>u\<in>used (ls_world s). get (ls_world s') u = get (ls_world s) u) \<and>
      shows_option env (get (ls_world s')) (used (ls_world s') - used (ls_world s)) opt v) (lua_push L v s1)"
    if "with_stack s0 L st s1" "ls_world s1 = ls_world s" "\<And>tbl own. shows_option env tbl own opt v" for v s1
    by (rule returns_weaken [OF exact_push [OF that(1)]]) (use that(2,3) in auto)
  note plain = simple [OF assms(2) refl]
  show ?thesis
  proof (cases "opt_type opt")
    case SB_ARG_TYPE_INT
    then show ?thesis using plain by (cases "sb_opt_to_int opt") (simp_all add: push_option_def shows_option_def)
  next
    case SB_ARG_TYPE_LIST
    obtain w t where n: "lib_newtable (le_lib env) L (ls_world s) = (w, LTable t)" "t \<notin> used (ls_world s)"
      "used w = insert t (used (ls_world s))" "get w = (get (ls_world s))(t := \<lambda>_. LNil)"
      using assms(1) unfolding plain_tables_def by blast
    have "returns (\<lambda>s'. \<exists>v. with_stack s0 L (v # st) s' \<and> used (ls_world s) \<subseteq> used (ls_world s') \<and>
        (\<forall>u\<in>used (ls_world s). get (ls_world s') u = get (ls_world s) u) \<and>
        shows_option env (get (ls_world s')) (used (ls_world s') - used (ls_world s)) opt v)
      (do { s \<leftarrow> lua_newtable (le_lib env) L s; push_list (le_lib env) L 1 (sb_opt_to_list opt) s })"
    proof (rule returns_bind [OF exact_newtable [OF assms(2) n(1)]], goal_cases)
      case (1 s1)
      show ?case
      proof (rule returns_weaken [OF exact_push_list [OF assms(1), of s0 t st]], use 1 in simp, goal_cases)
        case (1 s2)
        have "get (ls_world s2) t (LNum (real i)) = LNil" if "length (sb_opt_to_list opt) < i" for i
          using 1 that n(4) \<open>with_stack s0 L (LTable t # st) s1 \<and> ls_world s1 = w\<close> by simp
        then show ?case using 1 n(2-4) \<open>with_stack s0 L (LTable t # st) s1 \<and> ls_world s1 = w\<close> SB_ARG_TYPE_LIST
          by (intro exI [of _ "LTable t"]) (auto simp: shows_option_def)
      qed
    qed
    then show ?thesis using SB_ARG_TYPE_LIST by (simp add: push_option_def)
  qed ((simp only: push_option_def sb_arg_type.case, rule plain, simp add: shows_option_def) |
      (simp only: push_option_def sb_arg_type.case, rule simple, rule with_stack_changes, rule assms(2), simp add: lua_log_def,
        simp add: shows_option_def))+
qed

lemma shows_option_mono:
  assumes "shows_option env tbl own opt v" "\<forall>t\<in>own. tbl' t = tbl t" "own \<subseteq> own'"
  shows "shows_option env tbl' own' opt v"
proof (cases "opt_type opt = SB_ARG_TYPE_LIST")
  case True
  then show ?thesis using assms by (simp add: shows_option_def) (metis subsetD)
qed (use assms(1) in \<open>cases "opt_type opt"; simp add: shows_option_def\<close>)

text \<open>The loop: \<open>o\<close> is the table under construction, \<open>U\<close> the tables made before it.\<close>

lemma exact_export_each:
  assumes "plain_tables (le_lib env) L get used" "distinct (map opt_name opts)" "opt_tab \<notin> U"
    and "with_stack s0 L (LTable opt_tab # LStr ''opt'' # LTable sb # st) s" "insert opt_tab U \<subseteq> used (ls_world s)"
    and "\<forall>opt\<in>set old. shows_option env (get (ls_world s)) (used (ls_world s) - insert opt_tab U) opt
      (get (ls_world s) opt_tab (LStr (opt_name opt)))"
    and "opt_name ` set old \<inter> opt_name ` set opts = {}"
  shows "returns (\<lambda>s'. with_stack s0 L (LTable opt_tab # LStr ''opt'' # LTable sb # st) s' \<and>
      (\<forall>u\<in>U. get (ls_world s') u = get (ls_world s) u) \<and>
      (\<forall>opt\<in>set (old @ opts). shows_option env (get (ls_world s')) (used (ls_world s') - insert opt_tab U) opt
        (get (ls_world s') opt_tab (LStr (opt_name opt)))))
    (export_each env L False opts s)"
  using assms(2,4-7)
proof (induction opts arbitrary: s old)
  case (Cons opt opts)
  show ?case unfolding export_each.simps if_False
  proof (rule returns_bind [OF exact_push [OF Cons.prems(2)]], goal_cases)
    case (1 s1)
    note s1 = 1
    show ?case
    proof (rule returns_bind [OF exact_push_option [OF assms(1)]], use s1 in blast, goal_cases)
      case (1 s2)
      then obtain v where v: "with_stack s0 L (v # LStr (opt_name opt) # LTable opt_tab # LStr ''opt'' # LTable sb # st) s2"
        "used (ls_world s) \<subseteq> used (ls_world s2)" "\<forall>u\<in>used (ls_world s). get (ls_world s2) u = get (ls_world s) u"
        "shows_option env (get (ls_world s2)) (used (ls_world s2) - used (ls_world s)) opt v"
        using s1 by auto
      show ?case
      proof (rule returns_bind [OF exact_settable [OF v(1)]], goal_cases)
        case (1 s3)
        then have w: "get (ls_world s3) = (get (ls_world s2))(opt_tab := (get (ls_world s2) opt_tab)(LStr (opt_name opt) := v))"
          "used (ls_world s3) = used (ls_world s2)" using assms(1) unfolding plain_tables_def by blast+
        have own: "t \<noteq> opt_tab" if "t \<in> used (ls_world s) - insert opt_tab U" for t using that by simp
        have olds: "shows_option env (get (ls_world s3)) (used (ls_world s3) - insert opt_tab U) p
            (get (ls_world s3) opt_tab (LStr (opt_name p)))" if p: "p \<in> set old" for p
        proof -
          have "opt_name p \<noteq> opt_name opt" using imageI [OF p, of opt_name] Cons.prems(5) by auto
          then have "get (ls_world s3) opt_tab (LStr (opt_name p)) = get (ls_world s) opt_tab (LStr (opt_name p))"
            using w(1) v(3) Cons.prems(3) by simp
          moreover have "shows_option env (get (ls_world s3)) (used (ls_world s3) - insert opt_tab U) p
              (get (ls_world s) opt_tab (LStr (opt_name p)))"
            by (rule shows_option_mono [OF Cons.prems(4) [rule_format, OF p]]) (use w v(2,3) in auto)
          ultimately show ?thesis by simp
        qed
        have eq: "get (ls_world s3) opt_tab (LStr (opt_name opt)) = v" using w(1) by simp
        have this_one: "shows_option env (get (ls_world s3)) (used (ls_world s3) - insert opt_tab U) opt
            (get (ls_world s3) opt_tab (LStr (opt_name opt)))"
          unfolding eq by (rule shows_option_mono [OF v(4)]) (use w Cons.prems(3) in auto)
        show ?case
        proof (rule returns_weaken [OF Cons.IH [of s3 "old @ [opt]"]], goal_cases)
          case 1 show ?case using Cons.prems(1) by simp
        next
          case 2 show ?case using \<open>with_stack s0 L _ s3 \<and> _\<close> by simp
        next
          case 3 show ?case using w(2) v(2) Cons.prems(3) by auto
        next
          case 4 show ?case using olds this_one by auto
        next
          case 5 show ?case using Cons.prems(1,5) by auto
        next
          case (6 s4)
          then have "get (ls_world s4) u = get (ls_world s) u" if "u \<in> U" for u
            using that w(1) v(3) assms(3) Cons.prems(3) by auto
          then show ?case using 6 by simp
        qed
      qed
    qed
  qed
qed simp

text \<open>C32: After \<open>export_options\<close> a script finds every option under its name in \<open>sysbench.opt\<close>, as the boolean,
  number, string or list its type asks for, in a table made for it, and a list in a table of its
  own; apart from the field \<open>opt\<close> of \<open>sysbench\<close> no table that existed has changed.  The table
  \<open>sysbench\<close> stays on the stack.\<close>

theorem lua_options_exported:
  assumes "plain_tables (le_lib env) L get used" "ls_stack s L = Some st" "export_options env L s = Some (s', rc)"
    and "lib_globals (le_lib env) L = LTable g" "get (ls_world s) g (LStr ''sysbench'') = LTable sb" "sb \<in> used (ls_world s)"
    and "opts = l_opts (lh_log (ls_host s))" "distinct (map opt_name opts)"
  shows "rc = 0 \<and> ls_stack s' = (ls_stack s)(L \<mapsto> LTable sb # st) \<and>
    (\<exists>t. t \<notin> used (ls_world s) \<and> get (ls_world s') sb (LStr ''opt'') = LTable t \<and>
       (\<forall>opt\<in>set opts. shows_option env (get (ls_world s')) (used (ls_world s') - insert t (used (ls_world s))) opt
          (get (ls_world s') t (LStr (opt_name opt))))) \<and>
    (\<forall>u\<in>used (ls_world s). \<forall>k. (u, k) \<noteq> (sb, LStr ''opt'') \<longrightarrow> get (ls_world s') u k = get (ls_world s) u k)"
proof -
  obtain w t where n: "lib_newtable (le_lib env) L (ls_world s) = (w, LTable t)" "t \<notin> used (ls_world s)"
    "used w = insert t (used (ls_world s))" "get w = (get (ls_world s))(t := \<lambda>_. LNil)"
    using assms(1) unfolding plain_tables_def by blast
  have idx: "lib_index (le_lib env) L (lib_globals (le_lib env) L) (LStr ''sysbench'') (ls_world s) = Some (ls_world s, LTable sb)"
    using assms(1,4,5) by (simp add: plain_tables_def)
  let ?P = "\<lambda>(s', rc). rc = 0 \<and> with_stack s L (LTable sb # st) s' \<and>
    (get (ls_world s') sb (LStr ''opt'') = LTable t \<and>
       (\<forall>opt\<in>set opts. shows_option env (get (ls_world s')) (used (ls_world s') - insert t (used (ls_world s))) opt
          (get (ls_world s') t (LStr (opt_name opt))))) \<and>
    (\<forall>u\<in>used (ls_world s). \<forall>k. (u, k) \<noteq> (sb, LStr ''opt'') \<longrightarrow> get (ls_world s') u k = get (ls_world s) u k)"
  have head: "returns (\<lambda>s3. with_stack s L (LTable t # LStr ''opt'' # LTable sb # st) s3 \<and> ls_world s3 = w)
      (do { s \<leftarrow> lua_getglobal (le_lib env) L ''sysbench'' s; s \<leftarrow> lua_push L (LStr ''opt'') s; lua_newtable (le_lib env) L s })"
  proof (rule returns_bind [OF exact_getglobal [OF with_stack_start [OF assms(2)] idx]], goal_cases)
    case (1 s1)
    then have s1: "with_stack s L (LTable sb # st) s1" "ls_world s1 = ls_world s" by simp_all
    show ?case
      by (rule returns_bind [OF exact_push [OF s1(1), of "LStr ''opt''"]], rule exact_newtable) (use s1(2) n(1) in auto)
  qed
  have "returns ?P (do_export_options env L False s)"
    unfolding do_export_options_def Let_def if_False assms(7) [symmetric]
  proof (rule returns_bind [OF head], goal_cases)
    case (1 s3)
    note s3 = 1
    show ?case
    proof (rule returns_bind [OF exact_export_each [OF assms(1) assms(8) n(2), of s sb st s3 "[]"]], goal_cases)
      case (5 s4)
      note s4 = 5
      show ?case
      proof (rule returns_bind [OF exact_settable [of s L "LTable t" "LStr ''opt''" "LTable sb" st s4 "le_lib env"]],
          use s4 in blast, goal_cases)
        case (1 s5)
        then have w5: "get (ls_world s5) = (get (ls_world s4))(sb := (get (ls_world s4) sb)(LStr ''opt'' := LTable t))"
          "used (ls_world s5) = used (ls_world s4)" using assms(1) unfolding plain_tables_def by blast+
        have "shows_option env (get (ls_world s5)) (used (ls_world s5) - insert t (used (ls_world s))) opt
            (get (ls_world s5) t (LStr (opt_name opt)))" if "opt \<in> set opts" for opt
        proof -
          have "t \<noteq> sb" using assms(6) n(2) by auto
          then show ?thesis
            using shows_option_mono [of env "get (ls_world s4)" "used (ls_world s4) - insert t (used (ls_world s))" opt
              "get (ls_world s4) t (LStr (opt_name opt))" "get (ls_world s5)"] s4 that w5 assms(6) by auto
        qed
        then show ?case using 1 s4 s3 w5 n(2,4) assms(6) by auto
      qed
    qed (use s3 n assms(6,7) in auto)
  qed
  then have "returns ?P (export_options env L s)" unfolding export_options_def by (rule returns_bind2) simp
  from returnsD [OF this assms(3)] n(2) show ?thesis by (auto dest: with_stackD(1))
qed

theorem lua_options_exported_witness:
  "let opts = [new_option\<lparr>opt_name := ''quiet'', opt_type := SB_ARG_TYPE_BOOL\<rparr>,
       new_option\<lparr>opt_name := ''hosts'', opt_type := SB_ARG_TYPE_LIST, opt_values := [new_value\<lparr>data := ''a''\<rparr>]\<rparr>];
     w = (2, (\<lambda>_ _. LNil)(0 := (\<lambda>_. LNil)(LStr ''sysbench'' := LTable 1)))
   in \<exists>s' rc t l. export_options (sample_lua_env table_lib) 0 (sample_lua w opts (Some 0)) = Some (s', rc) \<and>
     snd (ls_world s') 1 (LStr ''opt'') = LTable t \<and> snd (ls_world s') t (LStr ''quiet'') = LBool False \<and>
     snd (ls_world s') t (LStr ''hosts'') = LTable l \<and> snd (ls_world s') l (LNum 1) = LStr ''a''"
proof -
  define opts where "opts = [new_option\<lparr>opt_name := ''quiet'', opt_type := SB_ARG_TYPE_BOOL\<rparr>,
       new_option\<lparr>opt_name := ''hosts'', opt_type := SB_ARG_TYPE_LIST, opt_values := [new_value\<lparr>data := ''a''\<rparr>]\<rparr>]"
  define w :: "nat \<times> (nat \<Rightarrow> lua_value \<Rightarrow> lua_value)" where
    "w = (2, (\<lambda>_ _. LNil)(0 := (\<lambda>_. LNil)(LStr ''sysbench'' := LTable 1)))"
  let ?s = "sample_lua w opts (Some 0)"
  have plain: "plain_tables (le_lib (sample_lua_env table_lib)) 0 snd (\<lambda>w. {..<fst w})"
    by (auto simp: plain_tables_def sample_lua_env_def table_lib_def)
  obtain s' rc where r: "export_options (sample_lua_env table_lib) 0 ?s = Some (s', rc)"
    by (simp add: opts_def w_def lua_run table_lib_def push_option_def sb_opt_to_list_def)
  have "l_opts (lh_log (ls_host ?s)) = opts" "ls_world ?s = w" "ls_stack ?s 0 = Some []" "distinct (map opt_name opts)"
    "lib_globals (le_lib (sample_lua_env table_lib)) 0 = LTable 0"
    by (simp_all add: sample_lua_def opts_def sample_lua_env_def table_lib_def)
  note s = this
  have "snd (ls_world ?s) 0 (LStr ''sysbench'') = LTable 1" "1 \<in> {..<fst (ls_world ?s)}" unfolding s(2) by (simp_all add: w_def)
  from lua_options_exported [OF plain s(3) r s(5) this s(1) [symmetric] s(4)]
  obtain t where t: "snd (ls_world s') 1 (LStr ''opt'') = LTable t"
    "\<forall>opt\<in>set opts. shows_option (sample_lua_env table_lib) (snd (ls_world s'))
       ({..<fst (ls_world s')} - insert t {..<fst (ls_world ?s)}) opt (snd (ls_world s') t (LStr (opt_name opt)))" by auto
  have "snd (ls_world s') t (LStr ''quiet'') = LBool False"
    using bspec [OF t(2), of "opts ! 0"] by (simp add: opts_def shows_option_def sb_opt_to_flag_def new_option_def)
  moreover obtain l where "snd (ls_world s') t (LStr ''hosts'') = LTable l" "snd (ls_world s') l (LNum 1) = LStr ''a''"
    using bspec [OF t(2), of "opts ! 1"] by (auto simp: opts_def shows_option_def sb_opt_to_list_def)
  ultimately show ?thesis using r t(1) unfolding Let_def opts_def [symmetric] w_def [symmetric] by blast
qed

section \<open>What the commands and the reports leave behind\<close>

lemma tops_command_property:
  assumes "ls_gstate s = Some L" "tops s0 L st k s"
  shows "returns (\<lambda>(s', b). tops s0 L st k s') (command_property env func name s)"
proof -
  have found: "returns (\<lambda>(s', b). tops s0 L st k s')
      (do { s \<leftarrow> lua_push L (LStr name) s; (s, r) \<leftarrow> cmdline_result (le_lib env) L 1 func s;
            Some (s, case r of None \<Rightarrow> True | Some b \<Rightarrow> b) })" if "tops s0 L st (Suc (Suc (Suc k))) s" for s
    by (rule returns_bind, rule tops_push [OF that], rule returns_bind2, rule tops_cmdline_result, simp) simp
  show ?thesis unfolding command_property_def Let_def assms(1) Option.bind.simps
    by (rule returns_bind2, rule tops_cmdline_function [OF assms(2)], rule returns_if, simp, rule found) simp
qed

lemma tops_execute_command:
  assumes "ls_gstate s = Some L" "tops s0 L st k s"
  shows "returns (\<lambda>(s', rc). tops s0 L st (Suc k) s') (execute_command env cmd s)"
proof -
  have run: "returns (\<lambda>(s', rc). tops s0 L st (Suc k) s')
      (do { s \<leftarrow> lua_getglobal (le_lib env) L cmd s; (s, failed) \<leftarrow> lua_pcall (le_lib env) L 0 1 s;
            if failed then do { s \<leftarrow> call_error (le_lib env) L cmd s; Some (s, 1) }
            else do { s \<leftarrow> lua_pop L 1 s; Some (s, 0) } })" if "tops s0 L st (Suc k) s" for s
    by (rule returns_bind, rule tops_getglobal [OF that], rule returns_bind2, erule tops_pcall_0, rule returns_if,
        rule returns_bind, rule tops_call_error, simp, simp, rule returns_bind, rule tops_pop1, simp, simp)
  show ?thesis unfolding execute_command_def Let_def assms(1) Option.bind.simps
    by (rule returns_bind2, rule tops_export_options [OF assms(2)], rule returns_if, simp, rule run) simp
qed

lemma tops_call_custom_command:
  assumes "tops s0 L st k s"
  shows "returns (\<lambda>(s', rc). tops s0 L st (Suc k) s') (call_custom_command env L s)"
proof -
  have found: "returns (\<lambda>(s', rc). tops s0 L st k s')
      (do { s \<leftarrow> lua_pushstring L (ls_command s) s; (s, r) \<leftarrow> cmdline_result (le_lib env) L 1 ''call_command'' s;
            Some (s, if r = Some True then 0 else 1) })" if "tops s0 L st (Suc (Suc (Suc k))) s" for s k
    by (rule returns_bind, rule tops_pushstring [OF that], rule returns_bind2, rule tops_cmdline_result, simp) simp
  show ?thesis unfolding call_custom_command_def Let_def
    by (rule returns_bind2, rule tops_export_options [OF assms], rule returns_if, simp, rule returns_bind2,
        rule tops_cmdline_function, simp, rule returns_if, simp, rule found) simp
qed

lemma tops_report_cumulative:
  assumes "ls_gstate s = Some L" "ls_tls s me = Some L" "tops s0 L st k s"
  shows "returns (tops s0 L st (Suc k)) (sb_lua_report_cumulative env me stat s)"
proof -
  have "returns (tops s0 L st (Suc k)) (do { (s, rc) \<leftarrow> export_options env L s; Some s })"
    by (rule returns_bind2, rule tops_export_options [OF assms(3)]) simp
  then show ?thesis unfolding sb_lua_report_cumulative_def Let_def assms(1,2) Option.bind.simps simp_thms if_True
    by (rule returns_bind) (rule tops_call_hook)
qed

lemma tops_same_stack: "tops s L st 0 s' \<Longrightarrow> ls_stack s L = Some st \<Longrightarrow> ls_stack s' = ls_stack s"
  by (simp add: tops_def with_stackD(1) map_upd_triv)

lemma tops_one_more:
  assumes "tops s L st (Suc 0) s'"
  shows "\<exists>v. ls_stack s' = (ls_stack s)(L \<mapsto> v # st)"
proof -
  obtain v where "with_stack s L (v # st) s'" using assms by (auto simp: tops_def length_Suc_conv)
  from with_stackD(1) [OF this] show ?thesis by blast
qed

text \<open>The questions about a command and the intermediate report leave the stack of the interpreter as it
  was, whether or not a function is missing or fails; a command and the cumulative report of the
  main thread leave one more value, the table \<open>sysbench\<close> of \<open>export_options\<close>.\<close>

theorem lua_stack_kept:
  assumes "ls_gstate s = Some L" "ls_stack s L = Some st"
  shows "(\<forall>name s' b. sb_lua_custom_command_defined env name s = Some (s', b) \<or>
        sb_lua_custom_command_parallel env name s = Some (s', b) \<longrightarrow> ls_stack s' = ls_stack s) \<and>
    (\<forall>cmd s' rc. execute_command env cmd s = Some (s', rc) \<or> call_custom_command env L s = Some (s', rc) \<longrightarrow>
        (\<exists>v. ls_stack s' = (ls_stack s)(L \<mapsto> v # st))) \<and>
    (ls_tls s me = Some L \<longrightarrow>
       (\<forall>stat s'. (sb_lua_report_intermediate env me stat s = Some s' \<longrightarrow> ls_stack s' = ls_stack s) \<and>
          (sb_lua_report_cumulative env me stat s = Some s' \<longrightarrow> (\<exists>v. ls_stack s' = (ls_stack s)(L \<mapsto> v # st)))))"
proof -
  have t: "tops s L st 0 s" using assms(2) by (rule tops_start)
  have "ls_stack s' = ls_stack s" if "command_property env f name s = Some (s', b)" for f name s' b
    using returnsD [OF tops_command_property [OF assms(1) t] that] assms(2) by (simp add: tops_same_stack)
  moreover have "\<exists>v. ls_stack s' = (ls_stack s)(L \<mapsto> v # st)" if "execute_command env cmd s = Some (s', rc)" for cmd s' rc
    using returnsD [OF tops_execute_command [OF assms(1) t] that] by (simp add: tops_one_more)
  moreover have "\<exists>v. ls_stack s' = (ls_stack s)(L \<mapsto> v # st)" if "call_custom_command env L s = Some (s', rc)" for s' rc
    using returnsD [OF tops_call_custom_command [OF t] that] by (simp add: tops_one_more)
  moreover have "ls_stack s' = ls_stack s"
    if "sb_lua_report_intermediate env me stat s = Some s'" "ls_tls s me = Some L" for stat s'
    using returnsD [OF tops_call_hook [OF t] that(1) [unfolded sb_lua_report_intermediate_def that(2)]] assms(2)
    by (rule tops_same_stack)
  moreover have "\<exists>v. ls_stack s' = (ls_stack s)(L \<mapsto> v # st)"
    if "sb_lua_report_cumulative env me stat s = Some s'" "ls_tls s me = Some L" for stat s'
    using returnsD [OF tops_report_cumulative [OF assms(1) that(2) t] that(1)] by (rule tops_one_more)
  ultimately show ?thesis
    unfolding sb_lua_custom_command_defined_def sb_lua_custom_command_parallel_def by blast
qed

theorem lua_stack_kept_witness:
  "\<exists>s' rc v. call_custom_command (sample_lua_env sample_lua_lib) 0 (sample_lua () [] (Some 0)) = Some (s', rc) \<and>
     ls_stack s' = [0 \<mapsto> [v]]"
proof -
  let ?s = "sample_lua () [] (Some 0)"
  have s: "ls_gstate ?s = Some 0" "ls_stack ?s 0 = Some []" "ls_stack ?s = [0 \<mapsto> []]" by (simp_all add: sample_lua_def)
  obtain s' rc where "call_custom_command (sample_lua_env sample_lua_lib) 0 ?s = Some (s', rc)" by (simp add: lua_run)
  with lua_stack_kept [OF s(1,2), of "sample_lua_env sample_lua_lib" 0] show ?thesis unfolding s(3) by auto
qed

text \<open>The result of a parallel command is that of starting its workers.\<close>

lemma create_workers_result:
  assumes "sb_thread_create_workers pc cs l = (cs', started, l', rc)"
  shows "rc = (if \<forall>i<length cs. fst (pc i) = 0 then 0 else 1)"
proof -
  obtain ok where c: "create_loop pc [0..<length cs] (set_ids cs) = (cs', started, ok)"
    and rc: "rc = (if ok then SB_EXIT_SUCCESS else SB_EXIT_FAILURE)"
    using assms by (auto simp: sb_thread_create_workers_def Let_def set_ids_nth split: prod.splits if_splits)
  have "ok = (\<forall>i<length cs. fst (pc i) = 0)" using create_loop_spec [OF c] by auto
  then show ?thesis using rc by (simp add: SB_EXIT_SUCCESS_def SB_EXIT_FAILURE_def)
qed

text \<open>What the script answers: nothing when \<open>command_parallel\<close> is not a function or its call fails.\<close>

definition script_answer :: "'w lua_lib \<Rightarrow> nat \<Rightarrow> lua_value \<Rightarrow> string \<Rightarrow> 'w \<times> lua_host \<Rightarrow> bool option" where
  "script_answer lib L f name wh =
     (case f of
        LFunction _ \<Rightarrow>
          (case snd (lib_call lib L f [LStr name] wh) of
             Inl err \<Rightarrow> None
           | Inr vs \<Rightarrow> Some (hd (vs @ [LNil]) \<notin> {LNil, LBool False}))
      | _ \<Rightarrow> None)"

lemma command_parallel_answer:
  assumes "ls_gstate s = Some L" "lib_index (le_lib env) L (lib_globals (le_lib env) L) (LStr ''sysbench'') (ls_world s) = Some (w1, sysbench)"
    "lib_index (le_lib env) L sysbench (LStr ''cmdline'') w1 = Some (w2, cmdline)"
    "lib_index (le_lib env) L cmdline (LStr ''command_parallel'') w2 = Some (w3, f)"
    and "sb_lua_custom_command_parallel env name s = Some (s1, p)"
  shows "p \<longleftrightarrow> script_answer (le_lib env) L f name (w3, ls_host s) \<noteq> Some False"
proof -
  let ?lib = "le_lib env"
  note defs = sb_lua_custom_command_parallel_def command_property_def cmdline_function_def lua_getglobal_def lua_getfield_def
    lua_index_def lua_push_def lua_at_def lua_isfunction_def set_stack_def set_world_def Let_def bind_eq_Some_conv
  obtain st where st: "ls_stack s L = Some st"
    using assms(5) by (auto simp: defs assms(1,2))
  let ?s = "set_stack L (f # cmdline # sysbench # st) (set_world w3 s)"
  have found: "cmdline_function ?lib L ''command_parallel'' warning s =
      (if \<not> lua_isfunction L ?s then do { s \<leftarrow> lua_pop L 3 (lua_log LOG_WARNING warning ?s); Some (s, False) } else Some (?s, True))"
    for warning
    by (simp add: cmdline_function_def lua_getglobal_def lua_getfield_def lua_index_def lua_push_def lua_at_def
        set_stack_def set_world_def assms(2-4) st)
  show ?thesis
  proof (cases "\<exists>k. f = LFunction k")
    case False
    then have "\<not> lua_isfunction L ?s" by (cases f) (simp_all add: lua_isfunction_def lua_at_def set_stack_def)
    moreover have "script_answer ?lib L f name wh = None" for wh
      using False by (cases f) (simp_all add: script_answer_def)
    ultimately show ?thesis using assms(5)
      by (auto simp: sb_lua_custom_command_parallel_def command_property_def Let_def assms(1) found bind_eq_Some_conv)
  next
    case True
    then obtain k where k: "f = LFunction k" by blast
    then have is_fun: "lua_isfunction L ?s" by (simp add: lua_isfunction_def lua_at_def set_stack_def)
    obtain w' h' r where call: "lib_call ?lib L f [LStr name] (w3, ls_host s) = ((w', h'), r)" by (metis surj_pair)
    show ?thesis
    proof (cases r)
      case (Inl err)
      have "p" using assms(5) is_fun
        by (auto simp: sb_lua_custom_command_parallel_def command_property_def Let_def assms(1) found bind_eq_Some_conv
            lua_push_def set_stack_def set_world_def cmdline_result_def lua_pcall_def call Inl)
      then show ?thesis using call Inl k by (simp add: script_answer_def)
    next
      case (Inr vs)
      have "p \<longleftrightarrow> hd (vs @ [LNil]) \<notin> {LNil, LBool False}" using assms(5) is_fun
        by (cases vs) (auto simp: sb_lua_custom_command_parallel_def command_property_def Let_def assms(1) found bind_eq_Some_conv
            lua_push_def set_stack_def set_world_def cmdline_result_def lua_pcall_def call Inr lua_toboolean_def lua_at_def
            lua_pop_def)
      then show ?thesis using call Inr k by (simp add: script_answer_def)
    qed
  qed
qed

text \<open>C33: The result of a custom command.  When the script says the command is parallel, or cannot say
  (its \<open>command_parallel\<close> is no function, or fails), and there is more than one thread, it is 0 if all
  workers could be started, whatever the command returns or reports in them, and 1 otherwise.
  When the script says it is not parallel, or there is only one thread, it is the result of the
  command in the main interpreter, 0 or 1.\<close>

theorem lua_parallel_result:
  assumes "ls_gstate s = Some L" "lib_index (le_lib env) L (lib_globals (le_lib env) L) (LStr ''sysbench'') (ls_world s) = Some (w1, sysbench)"
    "lib_index (le_lib env) L sysbench (LStr ''cmdline'') w1 = Some (w2, cmdline)"
    "lib_index (le_lib env) L cmdline (LStr ''command_parallel'') w2 = Some (w3, f)"
    and "sb_lua_custom_command_parallel env name (s\<lparr>ls_command := Some name\<rparr>) = Some (s1, p)"
    and "sb_lua_call_custom_command env name s = Some (s', rc)"
  shows "(p \<longleftrightarrow> script_answer (le_lib env) L f name (w3, ls_host s) \<noteq> Some False) \<and>
    (if script_answer (le_lib env) L f name (w3, ls_host s) \<noteq> Some False \<and> g_threads (lua_globals s1) > 1
     then rc = (if \<forall>i<length (le_threads env). fst (le_create env i) = 0 then 0 else 1)
     else \<exists>G. ls_gstate s1 = Some G \<and> call_custom_command env G s1 = Some (s', rc) \<and> rc \<in> {0, 1})"
proof -
  have p: "p \<longleftrightarrow> script_answer (le_lib env) L f name (w3, ls_host s) \<noteq> Some False"
    using command_parallel_answer [of "s\<lparr>ls_command := Some name\<rparr>" L env w1 sysbench w2 cmdline w3 f name s1 p] assms(1-5)
    by simp
  have "if p \<and> g_threads (lua_globals s1) > 1
     then rc = (if \<forall>i<length (le_threads env). fst (le_create env i) = 0 then 0 else 1)
     else \<exists>G. ls_gstate s1 = Some G \<and> call_custom_command env G s1 = Some (s', rc) \<and> rc \<in> {0, 1}"
  proof (cases "p \<and> g_threads (lua_globals s1) > 1")
    case True
    obtain cs started l err where c: "sb_thread_create_workers (le_create env) (le_threads env) (lh_log (ls_host s1)) =
        (cs, started, l, err)" by (metis prod_cases4)
    have "rc = int err"
      using assms(6) True create_workers_result [OF c]
      by (auto simp: sb_lua_call_custom_command_def assms(5) c Let_def bind_eq_Some_conv sb_thread_join_workers_def
          SB_EXIT_SUCCESS_def split: if_splits)
    then show ?thesis using True create_workers_result [OF c] by simp
  next
    case False
    then obtain G where G: "ls_gstate s1 = Some G" "call_custom_command env G s1 = Some (s', rc)"
      using assms(6) by (auto simp: sb_lua_call_custom_command_def assms(5) bind_eq_Some_conv)
    then have "rc \<in> {0, 1}"
      by (auto simp: call_custom_command_def Let_def bind_eq_Some_conv split: if_splits)
    then show ?thesis using False G by auto
  qed
  with p show ?thesis by simp
qed

theorem lua_parallel_result_witness:
  "\<exists>s' rc. sb_lua_call_custom_command (sample_lua_env sample_lua_lib) ''x'' (sample_lua () [] (Some 0)) = Some (s', rc) \<and> rc = 0"
proof -
  let ?s = "sample_lua () [] (Some 0)" and ?env = "sample_lua_env sample_lua_lib"
  obtain s1 where r1: "sb_lua_custom_command_parallel ?env ''x'' (?s\<lparr>ls_command := Some ''x''\<rparr>) = Some (s1, True)"
    "1 < g_threads (lua_globals s1)"
    by (simp add: sb_lua_custom_command_parallel_def lua_run)
  obtain s' rc where r: "sb_lua_call_custom_command ?env ''x'' ?s = Some (s', rc)"
    by (simp add: sb_lua_call_custom_command_def sb_lua_custom_command_parallel_def sb_thread_create_workers_def set_ids_def
        raw_ctxt_def upt_rec sb_thread_create_def SB_EXIT_SUCCESS_def sb_thread_join_workers_def cmd_worker_thread_def
        lua_new_run lua_run)
  have g: "ls_gstate ?s = Some 0" by (simp add: sample_lua_def)
  have i: "lib_index (le_lib ?env) 0 (lib_globals (le_lib ?env) 0) (LStr ''sysbench'') (ls_world ?s) = Some ((), LFunction 0)"
    "lib_index (le_lib ?env) 0 (LFunction 0) (LStr ''cmdline'') () = Some ((), LFunction 0)"
    "lib_index (le_lib ?env) 0 (LFunction 0) (LStr ''command_parallel'') () = Some ((), LFunction 0)"
    by (simp_all add: sample_lua_env_def sample_lua_lib_def)
  from lua_parallel_result [OF g i r1(1) r] r1(2) r show ?thesis by (auto simp: sample_lua_env_def)
qed

end
