(* ===== verification/Atomics.thy ===== *)
theory Atomics
  imports Prelude
begin

unbundle bit_operations_syntax

text \<open>
  The 64-bit atomic operations of \<open>sb_ck_pr.h\<close>, for 32-bit machines where Concurrency Kit has none.
  The compiler's \<open>__sync\<close> operations are single steps on the memory; a plain access of 64 bits is
  two accesses of 32 bits, in an order the compiler chooses; \<open>ck_pr_faa_64\<close> and \<open>ck_pr_fas_64\<close> are
  loops round a compare-and-swap, whose steps interleave with those of the other threads.  The
  theorems show that the loops act like single steps all the same, when one goes round again, what
  values a shared counter hands out, and that loads and stores can be torn.
\<close>

section \<open>Single operations\<close>

type_synonym words = "nat \<Rightarrow> u64"

text \<open>The low half of one value with the high half of another.\<close>

definition halves :: "u64 \<Rightarrow> u64 \<Rightarrow> u64" where
  "halves low high = (low AND mask 32) OR (high AND NOT (mask 32))"

text \<open>\<open>ck_pr_md_load_64\<close> when the word is \<open>a\<close> at the first access and \<open>b\<close> at the second; an access of
  \<open>ck_pr_md_store_64\<close>.\<close>

definition ck_pr_md_load_64 :: "bool \<Rightarrow> u64 \<Rightarrow> u64 \<Rightarrow> u64" where
  "ck_pr_md_load_64 low_first a b = (if low_first then halves a b else halves b a)"

definition ck_pr_md_store_64 :: "bool \<Rightarrow> words \<Rightarrow> nat \<Rightarrow> u64 \<Rightarrow> words" where
  "ck_pr_md_store_64 low m p v = m(p := if low then halves v (m p) else halves (m p) v)"

definition ck_pr_cas_64 :: "words \<Rightarrow> nat \<Rightarrow> u64 \<Rightarrow> u64 \<Rightarrow> words \<times> bool" where
  "ck_pr_cas_64 m p compare new = (if m p = compare then (m(p := new), True) else (m, False))"

text \<open>The value found is given back too.\<close>

definition ck_pr_cas_64_value :: "words \<Rightarrow> nat \<Rightarrow> u64 \<Rightarrow> u64 \<Rightarrow> words \<times> bool \<times> u64" where
  "ck_pr_cas_64_value m p compare new =
     (let found = m p in (if found = compare then m(p := new) else m, found = compare, found))"

definition ck_pr_add_64 :: "words \<Rightarrow> nat \<Rightarrow> u64 \<Rightarrow> words" where
  "ck_pr_add_64 m p d = m(p := m p + d)"

definition ck_pr_sub_64 :: "words \<Rightarrow> nat \<Rightarrow> u64 \<Rightarrow> words" where
  "ck_pr_sub_64 m p d = m(p := m p - d)"

definition ck_pr_and_64 :: "words \<Rightarrow> nat \<Rightarrow> u64 \<Rightarrow> words" where
  "ck_pr_and_64 m p d = m(p := m p AND d)"

definition ck_pr_or_64 :: "words \<Rightarrow> nat \<Rightarrow> u64 \<Rightarrow> words" where
  "ck_pr_or_64 m p d = m(p := m p OR d)"

definition ck_pr_xor_64 :: "words \<Rightarrow> nat \<Rightarrow> u64 \<Rightarrow> words" where
  "ck_pr_xor_64 m p d = m(p := m p XOR d)"

definition ck_pr_inc_64 :: "words \<Rightarrow> nat \<Rightarrow> words" where
  "ck_pr_inc_64 m p = ck_pr_add_64 m p 1"

definition ck_pr_dec_64 :: "words \<Rightarrow> nat \<Rightarrow> words" where
  "ck_pr_dec_64 m p = ck_pr_sub_64 m p 1"

datatype single_op =
    Add_op u64 | Sub_op u64 | And_op u64 | Or_op u64 | Xor_op u64 | Inc_op | Dec_op | Cas_op u64 u64

fun run_single :: "single_op \<Rightarrow> words \<Rightarrow> nat \<Rightarrow> words" where
  "run_single (Add_op d) m p = ck_pr_add_64 m p d"
| "run_single (Sub_op d) m p = ck_pr_sub_64 m p d"
| "run_single (And_op d) m p = ck_pr_and_64 m p d"
| "run_single (Or_op d) m p = ck_pr_or_64 m p d"
| "run_single (Xor_op d) m p = ck_pr_xor_64 m p d"
| "run_single Inc_op m p = ck_pr_inc_64 m p"
| "run_single Dec_op m p = ck_pr_dec_64 m p"
| "run_single (Cas_op compare new) m p = fst (ck_pr_cas_64 m p compare new)"

section \<open>The loops\<close>

text \<open>\<open>ck_pr_faa_64\<close> and \<open>ck_pr_fas_64\<close>, and what each tries to store in place of \<open>previous\<close>.\<close>

datatype loop_op = Faa u64 | Fas u64

fun loop_value :: "loop_op \<Rightarrow> u64 \<Rightarrow> u64" where
  "loop_value (Faa delta) previous = previous + delta"
| "loop_value (Fas update) previous = update"

text \<open>A thread has called one of them, has made the first access of its load, is in the loop with a value for
  \<open>previous\<close>, or has the result; it is between the accesses of a plain load, has the result,
  or is between the accesses of a store.\<close>

datatype call_state =
    Called loop_op nat | Half_called loop_op nat bool u64 | Looping loop_op nat u64 | Returned u64
  | Half_loaded nat bool u64 | Loaded u64 | Half_stored nat bool u64

record atom_sys =
  at_mem :: words
  at_calls :: "nat \<Rightarrow> call_state option"

text \<open>What a step does: nothing others can see, a failed exchange of the thread, an operation of the thread on
  a word that takes effect, or the store of one half of a value.\<close>

datatype atom_label = Silent | Failed nat | Acted nat nat "single_op + loop_op" u64 | Stored nat nat bool u64

definition pending :: "call_state option \<Rightarrow> bool" where
  "pending c \<longleftrightarrow> (case c of None \<Rightarrow> False | Some (Returned _) \<Rightarrow> False | Some (Loaded _) \<Rightarrow> False | _ \<Rightarrow> True)"

definition call_becomes :: "nat \<Rightarrow> call_state option \<Rightarrow> atom_sys \<Rightarrow> atom_sys" where
  "call_becomes t c s = s\<lparr>at_calls := (at_calls s)(t := c)\<rparr>"

inductive atom_step :: "atom_sys \<Rightarrow> atom_label \<Rightarrow> atom_sys \<Rightarrow> bool" where
  at_single: "\<not> pending (at_calls s t) \<Longrightarrow>
    atom_step s (Acted t p (Inl op) (at_mem s p)) (call_becomes t None (s\<lparr>at_mem := run_single op (at_mem s) p\<rparr>))"
| at_call: "\<not> pending (at_calls s t) \<Longrightarrow> atom_step s Silent (call_becomes t (Some (Called op p)) s)"
| at_load1: "at_calls s t = Some (Called op p) \<Longrightarrow>
    atom_step s Silent (call_becomes t (Some (Half_called op p low_first (at_mem s p))) s)"
| at_load2: "at_calls s t = Some (Half_called op p low_first a) \<Longrightarrow>
    atom_step s Silent (call_becomes t (Some (Looping op p (ck_pr_md_load_64 low_first a (at_mem s p)))) s)"
| at_cas_ok: "at_calls s t = Some (Looping op p previous) \<Longrightarrow>
    ck_pr_cas_64_value (at_mem s) p previous (loop_value op previous) = (m, True, found) \<Longrightarrow>
    atom_step s (Acted t p (Inr op) found) (call_becomes t (Some (Returned found)) (s\<lparr>at_mem := m\<rparr>))"
| at_cas_fail: "at_calls s t = Some (Looping op p previous) \<Longrightarrow>
    ck_pr_cas_64_value (at_mem s) p previous (loop_value op previous) = (m, False, found) \<Longrightarrow>
    atom_step s (Failed t) (call_becomes t (Some (Looping op p found)) (s\<lparr>at_mem := m\<rparr>))"
| at_read1: "\<not> pending (at_calls s t) \<Longrightarrow>
    atom_step s Silent (call_becomes t (Some (Half_loaded p low_first (at_mem s p))) s)"
| at_read2: "at_calls s t = Some (Half_loaded p low_first a) \<Longrightarrow>
    atom_step s Silent (call_becomes t (Some (Loaded (ck_pr_md_load_64 low_first a (at_mem s p)))) s)"
| at_store1: "\<not> pending (at_calls s t) \<Longrightarrow>
    atom_step s (Stored t p low v)
      (call_becomes t (Some (Half_stored p low v)) (s\<lparr>at_mem := ck_pr_md_store_64 low (at_mem s) p v\<rparr>))"
| at_store2: "at_calls s t = Some (Half_stored p low v) \<Longrightarrow>
    atom_step s (Stored t p (\<not> low) v) (call_becomes t None (s\<lparr>at_mem := ck_pr_md_store_64 (\<not> low) (at_mem s) p v\<rparr>))"

inductive_cases atom_stepE: "atom_step s l s'"

inductive atom_run :: "atom_sys \<Rightarrow> atom_label list \<Rightarrow> atom_sys \<Rightarrow> bool" where
  run_start: "atom_run s [] s"
| run_step: "atom_run s ls s' \<Longrightarrow> atom_step s' l s'' \<Longrightarrow> atom_run s (ls @ [l]) s''"

lemma call_becomes_simps [simp]:
  "at_mem (call_becomes t c s) = at_mem s" "at_calls (call_becomes t c s) = (at_calls s)(t := c)"
  by (simp_all add: call_becomes_def)

lemma halves_same [simp]: "halves v v = v"
  by (simp add: halves_def bit_eq_iff bit_simps) blast

lemma load_same [simp]: "ck_pr_md_load_64 low_first v v = v"
  by (simp add: ck_pr_md_load_64_def)

section \<open>Operations that take effect at once\<close>

text \<open>What an operation makes of the value of its word.\<close>

fun effect_of :: "single_op + loop_op \<Rightarrow> u64 \<Rightarrow> u64" where
  "effect_of (Inl (Add_op d)) w = w + d"
| "effect_of (Inl (Sub_op d)) w = w - d"
| "effect_of (Inl (And_op d)) w = w AND d"
| "effect_of (Inl (Or_op d)) w = w OR d"
| "effect_of (Inl (Xor_op d)) w = w XOR d"
| "effect_of (Inl Inc_op) w = w + 1"
| "effect_of (Inl Dec_op) w = w - 1"
| "effect_of (Inl (Cas_op compare new)) w = (if w = compare then new else w)"
| "effect_of (Inr (Faa d)) w = w + d"
| "effect_of (Inr (Fas v)) w = v"

text \<open>The operations one after the other, each at once, and the halves of stores; \<open>None\<close> when an operation has
  a result that is not the value it finds.\<close>

fun replay :: "words \<Rightarrow> atom_label list \<Rightarrow> words option" where
  "replay m [] = Some m"
| "replay m (Acted t p op r # ls) = (if m p = r then replay (m(p := effect_of op r)) ls else None)"
| "replay m (Stored t p low v # ls) = replay (m(p := if low then halves v (m p) else halves (m p) v)) ls"
| "replay m (_ # ls) = replay m ls"

lemma replay_append: "replay m (ls @ ls') = (case replay m ls of None \<Rightarrow> None | Some m' \<Rightarrow> replay m' ls')"
proof (induction ls arbitrary: m)
  case (Cons l ls)
  then show ?case by (cases l) (simp_all del: fun_upd_apply)
qed simp

lemma run_single_effect: "run_single op m p = m(p := effect_of (Inl op) (m p))"
  by (cases op) (auto simp: ck_pr_add_64_def ck_pr_sub_64_def ck_pr_and_64_def ck_pr_or_64_def
      ck_pr_xor_64_def ck_pr_inc_64_def ck_pr_dec_64_def ck_pr_cas_64_def)

lemma loop_value_effect: "loop_value op v = effect_of (Inr op) v"
  by (cases op) simp_all

lemma cas_value:
  "ck_pr_cas_64_value m p previous new = (m', ok, found) \<longleftrightarrow>
     found = m p \<and> ok = (m p = previous) \<and> m' = (if m p = previous then m(p := new) else m)"
  by (auto simp: ck_pr_cas_64_value_def Let_def)

lemmas atom_effects = run_single_effect cas_value loop_value_effect ck_pr_md_store_64_def

lemma step_replays: "atom_step s l s' \<Longrightarrow> replay (at_mem s) [l] = Some (at_mem s')"
  by (erule atom_stepE) (auto simp: atom_effects)

lemma run_replays: "atom_run s ls s' \<Longrightarrow> replay (at_mem s) ls = Some (at_mem s')"
  by (induction rule: atom_run.induct) (simp_all add: replay_append step_replays)

fun acts_of :: "nat \<Rightarrow> atom_label \<Rightarrow> bool" where
  "acts_of t (Acted u p op r) = (u = t)"
| "acts_of t _ = False"

text \<open>A thread gets a result by a step that acts with it, and loses it by any other step of its own.\<close>

lemma step_returned:
  assumes "atom_step s l s'" "at_calls s' t = Some (Returned r)"
  shows "(\<exists>p op. l = Acted t p (Inr op) r) \<or> (at_calls s t = Some (Returned r) \<and> \<not> acts_of t l)"
  using assms by (auto elim!: atom_stepE split: if_splits)

lemma returned_acted:
  assumes "atom_run s ls s'" "at_calls s t = None" "at_calls s' t = Some (Returned r)"
  shows "\<exists>p op. filter (acts_of t) ls \<noteq> [] \<and> last (filter (acts_of t) ls) = Acted t p (Inr op) r"
  using assms
proof (induction arbitrary: r rule: atom_run.induct)
  case (run_step s ls s' l s'')
  from step_returned [OF run_step.hyps(2) run_step.prems(2)] show ?case
    using run_step.IH [OF run_step.prems(1)] by auto
qed simp

text \<open>C8: Every interleaving of the operations has the effect of the operations that acted, each at once and in
  the order in which they acted, the loops being single operations at their successful exchange
  whatever halves they loaded first, and the stores being two halves; and what a fetch-and-add or
  fetch-and-store returns to its thread is the value its word had at that point.\<close>

theorem atomics_linearise:
  assumes "atom_run s ls s'"
  shows "replay (at_mem s) ls = Some (at_mem s') \<and>
    (\<forall>t r. at_calls s t = None \<and> at_calls s' t = Some (Returned r) \<longrightarrow>
       (\<exists>p op. filter (acts_of t) ls \<noteq> [] \<and> last (filter (acts_of t) ls) = Acted t p (Inr op) r))"
  using run_replays [OF assms] returned_acted [OF assms] by blast

section \<open>How often a loop goes round\<close>

fun acts_on :: "nat \<Rightarrow> atom_label \<Rightarrow> bool" where
  "acts_on p (Acted t q op r) = (q = p)"
| "acts_on p (Stored t q low v) = (q = p)"
| "acts_on p _ = False"

definition failures :: "nat \<Rightarrow> atom_label list \<Rightarrow> nat" where
  "failures t ls = length (filter (\<lambda>l. l = Failed t) ls)"

definition actions :: "nat \<Rightarrow> atom_label list \<Rightarrow> nat" where
  "actions p ls = length (filter (acts_on p) ls)"

lemma failures_snoc: "failures t (ls @ [l]) = failures t ls + (if l = Failed t then 1 else 0)"
  by (simp add: failures_def)

lemma actions_snoc: "actions p (ls @ [l]) = actions p ls + (if acts_on p l then 1 else 0)"
  by (simp add: actions_def)

text \<open>The value a pending call compares the word with, or has seen of it, and the call before it has seen
  anything.\<close>

fun seen :: "call_state option \<Rightarrow> u64 option" where
  "seen (Some (Half_called op p low_first a)) = Some a"
| "seen (Some (Looping op p previous)) = Some previous"
| "seen _ = None"

fun call_of :: "call_state option \<Rightarrow> (loop_op \<times> nat) option" where
  "call_of (Some (Called op p)) = Some (op, p)"
| "call_of (Some (Half_called op p low_first a)) = Some (op, p)"
| "call_of (Some (Looping op p previous)) = Some (op, p)"
| "call_of _ = None"

text \<open>Every failure of a pending call was preceded by an action of its own, and so is the next one.\<close>

definition loop_paid :: "nat \<Rightarrow> loop_op \<Rightarrow> nat \<Rightarrow> atom_label list \<Rightarrow> atom_sys \<Rightarrow> bool" where
  "loop_paid t op p ls s \<longleftrightarrow> call_of (at_calls s t) = Some (op, p) \<and>
     failures t ls + (if seen (at_calls s t) \<in> {None, Some (at_mem s p)} then 0 else 1) \<le> actions p ls"

lemma call_of_pending: "call_of c = Some x \<Longrightarrow> pending c"
  by (cases c rule: call_of.cases) (simp_all add: pending_def)

lemma step_of_others:
  assumes "atom_step s l s'" "at_mem s' p \<noteq> at_mem s p"
  shows "acts_on p l"
  using assms by (auto elim!: atom_stepE simp: atom_effects split: if_splits)

text \<open>A step of its own keeps the call and sees the word as it is, unless it mixes two values, or acts.\<close>

lemma step_of_own:
  assumes "atom_step s l s'" "call_of (at_calls s t) = Some (op, p)" "\<not> acts_of t l"
  shows "call_of (at_calls s' t) = Some (op, p) \<and>
    (l = Failed t \<longrightarrow> seen (at_calls s t) \<notin> {None, Some (at_mem s p)} \<and> seen (at_calls s' t) = Some (at_mem s' p)) \<and>
    (l \<noteq> Failed t \<longrightarrow> seen (at_calls s' t) \<in> {seen (at_calls s t), Some (at_mem s' p)} \<or>
       (\<exists>a. seen (at_calls s t) = Some a \<and> a \<noteq> at_mem s p \<and> at_mem s' p = at_mem s p))"
  using assms(1)
proof (cases rule: atom_step.cases)
  case (at_single u q sop)
  then show ?thesis using assms(2,3) by auto
next
  case (at_call u lop q)
  then show ?thesis using assms(2) call_of_pending by (cases "u = t") auto
next
  case (at_load1 u lop q low)
  then show ?thesis using assms(2) by (cases "u = t") auto
next
  case (at_load2 u lop q low a)
  then show ?thesis using assms(2) by (cases "u = t"; cases "a = at_mem s p") auto
next
  case (at_cas_ok u lop q previous m found)
  then show ?thesis using assms(2,3) by auto
next
  case (at_cas_fail u lop q previous m found)
  then show ?thesis using assms(2) by (cases "u = t") (auto simp: cas_value)
next
  case (at_read1 u q low)
  then show ?thesis using assms(2) call_of_pending by (cases "u = t") auto
next
  case (at_read2 u q low a)
  then show ?thesis using assms(2) by (cases "u = t") auto
next
  case (at_store1 u q low v)
  then show ?thesis using assms(2) call_of_pending by (cases "u = t") auto
next
  case (at_store2 u q low v)
  then show ?thesis using assms(2) by (cases "u = t") auto
qed

lemma step_pays:
  assumes "atom_step s l s'" "loop_paid t op p ls s" "\<not> acts_of t l"
  shows "loop_paid t op p (ls @ [l]) s'"
proof -
  have c: "call_of (at_calls s t) = Some (op, p)" using assms(2) by (simp add: loop_paid_def)
  note own = step_of_own [OF assms(1) c assms(3)]
  have mem: "at_mem s' p = at_mem s p \<or> acts_on p l" using step_of_others [OF assms(1)] by blast
  show ?thesis
  proof (cases "l = Failed t")
    case True
    then show ?thesis using own assms(2) by (auto simp: loop_paid_def failures_snoc actions_snoc)
  next
    case False
    then show ?thesis using own assms(2) mem
      by (auto simp: loop_paid_def failures_snoc actions_snoc split: if_splits)
  qed
qed

lemma run_pays:
  assumes "atom_run s ls s'" "at_calls s t = Some (Called op p)" "\<forall>l\<in>set ls. \<not> acts_of t l"
  shows "loop_paid t op p ls s'"
  using assms
proof (induction rule: atom_run.induct)
  case (run_step s ls s' l s'')
  show ?case by (rule step_pays [OF run_step.hyps(2) run_step.IH]) (use run_step.prems in auto)
qed (simp add: loop_paid_def failures_def)

text \<open>C9: As long as a fetch-and-add or fetch-and-store has not succeeded, its exchange has failed at most as
  often as other operations on the word, or halves of stores, have taken effect since the call:
  when a thread has to try again another one has got ahead.  When the word still has the value the
  thread compares it with, its next exchange succeeds.\<close>

theorem loop_failures_bounded:
  assumes "atom_run s ls s'" "at_calls s t = Some (Called op p)" "\<forall>l\<in>set ls. \<not> acts_of t l"
  shows "failures t ls \<le> actions p ls \<and> call_of (at_calls s' t) = Some (op, p) \<and>
    (\<forall>previous. at_calls s' t = Some (Looping op p previous) \<and> at_mem s' p = previous \<longrightarrow>
       atom_step s' (Acted t p (Inr op) previous)
         (call_becomes t (Some (Returned previous)) (s'\<lparr>at_mem := (at_mem s')(p := effect_of (Inr op) previous)\<rparr>)))"
proof -
  have "loop_paid t op p ls s'" using run_pays [OF assms] .
  then have "failures t ls \<le> actions p ls \<and> call_of (at_calls s' t) = Some (op, p)" by (simp add: loop_paid_def)
  moreover have "atom_step s' (Acted t p (Inr op) previous)
      (call_becomes t (Some (Returned previous)) (s'\<lparr>at_mem := (at_mem s')(p := effect_of (Inr op) previous)\<rparr>))"
    if "at_calls s' t = Some (Looping op p previous)" "at_mem s' p = previous" for previous
    by (rule at_cas_ok [OF that(1)]) (simp add: cas_value loop_value_effect that(2))
  ultimately show ?thesis by blast
qed

section \<open>A shared counter\<close>

fun result_of :: "atom_label \<Rightarrow> u64" where
  "result_of (Acted t p op r) = r"
| "result_of _ = 0"

definition tickets :: "nat \<Rightarrow> atom_label list \<Rightarrow> u64 list" where
  "tickets p ls = map result_of (filter (acts_on p) ls)"

lemma step_ticket:
  assumes "atom_step s l s'" "acts_on p l" "\<exists>t r. l = Acted t p (Inr (Faa 1)) r"
  shows "result_of l = at_mem s p \<and> at_mem s' p = at_mem s p + 1"
  using assms by (auto elim!: atom_stepE simp: atom_effects)

lemma run_tickets:
  assumes "atom_run s ls s'" "\<forall>l\<in>set ls. acts_on p l \<longrightarrow> (\<exists>t r. l = Acted t p (Inr (Faa 1)) r)"
  shows "tickets p ls = map (\<lambda>i. at_mem s p + of_nat i) [0..<actions p ls] \<and>
    at_mem s' p = at_mem s p + of_nat (actions p ls)"
  using assms
proof (induction rule: atom_run.induct)
  case (run_step s ls s' l s'')
  have IH: "tickets p ls = map (\<lambda>i. at_mem s p + of_nat i) [0..<actions p ls]" "at_mem s' p = at_mem s p + of_nat (actions p ls)"
    using run_step.IH run_step.prems by auto
  show ?case
  proof (cases "acts_on p l")
    case True
    then show ?thesis using step_ticket [OF run_step.hyps(2) True] run_step.prems IH
      by (auto simp: tickets_def actions_def)
  next
    case False
    then have "at_mem s'' p = at_mem s' p" using step_of_others [OF run_step.hyps(2)] by blast
    then show ?thesis using False IH by (simp add: tickets_def actions_def)
  qed
qed (simp add: tickets_def actions_def)

text \<open>When a word is only changed by fetch-and-adds of 1, its value in the end is the first value plus their
  number, and they return the values in between in the order in which they acted, so that no two
  of at most \<open>2 ^ 64\<close> return the same: this is how events are numbered.\<close>

theorem faa_tickets:
  assumes "atom_run s ls s'" "\<forall>l\<in>set ls. acts_on p l \<longrightarrow> (\<exists>t r. l = Acted t p (Inr (Faa 1)) r)"
  shows "tickets p ls = map (\<lambda>i. at_mem s p + of_nat i) [0..<actions p ls] \<and>
    at_mem s' p = at_mem s p + of_nat (actions p ls) \<and> (actions p ls \<le> 2 ^ 64 \<longrightarrow> distinct (tickets p ls))"
proof -
  note t = run_tickets [OF assms]
  have "inj_on (\<lambda>i. at_mem s p + of_nat i) (set [0..<actions p ls])" if "actions p ls \<le> 2 ^ 64"
    using that by (auto simp: inj_on_def word_of_nat_eq_iff take_bit_nat_eq_self)
  then show ?thesis using t by (auto simp: distinct_map)
qed

section \<open>A sample run\<close>

definition idle_calls :: "u64 \<Rightarrow> atom_sys" where
  "idle_calls v = \<lparr>at_mem = (\<lambda>_. v), at_calls = (\<lambda>_. None)\<rparr>"

definition two_calls :: atom_sys where
  "two_calls = call_becomes 1 (Some (Called (Faa 1) 7)) (call_becomes 0 (Some (Called (Faa 1) 7)) (idle_calls 0))"

text \<open>Both threads load the word, thread 1 is first to exchange it, so thread 0 has to try twice.\<close>

definition after_failure :: atom_sys where
  "after_failure = \<lparr>at_mem = (\<lambda>_. 0)(7 := 1), at_calls = [0 \<mapsto> Looping (Faa 1) 7 1, 1 \<mapsto> Returned 0]\<rparr>"

lemma run_Cons:
  assumes "atom_run s' ls s''" "atom_step s l s'"
  shows "atom_run s (l # ls) s''"
  using assms
proof (induction rule: atom_run.induct)
  case (run_start s')
  then show ?case using atom_run.run_step [OF atom_run.run_start, of s l s'] by simp
next
  case (run_step s' ls s2 l' s3)
  then show ?case using atom_run.run_step [of s "l # ls" s2 l' s3] by simp
qed

lemma step_as: "atom_step s l s' \<Longrightarrow> s' = s'' \<Longrightarrow> atom_step s l s''"
  by simp

lemmas sample_calls = two_calls_def idle_calls_def after_failure_def call_becomes_def cas_value pending_def

lemma two_calls_run:
  "atom_run two_calls [Silent, Silent, Silent, Silent, Acted 1 7 (Inr (Faa 1)) 0, Failed 0] after_failure"
proof -
  let ?s = "\<lambda>c d. \<lparr>at_mem = (\<lambda>_. 0), at_calls = [0 \<mapsto> c, 1 \<mapsto> d]\<rparr>"
  let ?half = "Half_called (Faa 1) 7 True 0" and ?loop = "Looping (Faa 1) 7 0"
  let ?s5 = "\<lparr>at_mem = (\<lambda>_. 0)(7 := 1), at_calls = [0 \<mapsto> ?loop, 1 \<mapsto> Returned 0]\<rparr>"
  have "atom_step two_calls Silent (?s ?half (Called (Faa 1) 7))"
    by (rule step_as [OF at_load1 [where t = 0 and op = "Faa 1" and p = 7]]) (auto simp: sample_calls)
  moreover have "atom_step (?s ?half (Called (Faa 1) 7)) Silent (?s ?half ?half)"
    by (rule step_as [OF at_load1 [where t = 1 and op = "Faa 1" and p = 7]]) (auto simp: sample_calls)
  moreover have "atom_step (?s ?half ?half) Silent (?s ?loop ?half)"
    by (rule step_as [OF at_load2 [where t = 0 and op = "Faa 1" and p = 7 and low_first = True and a = 0]]) (auto simp: sample_calls)
  moreover have "atom_step (?s ?loop ?half) Silent (?s ?loop ?loop)"
    by (rule step_as [OF at_load2 [where t = 1 and op = "Faa 1" and p = 7 and low_first = True and a = 0]]) (auto simp: sample_calls)
  moreover have "atom_step (?s ?loop ?loop) (Acted 1 7 (Inr (Faa 1)) 0) ?s5"
    by (rule step_as [OF at_cas_ok [where t = 1 and op = "Faa 1" and p = 7 and previous = 0 and m = "(\<lambda>_. 0)(7 := 1)"]])
      (auto simp: sample_calls)
  moreover have "atom_step ?s5 (Failed 0) after_failure"
    by (rule step_as [OF at_cas_fail [where t = 0 and op = "Faa 1" and p = 7 and previous = 0 and found = 1
          and m = "(\<lambda>_. 0)(7 := 1)"]]) (auto simp: sample_calls)
  ultimately show ?thesis by (blast intro: run_Cons run_start)
qed

lemma idle_calls_run:
  "\<exists>s'. atom_run (idle_calls 0) ([Silent, Silent, Silent, Silent, Silent, Silent, Acted 1 7 (Inr (Faa 1)) 0, Failed 0] @
     [Acted 0 7 (Inr (Faa 1)) 1]) s' \<and> at_calls s' 0 = Some (Returned 1)"
proof -
  let ?s' = "\<lparr>at_mem = (\<lambda>_. 0)(7 := 2), at_calls = [0 \<mapsto> Returned 1, 1 \<mapsto> Returned 0]\<rparr>"
  have "atom_step (idle_calls 0) Silent (call_becomes 0 (Some (Called (Faa 1) 7)) (idle_calls 0))"
    by (rule at_call) (simp add: sample_calls)
  moreover have "atom_step (call_becomes 0 (Some (Called (Faa 1) 7)) (idle_calls 0)) Silent two_calls"
    unfolding two_calls_def by (rule at_call) (simp add: sample_calls)
  moreover have "atom_step after_failure (Acted 0 7 (Inr (Faa 1)) 1) ?s'"
    by (rule step_as [OF at_cas_ok [where t = 0 and op = "Faa 1" and p = 7 and previous = 1 and m = "(\<lambda>_. 0)(7 := 2)"]])
      (auto simp: sample_calls)
  ultimately have "atom_run (idle_calls 0)
      ([Silent, Silent, Silent, Silent, Silent, Silent, Acted 1 7 (Inr (Faa 1)) 0, Failed 0] @ [Acted 0 7 (Inr (Faa 1)) 1]) ?s'"
    by (blast intro: run_Cons run_step two_calls_run)
  then show ?thesis by (intro exI [of _ ?s']) simp
qed

theorem atomics_linearise_witness:
  "\<exists>ls s'. atom_run (idle_calls 0) ls s' \<and> at_mem s' 7 = 2 \<and> (\<exists>p op. last (filter (acts_of 0) ls) = Acted 0 p (Inr op) 1)"
proof -
  let ?ls = "[Silent, Silent, Silent, Silent, Silent, Silent, Acted 1 7 (Inr (Faa 1)) 0, Failed 0] @ [Acted 0 7 (Inr (Faa 1)) 1]"
  obtain s' where s': "atom_run (idle_calls 0) ?ls s'" "at_calls s' 0 = Some (Returned 1)" using idle_calls_run by blast
  note lin = atomics_linearise [OF s'(1)]
  from lin have "replay (at_mem (idle_calls 0)) ?ls = Some (at_mem s')" by blast
  then have "at_mem s' = (\<lambda>_. 0)(7 := 2)" by (auto simp: idle_calls_def)
  then have "at_mem s' 7 = 2" by simp
  moreover have "at_calls (idle_calls 0) 0 = None" by (simp add: idle_calls_def)
  with lin s'(2) have "\<exists>p op. last (filter (acts_of 0) ?ls) = Acted 0 p (Inr op) 1" by blast
  ultimately show ?thesis using s'(1) by blast
qed

theorem loop_failures_bounded_witness:
  "failures 0 [Silent, Silent, Silent, Silent, Acted 1 7 (Inr (Faa 1)) 0, Failed 0] = 1 \<and>
   (\<exists>s'. atom_step after_failure (Acted 0 7 (Inr (Faa 1)) 1) s' \<and> at_calls s' 0 = Some (Returned 1))"
proof -
  have "at_calls two_calls 0 = Some (Called (Faa 1) 7)"
    "\<forall>l\<in>set [Silent, Silent, Silent, Silent, Acted 1 7 (Inr (Faa 1)) 0, Failed 0]. \<not> acts_of 0 l"
    by (simp_all add: two_calls_def)
  note b = loop_failures_bounded [OF two_calls_run this]
  have "at_calls after_failure 0 = Some (Looping (Faa 1) 7 1)" "at_mem after_failure 7 = 1" by (simp_all add: after_failure_def)
  with b show ?thesis by (auto simp: failures_def intro!: exI)
qed

theorem faa_tickets_witness:
  "\<exists>ls s'. atom_run (idle_calls 0) ls s' \<and> actions 7 ls = 2 \<and> at_mem s' 7 = 2"
proof -
  let ?ls = "[Silent, Silent, Silent, Silent, Silent, Silent, Acted 1 7 (Inr (Faa 1)) 0, Failed 0] @ [Acted 0 7 (Inr (Faa 1)) 1]"
  obtain s' where s': "atom_run (idle_calls 0) ?ls s'" using idle_calls_run by blast
  have "at_mem s' 7 = at_mem (idle_calls 0) 7 + of_nat (actions 7 ?ls)" using faa_tickets [OF s', of 7] by auto
  moreover have "actions 7 ?ls = 2" by (simp add: actions_def)
  ultimately show ?thesis using s' by (intro exI conjI) (auto simp: idle_calls_def)
qed

text \<open>A store of 64 bits can be seen half done: while one thread stores \<open>2 ^ 32\<close> over \<open>2 ^ 32 - 1\<close>, a load of
  another thread returns 0.\<close>

theorem store_is_torn:
  "\<exists>ls s'. atom_run (idle_calls (2 ^ 32 - 1)) ls s' \<and> at_mem s' 7 = 2 ^ 32 \<and> at_calls s' 1 = Some (Loaded 0)"
proof -
  let ?m = "(\<lambda>_. 2 ^ 32 - 1) :: words" and ?v = "2 ^ 32 :: u64"
  let ?s = "\<lambda>w c. \<lparr>at_mem = ?m(7 := w), at_calls = c\<rparr>"
  let ?half = "Half_stored 7 True ?v"
  have h: "halves ?v (2 ^ 32 - 1) = 0" "halves 0 ?v = ?v" by (simp_all add: halves_def mask_eq_decr_exp)
  have "atom_step (idle_calls (2 ^ 32 - 1)) (Stored 0 7 True ?v) (?s 0 [0 \<mapsto> ?half])"
    by (rule step_as [OF at_store1 [where t = 0 and p = 7 and low = True and v = ?v]])
      (use h in \<open>auto simp: sample_calls ck_pr_md_store_64_def\<close>)
  moreover have "atom_step (?s 0 [0 \<mapsto> ?half]) Silent (?s 0 [0 \<mapsto> ?half, 1 \<mapsto> Half_loaded 7 True 0])"
    by (rule step_as [OF at_read1 [where t = 1 and p = 7 and low_first = True]]) (auto simp: sample_calls)
  moreover have "atom_step (?s 0 [0 \<mapsto> ?half, 1 \<mapsto> Half_loaded 7 True 0]) Silent (?s 0 [0 \<mapsto> ?half, 1 \<mapsto> Loaded 0])"
    by (rule step_as [OF at_read2 [where t = 1 and p = 7 and low_first = True and a = 0]]) (auto simp: sample_calls)
  moreover have "atom_step (?s 0 [0 \<mapsto> ?half, 1 \<mapsto> Loaded 0]) (Stored 0 7 False ?v) (?s ?v [1 \<mapsto> Loaded 0])"
    using at_store2 [of "?s 0 [0 \<mapsto> ?half, 1 \<mapsto> Loaded 0]" 0 7 True ?v]
    by (auto simp: h(2) [simplified] sample_calls ck_pr_md_store_64_def elim!: step_as)
  ultimately have "atom_run (idle_calls (2 ^ 32 - 1)) [Stored 0 7 True ?v, Silent, Silent, Stored 0 7 False ?v] (?s ?v [1 \<mapsto> Loaded 0])"
    by (blast intro: run_Cons run_start)
  then show ?thesis by (intro exI conjI) auto
qed

end
